(* ===== verification/Prelude.thy ===== *)
theory Prelude
  imports Main "HOL-Library.Word" "HOL-Library.AList"
begin

text \<open>
  The vocabulary every component of the development shares: JavaScript's failure values
  and the result type of code that may throw, byte arrays with the DataView, Buffer and
  Uint8Array operations the packages use, the big- and little-endian integer codecs,
  BigInt division, and the decimal text of a BigInt.

  Conventions. A \<open>bigint\<close> is an \<open>int\<close>; a \<open>number\<close> used as an offset, a length or a byte is a
  \<open>nat\<close>; a \<open>number\<close> that the code tests with \<open>Number.isInteger\<close> is a \<open>js_number\<close>. A
  \<open>Uint8Array\<close> or a \<open>Buffer\<close> is a list of 8-bit words. A string is a \<open>string\<close> holding its
  UTF-8 form, so that \<open>TextEncoder\<close> is the byte-wise reading of it. A thrown exception is the
  left value of a \<open>result\<close>, tagged with its class and the constant part of its message
  (the values interpolated into a message are left out).
\<close>

named_theorems result_simps \<open>unfolding of the result combinators\<close>
named_theorems codec_simps \<open>lengths and round trips of the integer codecs\<close>

section \<open>Exceptions as values\<close>

datatype js_error =
    Error string
  | RangeError string
  | TypeError string
  | SyntaxError string

type_synonym 'a result = "js_error + 'a"

definition rbind :: "'e + 'a \<Rightarrow> ('a \<Rightarrow> 'e + 'b) \<Rightarrow> 'e + 'b" where
  "rbind m f = (case m of Inl e \<Rightarrow> Inl e | Inr x \<Rightarrow> f x)"

lemma rbind_Inl [simp]: "rbind (Inl e) f = Inl e"
  by (simp add: rbind_def)

lemma rbind_Inr [simp]: "rbind (Inr x) f = f x"
  by (simp add: rbind_def)

lemma rbind_eq_Inr_iff [result_simps]:
  "rbind m f = Inr y \<longleftrightarrow> (\<exists>x. m = Inr x \<and> f x = Inr y)"
  by (cases m) auto

lemma rbind_eq_Inl_iff [result_simps]:
  "rbind m f = Inl e \<longleftrightarrow> m = Inl e \<or> (\<exists>x. m = Inr x \<and> f x = Inl e)"
  by (cases m) auto

lemma rbind_InrE [elim]:
  assumes "rbind m f = Inr y"
  obtains x where "m = Inr x" and "f x = Inr y"
  using assms by (auto simp: rbind_eq_Inr_iff)

lemma rbind_assoc: "rbind (rbind m f) g = rbind m (\<lambda>x. rbind (f x) g)"
  by (cases m) auto

text \<open>\<open>promise.catch(() => null)\<close> and the \<open>try ... catch\<close> blocks that fall back to a value.\<close>

definition catch :: "'e + 'a \<Rightarrow> ('e \<Rightarrow> 'a) \<Rightarrow> 'a" where
  "catch m h = (case m of Inl e \<Rightarrow> h e | Inr x \<Rightarrow> x)"

lemma catch_simps [simp]: "catch (Inl e) h = h e" "catch (Inr x) h = x"
  by (simp_all add: catch_def)

section \<open>Numbers\<close>

text \<open>
  \<open>JInt i\<close> is an integral \<open>number\<close>; \<open>JFrac\<close> stands for every value on which
  \<open>Number.isInteger\<close> is false (a fraction, an infinity, NaN).
\<close>

datatype js_number = JInt int | JFrac

fun isInteger :: "js_number \<Rightarrow> bool" where
  "isInteger (JInt _) = True"
| "isInteger JFrac = False"

fun the_int :: "js_number \<Rightarrow> int" where
  "the_int (JInt i) = i"
| "the_int JFrac = 0"

text \<open>BigInt division truncates towards zero and throws on a zero divisor.\<close>

definition bigdiv :: "int \<Rightarrow> int \<Rightarrow> int result" where
  "bigdiv a b =
     (if b = 0 then Inl (RangeError ''Division by zero'')
      else Inr (sgn a * sgn b * (\<bar>a\<bar> div \<bar>b\<bar>)))"

lemma bigdiv_nonneg [simp]: "0 \<le> a \<Longrightarrow> 0 < b \<Longrightarrow> bigdiv a b = Inr (a div b)"
  by (cases "a = 0") (auto simp: bigdiv_def)

lemma bigdiv_zero: "bigdiv a 0 = Inl (RangeError ''Division by zero'')"
  by (simp add: bigdiv_def)

definition U64_MAX :: int where
  "U64_MAX = 2 ^ 64 - 1"

lemma mult_div_le_mono:
  fixes a b c :: int
  shows "a \<le> b \<Longrightarrow> 0 < c \<Longrightarrow> a div c \<le> b div c"
  by (rule zdiv_mono1)

section \<open>Byte arrays\<close>

type_synonym byte = "8 word"
type_synonym bytes = "byte list"

text \<open>\<open>slice(a, b)\<close> and \<open>subarray(a, b)\<close> clamp both ends to the length.\<close>

definition bslice :: "bytes \<Rightarrow> nat \<Rightarrow> nat \<Rightarrow> bytes" where
  "bslice bs a b = take (b - a) (drop a bs)"

lemma length_bslice [codec_simps]:
  "length (bslice bs a b) = min (b - a) (length bs - a)"
  by (simp add: bslice_def)

lemma bslice_append_exact [codec_simps]:
  "length xs = a \<Longrightarrow> b = a + length ys \<Longrightarrow> bslice (xs @ ys @ zs) a b = ys"
  by (simp add: bslice_def)

fun le_nat :: "bytes \<Rightarrow> nat" where
  "le_nat [] = 0"
| "le_nat (b # bs) = unat b + 256 * le_nat bs"

fun nat_le :: "nat \<Rightarrow> nat \<Rightarrow> bytes" where
  "nat_le 0 x = []"
| "nat_le (Suc n) x = of_nat x # nat_le n (x div 256)"

definition be_nat :: "bytes \<Rightarrow> nat" where
  "be_nat bs = le_nat (rev bs)"

definition nat_be :: "nat \<Rightarrow> nat \<Rightarrow> bytes" where
  "nat_be n x = rev (nat_le n x)"

lemma length_nat_le [simp, codec_simps]: "length (nat_le n x) = n"
  by (induction n arbitrary: x) auto

lemma length_nat_be [simp, codec_simps]: "length (nat_be n x) = n"
  by (simp add: nat_be_def)

lemma unat_byte_of_nat: "unat (of_nat x :: byte) = x mod 256"
  by (simp add: unat_of_nat)

lemma le_nat_nat_le [codec_simps]: "le_nat (nat_le n x) = x mod 256 ^ n"
proof (induction n arbitrary: x)
  case 0
  then show ?case by simp
next
  case (Suc n)
  then show ?case
    by (simp add: unat_byte_of_nat mod_mult2_eq add.commute)
qed

lemma be_nat_nat_be [codec_simps]: "be_nat (nat_be n x) = x mod 256 ^ n"
  by (simp add: be_nat_def nat_be_def le_nat_nat_le)

lemma unat_byte_less: "unat (b :: byte) < 256"
  using unsigned_less [of b] by simp

lemma le_nat_bound: "le_nat bs < 256 ^ length bs"
proof (induction bs)
  case Nil
  then show ?case by simp
next
  case (Cons b bs)
  with unat_byte_less [of b] show ?case by simp
qed

lemma be_nat_bound: "be_nat bs < 256 ^ length bs"
  using le_nat_bound [of "rev bs"] by (simp add: be_nat_def)

lemma nat_le_le_nat [codec_simps]: "nat_le (length bs) (le_nat bs) = bs"
proof (induction bs)
  case Nil
  then show ?case by simp
next
  case (Cons b bs)
  have "(unat b + 256 * le_nat bs) div 256 = le_nat bs" using unat_byte_less [of b] by simp
  moreover have "(of_nat (unat b + 256 * le_nat bs) :: byte) = b"
  proof -
    have "(256 :: byte) = 0" by simp
    then have "(of_nat (256 * le_nat bs) :: byte) = 0" by (simp only: of_nat_mult of_nat_numeral) simp
    then show ?thesis by (simp only: of_nat_add) simp
  qed
  ultimately show ?case using Cons by simp
qed

lemma nat_le_inj: "x < 256 ^ n \<Longrightarrow> y < 256 ^ n \<Longrightarrow> nat_le n x = nat_le n y \<Longrightarrow> x = y"
  by (metis le_nat_nat_le mod_less)

text \<open>\<open>bytes.set(ys, off)\<close> and the \<open>view.set..(off, x)\<close> writes, at an offset inside the array.\<close>

definition put :: "bytes \<Rightarrow> nat \<Rightarrow> bytes \<Rightarrow> bytes" where
  "put bs off ys = take off bs @ ys @ drop (off + length ys) bs"

lemma length_put [codec_simps]: "off + length ys \<le> length bs \<Longrightarrow> length (put bs off ys) = length bs"
  by (simp add: put_def)

lemma bslice_put_same:
  "off + length ys \<le> length bs \<Longrightarrow> bslice (put bs off ys) off (off + length ys) = ys"
  by (simp add: put_def bslice_def)

lemma bslice_put_before:
  "off + length ys \<le> length bs \<Longrightarrow> b \<le> off \<Longrightarrow> bslice (put bs off ys) a b = bslice bs a b"
  by (cases "a \<le> b") (simp_all add: put_def bslice_def take_drop)

lemma bslice_put_after:
  assumes "off + length ys \<le> length bs" "off + length ys \<le> a"
  shows "bslice (put bs off ys) a b = bslice bs a b"
proof -
  have "drop a (put bs off ys) = drop (a - (off + length ys)) (drop (off + length ys) bs)"
    using assms by (simp add: put_def drop_append)
  also have "\<dots> = drop a bs" using assms by simp
  finally show ?thesis by (simp add: bslice_def)
qed

lemma bslice_put_inside:
  assumes "off + length ys \<le> length bs" "b \<le> length ys"
  shows "bslice (put bs off ys) (off + a) (off + b) = bslice ys a b"
proof (cases "a \<le> b")
  case True
  with assms show ?thesis by (simp add: put_def bslice_def)
next
  case False
  then show ?thesis by (simp add: bslice_def)
qed

lemma le_nat_replicate_0 [simp]: "le_nat (replicate n 0) = 0"
  by (induction n) auto

lemma bslice_replicate: "bslice (replicate n x) a b = replicate (min (b - a) (n - a)) x"
  by (simp add: bslice_def min.commute)

text \<open>
  \<open>view.getUintN(off, littleEndian)\<close> and \<open>buf.readUIntN..(off)\<close>: an out-of-range offset throws.
\<close>

definition get_le :: "nat \<Rightarrow> bytes \<Rightarrow> nat \<Rightarrow> nat result" where
  "get_le n bs off =
     (if off + n \<le> length bs then Inr (le_nat (bslice bs off (off + n)))
      else Inl (RangeError ''Offset is outside the bounds of the DataView''))"

definition get_be :: "nat \<Rightarrow> bytes \<Rightarrow> nat \<Rightarrow> nat result" where
  "get_be n bs off =
     (if off + n \<le> length bs then Inr (be_nat (bslice bs off (off + n)))
      else Inl (RangeError ''Offset is outside the bounds of the DataView''))"

lemma get_le_in_range [simp]:
  "off + n \<le> length bs \<Longrightarrow> get_le n bs off = Inr (le_nat (bslice bs off (off + n)))"
  by (simp add: get_le_def)

lemma get_be_in_range [simp]:
  "off + n \<le> length bs \<Longrightarrow> get_be n bs off = Inr (be_nat (bslice bs off (off + n)))"
  by (simp add: get_be_def)

text \<open>
  \<open>setBigUint64\<close> and \<open>setUint16\<close> reduce their argument modulo the width; the list is the bytes
  they store.
\<close>

definition u64_le :: "int \<Rightarrow> bytes" where
  "u64_le x = nat_le 8 (nat (x mod 2 ^ 64))"

definition u64_be :: "int \<Rightarrow> bytes" where
  "u64_be x = nat_be 8 (nat (x mod 2 ^ 64))"

lemma length_u64 [simp, codec_simps]: "length (u64_le x) = 8" "length (u64_be x) = 8"
  by (simp_all add: u64_le_def u64_be_def)

lemma le_nat_u64_le: "le_nat (u64_le x) = nat (x mod 2 ^ 64)"
  by (simp add: u64_le_def le_nat_nat_le nat_less_iff)

lemma be_nat_u64_be: "be_nat (u64_be x) = nat (x mod 2 ^ 64)"
  by (simp add: u64_be_def be_nat_nat_be nat_less_iff)

lemma int_le_nat_u64_le: "0 \<le> x \<Longrightarrow> x \<le> U64_MAX \<Longrightarrow> int (le_nat (u64_le x)) = x"
  by (simp add: le_nat_u64_le U64_MAX_def)

lemma u64_le_inj:
  assumes "0 \<le> x" "x \<le> U64_MAX" "0 \<le> y" "y \<le> U64_MAX" "u64_le x = u64_le y"
  shows "x = y"
proof -
  have "nat (x mod 2 ^ 64) < 256 ^ 8" "nat (y mod 2 ^ 64) < 256 ^ 8"
    by (simp_all add: nat_less_iff)
  from nat_le_inj [OF this] assms(5) have "nat (x mod 2 ^ 64) = nat (y mod 2 ^ 64)"
    by (simp add: u64_le_def)
  with assms(1-4) show ?thesis by (simp add: U64_MAX_def)
qed

text \<open>\<open>Buffer.indexOf\<close>: the first offset at which the needle occurs.\<close>

fun index_of :: "bytes \<Rightarrow> bytes \<Rightarrow> nat option" where
  "index_of [] needle = (if needle = [] then Some 0 else None)"
| "index_of (b # bs) needle =
     (if take (length needle) (b # bs) = needle then Some 0
      else map_option Suc (index_of bs needle))"

lemma index_of_Some:
  "index_of bs needle = Some i \<Longrightarrow>
     bslice bs i (i + length needle) = needle \<and> i + length needle \<le> length bs"
proof (induction bs arbitrary: i)
  case Nil
  then show ?case by (auto simp: bslice_def split: if_splits)
next
  case (Cons b bs)
  show ?case
  proof (cases "take (length needle) (b # bs) = needle")
    case True
    then have "length needle \<le> length (b # bs)"
      by (metis length_take min.cobounded2 min_def nat_le_linear)
    with True Cons.prems show ?thesis by (auto simp: bslice_def)
  next
    case False
    with Cons.prems obtain j where "index_of bs needle = Some j" "i = Suc j" by auto
    with Cons.IH show ?thesis by (auto simp: bslice_def)
  qed
qed

section \<open>Text\<close>

definition utf8 :: "string \<Rightarrow> bytes" where
  "utf8 s = map (\<lambda>c. of_nat (of_char c)) s"

lemma length_utf8 [simp]: "length (utf8 s) = length s"
  by (simp add: utf8_def)

lemma utf8_append [simp]: "utf8 (s @ t) = utf8 s @ utf8 t"
  by (simp add: utf8_def)

lemma utf8_Nil [simp]: "utf8 [] = []"
  by (simp add: utf8_def)

lemma of_char_less_256: "(of_char c :: nat) < 256"
  by (cases c) (simp add: of_char_def)

lemma char_of_utf8_byte [simp]: "char_of (unat (of_nat (of_char c) :: byte)) = c"
  by (simp add: unat_byte_of_nat of_char_less_256)

text \<open>The decimal text of a BigInt, and \<open>BigInt(text)\<close> on the canonical decimals the code admits.\<close>

definition digit :: "nat \<Rightarrow> char" where
  "digit d = char_of (48 + d)"

definition digit_val :: "char \<Rightarrow> nat" where
  "digit_val c = of_char c - 48"

definition is_digit :: "char \<Rightarrow> bool" where
  "is_digit c \<longleftrightarrow> 48 \<le> (of_char c :: nat) \<and> (of_char c :: nat) \<le> 57"

fun dec_of_nat :: "nat \<Rightarrow> string" where
  "dec_of_nat n = (if n < 10 then [digit n] else dec_of_nat (n div 10) @ [digit (n mod 10)])"

declare dec_of_nat.simps [simp del]

definition nat_of_dec :: "string \<Rightarrow> nat" where
  "nat_of_dec s = foldl (\<lambda>a c. 10 * a + digit_val c) 0 s"

text \<open>The regular expression \<open>0|[1-9]\\d*\<close>, matched against the whole text.\<close>

definition canonical_dec :: "string \<Rightarrow> bool" where
  "canonical_dec s \<longleftrightarrow>
     s = ''0'' \<or> (s \<noteq> [] \<and> hd s \<noteq> CHR ''0'' \<and> list_all is_digit s)"

lemma char_of_48 [simp]: "char_of (48 :: nat) = CHR ''0''"
  by (simp add: char_of_def bit_iff_odd)

lemma of_char_digit: "d < 10 \<Longrightarrow> (of_char (digit d) :: nat) = 48 + d"
  by (simp add: digit_def)

lemma digit_val_digit [simp]: "d < 10 \<Longrightarrow> digit_val (digit d) = d"
  by (simp add: digit_val_def of_char_digit)

lemma is_digit_digit [simp]: "d < 10 \<Longrightarrow> is_digit (digit d)"
  by (simp add: is_digit_def of_char_digit)

lemma digit_digit_val: "is_digit c \<Longrightarrow> digit (digit_val c) = c"
  by (simp add: is_digit_def digit_def digit_val_def)

lemma digit_val_less: "is_digit c \<Longrightarrow> digit_val c < 10"
  by (auto simp: is_digit_def digit_val_def)

lemma nat_of_dec_snoc [simp]: "nat_of_dec (s @ [c]) = 10 * nat_of_dec s + digit_val c"
  by (simp add: nat_of_dec_def)

lemma nat_of_dec_single [simp]: "nat_of_dec [c] = digit_val c"
  by (simp add: nat_of_dec_def)

lemma nat_of_dec_dec_of_nat [simp]: "nat_of_dec (dec_of_nat n) = n"
proof (induction n rule: dec_of_nat.induct)
  case (1 n)
  then show ?case by (cases "n < 10") (simp_all add: dec_of_nat.simps [of n])
qed

lemma dec_of_nat_digits: "list_all is_digit (dec_of_nat n)"
proof (induction n rule: dec_of_nat.induct)
  case (1 n)
  then show ?case by (cases "n < 10") (simp_all add: dec_of_nat.simps [of n])
qed

lemma dec_of_nat_nonempty [simp]: "dec_of_nat n \<noteq> []"
  by (subst dec_of_nat.simps) simp

lemma hd_dec_of_nat: "0 < n \<Longrightarrow> hd (dec_of_nat n) \<noteq> CHR ''0''"
proof (induction n rule: dec_of_nat.induct)
  case (1 n)
  show ?case
  proof (cases "n < 10")
    case True
    with "1.prems" have "(of_char (digit n) :: nat) \<noteq> of_char CHR ''0''"
      by (simp add: of_char_digit)
    with True show ?thesis by (auto simp: dec_of_nat.simps [of n])
  next
    case False
    with "1.IH" show ?thesis by (simp add: dec_of_nat.simps [of n])
  qed
qed

lemma canonical_dec_of_nat: "canonical_dec (dec_of_nat n)"
proof (cases "n = 0")
  case True
  then show ?thesis by (simp add: canonical_dec_def dec_of_nat.simps [of 0] digit_def)
next
  case False
  then show ?thesis
    by (simp add: canonical_dec_def hd_dec_of_nat dec_of_nat_digits)
qed

lemma foldl_dec_pos:
  "list_all is_digit s \<Longrightarrow> 0 < a \<Longrightarrow> 0 < foldl (\<lambda>a c. 10 * a + digit_val c) a s"
  by (induction s arbitrary: a) auto

lemma digit_val_pos: "is_digit c \<Longrightarrow> c \<noteq> CHR ''0'' \<Longrightarrow> 0 < digit_val c"
proof -
  assume c: "is_digit c" "c \<noteq> CHR ''0''"
  have "(of_char c :: nat) \<noteq> 48"
  proof
    assume "(of_char c :: nat) = 48"
    then have "char_of (of_char c :: nat) = CHR ''0''" by simp
    with c(2) show False by simp
  qed
  with c(1) show ?thesis by (simp add: is_digit_def digit_val_def)
qed

lemma dec_of_nat_nat_of_dec:
  assumes "s \<noteq> []" "hd s \<noteq> CHR ''0''" "list_all is_digit s"
  shows "dec_of_nat (nat_of_dec s) = s"
  using assms
proof (induction s rule: rev_induct)
  case Nil
  then show ?case by simp
next
  case (snoc c s)
  then have c: "is_digit c" by simp
  show ?case
  proof (cases "s = []")
    case True
    with c show ?thesis
      by (subst dec_of_nat.simps) (simp add: digit_val_less digit_digit_val)
  next
    case False
    with snoc have IH: "dec_of_nat (nat_of_dec s) = s" by simp
    from False obtain d r where s: "s = d # r" by (cases s) auto
    with snoc.prems have "is_digit d" "d \<noteq> CHR ''0''" "list_all is_digit r" by auto
    then have "0 < nat_of_dec s"
      by (simp add: s nat_of_dec_def foldl_dec_pos digit_val_pos)
    with IH c show ?thesis
      by (subst dec_of_nat.simps) (simp add: digit_val_less digit_digit_val)
  qed
qed

lemma canonical_dec_unique: "canonical_dec s \<Longrightarrow> dec_of_nat (nat_of_dec s) = s"
  by (auto simp: canonical_dec_def dec_of_nat_nat_of_dec)
     (simp add: dec_of_nat.simps digit_def digit_val_def)

end
