(* ===== verification/Constants.thy ===== *)
theory Constants
  imports Prelude
begin

text \<open>
  The SDK's constants (\<open>packages/sdk/src/constants.ts\<close>): chain ids, program ids, PDA seeds,
  decimals and protocol parameters. A base58 literal of the source is kept as written and read
  by \<open>pk58\<close>.
\<close>

type_synonym pubkey = bytes

definition base58_alphabet :: string where
  "base58_alphabet = ''123456789ABCDEFGHJKLMNPQRSTUVWXYZabcdefghijkmnopqrstuvwxyz''"

fun position :: "'a \<Rightarrow> 'a list \<Rightarrow> nat" where
  "position x [] = 0"
| "position x (y # ys) = (if x = y then 0 else Suc (position x ys))"

text \<open>The 32 bytes a base58 public-key literal stands for.\<close>

definition pk58 :: "string \<Rightarrow> pubkey" where
  "pk58 s = nat_be 32 (foldl (\<lambda>a c. 58 * a + position c base58_alphabet) 0 s)"

lemma length_pk58 [simp]: "length (pk58 s) = 32"
  by (simp add: pk58_def)

definition SOLANA_WORMHOLE_CHAIN_ID :: nat where
  "SOLANA_WORMHOLE_CHAIN_ID = 1"

definition FOGO_WORMHOLE_CHAIN_ID :: nat where
  "FOGO_WORMHOLE_CHAIN_ID = 51"

definition RELAYER_PROGRAM_ID :: pubkey where
  "RELAYER_PROGRAM_ID = pk58 ''onrenRKgX54qtWeK3cuaTBE71xx7dWMXn82ubH61vAp''"

definition ONRE_PROGRAM_ID :: pubkey where
  "ONRE_PROGRAM_ID = pk58 ''onreuGhHHgVzMWSkj2oQDLDtvvGvoepBPkqyaubFcwe''"

definition NTT_USDC_PROGRAM_ID :: pubkey where
  "NTT_USDC_PROGRAM_ID = pk58 ''nttu74CdAmsErx5daJVCQNoDZujswFrskMzonoZSdGk''"

definition NTT_ONYC_PROGRAM_ID :: pubkey where
  "NTT_ONYC_PROGRAM_ID = pk58 ''nttpna5vXW7BN2Aa4AfTbkCncJWTEoBsnWvjS87Xgsd''"

definition WH_TRANSCEIVER_ONYC_PROGRAM_ID :: pubkey where
  "WH_TRANSCEIVER_ONYC_PROGRAM_ID = NTT_ONYC_PROGRAM_ID"

definition INTENT_TRANSFER_PROGRAM_ID :: pubkey where
  "INTENT_TRANSFER_PROGRAM_ID = pk58 ''Xfry4dW9m42ncAqm8LyEnyS5V6xu5DSJTMRQLiGkARD''"

definition ONRE_INTENT_PROGRAM_ID :: pubkey where
  "ONRE_INTENT_PROGRAM_ID = pk58 ''inTFf5S7ZtYr8SkwGG85mjDwAyJwjqEPdH2p2nuyrL9''"

definition GLOBAL_CONFIG_SEED :: bytes where
  "GLOBAL_CONFIG_SEED = utf8 ''global_config''"

definition CONFIG_SEED :: bytes where
  "CONFIG_SEED = utf8 ''relayer_config''"

definition RELAYER_SEED :: bytes where
  "RELAYER_SEED = utf8 ''relayer''"

definition FLOW_INBOUND_SEED :: bytes where
  "FLOW_INBOUND_SEED = utf8 ''inflight''"

definition FLOW_OUTBOUND_SEED :: bytes where
  "FLOW_OUTBOUND_SEED = utf8 ''outflight''"

definition USER_INBOX_SEED :: bytes where
  "USER_INBOX_SEED = utf8 ''user_inbox''"

definition INTENT_TRANSFER_SETTER_SEED :: bytes where
  "INTENT_TRANSFER_SETTER_SEED = utf8 ''intent_transfer''"

definition PROGRAM_SIGNER_SEED :: bytes where
  "PROGRAM_SIGNER_SEED = utf8 ''fogo_session_program_signer''"

definition REFUND_TIMEOUT_SLOTS :: int where
  "REFUND_TIMEOUT_SLOTS = 54000"

definition USDC_DECIMALS :: nat where
  "USDC_DECIMALS = 6"

definition ONYC_DECIMALS :: nat where
  "ONYC_DECIMALS = 9"

definition FEE_DENOMINATOR_BPS :: int where
  "FEE_DENOMINATOR_BPS = 10000"

definition MAX_FEE_BPS :: int where
  "MAX_FEE_BPS = 1000"

definition SECONDS_PER_YEAR :: int where
  "SECONDS_PER_YEAR = 31536000"

section \<open>Constants that only tools use\<close>

definition PYTH_RECEIVER_PROGRAM_ID :: pubkey where
  "PYTH_RECEIVER_PROGRAM_ID = pk58 ''rec5EKMGg6MxZYaMdyBfgwp4d5rB9T1VQH5pJv5LtFJ''"

definition PYTH_WORMHOLE_PROGRAM_ID :: pubkey where
  "PYTH_WORMHOLE_PROGRAM_ID = pk58 ''HDwcJBJXjL9FpJ7UBsYBtaDjsBUhuLCUYoz3zr8SWWaQ''"

definition NTT_SESSION_AUTHORITY_SEED :: bytes where
  "NTT_SESSION_AUTHORITY_SEED = utf8 ''session_authority''"

definition FOGO_ONYC_DECIMALS :: nat where
  "FOGO_ONYC_DECIMALS = ONYC_DECIMALS"

definition FEE_TIMELOCK_SLOTS :: int where
  "FEE_TIMELOCK_SLOTS = 432000"

end
