(* ===== verification/Codec.thy ===== *)
theory Codec
  imports Constants
begin

text \<open>
  Field readers over a byte buffer and the contract that the account and message decoders rely on.

  A reader takes the buffer and an offset and gives the field with the offset behind it, or throws.
  The locale \<open>codec\<close> pairs a reader with the byte form of its values: a reader finds at its offset the
  value whose byte form stands there. Decoders that read field after field inherit their round trips from
  it, and \<open>codec_pair\<close> composes two of them. The interpretations are the \<open>Reader\<close> methods of
  \<open>packages/sdk/src/builders/ntt-state.ts\<close> and the big-endian \<open>DataView\<close> reads of
  \<open>packages/sdk/src/bridge/vaa.ts\<close>.

  Third-party functions appear as parameters: \<open>web3_env\<close> holds web3.js's \<open>findProgramAddressSync\<close>, its
  \<open>PublicKey\<close> constructor on bytes and the associated-token derivation, the hash functions of
  \<open>@noble/hashes\<close>, the base58 text of a key, the curve test, and the addresses of the system programs.
\<close>

section \<open>Third-party functions\<close>

record web3_env =
  fpa :: "bytes list \<Rightarrow> pubkey \<Rightarrow> (pubkey \<times> nat) result"
  newPublicKey :: "bytes \<Rightarrow> pubkey result"
  ata :: "pubkey \<Rightarrow> pubkey \<Rightarrow> bool \<Rightarrow> pubkey \<Rightarrow> pubkey result"
  sha256 :: "bytes \<Rightarrow> bytes"
  keccak256 :: "bytes \<Rightarrow> bytes"
  TOKEN_PROGRAM_ID :: pubkey
  SYSTEM_PROGRAM_ID :: pubkey
  SYSVAR_CLOCK_PUBKEY :: pubkey
  SYSVAR_RENT_PUBKEY :: pubkey
  SYSVAR_INSTRUCTIONS_PUBKEY :: pubkey
  ASSOCIATED_TOKEN_PROGRAM_ID :: pubkey
  toBase58 :: "pubkey \<Rightarrow> string"
  fromBase58 :: "string \<Rightarrow> pubkey result"
  isOnCurve :: "bytes \<Rightarrow> bool"

text \<open>\<open>const [key] = findProgramAddressSync(...)\<close> keeps the address and drops the bump.\<close>

definition key_of :: "(pubkey \<times> nat) result \<Rightarrow> pubkey result" where
  "key_of r = rbind r (\<lambda>(k, _). Inr k)"

text \<open>The constructor accepts exactly 32 bytes unchanged.\<close>

definition pubkey_ctor_ok :: "web3_env \<Rightarrow> bool" where
  "pubkey_ctor_ok env \<longleftrightarrow> (\<forall>bs. length bs = 32 \<longrightarrow> newPublicKey env bs = Inr bs)"

text \<open>Program addresses are hashes of the concatenated seeds, the bump byte and the program.\<close>

definition pda_collision_free :: "web3_env \<Rightarrow> bool" where
  "pda_collision_free env \<longleftrightarrow>
     (\<forall>s s' p p' k b b'. fpa env s p = Inr (k, b) \<longrightarrow> fpa env s' p' = Inr (k, b') \<longrightarrow>
        concat s = concat s' \<and> p = p')"

text \<open>Every derivation succeeds. The libraries do not promise this (long seeds and off-curve owners are refused); it holds of the
  concrete environments below, where it shortens the construction of witnesses. No property assumes it.\<close>

definition env_total :: "web3_env \<Rightarrow> bool" where
  "env_total env \<longleftrightarrow> (\<forall>s p. \<exists>k b. fpa env s p = Inr (k, b)) \<and> (\<forall>m w a t. \<exists>k. ata env m w a t = Inr k)"

section \<open>The contract\<close>

lemma drop_rest: "drop off buf = bs @ r \<Longrightarrow> drop (off + length bs) buf = r"
  by (metis add.commute append_eq_conv_conj drop_drop)

locale codec =
  fixes enc :: "'a \<Rightarrow> bytes"
    and dec :: "bytes \<Rightarrow> nat \<Rightarrow> ('a \<times> nat) result"
    and valid :: "'a \<Rightarrow> bool"
  assumes dec_enc: "valid x \<Longrightarrow> drop off buf = enc x @ rest \<Longrightarrow> dec buf off = Inr (x, off + length (enc x))"
begin

lemma rest: "drop off buf = enc x @ r \<Longrightarrow> drop (off + length (enc x)) buf = r"
  by (rule drop_rest)

lemma enc_prefix_free:
  assumes "valid x" "valid y" "enc x @ r = enc y @ r'"
  shows "x = y \<and> r = r'"
proof -
  have "dec (enc x @ r) 0 = Inr (x, length (enc x))" using dec_enc [OF assms(1), of 0] by simp
  moreover have "dec (enc x @ r) 0 = Inr (y, length (enc y))" using dec_enc [OF assms(2), of 0] assms(3) by simp
  ultimately show ?thesis using assms(3) by simp
qed

end

locale codec_pair = a: codec encA decA validA + b: codec encB decB validB
  for encA :: "'a \<Rightarrow> bytes" and decA validA and encB :: "'b \<Rightarrow> bytes" and decB validB
begin

lemma dec_pair:
  assumes "validA x" "validB y" "drop off buf = encA x @ encB y @ rest"
  shows "rbind (decA buf off) (\<lambda>(x', off'). rbind (decB buf off') (\<lambda>(y', off''). Inr ((x', y'), off''))) =
    Inr ((x, y), off + length (encA x @ encB y))"
  using a.dec_enc [OF assms(1,3)] b.dec_enc [OF assms(2) a.rest [OF assms(3)]] by simp

end

section \<open>Readers\<close>

definition read_le :: "nat \<Rightarrow> bytes \<Rightarrow> nat \<Rightarrow> (nat \<times> nat) result" where
  "read_le n buf off = rbind (get_le n buf off) (\<lambda>v. Inr (v, off + n))"

definition read_be :: "nat \<Rightarrow> bytes \<Rightarrow> nat \<Rightarrow> (nat \<times> nat) result" where
  "read_be n buf off = rbind (get_be n buf off) (\<lambda>v. Inr (v, off + n))"

lemma drop_room: "drop off buf = bs @ r \<Longrightarrow> bs \<noteq> [] \<Longrightarrow> off + length bs \<le> length buf"
proof -
  assume d: "drop off buf = bs @ r" "bs \<noteq> []"
  have "length buf - off = length bs + length r" using arg_cong [OF d(1), of length] by simp
  moreover have "0 < length bs" using d(2) by simp
  ultimately show ?thesis by linarith
qed

lemma drop_bslice: "drop off buf = bs @ r \<Longrightarrow> bslice buf off (off + length bs) = bs"
  by (simp add: bslice_def)

lemma read_le_enc:
  assumes "0 < n" "v < 256 ^ n" "drop off buf = nat_le n v @ r"
  shows "read_le n buf off = Inr (v, off + n)"
proof -
  have "nat_le n v \<noteq> []" using assms(1) by (metis length_nat_le less_numeral_extra(3) list.size(3))
  from drop_room [OF assms(3) this] drop_bslice [OF assms(3)] assms(2) show ?thesis
    by (simp add: read_le_def le_nat_nat_le)
qed

lemma read_be_enc:
  assumes "0 < n" "v < 256 ^ n" "drop off buf = nat_be n v @ r"
  shows "read_be n buf off = Inr (v, off + n)"
proof -
  have "nat_be n v \<noteq> []" using assms(1) by (metis length_nat_be less_numeral_extra(3) list.size(3))
  from drop_room [OF assms(3) this] drop_bslice [OF assms(3)] assms(2) show ?thesis
    by (simp add: read_be_def be_nat_nat_be)
qed

definition read_u8 :: "bytes \<Rightarrow> nat \<Rightarrow> (nat \<times> nat) result" where
  "read_u8 = read_le 1"

definition read_u16 :: "bytes \<Rightarrow> nat \<Rightarrow> (nat \<times> nat) result" where
  "read_u16 = read_le 2"

definition read_u64 :: "bytes \<Rightarrow> nat \<Rightarrow> (nat \<times> nat) result" where
  "read_u64 = read_le 8"

definition read_u128 :: "bytes \<Rightarrow> nat \<Rightarrow> (nat \<times> nat) result" where
  "read_u128 buf off =
     rbind (get_le 8 buf off) (\<lambda>lo.
     rbind (get_le 8 buf (off + 8)) (\<lambda>hi.
       Inr (hi * 2 ^ 64 + lo, off + 16)))"

definition read_i64 :: "bytes \<Rightarrow> nat \<Rightarrow> (int \<times> nat) result" where
  "read_i64 buf off =
     rbind (get_le 8 buf off) (\<lambda>v.
       Inr (if v < 2 ^ 63 then int v else int v - 2 ^ 64, off + 8))"

definition read_bool :: "bytes \<Rightarrow> nat \<Rightarrow> (bool \<times> nat) result" where
  "read_bool buf off = rbind (read_u8 buf off) (\<lambda>(v, off'). Inr (v \<noteq> 0, off'))"

definition read_pubkey :: "web3_env \<Rightarrow> bytes \<Rightarrow> nat \<Rightarrow> (pubkey \<times> nat) result" where
  "read_pubkey env buf off =
     rbind (newPublicKey env (bslice buf off (off + 32))) (\<lambda>v. Inr (v, off + 32))"

definition read_optionPubkey :: "web3_env \<Rightarrow> bytes \<Rightarrow> nat \<Rightarrow> (pubkey option \<times> nat) result" where
  "read_optionPubkey env buf off =
     rbind (read_bool buf off) (\<lambda>(b, off').
       if b then rbind (read_pubkey env buf off') (\<lambda>(k, off''). Inr (Some k, off''))
       else Inr (None, off'))"

section \<open>Byte forms\<close>

definition enc_bool :: "bool \<Rightarrow> bytes" where
  "enc_bool b = [if b then 1 else 0]"

definition enc_i64 :: "int \<Rightarrow> bytes" where
  "enc_i64 v = nat_le 8 (nat (v mod 2 ^ 64))"

definition enc_optionPubkey :: "pubkey option \<Rightarrow> bytes" where
  "enc_optionPubkey k = (case k of None \<Rightarrow> [0] | Some p \<Rightarrow> 1 # p)"

lemma nat_le_split:
  "nat_le (m + n) x = nat_le m x @ nat_le n (x div 256 ^ m)"
  by (induction m arbitrary: x) (simp_all add: div_mult2_eq)

lemma read_u128_enc:
  assumes "v < 256 ^ 16" "drop off buf = nat_le 16 v @ r"
  shows "read_u128 buf off = Inr (v, off + 16)"
proof -
  let ?lo = "v mod 256 ^ 8" and ?hi = "v div 256 ^ 8"
  have split: "nat_le 16 v = nat_le 8 v @ nat_le 8 ?hi" using nat_le_split [of 8 8 v] by simp
  have d: "drop off buf = nat_le 8 v @ nat_le 8 ?hi @ r" using assms(2) split by simp
  from drop_rest [OF this] have d2: "drop (off + 8) buf = nat_le 8 ?hi @ r" by simp
  have "nat_le 16 v \<noteq> []" using length_nat_le [of 16 v] by fastforce
  from drop_room [OF assms(2) this] have "off + 16 \<le> length buf" by simp
  moreover have "bslice buf off (off + 8) = nat_le 8 v" "bslice buf (off + 8) (16 + off) = nat_le 8 ?hi"
    using drop_bslice [OF d] drop_bslice [OF d2] by simp_all
  ultimately have "read_u128 buf off = Inr (?hi mod 256 ^ 8 * 2 ^ 64 + ?lo, off + 16)"
    by (simp add: read_u128_def le_nat_nat_le)
  moreover have "?hi < 256 ^ 8" using assms(1) by (simp add: less_mult_imp_div_less)
  moreover have "?hi * 256 ^ 8 + ?lo = v" by (rule div_mult_mod_eq)
  ultimately show ?thesis by simp
qed

interpretation u8: codec "nat_le 1" read_u8 "\<lambda>v. v < 256"
  by unfold_locales (simp add: read_u8_def read_le_enc)

interpretation u16: codec "nat_le 2" read_u16 "\<lambda>v. v < 65536"
  by unfold_locales (simp add: read_u16_def read_le_enc)

interpretation u64: codec "nat_le 8" read_u64 "\<lambda>v. v < 256 ^ 8"
  by unfold_locales (unfold read_u64_def, subst read_le_enc, auto)

interpretation u128: codec "nat_le 16" read_u128 "\<lambda>v. v < 256 ^ 16"
  by unfold_locales (simp only: read_u128_enc length_nat_le)

interpretation be16: codec "nat_be 2" "read_be 2" "\<lambda>v. v < 65536"
  by unfold_locales (simp add: read_be_enc)

interpretation be32: codec "nat_be 4" "read_be 4" "\<lambda>v. v < 256 ^ 4"
  by unfold_locales (subst read_be_enc, auto)

interpretation be64: codec "nat_be 8" "read_be 8" "\<lambda>v. v < 256 ^ 8"
  by unfold_locales (subst read_be_enc, auto)

interpretation bool1: codec enc_bool read_bool "\<lambda>_. True"
proof
  fix x and off :: nat and buf rest :: bytes
  assume d: "drop off buf = enc_bool x @ rest"
  have "enc_bool x = nat_le 1 (if x then 1 else 0)" by (simp add: enc_bool_def)
  with d have "drop off buf = nat_le 1 (if x then 1 else 0) @ rest" by simp
  from u8.dec_enc [OF _ this] show "read_bool buf off = Inr (x, off + length (enc_bool x))"
    by (simp add: read_bool_def enc_bool_def split: if_splits)
qed

interpretation i64: codec enc_i64 read_i64 "\<lambda>v. - (2 ^ 63) \<le> v \<and> v < 2 ^ 63"
proof
  fix v :: int and off :: nat and buf rest :: bytes
  assume v: "- (2 ^ 63) \<le> v \<and> v < 2 ^ 63" and d: "drop off buf = enc_i64 v @ rest"
  have "nat (v mod 2 ^ 64) < 256 ^ 8" by (simp add: nat_less_iff)
  with d have "read_le 8 buf off = Inr (nat (v mod 2 ^ 64), off + 8)"
    by (intro read_le_enc) (simp_all add: enc_i64_def)
  then have "get_le 8 buf off = Inr (nat (v mod 2 ^ 64))"
    by (auto simp: read_le_def result_simps)
  moreover have "v mod 2 ^ 64 = (if 0 \<le> v then v else v + 2 ^ 64)"
  proof (cases "0 \<le> v")
    case False
    have "v mod 2 ^ 64 = (v + 2 ^ 64) mod 2 ^ 64" by (rule mod_add_self2 [symmetric])
    also have "\<dots> = v + 2 ^ 64" using False v by (intro mod_pos_pos_trivial) auto
    finally show ?thesis using False by simp
  qed (use v in simp)
  ultimately show "read_i64 buf off = Inr (v, off + length (enc_i64 v))"
    using v by (auto simp: read_i64_def enc_i64_def nat_less_iff split: if_splits)
qed

text \<open>
  The key readers depend on the \<open>PublicKey\<close> constructor; they are codecs for every environment whose
  constructor keeps 32 bytes.
\<close>

lemma read_pubkey_codec: "pubkey_ctor_ok env \<Longrightarrow> codec (\<lambda>k. k) (read_pubkey env) (\<lambda>k. length k = 32)"
proof
  fix k buf rest :: bytes and off :: nat
  assume "pubkey_ctor_ok env" "length k = 32" and d: "drop off buf = k @ rest"
  then show "read_pubkey env buf off = Inr (k, off + length k)"
    using drop_bslice [OF d] by (simp add: read_pubkey_def pubkey_ctor_ok_def)
qed

lemma read_optionPubkey_codec:
  assumes "pubkey_ctor_ok env"
  shows "codec enc_optionPubkey (read_optionPubkey env) (\<lambda>k. case k of None \<Rightarrow> True | Some p \<Rightarrow> length p = 32)"
proof
  fix k :: "pubkey option" and off :: nat and buf rest :: bytes
  assume v: "case k of None \<Rightarrow> True | Some p \<Rightarrow> length p = 32" and d: "drop off buf = enc_optionPubkey k @ rest"
  show "read_optionPubkey env buf off = Inr (k, off + length (enc_optionPubkey k))"
  proof (cases k)
    case None
    with d have "drop off buf = enc_bool False @ rest" by (simp add: enc_optionPubkey_def enc_bool_def)
    from bool1.dec_enc [OF _ this] None show ?thesis
      by (simp add: read_optionPubkey_def enc_optionPubkey_def enc_bool_def)
  next
    case (Some p)
    with d have b: "drop off buf = enc_bool True @ p @ rest" by (simp add: enc_optionPubkey_def enc_bool_def)
    from codec.dec_enc [OF read_pubkey_codec [OF assms] _ bool1.rest [OF b]] bool1.dec_enc [OF _ b] v Some
    show ?thesis by (simp add: read_optionPubkey_def enc_optionPubkey_def enc_bool_def)
  qed
qed

text \<open>An environment whose functions compute, in which the hypotheses on third-party code hold.\<close>

definition model_env :: web3_env where
  "model_env =
     \<lparr>fpa = (\<lambda>seeds p. Inr (replicate (length (concat seeds)) 0 @ [1] @ concat seeds @ p, 255)),
      newPublicKey = (\<lambda>bs. if length bs \<le> 32 then Inr (replicate (32 - length bs) 0 @ bs)
                          else Inl (Error ''Invalid public key input'')),
      ata = (\<lambda>mint own allow tp. Inr (take 16 mint @ take 16 own)),
      sha256 = (\<lambda>bs. take 32 (bs @ replicate 32 0)),
      keccak256 = (\<lambda>bs. take 32 (bs @ replicate 32 1)),
      TOKEN_PROGRAM_ID = replicate 32 6, SYSTEM_PROGRAM_ID = replicate 32 0,
      SYSVAR_CLOCK_PUBKEY = replicate 32 7, SYSVAR_RENT_PUBKEY = replicate 32 8,
      SYSVAR_INSTRUCTIONS_PUBKEY = replicate 32 9, ASSOCIATED_TOKEN_PROGRAM_ID = replicate 32 10,
      toBase58 = map (\<lambda>b. char_of (unat b)), fromBase58 = (\<lambda>s. Inr (utf8 s)),
      isOnCurve = (\<lambda>bs. take 1 bs = [255])\<rparr>"

lemma model_env_ctor: "pubkey_ctor_ok model_env"
  by (simp add: pubkey_ctor_ok_def model_env_def)

lemma unary_prefix_inj:
  assumes "replicate m 0 @ [1] @ xs = replicate n 0 @ [1] @ (ys :: bytes)"
  shows "m = n \<and> xs = ys"
proof -
  have tw: "takeWhile (\<lambda>b. b = 0) (replicate m 0 @ [1] @ zs) = replicate m (0 :: byte)" for m zs
    by (induction m) auto
  have "replicate m (0 :: byte) = replicate n 0" using tw [of m xs] tw [of n ys] assms by simp
  then have "m = n" by (metis length_replicate)
  with assms show ?thesis by simp
qed

lemma model_env_pda: "pda_collision_free model_env"
proof -
  have inj: "concat s = concat s' \<and> p = p'"
    if "replicate (length (concat s)) 0 @ [1] @ concat s @ p =
        replicate (length (concat s')) 0 @ [1] @ concat s' @ (p' :: bytes)" for s s' p p'
    using unary_prefix_inj [OF that] append_eq_append_conv [of "concat s" "concat s'" p p'] by blast
  show ?thesis unfolding pda_collision_free_def
  proof (intro allI impI)
    fix s s' p p' k b b'
    assume "fpa model_env s p = Inr (k, b)" "fpa model_env s' p' = Inr (k, b')"
    then show "concat s = concat s' \<and> p = p'"
      by (intro inj) (simp add: model_env_def)
  qed
qed

lemma model_env_total: "env_total model_env"
  by (simp add: env_total_def model_env_def)

text \<open>The same environment with one address pinned to a given key.\<close>

definition pin_env :: "bytes \<Rightarrow> pubkey \<Rightarrow> pubkey \<Rightarrow> web3_env" where
  "pin_env seed prog key = model_env\<lparr>fpa := (\<lambda>s p. if concat s = seed \<and> p = prog then Inr (key, 255) else fpa model_env s p)\<rparr>"

lemma pin_env_ctor: "pubkey_ctor_ok (pin_env seed prog key)"
  using model_env_ctor by (simp add: pubkey_ctor_ok_def pin_env_def)

lemma pin_env_total: "env_total (pin_env seed prog key)"
  using model_env_total by (simp add: env_total_def pin_env_def)

lemma pin_env_pda:
  assumes "1 < hd key"
  shows "pda_collision_free (pin_env seed prog key)"
proof -
  have img: "k \<noteq> key" if "fpa model_env s p = Inr (k, b)" for s p k b
  proof -
    from that have "hd k = 0 \<or> hd k = 1" by (cases "length (concat s)") (auto simp: model_env_def)
    with assms show ?thesis by auto
  qed
  show ?thesis unfolding pda_collision_free_def
  proof (intro allI impI)
    fix s s' p p' k b b'
    assume "fpa (pin_env seed prog key) s p = Inr (k, b)" "fpa (pin_env seed prog key) s' p' = Inr (k, b')"
    then show "concat s = concat s' \<and> p = p'"
      using model_env_pda img unfolding pda_collision_free_def
      by (simp add: pin_env_def split: if_splits) (metis, metis, blast)
  qed
qed

end
