(* ===== verification/Ntt_State.thy ===== *)
theory Ntt_State
  imports Codec
begin

text \<open>
  Anchor discriminators (\<open>packages/sdk/src/utils/discriminators.ts\<close>) and the decoders of the NTT \<open>Config\<close>
  and \<open>InboxItem\<close> accounts (\<open>packages/sdk/src/builders/ntt-state.ts\<close>). The Borsh layouts of the two accounts
  are written as encoders, against which the decoders are proved to be inverse.
\<close>

definition ixDiscriminator :: "web3_env \<Rightarrow> string \<Rightarrow> bytes" where
  "ixDiscriminator env name = bslice (sha256 env (utf8 (''global:'' @ name))) 0 8"

definition accountDiscriminator :: "web3_env \<Rightarrow> string \<Rightarrow> bytes" where
  "accountDiscriminator env name = bslice (sha256 env (utf8 (''account:'' @ name))) 0 8"

definition CONFIG_DISCRIMINATOR :: "web3_env \<Rightarrow> bytes" where
  "CONFIG_DISCRIMINATOR env = accountDiscriminator env ''Config''"

definition INBOX_ITEM_DISCRIMINATOR :: "web3_env \<Rightarrow> bytes" where
  "INBOX_ITEM_DISCRIMINATOR env = accountDiscriminator env ''InboxItem''"

datatype NttManagerMode = Locking | Burning

record NttConfig =
  ncBump :: nat
  ncOwner :: pubkey
  ncPendingOwner :: "pubkey option"
  ncMint :: pubkey
  ncTokenProgram :: pubkey
  ncMode :: NttManagerMode
  ncChainId :: nat
  ncNextTransceiverId :: nat
  ncThreshold :: nat
  ncEnabledTransceivers :: nat
  ncPaused :: bool
  ncCustody :: pubkey

datatype NttInboxReleaseStatus = NotApproved | ReleaseAfter int | Released

record NttInboxItem =
  iiInit :: bool
  iiBump :: nat
  iiAmount :: nat
  iiRecipientAddress :: pubkey
  iiVotes :: nat
  iiReleaseStatus :: NttInboxReleaseStatus

definition checkDiscriminator :: "bytes \<Rightarrow> bytes \<Rightarrow> unit result" where
  "checkDiscriminator data expected =
     (if length data < 8 then Inl (Error ''account too short'')
      else if \<exists>i \<in> set [0..<8]. data ! i \<noteq> expected ! i then Inl (Error ''discriminator mismatch'')
      else Inr ())"

definition decodeNttConfig :: "web3_env \<Rightarrow> bytes \<Rightarrow> NttConfig result" where
  "decodeNttConfig env data =
     rbind (checkDiscriminator data (CONFIG_DISCRIMINATOR env)) (\<lambda>_.
     let buf = drop 8 data in
     rbind (read_u8 buf 0) (\<lambda>(bump, off).
     rbind (read_pubkey env buf off) (\<lambda>(own, off).
     rbind (read_optionPubkey env buf off) (\<lambda>(pendingOwner, off).
     rbind (read_pubkey env buf off) (\<lambda>(mint, off).
     rbind (read_pubkey env buf off) (\<lambda>(tokenProgram, off).
     rbind (read_u8 buf off) (\<lambda>(modeByte, off).
     rbind (if modeByte = 0 then Inr Locking else if modeByte = 1 then Inr Burning
            else Inl (Error ''NttConfig: unknown mode byte'')) (\<lambda>mode.
     rbind (read_u16 buf off) (\<lambda>(chainId, off).
     rbind (read_u8 buf off) (\<lambda>(nextTransceiverId, off).
     rbind (read_u8 buf off) (\<lambda>(threshold, off).
     rbind (read_u128 buf off) (\<lambda>(enabledTransceivers, off).
     rbind (read_bool buf off) (\<lambda>(paused, off).
     rbind (read_pubkey env buf off) (\<lambda>(custody, off).
       Inr \<lparr>ncBump = bump, ncOwner = own, ncPendingOwner = pendingOwner, ncMint = mint,
            ncTokenProgram = tokenProgram, ncMode = mode, ncChainId = chainId,
            ncNextTransceiverId = nextTransceiverId, ncThreshold = threshold,
            ncEnabledTransceivers = enabledTransceivers, ncPaused = paused, ncCustody = custody\<rparr>))))))))))))))"

definition decodeNttInboxItem :: "web3_env \<Rightarrow> bytes \<Rightarrow> NttInboxItem result" where
  "decodeNttInboxItem env data =
     rbind (checkDiscriminator data (INBOX_ITEM_DISCRIMINATOR env)) (\<lambda>_.
     let buf = drop 8 data in
     rbind (read_bool buf 0) (\<lambda>(ini, off).
     rbind (read_u8 buf off) (\<lambda>(bump, off).
     rbind (read_u64 buf off) (\<lambda>(amount, off).
     rbind (read_pubkey env buf off) (\<lambda>(recipientAddress, off).
     rbind (read_u128 buf off) (\<lambda>(votes, off).
     rbind (read_u8 buf off) (\<lambda>(tag, off).
     rbind (if tag = 0 then Inr NotApproved
            else if tag = 1 then rbind (read_i64 buf off) (\<lambda>(ts, _). Inr (ReleaseAfter ts))
            else if tag = 2 then Inr Released
            else Inl (Error ''NttInboxItem: unknown ReleaseStatus tag'')) (\<lambda>releaseStatus.
       Inr \<lparr>iiInit = ini, iiBump = bump, iiAmount = amount, iiRecipientAddress = recipientAddress,
            iiVotes = votes, iiReleaseStatus = releaseStatus\<rparr>))))))))"

section \<open>Borsh layouts\<close>

definition encodeNttConfig :: "web3_env \<Rightarrow> NttConfig \<Rightarrow> bytes" where
  "encodeNttConfig env c =
     CONFIG_DISCRIMINATOR env @ nat_le 1 (ncBump c) @ ncOwner c @ enc_optionPubkey (ncPendingOwner c) @ ncMint c @
     ncTokenProgram c @ nat_le 1 (case ncMode c of Locking \<Rightarrow> 0 | Burning \<Rightarrow> 1) @ nat_le 2 (ncChainId c) @
     nat_le 1 (ncNextTransceiverId c) @ nat_le 1 (ncThreshold c) @ nat_le 16 (ncEnabledTransceivers c) @
     enc_bool (ncPaused c) @ ncCustody c"

definition config_wf :: "NttConfig \<Rightarrow> bool" where
  "config_wf c \<longleftrightarrow> ncBump c < 256 \<and> length (ncOwner c) = 32 \<and>
     (case ncPendingOwner c of None \<Rightarrow> True | Some p \<Rightarrow> length p = 32) \<and> length (ncMint c) = 32 \<and>
     length (ncTokenProgram c) = 32 \<and> ncChainId c < 65536 \<and> ncNextTransceiverId c < 256 \<and>
     ncThreshold c < 256 \<and> ncEnabledTransceivers c < 256 ^ 16 \<and> length (ncCustody c) = 32"

definition enc_releaseStatus :: "NttInboxReleaseStatus \<Rightarrow> bytes" where
  "enc_releaseStatus s = (case s of
     NotApproved \<Rightarrow> nat_le 1 0 | ReleaseAfter t \<Rightarrow> nat_le 1 1 @ enc_i64 t | Released \<Rightarrow> nat_le 1 2)"

definition encodeNttInboxItem :: "web3_env \<Rightarrow> NttInboxItem \<Rightarrow> bytes" where
  "encodeNttInboxItem env i =
     INBOX_ITEM_DISCRIMINATOR env @ enc_bool (iiInit i) @ nat_le 1 (iiBump i) @ nat_le 8 (iiAmount i) @
     iiRecipientAddress i @ nat_le 16 (iiVotes i) @ enc_releaseStatus (iiReleaseStatus i)"

definition inbox_wf :: "NttInboxItem \<Rightarrow> bool" where
  "inbox_wf i \<longleftrightarrow> iiBump i < 256 \<and> iiAmount i < 256 ^ 8 \<and> length (iiRecipientAddress i) = 32 \<and>
     iiVotes i < 256 ^ 16 \<and>
     (case iiReleaseStatus i of ReleaseAfter t \<Rightarrow> - (2 ^ 63) \<le> t \<and> t < 2 ^ 63 | _ \<Rightarrow> True)"

text \<open>SHA-256 gives 32 bytes.\<close>

definition sha_ok :: "web3_env \<Rightarrow> bool" where
  "sha_ok env \<longleftrightarrow> (\<forall>bs. length (sha256 env bs) = 32)"

lemma length_discriminator:
  "sha_ok env \<Longrightarrow> length (CONFIG_DISCRIMINATOR env) = 8"
  "sha_ok env \<Longrightarrow> length (INBOX_ITEM_DISCRIMINATOR env) = 8"
  by (simp_all add: sha_ok_def CONFIG_DISCRIMINATOR_def INBOX_ITEM_DISCRIMINATOR_def
      accountDiscriminator_def length_bslice)

lemma checkDiscriminator_iff:
  assumes "length expected = 8"
  shows "checkDiscriminator data expected = Inr () \<longleftrightarrow> (\<exists>rest. data = expected @ rest)"
proof
  assume ok: "checkDiscriminator data expected = Inr ()"
  then have len: "8 \<le> length data" and eq: "\<forall>i<8. data ! i = expected ! i"
    by (auto simp: checkDiscriminator_def split: if_splits)
  from len eq assms have "take 8 data = expected" by (intro nth_equalityI) simp_all
  then show "\<exists>rest. data = expected @ rest" by (metis append_take_drop_id)
next
  assume "\<exists>rest. data = expected @ rest"
  with assms show "checkDiscriminator data expected = Inr ()"
    by (auto simp: checkDiscriminator_def nth_append)
qed

section \<open>Round trips\<close>

text \<open>The \<open>Config\<close> decoder inverts the account's Borsh layout: every well-formed configuration, with or
  without a pending owner, is read back field by field, whatever bytes follow it in the account.\<close>

theorem decodeNttConfig_round_trip:
  assumes "pubkey_ctor_ok env" "sha_ok env" "config_wf c"
  shows "decodeNttConfig env (encodeNttConfig env c @ trailing) = Inr c"
proof -
  let ?buf = "drop 8 (encodeNttConfig env c @ trailing)"
  let ?mode = "(case ncMode c of Locking \<Rightarrow> 0 | Burning \<Rightarrow> 1) :: nat"
  note pk = read_pubkey_codec [OF assms(1)] and opk = read_optionPubkey_codec [OF assms(1)]
  have wf: "ncBump c < 256" "length (ncOwner c) = 32" "length (ncMint c) = 32" "length (ncTokenProgram c) = 32"
    "ncChainId c < 65536" "ncNextTransceiverId c < 256" "ncThreshold c < 256"
    "ncEnabledTransceivers c < 256 ^ 16" "length (ncCustody c) = 32"
    and pending: "case ncPendingOwner c of None \<Rightarrow> True | Some p \<Rightarrow> length p = 32"
    using assms(3) by (simp_all add: config_wf_def)
  have disc: "checkDiscriminator (encodeNttConfig env c @ trailing) (CONFIG_DISCRIMINATOR env) = Inr ()"
    using length_discriminator(1) [OF assms(2)] by (subst checkDiscriminator_iff) (auto simp: encodeNttConfig_def)
  have d0: "drop 0 ?buf = nat_le 1 (ncBump c) @ ncOwner c @ enc_optionPubkey (ncPendingOwner c) @ ncMint c @
     ncTokenProgram c @ nat_le 1 ?mode @ nat_le 2 (ncChainId c) @
     nat_le 1 (ncNextTransceiverId c) @ nat_le 1 (ncThreshold c) @ nat_le 16 (ncEnabledTransceivers c) @
     enc_bool (ncPaused c) @ ncCustody c @ trailing"
    using length_discriminator(1) [OF assms(2)] by (simp add: encodeNttConfig_def)
  note d1 = drop_rest [OF d0] note d2 = drop_rest [OF d1] note d3 = drop_rest [OF d2]
  note d4 = drop_rest [OF d3] note d5 = drop_rest [OF d4] note d6 = drop_rest [OF d5]
  note d7 = drop_rest [OF d6] note d8 = drop_rest [OF d7] note d9 = drop_rest [OF d8]
  note d10 = drop_rest [OF d9] note d11 = drop_rest [OF d10]
  have m: "?mode < 256" by (cases "ncMode c") simp_all
  have mode: "(if ?mode = 0 then Inr Locking else if ?mode = 1 then Inr Burning
      else Inl (Error ''NttConfig: unknown mode byte'')) = Inr (ncMode c)"
    by (cases "ncMode c") simp_all
  note reads = u8.dec_enc [OF wf(1) d0] codec.dec_enc [OF pk wf(2) d1] codec.dec_enc [OF opk pending d2]
    codec.dec_enc [OF pk wf(3) d3] codec.dec_enc [OF pk wf(4) d4] u8.dec_enc [OF m d5] u16.dec_enc [OF wf(5) d6]
    u8.dec_enc [OF wf(6) d7] u8.dec_enc [OF wf(7) d8] u128.dec_enc [OF wf(8) d9] bool1.dec_enc [OF TrueI d10]
    codec.dec_enc [OF pk wf(9) d11]
  show ?thesis
    unfolding decodeNttConfig_def Let_def disc rbind_Inr
    by (simp only: reads rbind_Inr case_prod_conv mode) simp
qed

text \<open>The \<open>InboxItem\<close> decoder inverts the account's Borsh layout for each of the three release states,
  signed timestamps included.\<close>

theorem decodeNttInboxItem_round_trip:
  assumes "pubkey_ctor_ok env" "sha_ok env" "inbox_wf i"
  shows "decodeNttInboxItem env (encodeNttInboxItem env i @ trailing) = Inr i"
proof -
  let ?buf = "drop 8 (encodeNttInboxItem env i @ trailing)"
  note pk = read_pubkey_codec [OF assms(1)]
  have wf: "iiBump i < 256" "iiAmount i < 256 ^ 8" "length (iiRecipientAddress i) = 32" "iiVotes i < 256 ^ 16"
    and status: "case iiReleaseStatus i of ReleaseAfter t \<Rightarrow> - (2 ^ 63) \<le> t \<and> t < 2 ^ 63 | _ \<Rightarrow> True"
    using assms(3) by (simp_all add: inbox_wf_def)
  have disc: "checkDiscriminator (encodeNttInboxItem env i @ trailing) (INBOX_ITEM_DISCRIMINATOR env) = Inr ()"
    using length_discriminator(2) [OF assms(2)] by (subst checkDiscriminator_iff) (auto simp: encodeNttInboxItem_def)
  have d0: "drop 0 ?buf = enc_bool (iiInit i) @ nat_le 1 (iiBump i) @ nat_le 8 (iiAmount i) @
     iiRecipientAddress i @ nat_le 16 (iiVotes i) @ enc_releaseStatus (iiReleaseStatus i) @ trailing"
    using length_discriminator(2) [OF assms(2)] by (simp add: encodeNttInboxItem_def)
  note d1 = drop_rest [OF d0] note d2 = drop_rest [OF d1] note d3 = drop_rest [OF d2]
  note d4 = drop_rest [OF d3] note d5 = drop_rest [OF d4]
  obtain tag body where tag: "enc_releaseStatus (iiReleaseStatus i) = nat_le 1 tag @ body" "tag < 256"
    and cases: "(tag = 0 \<and> iiReleaseStatus i = NotApproved) \<or> (tag = 2 \<and> iiReleaseStatus i = Released) \<or>
      (\<exists>t. tag = 1 \<and> iiReleaseStatus i = ReleaseAfter t \<and> body = enc_i64 t \<and> - (2 ^ 63) \<le> t \<and> t < 2 ^ 63)"
    using status by (cases "iiReleaseStatus i") (force simp: enc_releaseStatus_def)+
  from d5 have d5': "drop (0 + length (enc_bool (iiInit i)) + length (nat_le 1 (iiBump i)) +
      length (nat_le 8 (iiAmount i)) + length (iiRecipientAddress i) + length (nat_le 16 (iiVotes i))) ?buf =
      nat_le 1 tag @ body @ trailing" by (simp only: tag append_assoc)
  note d6 = drop_rest [OF d5']
  note reads = bool1.dec_enc [OF TrueI d0] u8.dec_enc [OF wf(1) d1] u64.dec_enc [OF wf(2) d2]
    codec.dec_enc [OF pk wf(3) d3] u128.dec_enc [OF wf(4) d4] u8.dec_enc [OF tag(2) d5']
  from cases show ?thesis
  proof (elim disjE exE conjE)
    fix t assume t: "tag = 1" "iiReleaseStatus i = ReleaseAfter t" "body = enc_i64 t" "- (2 ^ 63) \<le> t" "t < 2 ^ 63"
    from d6 have "drop (0 + length (enc_bool (iiInit i)) + length (nat_le 1 (iiBump i)) +
      length (nat_le 8 (iiAmount i)) + length (iiRecipientAddress i) + length (nat_le 16 (iiVotes i)) +
      length (nat_le 1 tag)) ?buf = enc_i64 t @ trailing" by (simp only: t(3))
    note r = i64.dec_enc [OF conjI [OF t(4,5)] this]
    show ?thesis
      unfolding decodeNttInboxItem_def Let_def disc rbind_Inr
      by (simp only: reads rbind_Inr case_prod_conv r) (simp add: t(1,2))
  qed (unfold decodeNttInboxItem_def Let_def disc rbind_Inr,
       (simp only: reads rbind_Inr case_prod_conv, simp)+)
qed

lemma model_env_sha: "sha_ok model_env"
  by (auto simp: sha_ok_def model_env_def min_def)

theorem decodeNttConfig_round_trip_witness:
  "let c = \<lparr>ncBump = 254, ncOwner = replicate 32 1, ncPendingOwner = Some (replicate 32 2), ncMint = replicate 32 3,
            ncTokenProgram = replicate 32 4, ncMode = Burning, ncChainId = 51, ncNextTransceiverId = 1,
            ncThreshold = 1, ncEnabledTransceivers = 2 ^ 127, ncPaused = True, ncCustody = replicate 32 5\<rparr>
   in decodeNttConfig model_env (encodeNttConfig model_env c @ [7]) = Inr c"
  using decodeNttConfig_round_trip [OF model_env_ctor model_env_sha]
  by (simp add: Let_def config_wf_def)

theorem decodeNttInboxItem_round_trip_witness:
  "let i = \<lparr>iiInit = True, iiBump = 3, iiAmount = 5, iiRecipientAddress = replicate 32 9, iiVotes = 1,
            iiReleaseStatus = ReleaseAfter (- 1)\<rparr>
   in decodeNttInboxItem model_env (encodeNttInboxItem model_env i @ []) = Inr i"
  unfolding Let_def
  by (rule decodeNttInboxItem_round_trip [OF model_env_ctor model_env_sha]) (simp add: inbox_wf_def)

text \<open>A truncated or foreign account is refused rather than misread.\<close>

lemma decode_rejects_foreign:
  assumes "sha_ok env" "\<not> (\<exists>rest. data = CONFIG_DISCRIMINATOR env @ rest)"
  shows "\<exists>e. decodeNttConfig env data = Inl e"
proof -
  from assms have "checkDiscriminator data (CONFIG_DISCRIMINATOR env) \<noteq> Inr ()"
    by (simp add: checkDiscriminator_iff length_discriminator)
  then obtain e where "checkDiscriminator data (CONFIG_DISCRIMINATOR env) = Inl e"
    by (cases "checkDiscriminator data (CONFIG_DISCRIMINATOR env)") auto
  then show ?thesis by (simp add: decodeNttConfig_def)
qed

end
