(* ===== verification/Onre_Nav.thy ===== *)
theory Onre_Nav
  imports Constants
begin

text \<open>
  The mirror of OnRe's issuer arithmetic (\<open>packages/sdk/src/utils/onre-nav.ts\<close>) and the swap
  floor the user signs (\<open>packages/sdk/src/utils/min-out.ts\<close>): decoding the pricing vectors of an
  \<open>Offer\<close> account, choosing the active one, the step price, the expected outputs of both legs,
  the NTT trim and \<open>computeMinSwapOut\<close>.
\<close>

definition ONRE_OFFER_ACCOUNT_SIZE :: nat where
  "ONRE_OFFER_ACCOUNT_SIZE = 608"

definition ONRE_OFFER_VECTORS_OFFSET :: nat where
  "ONRE_OFFER_VECTORS_OFFSET = 72"

definition ONRE_OFFER_VECTOR_SIZE :: nat where
  "ONRE_OFFER_VECTOR_SIZE = 40"

definition ONRE_OFFER_MAX_VECTORS :: nat where
  "ONRE_OFFER_MAX_VECTORS = 10"

definition ONRE_PRICE_DENOMINATOR :: int where
  "ONRE_PRICE_DENOMINATOR = 1000000000"

definition ONRE_APR_SCALE :: int where
  "ONRE_APR_SCALE = 1000000"

definition ONRE_SECONDS_IN_YEAR :: int where
  "ONRE_SECONDS_IN_YEAR = 31536000"

lemmas onre_consts = ONRE_OFFER_ACCOUNT_SIZE_def ONRE_OFFER_VECTORS_OFFSET_def
  ONRE_OFFER_VECTOR_SIZE_def ONRE_OFFER_MAX_VECTORS_def ONRE_PRICE_DENOMINATOR_def
  ONRE_APR_SCALE_def ONRE_SECONDS_IN_YEAR_def

record OnreOfferVector =
  start_time :: int
  base_time :: int
  base_price :: int
  apr :: int
  price_fix_duration :: int

definition asU64 :: "int \<Rightarrow> int result" where
  "asU64 x = (if x < 0 \<or> x > U64_MAX then Inl (Error ''OnreNavOverflow: out of u64 range'') else Inr x)"

definition redemptionExpectedOut :: "int \<Rightarrow> int \<Rightarrow> nat \<Rightarrow> nat \<Rightarrow> int result" where
  "redemptionExpectedOut tokenInAmount price tokenInDecimals tokenOutDecimals =
     (let powIn = 10 ^ tokenInDecimals; powOut = 10 ^ tokenOutDecimals;
          num = tokenInAmount * price * powOut; den = powIn * ONRE_PRICE_DENOMINATOR in
      rbind (bigdiv num den) asU64)"

definition depositExpectedOut :: "int \<Rightarrow> int \<Rightarrow> nat \<Rightarrow> nat \<Rightarrow> int result" where
  "depositExpectedOut usdcInAmount price usdcDecimals onycDecimals =
     (if price \<le> 0 then Inl (Error ''OnreNoActiveVector: price must be positive'')
      else let powOut = 10 ^ onycDecimals; powIn = 10 ^ usdcDecimals;
               num = usdcInAmount * powOut * ONRE_PRICE_DENOMINATOR; den = price * powIn in
        rbind (bigdiv num den) asU64)"

definition readOfferVector :: "bytes \<Rightarrow> nat \<Rightarrow> OnreOfferVector result" where
  "readOfferVector data off =
     rbind (get_le 8 data off) (\<lambda>st.
     rbind (get_le 8 data (off + 8)) (\<lambda>bt.
     rbind (get_le 8 data (off + 16)) (\<lambda>bp.
     rbind (get_le 8 data (off + 24)) (\<lambda>ap.
     rbind (get_le 8 data (off + 32)) (\<lambda>pf.
       Inr \<lparr>start_time = int st, base_time = int bt, base_price = int bp, apr = int ap,
            price_fix_duration = int pf\<rparr>)))))"

fun scanVectors :: "bytes \<Rightarrow> int \<Rightarrow> nat list \<Rightarrow> OnreOfferVector option \<Rightarrow> OnreOfferVector option result" where
  "scanVectors data now [] best = Inr best"
| "scanVectors data now (i # is) best =
     rbind (readOfferVector data (ONRE_OFFER_VECTORS_OFFSET + i * ONRE_OFFER_VECTOR_SIZE)) (\<lambda>v.
       if start_time v = 0 \<or> start_time v > now then scanVectors data now is best
       else scanVectors data now is
         (case best of None \<Rightarrow> Some v
          | Some b \<Rightarrow> if start_time v > start_time b then Some v else Some b))"

definition parseActiveOfferVector :: "bytes \<Rightarrow> int \<Rightarrow> OnreOfferVector result" where
  "parseActiveOfferVector data now =
     (if length data < ONRE_OFFER_ACCOUNT_SIZE
      then Inl (Error ''OnreOfferTooShort: account data shorter than pinned layout'')
      else rbind (scanVectors data now [0..<ONRE_OFFER_MAX_VECTORS] None) (\<lambda>best.
        case best of
          None \<Rightarrow> Inl (Error ''OnreNoActiveVector: no qualifying pricing vector for current clock'')
        | Some v \<Rightarrow> Inr v))"

definition calculateStepPrice :: "OnreOfferVector \<Rightarrow> int \<Rightarrow> int result" where
  "calculateStepPrice v now =
     (if base_time v > now then Inl (Error ''OnreNoActiveVector: now < base_time'')
      else if price_fix_duration v = 0
      then Inl (Error ''OnreNoActiveVector: price_fix_duration == 0'')
      else let elapsed = now - base_time v in
        rbind (bigdiv elapsed (price_fix_duration v)) (\<lambda>step.
        let stepEnd = (step + 1) * price_fix_duration v;
            factorDen = ONRE_APR_SCALE * ONRE_SECONDS_IN_YEAR;
            yPart = apr v * stepEnd;
            factorNum = factorDen + yPart in
        rbind (bigdiv (base_price v * factorNum) factorDen) asU64))"

definition offerVectorBytes :: "OnreOfferVector \<Rightarrow> bytes" where
  "offerVectorBytes v = u64_le (start_time v) @ u64_le (base_time v) @ u64_le (base_price v) @
     u64_le (apr v) @ u64_le (price_fix_duration v)"

definition synthOfferBuffer :: "OnreOfferVector list \<Rightarrow> bytes" where
  "synthOfferBuffer vectors =
     fold (\<lambda>i data. put data (ONRE_OFFER_VECTORS_OFFSET + i * ONRE_OFFER_VECTOR_SIZE)
                        (offerVectorBytes (vectors ! i)))
       [0..<min (length vectors) ONRE_OFFER_MAX_VECTORS]
       (replicate ONRE_OFFER_ACCOUNT_SIZE 0)"

definition NTT_TRIMMING_DECIMALS :: int where
  "NTT_TRIMMING_DECIMALS = 8"

definition BPS_DENOMINATOR :: int where
  "BPS_DENOMINATOR = 10000"

definition DEFAULT_SLIPPAGE_TOLERANCE_BPS :: int where
  "DEFAULT_SLIPPAGE_TOLERANCE_BPS = 100"

definition applyNttTrim :: "int \<Rightarrow> js_number \<Rightarrow> int result" where
  "applyNttTrim amount decimals =
     (if \<not> isInteger decimals \<or> the_int decimals < 0 \<or> the_int decimals > 255
      then Inl (RangeError ''decimals out of range'')
      else if the_int decimals \<le> NTT_TRIMMING_DECIMALS then Inr amount
      else let factor = 10 ^ nat (the_int decimals - NTT_TRIMMING_DECIMALS) in
        rbind (bigdiv amount factor) (\<lambda>q. Inr (q * factor)))"

datatype direction = Deposit | Withdraw

record ComputeMinSwapOutParams =
  cmDirection :: direction
  cmPostTrimInAmount :: int
  cmOfferData :: bytes
  cmNowUnix :: int
  cmBaseDecimals :: nat
  cmOnycDecimals :: nat
  cmSlippageBps :: js_number
  cmWithdrawFeeBps :: "js_number option"

definition computeMinSwapOut :: "ComputeMinSwapOutParams \<Rightarrow> int result" where
  "computeMinSwapOut params =
     (if \<not> isInteger (cmSlippageBps params) \<or> the_int (cmSlippageBps params) < 0 \<or>
         the_int (cmSlippageBps params) > 10000
      then Inl (RangeError ''slippageBps out of [0, 10_000]'')
      else if cmPostTrimInAmount params \<le> 0
      then Inl (RangeError ''postTrimInAmount must be > 0'')
      else
        rbind (parseActiveOfferVector (cmOfferData params) (cmNowUnix params)) (\<lambda>v.
        rbind (calculateStepPrice v (cmNowUnix params)) (\<lambda>price.
        rbind
          (case cmDirection params of
             Deposit \<Rightarrow> depositExpectedOut (cmPostTrimInAmount params) price
                          (cmBaseDecimals params) (cmOnycDecimals params)
           | Withdraw \<Rightarrow>
               (let withdrawFeeBps = (case cmWithdrawFeeBps params of None \<Rightarrow> JInt 0 | Some b \<Rightarrow> b) in
                if \<not> isInteger withdrawFeeBps \<or> the_int withdrawFeeBps < 0 \<or>
                   the_int withdrawFeeBps > 10000
                then Inl (RangeError ''withdrawFeeBps out of [0, 10_000]'')
                else rbind (bigdiv (cmPostTrimInAmount params * the_int withdrawFeeBps) BPS_DENOMINATOR)
                  (\<lambda>fee. let netInput = cmPostTrimInAmount params - fee in
                    if netInput \<le> 0 then Inl (RangeError ''withdraw fee consumes the entire input'')
                    else redemptionExpectedOut netInput price (cmOnycDecimals params)
                           (cmBaseDecimals params))))
          (\<lambda>expectedGross.
        rbind (bigdiv (expectedGross * (BPS_DENOMINATOR - the_int (cmSlippageBps params))) BPS_DENOMINATOR)
          (\<lambda>floor.
            if floor \<le> 0 then Inl (RangeError ''computed min_swap_out is 0'')
            else Inr floor)))))"

section \<open>Reading the offer account\<close>

text \<open>What the slot at an offset holds, and the slots of an account.\<close>

definition vectorAt :: "bytes \<Rightarrow> nat \<Rightarrow> OnreOfferVector" where
  "vectorAt data off =
     \<lparr>start_time = int (le_nat (bslice data off (off + 8))),
      base_time = int (le_nat (bslice data (off + 8) (off + 16))),
      base_price = int (le_nat (bslice data (off + 16) (off + 24))),
      apr = int (le_nat (bslice data (off + 24) (off + 32))),
      price_fix_duration = int (le_nat (bslice data (off + 32) (off + 40)))\<rparr>"

definition slotOffset :: "nat \<Rightarrow> nat" where
  "slotOffset i = ONRE_OFFER_VECTORS_OFFSET + i * ONRE_OFFER_VECTOR_SIZE"

definition activeVectors :: "bytes \<Rightarrow> int \<Rightarrow> nat list \<Rightarrow> OnreOfferVector list" where
  "activeVectors data now is =
     filter (\<lambda>v. start_time v \<noteq> 0 \<and> start_time v \<le> now) (map (\<lambda>i. vectorAt data (slotOffset i)) is)"

lemma readOfferVector_in_range:
  "off + 40 \<le> length data \<Longrightarrow> readOfferVector data off = Inr (vectorAt data off)"
  by (simp add: readOfferVector_def vectorAt_def add.commute)

text \<open>The loop keeps the best vector seen so far: the first one of largest start time.\<close>

fun bestOf :: "OnreOfferVector list \<Rightarrow> OnreOfferVector option \<Rightarrow> OnreOfferVector option" where
  "bestOf [] best = best"
| "bestOf (v # vs) best =
     bestOf vs (case best of None \<Rightarrow> Some v
                | Some b \<Rightarrow> if start_time v > start_time b then Some v else Some b)"

lemma scanVectors_eq:
  assumes "\<forall>i \<in> set is. slotOffset i + 40 \<le> length data"
  shows "scanVectors data now is best = Inr (bestOf (activeVectors data now is) best)"
  using assms
proof (induction "is" arbitrary: best)
  case Nil
  then show ?case by (simp add: activeVectors_def)
next
  case (Cons i "is")
  have "readOfferVector data (ONRE_OFFER_VECTORS_OFFSET + i * ONRE_OFFER_VECTOR_SIZE) =
          Inr (vectorAt data (slotOffset i))"
    using Cons.prems readOfferVector_in_range by (simp add: slotOffset_def)
  with Cons show ?case by (auto simp: activeVectors_def)
qed

lemma bestOf_max:
  "bestOf vs best = Some v \<Longrightarrow>
     (v \<in> set vs \<or> best = Some v) \<and> (\<forall>w \<in> set vs. start_time w \<le> start_time v) \<and>
     (\<forall>b. best = Some b \<longrightarrow> start_time b \<le> start_time v)"
  by (induction vs arbitrary: best) (fastforce split: option.splits if_splits)+

lemma bestOf_None: "bestOf vs best = None \<longleftrightarrow> vs = [] \<and> best = None"
  by (induction vs arbitrary: best) (auto split: option.splits)

lemma parseActiveOfferVector_eq:
  assumes "ONRE_OFFER_ACCOUNT_SIZE \<le> length data"
  shows "parseActiveOfferVector data now =
           (case bestOf (activeVectors data now [0..<ONRE_OFFER_MAX_VECTORS]) None of
              None \<Rightarrow> Inl (Error ''OnreNoActiveVector: no qualifying pricing vector for current clock'')
            | Some v \<Rightarrow> Inr v)"
proof -
  have "\<forall>i \<in> set [0..<ONRE_OFFER_MAX_VECTORS]. slotOffset i + 40 \<le> length data"
    using assms by (auto simp: onre_consts slotOffset_def)
  from scanVectors_eq [OF this] assms show ?thesis
    by (simp add: parseActiveOfferVector_def)
qed

text \<open>C39. The decoder picks, among the ten slots, a vector whose start time is set and not in the
  future, and it has the latest start time of those; it fails exactly when the account is shorter
  than the pinned layout or no slot qualifies.\<close>

theorem parseActiveOfferVector_spec:
  "case parseActiveOfferVector data now of
     Inr v \<Rightarrow> 608 \<le> length data \<and> v \<in> set (activeVectors data now [0..<10]) \<and>
              start_time v = Max (start_time ` set (activeVectors data now [0..<10]))
   | Inl e \<Rightarrow> length data < 608 \<or> activeVectors data now [0..<10] = []"
proof (cases "length data < 608")
  case True
  then show ?thesis by (simp add: parseActiveOfferVector_def onre_consts)
next
  case False
  let ?vs = "activeVectors data now [0..<10]"
  from False have eq: "parseActiveOfferVector data now = (case bestOf ?vs None of
      None \<Rightarrow> Inl (Error ''OnreNoActiveVector: no qualifying pricing vector for current clock'')
    | Some v \<Rightarrow> Inr v)"
    using parseActiveOfferVector_eq [of data now] by (simp add: onre_consts)
  show ?thesis
  proof (cases "bestOf ?vs None")
    case None
    then show ?thesis by (simp add: eq bestOf_None)
  next
    case (Some v)
    from bestOf_max [OF Some] have "start_time v = Max (start_time ` set ?vs)" "v \<in> set ?vs"
      by (auto intro!: Max_eqI [symmetric])
    with False show ?thesis by (simp add: eq Some)
  qed
qed

section \<open>Writing the offer account\<close>

definition u64_vector :: "OnreOfferVector \<Rightarrow> bool" where
  "u64_vector v \<longleftrightarrow> (\<forall>x \<in> {start_time v, base_time v, base_price v, apr v, price_fix_duration v}.
     0 \<le> x \<and> x \<le> U64_MAX)"

definition zeroVector :: OnreOfferVector where
  "zeroVector = \<lparr>start_time = 0, base_time = 0, base_price = 0, apr = 0, price_fix_duration = 0\<rparr>"

lemma length_offerVectorBytes [simp]: "length (offerVectorBytes v) = 40"
  by (simp add: offerVectorBytes_def)

lemma offerVectorBytes_slices:
  "bslice (offerVectorBytes v) 0 8 = u64_le (start_time v)"
  "bslice (offerVectorBytes v) 8 16 = u64_le (base_time v)"
  "bslice (offerVectorBytes v) 16 24 = u64_le (base_price v)"
  "bslice (offerVectorBytes v) 24 32 = u64_le (apr v)"
  "bslice (offerVectorBytes v) 32 40 = u64_le (price_fix_duration v)"
  by (simp_all add: offerVectorBytes_def bslice_def)

lemma vectorAt_put_same:
  assumes "off + 40 \<le> length data" "u64_vector v"
  shows "vectorAt (put data off (offerVectorBytes v)) off = v"
proof -
  have r: "bslice (put data off (offerVectorBytes v)) (off + a) (off + b) =
             bslice (offerVectorBytes v) a b" if "b \<le> 40" for a b
    using bslice_put_inside [of off "offerVectorBytes v" data b a] assms(1) that by simp
  show ?thesis
    using r [of 8 0] r [of 16 8] r [of 24 16] r [of 32 24] r [of 40 32] assms(2)
    by (simp add: vectorAt_def offerVectorBytes_slices u64_vector_def int_le_nat_u64_le)
qed

lemma vectorAt_put_other:
  assumes "off + 40 \<le> length data" "off' + 40 \<le> off \<or> off + 40 \<le> off'"
  shows "vectorAt (put data off (offerVectorBytes v)) off' = vectorAt data off'"
  using assms(2)
proof
  assume "off' + 40 \<le> off"
  then show ?thesis
    using bslice_put_before [of off "offerVectorBytes v" data] assms(1)
    by (simp add: vectorAt_def)
next
  assume "off + 40 \<le> off'"
  then show ?thesis
    using bslice_put_after [of off "offerVectorBytes v" data] assms(1)
    by (simp add: vectorAt_def)
qed

lemma vectorAt_zero: "off + 40 \<le> 608 \<Longrightarrow> vectorAt (replicate 608 0) off = zeroVector"
  by (simp add: vectorAt_def zeroVector_def bslice_replicate)

lemma synth_prefix:
  assumes "n \<le> 10" "\<forall>v \<in> set vs. u64_vector v" "n \<le> length vs"
  defines "buf \<equiv> fold (\<lambda>i data. put data (slotOffset i) (offerVectorBytes (vs ! i))) [0..<n]
                   (replicate 608 0)"
  shows "length buf = 608 \<and>
    (\<forall>i < 10. vectorAt buf (slotOffset i) = (if i < n then vs ! i else zeroVector))"
  using assms(1,3) unfolding buf_def
proof (induction n)
  case 0
  then show ?case by (simp add: vectorAt_zero slotOffset_def onre_consts)
next
  case (Suc n)
  let ?b = "fold (\<lambda>i data. put data (slotOffset i) (offerVectorBytes (vs ! i))) [0..<n]
              (replicate 608 0)"
  from Suc have len: "length ?b = 608" and
    at: "\<And>i. i < 10 \<Longrightarrow> vectorAt ?b (slotOffset i) = (if i < n then vs ! i else zeroVector)"
    by auto
  have room: "slotOffset n + 40 \<le> length ?b"
    using Suc.prems len by (simp add: slotOffset_def onre_consts)
  have v: "u64_vector (vs ! n)" using Suc.prems assms(2) by simp
  have other: "slotOffset i + 40 \<le> slotOffset n \<or> slotOffset n + 40 \<le> slotOffset i" if "i \<noteq> n" for i
    using that by (cases "i < n") (auto simp: slotOffset_def onre_consts)
  have "vectorAt (put ?b (slotOffset n) (offerVectorBytes (vs ! n))) (slotOffset i) =
          (if i < Suc n then vs ! i else zeroVector)" if "i < 10" for i
    using vectorAt_put_same [OF room v] vectorAt_put_other [OF room other] at [OF that]
    by (cases "i = n") auto
  with room len show ?case by (simp add: length_put)
qed

text \<open>The buffer the SDK synthesises decodes to the vectors it was built from: slot \<open>i\<close> of the
  account holds the \<open>i\<close>-th vector for each of the first ten, and the remaining slots are empty.\<close>

theorem synthOfferBuffer_round_trip:
  assumes "\<forall>v \<in> set vs. u64_vector v" "i < 10"
  shows "readOfferVector (synthOfferBuffer vs) (slotOffset i) =
           Inr (if i < length vs then vs ! i else zeroVector)"
proof -
  have s: "synthOfferBuffer vs = fold (\<lambda>i data. put data (slotOffset i) (offerVectorBytes (vs ! i)))
             [0..<min (length vs) 10] (replicate 608 0)"
    by (simp add: synthOfferBuffer_def slotOffset_def onre_consts)
  from synth_prefix [of "min (length vs) 10" vs] assms
  have "length (synthOfferBuffer vs) = 608"
    and "vectorAt (synthOfferBuffer vs) (slotOffset i) = (if i < length vs then vs ! i else zeroVector)"
    by (auto simp: s)
  with assms(2) show ?thesis
    by (simp add: readOfferVector_in_range slotOffset_def onre_consts)
qed

theorem synthOfferBuffer_round_trip_witness:
  "readOfferVector (synthOfferBuffer
      [\<lparr>start_time = 7, base_time = 5, base_price = 1000000000, apr = 100000, price_fix_duration = 3600\<rparr>])
      (slotOffset 0) =
     Inr \<lparr>start_time = 7, base_time = 5, base_price = 1000000000, apr = 100000, price_fix_duration = 3600\<rparr>"
  using synthOfferBuffer_round_trip [of
      "[\<lparr>start_time = 7, base_time = 5, base_price = 1000000000, apr = 100000, price_fix_duration = 3600\<rparr>]" 0]
  by (simp add: u64_vector_def U64_MAX_def)

section \<open>Step price\<close>

lemma asU64_Inr_iff: "asU64 x = Inr y \<longleftrightarrow> y = x \<and> 0 \<le> x \<and> x \<le> U64_MAX"
  by (auto simp: asU64_def)

text \<open>The price after \<open>k\<close> whole steps, before the range check.\<close>

definition rawStepPrice :: "OnreOfferVector \<Rightarrow> int \<Rightarrow> int" where
  "rawStepPrice v k =
     (base_price v * (ONRE_APR_SCALE * ONRE_SECONDS_IN_YEAR + apr v * ((k + 1) * price_fix_duration v)))
       div (ONRE_APR_SCALE * ONRE_SECONDS_IN_YEAR)"

lemma calculateStepPrice_eq:
  assumes "u64_vector v" "0 < price_fix_duration v" "base_time v \<le> now"
  shows "calculateStepPrice v now =
           asU64 (rawStepPrice v ((now - base_time v) div price_fix_duration v))"
proof -
  let ?k = "(now - base_time v) div price_fix_duration v"
  have k: "0 \<le> ?k" using assms by (simp add: pos_imp_zdiv_nonneg_iff)
  have "0 \<le> base_price v * (ONRE_APR_SCALE * ONRE_SECONDS_IN_YEAR + apr v * ((?k + 1) * price_fix_duration v))"
    using assms k by (simp add: u64_vector_def onre_consts)
  then have "bigdiv (base_price v * (ONRE_APR_SCALE * ONRE_SECONDS_IN_YEAR +
               apr v * ((?k + 1) * price_fix_duration v))) (ONRE_APR_SCALE * ONRE_SECONDS_IN_YEAR) =
             Inr (rawStepPrice v ?k)"
    by (simp add: rawStepPrice_def onre_consts)
  moreover have "bigdiv (now - base_time v) (price_fix_duration v) = Inr ?k"
    using assms by simp
  ultimately show ?thesis using assms by (simp add: calculateStepPrice_def Let_def)
qed

lemma rawStepPrice_mono:
  assumes "u64_vector v" "0 \<le> k" "k \<le> k'"
  shows "base_price v \<le> rawStepPrice v k" "rawStepPrice v k \<le> rawStepPrice v k'"
proof -
  let ?D = "ONRE_APR_SCALE * ONRE_SECONDS_IN_YEAR"
  let ?f = "\<lambda>k. apr v * ((k + 1) * price_fix_duration v)"
  have D: "0 < ?D" by (simp add: onre_consts)
  have nn: "0 \<le> apr v" "0 \<le> price_fix_duration v" "0 \<le> base_price v"
    using assms by (simp_all add: u64_vector_def)
  have "?f k \<le> ?f k'"
    using nn assms by (intro mult_left_mono mult_right_mono) auto
  then have "base_price v * (?D + ?f k) \<le> base_price v * (?D + ?f k')"
    using nn by (intro mult_left_mono) auto
  then show "rawStepPrice v k \<le> rawStepPrice v k'"
    unfolding rawStepPrice_def by (rule zdiv_mono1) (rule D)
  have "0 \<le> ?f k" using nn assms by simp
  then have "base_price v * ?D \<le> base_price v * (?D + ?f k)"
    using nn by (intro mult_left_mono) auto
  then have "(base_price v * ?D) div ?D \<le> rawStepPrice v k"
    unfolding rawStepPrice_def by (rule zdiv_mono1) (rule D)
  moreover have "(base_price v * ?D) div ?D = base_price v"
    by (intro nonzero_mult_div_cancel_right) (simp add: onre_consts)
  ultimately show "base_price v \<le> rawStepPrice v k" by simp
qed

text \<open>The step price depends on the clock only through the index of the current step, never drops
  below the base price, and never falls from one step to the next.\<close>

theorem calculateStepPrice_steps:
  assumes "u64_vector v" "0 < price_fix_duration v" "base_time v \<le> now" "now \<le> now'"
    and "calculateStepPrice v now = Inr p" "calculateStepPrice v now' = Inr p'"
  shows "base_price v \<le> p \<and> p \<le> p' \<and>
    ((now - base_time v) div price_fix_duration v = (now' - base_time v) div price_fix_duration v
       \<longrightarrow> p = p')"
proof -
  let ?k = "\<lambda>t. (t - base_time v) div price_fix_duration v"
  have p: "p = rawStepPrice v (?k now)" "p' = rawStepPrice v (?k now')"
    using assms by (simp_all add: calculateStepPrice_eq asU64_Inr_iff)
  have "0 \<le> ?k now" using assms by (simp add: pos_imp_zdiv_nonneg_iff)
  moreover have "?k now \<le> ?k now'" using assms by (intro zdiv_mono1) auto
  ultimately show ?thesis using rawStepPrice_mono [OF assms(1)] p by simp
qed

theorem calculateStepPrice_steps_witness:
  "let v = \<lparr>start_time = 100, base_time = 100, base_price = 1000000000, apr = 100000,
            price_fix_duration = 86400\<rparr>
   in \<exists>p p'. calculateStepPrice v 100 = Inr p \<and> calculateStepPrice v 86499 = Inr p' \<and> p = p' \<and>
        1000000000 \<le> p"
proof -
  let ?v = "\<lparr>start_time = 100, base_time = 100, base_price = 1000000000, apr = 100000,
            price_fix_duration = 86400\<rparr>"
  have p: "calculateStepPrice ?v 100 = Inr 1000273972" "calculateStepPrice ?v 86499 = Inr 1000273972"
    by (simp_all add: calculateStepPrice_def onre_consts asU64_def U64_MAX_def)
  from calculateStepPrice_steps [OF _ _ _ _ p] p show ?thesis
    by (simp add: u64_vector_def U64_MAX_def)
qed

section \<open>Expected outputs\<close>

text \<open>The two expected-output functions are inverse up to rounding down: redeeming what a
  deposit is expected to yield, at the same price, is never expected to yield more than was put in.\<close>

theorem expectedOut_inverse:
  assumes "depositExpectedOut usdc price du dy = Inr onyc"
    and "redemptionExpectedOut onyc price dy du = Inr back" and "0 \<le> usdc"
  shows "0 \<le> back \<and> back \<le> usdc"
proof -
  let ?num = "usdc * 10 ^ dy * ONRE_PRICE_DENOMINATOR" and ?den = "price * 10 ^ du"
  from assms(1) have price: "0 < price" and d: "bigdiv ?num ?den = Inr onyc" and oy: "0 \<le> onyc"
    by (auto simp: depositExpectedOut_def Let_def result_simps asU64_Inr_iff split: if_splits)
  have den: "0 < ?den" using price by simp
  have num: "0 \<le> ?num" using assms(3) by (simp add: onre_consts)
  have onyc: "onyc = ?num div ?den" using d den num by simp
  have le: "onyc * ?den \<le> ?num"
    unfolding onyc using minus_mod_eq_div_mult [of ?num ?den] pos_mod_sign [OF den, of ?num] by linarith
  let ?den2 = "10 ^ dy * ONRE_PRICE_DENOMINATOR"
  have den2: "0 < ?den2" by (simp add: onre_consts)
  have nn: "0 \<le> onyc * price * 10 ^ du" using oy price by simp
  have bk: "back = (onyc * price * 10 ^ du) div ?den2" and "0 \<le> back"
    using assms(2) nn den2 by (auto simp: redemptionExpectedOut_def Let_def result_simps asU64_Inr_iff)
  have "(onyc * price * 10 ^ du) div ?den2 \<le> (usdc * ?den2) div ?den2"
    using le den2 by (intro zdiv_mono1) (simp_all add: ac_simps)
  then have "back \<le> usdc" unfolding bk by (simp add: onre_consts)
  with \<open>0 \<le> back\<close> show ?thesis by simp
qed

theorem expectedOut_inverse_witness:
  "\<exists>onyc back. depositExpectedOut 1000001 1100000007 6 9 = Inr onyc \<and>
      redemptionExpectedOut onyc 1100000007 9 6 = Inr back \<and> back \<le> 1000001"
proof -
  have d: "depositExpectedOut 1000001 1100000007 6 9 = Inr 909091812"
    by (simp add: depositExpectedOut_def asU64_def U64_MAX_def onre_consts)
  have r: "redemptionExpectedOut 909091812 1100000007 9 6 = Inr 1000000"
    by (simp add: redemptionExpectedOut_def asU64_def U64_MAX_def onre_consts)
  from expectedOut_inverse [OF d r] d r show ?thesis by auto
qed

section \<open>The swap floor\<close>

text \<open>The NTT trim never increases an amount, drops less than one unit of the eighth decimal, and
  trimming again changes nothing.\<close>

theorem applyNttTrim_spec:
  assumes "0 \<le> amount" "0 \<le> d" "d \<le> 255"
  shows "\<exists>t. applyNttTrim amount (JInt d) = Inr t \<and> 0 \<le> t \<and> t \<le> amount \<and>
           amount - t < 10 ^ nat (d - NTT_TRIMMING_DECIMALS) \<and>
           applyNttTrim t (JInt d) = Inr t"
proof (cases "d \<le> NTT_TRIMMING_DECIMALS")
  case True
  with assms show ?thesis by (simp add: applyNttTrim_def)
next
  case False
  let ?f = "10 ^ nat (d - NTT_TRIMMING_DECIMALS) :: int" and ?t = "amount div 10 ^ nat (d - NTT_TRIMMING_DECIMALS) * 10 ^ nat (d - NTT_TRIMMING_DECIMALS)"
  have f: "0 < ?f" by simp
  have eq: "applyNttTrim a (JInt d) = Inr (a div ?f * ?f)" if "0 \<le> a" for a
    using False assms that by (simp add: applyNttTrim_def Let_def)
  have t: "0 \<le> ?t" using assms f by (simp add: pos_imp_zdiv_nonneg_iff)
  have "amount - ?t = amount mod ?f" by (simp add: minus_div_mult_eq_mod)
  then have "?t \<le> amount" "amount - ?t < ?f"
    using pos_mod_sign [OF f, of amount] pos_mod_bound [OF f, of amount] by linarith+
  with eq [OF assms(1)] eq [OF t] t show ?thesis by simp
qed

theorem applyNttTrim_spec_witness:
  "applyNttTrim 12345678987 (JInt 9) = Inr 12345678980"
  using applyNttTrim_spec [of 12345678987 9]
  by (simp add: applyNttTrim_def NTT_TRIMMING_DECIMALS_def)

text \<open>The part of the computation that gives the gross output the floor is taken from.\<close>

definition expectedGross :: "ComputeMinSwapOutParams \<Rightarrow> int result" where
  "expectedGross ps =
     rbind (parseActiveOfferVector (cmOfferData ps) (cmNowUnix ps)) (\<lambda>v.
     rbind (calculateStepPrice v (cmNowUnix ps)) (\<lambda>price.
       case cmDirection ps of
         Deposit \<Rightarrow> depositExpectedOut (cmPostTrimInAmount ps) price (cmBaseDecimals ps) (cmOnycDecimals ps)
       | Withdraw \<Rightarrow>
           (let w = (case cmWithdrawFeeBps ps of None \<Rightarrow> JInt 0 | Some b \<Rightarrow> b) in
            if \<not> isInteger w \<or> the_int w < 0 \<or> the_int w > 10000
            then Inl (RangeError ''withdrawFeeBps out of [0, 10_000]'')
            else rbind (bigdiv (cmPostTrimInAmount ps * the_int w) BPS_DENOMINATOR) (\<lambda>fee.
              let net = cmPostTrimInAmount ps - fee in
              if net \<le> 0 then Inl (RangeError ''withdraw fee consumes the entire input'')
              else redemptionExpectedOut net price (cmOnycDecimals ps) (cmBaseDecimals ps)))))"

lemma expectedGross_slippage [simp]: "expectedGross (ps\<lparr>cmSlippageBps := s\<rparr>) = expectedGross ps"
  by (cases "cmDirection ps") (simp_all add: expectedGross_def Let_def cong: if_cong)

lemma expectedGross_u64: "expectedGross ps = Inr g \<Longrightarrow> 0 \<le> g \<and> g \<le> U64_MAX"
  by (cases "cmDirection ps")
     (auto simp: expectedGross_def depositExpectedOut_def redemptionExpectedOut_def Let_def
      result_simps asU64_Inr_iff split: if_splits)

lemma computeMinSwapOut_InrD:
  assumes "computeMinSwapOut ps = Inr f"
  obtains g s where "expectedGross ps = Inr g" "cmSlippageBps ps = JInt s" "0 \<le> s" "s \<le> 10000"
    and "0 \<le> g" "g \<le> U64_MAX" "f = (g * (10000 - s)) div 10000" "0 < f"
proof -
  from assms obtain s where s: "cmSlippageBps ps = JInt s" "0 \<le> s" "s \<le> 10000"
    by (cases "cmSlippageBps ps") (auto simp: computeMinSwapOut_def split: if_splits)
  from assms obtain g where g: "expectedGross ps = Inr g"
    and f: "bigdiv (g * (10000 - s)) 10000 = Inr f" "0 < f"
    by (auto simp: computeMinSwapOut_def expectedGross_def result_simps Let_def BPS_DENOMINATOR_def s
        split: if_splits)
  have "0 \<le> g" "g \<le> U64_MAX" using expectedGross_u64 [OF g] by simp_all
  moreover have "f = (g * (10000 - s)) div 10000"
    using f(1) s \<open>0 \<le> g\<close> by simp
  ultimately show thesis using that g s f by blast
qed

text \<open>What an amount is worth at a price of the offer (nine decimals), rounded down: base tokens in ONyc, or ONyc less the withdrawal fee
  in base tokens.\<close>

definition nav_output :: "ComputeMinSwapOutParams \<Rightarrow> int \<Rightarrow> int" where
  "nav_output ps price =
     (case cmDirection ps of
        Deposit \<Rightarrow> (cmPostTrimInAmount ps * 10 ^ cmOnycDecimals ps * 10 ^ 9) div (price * 10 ^ cmBaseDecimals ps)
      | Withdraw \<Rightarrow>
          (let feeBps = (case cmWithdrawFeeBps ps of None \<Rightarrow> 0 | Some b \<Rightarrow> the_int b);
               net = cmPostTrimInAmount ps - cmPostTrimInAmount ps * feeBps div 10000
           in (net * price * 10 ^ cmBaseDecimals ps) div (10 ^ cmOnycDecimals ps * 10 ^ 9)))"

lemma calculateStepPrice_u64: "calculateStepPrice v now = Inr price \<Longrightarrow> 0 \<le> price \<and> price \<le> U64_MAX"
  by (auto simp: calculateStepPrice_def Let_def result_simps asU64_Inr_iff split: if_splits)

lemma depositExpectedOut_value:
  assumes "depositExpectedOut amount price du dy = Inr out" "0 \<le> amount"
  shows "out = (amount * 10 ^ dy * 10 ^ 9) div (price * 10 ^ du)"
  using assms by (auto simp: depositExpectedOut_def Let_def result_simps asU64_Inr_iff onre_consts split: if_splits)

lemma redemptionExpectedOut_value:
  assumes "redemptionExpectedOut amount price dy du = Inr out" "0 \<le> amount" "0 \<le> price"
  shows "out = (amount * price * 10 ^ du) div (10 ^ dy * 10 ^ 9)"
  using assms by (auto simp: redemptionExpectedOut_def Let_def result_simps asU64_Inr_iff onre_consts)

lemma expectedGross_value:
  assumes "expectedGross ps = Inr g" "0 < cmPostTrimInAmount ps"
  shows "\<exists>v price. parseActiveOfferVector (cmOfferData ps) (cmNowUnix ps) = Inr v \<and>
    calculateStepPrice v (cmNowUnix ps) = Inr price \<and> g = nav_output ps price"
proof -
  from assms(1) obtain v price where v: "parseActiveOfferVector (cmOfferData ps) (cmNowUnix ps) = Inr v"
    and price: "calculateStepPrice v (cmNowUnix ps) = Inr price"
    by (auto simp: expectedGross_def elim!: rbind_InrE)
  have pos: "0 \<le> price" using calculateStepPrice_u64 [OF price] by simp
  have "g = nav_output ps price"
  proof (cases "cmDirection ps")
    case Deposit
    with assms(1) v price have "depositExpectedOut (cmPostTrimInAmount ps) price (cmBaseDecimals ps) (cmOnycDecimals ps) = Inr g"
      by (simp add: expectedGross_def)
    from depositExpectedOut_value [OF this] assms(2) Deposit show ?thesis by (simp add: nav_output_def)
  next
    case Withdraw
    define w where "w = (case cmWithdrawFeeBps ps of None \<Rightarrow> JInt 0 | Some b \<Rightarrow> b)"
    have fee: "the_int w = (case cmWithdrawFeeBps ps of None \<Rightarrow> 0 | Some b \<Rightarrow> the_int b)"
      by (simp add: w_def split: option.split)
    from assms(1) Withdraw v price have "0 \<le> the_int w"
      and red: "rbind (bigdiv (cmPostTrimInAmount ps * the_int w) 10000) (\<lambda>fee.
         if cmPostTrimInAmount ps - fee \<le> 0 then Inl (RangeError ''withdraw fee consumes the entire input'')
         else redemptionExpectedOut (cmPostTrimInAmount ps - fee) price (cmOnycDecimals ps) (cmBaseDecimals ps)) = Inr g"
      by (auto simp: expectedGross_def Let_def BPS_DENOMINATOR_def w_def split: if_splits)
    with assms(2) have out: "redemptionExpectedOut (cmPostTrimInAmount ps - cmPostTrimInAmount ps * the_int w div 10000) price
         (cmOnycDecimals ps) (cmBaseDecimals ps) = Inr g" and "0 < cmPostTrimInAmount ps - cmPostTrimInAmount ps * the_int w div 10000"
      by (auto split: if_splits)
    with redemptionExpectedOut_value [OF out _ pos] Withdraw show ?thesis by (simp add: nav_output_def Let_def flip: fee)
  qed
  with v price show ?thesis by blast
qed

text \<open>C38. A computed floor is a positive u64, so the memo builder and the on-chain \<open>receive\<close> accept it.
  It is what the amount, less the withdrawal fee, is worth at the step price of the active offer vector, less the slippage the user tolerates,
  rounded down: ten thousand floors are at most that worth times \<open>10000 - slippage\<close>, and one unit more would
  exceed it. A user who tolerates more slippage signs a floor that is no higher.\<close>

theorem computeMinSwapOut_floor:
  assumes "computeMinSwapOut ps = Inr f"
    and "computeMinSwapOut (ps\<lparr>cmSlippageBps := JInt s'\<rparr>) = Inr f'"
    and "the_int (cmSlippageBps ps) \<le> s'"
  shows "0 < f \<and> f \<le> U64_MAX \<and> f' \<le> f \<and>
    (\<exists>v price s. parseActiveOfferVector (cmOfferData ps) (cmNowUnix ps) = Inr v \<and>
       calculateStepPrice v (cmNowUnix ps) = Inr price \<and> cmSlippageBps ps = JInt s \<and> 0 \<le> s \<and> s \<le> 10000 \<and>
       10000 * f \<le> nav_output ps price * (10000 - s) \<and> nav_output ps price * (10000 - s) < 10000 * (f + 1))"
proof -
  from assms(1) obtain g s where g: "expectedGross ps = Inr g" "cmSlippageBps ps = JInt s" "0 \<le> s"
    "s \<le> 10000" "0 \<le> g" "g \<le> U64_MAX" and f: "f = (g * (10000 - s)) div 10000" "0 < f"
    by (rule computeMinSwapOut_InrD)
  from assms(2) obtain g' t where g': "expectedGross (ps\<lparr>cmSlippageBps := JInt s'\<rparr>) = Inr g'"
    "t = s'" "f' = (g' * (10000 - t)) div 10000"
    by (rule computeMinSwapOut_InrD) auto
  have "0 < cmPostTrimInAmount ps" using assms(1) by (auto simp: computeMinSwapOut_def split: if_splits)
  from expectedGross_value [OF g(1) this] obtain v price where
    v: "parseActiveOfferVector (cmOfferData ps) (cmNowUnix ps) = Inr v"
      "calculateStepPrice v (cmNowUnix ps) = Inr price" "g = nav_output ps price" by blast
  have same: "g' = g" using g(1) g'(1) by simp
  have "g * (10000 - s') \<le> g * (10000 - s)"
    using assms(3) g by (intro mult_left_mono) auto
  then have "f' \<le> f" unfolding f g'(3) g'(2) same by (rule zdiv_mono1) simp
  moreover have "(g * (10000 - s)) div 10000 \<le> (g * 10000) div 10000"
    using g by (intro zdiv_mono1 mult_left_mono) auto
  then have "f \<le> g" unfolding f by simp
  moreover have "10000 * f \<le> g * (10000 - s)" "g * (10000 - s) < 10000 * (f + 1)" unfolding f by presburger+
  ultimately show ?thesis using f g v by auto
qed

theorem computeMinSwapOut_floor_witness:
  "let v = \<lparr>start_time = 7, base_time = 5, base_price = 1000000000, apr = 0, price_fix_duration = 3600\<rparr>;
       ps = \<lparr>cmDirection = Deposit, cmPostTrimInAmount = 1000000, cmOfferData = synthOfferBuffer [v],
             cmNowUnix = 10, cmBaseDecimals = 6, cmOnycDecimals = 9, cmSlippageBps = JInt 100,
             cmWithdrawFeeBps = None\<rparr>
   in \<exists>f f'. computeMinSwapOut ps = Inr f \<and> computeMinSwapOut (ps\<lparr>cmSlippageBps := JInt 500\<rparr>) = Inr f' \<and>
        f' \<le> f \<and> f = 990000000"
proof -
  let ?v = "\<lparr>start_time = 7, base_time = 5, base_price = 1000000000, apr = 0, price_fix_duration = 3600\<rparr>"
  let ?ps = "\<lparr>cmDirection = Deposit, cmPostTrimInAmount = 1000000, cmOfferData = synthOfferBuffer [?v],
             cmNowUnix = 10, cmBaseDecimals = 6, cmOnycDecimals = 9, cmSlippageBps = JInt 100,
             cmWithdrawFeeBps = None\<rparr>"
  have u: "u64_vector ?v" by (simp add: u64_vector_def U64_MAX_def)
  have buf: "synthOfferBuffer [?v] = put (replicate 608 0) (slotOffset 0) (offerVectorBytes ?v)"
    by (simp add: synthOfferBuffer_def slotOffset_def onre_consts)
  have room: "slotOffset 0 + 40 \<le> length (replicate 608 (0 :: byte))"
    by (simp add: slotOffset_def onre_consts)
  have at: "vectorAt (synthOfferBuffer [?v]) (slotOffset i) = (if i = 0 then ?v else zeroVector)"
    if "i < 10" for i
    using synth_prefix [of 1 "[?v]"] u that by (simp add: buf)
  have "activeVectors (synthOfferBuffer [?v]) 10 [0..<10] = [?v]"
    using at by (simp add: activeVectors_def upt_rec numeral_eq_Suc zeroVector_def)
  moreover have "length (synthOfferBuffer [?v]) = 608" using room by (simp add: buf length_put)
  ultimately have p: "parseActiveOfferVector (synthOfferBuffer [?v]) 10 = Inr ?v"
    by (simp add: parseActiveOfferVector_eq onre_consts)
  have f: "computeMinSwapOut ?ps = Inr 990000000"
    "computeMinSwapOut (?ps\<lparr>cmSlippageBps := JInt 500\<rparr>) = Inr 950000000"
    by (simp_all add: computeMinSwapOut_def p calculateStepPrice_def depositExpectedOut_def asU64_def
        U64_MAX_def onre_consts BPS_DENOMINATOR_def)
  from computeMinSwapOut_floor [OF f] f show ?thesis by simp
qed

end
