(* ===== verification/Pda.thy ===== *)
theory Pda
  imports Codec Onre_Nav
begin

text \<open>
  The program-address derivations of \<open>packages/sdk/src/pda.ts\<close>, and that the address families of the
  relayer cannot collide: their seeds, once concatenated, differ in length or in the bytes of the keys.
\<close>

definition findConfigPda :: "web3_env \<Rightarrow> pubkey \<Rightarrow> pubkey \<Rightarrow> pubkey \<Rightarrow> (pubkey \<times> nat) result" where
  "findConfigPda env baseMint assetMint programId = fpa env [CONFIG_SEED, baseMint, assetMint] programId"

definition findGlobalConfigPda :: "web3_env \<Rightarrow> pubkey \<Rightarrow> (pubkey \<times> nat) result" where
  "findGlobalConfigPda env programId = fpa env [GLOBAL_CONFIG_SEED] programId"

definition findAuthorityPda :: "web3_env \<Rightarrow> pubkey \<Rightarrow> (pubkey \<times> nat) result" where
  "findAuthorityPda env programId = fpa env [RELAYER_SEED] programId"

definition findFlowPda :: "web3_env \<Rightarrow> direction \<Rightarrow> pubkey \<Rightarrow> pubkey \<Rightarrow> pubkey \<Rightarrow> (pubkey \<times> nat) result" where
  "findFlowPda env dir configPda nttInboxItem programId =
     (let seed = (if dir = Deposit then FLOW_INBOUND_SEED else FLOW_OUTBOUND_SEED)
      in fpa env [seed, configPda, nttInboxItem] programId)"

definition findInflightFlowPda :: "web3_env \<Rightarrow> pubkey \<Rightarrow> pubkey \<Rightarrow> pubkey \<Rightarrow> (pubkey \<times> nat) result" where
  "findInflightFlowPda env = findFlowPda env Deposit"

definition findOutflightFlowPda :: "web3_env \<Rightarrow> pubkey \<Rightarrow> pubkey \<Rightarrow> pubkey \<Rightarrow> (pubkey \<times> nat) result" where
  "findOutflightFlowPda env = findFlowPda env Withdraw"

definition findUserInboxWithMinPda :: "web3_env \<Rightarrow> pubkey \<Rightarrow> int \<Rightarrow> pubkey \<Rightarrow> (pubkey \<times> nat) result" where
  "findUserInboxWithMinPda env wallet minOut programId =
     (let minLe = put (replicate 8 0) 0 (u64_le minOut)
      in fpa env [USER_INBOX_SEED, wallet, minLe] programId)"

definition findIntentTransferSetterPda :: "web3_env \<Rightarrow> pubkey \<Rightarrow> (pubkey \<times> nat) result" where
  "findIntentTransferSetterPda env programId = fpa env [INTENT_TRANSFER_SETTER_SEED] programId"

definition findProgramSignerPda :: "web3_env \<Rightarrow> pubkey \<Rightarrow> (pubkey \<times> nat) result" where
  "findProgramSignerPda env programId = fpa env [PROGRAM_SIGNER_SEED] programId"

section \<open>No collisions\<close>

lemma put_whole: "length ys = n \<Longrightarrow> put (replicate n x) 0 ys = ys"
  by (simp add: put_def)

lemma pdaD:
  "pda_collision_free env \<Longrightarrow> fpa env s p = Inr (k, b) \<Longrightarrow> fpa env s' p' = Inr (k, b') \<Longrightarrow>
     concat s = concat s' \<and> p = p'"
  unfolding pda_collision_free_def by blast

lemma seed_lengths:
  "length CONFIG_SEED = 14" "length GLOBAL_CONFIG_SEED = 13" "length RELAYER_SEED = 7"
  "length FLOW_INBOUND_SEED = 8" "length FLOW_OUTBOUND_SEED = 9" "length USER_INBOX_SEED = 10"
  by (simp_all add: CONFIG_SEED_def GLOBAL_CONFIG_SEED_def RELAYER_SEED_def FLOW_INBOUND_SEED_def
      FLOW_OUTBOUND_SEED_def USER_INBOX_SEED_def)

text \<open>A flow address determines its direction, its pair's configuration, its inbox item and its
  program: two flows that differ in any of them have different addresses, so a deposit and a
  withdrawal, or two pairs, never share a flow account.\<close>

theorem findFlowPda_injective:
  assumes "pda_collision_free env" "length cfg = 32" "length inbox = 32" "length cfg' = 32" "length inbox' = 32"
    and "findFlowPda env dir cfg inbox prog = Inr (k, b)"
    and "findFlowPda env dir' cfg' inbox' prog' = Inr (k, b')"
  shows "dir = dir' \<and> cfg = cfg' \<and> inbox = inbox' \<and> prog = prog'"
proof -
  let ?seed = "\<lambda>d. if d = Deposit then FLOW_INBOUND_SEED else FLOW_OUTBOUND_SEED"
  have eq: "?seed dir @ cfg @ inbox = ?seed dir' @ cfg' @ inbox'" "prog = prog'"
    using pdaD [OF assms(1), of "[?seed dir, cfg, inbox]" prog k b "[?seed dir', cfg', inbox']" prog' b'] assms(6,7)
    by (simp_all add: findFlowPda_def)
  have "length (?seed dir) = length (?seed dir')" using arg_cong [OF eq(1), of length] assms(2-5) by simp
  then have "dir = dir'" by (cases dir; cases dir') (simp_all add: seed_lengths)
  with eq assms(2-5) show ?thesis by (auto split: if_splits)
qed

theorem findFlowPda_injective_witness:
  "\<exists>k b k' b'. findFlowPda model_env Deposit (replicate 32 1) (replicate 32 2) (replicate 32 3) = Inr (k, b) \<and>
     findFlowPda model_env Withdraw (replicate 32 1) (replicate 32 2) (replicate 32 3) = Inr (k', b') \<and> k \<noteq> k'"
proof -
  obtain k b k' b' where
    k: "findFlowPda model_env Deposit (replicate 32 1) (replicate 32 2) (replicate 32 3) = Inr (k, b)" and
    k': "findFlowPda model_env Withdraw (replicate 32 1) (replicate 32 2) (replicate 32 3) = Inr (k', b')"
    by (simp add: findFlowPda_def model_env_def)
  have "k \<noteq> k'"
    using findFlowPda_injective [OF model_env_pda _ _ _ _ k, of "replicate 32 1" "replicate 32 2" Withdraw _ b'] k'
    by auto
  with k k' show ?thesis by blast
qed



text \<open>The six address families of the relayer program are pairwise disjoint: the concatenated seeds
  of a configuration, the global configuration, the authority, a deposit flow, a withdrawal flow and a
  user inbox all have different lengths, so no key of one family is ever a key of another.\<close>

definition familySeeds :: "pubkey \<Rightarrow> pubkey \<Rightarrow> int \<Rightarrow> bytes list list" where
  "familySeeds x y m =
     [[CONFIG_SEED, x, y], [GLOBAL_CONFIG_SEED], [RELAYER_SEED], [FLOW_INBOUND_SEED, x, y],
      [FLOW_OUTBOUND_SEED, x, y], [USER_INBOX_SEED, x, put (replicate 8 0) 0 (u64_le m)]]"

lemma family_lengths:
  "length x = 32 \<Longrightarrow> length y = 32 \<Longrightarrow>
     map (\<lambda>s. length (concat s)) (familySeeds x y m) = [78, 13, 7, 72, 73, 50]"
  by (simp add: familySeeds_def seed_lengths put_whole)

lemma families_disjoint:
  assumes "pda_collision_free env" "length x = 32" "length y = 32" "length x' = 32" "length y' = 32"
    and "i < 6" "j < 6" "fpa env (familySeeds x y m ! i) p = Inr (k, b)"
    and "fpa env (familySeeds x' y' m' ! j) p' = Inr (k, b')"
  shows "i = j"
proof -
  let ?L = "[78, 13, 7, 72, 73, 50 :: nat]"
  have len: "length (familySeeds u v n) = 6" for u v n by (simp add: familySeeds_def)
  have "?L ! i = length (concat (familySeeds x y m ! i))"
    using assms(6) nth_map [of i "familySeeds x y m" "\<lambda>s. length (concat s)"]
    by (simp only: family_lengths [OF assms(2,3)] len)
  also have "\<dots> = length (concat (familySeeds x' y' m' ! j))"
    using pdaD [OF assms(1,8,9)] by simp
  also have "\<dots> = ?L ! j"
    using assms(7) nth_map [of j "familySeeds x' y' m'" "\<lambda>s. length (concat s)"]
    by (simp only: family_lengths [OF assms(4,5)] len)
  finally have "?L ! i = ?L ! j" .
  moreover have "distinct ?L" by simp
  ultimately show ?thesis using assms(6,7) by (simp add: nth_eq_iff_index_eq)
qed

end
