(* ===== verification/Ntt.thy ===== *)
theory Ntt
  imports Ntt_State Pda
begin

text \<open>
  The NTT builders of \<open>packages/sdk/src/builders/ntt.ts\<close>: the program addresses of an NTT manager, the
  43-byte transfer arguments in both byte orders, and the account lists of \<open>transfer_lock\<close>,
  \<open>release_wormhole_outbound\<close> and \<open>redeem\<close> followed by \<open>release\<close>, with the account metas of
  \<open>packages/sdk/src/utils/accountMeta.ts\<close>.
\<close>

section \<open>Account metas\<close>

record AccountMeta =
  amPubkey :: pubkey
  amIsSigner :: bool
  amIsWritable :: bool

definition writable :: "pubkey \<Rightarrow> AccountMeta" where
  "writable k = \<lparr>amPubkey = k, amIsSigner = False, amIsWritable = True\<rparr>"

definition readonly :: "pubkey \<Rightarrow> AccountMeta" where
  "readonly k = \<lparr>amPubkey = k, amIsSigner = False, amIsWritable = False\<rparr>"

definition signerWritable :: "pubkey \<Rightarrow> AccountMeta" where
  "signerWritable k = \<lparr>amPubkey = k, amIsSigner = True, amIsWritable = True\<rparr>"

definition assertAccountCount :: "AccountMeta list \<Rightarrow> nat \<Rightarrow> AccountMeta list result" where
  "assertAccountCount accounts expected =
     (if length accounts \<noteq> expected then Inl (Error ''account list drift'') else Inr accounts)"

section \<open>Addresses\<close>

definition NTT_CONFIG_SEED :: bytes where "NTT_CONFIG_SEED = utf8 ''config''"
definition NTT_MANAGER_PEER_SEED :: bytes where "NTT_MANAGER_PEER_SEED = utf8 ''peer''"
definition REGISTERED_TRANSCEIVER_SEED :: bytes where "REGISTERED_TRANSCEIVER_SEED = utf8 ''registered_transceiver''"
definition INBOX_RATE_LIMIT_SEED :: bytes where "INBOX_RATE_LIMIT_SEED = utf8 ''inbox_rate_limit''"
definition OUTBOX_RATE_LIMIT_SEED :: bytes where "OUTBOX_RATE_LIMIT_SEED = utf8 ''outbox_rate_limit''"
definition INBOX_ITEM_SEED :: bytes where "INBOX_ITEM_SEED = utf8 ''inbox_item''"
definition TOKEN_AUTHORITY_SEED :: bytes where "TOKEN_AUTHORITY_SEED = utf8 ''token_authority''"
definition SESSION_AUTHORITY_SEED :: bytes where "SESSION_AUTHORITY_SEED = utf8 ''session_authority''"
definition EMITTER_SEED :: bytes where "EMITTER_SEED = utf8 ''emitter''"
definition WORMHOLE_MESSAGE_SEED :: bytes where "WORMHOLE_MESSAGE_SEED = utf8 ''message''"

text \<open>\<open>Buffer.writeUInt16BE\<close> throws outside the u16 range.\<close>

definition chainIdBeBuf :: "nat \<Rightarrow> bytes result" where
  "chainIdBeBuf chainId =
     (if 65535 < chainId then Inl (RangeError ''The value is out of range'') else Inr (nat_be 2 chainId))"

definition findNttConfigPda :: "web3_env \<Rightarrow> pubkey \<Rightarrow> (pubkey \<times> nat) result" where
  "findNttConfigPda env programId = fpa env [NTT_CONFIG_SEED] programId"

definition findNttPeerPda :: "web3_env \<Rightarrow> nat \<Rightarrow> pubkey \<Rightarrow> (pubkey \<times> nat) result" where
  "findNttPeerPda env chainId programId =
     rbind (chainIdBeBuf chainId) (\<lambda>c. fpa env [NTT_MANAGER_PEER_SEED, c] programId)"

definition findRegisteredTransceiverPda :: "web3_env \<Rightarrow> pubkey \<Rightarrow> pubkey \<Rightarrow> (pubkey \<times> nat) result" where
  "findRegisteredTransceiverPda env transceiver programId =
     fpa env [REGISTERED_TRANSCEIVER_SEED, transceiver] programId"

definition findInboxRateLimitPda :: "web3_env \<Rightarrow> nat \<Rightarrow> pubkey \<Rightarrow> (pubkey \<times> nat) result" where
  "findInboxRateLimitPda env chainId programId =
     rbind (chainIdBeBuf chainId) (\<lambda>c. fpa env [INBOX_RATE_LIMIT_SEED, c] programId)"

definition findOutboxRateLimitPda :: "web3_env \<Rightarrow> pubkey \<Rightarrow> (pubkey \<times> nat) result" where
  "findOutboxRateLimitPda env programId = fpa env [OUTBOX_RATE_LIMIT_SEED] programId"

definition findTokenAuthorityPda :: "web3_env \<Rightarrow> pubkey \<Rightarrow> (pubkey \<times> nat) result" where
  "findTokenAuthorityPda env programId = fpa env [TOKEN_AUTHORITY_SEED] programId"

definition findInboxItemPda :: "web3_env \<Rightarrow> bytes \<Rightarrow> pubkey \<Rightarrow> (pubkey \<times> nat) result" where
  "findInboxItemPda env messageHash programId = fpa env [INBOX_ITEM_SEED, messageHash] programId"

definition findNttCustodyAta :: "web3_env \<Rightarrow> pubkey \<Rightarrow> pubkey \<Rightarrow> pubkey result" where
  "findNttCustodyAta env mint programId =
     rbind (key_of (findTokenAuthorityPda env programId)) (\<lambda>tokenAuthorityPda.
       ata env mint tokenAuthorityPda True (TOKEN_PROGRAM_ID env))"

definition findSessionAuthorityPda :: "web3_env \<Rightarrow> pubkey \<Rightarrow> bytes \<Rightarrow> pubkey \<Rightarrow> (pubkey \<times> nat) result" where
  "findSessionAuthorityPda env fromOwner argsHash programId =
     fpa env [SESSION_AUTHORITY_SEED, fromOwner, argsHash] programId"

definition findNttEmitterPda :: "web3_env \<Rightarrow> pubkey \<Rightarrow> (pubkey \<times> nat) result" where
  "findNttEmitterPda env transceiverProgramId = fpa env [EMITTER_SEED] transceiverProgramId"

definition findNttWormholeMessagePda :: "web3_env \<Rightarrow> pubkey \<Rightarrow> pubkey \<Rightarrow> (pubkey \<times> nat) result" where
  "findNttWormholeMessagePda env outboxItem transceiverProgramId =
     fpa env [WORMHOLE_MESSAGE_SEED, outboxItem] transceiverProgramId"

section \<open>Transfer arguments\<close>

record NttTransferArgs =
  taAmount :: int
  taRecipientChain :: nat
  taRecipientAddress :: bytes
  taShouldQueue :: bool

definition serializeTransferArgs :: "NttTransferArgs \<Rightarrow> bool \<Rightarrow> bytes result" where
  "serializeTransferArgs args littleEndian =
     (if length (taRecipientAddress args) \<noteq> 32
      then Inl (Error ''NttTransferArgs: recipientAddress must be 32 bytes'')
      else
        let buf = replicate (8 + 2 + 32 + 1) 0;
            buf = put buf 0 (if littleEndian then u64_le (taAmount args) else u64_be (taAmount args));
            buf = put buf 8 (if littleEndian then nat_le 2 (taRecipientChain args) else nat_be 2 (taRecipientChain args));
            buf = put buf 10 (taRecipientAddress args)
        in Inr (put buf 42 [if taShouldQueue args then 1 else 0]))"

definition nttTransferArgsHash :: "web3_env \<Rightarrow> NttTransferArgs \<Rightarrow> bytes result" where
  "nttTransferArgsHash env args = rbind (serializeTransferArgs args False) (\<lambda>bs. Inr (keccak256 env bs))"

definition encodeNttTransferArgsBorsh :: "NttTransferArgs \<Rightarrow> bytes result" where
  "encodeNttTransferArgsBorsh args = serializeTransferArgs args True"

section \<open>Account lists\<close>

definition NTT_TRANSFER_LOCK_ACCOUNT_COUNT :: nat where "NTT_TRANSFER_LOCK_ACCOUNT_COUNT = 14"
definition NTT_RELEASE_WORMHOLE_OUTBOUND_ACCOUNT_COUNT :: nat where "NTT_RELEASE_WORMHOLE_OUTBOUND_ACCOUNT_COUNT = 15"
definition NTT_REDEEM_ACCOUNT_COUNT :: nat where "NTT_REDEEM_ACCOUNT_COUNT = 10"
definition NTT_RELEASE_INBOUND_ACCOUNT_COUNT :: nat where "NTT_RELEASE_INBOUND_ACCOUNT_COUNT = 8"

record BuildNttTransferLockAccountListParams =
  tlNttProgramId :: pubkey
  tlFromOwner :: pubkey
  tlFromOwnerIsSigner :: bool
  tlFromTokenAccount :: pubkey
  tlMint :: pubkey
  tlOutboxItem :: pubkey
  tlRecipientChain :: nat
  tlRecipientAddress :: bytes
  tlAmount :: int
  tlShouldQueue :: "bool option"

definition buildNttTransferLockAccountList ::
  "web3_env \<Rightarrow> BuildNttTransferLockAccountListParams \<Rightarrow> AccountMeta list result" where
  "buildNttTransferLockAccountList env ps =
     (let shouldQueue = (case tlShouldQueue ps of None \<Rightarrow> False | Some q \<Rightarrow> q);
          prog = tlNttProgramId ps
      in rbind (key_of (findNttConfigPda env prog)) (\<lambda>configPda.
         rbind (key_of (findNttPeerPda env (tlRecipientChain ps) prog)) (\<lambda>peerPda.
         rbind (key_of (findOutboxRateLimitPda env prog)) (\<lambda>outboxRateLimitPda.
         rbind (key_of (findInboxRateLimitPda env (tlRecipientChain ps) prog)) (\<lambda>inboxRateLimitPda.
         rbind (key_of (findTokenAuthorityPda env prog)) (\<lambda>tokenAuthorityPda.
         rbind (findNttCustodyAta env (tlMint ps) prog) (\<lambda>custody.
         rbind (nttTransferArgsHash env \<lparr>taAmount = tlAmount ps, taRecipientChain = tlRecipientChain ps,
                  taRecipientAddress = tlRecipientAddress ps, taShouldQueue = shouldQueue\<rparr>) (\<lambda>argsHash.
         rbind (key_of (findSessionAuthorityPda env (tlFromOwner ps) argsHash prog)) (\<lambda>sessionAuthorityPda.
           assertAccountCount
             [\<lparr>amPubkey = tlFromOwner ps, amIsSigner = tlFromOwnerIsSigner ps, amIsWritable = True\<rparr>,
              readonly configPda,
              writable (tlMint ps),
              writable (tlFromTokenAccount ps),
              readonly (TOKEN_PROGRAM_ID env),
              \<lparr>amPubkey = tlOutboxItem ps, amIsSigner = True, amIsWritable = True\<rparr>,
              writable outboxRateLimitPda,
              writable custody,
              readonly (SYSTEM_PROGRAM_ID env),
              writable inboxRateLimitPda,
              readonly peerPda,
              readonly sessionAuthorityPda,
              readonly tokenAuthorityPda,
              readonly prog]
             NTT_TRANSFER_LOCK_ACCOUNT_COUNT)))))))))"

record BuildNttReleaseWormholeOutboundAccountListParams =
  rwPayer :: pubkey
  rwNttProgramId :: pubkey
  rwTransceiverProgramId :: "pubkey option"
  rwOutboxItem :: pubkey
  rwWormholeMessage :: "pubkey option"
  rwEmitter :: "pubkey option"
  rwWormholeProgram :: pubkey
  rwWormholeBridge :: pubkey
  rwWormholeFeeCollector :: pubkey
  rwWormholeSequence :: pubkey
  rwOutboxItemSigner :: pubkey

definition buildNttReleaseWormholeOutboundAccountList ::
  "web3_env \<Rightarrow> BuildNttReleaseWormholeOutboundAccountListParams \<Rightarrow> AccountMeta list result" where
  "buildNttReleaseWormholeOutboundAccountList env ps =
     (let transceiverProgramId = (case rwTransceiverProgramId ps of None \<Rightarrow> rwNttProgramId ps | Some t \<Rightarrow> t)
      in rbind (key_of (findNttConfigPda env (rwNttProgramId ps))) (\<lambda>configPda.
         rbind (key_of (findRegisteredTransceiverPda env transceiverProgramId (rwNttProgramId ps)))
           (\<lambda>registeredTransceiverPda.
         rbind (case rwWormholeMessage ps of Some m \<Rightarrow> Inr m
                | None \<Rightarrow> key_of (findNttWormholeMessagePda env (rwOutboxItem ps) transceiverProgramId)) (\<lambda>wormholeMessage.
         rbind (case rwEmitter ps of Some e \<Rightarrow> Inr e
                | None \<Rightarrow> key_of (findNttEmitterPda env transceiverProgramId)) (\<lambda>emitter.
           assertAccountCount
             [signerWritable (rwPayer ps),
              readonly configPda,
              writable (rwOutboxItem ps),
              readonly registeredTransceiverPda,
              writable wormholeMessage,
              readonly emitter,
              writable (rwWormholeBridge ps),
              writable (rwWormholeFeeCollector ps),
              writable (rwWormholeSequence ps),
              readonly (rwWormholeProgram ps),
              readonly (SYSTEM_PROGRAM_ID env),
              readonly (SYSVAR_CLOCK_PUBKEY env),
              readonly (SYSVAR_RENT_PUBKEY env),
              readonly (rwNttProgramId ps),
              readonly (rwOutboxItemSigner ps)]
             NTT_RELEASE_WORMHOLE_OUTBOUND_ACCOUNT_COUNT)))))"

record BuildNttRedeemReleaseAccountsParams =
  rrMint :: pubkey
  rrNttInboxItem :: pubkey
  rrNttTransceiverMessage :: pubkey
  rrTransceiverAddress :: pubkey
  rrProgramId :: pubkey
  rrAuthority :: pubkey
  rrRecipientAta :: pubkey

definition buildNttRedeemReleaseAccounts ::
  "web3_env \<Rightarrow> BuildNttRedeemReleaseAccountsParams \<Rightarrow> (AccountMeta list \<times> nat) result" where
  "buildNttRedeemReleaseAccounts env ps =
     (let fromChain = FOGO_WORMHOLE_CHAIN_ID; prog = rrProgramId ps
      in rbind (key_of (findNttConfigPda env prog)) (\<lambda>configPda.
         rbind (key_of (findNttPeerPda env fromChain prog)) (\<lambda>peerPda.
         rbind (key_of (findRegisteredTransceiverPda env (rrTransceiverAddress ps) prog)) (\<lambda>registeredTransceiverPda.
         rbind (key_of (findInboxRateLimitPda env fromChain prog)) (\<lambda>inboxRateLimitPda.
         rbind (key_of (findOutboxRateLimitPda env prog)) (\<lambda>outboxRateLimitPda.
         rbind (key_of (findTokenAuthorityPda env prog)) (\<lambda>tokenAuthorityPda.
         rbind (findNttCustodyAta env (rrMint ps) prog) (\<lambda>custody.
         rbind (assertAccountCount
             [writable (rrAuthority ps),
              readonly configPda,
              readonly peerPda,
              readonly (rrNttTransceiverMessage ps),
              readonly registeredTransceiverPda,
              readonly (rrMint ps),
              writable (rrNttInboxItem ps),
              writable inboxRateLimitPda,
              writable outboxRateLimitPda,
              readonly (SYSTEM_PROGRAM_ID env)]
             NTT_REDEEM_ACCOUNT_COUNT) (\<lambda>redeem.
         rbind (assertAccountCount
             [writable (rrAuthority ps),
              readonly configPda,
              writable (rrNttInboxItem ps),
              writable (rrRecipientAta ps),
              readonly tokenAuthorityPda,
              writable (rrMint ps),
              readonly (TOKEN_PROGRAM_ID env),
              writable custody]
             NTT_RELEASE_INBOUND_ACCOUNT_COUNT) (\<lambda>rel.
           let nttProgramMeta = readonly prog
           in Inr (redeem @ [nttProgramMeta] @ rel @ [nttProgramMeta], length redeem + 1)))))))))))"

section \<open>The transfer arguments commit to every field\<close>

lemma put_append:
  "length xs = off \<Longrightarrow> length ys = length zs \<Longrightarrow> put (xs @ zs @ rest) off ys = xs @ ys @ rest"
  by (simp add: put_def)

definition argsBytes :: "bool \<Rightarrow> NttTransferArgs \<Rightarrow> bytes" where
  "argsBytes le args =
     (if le then u64_le (taAmount args) @ nat_le 2 (taRecipientChain args)
      else u64_be (taAmount args) @ nat_be 2 (taRecipientChain args)) @
     taRecipientAddress args @ [if taShouldQueue args then 1 else 0]"

lemma serializeTransferArgs_eq:
  assumes "length (taRecipientAddress args) = 32"
  shows "serializeTransferArgs args le = Inr (argsBytes le args)"
proof -
  let ?a = "if le then u64_le (taAmount args) else u64_be (taAmount args)"
  let ?c = "if le then nat_le 2 (taRecipientChain args) else nat_be 2 (taRecipientChain args)"
  let ?r = "taRecipientAddress args" and ?q = "[if taShouldQueue args then 1 else 0 :: byte]"
  have rep: "replicate (m + n) (0 :: byte) = replicate m 0 @ replicate n 0" for m n
    by (rule replicate_add)
  have "put (replicate (8 + 2 + 32 + 1) 0) 0 ?a = ?a @ replicate 2 0 @ replicate 32 0 @ replicate 1 0"
    using put_append [of "[]" 0 ?a "replicate 8 0" "replicate 2 0 @ replicate 32 0 @ replicate 1 0"]
    by (simp only: rep append_assoc append_Nil list.size) simp
  moreover have "put \<dots> 8 ?c = (?a @ ?c) @ replicate 32 0 @ replicate 1 0"
    using put_append [of ?a 8 ?c "replicate 2 0" "replicate 32 0 @ replicate 1 0"] by simp
  moreover have "put \<dots> 10 ?r = (?a @ ?c @ ?r) @ replicate 1 0 @ []"
    using put_append [of "?a @ ?c" 10 ?r "replicate 32 0" "replicate 1 0"] assms by simp
  moreover have "put \<dots> 42 ?q = (?a @ ?c @ ?r) @ ?q @ []"
    using put_append [of "?a @ ?c @ ?r" 42 ?q "replicate 1 0" "[]"] assms by simp
  ultimately show ?thesis using assms
    by (simp only: serializeTransferArgs_def Let_def argsBytes_def) simp
qed

definition args_wf :: "NttTransferArgs \<Rightarrow> bool" where
  "args_wf args \<longleftrightarrow> 0 \<le> taAmount args \<and> taAmount args \<le> U64_MAX \<and> taRecipientChain args < 65536 \<and>
     length (taRecipientAddress args) = 32"

lemma u64_be_inj:
  "0 \<le> x \<Longrightarrow> x \<le> U64_MAX \<Longrightarrow> 0 \<le> y \<Longrightarrow> y \<le> U64_MAX \<Longrightarrow> u64_be x = u64_be y \<Longrightarrow> x = y"
  by (rule u64_le_inj) (simp_all add: u64_be_def u64_le_def nat_be_def)

lemma chain_bytes_inj:
  assumes "x < 65536" "y < 65536"
  shows "nat_le 2 x = nat_le 2 y \<Longrightarrow> x = y" "nat_be 2 x = nat_be 2 y \<Longrightarrow> x = y"
  using nat_le_inj [of x 2 y] assms by (simp_all add: nat_be_def)

text \<open>In either byte order the serialized transfer arguments are 43 bytes that determine every
  field: amount, destination chain, recipient and queue flag. So the hash that seeds the session
  authority, and the instruction data, bind the whole transfer.\<close>

theorem transferArgs_commit:
  assumes "args_wf a" "args_wf b"
  shows "\<exists>bs. serializeTransferArgs a le = Inr bs \<and> length bs = 43 \<and>
    (serializeTransferArgs b le = Inr bs \<longleftrightarrow> a = b)"
proof (intro exI conjI)
  have s: "serializeTransferArgs x le = Inr (argsBytes le x)" if "args_wf x" for x
    using that by (simp add: serializeTransferArgs_eq args_wf_def)
  then show "serializeTransferArgs a le = Inr (argsBytes le a)" using assms(1) by simp
  show "length (argsBytes le a) = 43" using assms(1) by (simp add: argsBytes_def args_wf_def)
  have "a = b" if "argsBytes le b = argsBytes le a"
  proof -
    have "taShouldQueue a = taShouldQueue b" "taRecipientAddress a = taRecipientAddress b"
      "taRecipientChain a = taRecipientChain b" "taAmount a = taAmount b"
      using that assms u64_le_inj [of "taAmount a" "taAmount b"] u64_be_inj [of "taAmount a" "taAmount b"]
        chain_bytes_inj [of "taRecipientChain a" "taRecipientChain b"]
      by (auto simp: argsBytes_def args_wf_def split: if_splits)
    then show ?thesis by simp
  qed
  then show "serializeTransferArgs b le = Inr (argsBytes le a) \<longleftrightarrow> a = b"
    using s [OF assms(2)] by auto
qed

theorem transferArgs_commit_witness:
  "let a = \<lparr>taAmount = 5, taRecipientChain = 1, taRecipientAddress = replicate 32 9, taShouldQueue = False\<rparr>
   in serializeTransferArgs a False \<noteq> serializeTransferArgs (a\<lparr>taAmount := 6\<rparr>) False"
proof -
  let ?a = "\<lparr>taAmount = 5, taRecipientChain = 1, taRecipientAddress = replicate 32 9, taShouldQueue = False\<rparr>"
  have "args_wf ?a" "args_wf (?a\<lparr>taAmount := 6\<rparr>)" by (simp_all add: args_wf_def U64_MAX_def)
  from transferArgs_commit [OF this, of False] show ?thesis by auto
qed

section \<open>Account lists\<close>

lemma assertAccountCount_Inr [simp]: "length xs = n \<Longrightarrow> assertAccountCount xs n = Inr xs"
  by (simp add: assertAccountCount_def)

lemma pda_total: "env_total env \<Longrightarrow> fpa env s p \<noteq> Inl e"
  unfolding env_total_def by (metis Inr_Inl_False)

lemma ata_total: "env_total env \<Longrightarrow> ata env m w a t \<noteq> Inl e"
  unfolding env_total_def by (metis Inr_Inl_False)

lemmas pda_defs = key_of_def findNttConfigPda_def findNttPeerPda_def findRegisteredTransceiverPda_def
  findInboxRateLimitPda_def findOutboxRateLimitPda_def findTokenAuthorityPda_def findInboxItemPda_def
  findNttCustodyAta_def findSessionAuthorityPda_def findNttEmitterPda_def findNttWormholeMessagePda_def chainIdBeBuf_def

lemmas account_counts = NTT_TRANSFER_LOCK_ACCOUNT_COUNT_def NTT_RELEASE_WORMHOLE_OUTBOUND_ACCOUNT_COUNT_def
  NTT_REDEEM_ACCOUNT_COUNT_def NTT_RELEASE_INBOUND_ACCOUNT_COUNT_def

text \<open>The account list of \<open>receive\<close> has the split the on-chain handler relies on: eleven accounts of the
  redeem slice, then nine of the release slice, each ending in the NTT program; none is marked as
  a signer; and the inbox item is writable in both slices.\<close>

theorem redeemRelease_split:
  assumes "env_total env"
  shows "case buildNttRedeemReleaseAccounts env ps of
     Inl _ \<Rightarrow> False
   | Inr (accounts, redeemLen) \<Rightarrow>
       redeemLen = NTT_REDEEM_ACCOUNT_COUNT + 1 \<and>
       length accounts = redeemLen + NTT_RELEASE_INBOUND_ACCOUNT_COUNT + 1 \<and>
       last (take redeemLen accounts) = readonly (rrProgramId ps) \<and>
       last accounts = readonly (rrProgramId ps) \<and>
       list_all (\<lambda>a. \<not> amIsSigner a) accounts \<and>
       accounts ! 6 = writable (rrNttInboxItem ps) \<and> accounts ! (redeemLen + 2) = writable (rrNttInboxItem ps) \<and>
       accounts ! (redeemLen + 3) = writable (rrRecipientAta ps)"
proof (cases "buildNttRedeemReleaseAccounts env ps")
  case (Inl e)
  with pda_total [OF assms] ata_total [OF assms] show ?thesis
    by (auto simp: buildNttRedeemReleaseAccounts_def Let_def result_simps account_counts pda_defs FOGO_WORMHOLE_CHAIN_ID_def)
next
  case (Inr r)
  then show ?thesis
    by (auto simp: buildNttRedeemReleaseAccounts_def Let_def result_simps account_counts readonly_def writable_def
        numeral_eq_Suc)
qed

theorem redeemRelease_split_witness:
  "\<exists>accounts. buildNttRedeemReleaseAccounts model_env
      \<lparr>rrMint = [1], rrNttInboxItem = [2], rrNttTransceiverMessage = [3], rrTransceiverAddress = [4], rrProgramId = [5],
       rrAuthority = [6], rrRecipientAta = [7]\<rparr> = Inr (accounts, 11) \<and> length accounts = 20"
  using redeemRelease_split [OF model_env_total, of "\<lparr>rrMint = [1], rrNttInboxItem = [2], rrNttTransceiverMessage = [3],
      rrTransceiverAddress = [4], rrProgramId = [5], rrAuthority = [6], rrRecipientAta = [7]\<rparr>"]
  by (auto simp: account_counts split: sum.splits)

text \<open>The account list of \<open>transfer_lock\<close> has fourteen entries, of which only the outbox item and, when the
  caller says so, the source owner are signers; the session authority in it is derived from the
  hash of exactly the arguments of the transfer.\<close>

theorem transferLock_accounts:
  assumes "env_total env" "tlRecipientChain ps \<le> 65535" "length (tlRecipientAddress ps) = 32"
  shows "case buildNttTransferLockAccountList env ps of
     Inl _ \<Rightarrow> False
   | Inr accounts \<Rightarrow>
       length accounts = NTT_TRANSFER_LOCK_ACCOUNT_COUNT \<and>
       map amPubkey (filter amIsSigner accounts) =
         (if tlFromOwnerIsSigner ps then [tlFromOwner ps, tlOutboxItem ps] else [tlOutboxItem ps]) \<and>
       (\<exists>h b. nttTransferArgsHash env \<lparr>taAmount = tlAmount ps, taRecipientChain = tlRecipientChain ps,
                taRecipientAddress = tlRecipientAddress ps,
                taShouldQueue = (case tlShouldQueue ps of None \<Rightarrow> False | Some q \<Rightarrow> q)\<rparr> = Inr h \<and>
              findSessionAuthorityPda env (tlFromOwner ps) h (tlNttProgramId ps) = Inr (amPubkey (accounts ! 11), b))"
proof (cases "buildNttTransferLockAccountList env ps")
  case (Inl e)
  with pda_total [OF assms(1)] ata_total [OF assms(1)] assms(2,3) show ?thesis
    by (auto simp: buildNttTransferLockAccountList_def Let_def result_simps account_counts pda_defs
        nttTransferArgsHash_def serializeTransferArgs_eq)
next
  case (Inr r)
  then show ?thesis
    by (auto simp: buildNttTransferLockAccountList_def Let_def result_simps account_counts readonly_def writable_def
        key_of_def numeral_eq_Suc)
qed

theorem transferLock_accounts_witness:
  "\<exists>accounts. buildNttTransferLockAccountList model_env
      \<lparr>tlNttProgramId = [1], tlFromOwner = [2], tlFromOwnerIsSigner = False, tlFromTokenAccount = [3], tlMint = [4],
       tlOutboxItem = [5], tlRecipientChain = 51, tlRecipientAddress = replicate 32 6, tlAmount = 7,
       tlShouldQueue = None\<rparr> = Inr accounts \<and> map amPubkey (filter amIsSigner accounts) = [[5]]"
  using transferLock_accounts [OF model_env_total, of "\<lparr>tlNttProgramId = [1], tlFromOwner = [2],
       tlFromOwnerIsSigner = False, tlFromTokenAccount = [3], tlMint = [4],
       tlOutboxItem = [5], tlRecipientChain = 51, tlRecipientAddress = replicate 32 6, tlAmount = 7,
       tlShouldQueue = None\<rparr>"]
  by (auto split: sum.splits)

end
