(* ===== verification/Client.thy ===== *)
theory Client
  imports Ntt
begin

text \<open>
  The relayer client of \<open>packages/sdk/src/client.ts\<close>. Anchor's method builder is third-party code: a builder
  call is recorded as a \<open>method_call\<close> with the instruction's name, its arguments, the named accounts handed
  to \<open>accountsPartial\<close> (\<open>None\<close> for an omitted optional account) and the \<open>remainingAccounts\<close>.
\<close>

datatype ix_arg =
    ArgNum int
  | ArgKey pubkey
  | ArgKeys "pubkey list"
  | ArgDirection direction
  | ArgBytes bytes
  | ArgNull

record method_call =
  mcMethod :: string
  mcArgs :: "ix_arg list"
  mcAccounts :: "(string \<times> pubkey option) list"
  mcRemaining :: "AccountMeta list"

record RelayerClient =
  rcProgramId :: pubkey
  rcWallet :: "pubkey option"
  rcBaseMint :: pubkey
  rcAssetMint :: pubkey
  rcConfigPda :: pubkey
  rcGlobalConfigPda :: pubkey
  rcAuthorityPda :: pubkey

definition newRelayerClient :: "web3_env \<Rightarrow> pubkey \<Rightarrow> pubkey option \<Rightarrow> pubkey \<Rightarrow> pubkey \<Rightarrow> RelayerClient result" where
  "newRelayerClient env programId wallet base asset =
     rbind (key_of (findConfigPda env base asset programId)) (\<lambda>cfg.
     rbind (key_of (findGlobalConfigPda env programId)) (\<lambda>glob.
     rbind (key_of (findAuthorityPda env programId)) (\<lambda>auth.
       Inr \<lparr>rcProgramId = programId, rcWallet = wallet, rcBaseMint = base, rcAssetMint = asset,
            rcConfigPda = cfg, rcGlobalConfigPda = glob, rcAuthorityPda = auth\<rparr>)))"

definition ifNone :: "'a option \<Rightarrow> 'a \<Rightarrow> 'a" where
  "ifNone m d = (case m of None \<Rightarrow> d | Some x \<Rightarrow> x)"

lemma ifNone_simps [simp]: "ifNone None d = d" "ifNone (Some x) d = x"
  by (simp_all add: ifNone_def)

text \<open>\<open>param ?? this.providerPublicKey()\<close>, refused when neither is there.\<close>

definition orWallet :: "RelayerClient \<Rightarrow> pubkey option \<Rightarrow> string \<Rightarrow> pubkey result" where
  "orWallet c given message =
     (case given of
        Some k \<Rightarrow> Inr k
      | None \<Rightarrow> (case rcWallet c of Some w \<Rightarrow> Inr w | None \<Rightarrow> Inl (Error message)))"

definition relayerAta :: "web3_env \<Rightarrow> RelayerClient \<Rightarrow> pubkey \<Rightarrow> pubkey result" where
  "relayerAta env c mint = ata env mint (rcAuthorityPda c) True (TOKEN_PROGRAM_ID env)"

section \<open>Administration\<close>

definition bootstrap :: "web3_env \<Rightarrow> RelayerClient \<Rightarrow> pubkey option \<Rightarrow> method_call result" where
  "bootstrap env c admin0 =
     rbind (orWallet c admin0 ''bootstrap: no admin provided and provider has no wallet'') (\<lambda>admin.
       Inr \<lparr>mcMethod = ''bootstrap'', mcArgs = [],
            mcAccounts = [(''admin'', Some admin), (''globalConfig'', Some (rcGlobalConfigPda c)),
                          (''systemProgram'', Some (SYSTEM_PROGRAM_ID env))],
            mcRemaining = []\<rparr>)"

record InitializeParams =
  inAuthority :: pubkey
  inBaseMint :: "pubkey option"
  inAssetMint :: "pubkey option"
  inFeeVault :: pubkey
  inDepositFeeBps :: int
  inWithdrawFeeBps :: int
  inNttBaseProgram :: "pubkey option"
  inNttAssetProgram :: "pubkey option"
  inIntentPrograms :: "(pubkey \<times> pubkey) option"

definition initialize :: "web3_env \<Rightarrow> RelayerClient \<Rightarrow> InitializeParams \<Rightarrow> method_call result" where
  "initialize env c ps =
     (let baseMint = ifNone (inBaseMint ps) (rcBaseMint c);
          assetMint = ifNone (inAssetMint ps) (rcAssetMint c);
          programs = ifNone (inIntentPrograms ps) (INTENT_TRANSFER_PROGRAM_ID, ONRE_INTENT_PROGRAM_ID)
      in rbind (key_of (findConfigPda env baseMint assetMint (rcProgramId c))) (\<lambda>configPda.
         rbind (relayerAta env c baseMint) (\<lambda>baseAta.
         rbind (relayerAta env c assetMint) (\<lambda>assetAta.
           Inr \<lparr>mcMethod = ''initialize'',
                mcArgs = [ArgNum (inDepositFeeBps ps), ArgNum (inWithdrawFeeBps ps),
                          ArgKey (ifNone (inNttBaseProgram ps) NTT_USDC_PROGRAM_ID),
                          ArgKey (ifNone (inNttAssetProgram ps) NTT_ONYC_PROGRAM_ID),
                          ArgKeys [fst programs, snd programs]],
                mcAccounts = [(''authority'', Some (inAuthority ps)),
                  (''globalConfig'', Some (rcGlobalConfigPda c)),
                  (''pairConfig'', Some configPda),
                  (''relayerAuthority'', Some (rcAuthorityPda c)),
                  (''baseMint'', Some baseMint), (''assetMint'', Some assetMint),
                  (''baseAta'', Some baseAta), (''assetAta'', Some assetAta),
                  (''feeVault'', Some (inFeeVault ps)),
                  (''tokenProgram'', Some (TOKEN_PROGRAM_ID env)),
                  (''associatedTokenProgram'', Some (ASSOCIATED_TOKEN_PROGRAM_ID env)),
                  (''systemProgram'', Some (SYSTEM_PROGRAM_ID env))],
                mcRemaining = []\<rparr>))))"

record ConfigureParams =
  cfAuthority :: "pubkey option"
  cfFeeVault :: "pubkey option"
  cfDepositFeeBps :: "int option"
  cfWithdrawFeeBps :: "int option"
  cfNewAuthority :: "pubkey option"

definition optArg :: "('a \<Rightarrow> ix_arg) \<Rightarrow> 'a option \<Rightarrow> ix_arg" where
  "optArg f m = (case m of None \<Rightarrow> ArgNull | Some x \<Rightarrow> f x)"

definition configure :: "web3_env \<Rightarrow> RelayerClient \<Rightarrow> ConfigureParams \<Rightarrow> method_call result" where
  "configure env c ps =
     rbind (orWallet c (cfAuthority ps) ''configure: no authority provided and provider has no wallet'') (\<lambda>authority.
     rbind (relayerAta env c (rcAssetMint c)) (\<lambda>assetAta.
       Inr \<lparr>mcMethod = ''configure'',
            mcArgs = [optArg ArgNum (cfDepositFeeBps ps), optArg ArgNum (cfWithdrawFeeBps ps),
                      optArg ArgKey (cfNewAuthority ps)],
            mcAccounts = [(''authority'', Some authority), (''pairConfig'', Some (rcConfigPda c)),
              (''relayerAuthority'', Some (rcAuthorityPda c)), (''assetMint'', Some (rcAssetMint c)),
              (''assetAta'', Some assetAta), (''feeVault'', cfFeeVault ps),
              (''tokenProgram'', Some (TOKEN_PROGRAM_ID env))],
            mcRemaining = []\<rparr>))"

definition acceptAuthority :: "RelayerClient \<Rightarrow> pubkey option \<Rightarrow> method_call result" where
  "acceptAuthority c pending0 =
     rbind (orWallet c pending0 ''acceptAuthority: no pendingAuthority provided and provider has no wallet'') (\<lambda>pending.
       Inr \<lparr>mcMethod = ''acceptAuthority'', mcArgs = [],
            mcAccounts = [(''pendingAuthority'', Some pending), (''pairConfig'', Some (rcConfigPda c))],
            mcRemaining = []\<rparr>)"

definition setAdmin :: "RelayerClient \<Rightarrow> pubkey \<Rightarrow> pubkey option \<Rightarrow> method_call result" where
  "setAdmin c newAdmin admin0 =
     rbind (orWallet c admin0 ''setAdmin: no admin provided and provider has no wallet'') (\<lambda>admin.
       Inr \<lparr>mcMethod = ''setAdmin'', mcArgs = [ArgKey newAdmin],
            mcAccounts = [(''admin'', Some admin), (''globalConfig'', Some (rcGlobalConfigPda c))],
            mcRemaining = []\<rparr>)"

definition acceptAdmin :: "RelayerClient \<Rightarrow> pubkey option \<Rightarrow> method_call result" where
  "acceptAdmin c pending0 =
     rbind (orWallet c pending0 ''acceptAdmin: no pendingAdmin provided and provider has no wallet'') (\<lambda>pendingAdmin.
       Inr \<lparr>mcMethod = ''acceptAdmin'', mcArgs = [],
            mcAccounts = [(''pendingAdmin'', Some pendingAdmin), (''globalConfig'', Some (rcGlobalConfigPda c))],
            mcRemaining = []\<rparr>)"

section \<open>Flow instructions\<close>

definition flowPdas :: "web3_env \<Rightarrow> RelayerClient \<Rightarrow> pubkey \<Rightarrow> (pubkey \<times> pubkey) result" where
  "flowPdas env c nttInboxItem =
     rbind (key_of (findInflightFlowPda env (rcConfigPda c) nttInboxItem (rcProgramId c))) (\<lambda>inflightFlow.
     rbind (key_of (findOutflightFlowPda env (rcConfigPda c) nttInboxItem (rcProgramId c))) (\<lambda>outflightFlow.
       Inr (inflightFlow, outflightFlow)))"

record ReleaseAccounts =
  raWormholeProgram :: pubkey
  raWormholeBridge :: pubkey
  raWormholeFeeCollector :: pubkey
  raWormholeSequence :: pubkey
  raOutboxItemSigner :: pubkey
  raWormholeMessage :: "pubkey option"
  raEmitter :: "pubkey option"

record OutboundParams =
  obPayer :: pubkey
  obDirection :: direction
  obBaseMint :: pubkey
  obAssetMint :: pubkey
  obNttInboxItem :: pubkey
  obRentDestination :: pubkey
  obFlowAmount :: int
  obFlowRecipient :: bytes
  obOutboxItem :: pubkey
  obNttBaseProgram :: "pubkey option"
  obNttAssetProgram :: "pubkey option"
  obRelease :: ReleaseAccounts

text \<open>\<open>sendBase\<close> and \<open>refundBase\<close> differ only in the method they name.\<close>

definition outboundBase :: "web3_env \<Rightarrow> RelayerClient \<Rightarrow> string \<Rightarrow> OutboundParams \<Rightarrow> method_call result" where
  "outboundBase env c meth ps =
     rbind (flowPdas env c (obNttInboxItem ps)) (\<lambda>(inflightFlow, outflightFlow).
     rbind (relayerAta env c (obBaseMint ps)) (\<lambda>baseAta.
     rbind (relayerAta env c (obAssetMint ps)) (\<lambda>assetAta.
       Inr \<lparr>mcMethod = meth, mcArgs = [ArgNum (int NTT_TRANSFER_LOCK_ACCOUNT_COUNT)],
            mcAccounts = [(''payer'', Some (obPayer ps)), (''pairConfig'', Some (rcConfigPda c)),
              (''relayerAuthority'', Some (rcAuthorityPda c)),
              (''baseMint'', Some (obBaseMint ps)), (''assetMint'', Some (obAssetMint ps)),
              (''baseAta'', Some baseAta), (''assetAta'', Some assetAta),
              (''nttInboxItem'', Some (obNttInboxItem ps)),
              (''flow'', Some (if obDirection ps = Deposit then inflightFlow else outflightFlow)),
              (''rentDestination'', Some (obRentDestination ps)),
              (''tokenProgram'', Some (TOKEN_PROGRAM_ID env))],
            mcRemaining = []\<rparr>)))"

definition sendBase :: "web3_env \<Rightarrow> RelayerClient \<Rightarrow> OutboundParams \<Rightarrow> method_call result" where
  "sendBase env c = outboundBase env c ''send''"

definition refundBase :: "web3_env \<Rightarrow> RelayerClient \<Rightarrow> OutboundParams \<Rightarrow> method_call result" where
  "refundBase env c = outboundBase env c ''refund''"

definition transferLockAccounts ::
  "web3_env \<Rightarrow> RelayerClient \<Rightarrow> pubkey \<Rightarrow> pubkey \<Rightarrow> pubkey \<Rightarrow> bytes \<Rightarrow> int \<Rightarrow> AccountMeta list result" where
  "transferLockAccounts env c mint nttProgramId outboxItem recipientAddress amount =
     rbind (relayerAta env c mint) (\<lambda>fromTokenAccount.
       buildNttTransferLockAccountList env
         \<lparr>tlNttProgramId = nttProgramId, tlFromOwner = rcAuthorityPda c, tlFromOwnerIsSigner = False,
          tlFromTokenAccount = fromTokenAccount, tlMint = mint, tlOutboxItem = outboxItem,
          tlRecipientChain = FOGO_WORMHOLE_CHAIN_ID, tlRecipientAddress = recipientAddress,
          tlAmount = amount, tlShouldQueue = None\<rparr>)"

definition releaseList :: "web3_env \<Rightarrow> OutboundParams \<Rightarrow> pubkey \<Rightarrow> AccountMeta list result" where
  "releaseList env ps nttProgramId =
     buildNttReleaseWormholeOutboundAccountList env
       \<lparr>rwPayer = obPayer ps, rwNttProgramId = nttProgramId, rwTransceiverProgramId = None,
        rwOutboxItem = obOutboxItem ps, rwWormholeMessage = raWormholeMessage (obRelease ps),
        rwEmitter = raEmitter (obRelease ps), rwWormholeProgram = raWormholeProgram (obRelease ps),
        rwWormholeBridge = raWormholeBridge (obRelease ps),
        rwWormholeFeeCollector = raWormholeFeeCollector (obRelease ps),
        rwWormholeSequence = raWormholeSequence (obRelease ps),
        rwOutboxItemSigner = raOutboxItemSigner (obRelease ps)\<rparr>"

definition send :: "web3_env \<Rightarrow> RelayerClient \<Rightarrow> OutboundParams \<Rightarrow> method_call result" where
  "send env c ps =
     (let isDeposit = (obDirection ps = Deposit);
          baseManager = ifNone (obNttBaseProgram ps) NTT_USDC_PROGRAM_ID;
          assetManager = ifNone (obNttAssetProgram ps) NTT_ONYC_PROGRAM_ID;
          nttProgramId = (if isDeposit then assetManager else baseManager);
          outboundMint = (if isDeposit then obAssetMint ps else obBaseMint ps)
      in rbind (sendBase env c ps) (\<lambda>builder.
         rbind (transferLockAccounts env c outboundMint nttProgramId (obOutboxItem ps)
                  (obFlowRecipient ps) (obFlowAmount ps)) (\<lambda>transferLock.
         rbind (releaseList env ps nttProgramId) (\<lambda>releaseAccts.
           Inr (builder\<lparr>mcRemaining := transferLock @ releaseAccts\<rparr>)))))"

definition refund :: "web3_env \<Rightarrow> RelayerClient \<Rightarrow> OutboundParams \<Rightarrow> method_call result" where
  "refund env c ps =
     (let isDeposit = (obDirection ps = Deposit);
          baseManager = ifNone (obNttBaseProgram ps) NTT_USDC_PROGRAM_ID;
          assetManager = ifNone (obNttAssetProgram ps) NTT_ONYC_PROGRAM_ID;
          nttProgramId = (if isDeposit then baseManager else assetManager);
          originalMint = (if isDeposit then obBaseMint ps else obAssetMint ps)
      in rbind (refundBase env c ps) (\<lambda>builder.
         rbind (transferLockAccounts env c originalMint nttProgramId (obOutboxItem ps)
                  (obFlowRecipient ps) (obFlowAmount ps)) (\<lambda>transferLock.
         rbind (releaseList env ps nttProgramId) (\<lambda>releaseAccts.
           Inr (builder\<lparr>mcRemaining := transferLock @ releaseAccts\<rparr>)))))"

record SwapParams =
  swFlowPda :: pubkey
  swBaseMint :: pubkey
  swAssetMint :: pubkey
  swFeeVault :: pubkey
  swNttInboxItem :: pubkey
  swSwapProgram :: pubkey
  swSwapDelegate :: pubkey
  swSwapIxData :: bytes
  swSwapAccounts :: "AccountMeta list"

definition swap :: "web3_env \<Rightarrow> RelayerClient \<Rightarrow> SwapParams \<Rightarrow> method_call result" where
  "swap env c ps =
     rbind (relayerAta env c (swBaseMint ps)) (\<lambda>baseAta.
     rbind (relayerAta env c (swAssetMint ps)) (\<lambda>assetAta.
       Inr \<lparr>mcMethod = ''swap'', mcArgs = [ArgBytes (swSwapIxData ps)],
            mcAccounts = [(''pairConfig'', Some (rcConfigPda c)), (''relayerAuthority'', Some (rcAuthorityPda c)),
              (''baseMint'', Some (swBaseMint ps)), (''assetMint'', Some (swAssetMint ps)),
              (''baseAta'', Some baseAta), (''assetAta'', Some assetAta),
              (''feeVault'', Some (swFeeVault ps)), (''nttInboxItem'', Some (swNttInboxItem ps)),
              (''flow'', Some (swFlowPda ps)), (''swapProgram'', Some (swSwapProgram ps)),
              (''swapDelegate'', Some (swSwapDelegate ps)), (''tokenProgram'', Some (TOKEN_PROGRAM_ID env))],
            mcRemaining = swSwapAccounts ps\<rparr>))"

definition userInboxBindings ::
  "web3_env \<Rightarrow> RelayerClient \<Rightarrow> pubkey \<Rightarrow> int \<Rightarrow> pubkey \<Rightarrow> (pubkey \<times> pubkey) result" where
  "userInboxBindings env c userWallet minSwapOut mint =
     rbind (key_of (findUserInboxWithMinPda env userWallet minSwapOut (rcProgramId c))) (\<lambda>userInboxAuthority.
     rbind (ata env mint userInboxAuthority True (TOKEN_PROGRAM_ID env)) (\<lambda>userInboxAta.
       Inr (userInboxAuthority, userInboxAta)))"

record ReceiveParams =
  rpPayer :: pubkey
  rpDirection :: direction
  rpUserWallet :: pubkey
  rpRecvMint :: pubkey
  rpMinSwapOut :: int
  rpNttInboxItem :: pubkey
  rpNttTransceiverMessage :: pubkey
  rpTransceiverAddress :: "pubkey option"
  rpRedeemAccountsLen :: "nat option"
  rpNttBaseProgram :: "pubkey option"
  rpNttAssetProgram :: "pubkey option"

definition receive :: "web3_env \<Rightarrow> RelayerClient \<Rightarrow> ReceiveParams \<Rightarrow> method_call result" where
  "receive env c ps =
     (let isDeposit = (rpDirection ps = Deposit);
          baseManager = ifNone (rpNttBaseProgram ps) NTT_USDC_PROGRAM_ID;
          assetManager = ifNone (rpNttAssetProgram ps) NTT_ONYC_PROGRAM_ID;
          nttProgramId = (if isDeposit then baseManager else assetManager)
      in rbind (key_of (if isDeposit then findInflightFlowPda env (rcConfigPda c) (rpNttInboxItem ps) (rcProgramId c)
                        else findOutflightFlowPda env (rcConfigPda c) (rpNttInboxItem ps) (rcProgramId c))) (\<lambda>flow.
         rbind (userInboxBindings env c (rpUserWallet ps) (rpMinSwapOut ps) (rpRecvMint ps))
           (\<lambda>(userInboxAuthority, userInboxAta).
         rbind (case rpTransceiverAddress ps of
                  None \<Rightarrow> Inr ([], ifNone (rpRedeemAccountsLen ps) 0)
                | Some t \<Rightarrow> buildNttRedeemReleaseAccounts env
                    \<lparr>rrMint = rpRecvMint ps, rrNttInboxItem = rpNttInboxItem ps,
                     rrNttTransceiverMessage = rpNttTransceiverMessage ps, rrTransceiverAddress = t,
                     rrProgramId = nttProgramId, rrAuthority = rcAuthorityPda c,
                     rrRecipientAta = userInboxAta\<rparr>) (\<lambda>(remaining, redeemLen).
         rbind (relayerAta env c (rpRecvMint ps)) (\<lambda>recvAta.
           Inr \<lparr>mcMethod = ''receive'',
                mcArgs = [ArgDirection (rpDirection ps), ArgNum (int redeemLen), ArgNum (rpMinSwapOut ps)],
                mcAccounts = [(''payer'', Some (rpPayer ps)), (''pairConfig'', Some (rcConfigPda c)),
                  (''relayerAuthority'', Some (rcAuthorityPda c)), (''recvMint'', Some (rpRecvMint ps)),
                  (''recvAta'', Some recvAta), (''userWallet'', Some (rpUserWallet ps)),
                  (''userInboxAuthority'', Some userInboxAuthority), (''userInboxAta'', Some userInboxAta),
                  (''nttInboxItem'', Some (rpNttInboxItem ps)),
                  (''nttTransceiverMessage'', Some (rpNttTransceiverMessage ps)),
                  (''nttProgram'', Some nttProgramId), (''flow'', Some flow),
                  (''tokenProgram'', Some (TOKEN_PROGRAM_ID env)),
                  (''systemProgram'', Some (SYSTEM_PROGRAM_ID env))],
                mcRemaining = remaining\<rparr>)))))"

text \<open>The account \<open>fetchInflightFlow\<close> and \<open>fetchOutflightFlow\<close> decode.\<close>

definition flowAddress :: "web3_env \<Rightarrow> RelayerClient \<Rightarrow> direction \<Rightarrow> pubkey \<Rightarrow> pubkey result" where
  "flowAddress env c dir nttInboxItem =
     key_of ((if dir = Deposit then findInflightFlowPda else findOutflightFlowPda) env (rcConfigPda c) nttInboxItem (rcProgramId c))"

section \<open>Routing of the flow instructions\<close>

lemma transferLock_shape:
  assumes "buildNttTransferLockAccountList env ps = Inr ms"
  shows "length ms = 14" "ms ! 0 = \<lparr>amPubkey = tlFromOwner ps, amIsSigner = tlFromOwnerIsSigner ps, amIsWritable = True\<rparr>"
    "ms ! 2 = writable (tlMint ps)" "ms ! 3 = writable (tlFromTokenAccount ps)" "ms ! 13 = readonly (tlNttProgramId ps)"
    "\<exists>h b. nttTransferArgsHash env \<lparr>taAmount = tlAmount ps, taRecipientChain = tlRecipientChain ps,
        taRecipientAddress = tlRecipientAddress ps,
        taShouldQueue = (case tlShouldQueue ps of None \<Rightarrow> False | Some q \<Rightarrow> q)\<rparr> = Inr h \<and>
      findSessionAuthorityPda env (tlFromOwner ps) h (tlNttProgramId ps) = Inr (amPubkey (ms ! 11), b)"
proof -
  from assms obtain cfg peer obox ibox ta cust h sess b where
    ms: "ms = [\<lparr>amPubkey = tlFromOwner ps, amIsSigner = tlFromOwnerIsSigner ps, amIsWritable = True\<rparr>, readonly cfg,
        writable (tlMint ps), writable (tlFromTokenAccount ps), readonly (TOKEN_PROGRAM_ID env),
        \<lparr>amPubkey = tlOutboxItem ps, amIsSigner = True, amIsWritable = True\<rparr>, writable obox, writable cust,
        readonly (SYSTEM_PROGRAM_ID env), writable ibox, readonly peer, readonly sess, readonly ta,
        readonly (tlNttProgramId ps)]"
    and h: "nttTransferArgsHash env \<lparr>taAmount = tlAmount ps, taRecipientChain = tlRecipientChain ps,
        taRecipientAddress = tlRecipientAddress ps,
        taShouldQueue = (case tlShouldQueue ps of None \<Rightarrow> False | Some q \<Rightarrow> q)\<rparr> = Inr h"
      "findSessionAuthorityPda env (tlFromOwner ps) h (tlNttProgramId ps) = Inr (sess, b)"
    by (auto simp: buildNttTransferLockAccountList_def Let_def result_simps key_of_def account_counts)
  show "length ms = 14" "ms ! 0 = \<lparr>amPubkey = tlFromOwner ps, amIsSigner = tlFromOwnerIsSigner ps, amIsWritable = True\<rparr>"
    "ms ! 2 = writable (tlMint ps)" "ms ! 3 = writable (tlFromTokenAccount ps)" "ms ! 13 = readonly (tlNttProgramId ps)"
    by (simp_all add: ms)
  have "amPubkey (ms ! 11) = sess" by (simp add: ms readonly_def)
  with h show "\<exists>h b. nttTransferArgsHash env \<lparr>taAmount = tlAmount ps, taRecipientChain = tlRecipientChain ps,
        taRecipientAddress = tlRecipientAddress ps,
        taShouldQueue = (case tlShouldQueue ps of None \<Rightarrow> False | Some q \<Rightarrow> q)\<rparr> = Inr h \<and>
      findSessionAuthorityPda env (tlFromOwner ps) h (tlNttProgramId ps) = Inr (amPubkey (ms ! 11), b)"
    by blast
qed

lemma releaseList_length: "releaseList env ps prog = Inr ms \<Longrightarrow> length ms = 15"
  by (auto simp: releaseList_def buildNttReleaseWormholeOutboundAccountList_def Let_def result_simps account_counts)

text \<open>What an outbound call commits to: 14 \<open>transfer_lock\<close> accounts, then 15 release accounts; the lock spends
  \<open>mint\<close> through \<open>manager\<close> from the relayer's own token account, with the session authority of exactly the
  flow's amount and recipient; the named flow is the flow of the direction.\<close>

definition outbound_of :: "web3_env \<Rightarrow> RelayerClient \<Rightarrow> OutboundParams \<Rightarrow> pubkey \<Rightarrow> pubkey \<Rightarrow> method_call \<Rightarrow> bool" where
  "outbound_of env c ps mint manager call \<longleftrightarrow>
     length (mcRemaining call) = 29 \<and>
     amPubkey (mcRemaining call ! 0) = rcAuthorityPda c \<and> \<not> amIsSigner (mcRemaining call ! 0) \<and>
     mcRemaining call ! 2 = writable mint \<and> mcRemaining call ! 13 = readonly manager \<and>
     (\<exists>tok. relayerAta env c mint = Inr tok \<and> mcRemaining call ! 3 = writable tok) \<and>
     (\<exists>h b. nttTransferArgsHash env \<lparr>taAmount = obFlowAmount ps, taRecipientChain = FOGO_WORMHOLE_CHAIN_ID,
         taRecipientAddress = obFlowRecipient ps, taShouldQueue = False\<rparr> = Inr h \<and>
       findSessionAuthorityPda env (rcAuthorityPda c) h manager = Inr (amPubkey (mcRemaining call ! 11), b)) \<and>
     (\<exists>f. flowAddress env c (obDirection ps) (obNttInboxItem ps) = Inr f \<and>
       map_of (mcAccounts call) ''flow'' = Some (Some f)) \<and>
     map_of (mcAccounts call) ''rentDestination'' = Some (Some (obRentDestination ps))"

lemma outbound_ofI:
  assumes "outboundBase env c meth ps = Inr b"
    and lock: "transferLockAccounts env c mint manager (obOutboxItem ps) (obFlowRecipient ps) (obFlowAmount ps) = Inr l"
    and rel: "releaseList env ps manager = Inr rs"
  shows "outbound_of env c ps mint manager (b\<lparr>mcRemaining := l @ rs\<rparr>)"
proof -
  from lock obtain tok where tok: "relayerAta env c mint = Inr tok"
    and b: "buildNttTransferLockAccountList env
         \<lparr>tlNttProgramId = manager, tlFromOwner = rcAuthorityPda c, tlFromOwnerIsSigner = False,
          tlFromTokenAccount = tok, tlMint = mint, tlOutboxItem = obOutboxItem ps,
          tlRecipientChain = FOGO_WORMHOLE_CHAIN_ID, tlRecipientAddress = obFlowRecipient ps,
          tlAmount = obFlowAmount ps, tlShouldQueue = None\<rparr> = Inr l"
    by (auto simp: transferLockAccounts_def result_simps)
  note shape = transferLock_shape [OF b, simplified]
  have flow: "\<exists>f. flowAddress env c (obDirection ps) (obNttInboxItem ps) = Inr f \<and> map_of (mcAccounts b) ''flow'' = Some (Some f)"
    "map_of (mcAccounts b) ''rentDestination'' = Some (Some (obRentDestination ps))"
    using assms(1) by (auto simp: outboundBase_def flowPdas_def flowAddress_def result_simps)
  have nth: "(l @ rs) ! i = l ! i" if "i < 14" for i using that shape(1) by (simp add: nth_append)
  show ?thesis
    using shape(2-5) shape(6) releaseList_length [OF rel] flow tok
    by (simp add: outbound_of_def nth shape(1))
qed

lemma outboundBase_method: "outboundBase env c meth ps = Inr b \<Longrightarrow> mcMethod b = meth"
  by (auto simp: outboundBase_def result_simps)

lemma send_outbound:
  assumes "send env c ps = Inr s"
  shows "mcMethod s = ''send''"
    "obDirection ps = Deposit \<Longrightarrow> outbound_of env c ps (obAssetMint ps) (ifNone (obNttAssetProgram ps) NTT_ONYC_PROGRAM_ID) s"
    "obDirection ps = Withdraw \<Longrightarrow> outbound_of env c ps (obBaseMint ps) (ifNone (obNttBaseProgram ps) NTT_USDC_PROGRAM_ID) s"
  using assms
  by (auto simp: send_def sendBase_def Let_def result_simps dest: outboundBase_method intro!: outbound_ofI)

lemma refund_outbound:
  assumes "refund env c ps = Inr r"
  shows "mcMethod r = ''refund''"
    "obDirection ps = Deposit \<Longrightarrow> outbound_of env c ps (obBaseMint ps) (ifNone (obNttBaseProgram ps) NTT_USDC_PROGRAM_ID) r"
    "obDirection ps = Withdraw \<Longrightarrow> outbound_of env c ps (obAssetMint ps) (ifNone (obNttAssetProgram ps) NTT_ONYC_PROGRAM_ID) r"
  using assms
  by (auto simp: refund_def refundBase_def Let_def result_simps dest: outboundBase_method intro!: outbound_ofI)

text \<open>The two ways a flow ends route in opposite directions: for the same flow, \<open>send\<close> pushes the swapped token
  (deposit: the asset through the asset manager) and \<open>refund\<close> the originally received one (deposit: the
  base through the base manager); both name the same flow account and rent destination and commit, through
  the session authority, to the flow's own amount and recipient.\<close>

theorem send_refund_routes:
  assumes "send env c ps = Inr s" "refund env c ps = Inr r"
  shows "(let base = ifNone (obNttBaseProgram ps) NTT_USDC_PROGRAM_ID;
              asset = ifNone (obNttAssetProgram ps) NTT_ONYC_PROGRAM_ID
          in (if obDirection ps = Deposit
              then outbound_of env c ps (obAssetMint ps) asset s \<and> outbound_of env c ps (obBaseMint ps) base r
              else outbound_of env c ps (obBaseMint ps) base s \<and> outbound_of env c ps (obAssetMint ps) asset r)) \<and>
    mcMethod s = ''send'' \<and> mcMethod r = ''refund''"
  using send_outbound [OF assms(1)] refund_outbound [OF assms(2)]
  by (cases "obDirection ps") (simp_all add: Let_def)


lemmas client_pda_defs = flowPdas_def relayerAta_def findInflightFlowPda_def findOutflightFlowPda_def findFlowPda_def

lemma outbound_total:
  assumes "env_total env" "length (obFlowRecipient ps) = 32"
  shows "outboundBase env c meth ps \<noteq> Inl e" "releaseList env ps prog \<noteq> Inl e"
    "transferLockAccounts env c mint prog box (obFlowRecipient ps) amount \<noteq> Inl e"
proof -
  note t = pda_total [OF assms(1)] ata_total [OF assms(1)]
  show "outboundBase env c meth ps \<noteq> Inl e"
    using t by (auto simp: outboundBase_def client_pda_defs result_simps key_of_def Let_def)
  show "releaseList env ps prog \<noteq> Inl e"
    using t by (auto simp: releaseList_def buildNttReleaseWormholeOutboundAccountList_def Let_def result_simps
        account_counts pda_defs split: option.splits)
  show "transferLockAccounts env c mint prog box (obFlowRecipient ps) amount \<noteq> Inl e"
    using t assms(2) by (auto simp: transferLockAccounts_def relayerAta_def buildNttTransferLockAccountList_def Let_def
        result_simps account_counts pda_defs nttTransferArgsHash_def serializeTransferArgs_eq FOGO_WORMHOLE_CHAIN_ID_def)
qed

lemma send_refund_total:
  assumes "env_total env" "length (obFlowRecipient ps) = 32"
  shows "\<exists>s. send env c ps = Inr s" "\<exists>r. refund env c ps = Inr r"
proof -
  note t = outbound_total [OF assms]
  show "\<exists>s. send env c ps = Inr s"
    using t by (cases "send env c ps") (auto simp: send_def sendBase_def Let_def result_simps)
  show "\<exists>r. refund env c ps = Inr r"
    using t by (cases "refund env c ps") (auto simp: refund_def refundBase_def Let_def result_simps)
qed

definition model_client :: RelayerClient where
  "model_client = \<lparr>rcProgramId = replicate 32 1, rcWallet = None, rcBaseMint = replicate 32 2, rcAssetMint = replicate 32 3,
     rcConfigPda = replicate 32 4, rcGlobalConfigPda = replicate 32 5, rcAuthorityPda = replicate 32 6\<rparr>"

definition model_outbound :: "direction \<Rightarrow> OutboundParams" where
  "model_outbound dir =
     \<lparr>obPayer = replicate 32 7, obDirection = dir, obBaseMint = replicate 32 2, obAssetMint = replicate 32 3,
      obNttInboxItem = replicate 32 8, obRentDestination = replicate 32 9, obFlowAmount = 1000,
      obFlowRecipient = replicate 32 10, obOutboxItem = replicate 32 11, obNttBaseProgram = Some (replicate 32 12),
      obNttAssetProgram = Some (replicate 32 13),
      obRelease = \<lparr>raWormholeProgram = [], raWormholeBridge = [], raWormholeFeeCollector = [], raWormholeSequence = [],
        raOutboxItemSigner = [], raWormholeMessage = None, raEmitter = None\<rparr>\<rparr>"

theorem send_refund_routes_witness:
  "\<exists>s r. send model_env model_client (model_outbound Deposit) = Inr s \<and>
     refund model_env model_client (model_outbound Deposit) = Inr r \<and>
     mcRemaining s ! 2 = writable (replicate 32 3) \<and> mcRemaining r ! 2 = writable (replicate 32 2)"
proof -
  have "length (obFlowRecipient (model_outbound Deposit)) = 32" by (simp add: model_outbound_def)
  from send_refund_total [OF model_env_total this] obtain s r where
    sr: "send model_env model_client (model_outbound Deposit) = Inr s" "refund model_env model_client (model_outbound Deposit) = Inr r"
    by blast
  from send_refund_routes [OF this] have "mcRemaining s ! 2 = writable (replicate 32 3)" "mcRemaining r ! 2 = writable (replicate 32 2)"
    by (simp_all add: outbound_of_def Let_def model_outbound_def)
  with sr show ?thesis by blast
qed

lemma receive_shape:
  assumes "receive env c ps = Inr call" "rpTransceiverAddress ps = Some t"
  shows "\<exists>inbox tok b. findUserInboxWithMinPda env (rpUserWallet ps) (rpMinSwapOut ps) (rcProgramId c) = Inr (inbox, b) \<and>
    ata env (rpRecvMint ps) inbox True (TOKEN_PROGRAM_ID env) = Inr tok \<and>
    map_of (mcAccounts call) ''userInboxAuthority'' = Some (Some inbox) \<and>
    map_of (mcAccounts call) ''userInboxAta'' = Some (Some tok) \<and>
    map_of (mcAccounts call) ''userWallet'' = Some (Some (rpUserWallet ps)) \<and>
    length (mcRemaining call) = 20 \<and> mcRemaining call ! 14 = writable tok \<and>
    mcRemaining call ! 10 = readonly (if rpDirection ps = Deposit then ifNone (rpNttBaseProgram ps) NTT_USDC_PROGRAM_ID
                                      else ifNone (rpNttAssetProgram ps) NTT_ONYC_PROGRAM_ID) \<and>
    mcArgs call = [ArgDirection (rpDirection ps), ArgNum 11, ArgNum (rpMinSwapOut ps)]"
proof -
  let ?prog = "if rpDirection ps = Deposit then ifNone (rpNttBaseProgram ps) NTT_USDC_PROGRAM_ID
               else ifNone (rpNttAssetProgram ps) NTT_ONYC_PROGRAM_ID"
  have shape: "len = 11 \<and> length ms = 20 \<and> ms ! 14 = writable (rrRecipientAta q) \<and> ms ! 10 = readonly (rrProgramId q)"
    if "buildNttRedeemReleaseAccounts env q = Inr (ms, len)" for q ms len
    using that by (auto simp: buildNttRedeemReleaseAccounts_def Let_def result_simps account_counts)
  from assms obtain inbox tok b ms len where
    i: "findUserInboxWithMinPda env (rpUserWallet ps) (rpMinSwapOut ps) (rcProgramId c) = Inr (inbox, b)"
    and t: "ata env (rpRecvMint ps) inbox True (TOKEN_PROGRAM_ID env) = Inr tok"
    and bld: "buildNttRedeemReleaseAccounts env
        \<lparr>rrMint = rpRecvMint ps, rrNttInboxItem = rpNttInboxItem ps,
         rrNttTransceiverMessage = rpNttTransceiverMessage ps, rrTransceiverAddress = t,
         rrProgramId = ?prog, rrAuthority = rcAuthorityPda c, rrRecipientAta = tok\<rparr> = Inr (ms, len)"
    and call: "map_of (mcAccounts call) ''userInboxAuthority'' = Some (Some inbox)"
      "map_of (mcAccounts call) ''userInboxAta'' = Some (Some tok)"
      "map_of (mcAccounts call) ''userWallet'' = Some (Some (rpUserWallet ps))"
      "mcRemaining call = ms" "mcArgs call = [ArgDirection (rpDirection ps), ArgNum (int len), ArgNum (rpMinSwapOut ps)]"
    by (auto simp: receive_def userInboxBindings_def Let_def key_of_def result_simps)
  from shape [OF bld] have "len = 11" "length ms = 20" "ms ! 14 = writable tok" "ms ! 10 = readonly ?prog" by simp_all
  with i t call show ?thesis by (intro exI [of _ inbox] exI [of _ tok] exI [of _ b]) simp
qed


text \<open>The call built by \<open>receive\<close> binds the inbox to the wallet and the floor it is given: the inbox authority is
  derived from exactly this wallet and floor, the tokens released by NTT (account 14 of the remaining ones)
  land in that inbox's token account and not in relayer custody, and the floor is an instruction argument.\<close>

theorem receive_binds_floor:
  assumes "receive env c ps = Inr call" "rpTransceiverAddress ps = Some t"
  shows "\<exists>inbox tok b. findUserInboxWithMinPda env (rpUserWallet ps) (rpMinSwapOut ps) (rcProgramId c) = Inr (inbox, b) \<and>
    ata env (rpRecvMint ps) inbox True (TOKEN_PROGRAM_ID env) = Inr tok \<and>
    map_of (mcAccounts call) ''userInboxAuthority'' = Some (Some inbox) \<and>
    map_of (mcAccounts call) ''userInboxAta'' = Some (Some tok) \<and>
    map_of (mcAccounts call) ''userWallet'' = Some (Some (rpUserWallet ps)) \<and>
    length (mcRemaining call) = 20 \<and> mcRemaining call ! 14 = writable tok \<and>
    mcRemaining call ! 10 = readonly (if rpDirection ps = Deposit then ifNone (rpNttBaseProgram ps) NTT_USDC_PROGRAM_ID
                                      else ifNone (rpNttAssetProgram ps) NTT_ONYC_PROGRAM_ID) \<and>
    mcArgs call = [ArgDirection (rpDirection ps), ArgNum 11, ArgNum (rpMinSwapOut ps)]"
  using receive_shape [OF assms] .

lemma receive_total:
  assumes "env_total env" "rpTransceiverAddress ps = Some t"
  shows "\<exists>call. receive env c ps = Inr call"
proof -
  note tot = pda_total [OF assms(1)] ata_total [OF assms(1)]
  have b: "buildNttRedeemReleaseAccounts env q \<noteq> Inl e" for q e
    using tot by (auto simp: buildNttRedeemReleaseAccounts_def Let_def result_simps account_counts pda_defs FOGO_WORMHOLE_CHAIN_ID_def)
  show ?thesis
    using tot b assms(2)
    by (cases "receive env c ps")
       (auto simp: receive_def userInboxBindings_def findUserInboxWithMinPda_def client_pda_defs key_of_def Let_def result_simps
         split: if_splits)
qed

definition model_receive :: ReceiveParams where
  "model_receive =
     \<lparr>rpPayer = replicate 32 7, rpDirection = Deposit, rpUserWallet = replicate 32 14, rpRecvMint = replicate 32 2,
      rpMinSwapOut = 5, rpNttInboxItem = replicate 32 8, rpNttTransceiverMessage = replicate 32 15,
      rpTransceiverAddress = Some (replicate 32 12), rpRedeemAccountsLen = None,
      rpNttBaseProgram = Some (replicate 32 12), rpNttAssetProgram = Some (replicate 32 13)\<rparr>"

theorem receive_binds_floor_witness:
  "\<exists>call. receive model_env model_client model_receive = Inr call \<and>
     mcArgs call = [ArgDirection Deposit, ArgNum 11, ArgNum 5] \<and> mcRemaining call ! 10 = readonly (replicate 32 12)"
proof -
  have t: "rpTransceiverAddress model_receive = Some (replicate 32 12)" by (simp add: model_receive_def)
  from receive_total [OF model_env_total t] obtain call where call: "receive model_env model_client model_receive = Inr call" by blast
  from receive_binds_floor [OF call t] call show ?thesis by (auto simp: model_receive_def)
qed

end
