(* ===== verification/Onre.thy ===== *)
theory Onre
  imports Ntt
begin

text \<open>
  The OnRe swap builder (\<open>packages/sdk/src/builders/onre.ts\<close>): the program addresses of an OnRe deployment and
  the 22-entry account list of \<open>take_offer_permissionless\<close>.
\<close>

definition findOnreStatePda :: "web3_env \<Rightarrow> pubkey \<Rightarrow> (pubkey \<times> nat) result" where
  "findOnreStatePda env programId = fpa env [utf8 ''state''] programId"

definition findOnreOfferPda :: "web3_env \<Rightarrow> pubkey \<Rightarrow> pubkey \<Rightarrow> pubkey \<Rightarrow> (pubkey \<times> nat) result" where
  "findOnreOfferPda env tokenInMint tokenOutMint programId =
     fpa env [utf8 ''offer'', tokenInMint, tokenOutMint] programId"

definition findOnreVaultAuthorityPda :: "web3_env \<Rightarrow> pubkey \<Rightarrow> (pubkey \<times> nat) result" where
  "findOnreVaultAuthorityPda env programId = fpa env [utf8 ''offer_vault_authority''] programId"

definition findOnrePermissionlessAuthorityPda :: "web3_env \<Rightarrow> pubkey \<Rightarrow> (pubkey \<times> nat) result" where
  "findOnrePermissionlessAuthorityPda env programId = fpa env [utf8 ''permissionless-1''] programId"

definition findOnreMintAuthorityPda :: "web3_env \<Rightarrow> pubkey \<Rightarrow> (pubkey \<times> nat) result" where
  "findOnreMintAuthorityPda env programId = fpa env [utf8 ''mint_authority''] programId"

definition ONRE_BOSS_PUBKEY :: pubkey where
  "ONRE_BOSS_PUBKEY = pk58 ''45YnzauhsBM8CpUz96Djf8UG5vqq2Dua62wuW9H3jaJ5''"

record OnreDeployment =
  odProgramId :: pubkey
  odState :: pubkey
  odBoss :: pubkey
  odVaultAuthority :: pubkey
  odPermissionlessAuthority :: pubkey
  odMintAuthority :: pubkey

definition makeOnreDeployment :: "web3_env \<Rightarrow> pubkey \<Rightarrow> pubkey \<Rightarrow> OnreDeployment result" where
  "makeOnreDeployment env programId boss =
     rbind (key_of (findOnreStatePda env programId)) (\<lambda>st.
     rbind (key_of (findOnreVaultAuthorityPda env programId)) (\<lambda>va.
     rbind (key_of (findOnrePermissionlessAuthorityPda env programId)) (\<lambda>perm.
     rbind (key_of (findOnreMintAuthorityPda env programId)) (\<lambda>mint.
       Inr \<lparr>odProgramId = programId, odState = st, odBoss = boss, odVaultAuthority = va,
            odPermissionlessAuthority = perm, odMintAuthority = mint\<rparr>))))"

definition ONRE_MAINNET_DEPLOYMENT :: "web3_env \<Rightarrow> OnreDeployment result" where
  "ONRE_MAINNET_DEPLOYMENT env = makeOnreDeployment env ONRE_PROGRAM_ID ONRE_BOSS_PUBKEY"

record OnreSwapContext =
  ocDeployment :: "OnreDeployment option"
  ocTokenInProgram :: "pubkey option"
  ocTokenOutProgram :: "pubkey option"
  ocBossTokenInAccount :: "pubkey option"

definition resolveContext ::
  "web3_env \<Rightarrow> OnreSwapContext option \<Rightarrow> (OnreDeployment \<times> pubkey \<times> pubkey) result" where
  "resolveContext env ctx =
     rbind (case Option.bind ctx ocDeployment of Some d \<Rightarrow> Inr d | None \<Rightarrow> ONRE_MAINNET_DEPLOYMENT env) (\<lambda>d.
       Inr (d,
         (case Option.bind ctx ocTokenInProgram of Some p \<Rightarrow> p | None \<Rightarrow> TOKEN_PROGRAM_ID env),
         (case Option.bind ctx ocTokenOutProgram of Some p \<Rightarrow> p | None \<Rightarrow> TOKEN_PROGRAM_ID env)))"

definition ONRE_TAKE_OFFER_ACCOUNT_COUNT :: nat where
  "ONRE_TAKE_OFFER_ACCOUNT_COUNT = 22"

record OnreSwapParams =
  osTokenInMint :: pubkey
  osTokenOutMint :: pubkey
  osUserTokenInAccount :: pubkey
  osUserTokenOutAccount :: pubkey
  osUser :: pubkey
  osCtx :: "OnreSwapContext option"

definition buildOnreSwapRemainingAccounts :: "web3_env \<Rightarrow> OnreSwapParams \<Rightarrow> AccountMeta list result" where
  "buildOnreSwapRemainingAccounts env ps =
     rbind (resolveContext env (osCtx ps)) (\<lambda>(d, tokenInProgram, tokenOutProgram).
     rbind (key_of (findOnreOfferPda env (osTokenInMint ps) (osTokenOutMint ps) (odProgramId d))) (\<lambda>offerPda.
     rbind (ata env (osTokenInMint ps) (odVaultAuthority d) True tokenInProgram) (\<lambda>vaultTokenIn.
     rbind (ata env (osTokenOutMint ps) (odVaultAuthority d) True tokenOutProgram) (\<lambda>vaultTokenOut.
     rbind (ata env (osTokenInMint ps) (odPermissionlessAuthority d) True tokenInProgram) (\<lambda>permTokenIn.
     rbind (ata env (osTokenOutMint ps) (odPermissionlessAuthority d) True tokenOutProgram) (\<lambda>permTokenOut.
     rbind (case Option.bind (osCtx ps) ocBossTokenInAccount of Some a \<Rightarrow> Inr a
            | None \<Rightarrow> ata env (osTokenInMint ps) (odBoss d) True tokenInProgram) (\<lambda>bossTokenIn.
       assertAccountCount
         [writable offerPda,
          readonly (odState d),
          readonly (odBoss d),
          readonly (odVaultAuthority d),
          writable vaultTokenIn,
          writable vaultTokenOut,
          readonly (odPermissionlessAuthority d),
          writable permTokenIn,
          writable permTokenOut,
          writable (osTokenInMint ps),
          readonly tokenInProgram,
          writable (osTokenOutMint ps),
          readonly tokenOutProgram,
          writable (osUserTokenInAccount ps),
          writable (osUserTokenOutAccount ps),
          writable bossTokenIn,
          readonly (odMintAuthority d),
          readonly (SYSVAR_INSTRUCTIONS_PUBKEY env),
          writable (osUser ps),
          readonly (ASSOCIATED_TOKEN_PROGRAM_ID env),
          readonly (SYSTEM_PROGRAM_ID env),
          readonly (odProgramId d)]
         ONRE_TAKE_OFFER_ACCOUNT_COUNT)))))))"

section \<open>The account list\<close>

lemma key_of_Ex: "env_total env \<Longrightarrow> \<exists>k. key_of (fpa env s p) = Inr k"
  by (metis env_total_def key_of_def old.prod.case rbind_Inr)

lemma key_of_choice:
  assumes "env_total env"
  obtains f where "\<And>s p. key_of (fpa env s p) = Inr (f s p)"
proof (rule that [of "\<lambda>s p. projr (key_of (fpa env s p))"])
  fix s p
  show "key_of (fpa env s p) = Inr (projr (key_of (fpa env s p)))"
    using key_of_Ex [OF assms, of s p] by auto
qed

lemma ata_Ex: "env_total env \<Longrightarrow> \<exists>k. ata env m w a t = Inr k"
  by (simp add: env_total_def)

lemma makeOnreDeployment_total: "env_total env \<Longrightarrow> \<exists>d. makeOnreDeployment env p b = Inr d \<and> odProgramId d = p \<and> odBoss d = b"
proof -
  assume "env_total env"
  then obtain f where "\<And>s p. key_of (fpa env s p) = Inr (f s p)" using key_of_choice by blast
  then show ?thesis
    by (simp add: makeOnreDeployment_def findOnreStatePda_def findOnreVaultAuthorityPda_def
        findOnrePermissionlessAuthorityPda_def findOnreMintAuthorityPda_def)
qed

text \<open>No account of the list is a signer: the relayer authority signs inside the program, not at transaction
  level. The two mints, the relayer's two token accounts and the relayer authority are writable at the
  positions OnRe expects.\<close>

lemma buildOnreSwap_accounts:
  assumes "buildOnreSwapRemainingAccounts env ps = Inr metas"
  shows "length metas = 22" "\<forall>m \<in> set metas. \<not> amIsSigner m"
    "metas ! 9 = writable (osTokenInMint ps)" "metas ! 11 = writable (osTokenOutMint ps)"
    "metas ! 13 = writable (osUserTokenInAccount ps)" "metas ! 14 = writable (osUserTokenOutAccount ps)"
    "metas ! 18 = writable (osUser ps)"
  using assms
  by (auto simp: buildOnreSwapRemainingAccounts_def assertAccountCount_def result_simps
      ONRE_TAKE_OFFER_ACCOUNT_COUNT_def writable_def readonly_def split: prod.splits)

lemma buildOnreSwap_total:
  assumes "env_total env"
  shows "\<exists>metas. buildOnreSwapRemainingAccounts env ps = Inr metas"
proof -
  have "\<exists>c. resolveContext env (osCtx ps) = Inr c"
    using makeOnreDeployment_total [OF assms]
    by (auto simp: resolveContext_def ONRE_MAINNET_DEPLOYMENT_def result_simps split: option.splits)
  then obtain d ti tout where c: "resolveContext env (osCtx ps) = Inr (d, ti, tout)" by auto
  have "\<exists>b. (case Option.bind (osCtx ps) ocBossTokenInAccount of Some a \<Rightarrow> Inr a
            | None \<Rightarrow> ata env (osTokenInMint ps) (odBoss d) True ti) = Inr b"
    using ata_Ex [OF assms] by (cases "Option.bind (osCtx ps) ocBossTokenInAccount") auto
  then obtain b where b: "(case Option.bind (osCtx ps) ocBossTokenInAccount of Some a \<Rightarrow> Inr a
            | None \<Rightarrow> ata env (osTokenInMint ps) (odBoss d) True ti) = Inr b" ..
  obtain o1 where o1: "key_of (fpa env [utf8 ''offer'', osTokenInMint ps, osTokenOutMint ps] (odProgramId d)) = Inr o1"
    using key_of_Ex [OF assms] by blast
  obtain f where f: "\<And>m w t. ata env m w True t = Inr (f m w t)"
    using ata_Ex [OF assms] that [of "\<lambda>m w t. projr (ata env m w True t)"] by (metis sum.sel(2))
  show ?thesis
    by (simp add: buildOnreSwapRemainingAccounts_def c b o1 f findOnreOfferPda_def assertAccountCount_def
        ONRE_TAKE_OFFER_ACCOUNT_COUNT_def)
qed

end
