(* ===== verification/Js_Map.thy ===== *)
theory Js_Map
  imports Prelude
begin

text \<open>
  JavaScript's insertion-ordered \<open>Map\<close> and the \<open>BoundedMap\<close> of
  \<open>packages/cranker/src/utils/bounded-map.ts\<close>, with the contracts the cranker's state relies on.

  A \<open>Map\<close> is an association list in insertion order: \<open>set\<close> on a present key overwrites in place, on an
  absent key it appends (\<open>AList.update\<close>); \<open>delete\<close> removes (\<open>AList.delete\<close>). Two locales state what a
  client may rely on: \<open>evicting_store\<close>, in which a write may drop other keys, and its extension
  \<open>kv_store\<close>, in which it may not. The first is interpreted on \<open>BoundedMap\<close>, the second on \<open>Map\<close>.
\<close>

section \<open>Two store contracts\<close>

locale evicting_store =
  fixes get :: "'s \<Rightarrow> 'k \<Rightarrow> 'v option"
    and put_key :: "'k \<Rightarrow> 'v \<Rightarrow> 's \<Rightarrow> 's"
    and drop_key :: "'k \<Rightarrow> 's \<Rightarrow> 's"
    and inv :: "'s \<Rightarrow> bool"
  assumes get_put_same: "inv s \<Longrightarrow> get (put_key k v s) k = Some v"
    and get_put_other: "inv s \<Longrightarrow> k' \<noteq> k \<Longrightarrow> get (put_key k v s) k' \<in> {get s k', None}"
    and get_drop: "inv s \<Longrightarrow> get (drop_key k s) k' = (if k' = k then None else get s k')"
    and inv_put: "inv s \<Longrightarrow> inv (put_key k v s)"
    and inv_drop: "inv s \<Longrightarrow> inv (drop_key k s)"
begin

lemma get_put_cases:
  assumes "inv s" and "get (put_key k v s) k' = Some w"
  shows "(k' = k \<and> w = v) \<or> (k' \<noteq> k \<and> get s k' = Some w)"
proof (cases "k' = k")
  case True
  with get_put_same [OF assms(1), of k v] assms(2) show ?thesis by simp
next
  case False
  with get_put_other [OF assms(1) False, of v] assms(2) show ?thesis by auto
qed

lemma inv_drops: "inv s \<Longrightarrow> inv (fold drop_key ks s)"
  by (induction ks arbitrary: s) (auto simp: inv_drop)

lemma get_drops:
  "inv s \<Longrightarrow> get (fold drop_key ks s) k = (if k \<in> set ks then None else get s k)"
  by (induction ks arbitrary: s) (auto simp: inv_drop get_drop)

text \<open>A property of all stored values survives a write of a value that has it, and every removal.\<close>

lemma values_put:
  assumes "inv s" and "\<And>k w. get s k = Some w \<Longrightarrow> P k w" and "P k v"
    and "get (put_key k v s) k' = Some w"
  shows "P k' w"
  using get_put_cases [OF assms(1,4)] assms(2,3) by auto

lemma values_drops:
  assumes "inv s" and "\<And>k w. get s k = Some w \<Longrightarrow> P k w" and "get (fold drop_key ks s) k' = Some w"
  shows "P k' w"
  using assms by (auto simp: get_drops split: if_splits)

end

locale kv_store = evicting_store +
  assumes get_put_keeps: "inv s \<Longrightarrow> k' \<noteq> k \<Longrightarrow> get (put_key k v s) k' = get s k'"
begin

lemma get_put: "inv s \<Longrightarrow> get (put_key k v s) k' = (if k' = k then Some v else get s k')"
  by (simp add: get_put_same get_put_keeps)

lemma inv_puts: "inv s \<Longrightarrow> inv (fold (\<lambda>(k, v). put_key k v) kvs s)"
  by (induction kvs arbitrary: s) (auto simp: inv_put)

lemma get_puts:
  "inv s \<Longrightarrow> get (fold (\<lambda>(k, v). put_key k v) kvs s) k =
     (case map_of (rev kvs) k of Some v \<Rightarrow> Some v | None \<Rightarrow> get s k)"
  by (induction kvs arbitrary: s) (auto simp: inv_put get_put map_add_def split: option.splits)

end

section \<open>\<open>Map\<close>\<close>

type_synonym ('k, 'v) jsmap = "('k \<times> 'v) list"

definition jm_get :: "('k, 'v) jsmap \<Rightarrow> 'k \<Rightarrow> 'v option" where
  "jm_get m k = map_of m k"

definition jm_has :: "('k, 'v) jsmap \<Rightarrow> 'k \<Rightarrow> bool" where
  "jm_has m k \<longleftrightarrow> k \<in> fst ` set m"

definition jm_set :: "'k \<Rightarrow> 'v \<Rightarrow> ('k, 'v) jsmap \<Rightarrow> ('k, 'v) jsmap" where
  "jm_set = AList.update"

definition jm_delete :: "'k \<Rightarrow> ('k, 'v) jsmap \<Rightarrow> ('k, 'v) jsmap" where
  "jm_delete = AList.delete"

definition jm_ok :: "('k, 'v) jsmap \<Rightarrow> bool" where
  "jm_ok m \<longleftrightarrow> distinct (map fst m)"

lemma jm_ok_Nil [simp]: "jm_ok []"
  by (simp add: jm_ok_def)

lemma jm_get_Nil [simp]: "jm_get [] k = None"
  by (simp add: jm_get_def)

lemma jm_has_iff: "jm_has m k \<longleftrightarrow> jm_get m k \<noteq> None"
  by (simp add: jm_has_def jm_get_def map_of_eq_None_iff)

lemma update_absent: "k \<notin> fst ` set m \<Longrightarrow> AList.update k v m = m @ [(k, v)]"
  by (induction m) auto

lemma length_jm_set: "length (jm_set k v m) = (if jm_has m k then length m else Suc (length m))"
  by (induction m) (auto simp: jm_set_def jm_has_def)

interpretation jm: kv_store jm_get jm_set jm_delete jm_ok
  by unfold_locales
     (auto simp: jm_get_def jm_set_def jm_delete_def jm_ok_def update_conv' delete_conv'
        intro: distinct_update distinct_delete)

section \<open>\<open>BoundedMap\<close>\<close>

record ('k, 'v) BoundedMap =
  bmMax :: int
  bmEntries :: "('k, 'v) jsmap"

definition newBoundedMap :: "int \<Rightarrow> ('k, 'v) BoundedMap result" where
  "newBoundedMap mx =
     (if mx \<le> 0 then Inl (Error ''BoundedMap max must be > 0'')
      else Inr \<lparr>bmMax = mx, bmEntries = []\<rparr>)"

definition bm_get :: "('k, 'v) BoundedMap \<Rightarrow> 'k \<Rightarrow> 'v option" where
  "bm_get b k = jm_get (bmEntries b) k"

definition bm_delete :: "'k \<Rightarrow> ('k, 'v) BoundedMap \<Rightarrow> ('k, 'v) BoundedMap" where
  "bm_delete k b = b\<lparr>bmEntries := jm_delete k (bmEntries b)\<rparr>"

definition bm_size :: "('k, 'v) BoundedMap \<Rightarrow> nat" where
  "bm_size b = length (bmEntries b)"

definition bm_set :: "'k \<Rightarrow> 'v \<Rightarrow> ('k, 'v) BoundedMap \<Rightarrow> ('k, 'v) BoundedMap" where
  "bm_set k v b =
     (let b' = (if \<not> jm_has (bmEntries b) k \<and> int (bm_size b) \<ge> bmMax b then
                  (case bmEntries b of
                     [] \<Rightarrow> b
                   | (oldest, _) # _ \<Rightarrow> bm_delete oldest b)
                else b)
      in b'\<lparr>bmEntries := jm_set k v (bmEntries b')\<rparr>)"

definition bm_ok :: "('k, 'v) BoundedMap \<Rightarrow> bool" where
  "bm_ok b \<longleftrightarrow> jm_ok (bmEntries b) \<and> 0 < bmMax b \<and> int (bm_size b) \<le> bmMax b"

lemma bmMax_set [simp]: "bmMax (bm_set k v b) = bmMax b"
  by (simp add: bm_set_def bm_delete_def Let_def split: list.split)

lemma bmMax_delete [simp]: "bmMax (bm_delete k b) = bmMax b"
  by (simp add: bm_delete_def)

lemma delete_hd: "jm_ok ((k, v) # m) \<Longrightarrow> jm_delete k ((k, v) # m) = m"
  by (simp add: jm_ok_def jm_delete_def delete_id)

lemma bm_get_set:
  assumes "bm_ok b"
  shows "bm_get (bm_set k v b) k' =
    (if k' = k then Some v
     else if \<not> jm_has (bmEntries b) k \<and> int (bm_size b) = bmMax b \<and> k' = fst (hd (bmEntries b)) then None
     else bm_get b k')"
proof (cases "\<not> jm_has (bmEntries b) k \<and> int (bm_size b) = bmMax b")
  case True
  then obtain old w rest where e: "bmEntries b = (old, w) # rest"
    using assms by (cases "bmEntries b") (auto simp: bm_ok_def bm_size_def)
  from True assms have "bm_set k v b = b\<lparr>bmEntries := jm_set k v (jm_delete old (bmEntries b))\<rparr>"
    by (simp add: bm_set_def bm_delete_def e Let_def)
  with True assms show ?thesis
    by (auto simp: bm_get_def bm_ok_def jm.get_put jm.get_drop jm.inv_drop e)
next
  case False
  with assms have "bm_set k v b = b\<lparr>bmEntries := jm_set k v (bmEntries b)\<rparr>"
    by (auto simp: bm_set_def bm_ok_def Let_def)
  with False assms show ?thesis
    by (auto simp: bm_get_def bm_ok_def jm.get_put)
qed

lemma bm_ok_set:
  assumes "bm_ok b"
  shows "bm_ok (bm_set k v b)"
proof (cases "\<not> jm_has (bmEntries b) k \<and> int (bm_size b) = bmMax b")
  case True
  then obtain old w rest where e: "bmEntries b = (old, w) # rest"
    using assms by (cases "bmEntries b") (auto simp: bm_ok_def bm_size_def)
  with assms have "jm_delete old (bmEntries b) = rest"
    by (simp add: bm_ok_def delete_hd)
  with True assms e have "bm_set k v b = b\<lparr>bmEntries := jm_set k v rest\<rparr>"
    by (simp add: bm_set_def bm_delete_def Let_def)
  moreover have "jm_ok rest" "\<not> jm_has rest k"
    using assms True e by (auto simp: bm_ok_def jm_ok_def jm_has_def)
  ultimately show ?thesis
    using assms e by (simp add: bm_ok_def bm_size_def length_jm_set jm.inv_put)
next
  case False
  with assms have "bm_set k v b = b\<lparr>bmEntries := jm_set k v (bmEntries b)\<rparr>"
    by (auto simp: bm_set_def bm_ok_def Let_def)
  with False assms show ?thesis
    by (auto simp: bm_ok_def bm_size_def length_jm_set jm.inv_put)
qed

lemma length_jm_delete: "length (jm_delete k m) \<le> length m"
  by (simp add: jm_delete_def AList.length_delete_le)

interpretation bm: evicting_store bm_get bm_set bm_delete bm_ok
proof
  fix b :: "('a, 'b) BoundedMap" and k k' :: 'a and v :: 'b
  assume b: "bm_ok b"
  show "bm_get (bm_set k v b) k = Some v" by (simp add: bm_get_set b)
  show "bm_get (bm_set k v b) k' \<in> {bm_get b k', None}" if "k' \<noteq> k"
    using that by (simp add: bm_get_set b)
  show "bm_get (bm_delete k b) k' = (if k' = k then None else bm_get b k')"
    using b by (simp add: bm_get_def bm_delete_def bm_ok_def jm.get_drop)
  show "bm_ok (bm_set k v b)" by (rule bm_ok_set [OF b])
  show "bm_ok (bm_delete k b)"
    using b length_jm_delete [of k "bmEntries b"]
    by (simp add: bm_ok_def bm_delete_def bm_size_def jm.inv_drop)
qed

lemma newBoundedMap_ok: "newBoundedMap mx = Inr b \<Longrightarrow> bm_ok b \<and> bmMax b = mx \<and> bmEntries b = []"
  by (auto simp: newBoundedMap_def bm_ok_def bm_size_def split: if_splits)

text \<open>
  A write to a map whose keys, the written one included, fit the bound evicts nothing.
\<close>

definition bm_keys :: "('k, 'v) BoundedMap \<Rightarrow> 'k set" where
  "bm_keys b = fst ` set (bmEntries b)"

lemma bm_size_card: "bm_ok b \<Longrightarrow> bm_size b = card (bm_keys b)"
  by (simp add: bm_ok_def jm_ok_def bm_size_def bm_keys_def)
     (metis distinct_card length_map set_map)

lemma bm_set_fits:
  assumes "bm_ok b" and "int (card (insert k (bm_keys b))) \<le> bmMax b"
  shows "bm_get (bm_set k v b) k' = (if k' = k then Some v else bm_get b k')"
    and "bm_keys (bm_set k v b) = insert k (bm_keys b)"
proof -
  have fin: "finite (bm_keys b)" by (simp add: bm_keys_def)
  have nofull: "\<not> (\<not> jm_has (bmEntries b) k \<and> int (bm_size b) \<ge> bmMax b)"
    using assms fin by (auto simp: bm_size_card jm_has_def bm_keys_def)
  then show "bm_get (bm_set k v b) k' = (if k' = k then Some v else bm_get b k')"
    using assms(1) by (auto simp: bm_get_set)
  from nofull have "bm_set k v b = b\<lparr>bmEntries := jm_set k v (bmEntries b)\<rparr>"
    unfolding bm_set_def Let_def by (simp only: if_False)
  then show "bm_keys (bm_set k v b) = insert k (bm_keys b)"
    by (simp add: bm_keys_def jm_set_def dom_update)
qed

lemma bm_keys_delete: "bm_keys (bm_delete k b) = bm_keys b - {k}"
  by (auto simp: bm_keys_def bm_delete_def jm_delete_def AList.delete_eq image_iff)

end
