(* ===== verification/Js_Text.thy ===== *)
theory Js_Text
  imports Prelude
begin

text \<open>
  The string functions of JavaScript that the packages use: \<open>BigInt(text)\<close> with its whole grammar
  (surrounding white space, sign, hexadecimal, octal and binary literals, the empty text),
  \<open>bigint.toString()\<close>, \<open>includes\<close>, \<open>encodeURIComponent\<close> and the trailing-slash pattern \<open>/\\/+$/\<close>.
\<close>

section \<open>\<open>bigint.toString()\<close>\<close>

definition bigint_toString :: "int \<Rightarrow> string" where
  "bigint_toString v = (if v < 0 then CHR ''-'' # dec_of_nat (nat (- v)) else dec_of_nat (nat v))"

section \<open>\<open>BigInt(text)\<close>\<close>

text \<open>The white space and line terminators of ECMAScript, as UTF-8 sequences.\<close>

definition whitespace :: "string list" where
  "whitespace = map (map char_of)
     ([[9], [10], [11], [12], [13], [32], [194, 160], [225, 154, 128]] @
      map (\<lambda>b. [226, 128, b]) [128, 129, 130, 131, 132, 133, 134, 135, 136, 137, 138, 168, 169, 175] @
      [[226, 129, 159], [227, 128, 128], [239, 187, 191 :: nat]])"

definition is_prefix :: "string \<Rightarrow> string \<Rightarrow> bool" where
  "is_prefix w s \<longleftrightarrow> take (length w) s = w"

text \<open>\<open>text.includes(needle)\<close>\<close>

fun text_includes :: "string \<Rightarrow> string \<Rightarrow> bool" where
  "text_includes [] needle \<longleftrightarrow> needle = []"
| "text_includes (c # s) needle \<longleftrightarrow> is_prefix needle (c # s) \<or> text_includes s needle"

function strip :: "string list \<Rightarrow> string \<Rightarrow> string" where
  "strip ws s =
     (case find (\<lambda>w. w \<noteq> [] \<and> is_prefix w s) ws of
        None \<Rightarrow> s
      | Some w \<Rightarrow> strip ws (drop (length w) s))"
  by pat_completeness auto
termination
proof (relation "measure (\<lambda>(_, s). length s)")
  fix ws s w
  assume "find (\<lambda>w. w \<noteq> [] \<and> is_prefix w s) ws = Some w"
  then have "w \<noteq> []" "take (length w) s = w"
    by (auto simp: find_Some_iff is_prefix_def)
  then have "s \<noteq> []" by auto
  with \<open>w \<noteq> []\<close> show "((ws, drop (length w) s), ws, s) \<in> measure (\<lambda>(_, s). length s)"
    by simp
qed simp

declare strip.simps [simp del]

definition trim :: "string \<Rightarrow> string" where
  "trim s = rev (strip (map rev whitespace) (rev (strip whitespace s)))"

definition radix_digit :: "nat \<Rightarrow> char \<Rightarrow> nat option" where
  "radix_digit r c =
     (let n = of_char c :: nat;
          v = (if 48 \<le> n \<and> n \<le> 57 then n - 48
               else if 97 \<le> n \<and> n \<le> 122 then n - 87
               else if 65 \<le> n \<and> n \<le> 90 then n - 55
               else r)
      in if v < r then Some v else None)"

fun radix_digits :: "nat \<Rightarrow> string \<Rightarrow> nat \<Rightarrow> nat option" where
  "radix_digits r [] acc = Some acc"
| "radix_digits r (c # cs) acc =
     (case radix_digit r c of None \<Rightarrow> None | Some d \<Rightarrow> radix_digits r cs (r * acc + d))"

definition radix_nat :: "nat \<Rightarrow> string \<Rightarrow> nat option" where
  "radix_nat r s = (if s = [] then None else radix_digits r s 0)"

definition BigInt_text :: "string \<Rightarrow> int option" where
  "BigInt_text s =
     (let t = trim s in
      if t = [] then Some 0
      else if is_prefix ''0x'' t \<or> is_prefix ''0X'' t then map_option int (radix_nat 16 (drop 2 t))
      else if is_prefix ''0o'' t \<or> is_prefix ''0O'' t then map_option int (radix_nat 8 (drop 2 t))
      else if is_prefix ''0b'' t \<or> is_prefix ''0B'' t then map_option int (radix_nat 2 (drop 2 t))
      else if is_prefix ''-'' t then map_option (\<lambda>n. - int n) (radix_nat 10 (drop 1 t))
      else if is_prefix ''+'' t then map_option int (radix_nat 10 (drop 1 t))
      else map_option int (radix_nat 10 t))"

definition BigInt :: "string \<Rightarrow> int result" where
  "BigInt s = (case BigInt_text s of
     None \<Rightarrow> Inl (SyntaxError ''Cannot convert to a BigInt'') | Some v \<Rightarrow> Inr v)"

definition BigInt_number :: "js_number \<Rightarrow> int result" where
  "BigInt_number x = (case x of
     JInt i \<Rightarrow> Inr i
   | JFrac \<Rightarrow> Inl (RangeError ''The number cannot be converted to a BigInt because it is not an integer''))"

subsection \<open>Printing and reading back\<close>

text \<open>A visible ASCII character: neither white space nor part of a multi-byte white-space sequence.\<close>

definition visible :: "char \<Rightarrow> bool" where
  "visible c \<longleftrightarrow> 32 < (of_char c :: nat) \<and> (of_char c :: nat) < 128"

lemma strip_visible:
  assumes "\<And>w. w \<in> set ws \<Longrightarrow> w \<noteq> [] \<Longrightarrow> \<not> visible (hd w)" and "visible (hd s)" "s \<noteq> []"
  shows "strip ws s = s"
proof -
  have "\<not> (w \<noteq> [] \<and> is_prefix w s)" if "w \<in> set ws" for w
  proof
    assume "w \<noteq> [] \<and> is_prefix w s"
    then have "w \<noteq> []" "hd w = hd s" by (auto simp: is_prefix_def) (metis hd_take length_greater_0_conv)
    with assms(1) [OF that] assms(2) show False by simp
  qed
  then have "find (\<lambda>w. w \<noteq> [] \<and> is_prefix w s) ws = None" by (auto simp: find_None_iff)
  then show ?thesis by (subst strip.simps) simp
qed

lemma visible_char_of: "n < 256 \<Longrightarrow> visible (char_of n) \<longleftrightarrow> 32 < n \<and> n < (128 :: nat)"
  by (simp add: visible_def)

lemma trim_visible:
  assumes "s \<noteq> []" "visible (hd s)" "visible (last s)"
  shows "trim s = s"
proof -
  have ws: "\<not> visible (hd w)" "\<not> visible (hd (rev w))" if "w \<in> set whitespace" for w
    using that by (auto simp: whitespace_def visible_char_of)
  have "strip whitespace s = s" using ws assms by (intro strip_visible) auto
  moreover have "strip (map rev whitespace) (rev s) = rev s"
    using ws assms by (intro strip_visible) (auto simp: hd_rev)
  ultimately show ?thesis by (simp add: trim_def)
qed

lemma visible_digit: "is_digit c \<Longrightarrow> visible c"
  by (auto simp: is_digit_def visible_def)

lemma radix_digit_10: "is_digit c \<Longrightarrow> radix_digit 10 c = Some (digit_val c)"
  by (auto simp: is_digit_def radix_digit_def digit_val_def Let_def)

lemma radix_digits_10:
  "list_all is_digit s \<Longrightarrow> radix_digits 10 s a = Some (foldl (\<lambda>a c. 10 * a + digit_val c) a s)"
  by (induction s arbitrary: a) (auto simp: radix_digit_10)

lemma radix_nat_dec: "radix_nat 10 (dec_of_nat n) = Some n"
proof -
  have "radix_digits 10 (dec_of_nat n) 0 = Some (nat_of_dec (dec_of_nat n))"
    unfolding nat_of_dec_def by (rule radix_digits_10) (rule dec_of_nat_digits)
  then show ?thesis by (simp add: radix_nat_def)
qed

lemma not_prefix_digits:
  assumes "list_all is_digit s" "\<not> list_all is_digit w"
  shows "\<not> is_prefix w s"
  using assms by (auto simp: is_prefix_def list_all_iff) (metis in_set_takeD)

lemma BigInt_toString [simp]: "BigInt (bigint_toString v) = Inr v"
proof (cases "v < 0")
  case True
  let ?d = "dec_of_nat (nat (- v))"
  have d: "list_all is_digit ?d" "?d \<noteq> []" by (simp_all add: dec_of_nat_digits)
  then have "visible (last (CHR ''-'' # ?d))"
    by (simp add: list_all_iff visible_digit)
  then have "trim (CHR ''-'' # ?d) = CHR ''-'' # ?d"
    by (intro trim_visible) (simp_all add: visible_def)
  with True show ?thesis
    by (simp add: bigint_toString_def BigInt_def BigInt_text_def is_prefix_def radix_nat_dec)
next
  case False
  let ?d = "dec_of_nat (nat v)"
  have d: "list_all is_digit ?d" "?d \<noteq> []" by (simp_all add: dec_of_nat_digits)
  then have "trim ?d = ?d"
    by (intro trim_visible) (simp_all add: list_all_iff visible_digit)
  moreover have "\<not> is_prefix w ?d" if "\<not> list_all is_digit w" for w
    using not_prefix_digits [OF d(1) that] .
  ultimately show ?thesis using False d
    by (simp add: bigint_toString_def BigInt_def BigInt_text_def radix_nat_dec is_digit_def)
qed

section \<open>URLs\<close>

text \<open>\<open>s.replace(/\\/+$/, '')\<close>\<close>

definition stripTrailingSlashes :: "string \<Rightarrow> string" where
  "stripTrailingSlashes s = rev (dropWhile (\<lambda>c. c = CHR ''/'') (rev s))"

definition hex_upper :: "nat \<Rightarrow> char" where
  "hex_upper d = (if d < 10 then char_of (48 + d) else char_of (55 + d))"

definition uri_unreserved :: "char \<Rightarrow> bool" where
  "uri_unreserved c \<longleftrightarrow>
     (let n = of_char c :: nat in
        (48 \<le> n \<and> n \<le> 57) \<or> (65 \<le> n \<and> n \<le> 90) \<or> (97 \<le> n \<and> n \<le> 122)) \<or>
     c \<in> set ''-_.!~*()'' \<or> c = CHR 0x27"

definition encodeURIComponent :: "string \<Rightarrow> string" where
  "encodeURIComponent s = concat (map (\<lambda>c.
     if uri_unreserved c then [c]
     else [CHR ''%'', hex_upper (of_char c div 16), hex_upper (of_char c mod 16)]) s)"

end
