(* ===== verification/Wormholescan.thy ===== *)
theory Wormholescan
  imports Js_Text Constants
begin

text \<open>
  The Wormholescan REST client of \<open>packages/sdk/src/bridge/wormholescan.ts\<close>. The HTTP transport
  (\<open>fetchImpl\<close>) and Node's base64 decoder are parameters: the first maps a URL to a response or a
  failure, the second a text to its bytes. A response body is its decoded JSON, in the shape the code
  reads, or the failure of \<open>res.json()\<close>.
\<close>

record WormholescanVaa =
  wvVaa :: bytes
  wvSequence :: int
  wvTxHash :: "string option"

record 'j http_response =
  rsStatus :: nat
  rsOk :: bool
  rsJson :: "'j result"

type_synonym 'j fetch = "string \<Rightarrow> 'j http_response result"

definition DEFAULT_BASE_URL :: string where
  "DEFAULT_BASE_URL = ''https://api.wormholescan.io''"

record WormholescanClient =
  baseUrl :: string

definition newWormholescanClient :: "string option \<Rightarrow> WormholescanClient" where
  "newWormholescanClient url =
     \<lparr>baseUrl = stripTrailingSlashes (case url of None \<Rightarrow> DEFAULT_BASE_URL | Some u \<Rightarrow> u)\<rparr>"

definition getJson :: "'j fetch \<Rightarrow> string \<Rightarrow> 'j result" where
  "getJson fetchImpl url =
     rbind (fetchImpl url) (\<lambda>res.
       if \<not> rsOk res then Inl (Error ''Wormholescan'') else rsJson res)"

text \<open>A JavaScript text is falsy when it is absent or empty.\<close>

definition truthy :: "string option \<Rightarrow> bool" where
  "truthy s \<longleftrightarrow> (case s of None \<Rightarrow> False | Some t \<Rightarrow> t \<noteq> [])"

text \<open>\<open>operations?: Array<{ vaa?: { raw?: string } }>\<close>\<close>

definition resolveVaaByTxHash ::
  "(string \<Rightarrow> bytes) \<Rightarrow> (string option option list option) fetch \<Rightarrow> WormholescanClient \<Rightarrow> string \<Rightarrow>
   bytes option result" where
  "resolveVaaByTxHash decodeBase64 fetchImpl c txHash =
     rbind (getJson fetchImpl (baseUrl c @ ''/api/v1/operations?txHash='' @ encodeURIComponent txHash)) (\<lambda>json.
       let raw = (case json of
                    None \<Rightarrow> None
                  | Some ops \<Rightarrow> (case find (\<lambda>op. truthy (Option.bind op id)) ops of
                      None \<Rightarrow> None | Some op \<Rightarrow> Option.bind op id))
       in if \<not> truthy raw then Inr None else Inr (map_option decodeBase64 raw))"

text \<open>\<open>data?: { vaa?: string }\<close>\<close>

definition findVaaByEmitterSequence ::
  "(string \<Rightarrow> bytes) \<Rightarrow> (string option option) fetch \<Rightarrow> WormholescanClient \<Rightarrow> nat \<Rightarrow> string \<Rightarrow> int \<Rightarrow>
   bytes option result" where
  "findVaaByEmitterSequence decodeBase64 fetchImpl c chain emitterHex sequence =
     rbind (fetchImpl (baseUrl c @ ''/api/v1/vaas/'' @ dec_of_nat chain @ ''/'' @ emitterHex @ ''/'' @
                       bigint_toString sequence)) (\<lambda>res.
       if rsStatus res = 404 then Inr None
       else if \<not> rsOk res then Inl (Error ''Wormholescan'')
       else rbind (rsJson res) (\<lambda>json.
         if \<not> truthy (Option.bind json id) then Inr None
         else Inr (map_option decodeBase64 (Option.bind json id))))"

datatype sequence_field = SeqText string | SeqNumber js_number

record list_item =
  liVaa :: "string option"
  liSequence :: "sequence_field option"
  liTxHash :: "string option"

definition sequence_BigInt :: "sequence_field \<Rightarrow> int result" where
  "sequence_BigInt f = (case f of SeqText s \<Rightarrow> BigInt s | SeqNumber n \<Rightarrow> BigInt_number n)"

fun collectVaas :: "(string \<Rightarrow> bytes) \<Rightarrow> list_item list \<Rightarrow> WormholescanVaa list result" where
  "collectVaas decodeBase64 [] = Inr []"
| "collectVaas decodeBase64 (item # items) =
     (case (liVaa item, liSequence item) of
        (Some (c # cs), Some f) \<Rightarrow>
          rbind (sequence_BigInt f) (\<lambda>seq.
          rbind (collectVaas decodeBase64 items) (\<lambda>rest.
            Inr (\<lparr>wvVaa = decodeBase64 (c # cs), wvSequence = seq, wvTxHash = liTxHash item\<rparr> # rest)))
      | _ \<Rightarrow> collectVaas decodeBase64 items)"

definition listVaasByEmitter ::
  "(string \<Rightarrow> bytes) \<Rightarrow> (list_item list option) fetch \<Rightarrow> WormholescanClient \<Rightarrow> nat \<Rightarrow> string \<Rightarrow>
   nat option \<Rightarrow> nat option \<Rightarrow> WormholescanVaa list result" where
  "listVaasByEmitter decodeBase64 fetchImpl c chain emitterHex pageSizeOpt pageOpt =
     (let pageSize = (case pageSizeOpt of None \<Rightarrow> 50 | Some n \<Rightarrow> n);
          page = (case pageOpt of None \<Rightarrow> 0 | Some n \<Rightarrow> n)
      in rbind (getJson fetchImpl (baseUrl c @ ''/api/v1/vaas/'' @ dec_of_nat chain @ ''/'' @ emitterHex @
                 ''?pageSize='' @ dec_of_nat pageSize @ ''&page='' @ dec_of_nat page)) (\<lambda>json.
           case json of None \<Rightarrow> Inr [] | Some items \<Rightarrow> collectVaas decodeBase64 items))"

section \<open>Lemmas\<close>

lemma stripTrailingSlashes_last:
  "stripTrailingSlashes s = [] \<or> last (stripTrailingSlashes s) \<noteq> CHR ''/''"
proof (cases "dropWhile (\<lambda>c. c = CHR ''/'') (rev s)")
  case Nil
  then show ?thesis by (simp add: stripTrailingSlashes_def)
next
  case (Cons c cs)
  then have "c \<noteq> CHR ''/''" by (auto simp: dropWhile_eq_Cons_conv)
  with Cons show ?thesis by (simp add: stripTrailingSlashes_def last_rev)
qed

lemma collectVaas_complete:
  "collectVaas dec items = Inr out \<Longrightarrow> length out =
     length (filter (\<lambda>i. truthy (liVaa i) \<and> liSequence i \<noteq> None) items)"
proof (induction items arbitrary: out)
  case (Cons i items)
  then show ?case
    by (cases "liVaa i"; cases "liSequence i")
       (auto simp: truthy_def result_simps split: list.splits)
qed simp

end
