(* ===== verification/Jupiter.thy ===== *)
theory Jupiter
  imports Ntt Js_Map Wormholescan
begin

text \<open>
  The Jupiter route builder (\<open>packages/sdk/src/builders/jupiter.ts\<close>). The two HTTP calls and Node's base64
  decoder are parameters. The quote is an ordered JSON object of text fields; the code reads \<open>outAmount\<close>,
  overwrites \<open>otherAmountThreshold\<close> and sends the object back.
\<close>

definition JUPITER_V6_PROGRAM_ID :: pubkey where
  "JUPITER_V6_PROGRAM_ID = pk58 ''JUP6LkbZbjS1jKKwapdHNy74zcZ3tLUZoi5QNyVTaV4''"

definition SHARED_ACCOUNTS_ROUTE_DISCRIMINATOR :: bytes where
  "SHARED_ACCOUNTS_ROUTE_DISCRIMINATOR = [193, 32, 155, 51, 65, 214, 156, 129]"

type_synonym quote = "(string, string) jsmap"

record JupiterRouteParams =
  jpInputMint :: pubkey
  jpOutputMint :: pubkey
  jpAmount :: int
  jpSlippageBps :: int
  jpUserPublicKey :: pubkey
  jpOtherAmountThreshold :: "int option"
  jpOnlyDirectRoutes :: "bool option"

record jup_account =
  jaPubkey :: string
  jaIsSigner :: bool
  jaIsWritable :: bool

record jup_swap_instruction =
  jiProgramId :: string
  jiAccounts :: "jup_account list"
  jiData :: string

record jup_swap_response =
  jrSwapInstruction :: "jup_swap_instruction option"
  jrAddressLookupTableAddresses :: "string list option"

record jup_swap_request =
  jqQuoteResponse :: quote
  jqUserPublicKey :: string
  jqUseSharedAccounts :: bool
  jqWrapAndUnwrapSol :: bool

record jupiter_api =
  jupBase :: string
  jupQuote :: "quote fetch"
  jupSwapIx :: "string \<Rightarrow> jup_swap_request \<Rightarrow> jup_swap_response http_response result"
  jupBase64 :: "string \<Rightarrow> bytes"

record JupiterRouteResult =
  jtIxData :: bytes
  jtRouteAccounts :: "AccountMeta list"
  jtQuotedOutAmount :: int
  jtAddressLookupTables :: "pubkey list"
  jtProgramId :: pubkey
  jtSwapDelegate :: pubkey

fun traverse :: "('a \<Rightarrow> 'b result) \<Rightarrow> 'a list \<Rightarrow> 'b list result" where
  "traverse f [] = Inr []"
| "traverse f (x # xs) = rbind (f x) (\<lambda>y. rbind (traverse f xs) (\<lambda>ys. Inr (y # ys)))"

definition bool_toString :: "bool \<Rightarrow> string" where
  "bool_toString b = (if b then ''true'' else ''false'')"

text \<open>The query has only characters that \<open>URLSearchParams\<close> leaves as they are.\<close>

definition jup_quote_url :: "web3_env \<Rightarrow> jupiter_api \<Rightarrow> JupiterRouteParams \<Rightarrow> string" where
  "jup_quote_url env api p =
     jupBase api @ ''/swap/v1/quote?inputMint='' @ toBase58 env (jpInputMint p) @
     ''&outputMint='' @ toBase58 env (jpOutputMint p) @ ''&amount='' @ bigint_toString (jpAmount p) @
     ''&slippageBps='' @ bigint_toString (jpSlippageBps p) @ ''&platformFeeBps=0&onlyDirectRoutes='' @
     bool_toString (case jpOnlyDirectRoutes p of None \<Rightarrow> False | Some b \<Rightarrow> b)"

definition routeAccount :: "web3_env \<Rightarrow> pubkey \<Rightarrow> jup_account \<Rightarrow> AccountMeta result" where
  "routeAccount env user a =
     rbind (fromBase58 env (jaPubkey a)) (\<lambda>pubkey.
       Inr \<lparr>amPubkey = pubkey, amIsSigner = (jaIsSigner a \<and> pubkey \<noteq> user), amIsWritable = jaIsWritable a\<rparr>)"

definition pinThreshold :: "int option \<Rightarrow> quote \<Rightarrow> quote" where
  "pinThreshold threshold q =
     (case threshold of None \<Rightarrow> q | Some t \<Rightarrow> jm_set ''otherAmountThreshold'' (bigint_toString t) q)"

definition acceptRoute ::
  "web3_env \<Rightarrow> jupiter_api \<Rightarrow> pubkey \<Rightarrow> quote \<Rightarrow> string list \<Rightarrow> jup_swap_instruction \<Rightarrow> JupiterRouteResult result" where
  "acceptRoute env api user quote altNames ix =
     (if jiProgramId ix \<noteq> toBase58 env JUPITER_V6_PROGRAM_ID
      then Inl (Error ''Jupiter returned an unexpected program id'')
      else let ixData = jupBase64 api (jiData ix) in
      if length ixData < length SHARED_ACCOUNTS_ROUTE_DISCRIMINATOR
      then Inl (Error ''Jupiter swapInstruction data too short'')
      else if take (length SHARED_ACCOUNTS_ROUTE_DISCRIMINATOR) ixData \<noteq> SHARED_ACCOUNTS_ROUTE_DISCRIMINATOR
      then Inl (Error ''Jupiter returned a non-shared_accounts_route variant despite useSharedAccounts: true'')
      else rbind (traverse (routeAccount env user) (jiAccounts ix)) (\<lambda>routeAccounts.
      if length routeAccounts < 2 then Inl (Error ''jupiter route returned too few accounts'')
      else rbind (case jm_get quote ''outAmount'' of
                    None \<Rightarrow> Inl (TypeError ''Cannot convert undefined to a BigInt'')
                  | Some s \<Rightarrow> BigInt s) (\<lambda>quotedOutAmount.
      rbind (traverse (fromBase58 env) altNames) (\<lambda>alts.
        Inr \<lparr>jtIxData = ixData, jtRouteAccounts = routeAccounts, jtQuotedOutAmount = quotedOutAmount,
             jtAddressLookupTables = alts, jtProgramId = JUPITER_V6_PROGRAM_ID,
             jtSwapDelegate = amPubkey (routeAccounts ! 1)\<rparr>))))"

definition fetchJupiterRoute :: "web3_env \<Rightarrow> jupiter_api \<Rightarrow> JupiterRouteParams \<Rightarrow> JupiterRouteResult result" where
  "fetchJupiterRoute env api p =
     rbind (jupQuote api (jup_quote_url env api p)) (\<lambda>quoteResp.
     if \<not> rsOk quoteResp then Inl (Error ''Jupiter /quote returned'') else
     rbind (rsJson quoteResp) (\<lambda>quote0.
     let quote = pinThreshold (jpOtherAmountThreshold p) quote0 in
     rbind (jupSwapIx api (jupBase api @ ''/swap/v1/swap-instructions'')
       \<lparr>jqQuoteResponse = quote, jqUserPublicKey = toBase58 env (jpUserPublicKey p),
        jqUseSharedAccounts = True, jqWrapAndUnwrapSol = False\<rparr>) (\<lambda>swapResp.
     if \<not> rsOk swapResp then Inl (Error ''Jupiter /swap-instructions returned'') else
     rbind (rsJson swapResp) (\<lambda>swap.
     case jrSwapInstruction swap of
       None \<Rightarrow> Inl (Error ''Jupiter did not return a swapInstruction (shared_accounts_route)'')
     | Some ix \<Rightarrow> acceptRoute env api (jpUserPublicKey p) quote
         (case jrAddressLookupTableAddresses swap of None \<Rightarrow> [] | Some l \<Rightarrow> l) ix))))"

section \<open>What an accepted route guarantees\<close>

text \<open>The quote that goes back to Jupiter: the user's threshold where there is one, every other field as it was quoted.\<close>

definition pinned_quote :: "int option \<Rightarrow> quote \<Rightarrow> quote \<Rightarrow> bool" where
  "pinned_quote threshold q0 q \<longleftrightarrow>
     (\<forall>k. k \<noteq> ''otherAmountThreshold'' \<longrightarrow> jm_get q k = jm_get q0 k) \<and>
     jm_get q ''otherAmountThreshold'' =
       (case threshold of None \<Rightarrow> jm_get q0 ''otherAmountThreshold'' | Some t \<Rightarrow> Some (bigint_toString t))"

text \<open>An account of the route beside the account Jupiter named: same key, writable as there, and a signer as there unless it is the
  user key.\<close>

definition route_meta :: "web3_env \<Rightarrow> pubkey \<Rightarrow> jup_account \<Rightarrow> AccountMeta \<Rightarrow> bool" where
  "route_meta env user a m \<longleftrightarrow>
     fromBase58 env (jaPubkey a) = Inr (amPubkey m) \<and> amIsWritable m = jaIsWritable a \<and>
     (amIsSigner m \<longleftrightarrow> jaIsSigner a \<and> amPubkey m \<noteq> user)"

lemma traverse_all2: "traverse f xs = Inr ys \<Longrightarrow> list_all2 (\<lambda>x y. f x = Inr y) xs ys"
  by (induction xs arbitrary: ys) (auto simp: result_simps)

lemma routeAccount_meta: "routeAccount env user a = Inr m \<Longrightarrow> route_meta env user a m"
  by (auto simp: routeAccount_def route_meta_def result_simps)

lemma pinThreshold_pinned: "pinned_quote threshold q (pinThreshold threshold q)"
  by (cases threshold) (auto simp: pinned_quote_def pinThreshold_def jm_get_def jm_set_def update_conv)

lemma acceptRoute_InrE:
  assumes "acceptRoute env api user q alts ix = Inr r"
  obtains "jiProgramId ix = toBase58 env JUPITER_V6_PROGRAM_ID" "jtProgramId r = JUPITER_V6_PROGRAM_ID"
    and "jtIxData r = jupBase64 api (jiData ix)" "take 8 (jtIxData r) = SHARED_ACCOUNTS_ROUTE_DISCRIMINATOR"
    and "list_all2 (route_meta env user) (jiAccounts ix) (jtRouteAccounts r)" "2 \<le> length (jtRouteAccounts r)"
    and "jtSwapDelegate r = amPubkey (jtRouteAccounts r ! 1)"
    and "\<exists>s. jm_get q ''outAmount'' = Some s \<and> BigInt s = Inr (jtQuotedOutAmount r)"
    and "list_all2 (\<lambda>s k. fromBase58 env s = Inr k) alts (jtAddressLookupTables r)"
proof -
  have len: "length SHARED_ACCOUNTS_ROUTE_DISCRIMINATOR = 8" by (simp add: SHARED_ACCOUNTS_ROUTE_DISCRIMINATOR_def)
  from assms have *: "jiProgramId ix = toBase58 env JUPITER_V6_PROGRAM_ID \<and> jtProgramId r = JUPITER_V6_PROGRAM_ID \<and>
      jtIxData r = jupBase64 api (jiData ix) \<and> take 8 (jtIxData r) = SHARED_ACCOUNTS_ROUTE_DISCRIMINATOR \<and>
      traverse (routeAccount env user) (jiAccounts ix) = Inr (jtRouteAccounts r) \<and> 2 \<le> length (jtRouteAccounts r) \<and>
      jtSwapDelegate r = amPubkey (jtRouteAccounts r ! 1) \<and>
      (\<exists>s. jm_get q ''outAmount'' = Some s \<and> BigInt s = Inr (jtQuotedOutAmount r)) \<and>
      traverse (fromBase58 env) alts = Inr (jtAddressLookupTables r)"
    by (auto simp: acceptRoute_def Let_def len elim!: rbind_InrE split: if_splits option.splits)
  then have "list_all2 (route_meta env user) (jiAccounts ix) (jtRouteAccounts r)"
    by (auto elim!: list_all2_mono [OF traverse_all2] routeAccount_meta)
  moreover from * have "list_all2 (\<lambda>s k. fromBase58 env s = Inr k) alts (jtAddressLookupTables r)"
    by (auto intro: traverse_all2)
  ultimately show thesis using * by (intro that) blast+
qed

text \<open>C37. A route that \<open>fetchJupiterRoute\<close> returns is the one Jupiter gave for the quote of these parameters, asked for
  with the user's threshold in the quote and nothing else changed in it, with shared accounts and for the user key. What Jupiter answered
  names the Jupiter v6 program, and its decoded data starts with the \<open>shared_accounts_route\<close> discriminator; the route has the
  accounts Jupiter named, with the swap delegate at index 1, and the user key (the relayer authority, which cannot
  sign at transaction level) is no signer of it.\<close>

theorem fetchJupiterRoute_checked:
  assumes "fetchJupiterRoute env api p = Inr r"
  shows "\<exists>quoteResp quote0 quote swapResp swap ix.
    jupQuote api (jup_quote_url env api p) = Inr quoteResp \<and> rsOk quoteResp \<and> rsJson quoteResp = Inr quote0 \<and>
    pinned_quote (jpOtherAmountThreshold p) quote0 quote \<and>
    jupSwapIx api (jupBase api @ ''/swap/v1/swap-instructions'')
      \<lparr>jqQuoteResponse = quote, jqUserPublicKey = toBase58 env (jpUserPublicKey p), jqUseSharedAccounts = True,
       jqWrapAndUnwrapSol = False\<rparr> = Inr swapResp \<and>
    rsOk swapResp \<and> rsJson swapResp = Inr swap \<and> jrSwapInstruction swap = Some ix \<and>
    jiProgramId ix = toBase58 env JUPITER_V6_PROGRAM_ID \<and> jtProgramId r = JUPITER_V6_PROGRAM_ID \<and>
    jtIxData r = jupBase64 api (jiData ix) \<and> take 8 (jtIxData r) = SHARED_ACCOUNTS_ROUTE_DISCRIMINATOR \<and>
    list_all2 (route_meta env (jpUserPublicKey p)) (jiAccounts ix) (jtRouteAccounts r) \<and>
    2 \<le> length (jtRouteAccounts r) \<and> jtSwapDelegate r = amPubkey (jtRouteAccounts r ! 1) \<and>
    (\<forall>m. m \<in> set (jtRouteAccounts r) \<and> amPubkey m = jpUserPublicKey p \<longrightarrow> \<not> amIsSigner m) \<and>
    (\<exists>s. jm_get quote0 ''outAmount'' = Some s \<and> BigInt s = Inr (jtQuotedOutAmount r))"
proof -
  let ?quote = "pinThreshold (jpOtherAmountThreshold p)"
  from assms obtain quoteResp quote0 swapResp swap alts ix where
    q: "jupQuote api (jup_quote_url env api p) = Inr quoteResp" "rsOk quoteResp" "rsJson quoteResp = Inr quote0"
    and s: "jupSwapIx api (jupBase api @ ''/swap/v1/swap-instructions'')
      \<lparr>jqQuoteResponse = ?quote quote0, jqUserPublicKey = toBase58 env (jpUserPublicKey p), jqUseSharedAccounts = True,
       jqWrapAndUnwrapSol = False\<rparr> = Inr swapResp" "rsOk swapResp" "rsJson swapResp = Inr swap" "jrSwapInstruction swap = Some ix"
    and a: "acceptRoute env api (jpUserPublicKey p) (?quote quote0) alts ix = Inr r"
    by (auto simp: fetchJupiterRoute_def Let_def elim!: rbind_InrE split: if_splits option.splits)
  have pin: "pinned_quote (jpOtherAmountThreshold p) quote0 (?quote quote0)" by (rule pinThreshold_pinned)
  then have out: "jm_get (?quote quote0) ''outAmount'' = jm_get quote0 ''outAmount''" by (simp add: pinned_quote_def)
  from a show ?thesis
  proof (cases rule: acceptRoute_InrE)
    case 1
    have "\<not> amIsSigner m" if "m \<in> set (jtRouteAccounts r)" "amPubkey m = jpUserPublicKey p" for m
      using that 1(5) by (auto simp: route_meta_def in_set_conv_nth list_all2_conv_all_nth)
    with q s pin 1 show ?thesis unfolding out by blast
  qed
qed

text \<open>An API whose answers the builder accepts: one signer account that is the user, one writable account.\<close>

definition model_jupiter :: "web3_env \<Rightarrow> string \<Rightarrow> pubkey \<Rightarrow> jupiter_api" where
  "model_jupiter env out user =
     \<lparr>jupBase = ''https://jup'',
      jupQuote = (\<lambda>_. Inr \<lparr>rsStatus = 200, rsOk = True, rsJson = Inr [(''outAmount'', out)]\<rparr>),
      jupSwapIx = (\<lambda>_ _. Inr \<lparr>rsStatus = 200, rsOk = True, rsJson = Inr
        \<lparr>jrSwapInstruction = Some \<lparr>jiProgramId = toBase58 env JUPITER_V6_PROGRAM_ID,
           jiAccounts = [\<lparr>jaPubkey = toBase58 env user, jaIsSigner = True, jaIsWritable = False\<rparr>,
                         \<lparr>jaPubkey = ''auth'', jaIsSigner = False, jaIsWritable = True\<rparr>],
           jiData = ''data''\<rparr>,
         jrAddressLookupTableAddresses = None\<rparr>\<rparr>),
      jupBase64 = (\<lambda>_. SHARED_ACCOUNTS_ROUTE_DISCRIMINATOR)\<rparr>"

definition model_route_params :: JupiterRouteParams where
  "model_route_params =
     \<lparr>jpInputMint = replicate 32 1, jpOutputMint = replicate 32 2, jpAmount = 100, jpSlippageBps = 50,
      jpUserPublicKey = replicate 32 3, jpOtherAmountThreshold = Some 7, jpOnlyDirectRoutes = None\<rparr>"

lemma model_jupiter_accepts:
  "\<exists>r. fetchJupiterRoute model_env (model_jupiter model_env (bigint_toString 9) u) p = Inr r \<and> jtQuotedOutAmount r = 9 \<and>
     jtAddressLookupTables r = []"
proof -
  have f58: "fromBase58 model_env s = Inr (utf8 s)" for s by (simp add: model_env_def)
  have d: "length SHARED_ACCOUNTS_ROUTE_DISCRIMINATOR = 8"
    "take 8 SHARED_ACCOUNTS_ROUTE_DISCRIMINATOR = SHARED_ACCOUNTS_ROUTE_DISCRIMINATOR"
    by (simp_all add: SHARED_ACCOUNTS_ROUTE_DISCRIMINATOR_def)
  have "jm_get (pinThreshold th [(''outAmount'', q)]) ''outAmount'' = Some q" for th q
    by (cases th) (simp_all add: pinThreshold_def jm_get_def jm_set_def)
  then show ?thesis
    by (simp add: fetchJupiterRoute_def acceptRoute_def model_jupiter_def routeAccount_def f58 d)
qed

theorem fetchJupiterRoute_checked_witness:
  "\<exists>r. fetchJupiterRoute model_env (model_jupiter model_env (bigint_toString 9) (replicate 32 3)) model_route_params = Inr r \<and>
     jtQuotedOutAmount r = 9 \<and> jtProgramId r = JUPITER_V6_PROGRAM_ID"
proof -
  obtain r where r: "fetchJupiterRoute model_env (model_jupiter model_env (bigint_toString 9) (replicate 32 3)) model_route_params = Inr r"
      "jtQuotedOutAmount r = 9"
    using model_jupiter_accepts by blast
  with fetchJupiterRoute_checked [OF r(1)] show ?thesis by blast
qed

end
