(* ===== verification/Log.thy ===== *)
theory Log
  imports Js_Map Js_Text
begin

text \<open>
  Errors as the cranker sees and reports them (\<open>packages/cranker/src/utils/log.ts\<close>): the shapes a caught
  value can have, the message chosen for each shape, the redaction that turns a message into an error class,
  and the per-class bookkeeping of the two scanners. The writers of log lines are in \<open>Telemetry\<close>.
\<close>

section \<open>Caught values\<close>

text \<open>
  \<open>Primitive s\<close> is a thrown non-object whose \<open>String(err)\<close> is \<open>s\<close>. An object carries the fields the code
  probes, each present only when it has the probed type: \<open>code\<close> (a number), \<open>msg\<close>, the Anchor
  \<open>error.errorCode.code\<close>, \<open>error.errorCode.number\<close> and \<open>error.errorMessage\<close>, and the fields of a
  \<open>SendTransactionError\<close>. \<open>eoText\<close> is \<open>String(err)\<close>; \<open>eoStack\<close> is kept only for errors that come from outside,
  the modelled code never looks at the stack of its own errors.
\<close>

record err_obj =
  eoIsError :: bool
  eoIsTypeError :: bool
  eoCtor :: string
  eoMessage :: string
  eoText :: string
  eoCode :: "int option"
  eoMsg :: "string option"
  eoAnchorCode :: "string option"
  eoAnchorNumber :: "int option"
  eoAnchorMessage :: "string option"
  eoTransactionMessage :: "string option"
  eoSignature :: "string option"
  eoLogs :: "string list"
  eoErrorLogs :: "string list"
  eoTransactionLogs :: "string list"
  eoStack :: string

datatype thrown = Primitive string | Object err_obj

text \<open>An error without extra fields, as \<open>new Error(message)\<close> and its subclasses make it.\<close>

definition plain_error :: "string \<Rightarrow> string \<Rightarrow> err_obj" where
  "plain_error ctor m =
     \<lparr>eoIsError = True, eoIsTypeError = (ctor = ''TypeError''), eoCtor = ctor, eoMessage = m, eoText = (if m = [] then ctor else ctor @ '': '' @ m),
      eoCode = None, eoMsg = None, eoAnchorCode = None, eoAnchorNumber = None, eoAnchorMessage = None,
      eoTransactionMessage = None, eoSignature = None, eoLogs = [], eoErrorLogs = [], eoTransactionLogs = [], eoStack = []\<rparr>"

fun of_js_error :: "js_error \<Rightarrow> thrown" where
  "of_js_error (Error m) = Object (plain_error ''Error'' m)"
| "of_js_error (RangeError m) = Object (plain_error ''RangeError'' m)"
| "of_js_error (TypeError m) = Object (plain_error ''TypeError'' m)"
| "of_js_error (SyntaxError m) = Object (plain_error ''SyntaxError'' m)"

text \<open>\<open>err instanceof Error ? err : new Error(String(err))\<close>\<close>

definition toError :: "thrown \<Rightarrow> thrown" where
  "toError err =
     (case err of
        Primitive s \<Rightarrow> Object (plain_error ''Error'' s)
      | Object e \<Rightarrow> if eoIsError e then err else Object (plain_error ''Error'' (eoText e)))"

definition truthyText :: "string option \<Rightarrow> bool" where
  "truthyText t \<longleftrightarrow> (case t of None \<Rightarrow> False | Some s \<Rightarrow> s \<noteq> [])"

definition errorMessage :: "thrown \<Rightarrow> string" where
  "errorMessage err =
     (case err of
        Primitive s \<Rightarrow> s
      | Object e \<Rightarrow>
          if \<not> eoIsError e then eoText e
          else case eoAnchorCode e of
            Some c \<Rightarrow>
              ''AnchorError '' @ c @
              (case eoAnchorNumber e of Some n \<Rightarrow> '' ('' @ bigint_toString n @ '')'' | None \<Rightarrow> []) @
              (if truthyText (eoAnchorMessage e) then '': '' @ the (eoAnchorMessage e) else [])
          | None \<Rightarrow>
              if eoCode e \<noteq> None \<and> eoMsg e \<noteq> None
              then ''ProgramError '' @ bigint_toString (the (eoCode e)) @ '': '' @ the (eoMsg e)
              else if truthyText (eoTransactionMessage e)
              then ''SendTransactionError: '' @ the (eoTransactionMessage e) @
                   (if truthyText (eoSignature e) then '' (sig='' @ the (eoSignature e) @ '')'' else [])
              else if eoMessage e = ''Unknown action '' @ [CHR 0x27] @ ''undefined'' @ [CHR 0x27]
              then ''SendTransactionError <action=undefined, no transactionMessage>''
              else if eoMessage e \<noteq> [] then eoMessage e
              else if eoCtor e = ''Error'' then ''<empty error>''
              else ''<'' @ eoCtor e @ '' with no message>'')"

section \<open>Error classes\<close>

text \<open>
  The two regular expressions have the form \<open>\b[cls]{lo,hi}\b\<close> with the \<open>g\<close> flag. \<open>\b\<close> holds between two
  positions of which exactly one is a word character; the quantifier is greedy and backs off one character
  at a time; after a match the search resumes behind it.
\<close>

definition is_word :: "char \<Rightarrow> bool" where
  "is_word c \<longleftrightarrow> (let n = of_char c :: nat in
     (48 \<le> n \<and> n \<le> 57) \<or> (65 \<le> n \<and> n \<le> 90) \<or> n = 95 \<or> (97 \<le> n \<and> n \<le> 122))"

definition base58_char :: "char \<Rightarrow> bool" where
  "base58_char c \<longleftrightarrow> (let n = of_char c :: nat in
     (49 \<le> n \<and> n \<le> 57) \<or> (65 \<le> n \<and> n \<le> 72) \<or> (74 \<le> n \<and> n \<le> 78) \<or> (80 \<le> n \<and> n \<le> 90) \<or>
     (97 \<le> n \<and> n \<le> 107) \<or> (109 \<le> n \<and> n \<le> 122))"

definition hex_char :: "char \<Rightarrow> bool" where
  "hex_char c \<longleftrightarrow> (let n = of_char c :: nat in
     (48 \<le> n \<and> n \<le> 57) \<or> (65 \<le> n \<and> n \<le> 70) \<or> (97 \<le> n \<and> n \<le> 102))"

definition word_at :: "char option \<Rightarrow> bool" where
  "word_at c \<longleftrightarrow> (case c of None \<Rightarrow> False | Some x \<Rightarrow> is_word x)"

definition head :: "string \<Rightarrow> char option" where
  "head s = (case s of [] \<Rightarrow> None | c # _ \<Rightarrow> Some c)"

fun back_off :: "char option \<Rightarrow> string \<Rightarrow> nat \<Rightarrow> nat \<Rightarrow> nat option" where
  "back_off prev s lo 0 = (if lo = 0 \<and> word_at prev \<noteq> word_at (head s) then Some 0 else None)"
| "back_off prev s lo (Suc n) =
     (if Suc n < lo then None
      else if is_word (s ! n) \<noteq> word_at (head (drop (Suc n) s)) then Some (Suc n)
      else back_off prev s lo n)"

definition regex_match :: "(char \<Rightarrow> bool) \<Rightarrow> nat \<Rightarrow> nat option \<Rightarrow> char option \<Rightarrow> string \<Rightarrow> nat option" where
  "regex_match cls lo hi prev s =
     (if word_at prev = word_at (head s) then None
      else let run = length (takeWhile cls s)
           in back_off prev s lo (case hi of None \<Rightarrow> run | Some h \<Rightarrow> min h run))"

function replaceAll ::
  "(char \<Rightarrow> bool) \<Rightarrow> nat \<Rightarrow> nat option \<Rightarrow> string \<Rightarrow> char option \<Rightarrow> string \<Rightarrow> string" where
  "replaceAll cls lo hi rep prev [] = []"
| "replaceAll cls lo hi rep prev (c # cs) =
     (case regex_match cls lo hi prev (c # cs) of
        Some (Suc n) \<Rightarrow> rep @ replaceAll cls lo hi rep (Some ((c # cs) ! n)) (drop n cs)
      | _ \<Rightarrow> c # replaceAll cls lo hi rep (Some c) cs)"
  by pat_completeness auto
termination by (relation "measure (\<lambda>(_, _, _, _, _, s). length s)") auto

definition errorClass :: "thrown \<Rightarrow> string" where
  "errorClass err =
     (let msg = errorMessage err
      in replaceAll hex_char 32 None ''<hex>'' None
           (replaceAll base58_char 32 (Some 88) ''<pubkey>'' None msg))"

section \<open>Bookkeeping per class\<close>

record ClassRollupAgg =
  raCount :: nat
  raSampleKey :: string
  raSampleMessage :: string

record class_memo =
  cmSeen :: "(string, string) jsmap option"
  cmIter :: "(string, ClassRollupAgg) jsmap"

definition recordErrorClass :: "thrown \<Rightarrow> string \<Rightarrow> class_memo \<Rightarrow> (string \<times> string option) \<times> class_memo" where
  "recordErrorClass err sampleKey m =
     (let klass = errorClass err;
          firstSeenOn = Option.bind (cmSeen m) (\<lambda>seen. jm_get seen klass);
          seen' = (if firstSeenOn = None then map_option (jm_set klass sampleKey) (cmSeen m) else cmSeen m);
          iter' = (case jm_get (cmIter m) klass of
                     Some agg \<Rightarrow> jm_set klass (agg\<lparr>raCount := raCount agg + 1\<rparr>) (cmIter m)
                   | None \<Rightarrow> jm_set klass \<lparr>raCount = 1, raSampleKey = sampleKey,
                                           raSampleMessage = errorMessage err\<rparr> (cmIter m))
      in ((klass, firstSeenOn), \<lparr>cmSeen = seen', cmIter = iter'\<rparr>))"

definition rollupErrorClasses ::
  "(string, ClassRollupAgg) jsmap \<Rightarrow> string set \<Rightarrow> (string \<times> ClassRollupAgg \<times> bool) list" where
  "rollupErrorClasses iterFailures knownAtStart =
     map (\<lambda>(klass, agg). (klass, agg, klass \<in> knownAtStart))
       (filter (\<lambda>(klass, agg). \<not> raCount agg \<le> 1) iterFailures)"

section \<open>A class ignores the identifiers in a message\<close>

lemma base58_word: "base58_char c \<Longrightarrow> is_word c"
  by (auto simp: base58_char_def is_word_def Let_def)

lemma hex_word: "hex_char c \<Longrightarrow> is_word c"
  by (auto simp: hex_char_def is_word_def Let_def)

lemma head_append: "xs \<noteq> [] \<Longrightarrow> head (xs @ ys) = head xs"
  by (cases xs) (auto simp: head_def)

lemma head_drop_append: "n < length xs \<Longrightarrow> head (drop n (xs @ ys)) = head (drop n xs)"
  by (simp add: head_append)

lemma back_off_prev: "lo \<noteq> 0 \<Longrightarrow> back_off prev s lo n = back_off prev' s lo n"
  by (induction n) auto

lemma regex_match_prev:
  "word_at prev = word_at prev' \<Longrightarrow> lo \<noteq> 0 \<Longrightarrow> regex_match cls lo hi prev s = regex_match cls lo hi prev' s"
  by (simp add: regex_match_def Let_def back_off_prev [of lo prev s _ prev'])

lemma replaceAll_prev:
  "word_at prev = word_at prev' \<Longrightarrow> lo \<noteq> 0 \<Longrightarrow> replaceAll cls lo hi rep prev s = replaceAll cls lo hi rep prev' s"
  by (cases s) (simp_all add: regex_match_prev [of prev prev'])

lemma back_off_append:
  "n < length xs \<Longrightarrow> back_off prev (xs @ ys) lo n = back_off prev xs lo n"
  by (induction n) (auto simp: nth_append head_append head_drop_append)

lemma back_off_le: "back_off prev s lo n = Some m \<Longrightarrow> m \<le> n"
  by (induction n) (auto split: if_splits)

lemma takeWhile_last:
  assumes "xs \<noteq> []" "\<not> cls (last xs)"
  shows "takeWhile cls (xs @ ys) = takeWhile cls xs" "length (takeWhile cls xs) < length xs"
proof -
  have l: "last xs \<in> set xs" using assms(1) by simp
  show "takeWhile cls (xs @ ys) = takeWhile cls xs" using l assms(2) by (rule takeWhile_append1)
  show "length (takeWhile cls xs) < length xs"
    using assms by (induction xs) (auto split: if_splits)
qed

lemma regex_match_append:
  assumes "xs \<noteq> []" "\<not> cls (last xs)"
  shows "regex_match cls lo hi prev (xs @ ys) = regex_match cls lo hi prev xs"
proof -
  have lt: "(case hi of None \<Rightarrow> length (takeWhile cls xs) | Some h \<Rightarrow> min h (length (takeWhile cls xs))) < length xs"
    using takeWhile_last(2) [where cls = cls, OF assms] by (auto split: option.splits)
  show ?thesis
    by (simp add: regex_match_def Let_def takeWhile_last(1) [where cls = cls, OF assms] head_append [OF assms(1)] back_off_append [OF lt])
qed

lemma regex_match_less:
  assumes "xs \<noteq> []" "\<not> cls (last xs)" "regex_match cls lo hi prev xs = Some n"
  shows "n < length xs"
proof -
  from assms(3) have "n \<le> (case hi of None \<Rightarrow> length (takeWhile cls xs) | Some h \<Rightarrow> min h (length (takeWhile cls xs)))"
    by (auto simp: regex_match_def Let_def dest: back_off_le split: if_splits)
  with takeWhile_last(2) [where cls = cls, OF assms(1,2)] show ?thesis by (auto split: option.splits)
qed

text \<open>A replacement never reaches across a character outside the class.\<close>

lemma replaceAll_append:
  assumes "xs \<noteq> [] \<Longrightarrow> \<not> cls (last xs)"
  shows "replaceAll cls lo hi rep prev (xs @ ys) =
    replaceAll cls lo hi rep prev xs @ replaceAll cls lo hi rep (if xs = [] then prev else Some (last xs)) ys"
  using assms
proof (induction cls lo hi rep prev xs rule: replaceAll.induct)
  case (2 cls lo hi rep prev c cs)
  have last: "\<not> cls (last (c # cs))" using "2.prems" by simp
  then have cs_last: "cs \<noteq> [] \<Longrightarrow> \<not> cls (last cs)" by simp
  note app = regex_match_append [where cls = cls, OF _ last, of lo hi prev ys]
  show ?case
  proof (cases "regex_match cls lo hi prev (c # cs)")
    case None
    then show ?thesis using "2.IH"(1) [OF None] cs_last app by (cases "cs = []") simp_all
  next
    case (Some m)
    show ?thesis
    proof (cases m)
      case 0
      then show ?thesis using "2.IH"(2) [OF Some 0] Some cs_last app by (cases "cs = []") simp_all
    next
      case (Suc n)
      have lt: "n < length cs" using regex_match_less [where cls = cls, OF _ last Some] Suc by simp
      then have ne: "drop n cs \<noteq> []" and l: "last (drop n cs) = last (c # cs)" and cs: "cs \<noteq> []"
        by (auto simp: last_drop)
      have "(c # cs @ ys) ! n = (c # cs) ! n" using lt by (metis append_Cons length_Cons less_SucI nth_append)
      then show ?thesis
        using "2.IH"(3) [OF Some Suc] Some Suc last ne l cs lt app
        by simp
    qed
  qed
qed simp

definition id_token :: "string \<Rightarrow> bool" where
  "id_token k \<longleftrightarrow> 32 \<le> length k \<and> length k \<le> 88 \<and> list_all base58_char k"

definition ends_word :: "string \<Rightarrow> bool" where
  "ends_word s \<longleftrightarrow> s \<noteq> [] \<and> is_word (last s)"

definition starts_word :: "string \<Rightarrow> bool" where
  "starts_word s \<longleftrightarrow> s \<noteq> [] \<and> is_word (hd s)"

lemma replaceAll_identifier:
  assumes k: "id_token k" and prev: "\<not> word_at prev" and post: "\<not> starts_word post"
  shows "replaceAll base58_char 32 (Some 88) rep prev (k @ post) =
    rep @ replaceAll base58_char 32 (Some 88) rep (Some CHR ''1'') post"
proof -
  obtain c cs where kc: "k = c # cs" using k by (cases k) (auto simp: id_token_def)
  have all: "list_all base58_char k" and len: "32 \<le> length k" "length k \<le> 88"
    using k by (auto simp: id_token_def)
  have post_hd: "post = [] \<or> \<not> base58_char (hd post)"
    using post base58_word by (auto simp: starts_word_def)
  then have "takeWhile base58_char post = []" by (cases post) auto
  then have run: "takeWhile base58_char (k @ post) = k"
    using all by (simp add: list_all_iff takeWhile_append2)
  have lastw: "is_word (k ! length cs)"
    using all base58_word kc by (metis length_Cons lessI list_all_length)
  have nextw: "\<not> word_at (head post)"
    using post by (cases post) (auto simp: head_def word_at_def starts_word_def)
  have firstw: "is_word c" using all base58_word kc by simp
  have nth: "(c # cs @ post) ! length cs = k ! length cs"
    unfolding kc by (metis append_Cons length_Cons lessI nth_append)
  have "back_off prev (k @ post) 32 (length k) = Some (length k)"
    using len lastw nextw nth by (simp add: kc)
  moreover have "min 88 (length (takeWhile base58_char (k @ post))) = length k" using run len by simp
  moreover have "word_at prev \<noteq> word_at (head (k @ post))"
    using prev firstw by (simp add: kc head_def word_at_def)
  ultimately have "regex_match base58_char 32 (Some 88) prev (k @ post) = Some (length k)"
    unfolding regex_match_def Let_def by simp
  then have m: "regex_match base58_char 32 (Some 88) prev (c # cs @ post) = Some (Suc (length cs))"
    by (simp add: kc)
  have "word_at (Some ((c # cs @ post) ! length cs)) = word_at (Some CHR ''1'')"
    using lastw unfolding nth by (simp add: word_at_def is_word_def)
  from replaceAll_prev [OF this, of 32 base58_char "Some 88" rep post] m show ?thesis
    by (simp add: kc)
qed

text \<open>The class of an error does not depend on the identifiers its message names: two errors whose messages
  differ only in a base58 key or signature (32 to 88 characters, delimited by non-word characters) fall in
  the same class, so one recurring failure over many flows is one class.\<close>

theorem errorClass_ignores_identifiers:
  assumes "id_token k" "id_token k'" "\<not> ends_word pre" "\<not> starts_word post"
    and "errorMessage e = pre @ k @ post" "errorMessage e' = pre @ k' @ post"
  shows "errorClass e = errorClass e'"
proof -
  have pre: "pre \<noteq> [] \<Longrightarrow> \<not> base58_char (last pre)" using assms(3) base58_word by (auto simp: ends_word_def)
  have prev: "\<not> word_at (if pre = [] then None else Some (last pre))"
    using assms(3) by (auto simp: word_at_def ends_word_def)
  have "replaceAll base58_char 32 (Some 88) ''<pubkey>'' None (pre @ t @ post) =
      replaceAll base58_char 32 (Some 88) ''<pubkey>'' None pre @ ''<pubkey>'' @
      replaceAll base58_char 32 (Some 88) ''<pubkey>'' (Some CHR ''1'') post" if "id_token t" for t
    using replaceAll_append [where cls = base58_char, OF pre] replaceAll_identifier [OF that prev assms(4)] by simp
  then show ?thesis unfolding errorClass_def Let_def assms(5,6) by (simp only: assms(1,2))
qed

theorem errorClass_ignores_identifiers_witness:
  "errorClass (Primitive (''no VAA for '' @ replicate 44 CHR ''A'' @ '' yet'')) =
   errorClass (Primitive (''no VAA for '' @ replicate 43 CHR ''B'' @ '' yet''))"
  by (rule errorClass_ignores_identifiers
        [where k = "replicate 44 CHR ''A''" and k' = "replicate 43 CHR ''B''" and pre = "''no VAA for ''" and post = "'' yet''"])
     (simp_all add: id_token_def ends_word_def starts_word_def base58_char_def is_word_def errorMessage_def list_all_iff)

section \<open>Counts and first sightings\<close>

definition record_all :: "(thrown \<times> string) list \<Rightarrow> class_memo \<Rightarrow> class_memo" where
  "record_all es m = fold (\<lambda>(err, key) m. snd (recordErrorClass err key m)) es m"

definition class_hits :: "string \<Rightarrow> (thrown \<times> string) list \<Rightarrow> (thrown \<times> string) list" where
  "class_hits k es = filter (\<lambda>(err, _). errorClass err = k) es"

fun first_seen :: "string \<Rightarrow> (thrown \<times> string) list \<Rightarrow> string option" where
  "first_seen k [] = None"
| "first_seen k ((err, key) # es) = (if errorClass err = k then Some key else first_seen k es)"

definition agg_count :: "ClassRollupAgg option \<Rightarrow> nat" where
  "agg_count a = (case a of None \<Rightarrow> 0 | Some agg \<Rightarrow> raCount agg)"

lemma record_step:
  assumes "jm_ok (cmIter m)" "cmSeen m = Some seen" "jm_ok seen"
  shows "jm_ok (cmIter (snd (recordErrorClass err key m)))"
    and "\<exists>seen'. cmSeen (snd (recordErrorClass err key m)) = Some seen' \<and> jm_ok seen' \<and>
           (\<forall>k. jm_get seen' k = (case jm_get seen k of Some f \<Rightarrow> Some f
                  | None \<Rightarrow> if errorClass err = k then Some key else None))"
    and "agg_count (jm_get (cmIter (snd (recordErrorClass err key m))) k) =
           agg_count (jm_get (cmIter m) k) + (if errorClass err = k then 1 else 0)"
  using assms
  by (auto simp: recordErrorClass_def Let_def agg_count_def jm.inv_put jm.get_put split: option.splits)

lemma record_all_spec:
  assumes "jm_ok (cmIter m)" "cmSeen m = Some seen" "jm_ok seen"
  shows "jm_ok (cmIter (record_all es m)) \<and>
    (\<exists>seen'. cmSeen (record_all es m) = Some seen' \<and> jm_ok seen' \<and>
       (\<forall>k. jm_get seen' k = (case jm_get seen k of Some f \<Rightarrow> Some f | None \<Rightarrow> first_seen k es))) \<and>
    (\<forall>k. agg_count (jm_get (cmIter (record_all es m)) k) = agg_count (jm_get (cmIter m) k) + length (class_hits k es))"
  using assms
proof (induction es arbitrary: m seen)
  case Nil
  then show ?case by (auto simp: record_all_def class_hits_def split: option.splits)
next
  case (Cons e es)
  obtain err key where e: "e = (err, key)" by (cases e)
  let ?m = "snd (recordErrorClass err key m)"
  obtain s1 where s1: "cmSeen ?m = Some s1" "jm_ok s1"
    "\<And>k. jm_get s1 k = (case jm_get seen k of Some f \<Rightarrow> Some f | None \<Rightarrow> if errorClass err = k then Some key else None)"
    using record_step(2) [OF Cons.prems] by blast
  have "record_all (e # es) m = record_all es ?m" by (simp add: record_all_def e)
  moreover from Cons.IH [OF record_step(1) [OF Cons.prems, of err key] s1(1,2)] obtain seen' where
    s2: "cmSeen (record_all es ?m) = Some seen'" "jm_ok seen'" "jm_ok (cmIter (record_all es ?m))"
      "\<And>k. jm_get seen' k = (case jm_get s1 k of Some f \<Rightarrow> Some f | None \<Rightarrow> first_seen k es)"
      "\<And>k. agg_count (jm_get (cmIter (record_all es ?m)) k) =
         agg_count (jm_get (cmIter ?m) k) + length (class_hits k es)" by blast
  moreover have "jm_get seen' k = (case jm_get seen k of Some f \<Rightarrow> Some f | None \<Rightarrow> first_seen k (e # es))" for k
    by (cases "jm_get seen k") (simp_all add: s2(4) s1(3) e)
  ultimately show ?case by (simp add: record_step(3) [OF Cons.prems] class_hits_def e)
qed

text \<open>Recording failures during a scan that starts with an empty aggregator: the first-seen memo keeps the flow of
  the first failure of each class (an earlier memo entry wins), and the rollup lists exactly the classes hit
  more than once, with their exact number of failures and the right known-before flag.\<close>

theorem recordErrorClass_counts:
  assumes "jm_ok seen"
  shows "\<exists>seen' iter'. record_all es \<lparr>cmSeen = Some seen, cmIter = []\<rparr> = \<lparr>cmSeen = Some seen', cmIter = iter'\<rparr> \<and>
    (\<forall>k. jm_get seen' k = (case jm_get seen k of Some f \<Rightarrow> Some f | None \<Rightarrow> first_seen k es)) \<and>
    (\<forall>k n b. (\<exists>agg. raCount agg = n \<and> (k, agg, b) \<in> set (rollupErrorClasses iter' known)) \<longleftrightarrow>
       1 < n \<and> n = length (class_hits k es) \<and> b = (k \<in> known))"
proof -
  let ?r = "record_all es \<lparr>cmSeen = Some seen, cmIter = []\<rparr>"
  obtain seen' where s: "cmSeen ?r = Some seen'"
    and g: "\<And>k. jm_get seen' k = (case jm_get seen k of Some f \<Rightarrow> Some f | None \<Rightarrow> first_seen k es)"
    and ok: "jm_ok (cmIter ?r)"
    and c: "\<And>k. agg_count (jm_get (cmIter ?r) k) = length (class_hits k es)"
    using record_all_spec [of "\<lparr>cmSeen = Some seen, cmIter = []\<rparr>" seen es] assms by (auto simp: agg_count_def)
  have mem: "(k, agg) \<in> set (cmIter ?r) \<longleftrightarrow> jm_get (cmIter ?r) k = Some agg" for k agg
    using ok by (simp add: jm_get_def jm_ok_def map_of_eq_Some_iff)
  have roll: "(k, agg, b) \<in> set (rollupErrorClasses (cmIter ?r) known) \<longleftrightarrow>
      jm_get (cmIter ?r) k = Some agg \<and> 1 < raCount agg \<and> b = (k \<in> known)" for k agg b
    by (auto simp: rollupErrorClasses_def mem)
  have "(\<exists>agg. raCount agg = n \<and> (k, agg, b) \<in> set (rollupErrorClasses (cmIter ?r) known)) \<longleftrightarrow>
      1 < n \<and> n = length (class_hits k es) \<and> b = (k \<in> known)" for k n b
    using c [of k] by (auto simp: roll agg_count_def split: option.splits)
  with s g show ?thesis by (intro exI [of _ seen'] exI [of _ "cmIter ?r"]) simp
qed

theorem recordErrorClass_counts_witness:
  "\<exists>seen' iter'. record_all [(Primitive ''a'', ''f1''), (Primitive ''a'', ''f2'')] \<lparr>cmSeen = Some [], cmIter = []\<rparr> =
       \<lparr>cmSeen = Some seen', cmIter = iter'\<rparr> \<and>
     (\<exists>agg. raCount agg = 2 \<and> (errorClass (Primitive ''a''), agg, False) \<in> set (rollupErrorClasses iter' {}))"
proof -
  from recordErrorClass_counts [of "[]" "[(Primitive ''a'', ''f1''), (Primitive ''a'', ''f2'')]" "{}"]
  obtain seen' iter' where r: "record_all [(Primitive ''a'', ''f1''), (Primitive ''a'', ''f2'')] \<lparr>cmSeen = Some [], cmIter = []\<rparr> =
       \<lparr>cmSeen = Some seen', cmIter = iter'\<rparr>"
    and c: "\<And>k n b. (\<exists>agg. raCount agg = n \<and> (k, agg, b) \<in> set (rollupErrorClasses iter' {})) \<longleftrightarrow>
       1 < n \<and> n = length (class_hits k [(Primitive ''a'', ''f1''), (Primitive ''a'', ''f2'')]) \<and> b = (k \<in> {})"
    by auto
  show ?thesis using r c [of 2 "errorClass (Primitive ''a'')" False] by (auto simp: class_hits_def)
qed

end
