(* ===== verification/Vaa.thy ===== *)
theory Vaa
  imports Ntt
begin

text \<open>
  The wire decoders of \<open>packages/sdk/src/bridge/vaa.ts\<close>: signed VAAs, the Wormhole transceiver wrapper and the
  NTT manager message, the hash that names an inbox item, and \<open>resolveNttVaa\<close>, which turns a VAA into the
  addresses that \<open>receive\<close> needs. The wire formats are written as encoders and the decoders proved
  inverse to them.
\<close>

definition TRANSCEIVER_MESSAGE_SEED :: bytes where
  "TRANSCEIVER_MESSAGE_SEED = utf8 ''transceiver_message''"

definition WH_TRANSCEIVER_PREFIX :: bytes where
  "WH_TRANSCEIVER_PREFIX = [0x99, 0x45, 0xFF, 0x10]"

definition NATIVE_TOKEN_TRANSFER_PREFIX :: bytes where
  "NATIVE_TOKEN_TRANSFER_PREFIX = [0x99, 0x4E, 0x54, 0x54]"

definition equalBytes :: "bytes \<Rightarrow> bytes \<Rightarrow> bool" where
  "equalBytes a b =
     (if length a \<noteq> length b then False else list_all (\<lambda>i. a ! i = b ! i) [0..<length a])"

record ParsedVaa =
  pvVersion :: nat
  pvGuardianSetIndex :: nat
  pvSignatures :: "bytes list"
  pvTimestamp :: nat
  pvNonce :: nat
  pvEmitterChain :: nat
  pvEmitterAddress :: bytes
  pvSequence :: nat
  pvConsistencyLevel :: nat
  pvPayload :: bytes

fun readSignatures :: "nat \<Rightarrow> bytes \<Rightarrow> nat \<Rightarrow> (bytes list \<times> nat) result" where
  "readSignatures 0 bytes off = Inr ([], off)"
| "readSignatures (Suc n) bytes off =
     (if off + 66 > length bytes then Inl (Error ''VAA truncated in signatures'')
      else rbind (readSignatures n bytes (off + 66)) (\<lambda>(sigs, off').
        Inr (bslice bytes off (off + 66) # sigs, off')))"

text \<open>An indexing \<open>bytes[o]\<close> of the source is always inside the array here: the two length tests guard it.\<close>

definition parseVaa :: "bytes \<Rightarrow> ParsedVaa result" where
  "parseVaa bytes =
     (if length bytes < 6 then Inl (Error ''VAA too short'')
      else
        rbind (read_u8 bytes 0) (\<lambda>(version, off).
        rbind (read_be 4 bytes off) (\<lambda>(guardianSetIndex, off).
        rbind (read_u8 bytes off) (\<lambda>(sigCount, off).
        rbind (readSignatures sigCount bytes off) (\<lambda>(signatures, off).
        if off + 4 + 4 + 2 + 32 + 8 + 1 > length bytes then Inl (Error ''VAA truncated in body header'')
        else
          rbind (read_be 4 bytes off) (\<lambda>(timestamp, off).
          rbind (read_be 4 bytes off) (\<lambda>(nonce, off).
          rbind (read_be 2 bytes off) (\<lambda>(emitterChain, off).
          let emitterAddress = bslice bytes off (off + 32); off = off + 32 in
          rbind (read_be 8 bytes off) (\<lambda>(sequence, off).
          rbind (read_u8 bytes off) (\<lambda>(consistencyLevel, off).
            Inr \<lparr>pvVersion = version, pvGuardianSetIndex = guardianSetIndex, pvSignatures = signatures,
                 pvTimestamp = timestamp, pvNonce = nonce, pvEmitterChain = emitterChain,
                 pvEmitterAddress = emitterAddress, pvSequence = sequence,
                 pvConsistencyLevel = consistencyLevel, pvPayload = drop off bytes\<rparr>))))))))))"

record ParsedTransceiverMessage =
  ptSourceNttManager :: bytes
  ptRecipientNttManager :: bytes
  ptNttManagerPayload :: bytes
  ptTransceiverPayload :: bytes

definition parseTransceiverMessage :: "bytes \<Rightarrow> ParsedTransceiverMessage result" where
  "parseTransceiverMessage payload =
     (if length payload < 4 + 32 + 32 + 2 then Inl (Error ''transceiver payload too short'')
      else if \<not> equalBytes (bslice payload 0 4) WH_TRANSCEIVER_PREFIX
      then Inl (Error ''transceiver prefix mismatch'')
      else
        let off = 4;
            sourceNttManager = bslice payload off (off + 32);
            off = off + 32;
            recipientNttManager = bslice payload off (off + 32);
            off = off + 32
        in rbind (read_be 2 payload off) (\<lambda>(mgrLen, off).
           if off + mgrLen + 2 > length payload
           then Inl (Error ''transceiver payload truncated in ntt_manager_payload'')
           else
             let nttManagerPayload = bslice payload off (off + mgrLen); off = off + mgrLen in
             rbind (read_be 2 payload off) (\<lambda>(xcvrLen, off).
             if off + xcvrLen > length payload
             then Inl (Error ''transceiver payload truncated in transceiver_payload'')
             else
               Inr \<lparr>ptSourceNttManager = sourceNttManager, ptRecipientNttManager = recipientNttManager,
                    ptNttManagerPayload = nttManagerPayload,
                    ptTransceiverPayload = bslice payload off (off + xcvrLen)\<rparr>)))"

record ParsedNttManagerMessage =
  pmId :: bytes
  pmSender :: bytes
  pmTrimmedAmount :: nat
  pmTrimmedDecimals :: nat
  pmSourceToken :: bytes
  pmTo :: bytes
  pmToChain :: nat

definition parseNttManagerMessage :: "bytes \<Rightarrow> ParsedNttManagerMessage result" where
  "parseNttManagerMessage wire =
     (if length wire < 32 + 32 + 2 then Inl (Error ''ntt manager message too short'')
      else
        let off = 0;
            ident = bslice wire off (off + 32);
            off = off + 32;
            sender = bslice wire off (off + 32);
            off = off + 32
        in rbind (read_be 2 wire off) (\<lambda>(innerLen, off).
           if off + innerLen > length wire
           then Inl (Error ''ntt manager message truncated in inner payload'')
           else
             let inner = bslice wire off (off + innerLen) in
             if length inner < 4 + 1 + 8 + 32 + 32 + 2 then Inl (Error ''native_token_transfer too short'')
             else if \<not> equalBytes (bslice inner 0 4) NATIVE_TOKEN_TRANSFER_PREFIX
             then Inl (Error ''native_token_transfer prefix mismatch'')
             else
               rbind (read_u8 inner 4) (\<lambda>(trimmedDecimals, p).
               rbind (read_be 8 inner p) (\<lambda>(trimmedAmount, p).
               let sourceToken = bslice inner p (p + 32);
                   p = p + 32;
                   to_addr = bslice inner p (p + 32);
                   p = p + 32
               in rbind (read_be 2 inner p) (\<lambda>(toChain, _).
                 Inr \<lparr>pmId = ident, pmSender = sender, pmTrimmedAmount = trimmedAmount,
                      pmTrimmedDecimals = trimmedDecimals, pmSourceToken = sourceToken, pmTo = to_addr,
                      pmToChain = toChain\<rparr>)))))"

definition inboxItemMessageHash :: "web3_env \<Rightarrow> nat \<Rightarrow> bytes \<Rightarrow> bytes" where
  "inboxItemMessageHash env fromChain nttManagerWire =
     (let buf = replicate (2 + length nttManagerWire) 0;
          buf = put buf 0 (nat_be 2 fromChain);
          buf = put buf 2 nttManagerWire
      in keccak256 env buf)"

definition findValidatedTransceiverMessagePda :: "web3_env \<Rightarrow> nat \<Rightarrow> bytes \<Rightarrow> pubkey \<Rightarrow> pubkey result" where
  "findValidatedTransceiverMessagePda env fromChain messageId transceiverProgramId =
     rbind (chainIdBeBuf fromChain) (\<lambda>chainBuf.
       key_of (fpa env [TRANSCEIVER_MESSAGE_SEED, chainBuf, messageId] transceiverProgramId))"

record ResolvedNttVaa =
  rvVaa :: ParsedVaa
  rvTransceiver :: ParsedTransceiverMessage
  rvManager :: ParsedNttManagerMessage
  rvFromChain :: nat
  rvNttInboxItem :: pubkey
  rvNttTransceiverMessage :: pubkey
  rvRecipientOnSolana :: pubkey
  rvSenderOnSource :: pubkey

definition resolveNttVaa :: "web3_env \<Rightarrow> bytes \<Rightarrow> pubkey \<Rightarrow> pubkey option \<Rightarrow> ResolvedNttVaa result" where
  "resolveNttVaa env vaaBytes nttProgramId transceiverOpt =
     rbind (parseVaa vaaBytes) (\<lambda>vaa.
     rbind (parseTransceiverMessage (pvPayload vaa)) (\<lambda>transceiver.
     rbind (parseNttManagerMessage (ptNttManagerPayload transceiver)) (\<lambda>manager.
     let transceiverProgramId = (case transceiverOpt of None \<Rightarrow> nttProgramId | Some t \<Rightarrow> t);
         messageHash = inboxItemMessageHash env (pvEmitterChain vaa) (ptNttManagerPayload transceiver)
     in rbind (key_of (findInboxItemPda env messageHash nttProgramId)) (\<lambda>nttInboxItem.
        rbind (findValidatedTransceiverMessagePda env (pvEmitterChain vaa) (pmId manager) transceiverProgramId)
          (\<lambda>nttTransceiverMessage.
        rbind (newPublicKey env (pmTo manager)) (\<lambda>recipientOnSolana.
        rbind (newPublicKey env (pmSender manager)) (\<lambda>senderOnSource.
          Inr \<lparr>rvVaa = vaa, rvTransceiver = transceiver, rvManager = manager, rvFromChain = pvEmitterChain vaa,
               rvNttInboxItem = nttInboxItem, rvNttTransceiverMessage = nttTransceiverMessage,
               rvRecipientOnSolana = recipientOnSolana, rvSenderOnSource = senderOnSource\<rparr>)))))))"

section \<open>Wire formats\<close>

definition encodeVaa :: "ParsedVaa \<Rightarrow> bytes" where
  "encodeVaa v =
     nat_le 1 (pvVersion v) @ nat_be 4 (pvGuardianSetIndex v) @ nat_le 1 (length (pvSignatures v)) @
     concat (pvSignatures v) @ nat_be 4 (pvTimestamp v) @ nat_be 4 (pvNonce v) @ nat_be 2 (pvEmitterChain v) @
     pvEmitterAddress v @ nat_be 8 (pvSequence v) @ nat_le 1 (pvConsistencyLevel v) @ pvPayload v"

definition vaa_wf :: "ParsedVaa \<Rightarrow> bool" where
  "vaa_wf v \<longleftrightarrow> pvVersion v < 256 \<and> pvGuardianSetIndex v < 256 ^ 4 \<and> length (pvSignatures v) < 256 \<and>
     list_all (\<lambda>s. length s = 66) (pvSignatures v) \<and> pvTimestamp v < 256 ^ 4 \<and> pvNonce v < 256 ^ 4 \<and>
     pvEmitterChain v < 65536 \<and> length (pvEmitterAddress v) = 32 \<and> pvSequence v < 256 ^ 8 \<and>
     pvConsistencyLevel v < 256"

definition encodeTransceiverMessage :: "ParsedTransceiverMessage \<Rightarrow> bytes" where
  "encodeTransceiverMessage t =
     WH_TRANSCEIVER_PREFIX @ ptSourceNttManager t @ ptRecipientNttManager t @
     nat_be 2 (length (ptNttManagerPayload t)) @ ptNttManagerPayload t @
     nat_be 2 (length (ptTransceiverPayload t)) @ ptTransceiverPayload t"

definition transceiver_wf :: "ParsedTransceiverMessage \<Rightarrow> bool" where
  "transceiver_wf t \<longleftrightarrow> length (ptSourceNttManager t) = 32 \<and> length (ptRecipientNttManager t) = 32 \<and>
     length (ptNttManagerPayload t) < 65536 \<and> length (ptTransceiverPayload t) < 65536"

definition encodeNativeTokenTransfer :: "ParsedNttManagerMessage \<Rightarrow> bytes" where
  "encodeNativeTokenTransfer m =
     NATIVE_TOKEN_TRANSFER_PREFIX @ nat_le 1 (pmTrimmedDecimals m) @ nat_be 8 (pmTrimmedAmount m) @
     pmSourceToken m @ pmTo m @ nat_be 2 (pmToChain m)"

definition encodeNttManagerMessage :: "ParsedNttManagerMessage \<Rightarrow> bytes" where
  "encodeNttManagerMessage m =
     pmId m @ pmSender m @ nat_be 2 (length (encodeNativeTokenTransfer m)) @ encodeNativeTokenTransfer m"

definition manager_wf :: "ParsedNttManagerMessage \<Rightarrow> bool" where
  "manager_wf m \<longleftrightarrow> length (pmId m) = 32 \<and> length (pmSender m) = 32 \<and> pmTrimmedAmount m < 256 ^ 8 \<and>
     pmTrimmedDecimals m < 256 \<and> length (pmSourceToken m) = 32 \<and> length (pmTo m) = 32 \<and> pmToChain m < 65536"

section \<open>Round trips\<close>

lemma equalBytes_iff: "equalBytes a b \<longleftrightarrow> a = b"
  by (auto simp: equalBytes_def list_all_iff intro: nth_equalityI)

lemma readSignatures_enc:
  "list_all (\<lambda>s. length s = 66) sigs \<Longrightarrow> drop off buf = concat sigs @ rest \<Longrightarrow>
     readSignatures (length sigs) buf off = Inr (sigs, off + length (concat sigs))"
proof (induction sigs arbitrary: off)
  case (Cons s sigs)
  from Cons.prems have d: "drop off buf = s @ concat sigs @ rest" and len: "length s = 66" by simp_all
  have "off + 66 \<le> length buf" using drop_room [OF d] len by fastforce
  moreover have "bslice buf off (off + 66) = s" using drop_bslice [OF d] len by simp
  moreover have "readSignatures (length sigs) buf (off + 66) = Inr (sigs, off + 66 + length (concat sigs))"
    using drop_rest [OF d] len Cons.prems by (intro Cons.IH) simp_all
  ultimately show ?case using len by simp
qed simp

lemma parseVaa_enc:
  assumes "vaa_wf v"
  shows "parseVaa (encodeVaa v) = Inr v"
proof -
  let ?buf = "encodeVaa v"
  have wf: "pvVersion v < 256" "pvGuardianSetIndex v < 256 ^ 4" "length (pvSignatures v) < 256"
    "list_all (\<lambda>s. length s = 66) (pvSignatures v)" "pvTimestamp v < 256 ^ 4" "pvNonce v < 256 ^ 4"
    "pvEmitterChain v < 65536" "length (pvEmitterAddress v) = 32" "pvSequence v < 256 ^ 8"
    "pvConsistencyLevel v < 256"
    using assms by (simp_all add: vaa_wf_def)
  have d0: "drop 0 ?buf = nat_le 1 (pvVersion v) @ nat_be 4 (pvGuardianSetIndex v) @
     nat_le 1 (length (pvSignatures v)) @ concat (pvSignatures v) @ nat_be 4 (pvTimestamp v) @ nat_be 4 (pvNonce v) @
     nat_be 2 (pvEmitterChain v) @ pvEmitterAddress v @ nat_be 8 (pvSequence v) @ nat_le 1 (pvConsistencyLevel v) @
     pvPayload v" by (simp add: encodeVaa_def)
  note d1 = drop_rest [OF d0] note d2 = drop_rest [OF d1] note d3 = drop_rest [OF d2]
  note d4 = drop_rest [OF d3] note d5 = drop_rest [OF d4] note d6 = drop_rest [OF d5]
  note d7 = drop_rest [OF d6] note d8 = drop_rest [OF d7] note d9 = drop_rest [OF d8] note d10 = drop_rest [OF d9]
  note reads = u8.dec_enc [OF wf(1) d0] be32.dec_enc [OF wf(2) d1] u8.dec_enc [OF wf(3) d2]
    readSignatures_enc [OF wf(4) d3] be32.dec_enc [OF wf(5) d4] be32.dec_enc [OF wf(6) d5]
    be16.dec_enc [OF wf(7) d6]
  note seqs = be64.dec_enc [OF wf(9) d8] u8.dec_enc [OF wf(10) d9]
  have long: "57 + length (concat (pvSignatures v)) \<le> length ?buf"
    using wf(8) by (simp add: encodeVaa_def)
  show ?thesis
    using reads seqs drop_bslice [OF d7] d10 long
    by (simp add: parseVaa_def Let_def wf(8))
qed

text \<open>What a successful read says about the buffer.\<close>

lemma drop_split: "a \<le> b \<Longrightarrow> drop a bs = bslice bs a b @ drop b bs"
  by (metis add_diff_inverse_nat append_take_drop_id bslice_def drop_drop linorder_not_less add.commute)

lemma read_be_InrD:
  assumes "read_be n bs off = Inr (v, off')"
  shows "off' = off + n \<and> off + n \<le> length bs \<and> v < 256 ^ n \<and> drop off bs = nat_be n v @ drop off' bs"
proof -
  from assms have len: "off + n \<le> length bs" "off' = off + n" and v: "v = be_nat (bslice bs off (off + n))"
    by (auto simp: read_be_def get_be_def split: if_splits)
  let ?s = "bslice bs off (off + n)"
  have "length ?s = n" using len by (simp add: length_bslice)
  moreover from this have "v < 256 ^ n" using be_nat_bound [of ?s] v by simp
  moreover have "nat_be (length ?s) v = ?s"
    using nat_le_le_nat [of "rev ?s"] v by (simp add: nat_be_def be_nat_def rev_swap)
  ultimately show ?thesis using len drop_split [of off "off + n" bs] by simp
qed

lemma bslice_one: "off < length bs \<Longrightarrow> bslice bs off (Suc off) = [bs ! off]"
  by (simp add: bslice_def Cons_nth_drop_Suc [symmetric])

lemma read_u8_InrD:
  assumes "read_u8 bs off = Inr (v, off')"
  shows "off' = off + 1 \<and> off + 1 \<le> length bs \<and> v < 256 \<and> drop off bs = nat_le 1 v @ drop off' bs"
proof -
  have "read_u8 = read_be 1"
    by (intro ext) (simp add: read_u8_def read_le_def read_be_def get_le_def get_be_def be_nat_def bslice_one)
  moreover have "nat_be 1 v = nat_le 1 v" by (simp add: nat_be_def)
  ultimately show ?thesis using read_be_InrD [of 1 bs off v off'] assms by simp
qed

lemma readSignatures_InrD:
  "readSignatures n bs off = Inr (sigs, off') \<Longrightarrow>
     length sigs = n \<and> list_all (\<lambda>s. length s = 66) sigs \<and> drop off bs = concat sigs @ drop off' bs"
proof (induction n arbitrary: off sigs)
  case (Suc n)
  from Suc.prems obtain ss where room: "off + 66 \<le> length bs"
    and r: "readSignatures n bs (off + 66) = Inr (ss, off')" and s: "sigs = bslice bs off (off + 66) # ss"
    by (auto simp: result_simps split: if_splits)
  from Suc.IH [OF r] room drop_split [of off "off + 66" bs] show ?case
    by (simp add: s length_bslice)
qed simp

lemma parseVaa_InrD:
  assumes "parseVaa bs = Inr v"
  shows "vaa_wf v \<and> bs = encodeVaa v"
proof -
  from assms obtain o1 o2 o3 o4 o5 o6 o7 o8 o9 n where
    r: "read_u8 bs 0 = Inr (pvVersion v, o1)" "read_be 4 bs o1 = Inr (pvGuardianSetIndex v, o2)"
      "read_u8 bs o2 = Inr (n, o3)" "readSignatures n bs o3 = Inr (pvSignatures v, o4)"
      "read_be 4 bs o4 = Inr (pvTimestamp v, o5)" "read_be 4 bs o5 = Inr (pvNonce v, o6)"
      "read_be 2 bs o6 = Inr (pvEmitterChain v, o7)" "read_be 8 bs (o7 + 32) = Inr (pvSequence v, o8)"
      "read_u8 bs o8 = Inr (pvConsistencyLevel v, o9)"
    and em: "pvEmitterAddress v = bslice bs o7 (o7 + 32)" and pay: "pvPayload v = drop o9 bs"
    by (auto simp: parseVaa_def Let_def result_simps split: if_splits)
  note d = read_u8_InrD [OF r(1)] read_be_InrD [OF r(2)] read_u8_InrD [OF r(3)] readSignatures_InrD [OF r(4)]
    read_be_InrD [OF r(5)] read_be_InrD [OF r(6)] read_be_InrD [OF r(7)] read_be_InrD [OF r(8)] read_u8_InrD [OF r(9)]
  have "o7 + 32 \<le> length bs" using d(8) by simp
  then have "length (pvEmitterAddress v) = 32" by (simp add: em length_bslice)
  then have "vaa_wf v" using d by (simp add: vaa_wf_def)
  moreover have e: "drop 0 bs = nat_le 1 (pvVersion v) @ drop o1 bs"
    "drop o1 bs = nat_be 4 (pvGuardianSetIndex v) @ drop o2 bs" "drop o2 bs = nat_le 1 n @ drop o3 bs"
    "drop o3 bs = concat (pvSignatures v) @ drop o4 bs" "drop o4 bs = nat_be 4 (pvTimestamp v) @ drop o5 bs"
    "drop o5 bs = nat_be 4 (pvNonce v) @ drop o6 bs" "drop o6 bs = nat_be 2 (pvEmitterChain v) @ drop o7 bs"
    "drop (o7 + 32) bs = nat_be 8 (pvSequence v) @ drop o8 bs"
    "drop o8 bs = nat_le 1 (pvConsistencyLevel v) @ drop o9 bs" "length (pvSignatures v) = n"
    using d by blast+
  moreover have "drop o7 bs = pvEmitterAddress v @ drop (o7 + 32) bs"
    using drop_split [of o7 "o7 + 32" bs] em by simp
  then have "drop 0 bs = encodeVaa v" by (simp only: encodeVaa_def pay e append_assoc)
  ultimately show ?thesis by simp
qed

text \<open>The VAA parser is exact: it succeeds on precisely the byte strings of the VAA format, and the
  fields it returns are the ones whose encoding is the input. Nothing is skipped, truncated input is
  always refused, and two different VAAs never parse alike.\<close>

theorem parseVaa_exact:
  "parseVaa bs = Inr v \<longleftrightarrow> vaa_wf v \<and> bs = encodeVaa v"
  using parseVaa_enc parseVaa_InrD by blast

lemma parseTransceiver_enc:
  assumes "transceiver_wf t"
  shows "parseTransceiverMessage (encodeTransceiverMessage t @ trailing) = Inr t"
proof -
  let ?buf = "encodeTransceiverMessage t @ trailing"
  have wf: "length (ptSourceNttManager t) = 32" "length (ptRecipientNttManager t) = 32"
    "length (ptNttManagerPayload t) < 65536" "length (ptTransceiverPayload t) < 65536"
    using assms by (simp_all add: transceiver_wf_def)
  have p4: "length WH_TRANSCEIVER_PREFIX = 4" by (simp add: WH_TRANSCEIVER_PREFIX_def)
  have d0: "drop 0 ?buf = WH_TRANSCEIVER_PREFIX @ ptSourceNttManager t @ ptRecipientNttManager t @
     nat_be 2 (length (ptNttManagerPayload t)) @ ptNttManagerPayload t @
     nat_be 2 (length (ptTransceiverPayload t)) @ ptTransceiverPayload t @ trailing"
    by (simp add: encodeTransceiverMessage_def)
  note d1 = drop_rest [OF d0] note d2 = drop_rest [OF d1] note d3 = drop_rest [OF d2] note d4 = drop_rest [OF d3]
  note d5 = drop_rest [OF d4] note d6 = drop_rest [OF d5]
  have long: "length ?buf = 72 + length (ptNttManagerPayload t) + length (ptTransceiverPayload t) + length trailing"
    using wf p4 by (simp add: encodeTransceiverMessage_def)
  show ?thesis
    using drop_bslice [OF d0] drop_bslice [OF d1] drop_bslice [OF d2] be16.dec_enc [OF wf(3) d3] drop_bslice [OF d4]
      be16.dec_enc [OF wf(4) d5] drop_bslice [OF d6] long
    by (simp add: parseTransceiverMessage_def Let_def wf p4 equalBytes_iff ac_simps)
qed

lemma parseNttManager_enc:
  assumes "manager_wf m"
  shows "parseNttManagerMessage (encodeNttManagerMessage m @ trailing) = Inr m"
proof -
  let ?buf = "encodeNttManagerMessage m @ trailing" and ?inner = "encodeNativeTokenTransfer m"
  have wf: "length (pmId m) = 32" "length (pmSender m) = 32" "pmTrimmedAmount m < 256 ^ 8"
    "pmTrimmedDecimals m < 256" "length (pmSourceToken m) = 32" "length (pmTo m) = 32" "pmToChain m < 65536"
    using assms by (simp_all add: manager_wf_def)
  have p4: "length NATIVE_TOKEN_TRANSFER_PREFIX = 4" by (simp add: NATIVE_TOKEN_TRANSFER_PREFIX_def)
  have in79: "length ?inner = 79" using wf p4 by (simp add: encodeNativeTokenTransfer_def)
  have d0: "drop 0 ?buf = pmId m @ pmSender m @ nat_be 2 (length ?inner) @ ?inner @ trailing"
    by (simp add: encodeNttManagerMessage_def)
  note d1 = drop_rest [OF d0] note d2 = drop_rest [OF d1] note d3 = drop_rest [OF d2]
  have e0: "drop 0 ?inner = NATIVE_TOKEN_TRANSFER_PREFIX @ nat_le 1 (pmTrimmedDecimals m) @
     nat_be 8 (pmTrimmedAmount m) @ pmSourceToken m @ pmTo m @ nat_be 2 (pmToChain m) @ []"
    by (simp add: encodeNativeTokenTransfer_def)
  note e1 = drop_rest [OF e0] note e2 = drop_rest [OF e1] note e3 = drop_rest [OF e2] note e4 = drop_rest [OF e3]
  note e5 = drop_rest [OF e4]
  have long: "length ?buf = 145 + length trailing" using wf in79 by (simp add: encodeNttManagerMessage_def)
  have il: "length ?inner < 65536" using in79 by simp
  show ?thesis
    using drop_bslice [OF d0] drop_bslice [OF d1] be16.dec_enc [OF il d2] drop_bslice [OF d3] drop_bslice [OF e0]
      u8.dec_enc [OF wf(4) e1] be64.dec_enc [OF wf(3) e2] drop_bslice [OF e3] drop_bslice [OF e4]
      be16.dec_enc [OF wf(7) e5] long
    by (simp add: parseNttManagerMessage_def Let_def wf p4 equalBytes_iff in79)
qed

lemma inboxItemMessageHash_eq:
  "inboxItemMessageHash env chain wire = keccak256 env (nat_be 2 chain @ wire)"
proof -
  have "put (replicate (2 + length wire) 0) 0 (nat_be 2 chain) = nat_be 2 chain @ replicate (length wire) 0"
    by (simp add: put_def)
  moreover have "put (nat_be 2 chain @ replicate (length wire) 0) 2 wire = nat_be 2 chain @ wire"
    by (simp add: put_def)
  ultimately show ?thesis by (simp only: inboxItemMessageHash_def Let_def)
qed

lemma resolveNttVaa_layers:
  assumes "pubkey_ctor_ok env" "vaa_wf v" "transceiver_wf t" "manager_wf m"
    and "pvPayload v = encodeTransceiverMessage t @ trailing1"
    and "ptNttManagerPayload t = encodeNttManagerMessage m @ trailing2"
  shows "resolveNttVaa env (encodeVaa v) prog transceiver =
    rbind (key_of (fpa env [INBOX_ITEM_SEED, keccak256 env (nat_be 2 (pvEmitterChain v) @ ptNttManagerPayload t)] prog)) (\<lambda>item.
    rbind (key_of (fpa env [TRANSCEIVER_MESSAGE_SEED, nat_be 2 (pvEmitterChain v), pmId m]
             (case transceiver of None \<Rightarrow> prog | Some x \<Rightarrow> x))) (\<lambda>msg.
      Inr \<lparr>rvVaa = v, rvTransceiver = t, rvManager = m, rvFromChain = pvEmitterChain v, rvNttInboxItem = item,
           rvNttTransceiverMessage = msg, rvRecipientOnSolana = pmTo m, rvSenderOnSource = pmSender m\<rparr>))"
proof -
  have "pvEmitterChain v < 65536" "length (pmTo m) = 32" "length (pmSender m) = 32"
    using assms(2,4) by (simp_all add: vaa_wf_def manager_wf_def)
  then show ?thesis
    using parseVaa_enc [OF assms(2)] parseTransceiver_enc [OF assms(3), of trailing1]
      parseNttManager_enc [OF assms(4), of trailing2] assms(1,5,6)
    by (simp add: resolveNttVaa_def inboxItemMessageHash_eq findInboxItemPda_def
        findValidatedTransceiverMessagePda_def chainIdBeBuf_def pubkey_ctor_ok_def)
qed

text \<open>In an environment where every derivation answers, as in the witnesses, the VAA resolves.\<close>

lemma resolveNttVaa_enc:
  assumes "pubkey_ctor_ok env" "env_total env" "vaa_wf v" "transceiver_wf t" "manager_wf m"
    and "pvPayload v = encodeTransceiverMessage t @ trailing1"
    and "ptNttManagerPayload t = encodeNttManagerMessage m @ trailing2"
  shows "\<exists>r. resolveNttVaa env (encodeVaa v) prog transceiver = Inr r \<and>
    rvVaa r = v \<and> rvTransceiver r = t \<and> rvManager r = m \<and> rvFromChain r = pvEmitterChain v \<and>
    rvRecipientOnSolana r = pmTo m \<and> rvSenderOnSource r = pmSender m"
proof -
  have "\<exists>k. key_of (fpa env s p) = Inr k" for s p
    using assms(2) unfolding env_total_def key_of_def by (metis old.prod.case rbind_Inr)
  then obtain f where "\<And>s p. key_of (fpa env s p) = Inr (f s p)" by metis
  then show ?thesis by (simp add: resolveNttVaa_layers [OF assms(1,3-7)])
qed

text \<open>C35. A well-formed signed VAA that wraps a transceiver message that wraps a manager message, either of them followed by
  further bytes, is taken apart exactly: \<open>resolveNttVaa\<close> returns all three layers, the source chain, the
  recipient and the sender, and its two addresses are the ones derived from the seeds of the NTT programs: the
  inbox item from the hash of source chain and manager message, the transceiver message from the source chain
  and the message id, under the transceiver's own program where one is given. No parsing step fails; the only
  errors are those of the two derivations, passed on in this order.\<close>

theorem resolveNttVaa_round_trip:
  assumes "pubkey_ctor_ok env" "vaa_wf v" "transceiver_wf t" "manager_wf m"
    and "pvPayload v = encodeTransceiverMessage t @ trailing1"
    and "ptNttManagerPayload t = encodeNttManagerMessage m @ trailing2"
  shows "resolveNttVaa env (encodeVaa v) prog transceiver =
    rbind (key_of (fpa env [INBOX_ITEM_SEED, keccak256 env (nat_be 2 (pvEmitterChain v) @ ptNttManagerPayload t)] prog)) (\<lambda>item.
    rbind (key_of (fpa env [TRANSCEIVER_MESSAGE_SEED, nat_be 2 (pvEmitterChain v), pmId m]
             (case transceiver of None \<Rightarrow> prog | Some x \<Rightarrow> x))) (\<lambda>msg.
      Inr \<lparr>rvVaa = v, rvTransceiver = t, rvManager = m, rvFromChain = pvEmitterChain v, rvNttInboxItem = item,
           rvNttTransceiverMessage = msg, rvRecipientOnSolana = pmTo m, rvSenderOnSource = pmSender m\<rparr>))"
  by (rule resolveNttVaa_layers [OF assms])

definition model_manager :: "pubkey \<Rightarrow> ParsedNttManagerMessage" where
  "model_manager to = \<lparr>pmId = replicate 32 1, pmSender = replicate 32 2, pmTrimmedAmount = 5, pmTrimmedDecimals = 6,
     pmSourceToken = replicate 32 3, pmTo = to, pmToChain = 1\<rparr>"

definition model_transceiver :: "pubkey \<Rightarrow> ParsedTransceiverMessage" where
  "model_transceiver to = \<lparr>ptSourceNttManager = replicate 32 5, ptRecipientNttManager = replicate 32 6,
     ptNttManagerPayload = encodeNttManagerMessage (model_manager to), ptTransceiverPayload = []\<rparr>"

definition model_vaa :: "pubkey \<Rightarrow> ParsedVaa" where
  "model_vaa to = \<lparr>pvVersion = 1, pvGuardianSetIndex = 4, pvSignatures = [replicate 66 7], pvTimestamp = 8, pvNonce = 9,
     pvEmitterChain = 51, pvEmitterAddress = replicate 32 10, pvSequence = 11, pvConsistencyLevel = 1,
     pvPayload = encodeTransceiverMessage (model_transceiver to)\<rparr>"

lemma model_vaa_wf:
  assumes "length to = 32"
  shows "vaa_wf (model_vaa to)" "transceiver_wf (model_transceiver to)" "manager_wf (model_manager to)"
  using assms
  by (simp_all add: vaa_wf_def model_vaa_def manager_wf_def model_manager_def transceiver_wf_def model_transceiver_def
      encodeNttManagerMessage_def encodeNativeTokenTransfer_def NATIVE_TOKEN_TRANSFER_PREFIX_def)

theorem resolveNttVaa_round_trip_witness:
  "\<exists>r item msg. resolveNttVaa model_env (encodeVaa (model_vaa (replicate 32 4))) [1] (Some [2]) = Inr r \<and>
     rvRecipientOnSolana r = replicate 32 4 \<and> rvSenderOnSource r = replicate 32 2 \<and>
     rvManager r = model_manager (replicate 32 4) \<and>
     fpa model_env [INBOX_ITEM_SEED, keccak256 model_env (nat_be 2 51 @ encodeNttManagerMessage (model_manager (replicate 32 4)))] [1] = Inr item \<and>
     rvNttInboxItem r = fst item \<and>
     fpa model_env [TRANSCEIVER_MESSAGE_SEED, nat_be 2 51, replicate 32 1] [2] = Inr msg \<and> rvNttTransceiverMessage r = fst msg"
proof -
  have "length (replicate 32 4 :: pubkey) = 32" by simp
  note wf = model_vaa_wf [OF this]
  have "\<forall>s p. \<exists>x. fpa model_env s p = Inr x" using model_env_total unfolding env_total_def by blast
  then obtain f where f: "\<And>s p. fpa model_env s p = Inr (f s p)" by metis
  from resolveNttVaa_round_trip [OF model_env_ctor wf, of "[]" "[]" "[1]" "Some [2]"] f show ?thesis
    by (simp add: model_vaa_def model_transceiver_def model_manager_def key_of_def split_beta)
qed

lemma model_vaa_resolves:
  assumes "pubkey_ctor_ok env" "env_total env" "length to = 32"
  shows "\<exists>r. resolveNttVaa env (encodeVaa (model_vaa to)) prog None = Inr r \<and> rvRecipientOnSolana r = to"
proof -
  from resolveNttVaa_enc [OF assms(1,2) model_vaa_wf [OF assms(3)], of "[]" "[]" prog None] show ?thesis
    by (auto simp: model_vaa_def model_transceiver_def model_manager_def)
qed

end
