(* ===== verification/Signed_Intent.thy ===== *)
theory Signed_Intent
  imports Js_Text Constants
begin

text \<open>
  How the user's swap floor travels: the SPL memo (\<open>packages/sdk/src/builders/min-out-memo.ts\<close>) and the signed
  intent (\<open>packages/sdk/src/bridge/signed-intent.ts\<close>). The lenient UTF-8 decoding of \<open>TextDecoder\<close> and the regular
  expression \<open>MIN_OUT_LINE\<close> with the scanning of \<open>matchAll\<close> are written out. Program accounts are not involved;
  an instruction is reduced to its program, its data and, where there are any, its account metas.
\<close>

section \<open>The memo\<close>

definition MEMO_PROGRAM_ID :: pubkey where
  "MEMO_PROGRAM_ID = pk58 ''MemoSq4gqABAXKb96qnH8TysNcWxMyWCqXgDLGmfcHr''"

definition MIN_SWAP_OUT_MEMO_PREFIX :: string where
  "MIN_SWAP_OUT_MEMO_PREFIX = ''onre:mso:''"

text \<open>The program and the data of the memo instruction; its account list is empty.\<close>

definition buildMinSwapOutMemoIx :: "int \<Rightarrow> (pubkey \<times> bytes) result" where
  "buildMinSwapOutMemoIx minSwapOut =
     (if minSwapOut \<le> 0 \<or> minSwapOut > U64_MAX then Inl (Error ''min_swap_out must be a positive u64'')
      else Inr (MEMO_PROGRAM_ID, utf8 (MIN_SWAP_OUT_MEMO_PREFIX @ bigint_toString minSwapOut)))"

definition parseMinSwapOutMemo :: "string \<Rightarrow> int option" where
  "parseMinSwapOutMemo memoText =
     (if \<not> is_prefix MIN_SWAP_OUT_MEMO_PREFIX memoText then None
      else let body = drop (length MIN_SWAP_OUT_MEMO_PREFIX) memoText in
        if \<not> canonical_dec body then None
        else (case BigInt body of
            Inl _ \<Rightarrow> None
          | Inr value \<Rightarrow> if value > U64_MAX then None else Some value))"

lemma BigInt_canonical:
  assumes "canonical_dec s"
  shows "BigInt s = Inr (int (nat_of_dec s))" and "s = bigint_toString (int (nat_of_dec s))"
proof -
  show s: "s = bigint_toString (int (nat_of_dec s))"
    using canonical_dec_unique [OF assms] by (simp add: bigint_toString_def)
  have "BigInt (bigint_toString (int (nat_of_dec s))) = Inr (int (nat_of_dec s))" by simp
  with s show "BigInt s = Inr (int (nat_of_dec s))" by simp
qed

lemma canonical_toString: "0 \<le> n \<Longrightarrow> canonical_dec (bigint_toString n)"
  by (simp add: bigint_toString_def canonical_dec_of_nat)

lemma parseMinSwapOutMemo_build:
  "0 \<le> n \<Longrightarrow> n \<le> U64_MAX \<Longrightarrow> parseMinSwapOutMemo (MIN_SWAP_OUT_MEMO_PREFIX @ bigint_toString n) = Some n"
  by (simp add: parseMinSwapOutMemo_def is_prefix_def canonical_toString)

text \<open>The memo parser accepts exactly the canonical memos of u64 values: a text parses to a floor if and
  only if it is the prefix followed by that floor's plain decimal. So every memo the builder makes is
  read back, and no second spelling of a number (sign, padding, radix, white space) is let through.\<close>

theorem parseMinSwapOutMemo_exact:
  "parseMinSwapOutMemo t = Some n \<longleftrightarrow>
     0 \<le> n \<and> n \<le> U64_MAX \<and> t = MIN_SWAP_OUT_MEMO_PREFIX @ bigint_toString n"
proof
  assume p: "parseMinSwapOutMemo t = Some n"
  let ?body = "drop (length MIN_SWAP_OUT_MEMO_PREFIX) t"
  from p have pre: "is_prefix MIN_SWAP_OUT_MEMO_PREFIX t" and c: "canonical_dec ?body"
    by (auto simp: parseMinSwapOutMemo_def Let_def split: if_splits)
  with p have n: "n = int (nat_of_dec ?body)" "n \<le> U64_MAX"
    by (auto simp: parseMinSwapOutMemo_def Let_def BigInt_canonical(1) split: if_splits)
  have "t = MIN_SWAP_OUT_MEMO_PREFIX @ ?body"
    using pre unfolding is_prefix_def by (metis append_take_drop_id)
  then show "0 \<le> n \<and> n \<le> U64_MAX \<and> t = MIN_SWAP_OUT_MEMO_PREFIX @ bigint_toString n"
    using n BigInt_canonical(2) [OF c] by simp
next
  assume "0 \<le> n \<and> n \<le> U64_MAX \<and> t = MIN_SWAP_OUT_MEMO_PREFIX @ bigint_toString n"
  then show "parseMinSwapOutMemo t = Some n" by (simp add: parseMinSwapOutMemo_build)
qed

section \<open>Messages inside an Ed25519 instruction\<close>

definition ED25519_ENTRY_LEN :: nat where "ED25519_ENTRY_LEN = 14"
definition ED25519_COUNT_LEN :: nat where "ED25519_COUNT_LEN = 2"
definition MESSAGE_OFFSET_AT :: nat where "MESSAGE_OFFSET_AT = 8"
definition MESSAGE_SIZE_AT :: nat where "MESSAGE_SIZE_AT = 10"
definition MESSAGE_IX_INDEX_AT :: nat where "MESSAGE_IX_INDEX_AT = 12"
definition CURRENT_IX :: nat where "CURRENT_IX = 0xFFFF"

lemmas ed25519_consts = ED25519_ENTRY_LEN_def ED25519_COUNT_LEN_def MESSAGE_OFFSET_AT_def MESSAGE_SIZE_AT_def
  MESSAGE_IX_INDEX_AT_def CURRENT_IX_def

definition u16_at :: "bytes \<Rightarrow> nat \<Rightarrow> nat" where
  "u16_at bs off = le_nat (bslice bs off (off + 2))"

text \<open>The loop over the entries; \<open>i\<close> is the index and the first argument the entries left.\<close>

fun inlineMessagesFrom :: "nat \<Rightarrow> nat \<Rightarrow> bytes \<Rightarrow> bytes list" where
  "inlineMessagesFrom 0 i ixData = []"
| "inlineMessagesFrom (Suc n) i ixData =
     (let entry = ED25519_COUNT_LEN + i * ED25519_ENTRY_LEN in
      if entry + ED25519_ENTRY_LEN > length ixData then []
      else if u16_at ixData (entry + MESSAGE_IX_INDEX_AT) \<noteq> CURRENT_IX then inlineMessagesFrom n (i + 1) ixData
      else
        let offset = u16_at ixData (entry + MESSAGE_OFFSET_AT);
            size = u16_at ixData (entry + MESSAGE_SIZE_AT)
        in if offset + size > length ixData then inlineMessagesFrom n (i + 1) ixData
           else bslice ixData offset (offset + size) # inlineMessagesFrom n (i + 1) ixData)"

definition ed25519InlineMessages :: "bytes \<Rightarrow> bytes list" where
  "ed25519InlineMessages ixData =
     (if length ixData < ED25519_COUNT_LEN then []
      else inlineMessagesFrom (unat (ixData ! 0)) 0 ixData)"

section \<open>\<open>new TextDecoder().decode(bytes)\<close>\<close>

text \<open>The WHATWG UTF-8 decoder, without the fatal flag: the bytes of the sequence under way, how many are
  still needed, and the bounds of the next one. A malformed sequence gives U+FFFD, whose UTF-8 form is
  EF BF BD; a leading byte-order mark is dropped.\<close>

record utf8_state =
  usPending :: string
  usNeeded :: nat
  usLower :: nat
  usUpper :: nat

definition utf8_init :: utf8_state where
  "utf8_init = \<lparr>usPending = [], usNeeded = 0, usLower = 0x80, usUpper = 0xBF\<rparr>"

definition replacement :: string where
  "replacement = map char_of [0xEF, 0xBF, 0xBD :: nat]"

definition utf8_lead :: "nat \<Rightarrow> string \<times> utf8_state" where
  "utf8_lead b =
     (if b \<le> 0x7F then ([char_of b], utf8_init)
      else if 0xC2 \<le> b \<and> b \<le> 0xDF then
        ([], \<lparr>usPending = [char_of b], usNeeded = 1, usLower = 0x80, usUpper = 0xBF\<rparr>)
      else if 0xE0 \<le> b \<and> b \<le> 0xEF then
        ([], \<lparr>usPending = [char_of b], usNeeded = 2, usLower = (if b = 0xE0 then 0xA0 else 0x80),
             usUpper = (if b = 0xED then 0x9F else 0xBF)\<rparr>)
      else if 0xF0 \<le> b \<and> b \<le> 0xF4 then
        ([], \<lparr>usPending = [char_of b], usNeeded = 3, usLower = (if b = 0xF0 then 0x90 else 0x80),
             usUpper = (if b = 0xF4 then 0x8F else 0xBF)\<rparr>)
      else (replacement, utf8_init))"

definition utf8_step :: "utf8_state \<Rightarrow> nat \<Rightarrow> string \<times> utf8_state" where
  "utf8_step st b =
     (if usNeeded st = 0 then utf8_lead b
      else if usLower st \<le> b \<and> b \<le> usUpper st then
        (if usNeeded st = 1 then (usPending st @ [char_of b], utf8_init)
         else ([], \<lparr>usPending = usPending st @ [char_of b], usNeeded = usNeeded st - 1,
                    usLower = 0x80, usUpper = 0xBF\<rparr>))
      else (let (out, st') = utf8_lead b in (replacement @ out, st')))"

fun utf8_run :: "utf8_state \<Rightarrow> bytes \<Rightarrow> string" where
  "utf8_run st [] = (if usNeeded st = 0 then [] else replacement)"
| "utf8_run st (b # bs) = (let (out, st') = utf8_step st (unat b) in out @ utf8_run st' bs)"

definition textDecode :: "bytes \<Rightarrow> string" where
  "textDecode bs = utf8_run utf8_init (if take 3 bs = [0xEF, 0xBB, 0xBF] then drop 3 bs else bs)"

section \<open>\<open>MIN_OUT_LINE\<close> and \<open>matchAll\<close>\<close>

text \<open>
  One attempt of \<open>/(?:^|\\n)min_out: (0|[1-9]\\d*)(?:\\r?\\n|$)/\<close> at a position; \<open>atStart\<close> tells whether the position is
  the start of the text. The result is the captured digits and the text behind the match. The digits
  are the maximal run, since a shorter one would be followed by a digit and not by a line end.
\<close>

definition MIN_OUT_KEY :: string where
  "MIN_OUT_KEY = ''min_out: ''"

definition newline :: char where
  "newline = CHR 0x0A"

definition lineStart :: "bool \<Rightarrow> string \<Rightarrow> string option" where
  "lineStart atStart s =
     (if atStart \<and> is_prefix MIN_OUT_KEY s then Some (drop (length MIN_OUT_KEY) s)
      else (case s of
          c # t \<Rightarrow> if c = newline \<and> is_prefix MIN_OUT_KEY t then Some (drop (length MIN_OUT_KEY) t) else None
        | [] \<Rightarrow> None))"

definition captureDigits :: "string \<Rightarrow> (string \<times> string) option" where
  "captureDigits s =
     (case s of
        [] \<Rightarrow> None
      | c # cs \<Rightarrow>
          if c = CHR ''0'' then Some ([c], cs)
          else if is_digit c then Some (takeWhile is_digit s, dropWhile is_digit s)
          else None)"

definition lineEnd :: "string \<Rightarrow> string option" where
  "lineEnd s =
     (case s of
        [] \<Rightarrow> Some []
      | c # cs \<Rightarrow>
          if c = newline then Some cs
          else if c = CHR 0x0D then (case cs of d # ds \<Rightarrow> if d = newline then Some ds else None | [] \<Rightarrow> None)
          else None)"

definition matchMinOut :: "bool \<Rightarrow> string \<Rightarrow> (string \<times> string) option" where
  "matchMinOut atStart s =
     (case lineStart atStart s of
        None \<Rightarrow> None
      | Some t \<Rightarrow> (case captureDigits t of
          None \<Rightarrow> None
        | Some (digits, u) \<Rightarrow> (case lineEnd u of None \<Rightarrow> None | Some rest \<Rightarrow> Some (digits, rest))))"

lemma lineStart_shorter: "lineStart a s = Some t \<Longrightarrow> length t < length s"
proof -
  assume "lineStart a s = Some t"
  moreover have "length (drop (length MIN_OUT_KEY) u) < length u" if "is_prefix MIN_OUT_KEY u" for u
  proof -
    have "MIN_OUT_KEY \<noteq> []" by (simp add: MIN_OUT_KEY_def)
    with that have "u \<noteq> []" unfolding is_prefix_def by auto
    then show ?thesis by (simp add: MIN_OUT_KEY_def)
  qed
  ultimately show ?thesis
    by (fastforce simp: lineStart_def split: if_splits list.splits)
qed

lemma captureDigits_shorter: "captureDigits t = Some (d, u) \<Longrightarrow> length u < length t"
proof -
  assume a: "captureDigits t = Some (d, u)"
  then obtain c cs where t: "t = c # cs" by (cases t) (auto simp: captureDigits_def)
  have "length (dropWhile is_digit cs) \<le> length cs" by (rule length_dropWhile_le)
  with a t show ?thesis by (auto simp: captureDigits_def split: if_splits)
qed

lemma lineEnd_le: "lineEnd u = Some r \<Longrightarrow> length r \<le> length u"
  by (auto simp: lineEnd_def split: list.splits if_splits)

lemma matchMinOut_shorter: "matchMinOut a s = Some (d, r) \<Longrightarrow> length r < length s"
  by (auto simp: matchMinOut_def split: option.splits)
     (use lineStart_shorter captureDigits_shorter lineEnd_le in \<open>meson le_less_trans less_trans\<close>)

function matchAllMinOut :: "bool \<Rightarrow> string \<Rightarrow> string list" where
  "matchAllMinOut atStart s =
     (case matchMinOut atStart s of
        Some (digits, rest) \<Rightarrow> digits # matchAllMinOut False rest
      | None \<Rightarrow> (case s of [] \<Rightarrow> [] | c # cs \<Rightarrow> matchAllMinOut False cs))"
  by pat_completeness auto
termination
  by (relation "measure (\<lambda>(_, s). length s)") (auto dest: matchMinOut_shorter)

declare matchAllMinOut.simps [simp del]

fun collectFloors :: "string list \<Rightarrow> int list \<Rightarrow> int list" where
  "collectFloors [] floors = floors"
| "collectFloors (digits # ds) floors =
     (let value = int (nat_of_dec digits) in
      if value \<le> U64_MAX \<and> value \<notin> set floors then collectFloors ds (floors @ [value])
      else collectFloors ds floors)"

definition parseSignedMinOuts :: "bytes \<Rightarrow> int list" where
  "parseSignedMinOuts message = collectFloors (matchAllMinOut True (textDecode message)) []"

section \<open>Scanning lemmas\<close>

definition ascii :: "string \<Rightarrow> bool" where
  "ascii s \<longleftrightarrow> list_all (\<lambda>c. (of_char c :: nat) < 128) s"

lemma utf8_run_ascii: "ascii s \<Longrightarrow> utf8_run utf8_init (utf8 s @ bs) = s @ utf8_run utf8_init bs"
proof (induction s)
  case (Cons c s)
  have b: "unat (of_nat (of_char c) :: byte) = of_char c"
    by (simp add: unat_byte_of_nat of_char_less_256)
  have "utf8_step utf8_init (of_char c) = ([c], utf8_init)"
    using Cons.prems by (simp add: ascii_def utf8_step_def utf8_init_def utf8_lead_def)
  with Cons b show ?case by (simp add: utf8_def ascii_def)
qed simp

lemma textDecode_ascii: "ascii s \<Longrightarrow> textDecode (utf8 s) = s"
proof (cases s)
  case (Cons c cs)
  assume a: "ascii s"
  with Cons have "unat (of_nat (of_char c) :: byte) < 128"
    by (simp add: ascii_def unat_byte_of_nat of_char_less_256)
  then have "(of_nat (of_char c) :: byte) \<noteq> 0xEF" by auto
  with Cons have "take 3 (utf8 s) \<noteq> [0xEF, 0xBB, 0xBF]" by (simp add: utf8_def numeral_eq_Suc)
  with utf8_run_ascii [OF a, of "[]"] show ?thesis
    by (simp add: textDecode_def utf8_init_def)
qed (simp add: textDecode_def utf8_init_def)

lemma scan_skip_char: "c \<noteq> newline \<Longrightarrow> matchAllMinOut False (c # t) = matchAllMinOut False t"
  by (subst matchAllMinOut.simps) (simp add: matchMinOut_def lineStart_def)

lemma scan_skip: "newline \<notin> set s \<Longrightarrow> matchAllMinOut False (s @ t) = matchAllMinOut False t"
  by (induction s) (auto simp: scan_skip_char)

lemma scan_nil: "matchAllMinOut False [] = []"
  by (subst matchAllMinOut.simps) (simp add: matchMinOut_def lineStart_def)

lemma scan_newline:
  "\<not> is_prefix MIN_OUT_KEY t \<Longrightarrow> matchAllMinOut False (newline # t) = matchAllMinOut False t"
  by (subst matchAllMinOut.simps) (simp add: matchMinOut_def lineStart_def)

lemma scan_start: "\<not> is_prefix MIN_OUT_KEY s \<Longrightarrow> s \<noteq> [] \<Longrightarrow> hd s \<noteq> newline \<Longrightarrow>
    matchAllMinOut True s = matchAllMinOut False s"
proof -
  assume a: "\<not> is_prefix MIN_OUT_KEY s" "s \<noteq> []" "hd s \<noteq> newline"
  then obtain c cs where "s = c # cs" by (cases s) auto
  with a have "matchAllMinOut True s = matchAllMinOut False cs"
    by (subst matchAllMinOut.simps) (simp add: matchMinOut_def lineStart_def)
  with a \<open>s = c # cs\<close> show ?thesis by (simp add: scan_skip_char)
qed

lemma newline_not_digit: "\<not> is_digit newline"
  by (simp add: is_digit_def newline_def)

lemma captureDigits_canonical:
  assumes "canonical_dec d"
  shows "captureDigits (d @ newline # r) = Some (d, newline # r)"
proof (cases "d = ''0''")
  case False
  with assms have d: "d \<noteq> []" "hd d \<noteq> CHR ''0''" "list_all is_digit d" by (auto simp: canonical_dec_def)
  then obtain c cs where c: "d = c # cs" by (cases d) auto
  have "takeWhile is_digit (d @ newline # r) = d" "dropWhile is_digit (d @ newline # r) = newline # r"
    using d(3) newline_not_digit by (simp_all add: list_all_iff takeWhile_append2 dropWhile_append2)
  with c d show ?thesis by (simp add: captureDigits_def)
qed (simp add: captureDigits_def)

lemma scan_match:
  assumes "canonical_dec d"
  shows "matchAllMinOut False (newline # MIN_OUT_KEY @ d @ newline # r) = d # matchAllMinOut False r"
  using captureDigits_canonical [OF assms, of r]
  by (subst matchAllMinOut.simps) (simp add: matchMinOut_def lineStart_def is_prefix_def lineEnd_def)

lemma scan_match_start:
  assumes "canonical_dec d"
  shows "matchAllMinOut True (MIN_OUT_KEY @ d @ newline # r) = d # matchAllMinOut False r"
  using captureDigits_canonical [OF assms, of r]
  by (subst matchAllMinOut.simps) (simp add: matchMinOut_def lineStart_def is_prefix_def lineEnd_def)

text \<open>Plain one-line text.\<close>

definition clean :: "string \<Rightarrow> bool" where
  "clean s \<longleftrightarrow> ascii s \<and> newline \<notin> set s"

lemma clean_append: "clean (s @ t) \<longleftrightarrow> clean s \<and> clean t"
  by (auto simp: clean_def ascii_def)

lemma clean_dec: "clean (dec_of_nat n)"
proof -
  have "is_digit c \<Longrightarrow> (of_char c :: nat) < 128 \<and> c \<noteq> newline" for c
    using newline_not_digit by (auto simp: is_digit_def)
  then show ?thesis using dec_of_nat_digits [of n] by (auto simp: clean_def ascii_def list_all_iff)
qed

lemma clean_toString: "clean (bigint_toString v)"
  using clean_dec by (simp add: bigint_toString_def clean_def ascii_def newline_def)

lemma memo_text: "textDecode (utf8 (MIN_SWAP_OUT_MEMO_PREFIX @ bigint_toString n)) = MIN_SWAP_OUT_MEMO_PREFIX @ bigint_toString n"
  using clean_toString [of n] by (intro textDecode_ascii) (simp add: clean_def ascii_def MIN_SWAP_OUT_MEMO_PREFIX_def)

text \<open>
  \<open>parseSignedMinOuts\<close> promises every floor the message states. The pattern consumes the line end, so a
  second \<open>min_out\<close> line directly below the first has no line start left to match and is passed over.
\<close>

theorem adjacent_min_out_missed:
  "parseSignedMinOuts (utf8 (MIN_OUT_KEY @ ''1'' @ [newline] @ MIN_OUT_KEY @ ''2'' @ [newline])) = [1]"
proof -
  have a: "ascii (MIN_OUT_KEY @ ''1'' @ [newline] @ MIN_OUT_KEY @ ''2'' @ [newline])"
    by (simp add: ascii_def MIN_OUT_KEY_def newline_def)
  have "newline \<notin> set (MIN_OUT_KEY @ ''2'')" by (simp add: MIN_OUT_KEY_def newline_def)
  from scan_skip [OF this, of "[newline]"]
  have "matchAllMinOut False (MIN_OUT_KEY @ ''2'' @ [newline]) = matchAllMinOut False [newline]" by simp
  also have "\<dots> = []" using scan_newline [of "[]"] by (simp add: scan_nil is_prefix_def MIN_OUT_KEY_def)
  finally have "matchAllMinOut True (MIN_OUT_KEY @ ''1'' @ newline # MIN_OUT_KEY @ ''2'' @ [newline]) = [''1'']"
    using scan_match_start [of "''1''" "MIN_OUT_KEY @ ''2'' @ [newline]"]
    by (simp add: canonical_dec_def is_digit_def)
  then show ?thesis
    unfolding parseSignedMinOuts_def textDecode_ascii [OF a] by (simp add: digit_val_def U64_MAX_def)
qed

end
