(* ===== verification/Wallet_Recovery.thy ===== *)
theory Wallet_Recovery
  imports Signed_Intent Codec
begin

text \<open>
  Recovery of the user's wallet and swap floor from the FOGO source transaction
  (\<open>packages/sdk/src/bridge/wallet-recovery.ts\<close>). The RPC connection is a record of two queries; a failing
  query propagates, an absent transaction or account is \<open>None\<close>.
\<close>

record CompiledIx =
  ciProgramIdIndex :: nat
  ciAccountKeyIndexes :: "nat list"
  ciData :: bytes

record ParsedTx =
  ptKeys :: "nat \<Rightarrow> pubkey option"
  ptIxs :: "CompiledIx list"

record fogo_connection =
  fcGetTransaction :: "string \<Rightarrow> ParsedTx option result"
  fcGetAccountData :: "pubkey \<Rightarrow> bytes option result"

definition DEFAULT_INTENT_PROGRAM_IDS :: "pubkey list" where
  "DEFAULT_INTENT_PROGRAM_IDS = [ONRE_INTENT_PROGRAM_ID, INTENT_TRANSFER_PROGRAM_ID]"

definition fetchParsedTx :: "fogo_connection \<Rightarrow> string \<Rightarrow> ParsedTx option result" where
  "fetchParsedTx conn fogoTx = (if fogoTx = [] then Inr None else fcGetTransaction conn fogoTx)"

fun walletsFromIxs ::
  "web3_env \<Rightarrow> fogo_connection \<Rightarrow> (nat \<Rightarrow> pubkey option) \<Rightarrow> pubkey list \<Rightarrow> CompiledIx list \<Rightarrow> pubkey list \<Rightarrow>
   pubkey list result" where
  "walletsFromIxs env conn keys progs [] wallets = Inr wallets"
| "walletsFromIxs env conn keys progs (ix # ixs) wallets =
     (case keys (ciProgramIdIndex ix) of
        None \<Rightarrow> walletsFromIxs env conn keys progs ixs wallets
      | Some programId \<Rightarrow>
          if programId \<notin> set progs \<or> length (ciAccountKeyIndexes ix) \<le> 3
          then walletsFromIxs env conn keys progs ixs wallets
          else (case keys (ciAccountKeyIndexes ix ! 3) of
              None \<Rightarrow> walletsFromIxs env conn keys progs ixs wallets
            | Some sourceAta \<Rightarrow>
                rbind (fcGetAccountData conn sourceAta) (\<lambda>ataInfo.
                  case ataInfo of
                    None \<Rightarrow> walletsFromIxs env conn keys progs ixs wallets
                  | Some data \<Rightarrow>
                      if length data < 64 then walletsFromIxs env conn keys progs ixs wallets
                      else rbind (newPublicKey env (bslice data 32 64)) (\<lambda>wallet.
                        walletsFromIxs env conn keys progs ixs
                          (if wallet \<in> set wallets then wallets else wallets @ [wallet])))))"

definition allWalletsFromParsedTx ::
  "web3_env \<Rightarrow> fogo_connection \<Rightarrow> ParsedTx \<Rightarrow> pubkey list \<Rightarrow> pubkey list result" where
  "allWalletsFromParsedTx env conn parsed intentProgramIds =
     walletsFromIxs env conn (ptKeys parsed) intentProgramIds (ptIxs parsed) []"

definition add_floor :: "int \<Rightarrow> int list \<Rightarrow> int list" where
  "add_floor v floors = (if v \<in> set floors then floors else floors @ [v])"

definition floorsOfIx :: "pubkey \<Rightarrow> (nat \<Rightarrow> pubkey option) \<Rightarrow> CompiledIx \<Rightarrow> int list" where
  "floorsOfIx ed25519ProgramId keys ix =
     (case keys (ciProgramIdIndex ix) of
        None \<Rightarrow> []
      | Some programId \<Rightarrow>
          if programId = ed25519ProgramId
          then concat (map parseSignedMinOuts (ed25519InlineMessages (ciData ix)))
          else if programId \<noteq> MEMO_PROGRAM_ID then []
          else (case parseMinSwapOutMemo (textDecode (ciData ix)) of None \<Rightarrow> [] | Some v \<Rightarrow> [v]))"

definition allMinOutsFromParsedTx :: "pubkey \<Rightarrow> ParsedTx \<Rightarrow> int list" where
  "allMinOutsFromParsedTx ed25519ProgramId parsed =
     fold (\<lambda>ix floors. fold add_floor (floorsOfIx ed25519ProgramId (ptKeys parsed) ix) floors) (ptIxs parsed) []"

definition deriveUserWalletFromFogoTx ::
  "web3_env \<Rightarrow> fogo_connection \<Rightarrow> string \<Rightarrow> pubkey list \<Rightarrow> pubkey option result" where
  "deriveUserWalletFromFogoTx env conn fogoTx intentProgramIds =
     rbind (fetchParsedTx conn fogoTx) (\<lambda>parsed.
       case parsed of
         None \<Rightarrow> Inr None
       | Some tx \<Rightarrow> rbind (allWalletsFromParsedTx env conn tx intentProgramIds) (\<lambda>ws.
           Inr (case ws of [] \<Rightarrow> None | w # _ \<Rightarrow> Some w)))"

record RecoveredWalletAndMinOut =
  rwUserWallet :: pubkey
  rwMinSwapOut :: int

definition recoverWalletAndMinOutCandidates ::
  "web3_env \<Rightarrow> pubkey \<Rightarrow> fogo_connection \<Rightarrow> string \<Rightarrow> pubkey list \<Rightarrow> RecoveredWalletAndMinOut list result" where
  "recoverWalletAndMinOutCandidates env ed25519ProgramId conn fogoTx intentProgramIds =
     rbind (fetchParsedTx conn fogoTx) (\<lambda>parsed.
       case parsed of
         None \<Rightarrow> Inr []
       | Some tx \<Rightarrow>
           let minOuts = allMinOutsFromParsedTx ed25519ProgramId tx in
           if minOuts = [] then Inr []
           else rbind (allWalletsFromParsedTx env conn tx intentProgramIds) (\<lambda>wallets.
             Inr (concat (map (\<lambda>w. map (\<lambda>m. \<lparr>rwUserWallet = w, rwMinSwapOut = m\<rparr>) minOuts) wallets))))"

definition recoverUserWalletAndMinOut ::
  "web3_env \<Rightarrow> pubkey \<Rightarrow> fogo_connection \<Rightarrow> string \<Rightarrow> pubkey list \<Rightarrow> RecoveredWalletAndMinOut option result" where
  "recoverUserWalletAndMinOut env ed25519ProgramId conn fogoTx intentProgramIds =
     rbind (recoverWalletAndMinOutCandidates env ed25519ProgramId conn fogoTx intentProgramIds) (\<lambda>cs.
       Inr (case cs of [] \<Rightarrow> None | c # _ \<Rightarrow> Some c))"

section \<open>Every stated floor and every source wallet is a candidate\<close>

lemma set_fold_add: "set (fold add_floor vs floors) = set floors \<union> set vs"
  by (induction vs arbitrary: floors) (auto simp: add_floor_def)

lemma set_fold_ixs:
  "set (fold (\<lambda>ix floors. fold add_floor (g ix) floors) ixs floors) = set floors \<union> (\<Union>ix \<in> set ixs. set (g ix))"
  by (induction ixs arbitrary: floors) (auto simp: set_fold_add)

lemma set_allMinOuts:
  "set (allMinOutsFromParsedTx ed tx) = (\<Union>ix \<in> set (ptIxs tx). set (floorsOfIx ed (ptKeys tx) ix))"
  by (simp add: allMinOutsFromParsedTx_def set_fold_ixs)

text \<open>A bridge instruction of the transaction whose source account is owned by \<open>w\<close>.\<close>

definition bridges_from :: "web3_env \<Rightarrow> fogo_connection \<Rightarrow> (nat \<Rightarrow> pubkey option) \<Rightarrow> pubkey list \<Rightarrow> pubkey \<Rightarrow> CompiledIx \<Rightarrow> bool" where
  "bridges_from env conn keys progs w ix \<longleftrightarrow>
     (\<exists>p ata data. keys (ciProgramIdIndex ix) = Some p \<and> p \<in> set progs \<and> 3 < length (ciAccountKeyIndexes ix) \<and>
        keys (ciAccountKeyIndexes ix ! 3) = Some ata \<and> fcGetAccountData conn ata = Inr (Some data) \<and>
        64 \<le> length data \<and> newPublicKey env (bslice data 32 64) = Inr w)"

lemma walletsFromIxs_mono:
  "walletsFromIxs env conn keys progs ixs ws = Inr ws' \<Longrightarrow> set ws \<subseteq> set ws'"
proof (induction ixs arbitrary: ws)
  case (Cons ix ixs)
  then show ?case
    by (fastforce simp: result_simps split: option.splits if_splits)
qed simp

lemma walletsFromIxs_complete:
  "walletsFromIxs env conn keys progs ixs ws = Inr ws' \<Longrightarrow> ix \<in> set ixs \<Longrightarrow> bridges_from env conn keys progs w ix \<Longrightarrow>
     w \<in> set ws'"
proof (induction ixs arbitrary: ws)
  case (Cons x ixs)
  show ?case
  proof (cases "ix = x")
    case True
    with Cons.prems have "walletsFromIxs env conn keys progs ixs (if w \<in> set ws then ws else ws @ [w]) = Inr ws'"
      by (auto simp: bridges_from_def)
    from walletsFromIxs_mono [OF this] show ?thesis by (auto split: if_splits)
  next
    case False
    with Cons.prems(2) have "ix \<in> set ixs" by simp
    moreover from Cons.prems(1) obtain vs where "walletsFromIxs env conn keys progs ixs vs = Inr ws'"
      by (auto simp: result_simps split: option.splits if_splits)
    ultimately show ?thesis using Cons.IH Cons.prems(3) by blast
  qed
qed simp

lemma recover_mem:
  assumes "fogoTx \<noteq> []" "fcGetTransaction conn fogoTx = Inr (Some tx)"
    and "recoverWalletAndMinOutCandidates env ed conn fogoTx progs = Inr cs"
    and "ix \<in> set (ptIxs tx)" "bridges_from env conn (ptKeys tx) progs w ix"
    and "ix' \<in> set (ptIxs tx)" "m \<in> set (floorsOfIx ed (ptKeys tx) ix')"
  shows "\<lparr>rwUserWallet = w, rwMinSwapOut = m\<rparr> \<in> set cs"
proof -
  have m: "m \<in> set (allMinOutsFromParsedTx ed tx)" using assms(6,7) by (auto simp: set_allMinOuts)
  with assms(1-3) obtain ws where ws: "walletsFromIxs env conn (ptKeys tx) progs (ptIxs tx) [] = Inr ws"
    and cs: "cs = concat (map (\<lambda>w. map (\<lambda>m. \<lparr>rwUserWallet = w, rwMinSwapOut = m\<rparr>)
        (allMinOutsFromParsedTx ed tx)) ws)"
    by (auto simp: recoverWalletAndMinOutCandidates_def fetchParsedTx_def allWalletsFromParsedTx_def Let_def
        result_simps split: if_splits)
  from walletsFromIxs_complete [OF ws assms(4,5)] m show ?thesis by (auto simp: cs)
qed

text \<open>Recovery is complete: when it returns, its candidates include every pair of a wallet that owns
  the source account of some bridge instruction and a floor that some signed message or memo of the
  transaction states. A decoy memo or an extra bridge instruction can add candidates but cannot hide one.\<close>

theorem recovery_complete:
  assumes "fogoTx \<noteq> []" "fcGetTransaction conn fogoTx = Inr (Some tx)"
    and "recoverWalletAndMinOutCandidates env ed conn fogoTx progs = Inr cs"
    and "ix \<in> set (ptIxs tx)" "bridges_from env conn (ptKeys tx) progs w ix"
    and "ix' \<in> set (ptIxs tx)" "m \<in> set (floorsOfIx ed (ptKeys tx) ix')"
  shows "\<lparr>rwUserWallet = w, rwMinSwapOut = m\<rparr> \<in> set cs"
  using recover_mem [OF assms] .

theorem recovery_complete_witness:
  "\<exists>conn cs. recoverWalletAndMinOutCandidates model_env [] conn ''tx'' [INTENT_TRANSFER_PROGRAM_ID] = Inr cs \<and>
     \<lparr>rwUserWallet = replicate 32 9, rwMinSwapOut = 5\<rparr> \<in> set cs"
proof -
  let ?keys = "\<lambda>i. if i = 0 then Some INTENT_TRANSFER_PROGRAM_ID else if i = 1 then Some (replicate 32 7)
      else if i = 2 then Some MEMO_PROGRAM_ID else None"
  let ?b = "\<lparr>ciProgramIdIndex = 0, ciAccountKeyIndexes = [0, 0, 0, 1], ciData = []\<rparr>"
  let ?m = "\<lparr>ciProgramIdIndex = 2, ciAccountKeyIndexes = [],
             ciData = utf8 (MIN_SWAP_OUT_MEMO_PREFIX @ bigint_toString 5)\<rparr>"
  let ?tx = "\<lparr>ptKeys = ?keys, ptIxs = [?b, ?m]\<rparr>"
  let ?conn = "\<lparr>fcGetTransaction = \<lambda>_. Inr (Some ?tx),
                fcGetAccountData = \<lambda>_. Inr (Some (replicate 32 1 @ replicate 32 9))\<rparr>"
  have slice: "bslice (replicate 32 1 @ replicate 32 9) 32 64 = replicate 32 9" by (simp add: bslice_def)
  have pk: "newPublicKey model_env (replicate 32 9) = Inr (replicate 32 9)" by (simp add: model_env_def)
  have "MEMO_PROGRAM_ID \<noteq> []" using length_pk58 by (metis MEMO_PROGRAM_ID_def list.size(3) zero_neq_numeral)
  then have fl: "5 \<in> set (floorsOfIx [] ?keys ?m)"
    by (simp add: floorsOfIx_def memo_text [simplified] parseMinSwapOutMemo_build U64_MAX_def)
  have br: "bridges_from model_env ?conn ?keys [INTENT_TRANSFER_PROGRAM_ID] (replicate 32 9) ?b"
    using slice pk by (simp add: bridges_from_def)
  have w: "allWalletsFromParsedTx model_env ?conn ?tx [INTENT_TRANSFER_PROGRAM_ID] = Inr [replicate 32 9]"
    using slice pk by (simp add: allWalletsFromParsedTx_def)
  have "\<exists>cs. recoverWalletAndMinOutCandidates model_env [] ?conn ''tx'' [INTENT_TRANSFER_PROGRAM_ID] = Inr cs"
    unfolding recoverWalletAndMinOutCandidates_def fetchParsedTx_def Let_def
    by (cases "allMinOutsFromParsedTx [] ?tx = []") (simp_all add: w [simplified])
  then obtain cs where cs: "recoverWalletAndMinOutCandidates model_env [] ?conn ''tx'' [INTENT_TRANSFER_PROGRAM_ID] = Inr cs"
    by blast
  have "\<lparr>rwUserWallet = replicate 32 9, rwMinSwapOut = 5\<rparr> \<in> set cs"
    by (rule recovery_complete [OF _ _ cs, where tx = ?tx and ix = ?b and ix' = ?m]) (use br fl in simp_all)
  with cs show ?thesis by blast
qed

end
