(* ===== verification/Relayer_Base.thy ===== *)
theory Relayer_Base
  imports Client Onre Jupiter Log Vaa Wallet_Recovery
begin

text \<open>
  What the four legs of the relayer share (\<open>packages/cranker/src/relayer\<close>: \<open>types.ts\<close>, \<open>flow-fetch.ts\<close>,
  \<open>race-classifier.ts\<close>, \<open>top-up.ts\<close>, \<open>account-layouts.ts\<close>, \<open>replay-monitor.ts\<close>, \<open>deriveReleaseAccounts\<close> of
  \<open>send.ts\<close>; \<open>packages/cranker/src/utils\<close>: \<open>rpc.ts\<close>, \<open>priority-fee.ts\<close>, \<open>wormhole.ts\<close>;
  \<open>packages/sdk/src/utils/flow-status.ts\<close>).

  A leg is a computation with three outcomes: it throws, it returns an \<open>AdvanceResult\<close> early, or it goes on.
  The first two are the \<open>exit\<close> of a sum, so that the body of a leg reads as the source does, with \<open>rbind\<close>
  for \<open>await\<close>. RPC queries, the NTT SDK and the submission of a transaction are fields of the context.
\<close>

section \<open>Results\<close>

datatype NoopSeverity = Routine | ConfigGate

datatype AdvanceResult =
    Noop string "NoopSeverity option"
  | Advanced "string list" string string
  | ErrorResult thrown "string list"

datatype exit = Ret AdvanceResult | Throw thrown

type_synonym 'a leg = "exit + 'a"

definition await :: "thrown + 'a \<Rightarrow> 'a leg" where
  "await r = (case r of Inl e \<Rightarrow> Inl (Throw e) | Inr x \<Rightarrow> Inr x)"

definition call :: "'a result \<Rightarrow> 'a leg" where
  "call r = (case r of Inl e \<Rightarrow> Inl (Throw (of_js_error e)) | Inr x \<Rightarrow> Inr x)"

definition return_if :: "bool \<Rightarrow> AdvanceResult \<Rightarrow> unit leg" where
  "return_if b r = (if b then Inl (Ret r) else Inr ())"

lemma await_simps [simp]: "await (Inl e) = Inl (Throw e)" "await (Inr x) = Inr x"
  by (simp_all add: await_def)

lemma call_simps [simp]: "call (Inl e) = Inl (Throw (of_js_error e))" "call (Inr x) = Inr x"
  by (simp_all add: call_def)

lemma await_Inr_iff [result_simps]: "await r = Inr x \<longleftrightarrow> r = Inr x"
  by (cases r) auto

lemma call_Inr_iff [result_simps]: "call r = Inr x \<longleftrightarrow> r = Inr x"
  by (cases r) auto

lemma return_if_Inr_iff [result_simps]: "return_if b r = Inr u \<longleftrightarrow> \<not> b"
  by (simp add: return_if_def)

lemma return_if_simps [simp]: "return_if True r = Inl (Ret r)" "return_if False r = Inr ()"
  by (simp_all add: return_if_def)

lemma option_case_Inr_iff [result_simps]:
  "(case x of None \<Rightarrow> Inl e | Some y \<Rightarrow> f y) = Inr z \<longleftrightarrow> (\<exists>y. x = Some y \<and> f y = Inr z)"
  by (cases x) auto

section \<open>Lost races\<close>

text \<open>The reasons are written with a hyphen where the source has an em dash: strings here are ASCII, and no code reads the reason.\<close>

definition RACE_TABLE :: "(int \<times> string) list" where
  "RACE_TABLE =
     [(6004, ''lost race - swap advanced the flow before refund landed (FlowStatusMismatch, code 6004)''),
      (6022, ''lost race - another cranker drained user_inbox_ata before our claim_usdc landed (InsufficientInboxBalance, code 6022)'')]"

definition isLostRace :: "thrown \<Rightarrow> string option" where
  "isLostRace err =
     (case err of
        Primitive _ \<Rightarrow> None
      | Object e \<Rightarrow>
          (case (case eoCode e of Some c \<Rightarrow> Some c | None \<Rightarrow> eoAnchorNumber e) of
             None \<Rightarrow> None
           | Some code \<Rightarrow> map_of RACE_TABLE code))"

section \<open>Accounts\<close>

record account_info =
  aiOwner :: pubkey
  aiLamports :: int
  aiData :: bytes

definition readSplTokenAmount :: "bytes option \<Rightarrow> int option" where
  "readSplTokenAmount data =
     (case data of None \<Rightarrow> None
      | Some d \<Rightarrow> if length d < 72 then None else Some (int (le_nat (bslice d 64 72))))"

definition readNttInboxAmount :: "bytes option \<Rightarrow> int option" where
  "readNttInboxAmount data =
     (case data of None \<Rightarrow> None
      | Some d \<Rightarrow> if length d < 18 then None else Some (int (le_nat (bslice d 10 18))))"

record FlowAccount =
  flRecipient :: pubkey
  flStatusReceived :: bool
  flStatusSwapped :: bool
  flAmount :: int
  flPayer :: pubkey
  flDirection :: direction
  flMinSwapOut :: int
  flReceivedSlot :: int

datatype FlowStatusName = StReceived | StSwapped | StUnknown

definition describeStatus :: "FlowAccount \<Rightarrow> FlowStatusName" where
  "describeStatus f =
     (if flStatusReceived f then StReceived else if flStatusSwapped f then StSwapped else StUnknown)"

record PairConfig =
  pcBaseMint :: pubkey
  pcAssetMint :: pubkey
  pcFeeVault :: pubkey
  pcNttBaseProgram :: pubkey
  pcNttAssetProgram :: pubkey
  pcWithdrawFeeBps :: int

section \<open>Transactions\<close>

datatype solana_ix =
    SetComputeUnitLimit nat
  | SetComputeUnitPrice int
  | SystemTransfer pubkey pubkey int
  | CreateAtaIdempotent pubkey pubkey pubkey pubkey
  | RelayerIx method_call

definition makePriorityFeeIx :: "int \<Rightarrow> solana_ix" where
  "makePriorityFeeIx microLamports = SetComputeUnitPrice microLamports"

record solana_tx =
  txPayer :: pubkey
  txIxs :: "solana_ix list"
  txLookupTables :: "pubkey list"
  txSigners :: "pubkey list"

section \<open>The context\<close>

datatype PrepareResult = AlreadyPrepared | Prepared "string list" | PrepareError thrown

text \<open>
  \<open>acExpired label\<close> says whether the timer of the \<open>withTimeout\<close> with that label fires before its promise settles.
  \<open>acOperations\<close> is Wormholescan's \<open>operations\<close> endpoint, \<open>acReleaseKeys\<close> the key list of the NTT SDK's
  \<open>release_wormhole_outbound\<close> instruction (\<open>None\<close> when the SDK has no transceiver), \<open>acPrepare\<close> the outcome of
  \<open>prepareTransceiverMessage\<close>, \<open>acGenerate\<close> the fresh key pair of the outbox item, \<open>acSubmit\<close> the submission of a
  transaction up to its confirmation.
\<close>

record AdvanceContext =
  acEnv :: web3_env
  acExpired :: "string \<Rightarrow> bool"
  acClient :: RelayerClient
  acKeypair :: pubkey
  acProviderWallet :: pubkey
  acPriorityFee :: int
  acSendLookupTable :: "pubkey option"
  acNowMs :: int
  acFetchConfig :: "thrown + PairConfig"
  acGetAccountInfo :: "pubkey \<Rightarrow> thrown + account_info option"
  acFetchFlow :: "pubkey \<Rightarrow> thrown + FlowAccount"
  acGetSlot :: "thrown + int"
  acGetLookupTable :: "pubkey \<Rightarrow> thrown + bool"
  acGetLatestBlockhash :: "thrown + string"
  acFogoConnection :: fogo_connection
  acEd25519 :: pubkey
  acWormholescanUrl :: string
  acOperations :: "(string option option list option) fetch"
  acBase64 :: "string \<Rightarrow> bytes"
  acJupiter :: jupiter_api
  acReleaseKeys :: "pubkey \<Rightarrow> pubkey \<Rightarrow> string \<Rightarrow> string \<Rightarrow> pubkey \<Rightarrow> pubkey \<Rightarrow> thrown + pubkey list option"
  acPrepare :: "bytes \<Rightarrow> pubkey \<Rightarrow> pubkey \<Rightarrow> pubkey \<Rightarrow> thrown + PrepareResult"
  acGenerate :: pubkey
  acSubmit :: "solana_tx \<Rightarrow> thrown + string"

definition withTimeout :: "AdvanceContext \<Rightarrow> string \<Rightarrow> thrown + 'a \<Rightarrow> thrown + 'a" where
  "withTimeout ctx label p =
     (if acExpired ctx label then Inl (of_js_error (Error ''timeout exceeded'')) else p)"

definition lift :: "'a result \<Rightarrow> thrown + 'a" where
  "lift r = (case r of Inl e \<Rightarrow> Inl (of_js_error e) | Inr x \<Rightarrow> Inr x)"

lemma lift_simps [simp]: "lift (Inl e) = Inl (of_js_error e)" "lift (Inr x) = Inr x"
  by (simp_all add: lift_def)

lemma lift_Inr_iff [result_simps]: "lift r = Inr x \<longleftrightarrow> r = Inr x"
  by (cases r) auto

lemma withTimeout_Inr_iff [result_simps]: "withTimeout ctx l p = Inr x \<longleftrightarrow> \<not> acExpired ctx l \<and> p = Inr x"
  by (simp add: withTimeout_def)

section \<open>VAA bytes\<close>

definition WORMHOLE_CORE_MAINNET :: string where
  "WORMHOLE_CORE_MAINNET = ''worm2ZoG2kUd4vFXhvjh93UUH596ayRfgQ2MgjNMTth''"

definition DEFAULT_NTT_VERSION :: string where
  "DEFAULT_NTT_VERSION = ''3.0.0''"

definition hex_value :: "char \<Rightarrow> nat" where
  "hex_value c = (case radix_digit 16 c of None \<Rightarrow> 0 | Some d \<Rightarrow> d)"

fun hex_bytes :: "string \<Rightarrow> bytes" where
  "hex_bytes (a # b # s) = of_nat (16 * hex_value a + hex_value b) # hex_bytes s"
| "hex_bytes _ = []"

definition strip0x :: "string \<Rightarrow> string" where
  "strip0x s = (if take 2 s = ''0x'' then drop 2 s else s)"

definition fetchVaaBytes :: "AdvanceContext \<Rightarrow> string \<Rightarrow> string option \<Rightarrow> thrown + bytes" where
  "fetchVaaBytes ctx fogoTx vaaHex =
     (if truthy vaaHex then
        let hex = strip0x (the vaaHex)
        in if hex = [] \<or> \<not> list_all hex_char hex \<or> length hex mod 2 \<noteq> 0
           then Inl (of_js_error (Error ''vaaHex must be a hex string (optional 0x prefix)''))
           else Inr (hex_bytes hex)
      else
        rbind (withTimeout ctx ''wormholescan.resolveVaaByTxHash''
                 (lift (resolveVaaByTxHash (acBase64 ctx) (acOperations ctx)
                    (newWormholescanClient (Some (acWormholescanUrl ctx))) fogoTx))) (\<lambda>bytes.
          case bytes of
            None \<Rightarrow> Inl (of_js_error (Error ''Wormholescan returned no VAA''))
          | Some b \<Rightarrow> Inr b))"

section \<open>Shared steps\<close>

text \<open>\<open>connection.getAccountInfo(key).catch(() => null)\<close>\<close>

definition accountOrNull :: "AdvanceContext \<Rightarrow> pubkey \<Rightarrow> account_info option" where
  "accountOrNull ctx key = catch (acGetAccountInfo ctx key) (\<lambda>_. None)"

definition timedAccountOrNull :: "AdvanceContext \<Rightarrow> string \<Rightarrow> pubkey \<Rightarrow> account_info option" where
  "timedAccountOrNull ctx label key = catch (withTimeout ctx label (acGetAccountInfo ctx key)) (\<lambda>_. None)"

definition fetchFlowFor :: "AdvanceContext \<Rightarrow> direction \<Rightarrow> pubkey \<Rightarrow> FlowAccount option" where
  "fetchFlowFor ctx dir nttInboxItem =
     catch (rbind (lift (flowAddress (acEnv ctx) (acClient ctx) dir nttInboxItem)) (\<lambda>pda.
              rbind (acFetchFlow ctx pda) (\<lambda>f. Inr (Some f)))) (\<lambda>_. None)"

definition RELAYER_AUTH_TOPUP :: int where
  "RELAYER_AUTH_TOPUP = 3000000"

definition SESSION_AUTH_TOPUP :: int where
  "SESSION_AUTH_TOPUP = 2000000"

definition computeTopUp :: "int option \<Rightarrow> int \<Rightarrow> int" where
  "computeTopUp existing target =
     (let e = ifNone existing 0 in if e \<ge> target then 0 else target - e)"

definition topUpIx :: "pubkey \<Rightarrow> pubkey \<Rightarrow> int \<Rightarrow> solana_ix list" where
  "topUpIx payer dest lamports = (if lamports > 0 then [SystemTransfer payer dest lamports] else [])"

definition buildTopUpIxs :: "AdvanceContext \<Rightarrow> pubkey \<Rightarrow> pubkey \<Rightarrow> pubkey \<Rightarrow> solana_ix list" where
  "buildTopUpIxs ctx payer relayerAuthorityPda sessionAuthorityPda =
     (let relayerTopUp = computeTopUp (map_option aiLamports (accountOrNull ctx relayerAuthorityPda)) RELAYER_AUTH_TOPUP;
          sessionTopUp = computeTopUp (map_option aiLamports (accountOrNull ctx sessionAuthorityPda)) SESSION_AUTH_TOPUP
      in topUpIx payer relayerAuthorityPda relayerTopUp @ topUpIx payer sessionAuthorityPda sessionTopUp)"

definition deriveReleaseAccounts ::
  "AdvanceContext \<Rightarrow> pubkey \<Rightarrow> pubkey \<Rightarrow> string \<Rightarrow> string \<Rightarrow> pubkey \<Rightarrow> pubkey \<Rightarrow> thrown + ReleaseAccounts" where
  "deriveReleaseAccounts ctx mint manager wormholeCore nttVersion payer outboxItem =
     rbind (acReleaseKeys ctx mint manager wormholeCore nttVersion payer outboxItem) (\<lambda>keys.
       case keys of
         None \<Rightarrow> Inl (of_js_error (Error ''SolanaNttWormholeTransceiver wiring failed.''))
       | Some k \<Rightarrow>
           if length k \<le> 14 then Inl (of_js_error (TypeError ''Cannot read properties of undefined''))
           else Inr \<lparr>raWormholeProgram = k ! 9, raWormholeBridge = k ! 6, raWormholeFeeCollector = k ! 7,
                     raWormholeSequence = k ! 8, raOutboxItemSigner = k ! 14,
                     raWormholeMessage = Some (k ! 4), raEmitter = Some (k ! 5)\<rparr>)"

section \<open>Metrics and the end of a leg\<close>

datatype metric =
    TxSent string bool
  | FlowAdvance direction string string
  | IntentReplayObserved direction
  | FlowSkipped string
  | FlowUnsweptObserved direction

definition DORMANT_SETTER :: "web3_env \<Rightarrow> pubkey result" where
  "DORMANT_SETTER env = key_of (findIntentTransferSetterPda env INTENT_TRANSFER_PROGRAM_ID)"

definition flagDormantSetterReplay :: "web3_env \<Rightarrow> pubkey \<Rightarrow> direction \<Rightarrow> bool \<times> metric list" where
  "flagDormantSetterReplay env senderOnSource leg =
     (if Inr senderOnSource \<noteq> DORMANT_SETTER env then (False, []) else (True, [IntentReplayObserved leg]))"

text \<open>The end of the \<open>try\<close> block and the \<open>catch\<close> block, the same in every leg: a signature is progress, an early
  return stands, an exception is a benign race or an error.\<close>

definition settle :: "string \<Rightarrow> direction \<Rightarrow> string \<Rightarrow> string \<Rightarrow> string leg \<Rightarrow> AdvanceResult \<times> metric list" where
  "settle instruction leg fromStatus toStatus r =
     (case r of
        Inr sig \<Rightarrow> (Advanced [sig] fromStatus toStatus,
                    [TxSent instruction True, FlowAdvance leg fromStatus toStatus])
      | Inl (Ret a) \<Rightarrow> (a, [])
      | Inl (Throw err) \<Rightarrow>
          ((case isLostRace err of
              Some reason \<Rightarrow> Noop reason None
            | None \<Rightarrow> ErrorResult (toError err) []),
           [TxSent instruction False]))"

end
