(* ===== verification/Legs.thy ===== *)
theory Legs
  imports Relayer_Base Onre_Nav
begin

text \<open>
  The four legs of a flow, whole handlers from the first query to the submission
  (\<open>packages/cranker/src/relayer\<close>: \<open>receive.ts\<close>, \<open>swap.ts\<close>, \<open>send.ts\<close>, \<open>refund.ts\<close>). Each \<open>..._plan\<close> is the body of a
  handler up to the transaction it would submit; the leg itself submits that transaction and maps the outcome.
  The state a leg changes is the wallet cache (\<open>receive\<close>) and the metrics.
\<close>

record LegInput =
  liDirection :: direction
  liFogoTx :: string
  liVaaHex :: "string option"

section \<open>Receive\<close>

record ReceiveInput = LegInput +
  riUserWallet :: "pubkey option"
  riMinSwapOut :: "int option"
  riRecvMint :: "pubkey option"
  riNttProgram :: "pubkey option"

record received =
  rdCfg :: PairConfig
  rdNttProgram :: pubkey
  rdRecvMint :: pubkey
  rdVaaBytes :: bytes
  rdResolved :: ResolvedNttVaa

definition receive_resolve :: "AdvanceContext \<Rightarrow> ReceiveInput \<Rightarrow> received leg" where
  "receive_resolve ctx input =
     (let isDeposit = (liDirection input = Deposit)
      in rbind (return_if (timedAccountOrNull ctx ''getAccountInfo(PairConfig)'' (rcConfigPda (acClient ctx)) = None)
                  (ErrorResult (of_js_error (Error ''PairConfig not found'')) [])) (\<lambda>_.
         rbind (await (acFetchConfig ctx)) (\<lambda>cfg.
         let nttProgram = ifNone (riNttProgram input) (if isDeposit then pcNttBaseProgram cfg else pcNttAssetProgram cfg);
             recvMint = ifNone (riRecvMint input) (if isDeposit then pcBaseMint cfg else pcAssetMint cfg)
         in rbind (return_if (\<not> isDeposit \<and> pcNttAssetProgram cfg = pcNttBaseProgram cfg)
                     (Noop ''asset NTT manager not deployed'' None)) (\<lambda>_.
            rbind (await (fetchVaaBytes ctx (liFogoTx input) (liVaaHex input))) (\<lambda>vaaBytes.
            rbind (call (resolveNttVaa (acEnv ctx) vaaBytes nttProgram None)) (\<lambda>resolved.
            rbind (return_if (isOnCurve (acEnv ctx) (rvRecipientOnSolana resolved))
                     (Noop ''VAA recipient is on-curve'' None)) (\<lambda>_.
              Inr \<lparr>rdCfg = cfg, rdNttProgram = nttProgram, rdRecvMint = recvMint, rdVaaBytes = vaaBytes,
                   rdResolved = resolved\<rparr>)))))))"

definition deriveInboxAuthority :: "AdvanceContext \<Rightarrow> pubkey \<Rightarrow> int \<Rightarrow> pubkey result" where
  "deriveInboxAuthority ctx wallet minSwapOut =
     key_of (findUserInboxWithMinPda (acEnv ctx) wallet minSwapOut (rcProgramId (acClient ctx)))"

text \<open>\<open>candidates.find(c => deriveInboxAuthority(c).equals(recipient))\<close>; a failing derivation throws.\<close>

fun findCandidate :: "AdvanceContext \<Rightarrow> pubkey \<Rightarrow> RecoveredWalletAndMinOut list \<Rightarrow> RecoveredWalletAndMinOut option result" where
  "findCandidate ctx recipient [] = Inr None"
| "findCandidate ctx recipient (c # cs) =
     rbind (deriveInboxAuthority ctx (rwUserWallet c) (rwMinSwapOut c)) (\<lambda>pda.
       if pda = recipient then Inr (Some c) else findCandidate ctx recipient cs)"

type_synonym wallet_cache = "(string, RecoveredWalletAndMinOut) BoundedMap"

definition recoverCandidates :: "AdvanceContext \<Rightarrow> string \<Rightarrow> RecoveredWalletAndMinOut list leg" where
  "recoverCandidates ctx fogoTx =
     (case withTimeout ctx ''recoverWalletAndMinOutCandidates''
             (lift (recoverWalletAndMinOutCandidates (acEnv ctx) (acEd25519 ctx) (acFogoConnection ctx) fogoTx
                DEFAULT_INTENT_PROGRAM_IDS)) of
        Inl err \<Rightarrow> Inl (Ret (ErrorResult (toError err) []))
      | Inr cs \<Rightarrow> Inr cs)"

definition receive_match ::
  "AdvanceContext \<Rightarrow> wallet_cache \<Rightarrow> ReceiveInput \<Rightarrow> pubkey \<Rightarrow> RecoveredWalletAndMinOut leg" where
  "receive_match ctx cache input recipient =
     (case (riUserWallet input, riMinSwapOut input) of
        (Some w, Some m) \<Rightarrow> Inr \<lparr>rwUserWallet = w, rwMinSwapOut = m\<rparr>
      | _ \<Rightarrow>
          rbind (case bm_get cache (liFogoTx input) of
                   None \<Rightarrow> Inr None
                 | Some c \<Rightarrow> call (findCandidate ctx recipient [c])) (\<lambda>cached.
          rbind (case cached of
                   Some c \<Rightarrow> Inr (Some c)
                 | None \<Rightarrow> rbind (recoverCandidates ctx (liFogoTx input)) (\<lambda>cs. call (findCandidate ctx recipient cs))) (\<lambda>matched.
            case matched of
              None \<Rightarrow> Inl (Ret (Noop ''no { wallet, min_swap_out } candidate derives the VAA recipient'' None))
            | Some c \<Rightarrow> Inr c)))"

definition receive_cache :: "wallet_cache \<Rightarrow> ReceiveInput \<Rightarrow> RecoveredWalletAndMinOut \<Rightarrow> wallet_cache" where
  "receive_cache cache input c =
     (if riUserWallet input \<noteq> None \<and> riMinSwapOut input \<noteq> None then cache else bm_set (liFogoTx input) c cache)"

definition receive_preflight ::
  "AdvanceContext \<Rightarrow> ReceiveInput \<Rightarrow> received \<Rightarrow> pubkey \<Rightarrow> pubkey \<Rightarrow> unit leg" where
  "receive_preflight ctx input rd userInboxAuthority userInboxAta =
     (if liDirection input = Deposit then
        let inboxInfo = timedAccountOrNull ctx ''getAccountInfo(NttInboxItem)'' (rvNttInboxItem (rdResolved rd));
            ataInfo = timedAccountOrNull ctx ''getAccountInfo(userInboxAta)'' userInboxAta
        in rbind (case readNttInboxAmount (map_option aiData inboxInfo) of
                    None \<Rightarrow> Inr ()
                  | Some inboxAmount \<Rightarrow>
                      return_if (ifNone (readSplTokenAmount (map_option aiData ataInfo)) 0 < inboxAmount)
                        (Noop ''inbox-item exists but user_inbox_ata is short'' None)) (\<lambda>_.
           return_if (userInboxAuthority \<noteq> rvRecipientOnSolana (rdResolved rd))
             (ErrorResult (of_js_error (Error ''derived inbox-authority PDA does not match VAA recipient'')) []))
      else Inr ())"

definition receive_peer :: "AdvanceContext \<Rightarrow> ReceiveInput \<Rightarrow> pubkey \<Rightarrow> unit leg" where
  "receive_peer ctx input nttProgram =
     (if liDirection input = Deposit then Inr ()
      else rbind (call (key_of (findNttPeerPda (acEnv ctx) FOGO_WORMHOLE_CHAIN_ID nttProgram))) (\<lambda>fogoPeerPda.
           return_if (timedAccountOrNull ctx ''getAccountInfo(fogoPeer)'' fogoPeerPda = None)
             (Noop ''FOGO peer not registered on ONyc NTT manager'' None)))"

definition receive_params ::
  "AdvanceContext \<Rightarrow> ReceiveInput \<Rightarrow> received \<Rightarrow> RecoveredWalletAndMinOut \<Rightarrow> ReceiveParams" where
  "receive_params ctx input rd c =
     \<lparr>rpPayer = acKeypair ctx, rpDirection = liDirection input, rpUserWallet = rwUserWallet c,
      rpRecvMint = rdRecvMint rd, rpMinSwapOut = rwMinSwapOut c,
      rpNttInboxItem = rvNttInboxItem (rdResolved rd),
      rpNttTransceiverMessage = rvNttTransceiverMessage (rdResolved rd),
      rpTransceiverAddress = Some (rdNttProgram rd), rpRedeemAccountsLen = None,
      rpNttBaseProgram = Some (pcNttBaseProgram (rdCfg rd)), rpNttAssetProgram = Some (pcNttAssetProgram (rdCfg rd))\<rparr>"

definition receive_tx :: "AdvanceContext \<Rightarrow> ReceiveInput \<Rightarrow> received \<Rightarrow> RecoveredWalletAndMinOut \<Rightarrow> solana_tx leg" where
  "receive_tx ctx input rd c =
     rbind (return_if (fetchFlowFor ctx (liDirection input) (rvNttInboxItem (rdResolved rd)) \<noteq> None)
              (Noop ''Flow already exists for inbox-item'' None)) (\<lambda>_.
     rbind (receive_peer ctx input (rdNttProgram rd)) (\<lambda>_.
     rbind (call (deriveInboxAuthority ctx (rwUserWallet c) (rwMinSwapOut c))) (\<lambda>userInboxAuthority.
     rbind (call (ata (acEnv ctx) (rdRecvMint rd) userInboxAuthority True (TOKEN_PROGRAM_ID (acEnv ctx)))) (\<lambda>userInboxAta.
     rbind (receive_preflight ctx input rd userInboxAuthority userInboxAta) (\<lambda>_.
     rbind (await (acPrepare ctx (rdVaaBytes rd) (rvNttTransceiverMessage (rdResolved rd)) (rdNttProgram rd) (rdRecvMint rd))) (\<lambda>prep.
     rbind (case prep of PrepareError e \<Rightarrow> Inl (Ret (ErrorResult e [])) | _ \<Rightarrow> Inr ()) (\<lambda>_.
     rbind (call (key_of (findAuthorityPda (acEnv ctx) (rcProgramId (acClient ctx))))) (\<lambda>relayerAuthorityPda.
     let current = ifNone (map_option aiLamports (accountOrNull ctx relayerAuthorityPda)) 0;
         fundIxs = (if current < RELAYER_AUTH_TOPUP
                    then [SystemTransfer (acKeypair ctx) relayerAuthorityPda (RELAYER_AUTH_TOPUP - current)] else [])
     in rbind (call (receive (acEnv ctx) (acClient ctx) (receive_params ctx input rd c))) (\<lambda>ix.
          Inr \<lparr>txPayer = acProviderWallet ctx,
               txIxs = [makePriorityFeeIx (acPriorityFee ctx)] @ fundIxs @
                       [CreateAtaIdempotent (acKeypair ctx) userInboxAta userInboxAuthority (rdRecvMint rd), RelayerIx ix],
               txLookupTables = [], txSigners = []\<rparr>)))))))))"

definition receive_plan ::
  "AdvanceContext \<Rightarrow> wallet_cache \<Rightarrow> ReceiveInput \<Rightarrow> solana_tx leg \<times> wallet_cache \<times> metric list" where
  "receive_plan ctx cache input =
     (case receive_resolve ctx input of
        Inl e \<Rightarrow> (Inl e, cache, [])
      | Inr rd \<Rightarrow>
          let flagged = snd (flagDormantSetterReplay (acEnv ctx) (rvSenderOnSource (rdResolved rd)) (liDirection input))
          in (case receive_match ctx cache input (rvRecipientOnSolana (rdResolved rd)) of
                Inl e \<Rightarrow> (Inl e, cache, flagged)
              | Inr c \<Rightarrow> (receive_tx ctx input rd c, receive_cache cache input c, flagged)))"

definition receive_leg ::
  "AdvanceContext \<Rightarrow> wallet_cache \<Rightarrow> ReceiveInput \<Rightarrow> AdvanceResult \<times> wallet_cache \<times> metric list" where
  "receive_leg ctx cache input =
     (case receive_plan ctx cache input of
        (plan, cache', flagged) \<Rightarrow>
          (case settle ''receive'' (liDirection input) ''Pending'' ''Received''
                  (rbind plan (\<lambda>tx. await (acSubmit ctx tx))) of
             (result, ms) \<Rightarrow> (result, cache', flagged @ ms)))"

section \<open>Swap\<close>

definition TAKE_OFFER_DISCRIMINATOR :: bytes where
  "TAKE_OFFER_DISCRIMINATOR = [37, 190, 224, 77, 197, 39, 203, 230]"

definition readMintDecimals :: "bytes option \<Rightarrow> nat option" where
  "readMintDecimals data =
     (case data of None \<Rightarrow> None
      | Some d \<Rightarrow> if length d < 82 then None else Some (unat (d ! 44)))"

definition writeAmountLE :: "int \<Rightarrow> bytes result" where
  "writeAmountLE v =
     (if v < 0 \<or> U64_MAX < v then Inl (RangeError ''The value is out of range'') else Inr (u64_le v))"

record SwapInput = LegInput +
  siNttProgram :: "pubkey option"

text \<open>The deposit branch: OnRe's price decides, then \<open>take_offer\<close> is built.\<close>

definition take_offer_tx ::
  "AdvanceContext \<Rightarrow> PairConfig \<Rightarrow> pubkey \<Rightarrow> pubkey \<Rightarrow> int \<Rightarrow> int \<Rightarrow> bytes \<Rightarrow> nat \<Rightarrow> nat \<Rightarrow> solana_tx leg" where
  "take_offer_tx ctx cfg nttInboxItem relayerAuthorityPda floor grossIn offerData usdcDecimals onycDecimals =
     (let env = acEnv ctx; client = acClient ctx; baseMint = pcBaseMint cfg; assetMint = pcAssetMint cfg;
          nowUnix = acNowMs ctx div 1000
      in rbind (call (rbind (parseActiveOfferVector offerData nowUnix) (\<lambda>v. calculateStepPrice v nowUnix))) (\<lambda>price.
         rbind (call (depositExpectedOut grossIn price usdcDecimals onycDecimals)) (\<lambda>expectedOnyc.
         rbind (return_if (expectedOnyc < floor) (Noop ''OnRe take_offer output below user floor'' None)) (\<lambda>_.
         rbind (call (key_of (findInflightFlowPda env (rcConfigPda client) nttInboxItem (rcProgramId client)))) (\<lambda>flowPda.
         rbind (call (writeAmountLE grossIn)) (\<lambda>amountIn.
         rbind (call (ata env baseMint relayerAuthorityPda True (TOKEN_PROGRAM_ID env))) (\<lambda>inAccount.
         rbind (call (ata env assetMint relayerAuthorityPda True (TOKEN_PROGRAM_ID env))) (\<lambda>outAccount.
         rbind (call (buildOnreSwapRemainingAccounts env
           \<lparr>osTokenInMint = baseMint, osTokenOutMint = assetMint, osUserTokenInAccount = inAccount,
            osUserTokenOutAccount = outAccount, osUser = relayerAuthorityPda, osCtx = None\<rparr>)) (\<lambda>swapAccounts.
         rbind (call (swap env client
           \<lparr>swFlowPda = flowPda, swBaseMint = baseMint, swAssetMint = assetMint, swFeeVault = pcFeeVault cfg,
            swNttInboxItem = nttInboxItem, swSwapProgram = ONRE_PROGRAM_ID,
            swSwapDelegate = relayerAuthorityPda,
            swSwapIxData = TAKE_OFFER_DISCRIMINATOR @ amountIn @ [0], swSwapAccounts = swapAccounts\<rparr>)) (\<lambda>ix.
           Inr \<lparr>txPayer = acProviderWallet ctx,
                txIxs = [SetComputeUnitLimit 400000, makePriorityFeeIx (acPriorityFee ctx), RelayerIx ix],
                txLookupTables = [], txSigners = []\<rparr>))))))))))"

definition swap_deposit ::
  "AdvanceContext \<Rightarrow> PairConfig \<Rightarrow> pubkey \<Rightarrow> pubkey \<Rightarrow> pubkey \<Rightarrow> int \<Rightarrow> int \<Rightarrow> solana_tx leg" where
  "swap_deposit ctx cfg nttInboxItem onreOffer relayerAuthorityPda floor grossIn =
     (let label = ''swap.getAccountInfo(offer+mints)''
      in rbind (await (withTimeout ctx label (acGetAccountInfo ctx onreOffer))) (\<lambda>offerInfo.
         rbind (await (withTimeout ctx label (acGetAccountInfo ctx (pcBaseMint cfg)))) (\<lambda>baseMintInfo.
         rbind (await (withTimeout ctx label (acGetAccountInfo ctx (pcAssetMint cfg)))) (\<lambda>assetMintInfo.
         case offerInfo of
           None \<Rightarrow> Inl (Ret (ErrorResult (of_js_error (Error ''OnRe deposit Offer PDA not found'')) []))
         | Some offer \<Rightarrow>
             (case (readMintDecimals (map_option aiData baseMintInfo), readMintDecimals (map_option aiData assetMintInfo)) of
                (Some usdcDecimals, Some onycDecimals) \<Rightarrow>
                  take_offer_tx ctx cfg nttInboxItem relayerAuthorityPda floor grossIn (aiData offer) usdcDecimals onycDecimals
              | _ \<Rightarrow> Inl (Ret (ErrorResult (of_js_error (Error ''mint decimals unreadable'')) [])))))))"

text \<open>The lookup tables of a route, each of which must exist.\<close>

fun loadLookupTables :: "AdvanceContext \<Rightarrow> pubkey list \<Rightarrow> thrown + pubkey list" where
  "loadLookupTables ctx [] = Inr []"
| "loadLookupTables ctx (k # ks) =
     rbind (acGetLookupTable ctx k) (\<lambda>found.
       if \<not> found then Inl (of_js_error (Error ''AddressLookupTable not found''))
       else rbind (loadLookupTables ctx ks) (\<lambda>rest. Inr (k # rest)))"

definition swap_withdraw ::
  "AdvanceContext \<Rightarrow> PairConfig \<Rightarrow> pubkey \<Rightarrow> pubkey \<Rightarrow> int \<Rightarrow> int \<Rightarrow> solana_tx leg" where
  "swap_withdraw ctx cfg nttInboxItem relayerAuthorityPda floor grossIn =
     (let env = acEnv ctx; client = acClient ctx; baseMint = pcBaseMint cfg; assetMint = pcAssetMint cfg
      in rbind (call (bigdiv (grossIn * pcWithdrawFeeBps cfg) 10000)) (\<lambda>feeOnyc.
         let netOnyc = grossIn - feeOnyc
         in rbind (return_if (netOnyc \<le> 0) (Noop ''fee consumed entire amount - config error'' None)) (\<lambda>_.
            rbind (await (withTimeout ctx ''swap.fetchJupiterRoute'' (lift (fetchJupiterRoute env (acJupiter ctx)
              \<lparr>jpInputMint = assetMint, jpOutputMint = baseMint, jpAmount = netOnyc,
               jpSlippageBps = DEFAULT_SLIPPAGE_TOLERANCE_BPS, jpUserPublicKey = relayerAuthorityPda,
               jpOtherAmountThreshold = Some floor, jpOnlyDirectRoutes = None\<rparr>)))) (\<lambda>route.
            rbind (return_if (jtQuotedOutAmount route < floor) (Noop ''Jupiter quote below user floor'' None)) (\<lambda>_.
            rbind (call (key_of (findOutflightFlowPda env (rcConfigPda client) nttInboxItem (rcProgramId client)))) (\<lambda>flowPda.
            rbind (call (swap env client
              \<lparr>swFlowPda = flowPda, swBaseMint = baseMint, swAssetMint = assetMint, swFeeVault = pcFeeVault cfg,
               swNttInboxItem = nttInboxItem, swSwapProgram = jtProgramId route,
               swSwapDelegate = relayerAuthorityPda, swSwapIxData = jtIxData route,
               swSwapAccounts = jtRouteAccounts route\<rparr>)) (\<lambda>swapIx.
            rbind (await (withTimeout ctx ''swap.getAddressLookupTable''
                     (loadLookupTables ctx (jtAddressLookupTables route)))) (\<lambda>altAccounts.
            rbind (await (acGetLatestBlockhash ctx)) (\<lambda>_.
              Inr \<lparr>txPayer = acProviderWallet ctx,
                   txIxs = [SetComputeUnitLimit 800000, makePriorityFeeIx (acPriorityFee ctx), RelayerIx swapIx],
                   txLookupTables = altAccounts, txSigners = []\<rparr>)))))))))"

definition swap_plan :: "AdvanceContext \<Rightarrow> SwapInput \<Rightarrow> solana_tx leg" where
  "swap_plan ctx input =
     (let env = acEnv ctx; isDeposit = (liDirection input = Deposit)
      in rbind (await (acFetchConfig ctx)) (\<lambda>cfg.
         let nttProgram = ifNone (siNttProgram input) (if isDeposit then pcNttBaseProgram cfg else pcNttAssetProgram cfg)
         in rbind (await (fetchVaaBytes ctx (liFogoTx input) (liVaaHex input))) (\<lambda>vaaBytes.
            rbind (call (resolveNttVaa env vaaBytes nttProgram None)) (\<lambda>resolved.
            case fetchFlowFor ctx (liDirection input) (rvNttInboxItem resolved) of
              None \<Rightarrow> Inl (Ret (Noop ''no Flow for inbox-item: receive has not run'' None))
            | Some flow \<Rightarrow>
                rbind (return_if (describeStatus flow \<noteq> StReceived) (Noop ''Flow status is not Received'' None)) (\<lambda>_.
                rbind (call (key_of (findOnreOfferPda env (pcBaseMint cfg) (pcAssetMint cfg) ONRE_PROGRAM_ID))) (\<lambda>onreOffer.
                rbind (call (key_of (findAuthorityPda env (rcProgramId (acClient ctx))))) (\<lambda>relayerAuthorityPda.
                let floor = flMinSwapOut flow; grossIn = flAmount flow
                in rbind (return_if (grossIn \<le> 0) (Noop ''flow.amount is zero'' None)) (\<lambda>_.
                   if isDeposit
                   then swap_deposit ctx cfg (rvNttInboxItem resolved) onreOffer relayerAuthorityPda floor grossIn
                   else swap_withdraw ctx cfg (rvNttInboxItem resolved) relayerAuthorityPda floor grossIn))))))))"

definition swap_leg :: "AdvanceContext \<Rightarrow> SwapInput \<Rightarrow> AdvanceResult \<times> metric list" where
  "swap_leg ctx input =
     settle ''swap'' (liDirection input) ''Received'' ''Swapped''
       (rbind (swap_plan ctx input) (\<lambda>tx. await (acSubmit ctx tx)))"

section \<open>Send and refund\<close>

record OutInput = LegInput +
  oiNttVersion :: "string option"
  oiWormholeCore :: "string option"

definition outboundGate :: "AdvanceContext \<Rightarrow> pubkey \<Rightarrow> NoopSeverity option \<Rightarrow> unit leg" where
  "outboundGate ctx manager severity =
     rbind (call (key_of (findNttPeerPda (acEnv ctx) FOGO_WORMHOLE_CHAIN_ID manager))) (\<lambda>fogoPeerPda.
     rbind (return_if (accountOrNull ctx fogoPeerPda = None) (Noop ''FOGO peer not registered'' severity)) (\<lambda>_.
     rbind (call (key_of (findRegisteredTransceiverPda (acEnv ctx) manager manager))) (\<lambda>registeredTransceiverPda.
       return_if (accountOrNull ctx registeredTransceiverPda = None)
         (Noop ''registered_transceiver PDA not initialized'' severity))))"

definition outbound_params ::
  "AdvanceContext \<Rightarrow> PairConfig \<Rightarrow> OutInput \<Rightarrow> pubkey \<Rightarrow> FlowAccount \<Rightarrow> ReleaseAccounts \<Rightarrow> OutboundParams" where
  "outbound_params ctx cfg input nttInboxItem flow release =
     \<lparr>obPayer = acKeypair ctx, obDirection = liDirection input, obBaseMint = pcBaseMint cfg, obAssetMint = pcAssetMint cfg,
      obNttInboxItem = nttInboxItem, obRentDestination = flPayer flow, obFlowAmount = flAmount flow,
      obFlowRecipient = flRecipient flow, obOutboxItem = acGenerate ctx,
      obNttBaseProgram = Some (pcNttBaseProgram cfg), obNttAssetProgram = Some (pcNttAssetProgram cfg),
      obRelease = release\<rparr>"

text \<open>The part of \<open>send\<close> and \<open>refund\<close> after their guards: funding, release accounts, the instruction, the lookup
  table, the transaction. \<open>build\<close> is \<open>client.send\<close> or \<open>client.refund\<close>.\<close>

definition outbound_tx ::
  "AdvanceContext \<Rightarrow> PairConfig \<Rightarrow> OutInput \<Rightarrow> pubkey \<Rightarrow> FlowAccount \<Rightarrow> pubkey \<Rightarrow> pubkey \<Rightarrow>
   (OutboundParams \<Rightarrow> method_call result) \<Rightarrow> solana_tx leg" where
  "outbound_tx ctx cfg input nttInboxItem flow mint manager build =
     rbind (call (nttTransferArgsHash (acEnv ctx) \<lparr>taAmount = flAmount flow, taRecipientChain = FOGO_WORMHOLE_CHAIN_ID,
              taRecipientAddress = flRecipient flow, taShouldQueue = False\<rparr>)) (\<lambda>argsHash.
     rbind (call (key_of (findAuthorityPda (acEnv ctx) (rcProgramId (acClient ctx))))) (\<lambda>relayerAuthorityPda.
     rbind (call (key_of (findSessionAuthorityPda (acEnv ctx) relayerAuthorityPda argsHash manager))) (\<lambda>sessionAuthorityPda.
     let fundIxs = buildTopUpIxs ctx (acKeypair ctx) relayerAuthorityPda sessionAuthorityPda
     in rbind (await (deriveReleaseAccounts ctx mint manager
                 (ifNone (oiWormholeCore input) WORMHOLE_CORE_MAINNET) (ifNone (oiNttVersion input) DEFAULT_NTT_VERSION)
                 (acKeypair ctx) (acGenerate ctx))) (\<lambda>release.
        rbind (call (build (outbound_params ctx cfg input nttInboxItem flow release))) (\<lambda>ix.
        case acSendLookupTable ctx of
          None \<Rightarrow> Inl (Ret (Noop ''SEND_LOOKUP_TABLE not configured'' (Some ConfigGate)))
        | Some table \<Rightarrow>
            rbind (await (acGetLookupTable ctx table)) (\<lambda>found.
            if \<not> found then Inl (Throw (of_js_error (Error ''AddressLookupTable not found'')))
            else rbind (await (acGetLatestBlockhash ctx)) (\<lambda>_.
              Inr \<lparr>txPayer = acKeypair ctx,
                   txIxs = [makePriorityFeeIx (acPriorityFee ctx)] @ fundIxs @ [RelayerIx ix],
                   txLookupTables = [table], txSigners = [acGenerate ctx]\<rparr>)))))))"

definition send_plan :: "AdvanceContext \<Rightarrow> OutInput \<Rightarrow> solana_tx leg" where
  "send_plan ctx input =
     (let env = acEnv ctx; isDeposit = (liDirection input = Deposit);
          severity = (if isDeposit then Some ConfigGate else None)
      in rbind (await (acFetchConfig ctx)) (\<lambda>cfg.
         let inboundNttProgram = (if isDeposit then pcNttBaseProgram cfg else pcNttAssetProgram cfg);
             outboundManager = (if isDeposit then pcNttAssetProgram cfg else pcNttBaseProgram cfg);
             outboundMint = (if isDeposit then pcAssetMint cfg else pcBaseMint cfg)
         in rbind (return_if (isDeposit \<and> pcNttAssetProgram cfg = pcNttBaseProgram cfg)
                     (Noop ''asset NTT manager not deployed'' (Some ConfigGate))) (\<lambda>_.
            rbind (await (fetchVaaBytes ctx (liFogoTx input) (liVaaHex input))) (\<lambda>vaaBytes.
            rbind (call (resolveNttVaa env vaaBytes inboundNttProgram None)) (\<lambda>resolved.
            case fetchFlowFor ctx (liDirection input) (rvNttInboxItem resolved) of
              None \<Rightarrow> Inl (Ret (Noop ''no Flow for inbox-item: prior legs have not run'' None))
            | Some flow \<Rightarrow>
                rbind (return_if (describeStatus flow \<noteq> StSwapped) (Noop ''Flow status is not Swapped'' None)) (\<lambda>_.
                rbind (outboundGate ctx outboundManager severity) (\<lambda>_.
                  outbound_tx ctx cfg input (rvNttInboxItem resolved) flow outboundMint outboundManager
                    (send env (acClient ctx)))))))))"

definition send_leg :: "AdvanceContext \<Rightarrow> OutInput \<Rightarrow> AdvanceResult \<times> metric list" where
  "send_leg ctx input =
     settle ''send'' (liDirection input) ''Swapped'' ''Closed''
       (rbind (send_plan ctx input) (\<lambda>tx. await (acSubmit ctx tx)))"

definition refundDue :: "int \<Rightarrow> int \<Rightarrow> bool" where
  "refundDue receivedSlot currentSlot \<longleftrightarrow> currentSlot \<ge> receivedSlot + REFUND_TIMEOUT_SLOTS"

definition refund_plan :: "AdvanceContext \<Rightarrow> OutInput \<Rightarrow> solana_tx leg" where
  "refund_plan ctx input =
     (let env = acEnv ctx; isDeposit = (liDirection input = Deposit)
      in rbind (await (acFetchConfig ctx)) (\<lambda>cfg.
         let originalManager = (if isDeposit then pcNttBaseProgram cfg else pcNttAssetProgram cfg);
             originalMint = (if isDeposit then pcBaseMint cfg else pcAssetMint cfg)
         in rbind (await (fetchVaaBytes ctx (liFogoTx input) (liVaaHex input))) (\<lambda>vaaBytes.
            rbind (call (resolveNttVaa env vaaBytes originalManager None)) (\<lambda>resolved.
            case fetchFlowFor ctx (liDirection input) (rvNttInboxItem resolved) of
              None \<Rightarrow> Inl (Ret (Noop ''no Flow for inbox-item'' None))
            | Some flow \<Rightarrow>
                rbind (return_if (describeStatus flow \<noteq> StReceived) (Noop ''Flow status is not Received'' None)) (\<lambda>_.
                rbind (await (acGetSlot ctx)) (\<lambda>currentSlot.
                rbind (return_if (\<not> refundDue (flReceivedSlot flow) currentSlot)
                         (Noop ''flow received_slot + timeout not yet reached'' None)) (\<lambda>_.
                rbind (return_if (pcNttAssetProgram cfg = pcNttBaseProgram cfg)
                         (Noop ''asset NTT manager not deployed'' (Some ConfigGate))) (\<lambda>_.
                rbind (outboundGate ctx originalManager (Some ConfigGate)) (\<lambda>_.
                  outbound_tx ctx cfg input (rvNttInboxItem resolved) flow originalMint originalManager
                    (refund env (acClient ctx)))))))))))"

definition refund_leg :: "AdvanceContext \<Rightarrow> OutInput \<Rightarrow> AdvanceResult \<times> metric list" where
  "refund_leg ctx input =
     settle ''refund'' (liDirection input) ''Received'' ''Closed''
       (rbind (refund_plan ctx input) (\<lambda>tx. await (acSubmit ctx tx)))"

end
