(* ===== verification/Leg_Safety.thy ===== *)
theory Leg_Safety
  imports Legs
begin

text \<open>
  What the legs guarantee about the transactions they submit, and what they report. The facts about a plan
  are the guards of its handler read off its success; the properties combine them with the address
  derivations, the account builders and the price functions.
\<close>

section \<open>A context in which the legs act\<close>

text \<open>Every account exists with the given data, Wormholescan serves the given VAA, every submission succeeds.\<close>

definition model_cfg :: PairConfig where
  "model_cfg = \<lparr>pcBaseMint = replicate 32 2, pcAssetMint = replicate 32 3, pcFeeVault = replicate 32 21,
     pcNttBaseProgram = replicate 32 12, pcNttAssetProgram = replicate 32 13, pcWithdrawFeeBps = 10\<rparr>"

definition model_ctx :: "web3_env \<Rightarrow> bytes \<Rightarrow> thrown + FlowAccount \<Rightarrow> bytes \<Rightarrow> AdvanceContext" where
  "model_ctx env vaa flow data =
     \<lparr>acEnv = env, acExpired = (\<lambda>_. False), acClient = model_client, acKeypair = replicate 32 7,
      acProviderWallet = replicate 32 7, acPriorityFee = 1000, acSendLookupTable = Some (replicate 32 22),
      acNowMs = 10000, acFetchConfig = Inr model_cfg,
      acGetAccountInfo = (\<lambda>_. Inr (Some \<lparr>aiOwner = [], aiLamports = 5, aiData = data\<rparr>)),
      acFetchFlow = (\<lambda>_. flow), acGetSlot = Inr 60000, acGetLookupTable = (\<lambda>_. Inr True),
      acGetLatestBlockhash = Inr ''bh'',
      acFogoConnection = \<lparr>fcGetTransaction = (\<lambda>_. Inr None), fcGetAccountData = (\<lambda>_. Inr None)\<rparr>,
      acEd25519 = [], acWormholescanUrl = ''https://w'',
      acOperations = (\<lambda>_. Inr \<lparr>rsStatus = 200, rsOk = True, rsJson = Inr (Some [Some (Some ''v'')])\<rparr>),
      acBase64 = (\<lambda>_. vaa), acJupiter = model_jupiter env (bigint_toString 9) (replicate 32 6),
      acReleaseKeys = (\<lambda>_ _ _ _ _ _. Inr (Some (replicate 15 []))),
      acPrepare = (\<lambda>_ _ _ _. Inr AlreadyPrepared), acGenerate = replicate 32 23,
      acSubmit = (\<lambda>_. Inr ''sig'')\<rparr>"

definition model_flow :: "bool \<Rightarrow> int \<Rightarrow> FlowAccount" where
  "model_flow swapped floor = \<lparr>flRecipient = replicate 32 10, flStatusReceived = (\<not> swapped), flStatusSwapped = swapped,
     flAmount = 1000, flPayer = replicate 32 9, flDirection = Deposit, flMinSwapOut = floor, flReceivedSlot = 5\<rparr>"

definition model_out :: "direction \<Rightarrow> OutInput" where
  "model_out dir = \<lparr>liDirection = dir, liFogoTx = ''tx'', liVaaHex = None, oiNttVersion = None, oiWormholeCore = None\<rparr>"

lemma model_ctx_vaa: "fetchVaaBytes (model_ctx env vaa flow data) tx None = Inr vaa"
  by (simp add: fetchVaaBytes_def model_ctx_def withTimeout_def resolveVaaByTxHash_def getJson_def truthy_def Let_def)

lemma model_ctx_flow:
  assumes "env_total env"
  shows "fetchFlowFor (model_ctx env vaa (Inr f) data) dir inbox = Some f"
proof -
  obtain a where "flowAddress env model_client dir inbox = Inr a"
    using key_of_Ex [OF assms] unfolding flowAddress_def findInflightFlowPda_def findOutflightFlowPda_def findFlowPda_def Let_def
    by (cases dir) auto
  then show ?thesis by (simp add: fetchFlowFor_def model_ctx_def)
qed

lemma model_ctx_gate:
  assumes "env_total env"
  shows "outboundGate (model_ctx env vaa f data) manager sev = Inr ()"
proof -
  obtain g where g: "\<And>s p. key_of (fpa env s p) = Inr (g s p)" using key_of_choice [OF assms] by blast
  show ?thesis
    by (simp add: outboundGate_def findNttPeerPda_def chainIdBeBuf_def FOGO_WORMHOLE_CHAIN_ID_def findRegisteredTransceiverPda_def
        model_ctx_def accountOrNull_def g)
qed

lemma model_ctx_outbound:
  assumes "env_total env" "\<And>ps. length (obFlowRecipient ps) = 32 \<Longrightarrow> \<exists>mc. build ps = Inr mc"
  shows "\<exists>tx. outbound_tx (model_ctx env vaa f data) cfg input inbox (model_flow sw fl) mint manager build = Inr tx"
proof -
  let ?ctx = "model_ctx env vaa f data"
  obtain g where g: "\<And>s p. key_of (fpa env s p) = Inr (g s p)" using key_of_choice [OF assms(1)] by blast
  obtain rel where rel: "deriveReleaseAccounts ?ctx mint manager c v p i = Inr rel" for c v p i
    by (simp add: deriveReleaseAccounts_def model_ctx_def)
  have "length (obFlowRecipient (outbound_params ?ctx cfg input inbox (model_flow sw fl) rel)) = 32"
    by (simp add: outbound_params_def model_flow_def)
  from assms(2) [OF this] obtain mc where mc: "build (outbound_params ?ctx cfg input inbox (model_flow sw fl) rel) = Inr mc" by blast
  have h: "\<exists>h. nttTransferArgsHash env \<lparr>taAmount = flAmount (model_flow sw fl), taRecipientChain = FOGO_WORMHOLE_CHAIN_ID,
      taRecipientAddress = flRecipient (model_flow sw fl), taShouldQueue = False\<rparr> = Inr h"
    by (simp add: nttTransferArgsHash_def serializeTransferArgs_eq model_flow_def)
  have sel: "acEnv ?ctx = env" "acSendLookupTable ?ctx = Some (replicate 32 22)" "acGetLookupTable ?ctx = (\<lambda>_. Inr True)"
    "acGetLatestBlockhash ?ctx = Inr ''bh''" by (simp_all add: model_ctx_def)
  from h show ?thesis
    by (auto simp: outbound_tx_def Let_def findAuthorityPda_def findSessionAuthorityPda_def g rel mc sel)
qed

lemma model_plans:
  assumes "env_total env" "pubkey_ctor_ok env"
  shows "\<exists>tx. send_plan (model_ctx env (encodeVaa (model_vaa (replicate 32 4))) (Inr (model_flow True fl)) data) (model_out dir) = Inr tx"
    and "\<exists>tx. refund_plan (model_ctx env (encodeVaa (model_vaa (replicate 32 4))) (Inr (model_flow False fl)) data) (model_out dir) = Inr tx"
proof -
  let ?ctx = "\<lambda>sw. model_ctx env (encodeVaa (model_vaa (replicate 32 4))) (Inr (model_flow sw fl)) data"
  have sel: "acEnv (?ctx sw) = env" "acFetchConfig (?ctx sw) = Inr model_cfg" "acGetSlot (?ctx sw) = Inr 60000"
    "acClient (?ctx sw) = model_client" for sw
    by (simp_all add: model_ctx_def)
  have cfg: "pcNttAssetProgram model_cfg \<noteq> pcNttBaseProgram model_cfg" by (simp add: model_cfg_def)
  have inp: "liDirection (model_out dir) = dir" "liFogoTx (model_out dir) = ''tx''" "liVaaHex (model_out dir) = None"
    by (simp_all add: model_out_def)
  have st: "describeStatus (model_flow True fl) = StSwapped" "describeStatus (model_flow False fl) = StReceived"
    "refundDue (flReceivedSlot (model_flow False fl)) 60000"
    by (simp_all add: describeStatus_def model_flow_def refundDue_def REFUND_TIMEOUT_SLOTS_def)
  have "length (replicate 32 4 :: pubkey) = 32" by simp
  note res = model_vaa_resolves [OF assms(2,1) this]
  note facts = sel inp model_ctx_vaa model_ctx_flow [OF assms(1)] model_ctx_gate [OF assms(1)] cfg cfg [symmetric]
  note out = model_ctx_outbound [OF assms(1) send_refund_total(1) [OF assms(1)]]
    model_ctx_outbound [OF assms(1) send_refund_total(2) [OF assms(1)]]
  show "\<exists>tx. send_plan (?ctx True) (model_out dir) = Inr tx"
    using res [of "if dir = Deposit then pcNttBaseProgram model_cfg else pcNttAssetProgram model_cfg"] out(1)
    by (auto simp: send_plan_def Let_def facts st)
  show "\<exists>tx. refund_plan (?ctx False) (model_out dir) = Inr tx"
    using res [of "if dir = Deposit then pcNttBaseProgram model_cfg else pcNttAssetProgram model_cfg"] out(2)
    by (auto simp: refund_plan_def Let_def facts st)
qed

section \<open>Swap: the signed floor\<close>

text \<open>The venue's own statement of what the swap will return: OnRe's current price, or Jupiter's quote for the net
  input with its minimum pinned to the floor.\<close>

definition venue_out :: "AdvanceContext \<Rightarrow> PairConfig \<Rightarrow> direction \<Rightarrow> FlowAccount \<Rightarrow> int \<Rightarrow> bool" where
  "venue_out ctx cfg dir flow out \<longleftrightarrow>
     (case dir of
        Deposit \<Rightarrow>
          (\<exists>offer b info base asset vec price di d_o. findOnreOfferPda (acEnv ctx) (pcBaseMint cfg) (pcAssetMint cfg) ONRE_PROGRAM_ID = Inr (offer, b) \<and>
             acGetAccountInfo ctx offer = Inr (Some info) \<and>
             acGetAccountInfo ctx (pcBaseMint cfg) = Inr base \<and> readMintDecimals (map_option aiData base) = Some di \<and>
             acGetAccountInfo ctx (pcAssetMint cfg) = Inr asset \<and> readMintDecimals (map_option aiData asset) = Some d_o \<and>
             parseActiveOfferVector (aiData info) (acNowMs ctx div 1000) = Inr vec \<and>
             calculateStepPrice vec (acNowMs ctx div 1000) = Inr price \<and>
             depositExpectedOut (flAmount flow) price di d_o = Inr out)
      | Withdraw \<Rightarrow>
          (\<exists>auth b fee route. findAuthorityPda (acEnv ctx) (rcProgramId (acClient ctx)) = Inr (auth, b) \<and>
             bigdiv (flAmount flow * pcWithdrawFeeBps cfg) 10000 = Inr fee \<and>
             fetchJupiterRoute (acEnv ctx) (acJupiter ctx)
               \<lparr>jpInputMint = pcAssetMint cfg, jpOutputMint = pcBaseMint cfg, jpAmount = flAmount flow - fee,
                jpSlippageBps = DEFAULT_SLIPPAGE_TOLERANCE_BPS, jpUserPublicKey = auth,
                jpOtherAmountThreshold = Some (flMinSwapOut flow), jpOnlyDirectRoutes = None\<rparr> = Inr route \<and>
             jtQuotedOutAmount route = out))"

definition swap_call_for :: "AdvanceContext \<Rightarrow> direction \<Rightarrow> pubkey \<Rightarrow> solana_tx \<Rightarrow> bool" where
  "swap_call_for ctx dir inbox tx \<longleftrightarrow>
     (\<exists>mc f. last (txIxs tx) = RelayerIx mc \<and> mcMethod mc = ''swap'' \<and>
        flowAddress (acEnv ctx) (acClient ctx) dir inbox = Inr f \<and> map_of (mcAccounts mc) ''flow'' = Some (Some f))"

lemma swap_call_flow:
  assumes "swap env c ps = Inr mc"
  shows "mcMethod mc = ''swap''" "map_of (mcAccounts mc) ''flow'' = Some (Some (swFlowPda ps))"
  using assms by (auto simp: swap_def result_simps)

lemma swap_deposit_Inr:
  assumes "swap_deposit ctx cfg inbox offer auth (flMinSwapOut flow) (flAmount flow) = Inr tx"
    and "findOnreOfferPda (acEnv ctx) (pcBaseMint cfg) (pcAssetMint cfg) ONRE_PROGRAM_ID = Inr (offer, b)"
  shows "\<exists>out. flMinSwapOut flow \<le> out \<and> venue_out ctx cfg Deposit flow out" "swap_call_for ctx Deposit inbox tx"
proof -
  from assms(1) obtain info base asset di d_o where
    i: "acGetAccountInfo ctx offer = Inr (Some info)"
      "acGetAccountInfo ctx (pcBaseMint cfg) = Inr base" "readMintDecimals (map_option aiData base) = Some di"
      "acGetAccountInfo ctx (pcAssetMint cfg) = Inr asset" "readMintDecimals (map_option aiData asset) = Some d_o"
    and t: "take_offer_tx ctx cfg inbox auth (flMinSwapOut flow) (flAmount flow) (aiData info) di d_o = Inr tx"
    by (auto simp: swap_deposit_def Let_def result_simps)
  from t obtain vec price out flowPda ps mc where
    p: "parseActiveOfferVector (aiData info) (acNowMs ctx div 1000) = Inr vec"
      "calculateStepPrice vec (acNowMs ctx div 1000) = Inr price"
      "depositExpectedOut (flAmount flow) price di d_o = Inr out" "\<not> out < flMinSwapOut flow"
    and f: "key_of (findInflightFlowPda (acEnv ctx) (rcConfigPda (acClient ctx)) inbox (rcProgramId (acClient ctx))) = Inr flowPda"
    and s: "swap (acEnv ctx) (acClient ctx) ps = Inr mc" "swFlowPda ps = flowPda" "last (txIxs tx) = RelayerIx mc"
    by (auto simp: take_offer_tx_def Let_def result_simps)
  have "venue_out ctx cfg Deposit flow out" unfolding venue_out_def direction.case using i p(1-3) assms(2) by blast
  with p(4) show "\<exists>out. flMinSwapOut flow \<le> out \<and> venue_out ctx cfg Deposit flow out" by (auto intro!: exI [of _ out])
  from swap_call_flow [OF s(1)] f s(2,3) show "swap_call_for ctx Deposit inbox tx"
    by (auto simp: swap_call_for_def flowAddress_def)
qed

lemma swap_withdraw_Inr:
  assumes "swap_withdraw ctx cfg inbox auth (flMinSwapOut flow) (flAmount flow) = Inr tx"
    and "findAuthorityPda (acEnv ctx) (rcProgramId (acClient ctx)) = Inr (auth, b)"
  shows "\<exists>out. flMinSwapOut flow \<le> out \<and> venue_out ctx cfg Withdraw flow out" "swap_call_for ctx Withdraw inbox tx"
proof -
  from assms(1) obtain fee route flowPda ps mc where
    r: "bigdiv (flAmount flow * pcWithdrawFeeBps cfg) 10000 = Inr fee"
      "fetchJupiterRoute (acEnv ctx) (acJupiter ctx)
         \<lparr>jpInputMint = pcAssetMint cfg, jpOutputMint = pcBaseMint cfg, jpAmount = flAmount flow - fee,
          jpSlippageBps = DEFAULT_SLIPPAGE_TOLERANCE_BPS, jpUserPublicKey = auth,
          jpOtherAmountThreshold = Some (flMinSwapOut flow), jpOnlyDirectRoutes = None\<rparr> = Inr route"
      "\<not> jtQuotedOutAmount route < flMinSwapOut flow"
    and f: "key_of (findOutflightFlowPda (acEnv ctx) (rcConfigPda (acClient ctx)) inbox (rcProgramId (acClient ctx))) = Inr flowPda"
    and s: "swap (acEnv ctx) (acClient ctx) ps = Inr mc" "swFlowPda ps = flowPda" "last (txIxs tx) = RelayerIx mc"
    by (auto simp: swap_withdraw_def Let_def result_simps)
  from r assms(2) show "\<exists>out. flMinSwapOut flow \<le> out \<and> venue_out ctx cfg Withdraw flow out"
    by (auto simp: venue_out_def intro!: exI [of _ "jtQuotedOutAmount route"])
  from swap_call_flow [OF s(1)] f s(2,3) show "swap_call_for ctx Withdraw inbox tx"
    by (auto simp: swap_call_for_def flowAddress_def)
qed

text \<open>C1. A swap is submitted only for a \<open>Received\<close> flow with a positive amount, only for that flow's own account, and
  only when the chosen venue promises at least the floor the user signed.\<close>

theorem swap_respects_floor:
  assumes "swap_plan ctx input = Inr tx"
  shows "\<exists>cfg vaa r flow out. acFetchConfig ctx = Inr cfg \<and>
    fetchVaaBytes ctx (liFogoTx input) (liVaaHex input) = Inr vaa \<and>
    resolveNttVaa (acEnv ctx) vaa
      (ifNone (siNttProgram input) (if liDirection input = Deposit then pcNttBaseProgram cfg else pcNttAssetProgram cfg)) None = Inr r \<and>
    fetchFlowFor ctx (liDirection input) (rvNttInboxItem r) = Some flow \<and> describeStatus flow = StReceived \<and>
    0 < flAmount flow \<and> venue_out ctx cfg (liDirection input) flow out \<and> flMinSwapOut flow \<le> out \<and>
    swap_call_for ctx (liDirection input) (rvNttInboxItem r) tx"
proof -
  from assms obtain cfg vaa r flow offer auth b b' where
    c: "acFetchConfig ctx = Inr cfg" "fetchVaaBytes ctx (liFogoTx input) (liVaaHex input) = Inr vaa"
      "resolveNttVaa (acEnv ctx) vaa
        (ifNone (siNttProgram input) (if liDirection input = Deposit then pcNttBaseProgram cfg else pcNttAssetProgram cfg)) None = Inr r"
      "fetchFlowFor ctx (liDirection input) (rvNttInboxItem r) = Some flow" "describeStatus flow = StReceived"
    and o: "findOnreOfferPda (acEnv ctx) (pcBaseMint cfg) (pcAssetMint cfg) ONRE_PROGRAM_ID = Inr (offer, b)"
    and a: "findAuthorityPda (acEnv ctx) (rcProgramId (acClient ctx)) = Inr (auth, b')"
    and pos: "\<not> flAmount flow \<le> 0"
    and rest: "(if liDirection input = Deposit
        then swap_deposit ctx cfg (rvNttInboxItem r) offer auth (flMinSwapOut flow) (flAmount flow)
        else swap_withdraw ctx cfg (rvNttInboxItem r) auth (flMinSwapOut flow) (flAmount flow)) = Inr tx"
    by (auto simp: swap_plan_def Let_def key_of_def result_simps)
  have "\<exists>out. flMinSwapOut flow \<le> out \<and> venue_out ctx cfg (liDirection input) flow out \<and>
      swap_call_for ctx (liDirection input) (rvNttInboxItem r) tx"
    using rest swap_deposit_Inr [OF _ o, of "rvNttInboxItem r" auth flow tx] swap_withdraw_Inr [OF _ a, of cfg "rvNttInboxItem r" flow tx]
    by (cases "liDirection input") auto
  with c pos show ?thesis by (metis not_le)
qed

text \<open>The withdraw path on the model context: the quote of 9 clears a floor of 7.\<close>

lemma model_swap_plan:
  "\<exists>tx. swap_plan (model_ctx model_env (encodeVaa (model_vaa (replicate 32 4))) (Inr (model_flow False 7)) [])
     \<lparr>liDirection = Withdraw, liFogoTx = ''tx'', liVaaHex = None, siNttProgram = None\<rparr> = Inr tx"
proof -
  let ?ctx = "model_ctx model_env (encodeVaa (model_vaa (replicate 32 4))) (Inr (model_flow False 7)) []"
  have sel: "acEnv ?ctx = model_env" "acFetchConfig ?ctx = Inr model_cfg" "acClient ?ctx = model_client"
    "acExpired ?ctx = (\<lambda>_. False)" "acJupiter ?ctx = model_jupiter model_env (bigint_toString 9) (replicate 32 6)"
    "acGetLatestBlockhash ?ctx = Inr ''bh''" "acGetLookupTable ?ctx = (\<lambda>_. Inr True)"
    by (simp_all add: model_ctx_def)
  obtain g where g: "\<And>s p. key_of (fpa model_env s p) = Inr (g s p)" using key_of_choice [OF model_env_total] by blast
  have "length (replicate 32 4 :: pubkey) = 32" by simp
  from model_vaa_resolves [OF model_env_ctor model_env_total this, of "pcNttAssetProgram model_cfg"] obtain r where
    r: "resolveNttVaa model_env (encodeVaa (model_vaa (replicate 32 4))) (pcNttAssetProgram model_cfg) None = Inr r" by blast
  have fl: "describeStatus (model_flow False 7) = StReceived" "flMinSwapOut (model_flow False 7) = 7" "flAmount (model_flow False 7) = 1000"
    by (simp_all add: describeStatus_def model_flow_def)
  have fee: "bigdiv (1000 * pcWithdrawFeeBps model_cfg) 10000 = Inr 1" by (simp add: model_cfg_def)
  have sw: "\<exists>mc. swap model_env model_client ps = Inr mc" for ps
    by (simp add: swap_def relayerAta_def model_env_def)
  obtain auth where auth: "key_of (findAuthorityPda model_env (rcProgramId model_client)) = Inr auth"
    by (simp add: findAuthorityPda_def g)
  let ?p = "\<lparr>jpInputMint = pcAssetMint model_cfg, jpOutputMint = pcBaseMint model_cfg, jpAmount = 999,
     jpSlippageBps = DEFAULT_SLIPPAGE_TOLERANCE_BPS, jpUserPublicKey = auth, jpOtherAmountThreshold = Some 7, jpOnlyDirectRoutes = None\<rparr>"
  obtain route where route: "fetchJupiterRoute model_env (model_jupiter model_env (bigint_toString 9) (replicate 32 6)) ?p = Inr route"
      "jtQuotedOutAmount route = 9" "jtAddressLookupTables route = []" using model_jupiter_accepts by blast
  have "\<exists>tx. swap_withdraw ?ctx model_cfg (rvNttInboxItem r) auth 7 1000 = Inr tx"
    unfolding swap_withdraw_def Let_def sel
    using sw by (auto simp: fee withTimeout_def sel route findOutflightFlowPda_def findFlowPda_def Let_def g result_simps)
  then show ?thesis
    by (simp add: swap_plan_def Let_def sel model_ctx_vaa r model_ctx_flow [OF model_env_total] fl findOnreOfferPda_def g auth)
qed

theorem swap_respects_floor_witness:
  "\<exists>tx out. swap_plan (model_ctx model_env (encodeVaa (model_vaa (replicate 32 4))) (Inr (model_flow False 7)) [])
       \<lparr>liDirection = Withdraw, liFogoTx = ''tx'', liVaaHex = None, siNttProgram = None\<rparr> = Inr tx \<and> 7 \<le> out \<and>
     venue_out (model_ctx model_env (encodeVaa (model_vaa (replicate 32 4))) (Inr (model_flow False 7)) []) model_cfg Withdraw
       (model_flow False 7) out"
proof -
  let ?ctx = "model_ctx model_env (encodeVaa (model_vaa (replicate 32 4))) (Inr (model_flow False 7)) []"
  from model_swap_plan obtain tx where tx: "swap_plan ?ctx \<lparr>liDirection = Withdraw, liFogoTx = ''tx'', liVaaHex = None, siNttProgram = None\<rparr> = Inr tx"
    by blast
  have sel: "acFetchConfig ?ctx = Inr model_cfg" by (simp add: model_ctx_def)
  have fl: "flMinSwapOut (model_flow False 7) = 7" by (simp add: model_flow_def)
  from swap_respects_floor [OF tx] tx show ?thesis
    by (auto simp: sel model_ctx_flow [OF model_env_total] fl)
qed

section \<open>Receive: the committed wallet and floor\<close>

lemma findCandidate_Some:
  "findCandidate ctx recipient cs = Inr (Some c) \<Longrightarrow>
     c \<in> set cs \<and> deriveInboxAuthority ctx (rwUserWallet c) (rwMinSwapOut c) = Inr recipient"
  by (induction cs) (auto simp: result_simps split: if_splits)

lemma receive_match_Inr:
  assumes "receive_match ctx cache input recipient = Inr c" "riUserWallet input = None"
  shows "deriveInboxAuthority ctx (rwUserWallet c) (rwMinSwapOut c) = Inr recipient"
proof -
  from assms obtain cached where
    c: "(case bm_get cache (liFogoTx input) of None \<Rightarrow> Inr None | Some c \<Rightarrow> call (findCandidate ctx recipient [c])) = Inr cached"
    and m: "(case cached of Some c \<Rightarrow> Inr (Some c)
       | None \<Rightarrow> rbind (recoverCandidates ctx (liFogoTx input)) (\<lambda>cs. call (findCandidate ctx recipient cs))) = Inr (Some c)"
    by (auto simp: receive_match_def result_simps)
  show ?thesis
  proof (cases cached)
    case None
    with m show ?thesis by (auto simp: result_simps dest: findCandidate_Some)
  next
    case (Some d)
    with m have "d = c" by simp
    with c Some show ?thesis by (cases "bm_get cache (liFogoTx input)") (auto simp: result_simps split: if_splits)
  qed
qed

text \<open>The inbox address of a candidate can be derived. Three seeds of at most 32 bytes are within the documented
  limits of \<open>findProgramAddressSync\<close>, which throws only beyond them or when no bump gives an off-curve address.\<close>

definition inbox_derives :: "AdvanceContext \<Rightarrow> RecoveredWalletAndMinOut \<Rightarrow> bool" where
  "inbox_derives ctx c \<longleftrightarrow> (\<exists>k. deriveInboxAuthority ctx (rwUserWallet c) (rwMinSwapOut c) = Inr k)"

lemma inbox_derives_total: "env_total (acEnv ctx) \<Longrightarrow> inbox_derives ctx c"
  unfolding inbox_derives_def deriveInboxAuthority_def findUserInboxWithMinPda_def Let_def by (rule key_of_Ex)

lemma findCandidate_hit:
  assumes "\<forall>d\<in>set cs. inbox_derives ctx d" "c \<in> set cs" "deriveInboxAuthority ctx (rwUserWallet c) (rwMinSwapOut c) = Inr k"
  shows "\<exists>d. findCandidate ctx k cs = Inr (Some d)"
  using assms
proof (induction cs)
  case (Cons d cs)
  then obtain k' where "deriveInboxAuthority ctx (rwUserWallet d) (rwMinSwapOut d) = Inr k'" by (auto simp: inbox_derives_def)
  with Cons show ?case by auto
qed simp

lemma receive_match_hit:
  assumes "\<forall>d\<in>set cs \<union> set_option (bm_get cache (liFogoTx input)). inbox_derives ctx d"
    and "riUserWallet input = None" "\<not> acExpired ctx ''recoverWalletAndMinOutCandidates''"
    and "recoverWalletAndMinOutCandidates (acEnv ctx) (acEd25519 ctx) (acFogoConnection ctx) (liFogoTx input)
           DEFAULT_INTENT_PROGRAM_IDS = Inr cs"
    and "c \<in> set cs" "deriveInboxAuthority ctx (rwUserWallet c) (rwMinSwapOut c) = Inr k"
  shows "\<exists>d. receive_match ctx cache input k = Inr d"
proof -
  obtain d where d: "findCandidate ctx k cs = Inr (Some d)" using findCandidate_hit [OF _ assms(5,6)] assms(1) by blast
  have rec: "recoverCandidates ctx (liFogoTx input) = Inr cs"
    using assms(3,4) by (simp add: recoverCandidates_def withTimeout_def lift_def)
  show ?thesis
  proof (cases "bm_get cache (liFogoTx input)")
    case None
    then show ?thesis using assms(2) d by (simp add: receive_match_def rec)
  next
    case (Some e)
    moreover from Some assms(1) have "inbox_derives ctx e" by simp
    then have "\<exists>x. findCandidate ctx k [e] = Inr x" by (auto simp: inbox_derives_def)
    then obtain x where "findCandidate ctx k [e] = Inr x" by blast
    ultimately show ?thesis using assms(2) d
      by (cases x) (simp_all add: receive_match_def rec del: findCandidate.simps)
  qed
qed

lemma receive_tx_Inr:
  assumes "receive_tx ctx input rd c = Inr tx"
  shows "fetchFlowFor ctx (liDirection input) (rvNttInboxItem (rdResolved rd)) = None"
    and "\<exists>mc. last (txIxs tx) = RelayerIx mc \<and> receive (acEnv ctx) (acClient ctx) (receive_params ctx input rd c) = Inr mc"
    and "liDirection input = Deposit \<Longrightarrow>
      deriveInboxAuthority ctx (rwUserWallet c) (rwMinSwapOut c) = Inr (rvRecipientOnSolana (rdResolved rd))"
  using assms by (auto simp: receive_tx_def receive_preflight_def Let_def result_simps split: if_splits)

lemma receive_plan_Inr:
  assumes "receive_plan ctx cache input = (Inr tx, cache', ms)"
  obtains rd c where "receive_resolve ctx input = Inr rd" "receive_tx ctx input rd c = Inr tx"
    "receive_match ctx cache input (rvRecipientOnSolana (rdResolved rd)) = Inr c" "cache' = receive_cache cache input c"
  using assms by (auto simp: receive_plan_def Let_def split: sum.splits)

lemma receive_resolve_off_curve:
  "receive_resolve ctx input = Inr rd \<Longrightarrow> \<not> isOnCurve (acEnv ctx) (rvRecipientOnSolana (rdResolved rd))"
  by (auto simp: receive_resolve_def Let_def result_simps)

lemma u64_le_mod: "u64_le m = u64_le m' \<Longrightarrow> m mod 2 ^ 64 = m' mod 2 ^ 64"
proof -
  assume "u64_le m = u64_le m'"
  then have "nat (m mod 2 ^ 64) mod 256 ^ 8 = nat (m' mod 2 ^ 64) mod 256 ^ 8"
    by (metis le_nat_nat_le u64_le_def)
  then show ?thesis by simp
qed

lemma inbox_unique:
  assumes "pda_collision_free env"
    and "findUserInboxWithMinPda env w m p = Inr (k, b)" "findUserInboxWithMinPda env w' m' p = Inr (k, b')"
  shows "w = w'" "m mod 2 ^ 64 = m' mod 2 ^ 64"
proof -
  have "concat [USER_INBOX_SEED, w, u64_le m] = concat [USER_INBOX_SEED, w', u64_le m']"
    using assms unfolding pda_collision_free_def findUserInboxWithMinPda_def Let_def
    by (metis length_u64(1) put_whole)
  then have "w @ u64_le m = w' @ u64_le m'" by simp
  then have "w = w' \<and> u64_le m = u64_le m'" by (simp add: append_eq_append_conv)
  then show "w = w'" "m mod 2 ^ 64 = m' mod 2 ^ 64" by (auto dest: u64_le_mod)
qed

text \<open>C2. A decoy cannot steer a claim: whatever candidates the source transaction or the cache offer, a \<open>receive\<close>
  transaction is only ever submitted with the wallet and the floor (as a u64) that the VAA's recipient address
  commits to, for an off-curve recipient and only while no flow account exists for the inbox item. An
  operator's explicit wallet is exempt only on the withdraw side.\<close>

theorem receive_floor_unforgeable:
  assumes "receive_plan ctx cache input = (Inr tx, cache', ms)"
    and "liDirection input = Deposit \<or> riUserWallet input = None"
    and "pda_collision_free (acEnv ctx)" "receive_resolve ctx input = Inr rd"
    and "deriveInboxAuthority ctx w m = Inr (rvRecipientOnSolana (rdResolved rd))"
  shows "\<exists>mc m'. last (txIxs tx) = RelayerIx mc \<and> map_of (mcAccounts mc) ''userWallet'' = Some (Some w) \<and>
    map_of (mcAccounts mc) ''userInboxAuthority'' = Some (Some (rvRecipientOnSolana (rdResolved rd))) \<and>
    mcArgs mc = [ArgDirection (liDirection input), ArgNum 11, ArgNum m'] \<and> m' mod 2 ^ 64 = m mod 2 ^ 64 \<and>
    fetchFlowFor ctx (liDirection input) (rvNttInboxItem (rdResolved rd)) = None \<and>
    \<not> isOnCurve (acEnv ctx) (rvRecipientOnSolana (rdResolved rd))"
proof -
  let ?k = "rvRecipientOnSolana (rdResolved rd)"
  from assms(1,4) obtain c where tx: "receive_tx ctx input rd c = Inr tx"
    and m: "receive_match ctx cache input ?k = Inr c" by (auto elim: receive_plan_Inr)
  have k: "deriveInboxAuthority ctx (rwUserWallet c) (rwMinSwapOut c) = Inr ?k"
    using assms(2) receive_tx_Inr(3) [OF tx] receive_match_Inr [OF m] by blast
  from receive_tx_Inr(2) [OF tx] obtain mc where
    l: "last (txIxs tx) = RelayerIx mc" and r: "receive (acEnv ctx) (acClient ctx) (receive_params ctx input rd c) = Inr mc"
    by blast
  have "rpTransceiverAddress (receive_params ctx input rd c) = Some (rdNttProgram rd)" by (simp add: receive_params_def)
  from receive_shape [OF r this] obtain i b where
    i: "findUserInboxWithMinPda (acEnv ctx) (rwUserWallet c) (rwMinSwapOut c) (rcProgramId (acClient ctx)) = Inr (i, b)"
      "map_of (mcAccounts mc) ''userInboxAuthority'' = Some (Some i)"
      "map_of (mcAccounts mc) ''userWallet'' = Some (Some (rwUserWallet c))"
      "mcArgs mc = [ArgDirection (liDirection input), ArgNum 11, ArgNum (rwMinSwapOut c)]"
    by (auto simp: receive_params_def)
  from k i(1) have ik: "i = ?k" by (simp add: deriveInboxAuthority_def key_of_def)
  from assms(5) obtain b' where
    w: "findUserInboxWithMinPda (acEnv ctx) w m (rcProgramId (acClient ctx)) = Inr (?k, b')"
    by (auto simp: deriveInboxAuthority_def key_of_def result_simps)
  from inbox_unique [OF assms(3) i(1) [unfolded ik] w] i l ik receive_tx_Inr(1) [OF tx] receive_resolve_off_curve [OF assms(4)]
  show ?thesis by auto
qed

definition model_candidate :: RecoveredWalletAndMinOut where
  "model_candidate = \<lparr>rwUserWallet = replicate 32 14, rwMinSwapOut = 5\<rparr>"

definition model_inbox_env :: web3_env where
  "model_inbox_env = pin_env (USER_INBOX_SEED @ replicate 32 14 @ u64_le 5) (rcProgramId model_client) (replicate 32 40)"

definition model_receive_ctx :: AdvanceContext where
  "model_receive_ctx = model_ctx model_inbox_env (encodeVaa (model_vaa (replicate 32 40))) (Inl (Primitive ''no account'')) []"

definition model_receive_input :: ReceiveInput where
  "model_receive_input = \<lparr>liDirection = Deposit, liFogoTx = ''tx'', liVaaHex = None, riUserWallet = None,
     riMinSwapOut = None, riRecvMint = None, riNttProgram = None\<rparr>"

lemma model_receive_derives:
  "deriveInboxAuthority model_receive_ctx (replicate 32 14) 5 = Inr (replicate 32 40)"
proof -
  have "put (replicate 8 0) 0 (u64_le 5) = u64_le 5" by (simp add: put_whole)
  then show ?thesis
    by (simp add: deriveInboxAuthority_def model_receive_ctx_def model_ctx_def findUserInboxWithMinPda_def Let_def
        model_inbox_env_def pin_env_def key_of_def)
qed

lemma model_receive_resolve:
  "\<exists>rd. receive_resolve model_receive_ctx model_receive_input = Inr rd \<and> rvRecipientOnSolana (rdResolved rd) = replicate 32 40"
proof -
  have "length (replicate 32 40 :: pubkey) = 32" by simp
  from model_vaa_resolves [OF pin_env_ctor pin_env_total this] obtain r where
    r: "resolveNttVaa model_inbox_env (encodeVaa (model_vaa (replicate 32 40))) (pcNttBaseProgram model_cfg) None = Inr r"
      "rvRecipientOnSolana r = replicate 32 40" unfolding model_inbox_env_def by blast
  have sel: "acEnv model_receive_ctx = model_inbox_env" "acFetchConfig model_receive_ctx = Inr model_cfg"
    "timedAccountOrNull model_receive_ctx l k \<noteq> None" for l k
    by (simp_all add: model_receive_ctx_def model_ctx_def timedAccountOrNull_def withTimeout_def)
  have inp: "liDirection model_receive_input = Deposit" "liFogoTx model_receive_input = ''tx''" "liVaaHex model_receive_input = None"
    "riNttProgram model_receive_input = None" "riRecvMint model_receive_input = None"
    by (simp_all add: model_receive_input_def)
  have off: "\<not> isOnCurve model_inbox_env (replicate 32 40)"
    by (simp add: model_inbox_env_def pin_env_def model_env_def take_replicate)
  have vaa: "fetchVaaBytes model_receive_ctx ''tx'' None = Inr (encodeVaa (model_vaa (replicate 32 40)))"
    unfolding model_receive_ctx_def by (rule model_ctx_vaa)
  show ?thesis by (simp add: receive_resolve_def Let_def sel inp vaa r off)
qed

lemma model_receive_plan:
  "\<exists>tx cache' ms. receive_plan model_receive_ctx \<lparr>bmMax = 10, bmEntries = [(''tx'', model_candidate)]\<rparr> model_receive_input =
     (Inr tx, cache', ms)"
proof -
  obtain rd where rd: "receive_resolve model_receive_ctx model_receive_input = Inr rd" "rvRecipientOnSolana (rdResolved rd) = replicate 32 40"
    using model_receive_resolve by blast
  let ?cache = "\<lparr>bmMax = 10, bmEntries = [(''tx'', model_candidate)]\<rparr>"
  have m: "receive_match model_receive_ctx ?cache model_receive_input (replicate 32 40) = Inr model_candidate"
    using model_receive_derives
    by (simp add: receive_match_def model_receive_input_def bm_get_def jm_get_def model_candidate_def)
  have tot: "env_total model_inbox_env" by (simp add: model_inbox_env_def pin_env_total)
  obtain g where g: "\<And>s p. key_of (fpa model_inbox_env s p) = Inr (g s p)" using key_of_choice [OF tot] by blast
  obtain tok where tok: "ata model_inbox_env (rdRecvMint rd) (replicate 32 40) True (TOKEN_PROGRAM_ID model_inbox_env) = Inr tok"
    using ata_Ex [OF tot] by blast
  obtain mc where mc: "receive model_inbox_env model_client (receive_params model_receive_ctx model_receive_input rd model_candidate) = Inr mc"
    using receive_total [OF tot] by (metis ReceiveParams.select_convs(8) receive_params_def)
  have sel: "acEnv model_receive_ctx = model_inbox_env" "acClient model_receive_ctx = model_client"
    "acPrepare model_receive_ctx = (\<lambda>_ _ _ _. Inr AlreadyPrepared)"
    "timedAccountOrNull model_receive_ctx l k = Some \<lparr>aiOwner = [], aiLamports = 5, aiData = []\<rparr>" for l k
    by (simp_all add: model_receive_ctx_def model_ctx_def timedAccountOrNull_def withTimeout_def)
  have nofl: "fetchFlowFor model_receive_ctx d i = None" for d i
    by (cases "flowAddress (acEnv model_receive_ctx) (acClient model_receive_ctx) d i")
       (simp_all add: fetchFlowFor_def, simp add: model_receive_ctx_def model_ctx_def)
  have "\<exists>tx. receive_tx model_receive_ctx model_receive_input rd model_candidate = Inr tx"
    using model_receive_derives
    by (simp add: receive_tx_def receive_peer_def receive_preflight_def Let_def nofl sel rd(2) tok mc g findAuthorityPda_def
        readNttInboxAmount_def model_receive_input_def model_candidate_def)
       (simp add: model_receive_input_def [symmetric] model_candidate_def [symmetric] mc)
  with rd m show ?thesis by (auto simp: receive_plan_def Let_def)
qed

theorem receive_floor_unforgeable_witness:
  "\<exists>tx cache' ms mc. receive_plan model_receive_ctx \<lparr>bmMax = 10, bmEntries = [(''tx'', model_candidate)]\<rparr> model_receive_input =
       (Inr tx, cache', ms) \<and>
     last (txIxs tx) = RelayerIx mc \<and> map_of (mcAccounts mc) ''userWallet'' = Some (Some (replicate 32 14))"
proof -
  obtain tx cache' ms where p: "receive_plan model_receive_ctx \<lparr>bmMax = 10, bmEntries = [(''tx'', model_candidate)]\<rparr> model_receive_input =
       (Inr tx, cache', ms)" using model_receive_plan by blast
  obtain rd where rd: "receive_resolve model_receive_ctx model_receive_input = Inr rd" "rvRecipientOnSolana (rdResolved rd) = replicate 32 40"
    using model_receive_resolve by blast
  have d: "liDirection model_receive_input = Deposit \<or> riUserWallet model_receive_input = None" by (simp add: model_receive_input_def)
  have "acEnv model_receive_ctx = model_inbox_env" by (simp add: model_receive_ctx_def model_ctx_def)
  then have cf: "pda_collision_free (acEnv model_receive_ctx)"
    unfolding model_inbox_env_def by (simp add: pin_env_pda)
  from receive_floor_unforgeable [OF p d cf rd(1), of "replicate 32 14" 5] model_receive_derives rd(2) p show ?thesis by auto
qed

section \<open>Send and refund: the flow's own terms\<close>

lemma outbound_tx_Inr:
  assumes "outbound_tx ctx cfg input inbox flow mint manager build = Inr tx"
  obtains release mc where "last (txIxs tx) = RelayerIx mc"
    "build (outbound_params ctx cfg input inbox flow release) = Inr mc"
    "txSigners tx = [acGenerate ctx]" "txPayer tx = acKeypair ctx"
    "acSendLookupTable ctx = Some (hd (txLookupTables tx))"
  using assms by (auto simp: outbound_tx_def Let_def result_simps split: if_splits)

definition gate_open :: "AdvanceContext \<Rightarrow> pubkey \<Rightarrow> bool" where
  "gate_open ctx manager \<longleftrightarrow>
     (\<exists>peer b xcvr b'. findNttPeerPda (acEnv ctx) FOGO_WORMHOLE_CHAIN_ID manager = Inr (peer, b) \<and> accountOrNull ctx peer \<noteq> None \<and>
        findRegisteredTransceiverPda (acEnv ctx) manager manager = Inr (xcvr, b') \<and> accountOrNull ctx xcvr \<noteq> None)"

lemma outboundGate_Inr: "outboundGate ctx manager sev = Inr u \<Longrightarrow> gate_open ctx manager"
  by (auto simp: outboundGate_def gate_open_def key_of_def result_simps)

definition manager_of :: "PairConfig \<Rightarrow> direction \<Rightarrow> pubkey" where
  "manager_of cfg dir = (if dir = Deposit then pcNttBaseProgram cfg else pcNttAssetProgram cfg)"

definition mint_of :: "PairConfig \<Rightarrow> direction \<Rightarrow> pubkey" where
  "mint_of cfg dir = (if dir = Deposit then pcBaseMint cfg else pcAssetMint cfg)"

definition opposite :: "direction \<Rightarrow> direction" where
  "opposite dir = (if dir = Deposit then Withdraw else Deposit)"

text \<open>The flow a leg acts on: the configuration and the VAA it fetched, and the flow of the VAA's inbox item.\<close>

definition acts_on :: "AdvanceContext \<Rightarrow> OutInput \<Rightarrow> PairConfig \<Rightarrow> pubkey \<Rightarrow> FlowAccount \<Rightarrow> bool" where
  "acts_on ctx input cfg inbox flow \<longleftrightarrow>
     (\<exists>vaa r. acFetchConfig ctx = Inr cfg \<and> fetchVaaBytes ctx (liFogoTx input) (liVaaHex input) = Inr vaa \<and>
        resolveNttVaa (acEnv ctx) vaa (manager_of cfg (liDirection input)) None = Inr r \<and> rvNttInboxItem r = inbox \<and>
        fetchFlowFor ctx (liDirection input) inbox = Some flow)"

lemma acts_on_unique: "acts_on ctx input cfg inbox flow \<Longrightarrow> acts_on ctx input cfg' inbox' flow' \<Longrightarrow> flow = flow'"
  by (auto simp: acts_on_def)

text \<open>A transaction that ends in an outbound call for the flow: the tokens of \<open>mint_of cfg dir\<close> leave the relayer's own token account
  through the manager \<open>manager_of cfg dir\<close>, under the session authority of a transfer of the flow's amount to the flow's
  recipient on FOGO; the call names the flow's account and returns its rent to the flow's payer; and the cranker
  pays and signs with the fresh outbox item.\<close>

definition pays_out :: "AdvanceContext \<Rightarrow> string \<Rightarrow> PairConfig \<Rightarrow> direction \<Rightarrow> OutInput \<Rightarrow> pubkey \<Rightarrow> FlowAccount \<Rightarrow> solana_tx \<Rightarrow> bool" where
  "pays_out ctx meth cfg dir input inbox flow tx \<longleftrightarrow>
     (\<exists>mc tok h b f. last (txIxs tx) = RelayerIx mc \<and> mcMethod mc = meth \<and> length (mcRemaining mc) = 29 \<and>
        amPubkey (mcRemaining mc ! 0) = rcAuthorityPda (acClient ctx) \<and>
        mcRemaining mc ! 2 = writable (mint_of cfg dir) \<and> mcRemaining mc ! 13 = readonly (manager_of cfg dir) \<and>
        relayerAta (acEnv ctx) (acClient ctx) (mint_of cfg dir) = Inr tok \<and> mcRemaining mc ! 3 = writable tok \<and>
        nttTransferArgsHash (acEnv ctx) \<lparr>taAmount = flAmount flow, taRecipientChain = FOGO_WORMHOLE_CHAIN_ID,
          taRecipientAddress = flRecipient flow, taShouldQueue = False\<rparr> = Inr h \<and>
        findSessionAuthorityPda (acEnv ctx) (rcAuthorityPda (acClient ctx)) h (manager_of cfg dir) =
          Inr (amPubkey (mcRemaining mc ! 11), b) \<and>
        flowAddress (acEnv ctx) (acClient ctx) (liDirection input) inbox = Inr f \<and>
        map_of (mcAccounts mc) ''flow'' = Some (Some f) \<and>
        map_of (mcAccounts mc) ''rentDestination'' = Some (Some (flPayer flow))) \<and>
     txSigners tx = [acGenerate ctx] \<and> txPayer tx = acKeypair ctx"

lemma pays_outI:
  assumes "last (txIxs tx) = RelayerIx mc" "mcMethod mc = meth"
    and "outbound_of (acEnv ctx) (acClient ctx) (outbound_params ctx cfg input inbox flow release)
           (mint_of cfg dir) (manager_of cfg dir) mc"
    and "txSigners tx = [acGenerate ctx]" "txPayer tx = acKeypair ctx"
  shows "pays_out ctx meth cfg dir input inbox flow tx"
  using assms by (auto simp: pays_out_def outbound_of_def outbound_params_def)

lemma send_plan_Inr:
  assumes "send_plan ctx input = Inr tx"
  shows "\<exists>cfg inbox flow. acts_on ctx input cfg inbox flow \<and> describeStatus flow = StSwapped \<and>
    gate_open ctx (manager_of cfg (opposite (liDirection input))) \<and>
    pays_out ctx ''send'' cfg (opposite (liDirection input)) input inbox flow tx"
proof -
  let ?dir = "liDirection input"
  from assms obtain cfg vaa r flow where
    a: "acFetchConfig ctx = Inr cfg" "fetchVaaBytes ctx (liFogoTx input) (liVaaHex input) = Inr vaa"
      "resolveNttVaa (acEnv ctx) vaa (manager_of cfg ?dir) None = Inr r"
      "fetchFlowFor ctx ?dir (rvNttInboxItem r) = Some flow" "describeStatus flow = StSwapped"
    and g: "gate_open ctx (manager_of cfg (opposite ?dir))"
    and t: "outbound_tx ctx cfg input (rvNttInboxItem r) flow (mint_of cfg (opposite ?dir)) (manager_of cfg (opposite ?dir))
        (send (acEnv ctx) (acClient ctx)) = Inr tx"
    by (cases ?dir) (auto simp: send_plan_def Let_def result_simps manager_of_def mint_of_def opposite_def
      dest!: outboundGate_Inr)
  from t obtain release mc where
    l: "last (txIxs tx) = RelayerIx mc" "txSigners tx = [acGenerate ctx]" "txPayer tx = acKeypair ctx"
    and s: "send (acEnv ctx) (acClient ctx) (outbound_params ctx cfg input (rvNttInboxItem r) flow release) = Inr mc"
    by (auto elim: outbound_tx_Inr)
  from send_outbound [OF s] have "mcMethod mc = ''send''"
    "outbound_of (acEnv ctx) (acClient ctx) (outbound_params ctx cfg input (rvNttInboxItem r) flow release)
      (mint_of cfg (opposite ?dir)) (manager_of cfg (opposite ?dir)) mc"
    by (cases ?dir; simp add: outbound_params_def mint_of_def manager_of_def opposite_def)+
  with l have "pays_out ctx ''send'' cfg (opposite ?dir) input (rvNttInboxItem r) flow tx" by (blast intro: pays_outI)
  moreover have "acts_on ctx input cfg (rvNttInboxItem r) flow" using a by (auto simp: acts_on_def)
  ultimately show ?thesis using a(5) g by blast
qed

lemma refund_plan_Inr:
  assumes "refund_plan ctx input = Inr tx"
  shows "\<exists>cfg inbox flow slot. acts_on ctx input cfg inbox flow \<and> describeStatus flow = StReceived \<and>
    acGetSlot ctx = Inr slot \<and> flReceivedSlot flow + REFUND_TIMEOUT_SLOTS \<le> slot \<and>
    pcNttAssetProgram cfg \<noteq> pcNttBaseProgram cfg \<and> gate_open ctx (manager_of cfg (liDirection input)) \<and>
    pays_out ctx ''refund'' cfg (liDirection input) input inbox flow tx"
proof -
  let ?dir = "liDirection input"
  from assms obtain cfg vaa r flow slot where
    a: "acFetchConfig ctx = Inr cfg" "fetchVaaBytes ctx (liFogoTx input) (liVaaHex input) = Inr vaa"
      "resolveNttVaa (acEnv ctx) vaa (manager_of cfg ?dir) None = Inr r"
      "fetchFlowFor ctx ?dir (rvNttInboxItem r) = Some flow" "describeStatus flow = StReceived"
    and d: "acGetSlot ctx = Inr slot" "refundDue (flReceivedSlot flow) slot" "pcNttAssetProgram cfg \<noteq> pcNttBaseProgram cfg"
    and g: "gate_open ctx (manager_of cfg ?dir)"
    and t: "outbound_tx ctx cfg input (rvNttInboxItem r) flow (mint_of cfg ?dir) (manager_of cfg ?dir)
        (refund (acEnv ctx) (acClient ctx)) = Inr tx"
    by (cases ?dir) (auto simp: refund_plan_def Let_def result_simps manager_of_def mint_of_def dest!: outboundGate_Inr)
  from t obtain release mc where
    l: "last (txIxs tx) = RelayerIx mc" "txSigners tx = [acGenerate ctx]" "txPayer tx = acKeypair ctx"
    and s: "refund (acEnv ctx) (acClient ctx) (outbound_params ctx cfg input (rvNttInboxItem r) flow release) = Inr mc"
    by (auto elim: outbound_tx_Inr)
  from refund_outbound [OF s] have "mcMethod mc = ''refund''"
    "outbound_of (acEnv ctx) (acClient ctx) (outbound_params ctx cfg input (rvNttInboxItem r) flow release)
      (mint_of cfg ?dir) (manager_of cfg ?dir) mc"
    by (cases ?dir; simp add: outbound_params_def mint_of_def manager_of_def)+
  with l have "pays_out ctx ''refund'' cfg ?dir input (rvNttInboxItem r) flow tx" by (blast intro: pays_outI)
  moreover have "acts_on ctx input cfg (rvNttInboxItem r) flow" using a by (auto simp: acts_on_def)
  ultimately show ?thesis using a(5) d g unfolding refundDue_def by blast
qed

text \<open>C5. \<open>send\<close> submits only for a \<open>Swapped\<close> flow, through the manager of the opposite token whose FOGO peer and
  transceiver exist, a transfer of exactly the flow's amount to the flow's recipient on FOGO, out of the relayer's account of that
  token, returning the rent to the flow's payer.\<close>

theorem send_pays_the_flow:
  assumes "send_plan ctx input = Inr tx"
  shows "\<exists>cfg inbox flow. acts_on ctx input cfg inbox flow \<and> describeStatus flow = StSwapped \<and>
    gate_open ctx (manager_of cfg (opposite (liDirection input))) \<and>
    pays_out ctx ''send'' cfg (opposite (liDirection input)) input inbox flow tx"
  using send_plan_Inr [OF assms] .

theorem send_pays_the_flow_witness:
  "\<exists>tx mc h b. send_plan (model_ctx model_env (encodeVaa (model_vaa (replicate 32 4))) (Inr (model_flow True 0)) []) (model_out Deposit) = Inr tx \<and>
     last (txIxs tx) = RelayerIx mc \<and> mcMethod mc = ''send'' \<and> map_of (mcAccounts mc) ''rentDestination'' = Some (Some (replicate 32 9)) \<and>
     nttTransferArgsHash model_env \<lparr>taAmount = flAmount (model_flow True 0), taRecipientChain = FOGO_WORMHOLE_CHAIN_ID,
       taRecipientAddress = flRecipient (model_flow True 0), taShouldQueue = False\<rparr> = Inr h \<and>
     findSessionAuthorityPda model_env (rcAuthorityPda model_client) h (pcNttAssetProgram model_cfg) = Inr (amPubkey (mcRemaining mc ! 11), b)"
proof -
  let ?ctx = "model_ctx model_env (encodeVaa (model_vaa (replicate 32 4))) (Inr (model_flow True 0)) []"
  have sel: "acEnv ?ctx = model_env" "acClient ?ctx = model_client" "acFetchConfig ?ctx = Inr model_cfg"
    "liDirection (model_out Deposit) = Deposit" by (simp_all add: model_ctx_def model_out_def)
  obtain tx where tx: "send_plan ?ctx (model_out Deposit) = Inr tx"
    using model_plans(1) [OF model_env_total model_env_ctor] by blast
  from send_pays_the_flow [OF tx] obtain cfg inbox flow where
    a: "acts_on ?ctx (model_out Deposit) cfg inbox flow"
    and p: "pays_out ?ctx ''send'' cfg (opposite (liDirection (model_out Deposit))) (model_out Deposit) inbox flow tx" by blast
  from a have "flow = model_flow True 0" by (auto simp: acts_on_def model_ctx_flow [OF model_env_total])
  moreover from a have "cfg = model_cfg" by (simp add: acts_on_def sel)
  moreover have "flPayer (model_flow True 0) = replicate 32 9" by (simp add: model_flow_def)
  moreover have "manager_of model_cfg (opposite Deposit) = pcNttAssetProgram model_cfg" by (simp add: manager_of_def opposite_def)
  ultimately show ?thesis using p tx unfolding pays_out_def sel by metis
qed

text \<open>C6. \<open>refund\<close> submits only for a flow still \<open>Received\<close> whose timeout has passed, and returns the token that came in,
  through the manager it came through, in the flow's amount to the flow's recipient; in the same view of the
  chain \<open>send\<close> never submits for that flow.\<close>

theorem refund_only_after_timeout:
  assumes "refund_plan ctx input = Inr tx"
  shows "(\<exists>cfg inbox flow slot. acts_on ctx input cfg inbox flow \<and> describeStatus flow = StReceived \<and>
      acGetSlot ctx = Inr slot \<and> flReceivedSlot flow + REFUND_TIMEOUT_SLOTS \<le> slot \<and>
      gate_open ctx (manager_of cfg (liDirection input)) \<and>
      pays_out ctx ''refund'' cfg (liDirection input) input inbox flow tx) \<and>
    (\<nexists>tx'. send_plan ctx input = Inr tx')"
proof -
  from refund_plan_Inr [OF assms] obtain cfg inbox flow where
    a: "acts_on ctx input cfg inbox flow" "describeStatus flow = StReceived" by blast
  have "\<nexists>tx'. send_plan ctx input = Inr tx'"
    using a acts_on_unique by (metis FlowStatusName.distinct(1) send_plan_Inr)
  with refund_plan_Inr [OF assms] show ?thesis by blast
qed

theorem refund_only_after_timeout_witness:
  "\<exists>tx mc. refund_plan (model_ctx model_env (encodeVaa (model_vaa (replicate 32 4))) (Inr (model_flow False 0)) []) (model_out Deposit) = Inr tx \<and>
     last (txIxs tx) = RelayerIx mc \<and> mcMethod mc = ''refund'' \<and> map_of (mcAccounts mc) ''rentDestination'' = Some (Some (replicate 32 9))"
proof -
  let ?ctx = "model_ctx model_env (encodeVaa (model_vaa (replicate 32 4))) (Inr (model_flow False 0)) []"
  obtain tx where tx: "refund_plan ?ctx (model_out Deposit) = Inr tx"
    using model_plans(2) [OF model_env_total model_env_ctor] by blast
  from refund_only_after_timeout [OF tx] obtain cfg inbox flow where
    a: "acts_on ?ctx (model_out Deposit) cfg inbox flow"
    and p: "pays_out ?ctx ''refund'' cfg (liDirection (model_out Deposit)) (model_out Deposit) inbox flow tx" by blast
  from a have "flow = model_flow False 0" by (auto simp: acts_on_def model_ctx_flow [OF model_env_total])
  with p tx show ?thesis by (auto simp: pays_out_def model_flow_def)
qed

end
