(* ===== verification/Leg_Outcome.thy ===== *)
theory Leg_Outcome
  imports Leg_Safety
begin

text \<open>
  What a leg reports. Every handler ends in the same \<open>try ... catch\<close>; the contract of that end is the locale
  \<open>leg_handler\<close>, which the four legs interpret.
\<close>

section \<open>Which exceptions are lost races\<close>

definition numeric_code :: "thrown \<Rightarrow> int option" where
  "numeric_code err =
     (case err of Primitive _ \<Rightarrow> None
      | Object e \<Rightarrow> (case eoCode e of Some c \<Rightarrow> Some c | None \<Rightarrow> eoAnchorNumber e))"

lemma isLostRace_iff: "isLostRace err \<noteq> None \<longleftrightarrow> numeric_code err = Some 6004 \<or> numeric_code err = Some 6022"
  by (cases err) (auto simp: isLostRace_def numeric_code_def RACE_TABLE_def split: option.splits)

text \<open>NTT's \<open>TransferCannotBeRedeemed\<close> (6008) is not in the table: a leg that fails with it reports an error. The comment of
  \<open>classifyMissingFlow\<close> (\<open>enumerate.ts\<close>) says that it is already classified as a known race; code and comment disagree.\<close>

lemma transfer_cannot_be_redeemed_is_an_error:
  "numeric_code err = Some 6008 \<Longrightarrow> isLostRace err = None"
  using isLostRace_iff [of err] by auto

section \<open>Early returns never claim progress\<close>

fun is_advanced :: "AdvanceResult \<Rightarrow> bool" where
  "is_advanced (Advanced _ _ _) = True"
| "is_advanced _ = False"

definition quiet :: "'a leg \<Rightarrow> bool" where
  "quiet m \<longleftrightarrow> (\<forall>a. m = Inl (Ret a) \<longrightarrow> \<not> is_advanced a)"

named_theorems quiet_intros \<open>early returns of a leg are noops or errors\<close>

lemma quiet_Inr [quiet_intros]: "quiet (Inr x)"
  by (simp add: quiet_def)

lemma quiet_Throw [quiet_intros]: "quiet (Inl (Throw e))"
  by (simp add: quiet_def)

lemma quiet_Noop [quiet_intros]: "quiet (Inl (Ret (Noop r s)))"
  by (simp add: quiet_def)

lemma quiet_Error [quiet_intros]: "quiet (Inl (Ret (ErrorResult e s)))"
  by (simp add: quiet_def)

lemma quiet_await [quiet_intros]: "quiet (await r)"
  by (cases r) (simp_all add: quiet_def)

lemma quiet_call [quiet_intros]: "quiet (call r)"
  by (cases r) (simp_all add: quiet_def)

lemma quiet_return_Noop [quiet_intros]: "quiet (return_if b (Noop r s))"
  by (simp add: quiet_def return_if_def)

lemma quiet_return_Error [quiet_intros]: "quiet (return_if b (ErrorResult e s))"
  by (simp add: quiet_def return_if_def)

lemma quiet_rbind [quiet_intros]: "quiet m \<Longrightarrow> (\<And>x. quiet (f x)) \<Longrightarrow> quiet (rbind m f)"
  by (cases m) (auto simp: quiet_def)

lemma quiet_if [quiet_intros]: "quiet a \<Longrightarrow> quiet b \<Longrightarrow> quiet (if c then a else b)"
  by simp

lemma quiet_option [quiet_intros]: "quiet a \<Longrightarrow> (\<And>x. quiet (f x)) \<Longrightarrow> quiet (case v of None \<Rightarrow> a | Some x \<Rightarrow> f x)"
  by (cases v) simp_all

lemma quiet_prepare [quiet_intros]: "quiet (case p of PrepareError e \<Rightarrow> Inl (Ret (ErrorResult e [])) | _ \<Rightarrow> Inr ())"
  by (cases p) (simp_all add: quiet_def)

lemma quiet_swap_plan: "quiet (swap_plan ctx i)"
  unfolding swap_plan_def swap_deposit_def take_offer_tx_def swap_withdraw_def Let_def prod.case
  by (intro quiet_intros)

lemma quiet_outbound_tx: "quiet (outbound_tx ctx cfg i inbox flow mint manager build)"
  unfolding outbound_tx_def Let_def by (intro quiet_intros)

lemma quiet_outboundGate: "quiet (outboundGate ctx m s)"
  unfolding outboundGate_def by (intro quiet_intros)

lemmas quiet_outbound [quiet_intros] = quiet_outbound_tx quiet_outboundGate

lemma quiet_send_plan: "quiet (send_plan ctx i)"
  unfolding send_plan_def Let_def by (intro quiet_intros)

lemma quiet_refund_plan: "quiet (refund_plan ctx i)"
  unfolding refund_plan_def Let_def by (intro quiet_intros)

lemma quiet_receive_tx: "quiet (receive_tx ctx i rd c)"
  unfolding receive_tx_def receive_peer_def receive_preflight_def Let_def by (intro quiet_intros)

lemma quiet_receive_match: "quiet (receive_match ctx cache i k)"
proof -
  have "quiet (recoverCandidates ctx t)" for t
    by (simp add: recoverCandidates_def quiet_def split: sum.splits)
  then show ?thesis
    unfolding receive_match_def prod.case by (intro quiet_intros) simp_all
qed

lemma quiet_receive_resolve: "quiet (receive_resolve ctx i)"
  unfolding receive_resolve_def Let_def by (intro quiet_intros)

lemma quiet_receive_plan: "quiet (fst (receive_plan ctx cache i))"
  using quiet_receive_tx quiet_receive_match quiet_receive_resolve
  by (auto simp: receive_plan_def quiet_def Let_def split: sum.splits)

section \<open>The contract of a leg\<close>

locale leg_handler =
  fixes leg :: "AdvanceContext \<Rightarrow> 'i \<Rightarrow> AdvanceResult"
    and plan :: "AdvanceContext \<Rightarrow> 'i \<Rightarrow> solana_tx leg"
    and instruction src dst :: string
  assumes leg_settles: "\<exists>dir. leg ctx i = fst (settle instruction dir src dst (rbind (plan ctx i) (\<lambda>tx. await (acSubmit ctx tx))))"
    and plan_quiet: "quiet (plan ctx i)"
begin

lemma no_plan: "plan ctx i = Inl (Ret a) \<Longrightarrow> leg ctx i = a \<and> \<not> is_advanced a"
  using leg_settles [of ctx i] plan_quiet [of ctx i] by (auto simp: settle_def quiet_def)

lemma submitted: "plan ctx i = Inr tx \<Longrightarrow> acSubmit ctx tx = Inr sig \<Longrightarrow> leg ctx i = Advanced [sig] src dst"
  using leg_settles [of ctx i] by (auto simp: settle_def)

lemma threw:
  assumes "plan ctx i = Inl (Throw err) \<or> (\<exists>tx. plan ctx i = Inr tx \<and> acSubmit ctx tx = Inl err)"
  shows "leg ctx i = (case isLostRace err of Some reason \<Rightarrow> Noop reason None | None \<Rightarrow> ErrorResult (toError err) [])"
  using assms leg_settles [of ctx i] by (auto simp: settle_def)

lemma advanced_iff:
  "leg ctx i = Advanced sigs f t \<longleftrightarrow>
     f = src \<and> t = dst \<and> (\<exists>tx sig. plan ctx i = Inr tx \<and> acSubmit ctx tx = Inr sig \<and> sigs = [sig])"
proof (cases "plan ctx i")
  case (Inl e)
  then show ?thesis using no_plan [of ctx i] threw [of ctx i] by (cases e) (auto split: option.splits)
next
  case (Inr tx)
  then show ?thesis using submitted [OF Inr] threw [of ctx i] by (cases "acSubmit ctx tx") (auto split: option.splits)
qed

lemma error_iff:
  assumes "leg ctx i = ErrorResult e sigs" "plan ctx i = Inr tx"
  shows "\<exists>err. acSubmit ctx tx = Inl err \<and> isLostRace err = None \<and> e = toError err"
  using assms submitted [OF assms(2)] threw [of ctx i] by (cases "acSubmit ctx tx") (auto split: option.splits)

end

interpretation swap_h: leg_handler "\<lambda>ctx i. fst (swap_leg ctx i)" swap_plan "''swap''" "''Received''" "''Swapped''"
  by unfold_locales (auto simp: swap_leg_def quiet_swap_plan)

interpretation send_h: leg_handler "\<lambda>ctx i. fst (send_leg ctx i)" send_plan "''send''" "''Swapped''" "''Closed''"
  by unfold_locales (auto simp: send_leg_def quiet_send_plan)

interpretation refund_h: leg_handler "\<lambda>ctx i. fst (refund_leg ctx i)" refund_plan "''refund''" "''Received''" "''Closed''"
  by unfold_locales (auto simp: refund_leg_def quiet_refund_plan)

lemma receive_leg_settles:
  "fst (receive_leg ctx cache i) =
     fst (settle ''receive'' (liDirection i) ''Pending'' ''Received''
       (rbind (fst (receive_plan ctx cache i)) (\<lambda>tx. await (acSubmit ctx tx))))"
  by (simp add: receive_leg_def split: prod.splits)

interpretation receive_h: leg_handler "\<lambda>ctx ci. fst (receive_leg ctx (fst ci) (snd ci))" "\<lambda>ctx ci. fst (receive_plan ctx (fst ci) (snd ci))"
  "''receive''" "''Pending''" "''Received''"
  by unfold_locales (auto simp: receive_leg_settles quiet_receive_plan)

text \<open>C10. A leg claims progress exactly when it planned a transaction and the submission returned a signature, and then it
  claims its own transition: \<open>Pending\<close> to \<open>Received\<close>, \<open>Received\<close> to \<open>Swapped\<close>, \<open>Swapped\<close> to \<open>Closed\<close>, and for a refund
  \<open>Received\<close> to \<open>Closed\<close>. No early return and no exception is ever reported as progress.\<close>

theorem legs_advance_iff_submitted:
  "(fst (receive_leg ctx cache ri) = Advanced sigs f t \<longleftrightarrow> f = ''Pending'' \<and> t = ''Received'' \<and>
      (\<exists>tx sig. fst (receive_plan ctx cache ri) = Inr tx \<and> acSubmit ctx tx = Inr sig \<and> sigs = [sig])) \<and>
   (fst (swap_leg ctx si) = Advanced sigs f t \<longleftrightarrow> f = ''Received'' \<and> t = ''Swapped'' \<and>
      (\<exists>tx sig. swap_plan ctx si = Inr tx \<and> acSubmit ctx tx = Inr sig \<and> sigs = [sig])) \<and>
   (fst (send_leg ctx oi) = Advanced sigs f t \<longleftrightarrow> f = ''Swapped'' \<and> t = ''Closed'' \<and>
      (\<exists>tx sig. send_plan ctx oi = Inr tx \<and> acSubmit ctx tx = Inr sig \<and> sigs = [sig])) \<and>
   (fst (refund_leg ctx oi) = Advanced sigs f t \<longleftrightarrow> f = ''Received'' \<and> t = ''Closed'' \<and>
      (\<exists>tx sig. refund_plan ctx oi = Inr tx \<and> acSubmit ctx tx = Inr sig \<and> sigs = [sig]))"
  using receive_h.advanced_iff [of ctx "(cache, ri)"] swap_h.advanced_iff [of ctx si] send_h.advanced_iff [of ctx oi]
    refund_h.advanced_iff [of ctx oi]
  by simp

definition reports_failure :: "thrown \<Rightarrow> AdvanceResult \<Rightarrow> bool" where
  "reports_failure err r \<longleftrightarrow>
     (if numeric_code err = Some 6004 \<or> numeric_code err = Some 6022
      then (\<exists>reason. r = Noop reason None)
      else r = ErrorResult (toError err) [])"

text \<open>C11. Apart from the NTT error 6008, on which the code and a comment disagree (above), a submission that fails
  is a benign race, reported as a noop, exactly for the two program errors of the classifier's table (6004 and 6022, read
  from \<open>code\<close> first and from \<open>error.errorCode.number\<close> otherwise); every other failure is reported as an error
  that carries the exception and no signature. This holds of all four legs; none reports a failed submission as
  progress.\<close>

theorem failed_submission_reported:
  assumes "acSubmit ctx tx = Inl err" "numeric_code err \<noteq> Some 6008"
  shows "(fst (receive_plan ctx cache ri) = Inr tx \<longrightarrow> reports_failure err (fst (receive_leg ctx cache ri))) \<and>
    (swap_plan ctx si = Inr tx \<longrightarrow> reports_failure err (fst (swap_leg ctx si))) \<and>
    (send_plan ctx oi = Inr tx \<longrightarrow> reports_failure err (fst (send_leg ctx oi))) \<and>
    (refund_plan ctx oi = Inr tx \<longrightarrow> reports_failure err (fst (refund_leg ctx oi)))"
proof -
  have "reports_failure err (case isLostRace err of Some reason \<Rightarrow> Noop reason None | None \<Rightarrow> ErrorResult (toError err) [])"
    using isLostRace_iff [of err] by (auto simp: reports_failure_def split: option.splits)
  then show ?thesis
    using receive_h.threw [of ctx "(cache, ri)" err] swap_h.threw [of ctx si err] send_h.threw [of ctx oi err]
      refund_h.threw [of ctx oi err] assms
    by auto
qed

lemma refund_plan_submit: "refund_plan (ctx\<lparr>acSubmit := s\<rparr>) i = refund_plan ctx i"
proof -
  have a: "fetchVaaBytes (ctx\<lparr>acSubmit := s\<rparr>) = fetchVaaBytes ctx" "fetchFlowFor (ctx\<lparr>acSubmit := s\<rparr>) = fetchFlowFor ctx"
    "outboundGate (ctx\<lparr>acSubmit := s\<rparr>) = outboundGate ctx"
    by (auto simp: fun_eq_iff fetchVaaBytes_def withTimeout_def fetchFlowFor_def outboundGate_def accountOrNull_def)
  have b: "outbound_tx (ctx\<lparr>acSubmit := s\<rparr>) = outbound_tx ctx"
    by (intro ext; cases "acSendLookupTable ctx")
       (simp_all add: outbound_tx_def buildTopUpIxs_def accountOrNull_def deriveReleaseAccounts_def outbound_params_def Let_def cong: if_cong)
  show ?thesis by (simp add: refund_plan_def a b cong: option.case_cong)
qed

theorem failed_submission_reported_witness:
  "\<exists>ctx. reports_failure (Primitive ''blockhash expired'') (fst (refund_leg ctx (model_out Deposit))) \<and>
     fst (refund_leg ctx (model_out Deposit)) = ErrorResult (toError (Primitive ''blockhash expired'')) []"
proof -
  let ?base = "model_ctx model_env (encodeVaa (model_vaa (replicate 32 4))) (Inr (model_flow False 0)) []"
  let ?ctx = "?base\<lparr>acSubmit := \<lambda>_. Inl (Primitive ''blockhash expired'')\<rparr>"
  obtain tx where "refund_plan ?base (model_out Deposit) = Inr tx"
    using model_plans(2) [OF model_env_total model_env_ctor] by blast
  then have p: "refund_plan ?ctx (model_out Deposit) = Inr tx" by (simp only: refund_plan_submit)
  have "acSubmit ?ctx tx = Inl (Primitive ''blockhash expired'')" by simp
  moreover have "numeric_code (Primitive ''blockhash expired'') \<noteq> Some 6008" by (simp add: numeric_code_def)
  ultimately have "refund_plan ?ctx (model_out Deposit) = Inr tx \<longrightarrow>
      reports_failure (Primitive ''blockhash expired'') (fst (refund_leg ?ctx (model_out Deposit)))"
    using failed_submission_reported by blast
  with p
  have "reports_failure (Primitive ''blockhash expired'') (fst (refund_leg ?ctx (model_out Deposit)))" by blast
  moreover from this have "fst (refund_leg ?ctx (model_out Deposit)) = ErrorResult (toError (Primitive ''blockhash expired'')) []"
    by (simp add: reports_failure_def numeric_code_def)
  ultimately show ?thesis by blast
qed

end
