(* ===== verification/Flow_State.thy ===== *)
theory Flow_State
  imports Js_Map
begin

text \<open>
  The per-flow processing state machine of \<open>packages/cranker/src/state/flow-state.ts\<close>: which flows the
  cranker may dispatch, which are backing off, which are quarantined. Times are milliseconds as
  \<open>int\<close>. A tracker is its options and a \<open>BoundedMap\<close> from flow addresses to states; absence from the
  map is the idle state. The operations are also run as a trace (\<open>tracker_op\<close>, \<open>run\<close>), over which the
  claims about whole executions are stated.
\<close>

datatype FlowProcState =
    InFlight (startedAt: int) (attempts: nat)
  | Cooldown (until: int) (attempts: nat)
  | Poisoned (firstSeenAt: int) (attempts: nat) (lastErrorClass: string)

definition COOLDOWN_BASE_MS :: int where
  "COOLDOWN_BASE_MS = 30000"

definition COOLDOWN_MAX_MS :: int where
  "COOLDOWN_MAX_MS = 60 * 60000"

definition POISON_THRESHOLD :: int where
  "POISON_THRESHOLD = 8"

definition IN_FLIGHT_TIMEOUT_MS :: int where
  "IN_FLIGHT_TIMEOUT_MS = 5 * 60000"

record FlowStateTrackerOptions =
  cooldownBaseMs :: "int option"
  cooldownMaxMs :: "int option"
  poisonThreshold :: "int option"
  inFlightTimeoutMs :: "int option"
  maxEntries :: "int option"

record FlowStateTracker =
  states :: "(string, FlowProcState) BoundedMap"
  optCooldownBaseMs :: int
  optCooldownMaxMs :: int
  optPoisonThreshold :: int
  optInFlightTimeoutMs :: int

definition orElse :: "'a option \<Rightarrow> 'a \<Rightarrow> 'a" where
  "orElse m d = (case m of None \<Rightarrow> d | Some x \<Rightarrow> x)"

definition newFlowStateTracker :: "FlowStateTrackerOptions \<Rightarrow> FlowStateTracker result" where
  "newFlowStateTracker opts =
     rbind (newBoundedMap (orElse (maxEntries opts) 10000)) (\<lambda>m. Inr
       \<lparr>states = m,
        optCooldownBaseMs = orElse (cooldownBaseMs opts) COOLDOWN_BASE_MS,
        optCooldownMaxMs = orElse (cooldownMaxMs opts) COOLDOWN_MAX_MS,
        optPoisonThreshold = orElse (poisonThreshold opts) POISON_THRESHOLD,
        optInFlightTimeoutMs = orElse (inFlightTimeoutMs opts) IN_FLIGHT_TIMEOUT_MS\<rparr>)"

definition inspect :: "FlowStateTracker \<Rightarrow> string \<Rightarrow> FlowProcState option" where
  "inspect t flow = bm_get (states t) flow"

text \<open>\<open>beginIfReady\<close> returns \<open>None\<close> when the slot is granted and the refusal reason otherwise.\<close>

definition grant :: "FlowStateTracker \<Rightarrow> string \<Rightarrow> int \<Rightarrow> nat \<Rightarrow> string option \<times> FlowStateTracker" where
  "grant t flow now priorAttempts =
     (None, t\<lparr>states := bm_set flow (InFlight now priorAttempts) (states t)\<rparr>)"

definition beginIfReady :: "FlowStateTracker \<Rightarrow> string \<Rightarrow> int \<Rightarrow> string option \<times> FlowStateTracker" where
  "beginIfReady t flow now =
     (case inspect t flow of
        None \<Rightarrow> grant t flow now 0
      | Some (InFlight started n) \<Rightarrow>
          if now - started < optInFlightTimeoutMs t then (Some ''inFlight'', t)
          else grant t flow now n
      | Some (Cooldown due n) \<Rightarrow>
          if now < due then (Some ''cooldown'', t)
          else grant t flow now n
      | Some (Poisoned _ _ _) \<Rightarrow> (Some ''poisoned'', t))"

definition recordSuccess :: "FlowStateTracker \<Rightarrow> string \<Rightarrow> FlowStateTracker" where
  "recordSuccess t flow = t\<lparr>states := bm_delete flow (states t)\<rparr>"

definition attemptsOf :: "FlowProcState option \<Rightarrow> nat" where
  "attemptsOf s = (case s of None \<Rightarrow> 0 | Some p \<Rightarrow> attempts p)"

definition nextOnError :: "FlowStateTracker \<Rightarrow> FlowProcState option \<Rightarrow> string \<Rightarrow> int \<Rightarrow> FlowProcState" where
  "nextOnError t prev errorClass now =
     (let n = attemptsOf prev + 1 in
      if int n \<ge> optPoisonThreshold t then
        Poisoned (case prev of Some (Poisoned f _ _) \<Rightarrow> f | _ \<Rightarrow> now) n errorClass
      else
        Cooldown (now + min (optCooldownBaseMs t * 2 ^ (n - 1)) (optCooldownMaxMs t)) n)"

definition recordError ::
  "FlowStateTracker \<Rightarrow> string \<Rightarrow> string \<Rightarrow> int \<Rightarrow> FlowProcState \<times> FlowStateTracker" where
  "recordError t flow errorClass now =
     (let next_state = nextOnError t (inspect t flow) errorClass now
      in (next_state, t\<lparr>states := bm_set flow next_state (states t)\<rparr>))"

fun isPoisoned :: "FlowProcState \<Rightarrow> bool" where
  "isPoisoned (Poisoned _ _ _) = True"
| "isPoisoned _ = False"

fun isCooldown :: "FlowProcState \<Rightarrow> bool" where
  "isCooldown (Cooldown _ _) = True"
| "isCooldown _ = False"

definition stuckCounts :: "FlowStateTracker \<Rightarrow> nat \<times> nat" where
  "stuckCounts t =
     (let vs = map snd (bmEntries (states t))
      in (length (filter isPoisoned vs), length (filter isCooldown vs)))"

definition clearBackoff :: "FlowStateTracker \<Rightarrow> (string list \<times> string list) \<times> FlowStateTracker" where
  "clearBackoff t =
     (let es = bmEntries (states t);
          poisoned = map fst (filter (\<lambda>(_, s). isPoisoned s) es);
          cooldown = map fst (filter (\<lambda>(_, s). isCooldown s) es)
      in ((poisoned, cooldown), t\<lparr>states := fold bm_delete (poisoned @ cooldown) (states t)\<rparr>))"

definition tracker_size :: "FlowStateTracker \<Rightarrow> nat" where
  "tracker_size t = bm_size (states t)"

section \<open>Executions\<close>

datatype tracker_op =
    Begin string int
  | Success string
  | Fail string string int
  | Clear

fun apply_op :: "tracker_op \<Rightarrow> FlowStateTracker \<Rightarrow> FlowStateTracker" where
  "apply_op (Begin f now) t = snd (beginIfReady t f now)"
| "apply_op (Success f) t = recordSuccess t f"
| "apply_op (Fail f c now) t = snd (recordError t f c now)"
| "apply_op Clear t = snd (clearBackoff t)"

definition run :: "tracker_op list \<Rightarrow> FlowStateTracker \<Rightarrow> FlowStateTracker" where
  "run ops t = fold apply_op ops t"

lemma run_simps [simp]: "run [] t = t" "run (x # ops) t = run ops (apply_op x t)"
  by (simp_all add: run_def)

fun op_key :: "tracker_op \<Rightarrow> string set" where
  "op_key (Begin f _) = {f}"
| "op_key (Success f) = {f}"
| "op_key (Fail f _ _) = {f}"
| "op_key Clear = {}"

section \<open>Invariant\<close>

fun state_ok :: "int \<Rightarrow> FlowProcState \<Rightarrow> bool" where
  "state_ok thr (InFlight _ n) = (n = 0 \<or> int n < thr)"
| "state_ok thr (Cooldown _ n) = (0 < n \<and> int n < thr)"
| "state_ok thr (Poisoned _ n _) = (0 < n \<and> thr \<le> int n)"

definition tracker_ok :: "FlowStateTracker \<Rightarrow> bool" where
  "tracker_ok t \<longleftrightarrow> bm_ok (states t) \<and>
     (\<forall>f s. inspect t f = Some s \<longrightarrow> state_ok (optPoisonThreshold t) s)"

lemma state_ok_next:
  "(case prev of None \<Rightarrow> True | Some s \<Rightarrow> state_ok (optPoisonThreshold t) s) \<Longrightarrow>
     state_ok (optPoisonThreshold t) (nextOnError t prev c now)"
  by (simp add: nextOnError_def Let_def)

lemma tracker_ok_set:
  assumes "tracker_ok t" "state_ok (optPoisonThreshold t) s"
  shows "tracker_ok (t\<lparr>states := bm_set f s (states t)\<rparr>)"
proof -
  have ok: "bm_ok (states t)" using assms(1) by (simp add: tracker_ok_def)
  have "state_ok (optPoisonThreshold t) w" if "bm_get (bm_set f s (states t)) k = Some w" for k w
    using bm.values_put [OF ok, where P = "\<lambda>_. state_ok (optPoisonThreshold t)", OF _ assms(2) that]
      assms(1) by (simp add: tracker_ok_def inspect_def)
  then show ?thesis using ok by (simp add: tracker_ok_def inspect_def bm.inv_put)
qed

lemma tracker_ok_drops:
  assumes "tracker_ok t"
  shows "tracker_ok (t\<lparr>states := fold bm_delete ks (states t)\<rparr>)"
  using assms bm.values_drops [of "states t" "\<lambda>_. state_ok (optPoisonThreshold t)"]
  by (auto simp: tracker_ok_def inspect_def bm.inv_drops)

lemma tracker_ok_begin: "tracker_ok t \<Longrightarrow> tracker_ok (snd (beginIfReady t f now))"
proof -
  assume ok: "tracker_ok t"
  then have s: "inspect t f = Some s \<Longrightarrow> state_ok (optPoisonThreshold t) s" for s
    by (simp add: tracker_ok_def)
  show ?thesis
    using ok s tracker_ok_set [OF ok]
    by (auto simp: beginIfReady_def grant_def split: option.split FlowProcState.split)
qed

lemma tracker_ok_op: "tracker_ok t \<Longrightarrow> tracker_ok (apply_op x t)"
proof (cases x)
  case (Success f)
  then show "tracker_ok t \<Longrightarrow> ?thesis"
    using tracker_ok_drops [of t "[f]"] by (simp add: recordSuccess_def)
next
  case (Fail f c now)
  assume ok: "tracker_ok t"
  then have "state_ok (optPoisonThreshold t) (nextOnError t (inspect t f) c now)"
    by (intro state_ok_next) (auto simp: tracker_ok_def split: option.split)
  with Fail ok show ?thesis by (simp add: recordError_def Let_def tracker_ok_set)
next
  case Clear
  then show "tracker_ok t \<Longrightarrow> ?thesis"
    using tracker_ok_drops [of t] by (simp add: clearBackoff_def Let_def del: fold_append)
qed (simp add: tracker_ok_begin)

lemma tracker_ok_run: "tracker_ok t \<Longrightarrow> tracker_ok (run ops t)"
  by (induction ops arbitrary: t) (simp_all add: tracker_ok_op)

lemma fold_delete_max [simp]: "bmMax (fold bm_delete ks b) = bmMax b"
  by (induction ks arbitrary: b) simp_all

lemma opts_op [simp]:
  "optPoisonThreshold (apply_op x t) = optPoisonThreshold t"
  "optInFlightTimeoutMs (apply_op x t) = optInFlightTimeoutMs t"
  "bmMax (states (apply_op x t)) = bmMax (states t)"
  by (cases x; simp add: beginIfReady_def grant_def recordSuccess_def recordError_def clearBackoff_def
      Let_def split: option.split FlowProcState.split)+

lemma opts_run [simp]:
  "optPoisonThreshold (run ops t) = optPoisonThreshold t"
  "optInFlightTimeoutMs (run ops t) = optInFlightTimeoutMs t"
  "bmMax (states (run ops t)) = bmMax (states t)"
  by (induction ops arbitrary: t) simp_all

lemma inspect_begin:
  "inspect t f = None \<Longrightarrow> beginIfReady t f now = grant t f now 0"
  "inspect t f = Some (InFlight s n) \<Longrightarrow> beginIfReady t f now =
     (if now - s < optInFlightTimeoutMs t then (Some ''inFlight'', t) else grant t f now n)"
  "inspect t f = Some (Cooldown u n) \<Longrightarrow> beginIfReady t f now =
     (if now < u then (Some ''cooldown'', t) else grant t f now n)"
  "inspect t f = Some (Poisoned a n c) \<Longrightarrow> beginIfReady t f now = (Some ''poisoned'', t)"
  by (simp_all add: beginIfReady_def)

lemma begin_cases [case_names refused granted]:
  obtains (refused) r where "beginIfReady t f now = (Some r, t)"
  | (granted) "beginIfReady t f now = grant t f now (attemptsOf (inspect t f))"
proof (cases "fst (beginIfReady t f now)")
  case None
  then have "beginIfReady t f now = grant t f now (attemptsOf (inspect t f))"
    by (auto simp: beginIfReady_def attemptsOf_def split: option.splits FlowProcState.splits if_splits)
  then show thesis by (rule granted)
next
  case (Some r)
  then have "beginIfReady t f now = (Some r, t)"
    by (auto simp: beginIfReady_def grant_def split: option.splits FlowProcState.splits if_splits)
  then show thesis by (rule refused)
qed

section \<open>Executions that fit the map\<close>

definition trace_keys :: "FlowStateTracker \<Rightarrow> tracker_op list \<Rightarrow> string set" where
  "trace_keys t ops = bm_keys (states t) \<union> (\<Union>x \<in> set ops. op_key x)"

definition trace_fits :: "FlowStateTracker \<Rightarrow> tracker_op list \<Rightarrow> bool" where
  "trace_fits t ops \<longleftrightarrow> int (card (trace_keys t ops)) \<le> bmMax (states t)"

lemma finite_trace_keys: "finite (trace_keys t ops)"
proof -
  have "finite (op_key x)" for x by (cases x) auto
  then show ?thesis by (simp add: trace_keys_def bm_keys_def)
qed

lemma fits_subset:
  assumes "trace_fits t ops" "A \<subseteq> trace_keys t ops"
  shows "int (card A) \<le> bmMax (states t)"
  using card_mono [OF finite_trace_keys assms(2)] assms(1) by (simp add: trace_fits_def)

lemma bm_keys_drops: "bm_keys (fold bm_delete ks b) = bm_keys b - set ks"
  by (induction ks arbitrary: b) (auto simp: bm_keys_delete)

lemma keys_op:
  assumes "tracker_ok t" "trace_fits t (x # ops)"
  shows "bm_keys (states (apply_op x t)) \<subseteq> bm_keys (states t) \<union> op_key x"
proof (cases x)
  case (Begin f now)
  have "int (card (insert f (bm_keys (states t)))) \<le> bmMax (states t)"
    using Begin assms(2) by (rule_tac fits_subset) (auto simp: trace_keys_def)
  then show ?thesis
    using assms(1) Begin
    by (cases rule: begin_cases [of t f now]) (auto simp: grant_def tracker_ok_def bm_set_fits)
next
  case (Fail f c now)
  have "int (card (insert f (bm_keys (states t)))) \<le> bmMax (states t)"
    using Fail assms(2) by (rule_tac fits_subset) (auto simp: trace_keys_def)
  then show ?thesis
    using assms(1) Fail by (simp add: recordError_def Let_def tracker_ok_def bm_set_fits)
qed (auto simp: recordSuccess_def clearBackoff_def Let_def bm_keys_delete bm_keys_drops)

lemma fits_step:
  assumes "tracker_ok t" "trace_fits t (x # ops)"
  shows "trace_fits (apply_op x t) ops"
proof -
  have "trace_keys (apply_op x t) ops \<subseteq> trace_keys t (x # ops)"
    using keys_op [OF assms] by (auto simp: trace_keys_def)
  from fits_subset [OF assms(2) this] show ?thesis by (simp add: trace_fits_def)
qed

lemma inspect_set:
  assumes "tracker_ok t" "trace_fits t (x # ops)" "op_key x = {g}"
  shows "inspect (t\<lparr>states := bm_set g s (states t)\<rparr>) f = (if f = g then Some s else inspect t f)"
proof -
  have "int (card (insert g (bm_keys (states t)))) \<le> bmMax (states t)"
    using assms(2,3) by (rule_tac fits_subset) (auto simp: trace_keys_def)
  with assms(1) show ?thesis by (simp add: inspect_def tracker_ok_def bm_set_fits)
qed

lemma inspect_op_other:
  assumes "tracker_ok t" "trace_fits t (x # ops)" "f \<notin> op_key x" "x \<noteq> Clear"
  shows "inspect (apply_op x t) f = inspect t f"
proof (cases x)
  case (Begin g now)
  with assms(3) inspect_set [OF assms(1,2)] show ?thesis
    by (cases rule: begin_cases [of t g now]) (simp_all add: grant_def)
next
  case (Fail g c now)
  with assms(3) inspect_set [OF assms(1,2)] show ?thesis by (simp add: recordError_def Let_def)
next
  case (Success g)
  with assms(1,3) show ?thesis
    by (simp add: recordSuccess_def inspect_def tracker_ok_def bm.get_drop)
qed (use assms(4) in simp)

lemma bm_get_entries: "bm_ok b \<Longrightarrow> bm_get b f = Some s \<longleftrightarrow> (f, s) \<in> set (bmEntries b)"
  by (simp add: bm_get_def bm_ok_def jm_ok_def jm_get_def)

lemma inspect_clear:
  assumes "tracker_ok t"
  shows "inspect (snd (clearBackoff t)) f =
    (case inspect t f of Some (InFlight s n) \<Rightarrow> Some (InFlight s n) | _ \<Rightarrow> None)"
proof -
  have ok: "bm_ok (states t)" using assms by (simp add: tracker_ok_def)
  have P: "f \<in> set (map fst (filter (\<lambda>(_, s). q s) (bmEntries (states t)))) \<longleftrightarrow>
           (\<exists>s. inspect t f = Some s \<and> q s)" for q
    by (force simp: inspect_def bm_get_entries [OF ok])
  have "inspect (snd (clearBackoff t)) f =
    (if \<exists>s. inspect t f = Some s \<and> (isPoisoned s \<or> isCooldown s) then None else inspect t f)"
    using P [of isPoisoned] P [of isCooldown]
    by (auto simp: inspect_def clearBackoff_def Let_def bm.get_drops [OF ok]
        simp del: fold_append set_map set_filter)
  then show ?thesis by (auto split: option.split FlowProcState.split)
qed

section \<open>Claims\<close>

text \<open>The tracker never holds more than \<open>maxEntries\<close> flows, and in every execution from a fresh tracker
  each held state is coherent: a cooling-down flow has failed at least once but fewer times than the
  poison threshold, and a flow is poisoned only with at least that many failures.\<close>

theorem tracker_invariant:
  "case newFlowStateTracker opts of
     Inl _ \<Rightarrow> orElse (maxEntries opts) 10000 \<le> 0
   | Inr t0 \<Rightarrow> (let t = run ops t0 in
       int (tracker_size t) \<le> orElse (maxEntries opts) 10000 \<and>
       (case inspect t f of None \<Rightarrow> True
        | Some s \<Rightarrow> state_ok (orElse (poisonThreshold opts) POISON_THRESHOLD) s))"
proof (cases "newFlowStateTracker opts")
  case (Inl e)
  then show ?thesis by (auto simp: newFlowStateTracker_def newBoundedMap_def split: if_splits)
next
  case (Inr t0)
  then have m: "newBoundedMap (orElse (maxEntries opts) 10000) = Inr (states t0)"
    and thr: "optPoisonThreshold t0 = orElse (poisonThreshold opts) POISON_THRESHOLD"
    by (auto simp: newFlowStateTracker_def)
  note b = newBoundedMap_ok [OF m]
  then have "tracker_ok t0" by (simp add: tracker_ok_def inspect_def bm_get_def)
  from tracker_ok_run [OF this, of ops] have "tracker_ok (run ops t0)" .
  with b thr Inr show ?thesis
    by (auto simp: Let_def tracker_ok_def tracker_size_def bm_ok_def split: option.split)
qed

text \<open>The tracker that \<open>new FlowStateTracker()\<close> builds.\<close>

definition freshTracker :: FlowStateTracker where
  "freshTracker = \<lparr>states = \<lparr>bmMax = 10000, bmEntries = []\<rparr>, optCooldownBaseMs = 30000,
     optCooldownMaxMs = 3600000, optPoisonThreshold = 8, optInFlightTimeoutMs = 300000\<rparr>"

lemma newFlowStateTracker_default:
  "newFlowStateTracker \<lparr>cooldownBaseMs = None, cooldownMaxMs = None, poisonThreshold = None,
     inFlightTimeoutMs = None, maxEntries = None\<rparr> = Inr freshTracker"
  by (simp add: newFlowStateTracker_def newBoundedMap_def orElse_def freshTracker_def COOLDOWN_BASE_MS_def
      COOLDOWN_MAX_MS_def POISON_THRESHOLD_def IN_FLIGHT_TIMEOUT_MS_def)

lemma tracker_ok_fresh: "tracker_ok freshTracker"
  by (simp add: tracker_ok_def freshTracker_def inspect_def bm_get_def bm_ok_def bm_size_def)

lemma inspect_fresh [simp]: "inspect freshTracker f = None"
  by (simp add: inspect_def freshTracker_def bm_get_def)

lemma fits_fresh: "length ops \<le> 10000 \<Longrightarrow> trace_fits freshTracker ops"
proof -
  assume len: "length ops \<le> 10000"
  have le1: "card (op_key x) \<le> 1" for x by (cases x) auto
  have "card (\<Union>x \<in> set ops. op_key x) \<le> (\<Sum>x \<in> set ops. card (op_key x))"
    by (rule card_UN_le) simp
  also have "\<dots> \<le> (\<Sum>x \<in> set ops. 1)" by (rule sum_mono) (rule le1)
  also have "\<dots> \<le> length ops" by (simp add: card_length)
  finally show ?thesis using len
    by (simp add: trace_fits_def trace_keys_def freshTracker_def bm_keys_def)
qed

text \<open>The operations that leave a granted slot in place: no report on the flow itself, and no attempt
  to take it at or after \<open>lim\<close>.\<close>

fun keeps_slot :: "string \<Rightarrow> int \<Rightarrow> tracker_op \<Rightarrow> bool" where
  "keeps_slot f lim (Begin g now) = (g = f \<longrightarrow> now < lim)"
| "keeps_slot f lim (Success g) = (g \<noteq> f)"
| "keeps_slot f lim (Fail g c now) = (g \<noteq> f)"
| "keeps_slot f lim Clear = True"

lemma slot_step:
  assumes "tracker_ok t" "trace_fits t (x # ops)" "keeps_slot f (t0 + optInFlightTimeoutMs t) x"
    and "inspect t f = Some (InFlight t0 n)"
  shows "inspect (apply_op x t) f = Some (InFlight t0 n)"
proof (cases "f \<in> op_key x \<or> x = Clear")
  case True
  with assms inspect_clear [OF assms(1), of f] show ?thesis
    by (cases x) (auto simp: inspect_begin)
next
  case False
  with inspect_op_other [OF assms(1,2)] assms(4) show ?thesis by simp
qed

lemma slot_run:
  assumes "tracker_ok t" "trace_fits t ops" "list_all (keeps_slot f (t0 + optInFlightTimeoutMs t)) ops"
    and "inspect t f = Some (InFlight t0 n)"
  shows "inspect (run ops t) f = Some (InFlight t0 n)"
  using assms
proof (induction ops arbitrary: t)
  case (Cons x ops)
  then show ?case
    using slot_step [of t x ops f t0 n] by (simp add: tracker_ok_op fits_step)
qed simp

text \<open>C28. Single dispatch: once \<open>beginIfReady\<close> has granted a flow at \<open>t0\<close>, no later call grants it again
  before \<open>t0\<close> plus the in-flight timeout, whatever happens to the other flows and whether or not the
  operator clears the backoff, as long as the flow's outcome has not been recorded and the flows in
  play fit the map.\<close>

theorem single_dispatch:
  assumes "tracker_ok t" "trace_fits t (Begin f t0 # ops)"
    and "fst (beginIfReady t f t0) = None"
    and "list_all (keeps_slot f (t0 + optInFlightTimeoutMs t)) ops"
    and "now < t0 + optInFlightTimeoutMs t"
  shows "fst (beginIfReady (run (Begin f t0 # ops) t) f now) = Some ''inFlight''"
proof -
  have "beginIfReady t f t0 = grant t f t0 (attemptsOf (inspect t f))"
    using assms(3) by (cases rule: begin_cases [of t f t0]) auto
  then have granted: "inspect (apply_op (Begin f t0) t) f = Some (InFlight t0 (attemptsOf (inspect t f)))"
    using inspect_set [OF assms(1,2)] by (simp add: grant_def)
  have keep: "list_all (keeps_slot f (t0 + optInFlightTimeoutMs (apply_op (Begin f t0) t))) ops"
    using assms(4) by (simp only: opts_op)
  have slot: "inspect (run (Begin f t0 # ops) t) f = Some (InFlight t0 (attemptsOf (inspect t f)))"
    using slot_run [OF tracker_ok_op [OF assms(1)] fits_step [OF assms(1,2)] keep granted]
    by (simp only: run_simps)
  have "optInFlightTimeoutMs (run (Begin f t0 # ops) t) = optInFlightTimeoutMs t" by (rule opts_run)
  with assms(5) show ?thesis by (simp only: inspect_begin(2) [OF slot]) simp
qed

theorem single_dispatch_witness:
  "fst (beginIfReady (run [Begin ''a'' 0, Begin ''b'' 10, Fail ''b'' ''e'' 20, Clear, Begin ''a'' 30] freshTracker)
     ''a'' 299999) = Some ''inFlight''"
  using single_dispatch [OF tracker_ok_fresh, of "''a''" 0
      "[Begin ''b'' 10, Fail ''b'' ''e'' 20, Clear, Begin ''a'' 30]" 299999]
  by (simp add: fits_fresh inspect_begin grant_def) (simp add: freshTracker_def)

text \<open>The number of failures a trace reports for a flow.\<close>

definition failures :: "string \<Rightarrow> tracker_op list \<Rightarrow> nat" where
  "failures f ops = length (filter (\<lambda>x. case x of Fail g _ _ \<Rightarrow> g = f | _ \<Rightarrow> False) ops)"

fun no_reset :: "string \<Rightarrow> tracker_op \<Rightarrow> bool" where
  "no_reset f (Success g) = (g \<noteq> f)"
| "no_reset f Clear = False"
| "no_reset f _ = True"

lemma attempts_next [simp]: "attempts (nextOnError t prev c now) = attemptsOf prev + 1"
  by (simp add: nextOnError_def Let_def)

lemma attempts_step:
  assumes "tracker_ok t" "trace_fits t (x # ops)" "no_reset f x"
  shows "attemptsOf (inspect (apply_op x t) f) = attemptsOf (inspect t f) + failures f [x]"
proof (cases "f \<in> op_key x")
  case False
  with assms(3) inspect_op_other [OF assms(1,2) False] show ?thesis
    by (cases x) (auto simp: failures_def)
next
  case True
  then show ?thesis
  proof (cases x)
    case (Begin g now)
    with True inspect_set [OF assms(1,2)] show ?thesis
      by (cases rule: begin_cases [of t f now]) (simp_all add: grant_def attemptsOf_def failures_def)
  next
    case (Fail g c now)
    with True inspect_set [OF assms(1,2)] show ?thesis
      by (simp add: recordError_def Let_def failures_def attemptsOf_def [of "Some _"])
  qed (use True assms(3) in auto)
qed

lemma failures_Cons: "failures f (x # ops) = failures f [x] + failures f ops"
  by (simp add: failures_def)

lemma attempts_run:
  assumes "tracker_ok t" "trace_fits t ops" "list_all (no_reset f) ops"
  shows "attemptsOf (inspect (run ops t) f) = attemptsOf (inspect t f) + failures f ops"
  using assms
proof (induction ops arbitrary: t)
  case Nil
  then show ?case by (simp add: failures_def)
next
  case (Cons x ops)
  then show ?case
    using attempts_step [of t x ops f] by (simp add: tracker_ok_op fits_step failures_Cons [of f x ops])
qed

text \<open>Failures accumulate across retries: with no success and no operator reset in between, the
  attempt count of a flow is the number of failures reported for it, however the reports interleave
  with retries and with other flows; and once that count reaches the poison threshold the flow is
  refused at every later time.\<close>

theorem failures_poison:
  assumes "tracker_ok t" "trace_fits t ops" "list_all (no_reset f) ops"
  shows "attemptsOf (inspect (run ops t) f) = attemptsOf (inspect t f) + failures f ops \<and>
    (0 < failures f ops \<and> optPoisonThreshold t \<le> int (attemptsOf (inspect t f) + failures f ops) \<longrightarrow>
       fst (beginIfReady (run ops t) f now) = Some ''poisoned'')"
proof (intro conjI impI)
  show att: "attemptsOf (inspect (run ops t) f) = attemptsOf (inspect t f) + failures f ops"
    by (rule attempts_run [OF assms])
  assume "0 < failures f ops \<and> optPoisonThreshold t \<le> int (attemptsOf (inspect t f) + failures f ops)"
  with att obtain s where s: "inspect (run ops t) f = Some s" "0 < attempts s"
    "optPoisonThreshold t \<le> int (attempts s)"
    by (cases "inspect (run ops t) f") (auto simp: attemptsOf_def)
  moreover have "state_ok (optPoisonThreshold t) s"
    using tracker_ok_run [OF assms(1), of ops] s(1) by (simp add: tracker_ok_def)
  ultimately show "fst (beginIfReady (run ops t) f now) = Some ''poisoned''"
    by (cases s) (auto simp: inspect_begin)
qed

theorem failures_poison_witness:
  "fst (beginIfReady (run (replicate 8 (Fail ''a'' ''e'' 5)) freshTracker) ''a'' 1000000000) = Some ''poisoned''"
proof -
  have "failures ''a'' (replicate 8 (Fail ''a'' ''e'' 5)) = 8" by (simp add: failures_def)
  then show ?thesis
    using failures_poison [OF tracker_ok_fresh, of "replicate 8 (Fail ''a'' ''e'' 5)" "''a''" 1000000000]
    by (simp add: fits_fresh list_all_iff attemptsOf_def) (simp add: freshTracker_def)
qed

text \<open>Below the threshold a failure at \<open>now\<close> closes the flow for exactly
  \<open>min(base * 2 ^ previous failures, cap)\<close> milliseconds: earlier calls are refused, later ones granted.\<close>

theorem recordError_backoff:
  assumes "tracker_ok t" "int (attemptsOf (inspect t f) + 1) < optPoisonThreshold t"
  shows "fst (beginIfReady (snd (recordError t f c now)) f now') =
    (if now' < now + min (optCooldownBaseMs t * 2 ^ attemptsOf (inspect t f)) (optCooldownMaxMs t)
     then Some ''cooldown'' else None)"
proof -
  have "inspect (snd (recordError t f c now)) f = Some (nextOnError t (inspect t f) c now)"
    using assms(1) by (simp add: recordError_def Let_def inspect_def tracker_ok_def bm.get_put_same)
  with assms(2) show ?thesis
    by (simp add: nextOnError_def Let_def inspect_begin grant_def)
qed

theorem recordError_backoff_witness:
  "fst (beginIfReady (snd (recordError freshTracker ''a'' ''e'' 1000)) ''a'' 30999) = Some ''cooldown'' \<and>
   fst (beginIfReady (snd (recordError freshTracker ''a'' ''e'' 1000)) ''a'' 31000) = None"
proof -
  have "int (attemptsOf (inspect freshTracker ''a'') + 1) < optPoisonThreshold freshTracker"
    by (simp add: attemptsOf_def) (simp add: freshTracker_def)
  note r = recordError_backoff [OF tracker_ok_fresh this, of "''e''" 1000]
  show ?thesis unfolding r by (simp add: attemptsOf_def) (simp add: freshTracker_def)
qed

lemma stuckCounts_zero:
  assumes "tracker_ok t" "\<And>f s. inspect t f = Some s \<Longrightarrow> \<not> isPoisoned s \<and> \<not> isCooldown s"
  shows "stuckCounts t = (0, 0)"
proof -
  have "\<not> isPoisoned s \<and> \<not> isCooldown s" if "s \<in> set (map snd (bmEntries (states t)))" for s
    using that assms by (force simp: inspect_def tracker_ok_def bm_get_entries)
  then show ?thesis by (simp add: stuckCounts_def Let_def filter_empty_conv)
qed

text \<open>\<open>clearBackoff\<close> releases exactly the flows that back off: it reports the poisoned and the
  cooling-down ones, leaves every dispatch in flight alone, and afterwards nothing is stuck.\<close>

theorem clearBackoff_spec:
  assumes "tracker_ok t" "clearBackoff t = ((ps, cs), t')"
  shows "stuckCounts t' = (0, 0) \<and>
    (f \<in> set ps \<longleftrightarrow> (\<exists>s. inspect t f = Some s \<and> isPoisoned s)) \<and>
    (f \<in> set cs \<longleftrightarrow> (\<exists>s. inspect t f = Some s \<and> isCooldown s)) \<and>
    inspect t' f = (if f \<in> set ps \<union> set cs then None else inspect t f)"
proof -
  have ok: "bm_ok (states t)" using assms(1) by (simp add: tracker_ok_def)
  have t': "t' = snd (clearBackoff t)" using assms(2) by simp
  have P: "f \<in> set (map fst (filter (\<lambda>(_, s). q s) (bmEntries (states t)))) \<longleftrightarrow>
           (\<exists>s. inspect t f = Some s \<and> q s)" for q f
    by (force simp: inspect_def bm_get_entries [OF ok])
  have lists: "(f \<in> set ps \<longleftrightarrow> (\<exists>s. inspect t f = Some s \<and> isPoisoned s))"
              "(f \<in> set cs \<longleftrightarrow> (\<exists>s. inspect t f = Some s \<and> isCooldown s))"
    using assms(2) P [of f isPoisoned] P [of f isCooldown]
    by (auto simp: clearBackoff_def Let_def simp del: set_map set_filter)
  have "tracker_ok t'" using tracker_ok_op [OF assms(1), of Clear] t' by simp
  then have "stuckCounts t' = (0, 0)"
    by (rule stuckCounts_zero)
       (auto simp: t' inspect_clear [OF assms(1)] split: option.splits FlowProcState.splits)
  with lists show ?thesis
    by (auto simp: t' inspect_clear [OF assms(1)] split: option.split FlowProcState.split)
qed

theorem clearBackoff_spec_witness:
  "\<exists>ps cs t'. clearBackoff (run [Begin ''a'' 0, Fail ''b'' ''e'' 0] freshTracker) = ((ps, cs), t') \<and>
     stuckCounts t' = (0, 0) \<and> ''b'' \<in> set cs \<and> inspect t' ''a'' = Some (InFlight 0 0)"
proof -
  let ?t = "run [Begin ''a'' 0, Fail ''b'' ''e'' 0] freshTracker"
  obtain ps cs t' where c: "clearBackoff ?t = ((ps, cs), t')" by (metis prod.collapse)
  have "bm_get (states ?t) ''a'' = Some (InFlight 0 0)" "bm_get (states ?t) ''b'' = Some (Cooldown 30000 1)"
    by (simp_all add: beginIfReady_def grant_def recordError_def nextOnError_def attemptsOf_def
        freshTracker_def inspect_def bm_get_def bm_set_def jm_get_def jm_has_def jm_set_def bm_size_def Let_def)
  then have g: "inspect ?t ''a'' = Some (InFlight 0 0)" "inspect ?t ''b'' = Some (Cooldown 30000 1)"
    by (simp_all only: inspect_def)
  note s = clearBackoff_spec [OF tracker_ok_run [OF tracker_ok_fresh] c]
  show ?thesis using c s [of "''a''"] s [of "''b''"] unfolding g by (intro exI conjI) auto
qed

section \<open>Two divergences from the documentation\<close>

text \<open>
  The header comment says a poisoned flow is skipped until the process restarts. The map evicts in
  insertion order whatever the state, so a poisoned flow is forgotten, and granted again, once
  \<open>maxEntries\<close> younger flows have been seen.
\<close>

theorem poisoned_evicted:
  "let t = \<lparr>states = \<lparr>bmMax = 1, bmEntries = [(''a'', Poisoned 0 8 ''e'')]\<rparr>, optCooldownBaseMs = 30000,
      optCooldownMaxMs = 3600000, optPoisonThreshold = 8, optInFlightTimeoutMs = 300000\<rparr>
   in fst (beginIfReady t ''a'' 5) = Some ''poisoned'' \<and>
      fst (beginIfReady (run [Begin ''b'' 6] t) ''a'' 7) = None"
  by (simp add: beginIfReady_def grant_def inspect_def bm_get_def bm_set_def jm_get_def jm_has_def
      jm_set_def bm_delete_def jm_delete_def bm_size_def Let_def)

text \<open>
  The comment on \<open>POISON_THRESHOLD\<close> promises about two hours of escalating retries. With the default
  options the seven cooldowns before the eighth failure add up to 63.5 minutes, and none of them
  reaches the one-hour cap.
\<close>

theorem default_time_to_poison:
  "(\<Sum>n\<leftarrow>[1..<8]. min (COOLDOWN_BASE_MS * 2 ^ (n - 1)) COOLDOWN_MAX_MS) = 3810000 \<and>
   COOLDOWN_BASE_MS * 2 ^ (7 - 1) < COOLDOWN_MAX_MS"
  by (simp add: upt_rec COOLDOWN_BASE_MS_def COOLDOWN_MAX_MS_def)

end
