(* ===== verification/Concurrency.thy ===== *)
theory Concurrency
  imports Prelude
begin

text \<open>
  The bounded worker pool of \<open>packages/cranker/src/utils/concurrency.ts\<close> and the wake flag of
  \<open>utils/wake-flag.ts\<close>.

  JavaScript runs one task at a time and switches only at an \<open>await\<close>, so an execution of \<open>runBounded\<close>
  is a sequence of atomic steps of its workers: a worker at the head of its loop takes the next index,
  sees the abort, or finds no index left; a worker whose awaited call settles, fulfilled or
  rejected, returns to the head of its loop. The abort signal may fire between any two steps.
\<close>

section \<open>\<open>runBounded\<close>\<close>

datatype worker = AtLoop | Working nat | Exited

record pool =
  cursor :: nat
  workers :: "worker list"
  abortSeen :: bool
  signalAborted :: bool
  invoked :: "nat list"
  workerThrows :: nat

definition startPool :: "int \<Rightarrow> bool \<Rightarrow> pool" where
  "startPool concurrency alreadyAborted =
     \<lparr>cursor = 0, workers = replicate (nat (max 1 concurrency)) AtLoop, abortSeen = False,
      signalAborted = alreadyAborted, invoked = [], workerThrows = 0\<rparr>"

inductive pool_step :: "nat \<Rightarrow> pool \<Rightarrow> pool \<Rightarrow> bool" for n :: nat where
  take_item: "w < length (workers s) \<Longrightarrow> workers s ! w = AtLoop \<Longrightarrow> cursor s < n \<Longrightarrow> \<not> signalAborted s \<Longrightarrow>
     pool_step n s (s\<lparr>cursor := cursor s + 1, workers := (workers s)[w := Working (cursor s)],
                      invoked := invoked s @ [cursor s]\<rparr>)"
| see_abort: "w < length (workers s) \<Longrightarrow> workers s ! w = AtLoop \<Longrightarrow> cursor s < n \<Longrightarrow> signalAborted s \<Longrightarrow>
     pool_step n s (s\<lparr>abortSeen := True, workers := (workers s)[w := Exited]\<rparr>)"
| no_item: "w < length (workers s) \<Longrightarrow> workers s ! w = AtLoop \<Longrightarrow> \<not> cursor s < n \<Longrightarrow>
     pool_step n s (s\<lparr>workers := (workers s)[w := Exited]\<rparr>)"
| call_resolves: "w < length (workers s) \<Longrightarrow> workers s ! w = Working idx \<Longrightarrow>
     pool_step n s (s\<lparr>workers := (workers s)[w := AtLoop]\<rparr>)"
| call_rejects: "w < length (workers s) \<Longrightarrow> workers s ! w = Working idx \<Longrightarrow>
     pool_step n s (s\<lparr>workers := (workers s)[w := AtLoop], workerThrows := workerThrows s + 1\<rparr>)"
| abort_fires: "\<not> signalAborted s \<Longrightarrow> pool_step n s (s\<lparr>signalAborted := True\<rparr>)"

inductive_cases pool_stepE: "pool_step n s s'"

definition pool_done :: "pool \<Rightarrow> bool" where
  "pool_done s \<longleftrightarrow> list_all (\<lambda>w. w = Exited) (workers s)"

definition pool_outcome :: "bool \<Rightarrow> pool \<Rightarrow> unit result" where
  "pool_outcome throwOnAbort s =
     (if abortSeen s \<and> throwOnAbort then Inl (Error ''runBounded aborted mid-flight'') else Inr ())"

inductive pool_reach :: "nat \<Rightarrow> int \<Rightarrow> bool \<Rightarrow> pool \<Rightarrow> bool" for n :: nat and c :: int and a :: bool where
  reach_start: "pool_reach n c a (startPool c a)"
| reach_step: "pool_reach n c a s \<Longrightarrow> pool_step n s s' \<Longrightarrow> pool_reach n c a s'"

fun running :: "worker \<Rightarrow> bool" where
  "running (Working _) = True"
| "running _ = False"

definition pool_inv :: "nat \<Rightarrow> int \<Rightarrow> pool \<Rightarrow> bool" where
  "pool_inv n c s \<longleftrightarrow>
     length (workers s) = nat (max 1 c) \<and> cursor s \<le> n \<and> invoked s = [0..<cursor s] \<and>
     (\<forall>w < length (workers s). case workers s ! w of
        Working i \<Rightarrow> i < cursor s | Exited \<Rightarrow> abortSeen s \<or> cursor s = n | AtLoop \<Rightarrow> True) \<and>
     (abortSeen s \<longrightarrow> signalAborted s)"

lemma pool_inv_start: "pool_inv n c (startPool c a)"
  by (simp add: pool_inv_def startPool_def)

lemma pool_inv_step: "pool_step n s s' \<Longrightarrow> pool_inv n c s \<Longrightarrow> pool_inv n c s'"
  by (erule pool_stepE)
     (auto simp: pool_inv_def nth_list_update split: worker.splits; fastforce)+

lemma pool_inv_reach: "pool_reach n c a s \<Longrightarrow> pool_inv n c s"
  by (induction rule: pool_reach.induct) (auto intro: pool_inv_start pool_inv_step)

text \<open>In every reachable state of the pool the worker function has been called exactly once on each
  index below the cursor, in order, and on no other; at most \<open>max(1, concurrency)\<close> calls are in
  progress; and when all workers have exited without having seen an abort, every item has been
  handled and the pool returns normally.\<close>

theorem runBounded_each_once:
  assumes "pool_reach n c a s"
  shows "invoked s = [0..<cursor s] \<and> cursor s \<le> n \<and>
    length (filter running (workers s)) \<le> nat (max 1 c) \<and>
    (pool_done s \<and> \<not> abortSeen s \<longrightarrow> invoked s = [0..<n] \<and> pool_outcome t s = Inr ()) \<and>
    (abortSeen s \<longrightarrow> signalAborted s)"
proof -
  have inv: "pool_inv n c s" by (rule pool_inv_reach [OF assms])
  have "length (filter running (workers s)) \<le> nat (max 1 c)"
    using inv length_filter_le [of running "workers s"] by (simp add: pool_inv_def)
  moreover have "cursor s = n" if "pool_done s" "\<not> abortSeen s"
  proof -
    have "0 < length (workers s)" using inv by (simp add: pool_inv_def)
    moreover from this that(1) have "workers s ! 0 = Exited"
      by (simp add: pool_done_def list_all_length)
    ultimately show ?thesis using inv that(2) by (fastforce simp: pool_inv_def)
  qed
  ultimately show ?thesis using inv by (auto simp: pool_inv_def pool_outcome_def)
qed

text \<open>Every step uses up part of a finite budget, and an unfinished pool can always step.\<close>

fun worker_weight :: "worker \<Rightarrow> nat" where
  "worker_weight AtLoop = 1"
| "worker_weight (Working _) = 2"
| "worker_weight Exited = 0"

definition pool_weight :: "nat \<Rightarrow> pool \<Rightarrow> nat" where
  "pool_weight n s = 2 * (n - cursor s) + sum_list (map worker_weight (workers s)) +
     (if signalAborted s then 0 else 1)"

lemma sum_list_update:
  "i < length xs \<Longrightarrow> sum_list (map f (xs[i := x])) + f (xs ! i) = sum_list (map f xs) + (f x :: nat)"
  by (induction xs arbitrary: i) (auto split: nat.split)

lemma pool_step_weight:
  assumes "pool_step n s s'"
  shows "pool_weight n s' < pool_weight n s"
  using assms
proof cases
  case (take_item w)
  with sum_list_update [of w "workers s" worker_weight "Working (cursor s)"] show ?thesis
    by (simp add: pool_weight_def)
next
  case (see_abort w)
  with sum_list_update [of w "workers s" worker_weight Exited] show ?thesis by (simp add: pool_weight_def)
next
  case (no_item w)
  with sum_list_update [of w "workers s" worker_weight Exited] show ?thesis by (simp add: pool_weight_def)
next
  case (call_resolves w idx)
  with sum_list_update [of w "workers s" worker_weight AtLoop] show ?thesis by (simp add: pool_weight_def)
next
  case (call_rejects w idx)
  with sum_list_update [of w "workers s" worker_weight AtLoop] show ?thesis by (simp add: pool_weight_def)
qed (simp add: pool_weight_def)

lemma pool_weight_chain: "(pool_step n ^^ k) s s' \<Longrightarrow> pool_weight n s' + k \<le> pool_weight n s"
proof (induction k arbitrary: s')
  case (Suc k)
  from Suc.prems obtain s1 where "(pool_step n ^^ k) s s1" "pool_step n s1 s'" by auto
  with Suc.IH pool_step_weight [of n s1 s'] show ?case by fastforce
qed simp

lemma pool_chain_reach: "(pool_step n ^^ k) (startPool c a) s \<Longrightarrow> pool_reach n c a s"
proof (induction k arbitrary: s)
  case 0
  then show ?case by (auto intro: reach_start)
next
  case (Suc k)
  then show ?case by (auto intro: reach_step)
qed

lemma unfinished_steps:
  assumes "\<not> pool_done s"
  shows "\<exists>s'. pool_step n s s'"
proof -
  from assms obtain w where "w < length (workers s)" "workers s ! w \<noteq> Exited"
    by (auto simp: pool_done_def list_all_length)
  then show ?thesis by (cases "workers s ! w") (blast intro: pool_step.intros)+
qed

text \<open>C32. The pool cannot run forever or get stuck, and it skips nothing: every chain of steps from the start is at most
  \<open>2 * items + workers + 1\<close> long; in the state it reaches the calls made so far are those of the indices below the cursor,
  each once and in order; as long as some worker has not exited there is a step to take; and once all
  have exited without seeing an abort, the function was called exactly once on every item and
  the pool returns normally.\<close>

theorem runBounded_terminates:
  assumes "(pool_step n ^^ k) (startPool c a) s"
  shows "k \<le> 2 * n + nat (max 1 c) + 1 \<and> invoked s = [0..<cursor s] \<and> cursor s \<le> n \<and>
    (\<not> pool_done s \<longrightarrow> (\<exists>s'. pool_step n s s')) \<and>
    (pool_done s \<and> \<not> abortSeen s \<longrightarrow> invoked s = [0..<n] \<and> pool_outcome t s = Inr ())"
proof -
  have "k \<le> 2 * n + nat (max 1 c) + 1"
    using pool_weight_chain [OF assms]
    by (auto simp: pool_weight_def startPool_def sum_list_replicate split: if_splits)
  with runBounded_each_once [OF pool_chain_reach [OF assms]] unfinished_steps show ?thesis by blast
qed

text \<open>A complete run of one worker over one item.\<close>

definition oneItemRun :: "pool list" where
  "oneItemRun =
     (let s0 = startPool 1 False;
          s1 = s0\<lparr>cursor := 1, workers := [Working 0], invoked := [0]\<rparr>;
          s2 = s1\<lparr>workers := [AtLoop]\<rparr>
      in [s0, s1, s2, s2\<lparr>workers := [Exited]\<rparr>])"

lemma oneItemRun_steps:
  "pool_step 1 (oneItemRun ! 0) (oneItemRun ! 1)" "pool_step 1 (oneItemRun ! 1) (oneItemRun ! 2)"
  "pool_step 1 (oneItemRun ! 2) (oneItemRun ! 3)"
  using take_item [of 0 "oneItemRun ! 0" 1] call_resolves [of 0 "oneItemRun ! 1" 0 1] no_item [of 0 "oneItemRun ! 2" 1]
  by (simp_all add: oneItemRun_def startPool_def Let_def numeral_eq_Suc)

theorem runBounded_each_once_witness:
  "pool_done (oneItemRun ! 3) \<and> invoked (oneItemRun ! 3) = [0]"
proof -
  have "oneItemRun ! 0 = startPool 1 False" by (simp add: oneItemRun_def Let_def)
  then have "pool_reach 1 1 False (oneItemRun ! 3)"
    using oneItemRun_steps by (metis pool_reach.intros)
  from runBounded_each_once [OF this] show ?thesis
    by (simp add: oneItemRun_def Let_def pool_done_def numeral_eq_Suc)
qed

theorem runBounded_terminates_witness:
  "(pool_step 1 ^^ 3) (startPool 1 False) (oneItemRun ! 3) \<and> (3 :: nat) \<le> 2 * 1 + nat (max 1 1) + 1 \<and>
   pool_done (oneItemRun ! 3) \<and> invoked (oneItemRun ! 3) = [0..<1] \<and> pool_outcome True (oneItemRun ! 3) = Inr ()"
proof -
  have "oneItemRun ! 0 = startPool 1 False" by (simp add: oneItemRun_def Let_def)
  then have run: "(pool_step 1 ^^ 3) (startPool 1 False) (oneItemRun ! 3)"
    using oneItemRun_steps by (auto simp: numeral_eq_Suc relcompp_apply)
  have "pool_done (oneItemRun ! 3)" "\<not> abortSeen (oneItemRun ! 3)"
    by (simp_all add: oneItemRun_def startPool_def Let_def pool_done_def numeral_eq_Suc)
  with run runBounded_terminates [OF run, of True] show ?thesis by blast
qed

section \<open>\<open>WakeFlag\<close>\<close>

text \<open>
  \<open>resolveCurrent\<close> names the promise a pending \<open>wait()\<close> returned. \<open>signal\<close> gives the promise it resolves, if
  any; \<open>wait\<close> tells whether the promise it returns is already resolved.
\<close>

record WakeFlag =
  flagged :: bool
  resolveCurrent :: "nat option"

definition newWakeFlag :: WakeFlag where
  "newWakeFlag = \<lparr>flagged = False, resolveCurrent = None\<rparr>"

definition signal :: "WakeFlag \<Rightarrow> nat option \<times> WakeFlag" where
  "signal f = (resolveCurrent f, \<lparr>flagged = True, resolveCurrent = None\<rparr>)"

definition wait :: "nat \<Rightarrow> WakeFlag \<Rightarrow> bool \<times> WakeFlag" where
  "wait promise f =
     (if flagged f then (True, f\<lparr>flagged := False\<rparr>)
      else (False, f\<lparr>resolveCurrent := Some promise\<rparr>))"

text \<open>A signal is never lost: fired while a wait is pending it resolves that wait, and fired with no
  wait pending it makes the next wait return at once; any number of signals in between count as one.\<close>

theorem wake_not_lost:
  "fst (signal (snd (wait p newWakeFlag))) = Some p \<and>
   fst (wait q (snd (signal f))) = True \<and>
   fst (wait q (snd (signal (snd (signal f))))) = True \<and>
   fst (signal (snd (signal f))) = None \<and>
   fst (wait r (snd (wait q (snd (signal (snd (signal f))))))) = False"
  by (simp add: signal_def wait_def newWakeFlag_def)

text \<open>
  The comment on \<open>wait\<close> says it always consumes the flag. A wait that had to block does not: the signal
  that resolves it also leaves the flag set, so the next wait returns at once although nothing was
  signalled in between.
\<close>

theorem blocked_wait_leaves_flag:
  "let (immediate, f1) = wait 0 newWakeFlag;
       (resolved, f2) = signal f1
   in \<not> immediate \<and> resolved = Some 0 \<and> fst (wait 1 f2)"
  by (simp add: signal_def wait_def newWakeFlag_def)

end
