(* ===== verification/Scan.thy ===== *)
theory Scan
  imports Leg_Outcome Flow_State Concurrency
begin

text \<open>
  The scan loop of \<open>packages/cranker/src/relayer/scan.ts\<close> and the refund pass of \<open>relayer/refund-scan.ts\<close>: which
  enumerated flows are dispatched, the chain of legs a task runs, what is recorded of its outcome.

  The handlers are a record of functions over a state \<open>'s\<close> (\<open>opts.advanceFns\<close>); \<open>default_fns\<close> are the legs, over
  a state that holds the view of the chain at each dispatch, the wallet cache and the metrics. The chain loop
  is a \<open>partial_function\<close>: not returning is \<open>None\<close>. The bounded pool itself is the step relation of
  \<open>Concurrency\<close>; a scan runs its tasks in an order the pool chose.
\<close>

section \<open>Dispatch\<close>

record ScannedFlow =
  sfPubkey :: pubkey
  sfStatus :: string
  sfDirection :: direction
  sfFogoTx :: string
  sfVaaHex :: "string option"

type_synonym 's dispatch_fn = "'s \<Rightarrow> LegInput \<Rightarrow> AdvanceResult \<times> 's"

record 's AdvanceFns =
  afReceive :: "'s dispatch_fn"
  afSwap :: "'s dispatch_fn"
  afSend :: "'s dispatch_fn"

definition pickAdvanceForStatus :: "string \<Rightarrow> 's AdvanceFns \<Rightarrow> 's dispatch_fn option" where
  "pickAdvanceForStatus status fns =
     (if status = ''Pending'' then Some (afReceive fns)
      else if status = ''Received'' then Some (afSwap fns)
      else if status = ''Swapped'' then Some (afSend fns)
      else None)"

definition legInput :: "ScannedFlow \<Rightarrow> LegInput" where
  "legInput f = \<lparr>liDirection = sfDirection f, liFogoTx = sfFogoTx f, liVaaHex = sfVaaHex f\<rparr>"

datatype log_level = LogDebug | LogInfo | LogWarn

definition logAdvanceResult :: "string \<Rightarrow> string \<Rightarrow> AdvanceResult \<Rightarrow> class_memo \<Rightarrow> log_level \<times> class_memo" where
  "logAdvanceResult flow fromStatus result m =
     (case result of
        Advanced _ _ _ \<Rightarrow> (LogInfo, m)
      | Noop reason severity \<Rightarrow>
          if severity = Some ConfigGate then
            let seenKey = ''noop-config:'' @ fromStatus @ '':'' @ reason
            in (case Option.bind (cmSeen m) (\<lambda>seen. jm_get seen seenKey) of
                  None \<Rightarrow> (LogWarn, m\<lparr>cmSeen := map_option (jm_set seenKey flow) (cmSeen m)\<rparr>)
                | Some _ \<Rightarrow> (LogDebug, m))
          else (LogDebug, m)
      | ErrorResult err _ \<Rightarrow>
          (case recordErrorClass err flow m of
             ((_, firstSeenOn), m') \<Rightarrow> (if firstSeenOn \<noteq> None then LogDebug else LogWarn, m')))"

section \<open>The chain of legs of one task\<close>

record 's scan_state =
  scWorld :: 's
  scMemo :: class_memo
  scProgress :: bool
  scDispatched :: "(string \<times> string) list"

definition dispatchOnce ::
  "'s dispatch_fn \<Rightarrow> string \<Rightarrow> LegInput \<Rightarrow> string \<Rightarrow> 's scan_state \<Rightarrow> AdvanceResult \<times> 's scan_state" where
  "dispatchOnce dispatch flowKey input status st =
     (let (result, w) = dispatch (scWorld st) input
      in (result, st\<lparr>scWorld := w, scMemo := snd (logAdvanceResult flowKey status result (scMemo st)),
                     scProgress := (scProgress st \<or> is_advanced result),
                     scDispatched := scDispatched st @ [(flowKey, status)]\<rparr>))"

fun toStatusOf :: "AdvanceResult \<Rightarrow> string option" where
  "toStatusOf (Advanced _ _ t) = Some t"
| "toStatusOf _ = None"

partial_function (option) advanceChain ::
  "('s \<Rightarrow> bool) \<Rightarrow> 's AdvanceFns \<Rightarrow> string \<Rightarrow> LegInput \<Rightarrow> string \<Rightarrow> AdvanceResult \<Rightarrow> 's scan_state \<Rightarrow>
   (AdvanceResult \<times> 's scan_state) option" where
  "advanceChain aborted fns flowKey input currentStatus lastResult st =
     (case pickAdvanceForStatus currentStatus fns of
        None \<Rightarrow> Some (lastResult, st)
      | Some dispatch \<Rightarrow>
          if aborted (scWorld st) then Some (lastResult, st)
          else (case toStatusOf (fst (dispatchOnce dispatch flowKey input currentStatus st)) of
                  None \<Rightarrow> Some (dispatchOnce dispatch flowKey input currentStatus st)
                | Some toStatus \<Rightarrow>
                    advanceChain aborted fns flowKey input toStatus
                      (fst (dispatchOnce dispatch flowKey input currentStatus st))
                      (snd (dispatchOnce dispatch flowKey input currentStatus st))))"

definition recordOutcome :: "string \<Rightarrow> AdvanceResult \<Rightarrow> int \<Rightarrow> FlowStateTracker \<Rightarrow> FlowStateTracker" where
  "recordOutcome flowKey lastResult now t =
     (case lastResult of
        ErrorResult err _ \<Rightarrow> snd (recordError t flowKey (errorClass err) now)
      | _ \<Rightarrow> recordSuccess t flowKey)"

definition runTask ::
  "web3_env \<Rightarrow> ('s \<Rightarrow> bool) \<Rightarrow> ('s \<Rightarrow> int) \<Rightarrow> 's AdvanceFns \<Rightarrow> ScannedFlow \<Rightarrow> 's scan_state \<Rightarrow> FlowStateTracker option \<Rightarrow>
   ('s scan_state \<times> FlowStateTracker option) option" where
  "runTask env aborted clock fns flow st tracker =
     (let flowKey = toBase58 env (sfPubkey flow)
      in case advanceChain aborted fns flowKey (legInput flow) (sfStatus flow) (Noop ''no dispatch for status'' None) st of
           None \<Rightarrow> None
         | Some (lastResult, st') \<Rightarrow>
             Some (st', map_option (recordOutcome flowKey lastResult (clock (scWorld st'))) tracker))"

section \<open>The scan\<close>

definition skipReason :: "string \<Rightarrow> string" where
  "skipReason status = (if status = [] then ''unknown'' else status)"

text \<open>The loop over the enumerated flows: pick a handler, take the slot, or count a skip. \<open>clock n\<close> is \<open>Date.now()\<close> at
  the \<open>n\<close>-th flow.\<close>

fun planTasks ::
  "web3_env \<Rightarrow> 's AdvanceFns \<Rightarrow> (nat \<Rightarrow> int) \<Rightarrow> nat \<Rightarrow> ScannedFlow list \<Rightarrow> FlowStateTracker option \<Rightarrow>
   ScannedFlow list \<times> string list \<times> FlowStateTracker option" where
  "planTasks env fns clock n [] tracker = ([], [], tracker)"
| "planTasks env fns clock n (flow # flows) tracker =
     (if pickAdvanceForStatus (sfStatus flow) fns = None then
        (case planTasks env fns clock (n + 1) flows tracker of
           (tasks, skips, tracker') \<Rightarrow> (tasks, skipReason (sfStatus flow) # skips, tracker'))
      else
        (case tracker of
           None \<Rightarrow>
             (case planTasks env fns clock (n + 1) flows None of
                (tasks, skips, tracker') \<Rightarrow> (flow # tasks, skips, tracker'))
         | Some t \<Rightarrow>
             (case beginIfReady t (toBase58 env (sfPubkey flow)) (clock n) of
                (Some reason, t') \<Rightarrow>
                  (case planTasks env fns clock (n + 1) flows (Some t') of
                     (tasks, skips, tracker') \<Rightarrow> (tasks, (''gated:'' @ reason) # skips, tracker'))
              | (None, t') \<Rightarrow>
                  (case planTasks env fns clock (n + 1) flows (Some t') of
                     (tasks, skips, tracker') \<Rightarrow> (flow # tasks, skips, tracker')))))"

fun runTasks ::
  "web3_env \<Rightarrow> ('s \<Rightarrow> bool) \<Rightarrow> ('s \<Rightarrow> int) \<Rightarrow> 's AdvanceFns \<Rightarrow> ScannedFlow list \<Rightarrow> 's scan_state \<Rightarrow> FlowStateTracker option \<Rightarrow>
   ('s scan_state \<times> FlowStateTracker option) option" where
  "runTasks env aborted clock fns [] st tracker = Some (st, tracker)"
| "runTasks env aborted clock fns (flow # flows) st tracker =
     (case runTask env aborted clock fns flow st tracker of
        None \<Rightarrow> None
      | Some (st', tracker') \<Rightarrow> runTasks env aborted clock fns flows st' tracker')"

record scan_report =
  srWoke :: bool
  srSkips :: "string list"
  srRollup :: "(string \<times> ClassRollupAgg \<times> bool) list"

text \<open>\<open>p\<close> is the final state of the pool that \<open>runBounded\<close> ran the planned tasks on: the indices it invoked, in order,
  and whether a worker saw the abort.\<close>

definition scanAndAdvance ::
  "web3_env \<Rightarrow> ('s \<Rightarrow> bool) \<Rightarrow> ('s \<Rightarrow> int) \<Rightarrow> (nat \<Rightarrow> int) \<Rightarrow> 's AdvanceFns \<Rightarrow> thrown + ScannedFlow list \<Rightarrow>
   pool \<Rightarrow> 's \<Rightarrow> (string, string) jsmap option \<Rightarrow> FlowStateTracker option \<Rightarrow>
   ((thrown + scan_report) \<times> 's scan_state \<times> FlowStateTracker option) option" where
  "scanAndAdvance env aborted clock planClock fns enumerated p w seen tracker =
     (let st0 = \<lparr>scWorld = w, scMemo = \<lparr>cmSeen = seen, cmIter = []\<rparr>, scProgress = False, scDispatched = []\<rparr>
      in if aborted w then Some (Inl (of_js_error (Error ''scan aborted before start'')), st0, tracker)
      else case enumerated of
        Inl e \<Rightarrow> Some (Inl e, st0, tracker)
      | Inr flows \<Rightarrow>
          (let known = (case seen of None \<Rightarrow> {} | Some m \<Rightarrow> fst ` set m)
           in case planTasks env fns planClock 0 flows tracker of
                (tasks, skips, tracker1) \<Rightarrow>
                  (case runTasks env aborted clock fns (map (\<lambda>i. tasks ! i) (invoked p)) st0 tracker1 of
                     None \<Rightarrow> None
                   | Some (st, tracker2) \<Rightarrow>
                       Some (case pool_outcome True p of
                               Inl e \<Rightarrow> Inl (of_js_error e)
                             | Inr _ \<Rightarrow> Inr \<lparr>srWoke = scProgress st, srSkips = skips,
                                              srRollup = rollupErrorClasses (cmIter (scMemo st)) known\<rparr>,
                             st, tracker2))))"

section \<open>The legs as handlers\<close>

record world =
  wView :: "nat \<Rightarrow> AdvanceContext"
  wTick :: nat
  wCache :: wallet_cache
  wMetrics :: "metric list"

definition view :: "world \<Rightarrow> AdvanceContext" where
  "view w = wView w (wTick w)"

definition default_fns :: "world AdvanceFns" where
  "default_fns =
     \<lparr>afReceive = (\<lambda>w i.
        case receive_leg (view w) (wCache w)
               \<lparr>liDirection = liDirection i, liFogoTx = liFogoTx i, liVaaHex = liVaaHex i,
                riUserWallet = None, riMinSwapOut = None, riRecvMint = None, riNttProgram = None\<rparr> of
          (r, cache, ms) \<Rightarrow> (r, w\<lparr>wTick := wTick w + 1, wCache := cache, wMetrics := wMetrics w @ ms\<rparr>)),
      afSwap = (\<lambda>w i.
        case swap_leg (view w) \<lparr>liDirection = liDirection i, liFogoTx = liFogoTx i, liVaaHex = liVaaHex i, siNttProgram = None\<rparr> of
          (r, ms) \<Rightarrow> (r, w\<lparr>wTick := wTick w + 1, wMetrics := wMetrics w @ ms\<rparr>)),
      afSend = (\<lambda>w i.
        case send_leg (view w) \<lparr>liDirection = liDirection i, liFogoTx = liFogoTx i, liVaaHex = liVaaHex i,
               oiNttVersion = None, oiWormholeCore = None\<rparr> of
          (r, ms) \<Rightarrow> (r, w\<lparr>wTick := wTick w + 1, wMetrics := wMetrics w @ ms\<rparr>))\<rparr>"

section \<open>The refund pass\<close>

definition logRefundResult :: "string \<Rightarrow> AdvanceResult \<Rightarrow> (string, string) jsmap option \<Rightarrow> log_level \<times> (string, string) jsmap option" where
  "logRefundResult flow result seenErrors =
     (case result of
        Advanced _ _ _ \<Rightarrow> (LogInfo, seenErrors)
      | Noop _ _ \<Rightarrow> (LogDebug, seenErrors)
      | ErrorResult err _ \<Rightarrow>
          let klass = errorClass err
          in (case Option.bind seenErrors (\<lambda>m. jm_get m klass) of
                None \<Rightarrow> (LogWarn, map_option (jm_set klass flow) seenErrors)
              | Some _ \<Rightarrow> (LogDebug, seenErrors)))"

fun runRefunds ::
  "web3_env \<Rightarrow> 's dispatch_fn \<Rightarrow> ScannedFlow list \<Rightarrow> 's \<Rightarrow> (string, string) jsmap option \<Rightarrow>
   (ScannedFlow \<times> AdvanceResult) list \<times> 's \<times> (string, string) jsmap option" where
  "runRefunds env refundFn [] w seen = ([], w, seen)"
| "runRefunds env refundFn (f # fs) w seen =
     (case refundFn w (legInput f) of
        (r, w') \<Rightarrow>
          (case runRefunds env refundFn fs w' (snd (logRefundResult (toBase58 env (sfPubkey f)) r seen)) of
             (rs, w'', seen') \<Rightarrow> ((f, r) # rs, w'', seen')))"

definition scanAndRefund ::
  "web3_env \<Rightarrow> bool \<Rightarrow> thrown + ScannedFlow list \<Rightarrow> 's dispatch_fn \<Rightarrow> pool \<Rightarrow> 's \<Rightarrow> (string, string) jsmap option \<Rightarrow>
   (thrown + (ScannedFlow \<times> AdvanceResult) list) \<times> 's \<times> (string, string) jsmap option" where
  "scanAndRefund env aborted enumerated refundFn p w seen =
     (if aborted then (Inl (of_js_error (Error ''refund scan aborted before start'')), w, seen)
      else case enumerated of
        Inl e \<Rightarrow> (Inl e, w, seen)
      | Inr flows \<Rightarrow>
          (let received = filter (\<lambda>f. sfStatus f = ''Received'') flows
           in case runRefunds env refundFn (map (\<lambda>i. received ! i) (invoked p)) w seen of
                (results, w', seen') \<Rightarrow>
                  (case pool_outcome True p of Inl e \<Rightarrow> Inl (of_js_error e) | Inr _ \<Rightarrow> Inr results, w', seen')))"

section \<open>A chain of legs ends\<close>

text \<open>What a scan relies on of its handlers: progress moves the flow to the next status.\<close>

locale advance_contract =
  fixes fns :: "'s AdvanceFns"
  assumes receive_to: "fst (afReceive fns w i) = Advanced sigs f t \<Longrightarrow> t = ''Received''"
    and swap_to: "fst (afSwap fns w i) = Advanced sigs f t \<Longrightarrow> t = ''Swapped''"
    and send_to: "fst (afSend fns w i) = Advanced sigs f t \<Longrightarrow> t = ''Closed''"
begin

definition next_status :: "string \<Rightarrow> string" where
  "next_status s = (if s = ''Pending'' then ''Received'' else if s = ''Received'' then ''Swapped'' else ''Closed'')"

lemma dispatch_to:
  "pickAdvanceForStatus s fns = Some d \<Longrightarrow> toStatusOf (fst (dispatchOnce d k i s st)) = Some t \<Longrightarrow> t = next_status s"
  using receive_to [of "scWorld st" i] swap_to [of "scWorld st" i] send_to [of "scWorld st" i]
  by (cases "fst (d (scWorld st) i)")
     (auto simp: pickAdvanceForStatus_def dispatchOnce_def next_status_def Let_def split: if_splits prod.splits)

end

text \<open>The statuses a task may dispatch, starting from the one the scan saw.\<close>

definition chain_from :: "string \<Rightarrow> string list" where
  "chain_from s =
     (if s = ''Pending'' then [''Pending'', ''Received'', ''Swapped'']
      else if s = ''Received'' then [''Received'', ''Swapped'']
      else if s = ''Swapped'' then [''Swapped'']
      else [])"

lemma chain_from_Nil: "chain_from s = [] \<longleftrightarrow> pickAdvanceForStatus s fns = None"
  by (simp add: chain_from_def pickAdvanceForStatus_def)

lemma dispatched_once:
  "scDispatched (snd (dispatchOnce d k i s st)) = scDispatched st @ [(k, s)]"
  "scProgress (snd (dispatchOnce d k i s st)) = (scProgress st \<or> is_advanced (fst (dispatchOnce d k i s st)))"
  by (simp_all add: dispatchOnce_def Let_def split: prod.splits)

lemma toStatusOf_None: "toStatusOf r = None \<longleftrightarrow> \<not> is_advanced r"
  by (cases r) simp_all

context advance_contract
begin

lemma chain_from_next:
  "pickAdvanceForStatus s fns \<noteq> None \<Longrightarrow> chain_from s = s # chain_from (next_status s)"
  by (auto simp: chain_from_def next_status_def pickAdvanceForStatus_def split: if_splits)

lemma chain_returns:
  "\<exists>r st' n. advanceChain ab fns k i s r0 st = Some (r, st') \<and>
     scDispatched st' = scDispatched st @ map (Pair k) (take n (chain_from s)) \<and> n \<le> length (chain_from s) \<and>
     (n = 0 \<longrightarrow> r = r0 \<and> st' = st)"
proof (induction "length (chain_from s)" arbitrary: s r0 st)
  case 0
  then show ?case
    using chain_from_Nil [of s fns] by (intro exI [of _ r0] exI [of _ st] exI [of _ 0]) (simp add: advanceChain.simps)
next
  case (Suc m)
  then obtain d where d: "pickAdvanceForStatus s fns = Some d"
    using chain_from_Nil [of s fns] by (cases "pickAdvanceForStatus s fns") auto
  then have c: "chain_from s = s # chain_from (next_status s)" using chain_from_next [of s] by simp
  let ?r = "fst (dispatchOnce d k i s st)" and ?st = "snd (dispatchOnce d k i s st)"
  show ?case
  proof (cases "ab (scWorld st)")
    case True
    then show ?thesis
      by (intro exI [of _ r0] exI [of _ st] exI [of _ 0]) (simp add: advanceChain.simps d)
  next
    case run: False
    show ?thesis
    proof (cases "toStatusOf ?r")
      case None
      then show ?thesis
        by (intro exI [of _ ?r] exI [of _ ?st] exI [of _ 1]) (simp add: advanceChain.simps d run dispatched_once c)
    next
      case (Some t)
      then have t: "t = next_status s" using dispatch_to [OF d] by blast
      then have "m = length (chain_from t)" using Suc.hyps(2) c by simp
      from Suc.hyps(1) [OF this, of ?r ?st] obtain r st' n where
        ih: "advanceChain ab fns k i t ?r ?st = Some (r, st')"
          "scDispatched st' = scDispatched ?st @ map (Pair k) (take n (chain_from t))" "n \<le> length (chain_from t)" by blast
      then show ?thesis
        by (intro exI [of _ r] exI [of _ st'] exI [of _ "Suc n"])
           (simp add: advanceChain.simps d run Some dispatched_once c t)
    qed
  qed
qed

end

lemma legs_to:
  "fst (afReceive default_fns w i) = Advanced sigs f t \<Longrightarrow> t = ''Received''"
  "fst (afSwap default_fns w i) = Advanced sigs f t \<Longrightarrow> t = ''Swapped''"
  "fst (afSend default_fns w i) = Advanced sigs f t \<Longrightarrow> t = ''Closed''"
  using receive_h.advanced_iff [of "view w" "(wCache w, \<lparr>liDirection = liDirection i, liFogoTx = liFogoTx i, liVaaHex = liVaaHex i,
                riUserWallet = None, riMinSwapOut = None, riRecvMint = None, riNttProgram = None\<rparr>)"]
    swap_h.advanced_iff [of "view w" "\<lparr>liDirection = liDirection i, liFogoTx = liFogoTx i, liVaaHex = liVaaHex i, siNttProgram = None\<rparr>"]
    send_h.advanced_iff [of "view w" "\<lparr>liDirection = liDirection i, liFogoTx = liFogoTx i, liVaaHex = liVaaHex i,
      oiNttVersion = None, oiWormholeCore = None\<rparr>"]
  by (auto simp: default_fns_def split: prod.splits)

interpretation legs: advance_contract default_fns
  by unfold_locales (auto dest: legs_to)

text \<open>C12. A task always ends: started at any status, in any view of the chain and however the submissions turn out, the
  chain of legs returns, and it dispatches at most the legs from that status on, each once and in the order
  \<open>Pending\<close>, \<open>Received\<close>, \<open>Swapped\<close>.\<close>

theorem chain_terminates:
  "\<exists>r st' n. advanceChain ab default_fns k i s r0 st = Some (r, st') \<and>
     scDispatched st' = scDispatched st @ map (Pair k) (take n (chain_from s)) \<and> n \<le> 3"
proof -
  have "length (chain_from s) \<le> 3" by (simp add: chain_from_def)
  with legs.chain_returns [of ab k i s r0 st] show ?thesis by (meson le_trans)
qed

section \<open>Slots\<close>

lemma inspect_recordSuccess: "tracker_ok t \<Longrightarrow> inspect (recordSuccess t k) k = None"
  by (simp add: recordSuccess_def inspect_def tracker_ok_def bm.get_drop)

lemma inspect_recordError: "tracker_ok t \<Longrightarrow> inspect (snd (recordError t k c now)) k = Some (nextOnError t (inspect t k) c now)"
  by (simp add: recordError_def Let_def inspect_def tracker_ok_def bm.get_put_same)

lemma nextOnError_not_InFlight: "nextOnError t prev c now \<noteq> InFlight s n"
  by (simp add: nextOnError_def Let_def)

lemma tracker_ok_outcome: "tracker_ok t \<Longrightarrow> tracker_ok (recordOutcome k r now t)"
  using tracker_ok_op [of t "Success k"] tracker_ok_op [of t "Fail k _ now"]
  by (auto simp: recordOutcome_def split: AdvanceResult.splits)

text \<open>C13. A task that runs always gives its slot back: after the chain the flow is idle unless the last leg failed, in
  which case it is cooling down or poisoned under the class of that failure. It is never left in flight.\<close>

theorem task_releases_slot:
  assumes "tracker_ok t"
  shows "\<exists>st' t' r. runTask env ab clock default_fns flow st (Some t) = Some (st', Some t') \<and> tracker_ok t' \<and>
    advanceChain ab default_fns (toBase58 env (sfPubkey flow)) (legInput flow) (sfStatus flow) (Noop ''no dispatch for status'' None) st =
      Some (r, st') \<and>
    inspect t' (toBase58 env (sfPubkey flow)) =
      (case r of ErrorResult err _ \<Rightarrow>
         Some (nextOnError t (inspect t (toBase58 env (sfPubkey flow))) (errorClass err) (clock (scWorld st')))
       | _ \<Rightarrow> None) \<and>
    (\<forall>s n. inspect t' (toBase58 env (sfPubkey flow)) \<noteq> Some (InFlight s n))"
proof -
  let ?k = "toBase58 env (sfPubkey flow)"
  obtain r st' where c: "advanceChain ab default_fns ?k (legInput flow) (sfStatus flow) (Noop ''no dispatch for status'' None) st = Some (r, st')"
    using legs.chain_returns by blast
  let ?t = "recordOutcome ?k r (clock (scWorld st')) t"
  have i: "inspect ?t ?k = (case r of ErrorResult err _ \<Rightarrow>
         Some (nextOnError t (inspect t ?k) (errorClass err) (clock (scWorld st'))) | _ \<Rightarrow> None)"
    using assms by (simp add: recordOutcome_def inspect_recordSuccess inspect_recordError split: AdvanceResult.splits)
  then have "inspect ?t ?k \<noteq> Some (InFlight s n)" for s n
    using nextOnError_not_InFlight by (auto split: AdvanceResult.splits)
  with c i tracker_ok_outcome [OF assms] show ?thesis by (simp add: runTask_def Let_def)
qed

definition model_scan :: "world scan_state" where
  "model_scan = \<lparr>scWorld = \<lparr>wView = (\<lambda>_. model_receive_ctx), wTick = 0, wCache = \<lparr>bmMax = 10, bmEntries = []\<rparr>, wMetrics = []\<rparr>,
     scMemo = \<lparr>cmSeen = None, cmIter = []\<rparr>, scProgress = False, scDispatched = []\<rparr>"

definition model_scanned :: ScannedFlow where
  "model_scanned = \<lparr>sfPubkey = replicate 32 1, sfStatus = ''Pending'', sfDirection = Deposit, sfFogoTx = ''tx'', sfVaaHex = None\<rparr>"

theorem task_releases_slot_witness:
  "\<exists>st' t'. runTask model_env (\<lambda>_. False) (\<lambda>_. 0) default_fns model_scanned model_scan (Some freshTracker) = Some (st', Some t') \<and>
     tracker_ok t'"
  using task_releases_slot [OF tracker_ok_fresh, of model_env "\<lambda>_. False" "\<lambda>_. 0" model_scanned model_scan] by blast

text \<open>The slot operations of the planning loop.\<close>

definition begins :: "web3_env \<Rightarrow> (nat \<Rightarrow> int) \<Rightarrow> nat \<Rightarrow> ScannedFlow list \<Rightarrow> tracker_op list" where
  "begins env clock n flows =
     map (\<lambda>(i, f). Begin (toBase58 env (sfPubkey f)) (clock i)) (enumerate n flows)"

lemma begins_Cons: "begins env clock n (f # fs) = Begin (toBase58 env (sfPubkey f)) (clock n) # begins env clock (Suc n) fs"
  by (simp add: begins_def)

lemma fits_tail:
  assumes "trace_fits t (x # ops)"
  shows "trace_fits t ops"
  using fits_subset [OF assms, of "trace_keys t ops"] by (auto simp: trace_fits_def trace_keys_def)

text \<open>A flow whose slot was taken within the window is not planned again, and a planned flow is planned once.\<close>

lemma planTasks_slots:
  assumes "tracker_ok t" "trace_fits t (begins env clock n flows)"
    and win: "\<And>i j. clock j - clock i < optInFlightTimeoutMs t"
    and "planTasks env fns clock n flows (Some t) = (tasks, skips, tr)"
  shows "distinct (map (\<lambda>f. toBase58 env (sfPubkey f)) tasks) \<and> set tasks \<subseteq> set flows \<and>
    (\<forall>k i a. inspect t k = Some (InFlight (clock i) a) \<longrightarrow> k \<notin> (\<lambda>f. toBase58 env (sfPubkey f)) ` set tasks)"
  using assms
proof (induction flows arbitrary: n t tasks skips tr)
  case Nil
  then show ?case by simp
next
  case (Cons f fs)
  let ?k = "toBase58 env (sfPubkey f)" and ?op = "Begin (toBase58 env (sfPubkey f)) (clock n)"
  have fits: "trace_fits t (?op # begins env clock (Suc n) fs)" using Cons.prems(2) by (simp add: begins_Cons)
  define t1 where "t1 = apply_op ?op t"
  show ?case
  proof (cases "pickAdvanceForStatus (sfStatus f) fns")
    case None
    with Cons.prems(4) obtain skips' where "planTasks env fns clock (n + 1) fs (Some t) = (tasks, skips', tr)"
      by (auto split: prod.splits)
    from Cons.IH [OF Cons.prems(1) _ Cons.prems(3), of "n + 1" tasks skips' tr] this fits_tail [OF fits] show ?thesis by auto
  next
    case (Some d)
    show ?thesis
    proof (cases rule: begin_cases [of t ?k "clock n"])
      case (refused r)
      with Some Cons.prems(4) obtain skips' where "planTasks env fns clock (n + 1) fs (Some t) = (tasks, skips', tr)"
        by (auto split: prod.splits)
      from Cons.IH [OF Cons.prems(1) _ Cons.prems(3), of "n + 1" tasks skips' tr] this fits_tail [OF fits] show ?thesis by auto
    next
      case granted
      then have g: "beginIfReady t ?k (clock n) = (None, t1)" by (simp add: grant_def t1_def)
      obtain tasks' skips' tr' where p: "planTasks env fns clock (n + 1) fs (Some t1) = (tasks', skips', tr')"
        by (metis prod_cases3)
      then have tasks: "tasks = f # tasks'" using Cons.prems(4) Some g by simp
      have win': "clock j - clock i < optInFlightTimeoutMs t1" for i j unfolding t1_def opts_op by (rule Cons.prems(3))
      have fits': "trace_fits t1 (begins env clock (n + 1) fs)" using fits_step [OF Cons.prems(1) fits] by (simp add: t1_def)
      have ih: "distinct (map (\<lambda>f. toBase58 env (sfPubkey f)) tasks') \<and> set tasks' \<subseteq> set fs \<and>
        (\<forall>k i a. inspect t1 k = Some (InFlight (clock i) a) \<longrightarrow> k \<notin> (\<lambda>f. toBase58 env (sfPubkey f)) ` set tasks')"
        by (rule Cons.IH [OF tracker_ok_op [OF Cons.prems(1), of ?op, folded t1_def] fits' win' p])
      have own: "inspect t1 ?k = Some (InFlight (clock n) (attemptsOf (inspect t ?k)))"
        using granted inspect_set [OF Cons.prems(1) fits] by (simp add: grant_def t1_def)
      have busy: "k \<noteq> ?k \<and> inspect t1 k = Some (InFlight (clock i) a)" if "inspect t k = Some (InFlight (clock i) a)" for k i a
      proof -
        have "k \<noteq> ?k"
        proof
          assume "k = ?k"
          with that Cons.prems(3) [of n i] have "fst (beginIfReady t ?k (clock n)) = Some ''inFlight''"
            by (simp add: inspect_begin)
          with g show False by simp
        qed
        with slot_step [OF Cons.prems(1) fits _ that, folded t1_def] show ?thesis by simp
      qed
      have "?k \<notin> (\<lambda>f. toBase58 env (sfPubkey f)) ` set tasks'" using ih own by blast
      moreover have "k \<notin> (\<lambda>f. toBase58 env (sfPubkey f)) ` set tasks" if "inspect t k = Some (InFlight (clock i) a)" for k i a
        using busy [OF that] ih by (auto simp: tasks)
      ultimately show ?thesis using ih by (auto simp: tasks)
    qed
  qed
qed

text \<open>A slot is free at a time when the flow is idle, or its back-off is over, or its holder has timed out; never when the flow is
  quarantined.\<close>

definition slot_free :: "FlowStateTracker \<Rightarrow> string \<Rightarrow> int \<Rightarrow> bool" where
  "slot_free t k now \<longleftrightarrow>
     (case inspect t k of
        None \<Rightarrow> True
      | Some (InFlight started _) \<Rightarrow> started + optInFlightTimeoutMs t \<le> now
      | Some (Cooldown due _) \<Rightarrow> due \<le> now
      | Some (Poisoned _ _ _) \<Rightarrow> False)"

lemma slot_free_iff: "slot_free t k now \<longleftrightarrow> fst (beginIfReady t k now) = None"
  by (auto simp: slot_free_def beginIfReady_def grant_def split: option.split FlowProcState.split)

lemma planTasks_step:
  assumes "planTasks env fns clock n (f # fs) (Some t) = (tasks, skips, tr)"
  obtains (skipped) skips' where "planTasks env fns clock (n + 1) fs (Some t) = (tasks, skips', tr)"
      "pickAdvanceForStatus (sfStatus f) fns = None \<or> \<not> slot_free t (toBase58 env (sfPubkey f)) (clock n)"
    | (granted) tasks' skips' where "tasks = f # tasks'" "pickAdvanceForStatus (sfStatus f) fns \<noteq> None"
      "slot_free t (toBase58 env (sfPubkey f)) (clock n)"
      "planTasks env fns clock (n + 1) fs (Some (apply_op (Begin (toBase58 env (sfPubkey f)) (clock n)) t)) = (tasks', skips', tr)"
proof (cases "pickAdvanceForStatus (sfStatus f) fns = None")
  case True
  with assms skipped show thesis by (auto split: prod.splits)
next
  case False
  show thesis
  proof (cases rule: begin_cases [of t "toBase58 env (sfPubkey f)" "clock n"])
    case (refused r)
    with False assms skipped show thesis by (auto simp: slot_free_iff split: prod.splits)
  next
    case granted
    with False assms that(2) show thesis by (auto simp: slot_free_iff grant_def split: prod.splits)
  qed
qed

text \<open>The slot of flow \<open>f\<close> was free in \<open>t\<close> when the loop reached it, and is taken in \<open>t'\<close> since.\<close>

definition planned_at ::
  "web3_env \<Rightarrow> 's AdvanceFns \<Rightarrow> (nat \<Rightarrow> int) \<Rightarrow> nat \<Rightarrow> ScannedFlow list \<Rightarrow> FlowStateTracker \<Rightarrow> FlowStateTracker \<Rightarrow> ScannedFlow \<Rightarrow> bool" where
  "planned_at env fns clock n flows t t' f \<longleftrightarrow>
     (\<exists>i < length flows. flows ! i = f \<and> pickAdvanceForStatus (sfStatus f) fns \<noteq> None \<and> slot_free t (toBase58 env (sfPubkey f)) (clock (n + i)) \<and>
        inspect t' (toBase58 env (sfPubkey f)) = Some (InFlight (clock (n + i)) (attemptsOf (inspect t (toBase58 env (sfPubkey f))))))"

lemma planned_at_later: "planned_at env fns clock (n + 1) fs t t' g \<Longrightarrow> planned_at env fns clock n (f # fs) t t' g"
  unfolding planned_at_def by (elim exE conjE, rule_tac x = "Suc i" in exI) simp

lemma planned_at_cong:
  assumes "inspect t1 (toBase58 env (sfPubkey g)) = inspect t (toBase58 env (sfPubkey g))" "optInFlightTimeoutMs t1 = optInFlightTimeoutMs t"
  shows "planned_at env fns clock n flows t1 t' g = planned_at env fns clock n flows t t' g"
  unfolding planned_at_def slot_free_def assms by (rule refl)

lemma begin_free:
  assumes "tracker_ok t" "trace_fits t (Begin g now # ops)" "slot_free t g now"
  shows "inspect (apply_op (Begin g now) t) k = (if k = g then Some (InFlight now (attemptsOf (inspect t g))) else inspect t k)"
  using assms(3) inspect_set [OF assms(1,2), of g]
  by (cases rule: begin_cases [of t g now]) (simp_all add: slot_free_iff grant_def)

lemma planTasks_granted:
  fixes env
  defines "key \<equiv> \<lambda>f. toBase58 env (sfPubkey f)"
  assumes "tracker_ok t" "trace_fits t (begins env clock n flows)"
    and "\<And>i j. clock j - clock i < optInFlightTimeoutMs t"
    and "planTasks env fns clock n flows (Some t) = (tasks, skips, tr)"
  shows "\<exists>t'. tr = Some t' \<and> (\<forall>k. k \<notin> key ` set tasks \<longrightarrow> inspect t' k = inspect t k) \<and>
    (\<forall>f \<in> set tasks. planned_at env fns clock n flows t t' f) \<and>
    (\<forall>i < length flows. pickAdvanceForStatus (sfStatus (flows ! i)) fns \<noteq> None \<longrightarrow> slot_free t (key (flows ! i)) (clock (n + i)) \<longrightarrow>
       key (flows ! i) \<in> key ` set tasks)"
  using assms(2-)
proof (induction flows arbitrary: n t tasks skips tr)
  case (Cons f fs)
  let ?op = "Begin (key f) (clock n)"
  let ?all = "\<lambda>n fs t tasks. \<forall>i < length fs. pickAdvanceForStatus (sfStatus (fs ! i)) fns \<noteq> None \<longrightarrow>
      slot_free t (key (fs ! i)) (clock (n + i)) \<longrightarrow> key (fs ! i) \<in> key ` set tasks"
  have fits: "trace_fits t (?op # begins env clock (Suc n) fs)" using Cons.prems(2) by (simp add: begins_Cons key_def)
  from Cons.prems(4) show ?case
  proof (cases rule: planTasks_step)
    case (skipped skips')
    from Cons.IH [OF Cons.prems(1) _ Cons.prems(3) skipped(1)] fits_tail [OF fits] obtain t' where
      t': "tr = Some t'" "\<forall>k. k \<notin> key ` set tasks \<longrightarrow> inspect t' k = inspect t k" "\<forall>g \<in> set tasks. planned_at env fns clock (n + 1) fs t t' g"
      and all: "?all (n + 1) fs t tasks" by auto
    have "?all n (f # fs) t tasks"
    proof (intro allI impI)
      fix i assume "i < length (f # fs)" "pickAdvanceForStatus (sfStatus ((f # fs) ! i)) fns \<noteq> None" "slot_free t (key ((f # fs) ! i)) (clock (n + i))"
      then show "key ((f # fs) ! i) \<in> key ` set tasks" using all skipped(2) by (cases i) (auto simp: key_def)
    qed
    with t' planned_at_later show ?thesis by blast
  next
    case (granted tasks' skips')
    define t1 where "t1 = apply_op ?op t"
    have ok: "tracker_ok t1" unfolding t1_def by (rule tracker_ok_op [OF Cons.prems(1)])
    have fits1: "trace_fits t1 (begins env clock (n + 1) fs)" using fits_step [OF Cons.prems(1) fits] by (simp add: t1_def)
    have opt: "optInFlightTimeoutMs t1 = optInFlightTimeoutMs t" unfolding t1_def by (rule opts_op)
    have win: "clock j - clock i < optInFlightTimeoutMs t1" for i j unfolding opt by (rule Cons.prems(3))
    have p: "planTasks env fns clock (n + 1) fs (Some t1) = (tasks', skips', tr)" using granted(4) by (simp add: t1_def key_def)
    have other: "inspect t1 k = (if k = key f then Some (InFlight (clock n) (attemptsOf (inspect t (key f)))) else inspect t k)" for k
      unfolding t1_def by (rule begin_free [OF Cons.prems(1) fits]) (simp add: granted(3) key_def)
    have fresh: "key f \<notin> key ` set tasks'" using planTasks_slots [OF ok fits1 win p] other [of "key f"] by (auto simp: key_def)
    from Cons.IH [OF ok fits1 win p] obtain t' where
      t': "tr = Some t'" "\<forall>k. k \<notin> key ` set tasks' \<longrightarrow> inspect t' k = inspect t1 k" "\<forall>g \<in> set tasks'. planned_at env fns clock (n + 1) fs t1 t' g"
      and all: "?all (n + 1) fs t1 tasks'" by auto
    have "planned_at env fns clock n (f # fs) t t' g" if "g \<in> set tasks'" for g
    proof -
      have "key g \<noteq> key f" using that fresh by (metis imageI)
      then have "inspect t1 (toBase58 env (sfPubkey g)) = inspect t (toBase58 env (sfPubkey g))" using other by (simp add: key_def)
      from planned_at_cong [OF this opt] that t'(3) show ?thesis by (blast intro: planned_at_later)
    qed
    moreover have "planned_at env fns clock n (f # fs) t t' f"
      using granted(2,3) t'(2) fresh other unfolding planned_at_def by (intro exI [of _ 0]) (simp add: key_def)
    moreover have "?all n (f # fs) t tasks"
    proof (intro allI impI)
      fix i assume i: "i < length (f # fs)" "pickAdvanceForStatus (sfStatus ((f # fs) ! i)) fns \<noteq> None" "slot_free t (key ((f # fs) ! i)) (clock (n + i))"
      show "key ((f # fs) ! i) \<in> key ` set tasks"
      proof (cases "key ((f # fs) ! i) = key f")
        case False
        then obtain m where m: "i = Suc m" by (cases i) simp_all
        with False other [of "key (fs ! m)"] have "inspect t1 (key (fs ! m)) = inspect t (key (fs ! m))" by simp
        then have "slot_free t1 (key (fs ! m)) u = slot_free t (key (fs ! m)) u" for u unfolding slot_free_def opt by simp
        with all i m have "key (fs ! m) \<in> key ` set tasks'" by simp
        then show ?thesis using m granted(1) by simp
      qed (use granted(1) in simp)
    qed
    moreover have "\<forall>k. k \<notin> key ` set tasks \<longrightarrow> inspect t' k = inspect t k" using t'(2) other granted(1) by auto
    ultimately show ?thesis using t'(1) granted(1) by auto
  qed
qed simp

text \<open>C27. One scan dispatches a flow at most once, and exactly when its slot is free. Even if enumeration lists a flow several times,
  the planned tasks have pairwise different flow keys. A task is planned only for an enumerated flow with a handler that, when the loop
  reaches it, is idle, has its back-off behind it, or is held by a dispatch that timed out: never for a flow cooling down,
  quarantined, or in flight within the timeout. Its slot is then taken at that time, with its count of attempts kept.
  Conversely every enumerated flow with a handler and a free slot is planned. No other slot changes. The loop is
  assumed to take less time than the in-flight timeout, and the tracker to have room for the enumerated flows.\<close>

theorem scan_plans_each_flow_once:
  assumes "tracker_ok t" "trace_fits t (begins env clock 0 flows)"
    and "\<And>i j. clock j - clock i < optInFlightTimeoutMs t"
    and "planTasks env fns clock 0 flows (Some t) = (tasks, skips, tr)"
  shows "distinct (map (\<lambda>f. toBase58 env (sfPubkey f)) tasks) \<and>
    (\<exists>t'. tr = Some t' \<and> (\<forall>k. k \<notin> (\<lambda>f. toBase58 env (sfPubkey f)) ` set tasks \<longrightarrow> inspect t' k = inspect t k) \<and>
      (\<forall>f \<in> set tasks. \<exists>i < length flows. flows ! i = f \<and> pickAdvanceForStatus (sfStatus f) fns \<noteq> None \<and>
         slot_free t (toBase58 env (sfPubkey f)) (clock i) \<and>
         inspect t' (toBase58 env (sfPubkey f)) = Some (InFlight (clock i) (attemptsOf (inspect t (toBase58 env (sfPubkey f)))))) \<and>
      (\<forall>i < length flows. pickAdvanceForStatus (sfStatus (flows ! i)) fns \<noteq> None \<longrightarrow>
         slot_free t (toBase58 env (sfPubkey (flows ! i))) (clock i) \<longrightarrow>
         toBase58 env (sfPubkey (flows ! i)) \<in> (\<lambda>f. toBase58 env (sfPubkey f)) ` set tasks))"
proof -
  have "distinct (map (\<lambda>f. toBase58 env (sfPubkey f)) tasks)" using planTasks_slots [OF assms] by blast
  then show ?thesis by (rule conjI [OF _ planTasks_granted [OF assms, unfolded planned_at_def add_0]])
qed

theorem scan_plans_each_flow_once_witness:
  "\<exists>tasks skips t'. planTasks model_env default_fns (\<lambda>_. 0) 0
      (replicate 2 \<lparr>sfPubkey = replicate 32 1, sfStatus = ''Pending'', sfDirection = Deposit, sfFogoTx = ''t'', sfVaaHex = None\<rparr>)
      (Some freshTracker) = (tasks, skips, Some t') \<and> length tasks = 1 \<and>
      inspect t' (toBase58 model_env (replicate 32 1)) = Some (InFlight 0 0)"
proof -
  let ?f = "\<lparr>sfPubkey = replicate 32 1, sfStatus = ''Pending'', sfDirection = Deposit, sfFogoTx = ''t'', sfVaaHex = None\<rparr>"
  let ?k = "toBase58 model_env (replicate 32 1)"
  obtain tasks skips tr where p: "planTasks model_env default_fns (\<lambda>_. 0) 0 (replicate 2 ?f) (Some freshTracker) = (tasks, skips, tr)"
    by (metis prod_cases3)
  have "trace_fits freshTracker (begins model_env (\<lambda>_. 0) 0 (replicate 2 ?f))"
    by (rule fits_fresh) (simp add: begins_def)
  moreover have "(0 :: int) - 0 < optInFlightTimeoutMs freshTracker" by (simp add: freshTracker_def)
  ultimately have claim: "distinct (map (\<lambda>f. toBase58 model_env (sfPubkey f)) tasks) \<and>
    (\<exists>t'. tr = Some t' \<and> (\<forall>k. k \<notin> (\<lambda>f. toBase58 model_env (sfPubkey f)) ` set tasks \<longrightarrow> inspect t' k = inspect freshTracker k) \<and>
      (\<forall>f \<in> set tasks. \<exists>i < length (replicate 2 ?f). replicate 2 ?f ! i = f \<and> pickAdvanceForStatus (sfStatus f) default_fns \<noteq> None \<and>
         slot_free freshTracker (toBase58 model_env (sfPubkey f)) 0 \<and>
         inspect t' (toBase58 model_env (sfPubkey f)) = Some (InFlight 0 (attemptsOf (inspect freshTracker (toBase58 model_env (sfPubkey f)))))) \<and>
      (\<forall>i < length (replicate 2 ?f). pickAdvanceForStatus (sfStatus (replicate 2 ?f ! i)) default_fns \<noteq> None \<longrightarrow>
         slot_free freshTracker (toBase58 model_env (sfPubkey (replicate 2 ?f ! i))) 0 \<longrightarrow>
         toBase58 model_env (sfPubkey (replicate 2 ?f ! i)) \<in> (\<lambda>f. toBase58 model_env (sfPubkey f)) ` set tasks))"
    by (rule scan_plans_each_flow_once [OF tracker_ok_fresh _ _ p])
  have idle: "inspect freshTracker k = None" for k by (simp add: inspect_def freshTracker_def bm_get_def)
  have "pickAdvanceForStatus ''Pending'' default_fns \<noteq> None" by (simp add: pickAdvanceForStatus_def)
  moreover have "replicate 2 ?f ! 0 = ?f" "0 < length (replicate 2 ?f)" by (simp_all add: numeral_eq_Suc)
  ultimately have k: "?k \<in> (\<lambda>f. toBase58 model_env (sfPubkey f)) ` set tasks"
    using claim by (elim conjE exE allE [of _ 0]) (simp add: slot_free_def idle)
  have sub: "set tasks \<subseteq> {?f}" using claim by (auto simp: in_set_conv_nth less_Suc_eq numeral_eq_Suc)
  have "distinct tasks" using claim by (blast dest: distinct_map [THEN iffD1])
  then have "length tasks = card (set tasks)" by (simp add: distinct_card)
  moreover have "tasks \<noteq> []" using k by auto
  with sub have "set tasks = {?f}" by (metis set_empty subset_singletonD)
  ultimately have "length tasks = 1" "?f \<in> set tasks" by simp_all
  moreover from claim obtain t' where "tr = Some t'" and held: "\<forall>f \<in> set tasks. \<exists>i < length (replicate 2 ?f). replicate 2 ?f ! i = f \<and>
      pickAdvanceForStatus (sfStatus f) default_fns \<noteq> None \<and> slot_free freshTracker (toBase58 model_env (sfPubkey f)) 0 \<and>
      inspect t' (toBase58 model_env (sfPubkey f)) = Some (InFlight 0 (attemptsOf (inspect freshTracker (toBase58 model_env (sfPubkey f)))))"
    by (elim conjE exE) (rule that)
  moreover from bspec [OF held calculation(2)] have "inspect t' ?k = Some (InFlight 0 0)" by (elim exE conjE) (simp add: idle attemptsOf_def)
  ultimately show ?thesis using p by blast
qed

end
