(* ===== verification/Watermarks.thy ===== *)
theory Watermarks
  imports Js_Map Wormholescan "HOL-Library.List_Lexorder" "HOL-Library.Char_ord"
begin

text \<open>
  The cranker's scan watermarks (\<open>packages/cranker/src/state/watermarks.ts\<close>), their checkpoint on disk
  (\<open>state/checkpoint.ts\<close>) and the paged harvest of VAAs that they bound (\<open>utils/wormholescan-pages.ts\<close>).

  A store is a \<open>Map\<close> from \<open>chain:emitter\<close> keys to the highest sequence seen. The file system is a map
  from paths to decoded JSON documents (the text of a document is left out: a file that does not parse
  is \<open>None\<close>), the SHA-256 of Node is a parameter, and the module variable \<open>lastWrittenHash\<close> is part of the
  state that \<open>saveCheckpoint\<close> threads.
\<close>

type_synonym WatermarkStore = "(string, int) jsmap"

definition BACKFILL_COUNT :: int where
  "BACKFILL_COUNT = 5"

definition watermarkKey :: "nat \<Rightarrow> string \<Rightarrow> string" where
  "watermarkKey chainId emitter = dec_of_nat chainId @ '':'' @ emitter"

definition watermark :: "WatermarkStore \<Rightarrow> nat \<Rightarrow> string \<Rightarrow> int" where
  "watermark store chainId emitter =
     (case jm_get store (watermarkKey chainId emitter) of None \<Rightarrow> 0 | Some w \<Rightarrow> w)"

definition pagingFloor :: "WatermarkStore \<Rightarrow> nat \<Rightarrow> string \<Rightarrow> int" where
  "pagingFloor store chainId emitter =
     (let wm = watermark store chainId emitter in
      if wm = 0 then 0
      else if wm > BACKFILL_COUNT then wm - BACKFILL_COUNT else 0)"

fun anyAbove :: "int \<Rightarrow> WormholescanVaa list \<Rightarrow> bool" where
  "anyAbove fl [] = False"
| "anyAbove fl (v # vs) = (if wvSequence v > fl then True else anyAbove fl vs)"

definition isPageBelowFloor :: "int \<Rightarrow> WormholescanVaa list \<Rightarrow> bool" where
  "isPageBelowFloor fl page =
     (if page = [] then True
      else if fl = 0 then False
      else \<not> anyAbove fl page)"

definition recordSeen :: "WatermarkStore \<Rightarrow> nat \<Rightarrow> string \<Rightarrow> int \<Rightarrow> WatermarkStore" where
  "recordSeen store chainId emitter seq =
     (let cur = watermark store chainId emitter in
      if seq > cur then jm_set (watermarkKey chainId emitter) seq store else store)"

definition snapshotWatermarks :: "WatermarkStore \<Rightarrow> (string, string) jsmap" where
  "snapshotWatermarks store = fold (\<lambda>(k, v). jm_set k (bigint_toString v)) store []"

definition restoreEntry :: "string \<times> string \<Rightarrow> WatermarkStore \<Rightarrow> WatermarkStore" where
  "restoreEntry = (\<lambda>(k, v) out.
     if CHR '':'' \<notin> set k then out
     else (case BigInt v of Inr n \<Rightarrow> jm_set k n out | Inl _ \<Rightarrow> out))"

definition restoreWatermarks :: "(string, string) jsmap \<Rightarrow> WatermarkStore" where
  "restoreWatermarks snapshot = fold restoreEntry snapshot []"

section \<open>Checkpoint\<close>

text \<open>
  What \<open>JSON.parse\<close> may leave in the \<open>watermarks\<close> field: an object (or an array, as the object of its
  indices), \<open>null\<close>, or a value \<open>typeof\<close> does not call an object.
\<close>

datatype watermarks_field = WmObject "(string, string) jsmap" | WmNull | WmOther

record CheckpointFile =
  cpVersion :: int
  cpWatermarks :: watermarks_field
  cpUpdatedAt :: string

definition loadCheckpoint :: "(string \<Rightarrow> CheckpointFile option) \<Rightarrow> string \<Rightarrow> CheckpointFile option" where
  "loadCheckpoint readFile path =
     (case readFile path of
        None \<Rightarrow> None
      | Some parsed \<Rightarrow>
          if cpVersion parsed \<noteq> 1 \<or> cpWatermarks parsed = WmOther then None else Some parsed)"

text \<open>\<open>Object.keys(snapshot).sort()\<close>, on keys whose UTF-16 and UTF-8 orders agree.\<close>

definition sortedEntries :: "(string, string) jsmap \<Rightarrow> (string \<times> string) list" where
  "sortedEntries snapshot = sort_key fst snapshot"

definition hashPayload :: "(string \<times> string) list \<Rightarrow> bytes" where
  "hashPayload es = concat (map (\<lambda>(k, v). utf8 k @ [0] @ utf8 v @ [0]) es)"

definition hashWatermarks :: "(bytes \<Rightarrow> string) \<Rightarrow> (string, string) jsmap \<Rightarrow> string" where
  "hashWatermarks sha256 snapshot = sha256 (hashPayload (sortedEntries snapshot))"

record checkpoint_state =
  csDisk :: "string \<Rightarrow> CheckpointFile option"
  csLastWrittenHash :: "(string, string) jsmap"

text \<open>Which of the three file-system calls of a save throws, if any.\<close>

datatype io_fault = NoFault | MkdirFails | WriteFails | RenameFails

definition saveCheckpoint ::
  "(bytes \<Rightarrow> string) \<Rightarrow> io_fault \<Rightarrow> string \<Rightarrow> string \<Rightarrow> WatermarkStore \<Rightarrow> checkpoint_state \<Rightarrow>
   bool result \<times> checkpoint_state" where
  "saveCheckpoint sha256 fault nowIso path store st =
     (let watermarks = snapshotWatermarks store;
          hash = hashWatermarks sha256 watermarks;
          tmp = path @ ''.tmp'';
          file = \<lparr>cpVersion = 1, cpWatermarks = WmObject watermarks, cpUpdatedAt = nowIso\<rparr>
      in if jm_get (csLastWrittenHash st) path = Some hash then (Inr False, st)
         else case fault of
             MkdirFails \<Rightarrow> (Inl (Error ''mkdirSync''), st)
           | WriteFails \<Rightarrow> (Inl (Error ''writeFileSync''), st\<lparr>csDisk := (csDisk st)(tmp := None)\<rparr>)
           | RenameFails \<Rightarrow> (Inl (Error ''renameSync''), st\<lparr>csDisk := (csDisk st)(tmp \<mapsto> file)\<rparr>)
           | NoFault \<Rightarrow>
               (Inr True,
                \<lparr>csDisk = (csDisk st)(path \<mapsto> file, tmp := None),
                 csLastWrittenHash = jm_set path hash (csLastWrittenHash st)\<rparr>))"

definition watermarksFromCheckpoint :: "CheckpointFile option \<Rightarrow> WatermarkStore result" where
  "watermarksFromCheckpoint cp =
     (case cp of
        None \<Rightarrow> Inr []
      | Some f \<Rightarrow> (case cpWatermarks f of
          WmObject ws \<Rightarrow> Inr (restoreWatermarks ws)
        | WmNull \<Rightarrow> Inl (TypeError ''Cannot convert undefined or null to object'')
        | WmOther \<Rightarrow> Inr []))"

section \<open>Harvest\<close>

text \<open>
  \<open>pages\<close> is \<open>listVaasByEmitter\<close> at the loop's chain, emitter and page size; \<open>aborted\<close> tells whether the
  abort signal has fired when a page is about to be fetched. The result is the pages yielded.
\<close>

fun harvestLoop ::
  "(nat \<Rightarrow> WormholescanVaa list result) \<Rightarrow> (nat \<Rightarrow> bool) \<Rightarrow> int \<Rightarrow> nat list \<Rightarrow> WormholescanVaa list list" where
  "harvestLoop pages aborted fl [] = []"
| "harvestLoop pages aborted fl (page # rest) =
     (if aborted page then []
      else let items = catch (pages page) (\<lambda>_. []) in
        if items = [] then []
        else items # (if isPageBelowFloor fl items then [] else harvestLoop pages aborted fl rest))"

definition harvestVaaPages ::
  "(nat \<Rightarrow> WormholescanVaa list result) \<Rightarrow> (nat \<Rightarrow> bool) \<Rightarrow> nat \<Rightarrow> string \<Rightarrow> nat \<Rightarrow>
   WatermarkStore option \<Rightarrow> bool \<Rightarrow> WormholescanVaa list list" where
  "harvestVaaPages pages aborted chainId emitterHex maxPages watermarks bypassWatermark =
     (let fl = (if bypassWatermark then 0
                else (case watermarks of None \<Rightarrow> 0 | Some w \<Rightarrow> pagingFloor w chainId emitterHex))
      in harvestLoop pages aborted fl [0..<maxPages])"

section \<open>Keys and monotonicity\<close>

lemma colon_not_digit: "\<not> is_digit CHR '':''"
  by (simp add: is_digit_def)

lemma takeWhile_digits:
  "list_all is_digit s \<Longrightarrow> takeWhile (\<lambda>c. c \<noteq> CHR '':'') (s @ CHR '':'' # t) = s"
  using colon_not_digit by (induction s) auto

lemma watermarkKey_inj:
  "watermarkKey c e = watermarkKey c' e' \<longleftrightarrow> c = c' \<and> e = e'"
proof
  assume eq: "watermarkKey c e = watermarkKey c' e'"
  have "takeWhile (\<lambda>x. x \<noteq> CHR '':'') (watermarkKey n x) = dec_of_nat n" for n x
    by (simp add: watermarkKey_def takeWhile_digits dec_of_nat_digits)
  then have d: "dec_of_nat c = dec_of_nat c'" using eq by metis
  then have "c = c'" by (metis nat_of_dec_dec_of_nat)
  with eq show "c = c' \<and> e = e'" by (simp add: watermarkKey_def)
qed simp

lemma watermark_recordSeen:
  assumes "jm_ok store"
  shows "watermark (recordSeen store c e seq) c' e' =
    (if c' = c \<and> e' = e then max (watermark store c e) seq else watermark store c' e')"
  using assms
  by (auto simp: recordSeen_def Let_def watermark_def jm.get_put watermarkKey_inj split: option.splits)

lemma jm_ok_recordSeen: "jm_ok store \<Longrightarrow> jm_ok (recordSeen store c e seq)"
  by (simp add: recordSeen_def Let_def jm.inv_put)

text \<open>A batch of sightings, in the order the scanners report them.\<close>

definition recordAll :: "(nat \<times> string \<times> int) list \<Rightarrow> WatermarkStore \<Rightarrow> WatermarkStore" where
  "recordAll xs store = fold (\<lambda>(c, e, s) st. recordSeen st c e s) xs store"

lemma watermark_recordAll:
  "jm_ok store \<Longrightarrow> watermark (recordAll xs store) c e =
     fold max (map (\<lambda>(_, _, s). s) (filter (\<lambda>(c', e', _). c' = c \<and> e' = e) xs)) (watermark store c e)"
proof (induction xs arbitrary: store)
  case (Cons x xs)
  obtain c' e' s where x: "x = (c', e', s)" by (cases x)
  with Cons show ?case
    by (auto simp: recordAll_def jm_ok_recordSeen watermark_recordSeen max.commute)
qed (simp add: recordAll_def)

lemma fold_max_mset:
  "fold max xs (a :: int) = Max (insert a (set xs))"
  by (metis Max.set_eq_fold list.set(2))

text \<open>The watermark of a chain and emitter is the highest sequence reported for that very pair,
  whatever the order of the reports and whatever is reported for other pairs; so it never moves back
  and no pair contaminates another.\<close>

theorem watermark_is_max:
  assumes "jm_ok store"
  shows "watermark (recordAll xs store) c e =
    Max (insert (watermark store c e) {s. (c, e, s) \<in> set xs}) \<and>
    pagingFloor store c e \<le> pagingFloor (recordAll xs store) c e"
proof -
  have set: "set (map (\<lambda>(_, _, s). s) (filter (\<lambda>(c', e', _). c' = c \<and> e' = e) xs)) = {s. (c, e, s) \<in> set xs}"
    by force
  have w: "watermark (recordAll xs store) c e = Max (insert (watermark store c e) {s. (c, e, s) \<in> set xs})"
    using assms by (simp add: watermark_recordAll fold_max_mset set [symmetric] del: set_map set_filter)
  have "finite {s. (c, e, s) \<in> set xs}" unfolding set [symmetric] by (rule finite_set)
  then have "watermark store c e \<le> watermark (recordAll xs store) c e" unfolding w by simp
  then have "pagingFloor store c e \<le> pagingFloor (recordAll xs store) c e"
    by (auto simp: pagingFloor_def Let_def BACKFILL_COUNT_def)
  with w show ?thesis by simp
qed

theorem watermark_is_max_witness:
  "watermark (recordAll [(1, ''aa'', 7), (51, ''aa'', 99), (1, ''aa'', 3)] []) 1 ''aa'' = 7"
proof -
  have "{s. (1 :: nat, ''aa'', s :: int) \<in> set [(1, ''aa'', 7), (51, ''aa'', 99), (1, ''aa'', 3)]} = {7, 3}"
    by auto
  moreover have "watermark [] 1 ''aa'' = 0" by (simp add: watermark_def)
  ultimately show ?thesis
    using watermark_is_max [of "[]" "[(1, ''aa'', 7), (51, ''aa'', 99), (1, ''aa'', 3)]" 1 "''aa''"] by simp
qed

section \<open>The harvest misses nothing above the floor\<close>

text \<open>The documented behaviour of the service: the emitter's VAAs, newest first, cut into pages.\<close>

definition pagesOf :: "WormholescanVaa list \<Rightarrow> nat \<Rightarrow> nat \<Rightarrow> WormholescanVaa list result" where
  "pagesOf vaas pageSize page = Inr (take pageSize (drop (page * pageSize) vaas))"

definition newest_first :: "WormholescanVaa list \<Rightarrow> bool" where
  "newest_first vaas \<longleftrightarrow> sorted_wrt (\<lambda>v w. wvSequence w \<le> wvSequence v) vaas"

lemma anyAbove_iff: "anyAbove fl vs \<longleftrightarrow> (\<exists>v \<in> set vs. fl < wvSequence v)"
  by (induction vs) auto

lemma harvestLoop_finds:
  assumes "newest_first vaas" "0 < n" "i < length vaas" "fl = 0 \<or> fl < wvSequence (vaas ! i)"
    and "p * n \<le> i" "i < m * n"
  shows "vaas ! i \<in> set (concat (harvestLoop (pagesOf vaas n) (\<lambda>_. False) fl [p..<m]))"
  using assms(5,6)
proof (induction "m - p" arbitrary: p)
  case 0
  then have "m * n \<le> p * n" by simp
  with "0.prems" show ?case by linarith
next
  case (Suc k)
  then have pm: "[p..<m] = p # [Suc p..<m]" by (simp add: upt_conv_Cons)
  let ?items = "take n (drop (p * n) vaas)"
  have hd: "vaas ! (p * n) \<in> set ?items"
    using assms(2,3) Suc.prems by (auto simp: in_set_conv_nth intro!: exI [of _ 0])
  show ?case
  proof (cases "i < Suc p * n")
    case True
    then have "vaas ! i \<in> set ?items"
      using assms(3) Suc.prems by (auto simp: in_set_conv_nth intro!: exI [of _ "i - p * n"])
    with assms(2) show ?thesis by (auto simp: pm pagesOf_def Let_def)
  next
    case False
    have "wvSequence (vaas ! i) \<le> wvSequence (vaas ! (p * n))"
      using assms(1,3) Suc.prems(1) by (cases "p * n = i") (auto simp: newest_first_def sorted_wrt_iff_nth_less)
    with assms(4) have "fl = 0 \<or> fl < wvSequence (vaas ! (p * n))" by linarith
    moreover have "?items \<noteq> []" using hd by (rule list.set_cases) simp_all
    ultimately have "\<not> isPageBelowFloor fl ?items"
      using hd by (auto simp: isPageBelowFloor_def anyAbove_iff simp del: take_eq_Nil)
    moreover have "vaas ! i \<in> set (concat (harvestLoop (pagesOf vaas n) (\<lambda>_. False) fl [Suc p..<m]))"
      using Suc.hyps(2) False Suc.prems(2) by (intro Suc.hyps(1)) auto
    moreover have "?items \<noteq> []" using hd by (rule list.set_cases) simp_all
    ultimately show ?thesis by (simp add: pm pagesOf_def Let_def)
  qed
qed



section \<open>Snapshots and checkpoints\<close>

lemma fold_set_fresh:
  "distinct (map fst m) \<Longrightarrow> fst ` set m \<inter> fst ` set acc = {} \<Longrightarrow>
     fold (\<lambda>(k, v). jm_set k (f v)) m acc = acc @ map (\<lambda>(k, v). (k, f v)) m"
proof (induction m arbitrary: acc)
  case (Cons e m)
  obtain k v where e: "e = (k, v)" by (cases e)
  with Cons have "jm_set k (f v) acc = acc @ [(k, f v)]" by (simp add: jm_set_def update_absent)
  with Cons e show ?case by (auto simp: image_iff)
qed simp

lemma snapshot_eq: "jm_ok store \<Longrightarrow> snapshotWatermarks store = map (\<lambda>(k, v). (k, bigint_toString v)) store"
  using fold_set_fresh [of store "[]" bigint_toString] by (simp add: snapshotWatermarks_def jm_ok_def)

definition composite_keys :: "WatermarkStore \<Rightarrow> bool" where
  "composite_keys store \<longleftrightarrow> list_all (\<lambda>(k, _). CHR '':'' \<in> set k) store"

lemma fold_restore:
  "composite_keys m \<Longrightarrow> distinct (map fst m) \<Longrightarrow> fst ` set m \<inter> fst ` set acc = {} \<Longrightarrow>
     fold restoreEntry (map (\<lambda>(k, v). (k, bigint_toString v)) m) acc = acc @ m"
proof (induction m arbitrary: acc)
  case (Cons e m)
  obtain k v where e: "e = (k, v)" by (cases e)
  with Cons have "restoreEntry (k, bigint_toString v) acc = acc @ [(k, v)]"
    by (simp add: restoreEntry_def composite_keys_def jm_set_def update_absent)
  with Cons e show ?case by (auto simp: composite_keys_def image_iff)
qed simp

lemma restore_snapshot:
  "jm_ok store \<Longrightarrow> composite_keys store \<Longrightarrow> restoreWatermarks (snapshotWatermarks store) = store"
  using fold_restore [of store "[]"] by (simp add: snapshot_eq restoreWatermarks_def jm_ok_def)

lemma composite_recordSeen:
  assumes "jm_ok store" "composite_keys store"
  shows "composite_keys (recordSeen store c e s)"
proof -
  have "CHR '':'' \<in> set (fst x)" if "x \<in> set (jm_set (watermarkKey c e) s store)" for x
  proof -
    have "fst x \<in> fst ` set (AList.update (watermarkKey c e) s store)"
      using that by (simp add: jm_set_def)
    then have "fst x \<in> insert (watermarkKey c e) (fst ` set store)"
      by (simp add: dom_update)
    with assms(2) show ?thesis by (auto simp: composite_keys_def list_all_iff watermarkKey_def)
  qed
  with assms show ?thesis by (auto simp: recordSeen_def Let_def composite_keys_def list_all_iff)
qed

lemma recordAll_ok:
  "jm_ok st \<Longrightarrow> composite_keys st \<Longrightarrow> jm_ok (recordAll xs st) \<and> composite_keys (recordAll xs st)"
proof (induction xs arbitrary: st)
  case (Cons x xs)
  obtain c e n where "x = (c, e, n)" by (cases x)
  with Cons show ?case by (simp add: recordAll_def jm_ok_recordSeen composite_recordSeen)
qed (simp add: recordAll_def)

text \<open>Every store the scanners can build survives a restart: snapshotting it and restoring the
  snapshot gives the same map, in the same order.\<close>

theorem snapshot_round_trip:
  "restoreWatermarks (snapshotWatermarks (recordAll xs [])) = recordAll xs []"
  using recordAll_ok [of "[]" xs] by (simp add: composite_keys_def restore_snapshot)

text \<open>The byte stream that is hashed determines the sorted entries, when no key or value holds a NUL.\<close>

definition nul_free :: "string \<Rightarrow> bool" where
  "nul_free s \<longleftrightarrow> CHR 0x00 \<notin> set s"

lemma utf8_char_nul: "(of_nat (of_char c) :: byte) = 0 \<longleftrightarrow> c = CHR 0x00"
proof
  assume z: "(of_nat (of_char c) :: byte) = 0"
  have "c = char_of (unat (of_nat (of_char c) :: byte))" by simp
  also have "\<dots> = CHR 0x00" unfolding z by (simp add: char_of_def)
  finally show "c = CHR 0x00" .
qed simp

lemma utf8_inj: "utf8 s = utf8 t \<longleftrightarrow> s = t"
proof
  assume "utf8 s = utf8 t"
  then have "map (\<lambda>b. char_of (unat b)) (utf8 s) = map (\<lambda>b. char_of (unat b)) (utf8 t)" by simp
  then show "s = t" by (simp add: utf8_def comp_def)
qed simp

lemma takeWhile_utf8:
  "nul_free s \<Longrightarrow> takeWhile (\<lambda>b. b \<noteq> 0) (utf8 s @ 0 # r) = utf8 s"
  by (induction s) (auto simp: nul_free_def utf8_def utf8_char_nul)

lemma utf8_nul_split:
  assumes "nul_free s" "nul_free t" "utf8 s @ 0 # r = utf8 t @ 0 # r'"
  shows "s = t \<and> r = r'"
proof -
  have "utf8 s = utf8 t"
    using takeWhile_utf8 [OF assms(1), of r] takeWhile_utf8 [OF assms(2), of r'] assms(3) by simp
  with assms(3) show ?thesis by (simp add: utf8_inj)
qed

lemma hashPayload_inj:
  "list_all (\<lambda>(k, v). nul_free k \<and> nul_free v) xs \<Longrightarrow> list_all (\<lambda>(k, v). nul_free k \<and> nul_free v) ys \<Longrightarrow>
     hashPayload xs = hashPayload ys \<Longrightarrow> xs = ys"
proof (induction xs arbitrary: ys)
  case Nil
  then show ?case by (cases ys) (auto simp: hashPayload_def)
next
  case (Cons x xs)
  obtain k v where x: "x = (k, v)" by (cases x)
  from Cons.prems(3) x obtain k' v' ys' where y: "ys = (k', v') # ys'"
    by (cases ys) (auto simp: hashPayload_def)
  from Cons.prems(3) have "utf8 k @ 0 # utf8 v @ 0 # hashPayload xs = utf8 k' @ 0 # utf8 v' @ 0 # hashPayload ys'"
    by (simp add: hashPayload_def x y)
  then have k: "k = k'" and "utf8 v @ 0 # hashPayload xs = utf8 v' @ 0 # hashPayload ys'"
    using utf8_nul_split [of k k'] Cons.prems(1,2) x y by auto
  then have "v = v'" "hashPayload xs = hashPayload ys'"
    using utf8_nul_split [of v v'] Cons.prems(1,2) x y by auto
  with Cons.IH [of ys'] Cons.prems(1,2) x y k show ?case by simp
qed

lemma map_of_sortedEntries: "jm_ok m \<Longrightarrow> map_of (sortedEntries m) = map_of m"
  by (intro map_of_inject_set [THEN iffD2])
     (simp_all add: jm_ok_def sortedEntries_def distinct_map inj_on_def)

definition entries_ok :: "(string, string) jsmap \<Rightarrow> bool" where
  "entries_ok ws \<longleftrightarrow> jm_ok ws \<and> list_all (\<lambda>(k, v). nul_free k \<and> nul_free v) ws"

lemma same_hash_same_map:
  assumes "inj sha256" "entries_ok ws" "entries_ok ws'"
    and "hashWatermarks sha256 ws = hashWatermarks sha256 ws'"
  shows "map_of ws = map_of ws'"
proof -
  have "hashPayload (sortedEntries ws) = hashPayload (sortedEntries ws')"
    using assms(1,4) by (simp add: hashWatermarks_def inj_eq)
  then have "sortedEntries ws = sortedEntries ws'"
    using assms(2,3) by (intro hashPayload_inj) (auto simp: entries_ok_def sortedEntries_def list_all_iff)
  then show ?thesis using assms(2,3) map_of_sortedEntries unfolding entries_ok_def by metis
qed

definition restored :: "string \<Rightarrow> string option \<Rightarrow> int option" where
  "restored k v = (if CHR '':'' \<in> set k then Option.bind v BigInt_text else None)"

lemma get_fold_restore:
  "distinct (map fst ws) \<Longrightarrow> jm_ok acc \<Longrightarrow>
     jm_get (fold restoreEntry ws acc) k =
       (case restored k (map_of ws k) of Some n \<Rightarrow> Some n | None \<Rightarrow> jm_get acc k)"
proof (induction ws arbitrary: acc)
  case (Cons e ws)
  obtain k' v where e: "e = (k', v)" by (cases e)
  have ok: "jm_ok (restoreEntry e acc)"
    using Cons.prems(2) by (simp add: e restoreEntry_def jm.inv_put split: sum.split)
  have acc: "jm_get (restoreEntry e acc) k =
    (if k = k' then case restored k (Some v) of Some n \<Rightarrow> Some n | None \<Rightarrow> jm_get acc k else jm_get acc k)"
    using Cons.prems(2)
    by (auto simp: e restoreEntry_def restored_def BigInt_def jm.get_put split: option.splits)
  have none: "map_of ws k' = None" using Cons.prems(1) e by (simp add: map_of_eq_None_iff)
  show ?case
    using Cons.IH [OF _ ok] Cons.prems(1) acc none
    by (auto simp: e restored_def split: option.splits)
qed (simp add: restored_def)

lemma get_restore:
  "jm_ok ws \<Longrightarrow> jm_get (restoreWatermarks ws) k = restored k (map_of ws k)"
  using get_fold_restore [of ws "[]" k] by (simp add: restoreWatermarks_def jm_ok_def split: option.splits)

lemma nul_free_toString: "nul_free (bigint_toString v)"
proof -
  have "\<not> is_digit CHR 0x00" by (simp add: is_digit_def)
  then have "CHR 0x00 \<notin> set (dec_of_nat n)" for n
    using dec_of_nat_digits [of n] by (auto simp: list_all_iff)
  then show ?thesis by (simp add: nul_free_def bigint_toString_def)
qed

definition store_ok :: "WatermarkStore \<Rightarrow> bool" where
  "store_ok store \<longleftrightarrow> jm_ok store \<and> composite_keys store \<and> list_all (\<lambda>(k, _). nul_free k) store"

lemma entries_ok_snapshot: "store_ok store \<Longrightarrow> entries_ok (snapshotWatermarks store)"
  by (auto simp: store_ok_def entries_ok_def snapshot_eq jm_ok_def nul_free_toString list_all_iff
      comp_def split_def)

text \<open>What the skip of an unchanged save relies on: the remembered hash of a path is the hash of the
  document on disk there.\<close>

definition checkpoint_coherent :: "(bytes \<Rightarrow> string) \<Rightarrow> string \<Rightarrow> checkpoint_state \<Rightarrow> bool" where
  "checkpoint_coherent sha256 path st \<longleftrightarrow>
     (\<forall>h. jm_get (csLastWrittenHash st) path = Some h \<longrightarrow>
        (\<exists>f ws. csDisk st path = Some f \<and> cpVersion f = 1 \<and> cpWatermarks f = WmObject ws \<and>
           entries_ok ws \<and> hashWatermarks sha256 ws = h)) \<and> jm_ok (csLastWrittenHash st)"

definition reloaded :: "checkpoint_state \<Rightarrow> string \<Rightarrow> string \<Rightarrow> int option" where
  "reloaded st path k =
     (case watermarksFromCheckpoint (loadCheckpoint (csDisk st) path) of
        Inl _ \<Rightarrow> None | Inr store \<Rightarrow> jm_get store k)"

lemma reloaded_eq:
  assumes "csDisk st path = Some f" "cpVersion f = 1" "cpWatermarks f = WmObject ws" "entries_ok ws"
    and "store_ok store" "map_of ws = map_of (snapshotWatermarks store)"
  shows "reloaded st path k = jm_get store k"
proof -
  have "reloaded st path k = jm_get (restoreWatermarks ws) k"
    using assms(1-3) by (simp add: reloaded_def loadCheckpoint_def watermarksFromCheckpoint_def)
  also have "\<dots> = restored k (map_of (snapshotWatermarks store) k)"
    using assms(4,6) by (simp add: get_restore entries_ok_def)
  also have "\<dots> = jm_get (restoreWatermarks (snapshotWatermarks store)) k"
    using entries_ok_snapshot [OF assms(5)] by (simp add: get_restore entries_ok_def)
  also have "\<dots> = jm_get store k"
    using assms(5) by (simp add: restore_snapshot store_ok_def)
  finally show ?thesis .
qed

text \<open>Whatever a save does, the checkpoint stays usable: after a save that returns, written or
  skipped as unchanged, reloading the path gives back the saved watermarks; after a save that throws,
  the document under the path is the one that was there before. The skip is sound because equal
  hashes mean equal watermarks (SHA-256 taken as injective) and because the remembered hash always
  describes the document on disk.\<close>

theorem checkpoint_save_load:
  assumes "inj sha256" "checkpoint_coherent sha256 path st" "store_ok store"
    and "saveCheckpoint sha256 fault nowIso path store st = (r, st')"
  shows "checkpoint_coherent sha256 path st' \<and>
    (case r of Inl _ \<Rightarrow> csDisk st' path = csDisk st path
     | Inr _ \<Rightarrow> reloaded st' path k = jm_get store k)"
proof (cases "jm_get (csLastWrittenHash st) path = Some (hashWatermarks sha256 (snapshotWatermarks store))")
  case True
  then have same: "r = Inr False" "st' = st" using assms(4) by (simp_all add: saveCheckpoint_def Let_def)
  from True assms(2) obtain f ws where f: "csDisk st path = Some f" "cpVersion f = 1"
    "cpWatermarks f = WmObject ws" "entries_ok ws"
    and "hashWatermarks sha256 ws = hashWatermarks sha256 (snapshotWatermarks store)"
    by (auto simp: checkpoint_coherent_def)
  then have "map_of ws = map_of (snapshotWatermarks store)"
    using same_hash_same_map [OF assms(1)] entries_ok_snapshot [OF assms(3)] by blast
  from reloaded_eq [OF f assms(3) this] same assms(2) show ?thesis by simp
next
  case False
  let ?ws = "snapshotWatermarks store"
  let ?f = "\<lparr>cpVersion = 1, cpWatermarks = WmObject ?ws, cpUpdatedAt = nowIso\<rparr>"
  have ok: "jm_ok (csLastWrittenHash st)" "entries_ok ?ws"
    using assms(2,3) by (simp_all add: checkpoint_coherent_def entries_ok_snapshot)
  show ?thesis
  proof (cases "fault = NoFault")
    case True
    with False assms(4) have st': "r = Inr True" "csDisk st' path = Some ?f"
      "csLastWrittenHash st' = jm_set path (hashWatermarks sha256 ?ws) (csLastWrittenHash st)"
      by (auto simp: saveCheckpoint_def Let_def)
    then have "checkpoint_coherent sha256 path st'"
      using ok by (simp add: checkpoint_coherent_def jm.get_put jm.inv_put)
    moreover have "reloaded st' path k = jm_get store k"
      by (rule reloaded_eq [OF st'(2) _ _ ok(2) assms(3)]) simp_all
    ultimately show ?thesis using st'(1) by simp
  next
    case no: False
    with False assms(4) have "\<exists>e. r = Inl e" "csLastWrittenHash st' = csLastWrittenHash st"
      "csDisk st' path = csDisk st path"
      by (cases fault; auto simp: saveCheckpoint_def Let_def)+
    then show ?thesis using assms(2) by (auto simp: checkpoint_coherent_def)
  qed
qed

lemma inj_byte_text: "inj (map (\<lambda>b :: byte. char_of (unat b)) :: bytes \<Rightarrow> string)"
proof -
  have "inj (\<lambda>b :: byte. char_of (unat b) :: char)"
  proof (rule injI)
    fix a b :: byte
    assume "(char_of (unat a) :: char) = char_of (unat b)"
    then have "(of_char (char_of (unat a) :: char) :: nat) = of_char (char_of (unat b) :: char)" by simp
    then have "unat a mod 256 = unat b mod 256" by simp
    then have "unat a = unat b" using unat_byte_less [of a] unat_byte_less [of b] by simp
    then show "a = b" by (simp add: word_unat_eq_iff)
  qed
  then show ?thesis by (simp add: inj_mapI)
qed

theorem checkpoint_save_load_witness:
  "let sha = map (\<lambda>b. char_of (unat b));
       st = \<lparr>csDisk = \<lambda>_. None, csLastWrittenHash = []\<rparr>;
       (r, st') = saveCheckpoint sha NoFault ''t'' ''cp.json'' [(''51:ab'', 8)] st
   in r = Inr True \<and> reloaded st' ''cp.json'' ''51:ab'' = Some 8"
proof -
  let ?sha = "map (\<lambda>b :: byte. char_of (unat b)) :: bytes \<Rightarrow> string"
  let ?st = "\<lparr>csDisk = \<lambda>_ :: string. None :: CheckpointFile option, csLastWrittenHash = []\<rparr>"
  obtain r st' where s: "saveCheckpoint ?sha NoFault ''t'' ''cp.json'' [(''51:ab'', 8)] ?st = (r, st')"
    by (metis prod.collapse)
  have "inj ?sha" by (rule inj_byte_text)
  moreover have "checkpoint_coherent ?sha ''cp.json'' ?st" by (simp add: checkpoint_coherent_def)
  moreover have "store_ok [(''51:ab'', 8)]"
    by (simp add: store_ok_def jm_ok_def composite_keys_def nul_free_def)
  ultimately have c: "case r of Inl _ \<Rightarrow> csDisk st' ''cp.json'' = csDisk ?st ''cp.json''
      | Inr _ \<Rightarrow> reloaded st' ''cp.json'' ''51:ab'' = jm_get [(''51:ab'', 8)] ''51:ab''"
    using checkpoint_save_load [OF _ _ _ s, of "''51:ab''"] by blast
  have "r = Inr True" using s by (auto simp: saveCheckpoint_def Let_def)
  with c s show ?thesis by (simp add: jm_get_def)
qed

section \<open>A divergence from the documentation\<close>

text \<open>
  \<open>loadCheckpoint\<close> promises that a corrupt file is not fatal. A document whose \<open>watermarks\<close> is \<open>null\<close>
  passes its test, since \<open>typeof null\<close> is \<open>'object'\<close>, and then \<open>Object.entries(null)\<close> throws.
\<close>

theorem null_watermarks_throw:
  "watermarksFromCheckpoint (loadCheckpoint
     (\<lambda>_. Some \<lparr>cpVersion = 1, cpWatermarks = WmNull, cpUpdatedAt = ''t''\<rparr>) path) =
   Inl (TypeError ''Cannot convert undefined or null to object'')"
  by (simp add: loadCheckpoint_def watermarksFromCheckpoint_def)

end
