(* ===== verification/Enumerate.thy ===== *)
theory Enumerate
  imports Scan Watermarks
begin

text \<open>
  The enumeration of flows (\<open>packages/cranker/src/relayer/enumerate.ts\<close>): Wormholescan's VAAs of the two FOGO
  emitters, page by page, each resolved to its inbox item and classified by the state of its flow account.

  The items of a page are scanned in parallel, so each of them sees the memo of closed items as it was when the
  page started; the new entries are made afterwards, in the order of the page. The two emitters are harvested in
  parallel as well: the pages of the two legs are woven in an arbitrary order, which is a parameter. A VAA outcome is
  \<open>recordable\<close> when the watermark may move past it.
\<close>

section \<open>Classification of errors\<close>

definition errorText :: "thrown \<Rightarrow> string" where
  "errorText err =
     (case err of Primitive s \<Rightarrow> s | Object e \<Rightarrow> if eoIsError e then eoMessage e else eoText e)"

definition isAccountMissingError :: "thrown \<Rightarrow> bool" where
  "isAccountMissingError err \<longleftrightarrow> text_includes (errorText err) ''Account does not exist or has no data''"

definition isUndecodableAccountError :: "thrown \<Rightarrow> bool" where
  "isUndecodableAccountError err \<longleftrightarrow>
     (case err of
        Primitive _ \<Rightarrow> False
      | Object e \<Rightarrow> eoIsTypeError e \<and>
          (text_includes (eoStack e) ''BorshAccountsCoder'' \<or> text_includes (eoStack e) ''Union.decode'' \<or>
           text_includes (eoStack e) ''Structure.decode''))"

section \<open>A missing flow account\<close>

definition classifyMissingFlow ::
  "AdvanceContext \<Rightarrow> direction \<Rightarrow> pubkey \<Rightarrow> pubkey \<Rightarrow> thrown + string option \<times> metric list" where
  "classifyMissingFlow ctx leg recvMint nttInboxItem =
     (case acGetAccountInfo ctx nttInboxItem of
        Inl _ \<Rightarrow> Inr (None, [])
      | Inr None \<Rightarrow> Inr (None, [])
      | Inr (Some info) \<Rightarrow>
          (case decodeNttInboxItem (acEnv ctx) (aiData info) of
             Inl _ \<Rightarrow> Inr (None, [])
           | Inr inbox \<Rightarrow>
               if iiReleaseStatus inbox \<noteq> Released then Inr (None, [])
               else
                 (case ata (acEnv ctx) recvMint (iiRecipientAddress inbox) True (TOKEN_PROGRAM_ID (acEnv ctx)) of
                    Inl e \<Rightarrow> Inl (of_js_error e)
                  | Inr recipientAta \<Rightarrow>
                      (case acGetAccountInfo ctx recipientAta of
                         Inl _ \<Rightarrow> Inr (None, [])
                       | Inr ataInfo \<Rightarrow>
                           let parked = ifNone (readSplTokenAmount (map_option aiData ataInfo)) 0
                           in if parked \<ge> int (iiAmount inbox) then Inr (None, [FlowUnsweptObserved leg])
                              else Inr (Some ''Closed'', [])))))"

section \<open>One VAA\<close>

type_synonym terminal_cache = "(string, unit) BoundedMap"

definition TERMINAL_CACHE_MAX :: int where
  "TERMINAL_CACHE_MAX = 50000"

record VaaResolution =
  vrSequence :: int
  vrFlow :: "ScannedFlow option"
  vrRecordable :: bool

definition hex_digit :: "nat \<Rightarrow> char" where
  "hex_digit n = (if n < 10 then char_of (48 + n) else char_of (87 + n))"

text \<open>\<open>Buffer.toString('hex')\<close>\<close>

definition hex_of :: "bytes \<Rightarrow> string" where
  "hex_of bs = concat (map (\<lambda>b. [hex_digit (unat b div 16), hex_digit (unat b mod 16)]) bs)"

definition statusText :: "FlowStatusName \<Rightarrow> string" where
  "statusText s = (case s of StReceived \<Rightarrow> ''Received'' | StSwapped \<Rightarrow> ''Swapped'' | StUnknown \<Rightarrow> ''Unknown'')"

definition scannedFlow :: "WormholescanVaa \<Rightarrow> direction \<Rightarrow> pubkey \<Rightarrow> string \<Rightarrow> ScannedFlow" where
  "scannedFlow item leg nttInboxItem status =
     \<lparr>sfPubkey = nttInboxItem, sfStatus = status, sfDirection = leg,
      sfFogoTx = ifNone (wvTxHash item) [], sfVaaHex = Some (hex_of (wvVaa item))\<rparr>"

datatype fetch_outcome = Resolved FlowAccount | Missing | Undecodable | RpcError

text \<open>\<open>fetchInflightFlow\<close> and \<open>fetchOutflightFlow\<close> of the client; unlike \<open>fetchFlowFor\<close> the error is inspected.\<close>

definition fetchOutcome :: "AdvanceContext \<Rightarrow> direction \<Rightarrow> pubkey \<Rightarrow> fetch_outcome" where
  "fetchOutcome ctx leg nttInboxItem =
     (case rbind (lift (flowAddress (acEnv ctx) (acClient ctx) leg nttInboxItem)) (acFetchFlow ctx) of
        Inr flow \<Rightarrow> Resolved flow
      | Inl err \<Rightarrow>
          if isAccountMissingError err then Missing
          else if isUndecodableAccountError err then Undecodable
          else RpcError)"

definition scanWormholescanVaa ::
  "AdvanceContext \<Rightarrow> WormholescanVaa \<Rightarrow> direction \<Rightarrow> pubkey \<Rightarrow> pubkey \<Rightarrow> terminal_cache \<Rightarrow>
   thrown + VaaResolution \<times> string option \<times> metric list" where
  "scanWormholescanVaa ctx item leg nttProgramId recvMint terminalCache =
     (let outcome = (\<lambda>flow recordable. \<lparr>vrSequence = wvSequence item, vrFlow = flow, vrRecordable = recordable\<rparr>)
      in case resolveNttVaa (acEnv ctx) (wvVaa item) nttProgramId None of
           Inl _ \<Rightarrow> Inr (outcome None True, None, [])
         | Inr resolved \<Rightarrow>
             (let inbox = rvNttInboxItem resolved; inboxKey = toBase58 (acEnv ctx) inbox
              in if bm_get terminalCache inboxKey \<noteq> None
                 then Inr (outcome (Some (scannedFlow item leg inbox ''Closed'')) True, None, [])
                 else
                   (case fetchOutcome ctx leg inbox of
                      RpcError \<Rightarrow> Inr (outcome None False, None, [])
                    | Undecodable \<Rightarrow> Inr (outcome (Some (scannedFlow item leg inbox ''Undecodable'')) True, None, [FlowSkipped ''undecodable''])
                    | Resolved flow \<Rightarrow> Inr (outcome (Some (scannedFlow item leg inbox (statusText (describeStatus flow)))) True, None, [])
                    | Missing \<Rightarrow>
                        rbind (classifyMissingFlow ctx leg recvMint inbox) (\<lambda>(terminal, ms).
                          let status = ifNone terminal ''Pending''
                          in Inr (outcome (Some (scannedFlow item leg inbox status)) True,
                                  if status = ''Closed'' then Some inboxKey else None, ms)))))"

section \<open>Pages and legs\<close>

record EnumerateOptions =
  enFogoWormholeChainId :: nat
  enFogoUsdcEmitterHex :: string
  enFogoOnycEmitterHex :: string
  enMaxPages :: nat
  enBypassWatermark :: bool

record enum_state =
  esOut :: "ScannedFlow list"
  esCache :: terminal_cache
  esWatermarks :: "WatermarkStore option"
  esMetrics :: "metric list"

definition memoize :: "thrown + VaaResolution \<times> string option \<times> metric list \<Rightarrow> enum_state \<Rightarrow> enum_state" where
  "memoize r es =
     (case r of
        Inl _ \<Rightarrow> es
      | Inr (_, key, ms) \<Rightarrow>
          es\<lparr>esCache := (case key of None \<Rightarrow> esCache es | Some k \<Rightarrow> bm_set k () (esCache es)),
             esMetrics := esMetrics es @ ms\<rparr>)"

text \<open>The loop over the resolutions of a page: collect the flow, advance the watermark when the VAA was observed cleanly.\<close>

definition applyResolution :: "EnumerateOptions \<Rightarrow> string \<Rightarrow> VaaResolution \<Rightarrow> enum_state \<Rightarrow> enum_state" where
  "applyResolution opts emitterHex r es =
     es\<lparr>esOut := esOut es @ (case vrFlow r of None \<Rightarrow> [] | Some f \<Rightarrow> [f]),
        esWatermarks :=
          (if vrRecordable r \<and> \<not> enBypassWatermark opts
           then map_option (\<lambda>store. recordSeen store (enFogoWormholeChainId opts) emitterHex (vrSequence r)) (esWatermarks es)
           else esWatermarks es)\<rparr>"

text \<open>\<open>Promise.all\<close>: the first failure, or all values.\<close>

fun promise_all :: "('e + 'a) list \<Rightarrow> 'e + 'a list" where
  "promise_all [] = Inr []"
| "promise_all (r # rs) = rbind r (\<lambda>x. rbind (promise_all rs) (\<lambda>xs. Inr (x # xs)))"

definition harvestPage ::
  "AdvanceContext \<Rightarrow> EnumerateOptions \<Rightarrow> PairConfig \<Rightarrow> bool \<Rightarrow> direction \<Rightarrow> WormholescanVaa list \<Rightarrow> enum_state \<Rightarrow>
   (thrown + unit) \<times> enum_state" where
  "harvestPage ctx opts cfg abortedAfter leg items es =
     (let manager = (if leg = Deposit then pcNttBaseProgram cfg else pcNttAssetProgram cfg);
          mint = (if leg = Deposit then pcBaseMint cfg else pcAssetMint cfg);
          emitterHex = (if leg = Deposit then enFogoUsdcEmitterHex opts else enFogoOnycEmitterHex opts);
          rs = map (\<lambda>item. scanWormholescanVaa ctx item leg manager mint (esCache es)) items;
          es1 = fold memoize rs es
      in case promise_all rs of
           Inl e \<Rightarrow> (Inl e, es1)
         | Inr resolutions \<Rightarrow>
             if abortedAfter then (Inr (), es1)
             else (Inr (), fold (\<lambda>(r, _, _). applyResolution opts emitterHex r) resolutions es1))"

text \<open>Two sequences of pages, woven as the schedule says (\<open>True\<close> takes from the first).\<close>

fun weave :: "bool list \<Rightarrow> 'a list \<Rightarrow> 'a list \<Rightarrow> 'a list" where
  "weave sched [] ys = ys"
| "weave sched xs [] = xs"
| "weave [] (x # xs) (y # ys) = (x # xs) @ (y # ys)"
| "weave (b # sched) (x # xs) (y # ys) = (if b then x # weave sched xs (y # ys) else y # weave sched (x # xs) ys)"

text \<open>The pages in their order. The abort signal, once seen after a page, ends both harvests. So does a throw here: \<open>Promise.all\<close>
  rejects at once and \<open>enumerateFlows\<close> throws. In the program the harvest of the other leg is not cancelled by that; the pages it still works off
  in the background, memoizing keys and advancing the watermark of its own emitter as \<open>harvestPage\<close> does while the caller goes
  on, are not part of the model. Its flows are lost in either case, since the caller got the exception.\<close>

fun runPages ::
  "AdvanceContext \<Rightarrow> EnumerateOptions \<Rightarrow> PairConfig \<Rightarrow> (nat \<Rightarrow> bool) \<Rightarrow> nat \<Rightarrow> (direction \<times> WormholescanVaa list) list \<Rightarrow> enum_state \<Rightarrow>
   (thrown + unit) \<times> enum_state" where
  "runPages ctx opts cfg aborted n [] es = (Inr (), es)"
| "runPages ctx opts cfg aborted n ((leg, items) # rest) es =
     (case harvestPage ctx opts cfg (aborted n) leg items es of
        (Inl e, es') \<Rightarrow> (Inl e, es')
      | (Inr _, es') \<Rightarrow> if aborted n then (Inr (), es') else runPages ctx opts cfg aborted (n + 1) rest es')"

text \<open>\<open>pages leg p\<close> is Wormholescan's answer for page \<open>p\<close> of a leg's emitter. An empty emitter disables its leg.\<close>

definition enumerateFlows ::
  "AdvanceContext \<Rightarrow> EnumerateOptions \<Rightarrow> (direction \<Rightarrow> nat \<Rightarrow> WormholescanVaa list result) \<Rightarrow> (direction \<Rightarrow> nat \<Rightarrow> bool) \<Rightarrow>
   bool list \<Rightarrow> (nat \<Rightarrow> bool) \<Rightarrow> terminal_cache \<Rightarrow> WatermarkStore option \<Rightarrow> (thrown + ScannedFlow list) \<times> enum_state" where
  "enumerateFlows ctx opts pages abortedAt sched aborted cache watermarks =
     (let es0 = \<lparr>esOut = [], esCache = cache, esWatermarks = watermarks, esMetrics = []\<rparr>;
          harvest = (\<lambda>leg emitterHex.
            if emitterHex = [] then []
            else map (Pair leg) (harvestVaaPages (pages leg) (abortedAt leg) (enFogoWormholeChainId opts) emitterHex
                   (enMaxPages opts) watermarks (enBypassWatermark opts)))
      in case acFetchConfig ctx of
           Inl e \<Rightarrow> (Inl e, es0)
         | Inr cfg \<Rightarrow>
             (case runPages ctx opts cfg aborted 0
                     (weave sched (harvest Deposit (enFogoUsdcEmitterHex opts)) (harvest Withdraw (enFogoOnycEmitterHex opts))) es0 of
                (Inl e, es) \<Rightarrow> (Inl e, es)
              | (Inr _, es) \<Rightarrow> (Inr (esOut es), es)))"

section \<open>The VAA travels with the flow\<close>

lemma hex_digit_facts:
  assumes "n < 16"
  shows "hex_value (hex_digit n) = n \<and> hex_char (hex_digit n) \<and> hex_digit n \<noteq> CHR ''x''"
proof -
  have code: "of_char (hex_digit n) = (if n < 10 then 48 + n else 87 + n)" using assms by (simp add: hex_digit_def)
  have "(of_char (hex_digit n) :: nat) \<noteq> of_char (CHR ''x'')" unfolding code using assms by simp
  then have "hex_digit n \<noteq> CHR ''x''" by metis
  with code assms show ?thesis by (simp add: hex_value_def radix_digit_def hex_char_def Let_def)
qed

lemma hex_of_Cons: "hex_of (b # bs) = hex_digit (unat b div 16) # hex_digit (unat b mod 16) # hex_of bs"
  by (simp add: hex_of_def)

lemma unat_byte_div: "unat (b :: byte) div 16 < 16"
  using unat_byte_less [of b] by simp

lemma hex_bytes_hex_of: "hex_bytes (hex_of bs) = bs"
proof (induction bs)
  case (Cons b bs)
  have "16 * (unat b div 16) + unat b mod 16 = unat b" by simp
  then show ?case using Cons hex_digit_facts [OF unat_byte_div, of b] hex_digit_facts [of "unat b mod 16"]
    by (simp add: hex_of_Cons)
qed (simp add: hex_of_def)

lemma hex_of_chars: "list_all hex_char (hex_of bs)" "length (hex_of bs) = 2 * length bs"
  using hex_digit_facts [OF unat_byte_div] hex_digit_facts
  by (induction bs) (simp_all add: hex_of_Cons, simp_all add: hex_of_def)

lemma strip0x_hex_of: "strip0x (hex_of bs) = hex_of bs"
  using hex_digit_facts [of "unat (hd bs) mod 16"]
  by (cases bs) (auto simp: strip0x_def hex_of_Cons, simp add: hex_of_def)

lemma fetchVaaBytes_hex_of:
  assumes "bs \<noteq> []"
  shows "fetchVaaBytes ctx tx (Some (hex_of bs)) = Inr bs"
proof -
  have "hex_of bs \<noteq> []" using assms hex_of_chars(2) [of bs] by auto
  then show ?thesis using hex_of_chars [of bs]
    by (simp add: fetchVaaBytes_def truthy_def strip0x_hex_of hex_bytes_hex_of)
qed

section \<open>What the statuses of enumerated flows mean\<close>

text \<open>The funds of an inbox item have left the recipient's account: the item is released and less than its amount is
  parked there.\<close>

definition swept :: "AdvanceContext \<Rightarrow> pubkey \<Rightarrow> pubkey \<Rightarrow> bool" where
  "swept ctx mint inbox \<longleftrightarrow>
     (\<exists>info item k ataInfo. acGetAccountInfo ctx inbox = Inr (Some info) \<and>
        decodeNttInboxItem (acEnv ctx) (aiData info) = Inr item \<and> iiReleaseStatus item = Released \<and>
        ata (acEnv ctx) mint (iiRecipientAddress item) True (TOKEN_PROGRAM_ID (acEnv ctx)) = Inr k \<and>
        acGetAccountInfo ctx k = Inr ataInfo \<and>
        ifNone (readSplTokenAmount (map_option aiData ataInfo)) 0 < int (iiAmount item))"

lemma classify_iff:
  assumes "classifyMissingFlow ctx leg mint inbox = Inr (t, ms)"
  shows "t = (if swept ctx mint inbox then Some ''Closed'' else None)"
  using assms
  by (auto simp: classifyMissingFlow_def swept_def Let_def split: sum.splits option.splits if_splits)

definition closed_key :: "AdvanceContext \<Rightarrow> PairConfig \<Rightarrow> terminal_cache \<Rightarrow> string \<Rightarrow> bool" where
  "closed_key ctx cfg cache k \<longleftrightarrow> bm_get cache k \<noteq> None \<or>
     (\<exists>leg inbox. k = toBase58 (acEnv ctx) inbox \<and> fetchOutcome ctx leg inbox = Missing \<and> swept ctx (mint_of cfg leg) inbox)"

definition flow_sound :: "AdvanceContext \<Rightarrow> PairConfig \<Rightarrow> terminal_cache \<Rightarrow> ScannedFlow \<Rightarrow> bool" where
  "flow_sound ctx cfg cache f \<longleftrightarrow>
     (\<exists>vaa r. sfVaaHex f = Some (hex_of vaa) \<and> resolveNttVaa (acEnv ctx) vaa (manager_of cfg (sfDirection f)) None = Inr r \<and>
        rvNttInboxItem r = sfPubkey f \<and>
        (sfStatus f = ''Closed'' \<longrightarrow> closed_key ctx cfg cache (toBase58 (acEnv ctx) (sfPubkey f))))"

definition enum_inv :: "AdvanceContext \<Rightarrow> PairConfig \<Rightarrow> terminal_cache \<Rightarrow> enum_state \<Rightarrow> bool" where
  "enum_inv ctx cfg cache es \<longleftrightarrow> bm_ok (esCache es) \<and> list_all (flow_sound ctx cfg cache) (esOut es) \<and>
     (\<forall>k. bm_get (esCache es) k \<noteq> None \<longrightarrow> closed_key ctx cfg cache k)"

lemma statusText_not_Closed: "statusText s \<noteq> ''Closed''"
  by (cases s) (simp_all add: statusText_def)

lemma scan_sound:
  assumes "scanWormholescanVaa ctx item leg (manager_of cfg leg) (mint_of cfg leg) now = Inr (r, key, ms)"
    and "\<And>k. bm_get now k \<noteq> None \<Longrightarrow> closed_key ctx cfg cache k"
  shows "vrFlow r = Some f \<Longrightarrow> flow_sound ctx cfg cache f" "key = Some k \<Longrightarrow> closed_key ctx cfg cache k"
proof -
  show "key = Some k \<Longrightarrow> closed_key ctx cfg cache k"
    using assms(1)
    by (auto simp: scanWormholescanVaa_def Let_def closed_key_def result_simps dest!: classify_iff
        split: sum.splits if_splits fetch_outcome.splits)
  show "flow_sound ctx cfg cache f" if f: "vrFlow r = Some f"
  proof -
    from assms(1) f obtain rs where rs: "resolveNttVaa (acEnv ctx) (wvVaa item) (manager_of cfg leg) None = Inr rs"
      by (auto simp: scanWormholescanVaa_def Let_def split: sum.splits)
    let ?inbox = "rvNttInboxItem rs"
    have "\<exists>st. f = scannedFlow item leg ?inbox st \<and> (st = ''Closed'' \<longrightarrow> closed_key ctx cfg cache (toBase58 (acEnv ctx) ?inbox))"
    proof (cases "bm_get now (toBase58 (acEnv ctx) ?inbox) = None")
      case False
      then show ?thesis using assms f rs by (auto simp: scanWormholescanVaa_def Let_def)
    next
      case True
      then show ?thesis using assms(1) f rs statusText_not_Closed
        by (cases "fetchOutcome ctx leg ?inbox")
           (auto simp: scanWormholescanVaa_def Let_def result_simps closed_key_def dest!: classify_iff split: if_splits)
    qed
    then show ?thesis using rs by (auto simp: flow_sound_def scannedFlow_def)
  qed
qed

lemma promise_all_mem: "promise_all rs = Inr xs \<Longrightarrow> set rs = Inr ` set xs"
  by (induction rs arbitrary: xs) (auto simp: result_simps)

lemma enum_inv_memoize:
  assumes "enum_inv ctx cfg cache es" "\<forall>x k ms. r = Inr (x, Some k, ms) \<longrightarrow> closed_key ctx cfg cache k"
  shows "enum_inv ctx cfg cache (memoize r es)"
  using assms
  by (auto simp: enum_inv_def memoize_def bm_ok_set bm_get_set split: sum.splits option.splits if_splits)

lemma enum_inv_memoize_all:
  "enum_inv ctx cfg cache es \<Longrightarrow> \<forall>x k ms. Inr (x, Some k, ms) \<in> set rs \<longrightarrow> closed_key ctx cfg cache k \<Longrightarrow>
     enum_inv ctx cfg cache (fold memoize rs es)"
proof (induction rs arbitrary: es)
  case (Cons r rs)
  have "enum_inv ctx cfg cache (memoize r es)" by (rule enum_inv_memoize) (use Cons.prems in auto)
  with Cons show ?case by auto
qed simp

lemma enum_inv_apply:
  "enum_inv ctx cfg cache es \<Longrightarrow> \<forall>(r, key, ms) \<in> set xs. \<forall>f. vrFlow r = Some f \<longrightarrow> flow_sound ctx cfg cache f \<Longrightarrow>
     enum_inv ctx cfg cache (fold (\<lambda>(r, _, _). applyResolution opts e r) xs es)"
proof (induction xs arbitrary: es)
  case (Cons x xs)
  obtain r key ms where x: "x = (r, key, ms)" by (cases x)
  with Cons.prems have "enum_inv ctx cfg cache (applyResolution opts e r es)"
    by (auto simp: enum_inv_def applyResolution_def split: option.splits)
  with Cons x show ?case by simp
qed simp

lemma enum_inv_page:
  assumes "enum_inv ctx cfg cache es" "harvestPage ctx opts cfg ab leg items es = (res, es')"
  shows "enum_inv ctx cfg cache es'"
proof -
  let ?rs = "map (\<lambda>item. scanWormholescanVaa ctx item leg (manager_of cfg leg) (mint_of cfg leg) (esCache es)) items"
  have c: "closed_key ctx cfg cache k" if "bm_get (esCache es) k \<noteq> None" for k
    using assms(1) that by (simp add: enum_inv_def)
  have s: "\<forall>x k ms. Inr (x, Some k, ms) \<in> set ?rs \<longrightarrow> closed_key ctx cfg cache k"
  proof clarify
    fix x k ms
    assume "Inr (x, Some k, ms) \<in> set ?rs"
    then obtain item where "scanWormholescanVaa ctx item leg (manager_of cfg leg) (mint_of cfg leg) (esCache es) = Inr (x, Some k, ms)"
      by auto
    from scan_sound(2) [OF this c refl] show "closed_key ctx cfg cache k" .
  qed
  note memo = enum_inv_memoize_all [OF assms(1) s]
  have f: "\<forall>(r, key, ms) \<in> set xs. \<forall>f. vrFlow r = Some f \<longrightarrow> flow_sound ctx cfg cache f" if "promise_all ?rs = Inr xs" for xs
  proof clarify
    fix r key ms f
    assume "(r, key, ms) \<in> set xs" "vrFlow r = Some f"
    moreover from this promise_all_mem [OF that] obtain item where
      "scanWormholescanVaa ctx item leg (manager_of cfg leg) (mint_of cfg leg) (esCache es) = Inr (r, key, ms)"
      by (metis (no_types, lifting) image_eqI image_iff list.set_map)
    ultimately show "flow_sound ctx cfg cache f" using scan_sound(1) [OF _ c] by blast
  qed
  show ?thesis using assms(2) memo enum_inv_apply [OF memo f]
    by (auto simp: harvestPage_def Let_def manager_of_def [symmetric] mint_of_def [symmetric] split: sum.splits if_splits)
qed

lemma enum_inv_run:
  "enum_inv ctx cfg cache es \<Longrightarrow> runPages ctx opts cfg ab n pgs es = (res, es') \<Longrightarrow> enum_inv ctx cfg cache es'"
proof (induction pgs arbitrary: n es)
  case (Cons p pgs)
  obtain leg items where p: "p = (leg, items)" by (cases p)
  obtain r es1 where h: "harvestPage ctx opts cfg (ab n) leg items es = (r, es1)" by fastforce
  from enum_inv_page [OF Cons.prems(1) h] Cons p h show ?case by (auto split: sum.splits if_splits)
qed simp

text \<open>C20. Every enumerated flow carries the VAA it came from: any leg that is handed the flow reads back the very bytes from
  the flow, without asking Wormholescan again, and resolves them, under the manager of the flow's direction, to the
  inbox item the flow is named after. And \<open>Closed\<close> is only ever reported of an item whose key was memoized before,
  or that was seen to have no flow account and no funds left to sweep.\<close>

theorem enumerated_flow_is_sound:
  assumes "enumerateFlows ctx opts pages abortedAt sched aborted cache wm = (Inr flows, es)"
    and "acFetchConfig ctx = Inr cfg" "bm_ok cache" "f \<in> set flows"
  shows "(\<exists>vaa r. (\<forall>ctx'. fetchVaaBytes ctx' (sfFogoTx f) (sfVaaHex f) = Inr vaa) \<and>
      resolveNttVaa (acEnv ctx) vaa (manager_of cfg (sfDirection f)) None = Inr r \<and> rvNttInboxItem r = sfPubkey f) \<and>
    (sfStatus f = ''Closed'' \<longrightarrow> closed_key ctx cfg cache (toBase58 (acEnv ctx) (sfPubkey f)))"
proof -
  have "enum_inv ctx cfg cache \<lparr>esOut = [], esCache = cache, esWatermarks = wm, esMetrics = []\<rparr>"
    using assms(3) by (simp add: enum_inv_def closed_key_def)
  from enum_inv_run [OF this] assms(1,2) have "enum_inv ctx cfg cache es" "flows = esOut es"
    by (auto simp: enumerateFlows_def Let_def split: prod.splits sum.splits)
  with assms(4) have "flow_sound ctx cfg cache f" by (simp add: enum_inv_def list_all_iff)
  then obtain vaa r where v: "sfVaaHex f = Some (hex_of vaa)" "rvNttInboxItem r = sfPubkey f"
    "resolveNttVaa (acEnv ctx) vaa (manager_of cfg (sfDirection f)) None = Inr r"
    and c: "sfStatus f = ''Closed'' \<longrightarrow> closed_key ctx cfg cache (toBase58 (acEnv ctx) (sfPubkey f))"
    by (auto simp: flow_sound_def)
  from v(3) have "vaa \<noteq> []" by (auto simp: resolveNttVaa_def parseVaa_def result_simps)
  with v c show ?thesis using fetchVaaBytes_hex_of by auto
qed

section \<open>No pending flow is passed over\<close>

lemma set_weave: "set (weave sched xs ys) = set xs \<union> set ys"
  by (induction sched xs ys rule: weave.induct) auto

lemma out_memoize: "esOut (memoize r es) = esOut es" "esWatermarks (memoize r es) = esWatermarks es"
  by (simp_all add: memoize_def split: sum.split prod.split)

lemma out_memoize_all: "esOut (fold memoize rs es) = esOut es" "esWatermarks (fold memoize rs es) = esWatermarks es"
  by (induction rs arbitrary: es) (simp_all add: out_memoize)

lemma out_apply_all:
  "esOut (fold (\<lambda>(r, _, _). applyResolution opts e r) xs es) =
     esOut es @ concat (map (\<lambda>(r, _, _). case vrFlow r of None \<Rightarrow> [] | Some f \<Rightarrow> [f]) xs)"
  by (induction xs arbitrary: es) (auto simp: applyResolution_def)

lemma page_out:
  assumes "harvestPage ctx opts cfg False leg items es = (Inr u, es')"
  obtains xs where "promise_all (map (\<lambda>i. scanWormholescanVaa ctx i leg (manager_of cfg leg) (mint_of cfg leg) (esCache es)) items) = Inr xs"
    and "esOut es' = esOut es @ concat (map (\<lambda>(r, _, _). case vrFlow r of None \<Rightarrow> [] | Some f \<Rightarrow> [f]) xs)"
  using assms
  by (auto simp: harvestPage_def Let_def manager_of_def [symmetric] mint_of_def [symmetric] out_apply_all out_memoize_all
      split: sum.splits)

lemma run_out_grows:
  "runPages ctx opts cfg (\<lambda>_. False) n pgs es = (Inr u, es') \<Longrightarrow> set (esOut es) \<subseteq> set (esOut es')"
proof (induction pgs arbitrary: n es)
  case (Cons p pgs)
  obtain leg items where p: "p = (leg, items)" by (cases p)
  obtain r es1 where h: "harvestPage ctx opts cfg False leg items es = (r, es1)" by fastforce
  with Cons.prems p obtain v where r: "r = Inr v" by (auto split: sum.splits)
  from page_out [OF h [unfolded r]] have "set (esOut es) \<subseteq> set (esOut es1)" by (metis Un_upper1 set_append)
  with Cons p h r show ?case by fastforce
qed simp

text \<open>The scan of an item that resolves, does not hit a memoized key and is not stopped by an RPC failure gives a flow.\<close>

lemma scan_emits:
  assumes "scanWormholescanVaa ctx item leg prog mint now = Inr (r, key, ms)"
    and "resolveNttVaa (acEnv ctx) (wvVaa item) prog None = Inr rs"
    and "fetchOutcome ctx leg (rvNttInboxItem rs) = Missing" "\<not> swept ctx mint (rvNttInboxItem rs)"
    and "bm_get now (toBase58 (acEnv ctx) (rvNttInboxItem rs)) = None"
  shows "vrFlow r = Some (scannedFlow item leg (rvNttInboxItem rs) ''Pending'')"
  using assms by (auto simp: scanWormholescanVaa_def Let_def result_simps ifNone_def dest!: classify_iff)

definition emitterOf :: "EnumerateOptions \<Rightarrow> direction \<Rightarrow> string" where
  "emitterOf opts leg = (if leg = Deposit then enFogoUsdcEmitterHex opts else enFogoOnycEmitterHex opts)"

definition harvested ::
  "EnumerateOptions \<Rightarrow> (direction \<Rightarrow> nat \<Rightarrow> WormholescanVaa list result) \<Rightarrow> (direction \<Rightarrow> nat \<Rightarrow> bool) \<Rightarrow> WatermarkStore option \<Rightarrow>
   direction \<Rightarrow> WormholescanVaa list list" where
  "harvested opts pages abortedAt wm leg =
     (if emitterOf opts leg = [] then []
      else harvestVaaPages (pages leg) (abortedAt leg) (enFogoWormholeChainId opts) (emitterOf opts leg)
             (enMaxPages opts) wm (enBypassWatermark opts))"

lemma enumerateFlows_run:
  assumes "enumerateFlows ctx opts pages abortedAt sched aborted cache wm = (res, es)" "acFetchConfig ctx = Inr cfg"
  obtains pgs u where "runPages ctx opts cfg aborted 0 pgs \<lparr>esOut = [], esCache = cache, esWatermarks = wm, esMetrics = []\<rparr> = (u, es)"
    and "res = rbind u (\<lambda>_. Inr (esOut es))"
    and "\<And>leg items. (leg, items) \<in> set pgs \<longleftrightarrow> items \<in> set (harvested opts pages abortedAt wm leg)"
proof -
  let ?pgs = "weave sched (map (Pair Deposit) (harvested opts pages abortedAt wm Deposit))
    (map (Pair Withdraw) (harvested opts pages abortedAt wm Withdraw))"
  have m: "(leg, items) \<in> set ?pgs \<longleftrightarrow> items \<in> set (harvested opts pages abortedAt wm leg)" for leg items
    by (cases leg) (auto simp: set_weave)
  have h: "map (Pair Deposit) (harvested opts pages abortedAt wm Deposit) =
      (if enFogoUsdcEmitterHex opts = [] then [] else map (Pair Deposit) (harvestVaaPages (pages Deposit) (abortedAt Deposit)
         (enFogoWormholeChainId opts) (enFogoUsdcEmitterHex opts) (enMaxPages opts) wm (enBypassWatermark opts)))"
    "map (Pair Withdraw) (harvested opts pages abortedAt wm Withdraw) =
      (if enFogoOnycEmitterHex opts = [] then [] else map (Pair Withdraw) (harvestVaaPages (pages Withdraw) (abortedAt Withdraw)
         (enFogoWormholeChainId opts) (enFogoOnycEmitterHex opts) (enMaxPages opts) wm (enBypassWatermark opts)))"
    by (simp_all add: harvested_def emitterOf_def)
  obtain u es' where r: "runPages ctx opts cfg aborted 0 ?pgs \<lparr>esOut = [], esCache = cache, esWatermarks = wm, esMetrics = []\<rparr> = (u, es')"
    by fastforce
  have "enumerateFlows ctx opts pages abortedAt sched aborted cache wm = (rbind u (\<lambda>_. Inr (esOut es')), es')"
    unfolding enumerateFlows_def Let_def assms(2) sum.case h [symmetric] r by (cases u) simp_all
  with assms(1) r m show thesis by (intro that) auto
qed

lemma run_emits_pending:
  assumes "resolveNttVaa (acEnv ctx) (wvVaa item) (manager_of cfg leg) None = Inr rs"
    and "fetchOutcome ctx leg (rvNttInboxItem rs) = Missing" "\<forall>mint. \<not> swept ctx mint (rvNttInboxItem rs)"
    and "inj (toBase58 (acEnv ctx))" "bm_get cache (toBase58 (acEnv ctx) (rvNttInboxItem rs)) = None" "item \<in> set items"
  shows "enum_inv ctx cfg cache es \<Longrightarrow> runPages ctx opts cfg (\<lambda>_. False) n pgs es = (Inr u, es') \<Longrightarrow> (leg, items) \<in> set pgs \<Longrightarrow>
    scannedFlow item leg (rvNttInboxItem rs) ''Pending'' \<in> set (esOut es')"
proof (induction pgs arbitrary: n es)
  case (Cons p pgs)
  let ?f = "scannedFlow item leg (rvNttInboxItem rs) ''Pending''"
  obtain l its where p: "p = (l, its)" by (cases p)
  obtain r es1 where h: "harvestPage ctx opts cfg False l its es = (r, es1)" by fastforce
  with Cons.prems p obtain v where r: "r = Inr v" by (auto split: sum.splits)
  with Cons.prems p h have run: "runPages ctx opts cfg (\<lambda>_. False) (n + 1) pgs es1 = (Inr u, es')" by simp
  show ?case
  proof (cases "(leg, items) = p")
    case True
    with p page_out [OF h [unfolded r]] obtain xs where
      xs: "promise_all (map (\<lambda>i. scanWormholescanVaa ctx i leg (manager_of cfg leg) (mint_of cfg leg) (esCache es)) items) = Inr xs"
      and out: "esOut es1 = esOut es @ concat (map (\<lambda>(r, _, _). case vrFlow r of None \<Rightarrow> [] | Some f \<Rightarrow> [f]) xs)"
      by auto
    from promise_all_mem [OF xs] assms(6) obtain x key ms where
      x: "(x, key, ms) \<in> set xs" "scanWormholescanVaa ctx item leg (manager_of cfg leg) (mint_of cfg leg) (esCache es) = Inr (x, key, ms)"
      by (metis (no_types, lifting) image_eqI image_iff list.set_map prod_cases3)
    have "bm_get (esCache es) (toBase58 (acEnv ctx) (rvNttInboxItem rs)) = None"
    proof (rule ccontr)
      assume "bm_get (esCache es) (toBase58 (acEnv ctx) (rvNttInboxItem rs)) \<noteq> None"
      with Cons.prems(1) have "closed_key ctx cfg cache (toBase58 (acEnv ctx) (rvNttInboxItem rs))" unfolding enum_inv_def by blast
      with assms(3-5) show False unfolding closed_key_def by (metis injD)
    qed
    from scan_emits [OF x(2) assms(1,2) _ this] assms(3) have "vrFlow x = Some ?f" by blast
    with x(1) out have "?f \<in> set (esOut es1)" by force
    with run_out_grows [OF run] show ?thesis by blast
  next
    case False
    with Cons.IH [OF enum_inv_page [OF Cons.prems(1) h] run] Cons.prems(3) show ?thesis by simp
  qed
qed simp

text \<open>C14. A VAA that reached Solana is not passed over: when a harvested VAA resolves, its flow account is missing and its
  funds are still to be swept (or nothing of its inbox item can be read), enumeration reports it as \<open>Pending\<close>, for
  which the scan dispatches \<open>receive\<close>. So neither an RPC failure while peeking nor another relayer's raw redeem can
  retire it as \<open>Closed\<close>.\<close>

theorem pending_flow_is_dispatched:
  assumes "enumerateFlows ctx opts pages abortedAt sched (\<lambda>_. False) cache wm = (Inr flows, es)"
    and "acFetchConfig ctx = Inr cfg" "bm_ok cache" "inj (toBase58 (acEnv ctx))"
    and "items \<in> set (harvested opts pages abortedAt wm leg)" "item \<in> set items"
    and "resolveNttVaa (acEnv ctx) (wvVaa item) (manager_of cfg leg) None = Inr r"
    and "fetchOutcome ctx leg (rvNttInboxItem r) = Missing" "\<forall>mint. \<not> swept ctx mint (rvNttInboxItem r)"
    and "bm_get cache (toBase58 (acEnv ctx) (rvNttInboxItem r)) = None"
  shows "\<exists>f \<in> set flows. sfPubkey f = rvNttInboxItem r \<and> sfDirection f = leg \<and> sfVaaHex f = Some (hex_of (wvVaa item)) \<and>
    pickAdvanceForStatus (sfStatus f) fns = Some (afReceive fns)"
proof -
  let ?es0 = "\<lparr>esOut = [], esCache = cache, esWatermarks = wm, esMetrics = []\<rparr>"
  from enumerateFlows_run [OF assms(1,2)] assms(5) obtain pgs u where
    run: "runPages ctx opts cfg (\<lambda>_. False) 0 pgs ?es0 = (u, es)" "Inr flows = rbind u (\<lambda>_. Inr (esOut es))" "(leg, items) \<in> set pgs"
    by metis
  have "enum_inv ctx cfg cache ?es0" using assms(3) by (simp add: enum_inv_def closed_key_def)
  with run_emits_pending [OF assms(7-9,4,10,6)] run have
    "scannedFlow item leg (rvNttInboxItem r) ''Pending'' \<in> set flows" by (cases u) auto
  then show ?thesis by (intro bexI) (simp_all add: scannedFlow_def pickAdvanceForStatus_def)
qed

section \<open>Enumeration returns\<close>

lemma classify_returns: "env_total (acEnv ctx) \<Longrightarrow> \<exists>x. classifyMissingFlow ctx leg mint inbox = Inr x"
  using ata_Ex [of "acEnv ctx"]
  by (auto simp: classifyMissingFlow_def Let_def split: sum.split option.split) (metis sum.distinct(1))

lemma scan_returns: "env_total (acEnv ctx) \<Longrightarrow> \<exists>x. scanWormholescanVaa ctx item leg prog mint now = Inr x"
  using classify_returns [of ctx leg mint]
  by (auto simp: scanWormholescanVaa_def Let_def rbind_def split: sum.split fetch_outcome.split) (metis sum.distinct(1))

lemma promise_all_returns: "(\<And>r. r \<in> set rs \<Longrightarrow> \<exists>x. r = Inr x) \<Longrightarrow> \<exists>xs. promise_all rs = Inr xs"
  by (induction rs) force+

lemma run_returns:
  assumes "env_total (acEnv ctx)"
  shows "\<exists>es'. runPages ctx opts cfg ab n pgs es = (Inr (), es')"
proof (induction pgs arbitrary: n es)
  case (Cons p pgs)
  obtain leg items where p: "p = (leg, items)" by (cases p)
  have "\<exists>xs. promise_all (map (\<lambda>i. scanWormholescanVaa ctx i leg prog mint now) items) = Inr xs" for prog mint now
    by (rule promise_all_returns) (use scan_returns [OF assms] in auto)
  from this [of "manager_of cfg leg" "mint_of cfg leg" "esCache es"] have "\<exists>es1. harvestPage ctx opts cfg (ab n) leg items es = (Inr (), es1)"
    by (auto simp: harvestPage_def Let_def manager_of_def [symmetric] mint_of_def [symmetric])
  with Cons p show ?case by auto
qed simp

lemma enumerate_returns:
  assumes "env_total (acEnv ctx)" "acFetchConfig ctx = Inr cfg"
  shows "\<exists>flows es. enumerateFlows ctx opts pages abortedAt sched ab cache wm = (Inr flows, es)"
proof -
  obtain res es where e: "enumerateFlows ctx opts pages abortedAt sched ab cache wm = (res, es)" by fastforce
  from enumerateFlows_run [OF e assms(2)] obtain pgs u where
    "runPages ctx opts cfg ab 0 pgs \<lparr>esOut = [], esCache = cache, esWatermarks = wm, esMetrics = []\<rparr> = (u, es)"
    "res = rbind u (\<lambda>_. Inr (esOut es))" by metis
  with run_returns [OF assms(1)] have "res = Inr (esOut es)" by (metis prod.inject rbind_Inr)
  with e show ?thesis by blast
qed

section \<open>The watermark\<close>

text \<open>An item was observed: it is not a VAA of ours, or its flow account was read, or it is known to be closed.\<close>

definition observed :: "AdvanceContext \<Rightarrow> PairConfig \<Rightarrow> terminal_cache \<Rightarrow> direction \<Rightarrow> WormholescanVaa \<Rightarrow> bool" where
  "observed ctx cfg cache leg item \<longleftrightarrow>
     (\<forall>r. resolveNttVaa (acEnv ctx) (wvVaa item) (manager_of cfg leg) None = Inr r \<longrightarrow>
        fetchOutcome ctx leg (rvNttInboxItem r) \<noteq> RpcError \<or> closed_key ctx cfg cache (toBase58 (acEnv ctx) (rvNttInboxItem r)))"

lemma scan_recordable:
  assumes "scanWormholescanVaa ctx item leg (manager_of cfg leg) mint now = Inr (r, key, ms)"
    and "\<And>k. bm_get now k \<noteq> None \<Longrightarrow> closed_key ctx cfg cache k"
  shows "vrSequence r = wvSequence item" "vrRecordable r \<Longrightarrow> observed ctx cfg cache leg item"
  using assms
  by (auto simp: scanWormholescanVaa_def Let_def observed_def result_simps split: sum.splits if_splits fetch_outcome.splits)

definition moved_to ::
  "AdvanceContext \<Rightarrow> PairConfig \<Rightarrow> terminal_cache \<Rightarrow> EnumerateOptions \<Rightarrow> (direction \<times> WormholescanVaa list) set \<Rightarrow>
   WatermarkStore \<Rightarrow> nat \<Rightarrow> string \<Rightarrow> int \<Rightarrow> bool" where
  "moved_to ctx cfg cache opts pgs store c e w \<longleftrightarrow>
     w = watermark store c e \<or>
     (\<not> enBypassWatermark opts \<and> c = enFogoWormholeChainId opts \<and> watermark store c e < w \<and>
      (\<exists>leg items item. (leg, items) \<in> pgs \<and> item \<in> set items \<and> e = emitterOf opts leg \<and> wvSequence item = w \<and>
         observed ctx cfg cache leg item))"

definition marks_ok ::
  "AdvanceContext \<Rightarrow> PairConfig \<Rightarrow> terminal_cache \<Rightarrow> EnumerateOptions \<Rightarrow> (direction \<times> WormholescanVaa list) set \<Rightarrow>
   WatermarkStore \<Rightarrow> enum_state \<Rightarrow> bool" where
  "marks_ok ctx cfg cache opts pgs store es \<longleftrightarrow>
     (\<exists>s. esWatermarks es = Some s \<and> jm_ok s \<and> (\<forall>c e. moved_to ctx cfg cache opts pgs store c e (watermark s c e)))"

lemma marks_ok_apply:
  assumes "marks_ok ctx cfg cache opts pgs store es"
    and "vrRecordable r \<longrightarrow> (\<exists>items item. (leg, items) \<in> pgs \<and> item \<in> set items \<and> wvSequence item = vrSequence r \<and>
           observed ctx cfg cache leg item)"
  shows "marks_ok ctx cfg cache opts pgs store (applyResolution opts (emitterOf opts leg) r es)"
proof -
  obtain s where s: "esWatermarks es = Some s" "jm_ok s" "\<And>c e. moved_to ctx cfg cache opts pgs store c e (watermark s c e)"
    using assms(1) by (auto simp: marks_ok_def)
  show ?thesis
  proof (cases "vrRecordable r \<and> \<not> enBypassWatermark opts")
    case True
    let ?s = "recordSeen s (enFogoWormholeChainId opts) (emitterOf opts leg) (vrSequence r)"
    have "moved_to ctx cfg cache opts pgs store c e (watermark ?s c e)" for c e
    proof (cases "c = enFogoWormholeChainId opts \<and> e = emitterOf opts leg \<and> watermark s c e < vrSequence r")
      case move: True
      then have w: "watermark ?s c e = vrSequence r" using s(2) by (auto simp: watermark_recordSeen)
      moreover have "watermark store c e \<le> watermark s c e" using s(3) [of c e] by (auto simp: moved_to_def)
      ultimately show ?thesis using move True assms(2) by (auto simp: moved_to_def)
    next
      case False
      then have "watermark ?s c e = watermark s c e" using s(2) by (auto simp: watermark_recordSeen)
      then show ?thesis using s(3) [of c e] by simp
    qed
    then show ?thesis using True s(1,2) by (simp add: marks_ok_def applyResolution_def jm_ok_recordSeen)
  next
    case False
    then show ?thesis using s by (auto simp: marks_ok_def applyResolution_def)
  qed
qed

lemma marks_ok_page:
  assumes "marks_ok ctx cfg cache opts pgs store es" "enum_inv ctx cfg cache es" "(leg, items) \<in> pgs"
    and "harvestPage ctx opts cfg ab leg items es = (res, es')"
  shows "marks_ok ctx cfg cache opts pgs store es'"
proof -
  let ?scan = "\<lambda>i. scanWormholescanVaa ctx i leg (manager_of cfg leg) (mint_of cfg leg) (esCache es)"
  have c: "closed_key ctx cfg cache k" if "bm_get (esCache es) k \<noteq> None" for k
    using assms(2) that by (simp add: enum_inv_def)
  have memo: "marks_ok ctx cfg cache opts pgs store (fold memoize rs es)" for rs
    using assms(1) by (simp add: marks_ok_def out_memoize_all)
  have fold: "marks_ok ctx cfg cache opts pgs store es1 \<Longrightarrow> Inr ` set xs \<subseteq> ?scan ` set items \<Longrightarrow>
      marks_ok ctx cfg cache opts pgs store (fold (\<lambda>(r, _, _). applyResolution opts (emitterOf opts leg) r) xs es1)" for xs es1
  proof (induction xs arbitrary: es1)
    case (Cons x xs)
    obtain r key ms where x: "x = (r, key, ms)" by (cases x)
    with Cons.prems(2) obtain item where i: "item \<in> set items" "?scan item = Inr (r, key, ms)" by auto
    note rec = scan_recordable [OF i(2) c]
    have "marks_ok ctx cfg cache opts pgs store (applyResolution opts (emitterOf opts leg) r es1)"
      by (rule marks_ok_apply [OF Cons.prems(1)]) (use i(1) assms(3) rec in metis)
    with Cons x show ?case by simp
  qed simp
  have "marks_ok ctx cfg cache opts pgs store
      (fold (\<lambda>(r, _, _). applyResolution opts (emitterOf opts leg) r) xs (fold memoize (map ?scan items) es))"
    if "promise_all (map ?scan items) = Inr xs" for xs
    using promise_all_mem [OF that] by (intro fold memo) auto
  then show ?thesis using assms(4) memo
    by (auto simp: harvestPage_def Let_def manager_of_def [symmetric] mint_of_def [symmetric] emitterOf_def [symmetric]
        split: sum.splits if_splits)
qed

lemma marks_ok_run:
  "marks_ok ctx cfg cache opts P store es \<Longrightarrow> enum_inv ctx cfg cache es \<Longrightarrow> set pgs \<subseteq> P \<Longrightarrow>
     runPages ctx opts cfg ab n pgs es = (res, es') \<Longrightarrow> marks_ok ctx cfg cache opts P store es'"
proof (induction pgs arbitrary: n es)
  case (Cons p pgs)
  obtain leg items where p: "p = (leg, items)" by (cases p)
  obtain r es1 where h: "harvestPage ctx opts cfg (ab n) leg items es = (r, es1)" by fastforce
  from Cons.prems(3) p have "(leg, items) \<in> P" by simp
  from marks_ok_page [OF Cons.prems(1,2) this h] enum_inv_page [OF Cons.prems(2) h] Cons p h show ?case
    by (auto split: sum.splits if_splits)
qed simp

text \<open>C21. Enumeration, whether it returns or throws, moves a watermark only forward and only to the sequence of a VAA of
  that emitter that it observed cleanly; a VAA whose flow account could not be read for an RPC failure never
  becomes a watermark. A backstop sweep moves no watermark at all.\<close>

theorem watermark_moves_to_observed:
  assumes "enumerateFlows ctx opts pages abortedAt sched aborted cache (Some store) = (res, es)"
    and "acFetchConfig ctx = Inr cfg" "bm_ok cache" "jm_ok store"
  shows "\<exists>s. esWatermarks es = Some s \<and> jm_ok s \<and>
    (\<forall>c e. moved_to ctx cfg cache opts {(leg, items). items \<in> set (harvested opts pages abortedAt (Some store) leg)} store c e
       (watermark s c e))"
proof -
  let ?es0 = "\<lparr>esOut = [], esCache = cache, esWatermarks = Some store, esMetrics = []\<rparr>"
  let ?P = "{(leg, items). items \<in> set (harvested opts pages abortedAt (Some store) leg)}"
  from enumerateFlows_run [OF assms(1,2)] obtain pgs u where
    run: "runPages ctx opts cfg aborted 0 pgs ?es0 = (u, es)"
    "\<And>leg items. (leg, items) \<in> set pgs \<longleftrightarrow> items \<in> set (harvested opts pages abortedAt (Some store) leg)" by metis
  have "marks_ok ctx cfg cache opts ?P store ?es0" using assms(4) by (simp add: marks_ok_def moved_to_def)
  moreover have "enum_inv ctx cfg cache ?es0" using assms(3) by (simp add: enum_inv_def closed_key_def)
  moreover have "set pgs \<subseteq> ?P" using run(2) by auto
  ultimately show ?thesis using marks_ok_run [OF _ _ _ run(1)] by (auto simp: marks_ok_def)
qed

text \<open>The watermark is the largest clean sequence, not the first unclean one: when the flow account of an older VAA cannot
  be read in the scan that reads a much newer one, the floor of the next scan is already above the older VAA, which
  is left to the backstop sweep.\<close>

lemma transient_failure_overtaken:
  fixes opts :: EnumerateOptions
  assumes "\<not> enBypassWatermark opts"
  defines "rs \<equiv> [\<lparr>vrSequence = 20, vrFlow = None, vrRecordable = True\<rparr>, \<lparr>vrSequence = 3, vrFlow = None, vrRecordable = False\<rparr>]"
  shows "\<exists>s. esWatermarks (fold (applyResolution opts e) rs \<lparr>esOut = [], esCache = c, esWatermarks = Some [], esMetrics = []\<rparr>) = Some s \<and>
    3 < pagingFloor s (enFogoWormholeChainId opts) e"
  using assms
  by (simp add: applyResolution_def pagingFloor_def watermark_recordSeen watermark_def jm_get_def recordSeen_def jm_set_def
      BACKFILL_COUNT_def Let_def)

section \<open>A concrete enumeration\<close>

text \<open>One VAA on one page of the deposit emitter, whose flow account does not exist and whose inbox item is unreadable.\<close>

definition model_item :: WormholescanVaa where
  "model_item = \<lparr>wvVaa = encodeVaa (model_vaa (replicate 32 4)), wvSequence = 9, wvTxHash = None\<rparr>"

definition model_enum_ctx :: AdvanceContext where
  "model_enum_ctx = model_ctx model_env [] (Inl (of_js_error (Error ''Account does not exist or has no data''))) []"

definition model_enum_opts :: EnumerateOptions where
  "model_enum_opts = \<lparr>enFogoWormholeChainId = 51, enFogoUsdcEmitterHex = ''ab'', enFogoOnycEmitterHex = [], enMaxPages = 1,
     enBypassWatermark = False\<rparr>"

definition model_pages :: "direction \<Rightarrow> nat \<Rightarrow> WormholescanVaa list result" where
  "model_pages leg p = Inr [model_item]"

definition model_cache :: terminal_cache where
  "model_cache = \<lparr>bmMax = 10, bmEntries = []\<rparr>"

definition model_enumeration :: "WatermarkStore option \<Rightarrow> (thrown + ScannedFlow list) \<times> enum_state" where
  "model_enumeration = enumerateFlows model_enum_ctx model_enum_opts model_pages (\<lambda>_ _. False) [] (\<lambda>_. False) model_cache"

lemma model_enum_sel: "acEnv model_enum_ctx = model_env" "acFetchConfig model_enum_ctx = Inr model_cfg" "bm_ok model_cache"
  by (simp_all add: model_enum_ctx_def model_ctx_def model_cache_def bm_ok_def bm_size_def)

lemma model_enum_returns: "\<exists>flows es. model_enumeration wm = (Inr flows, es)"
  unfolding model_enumeration_def by (rule enumerate_returns) (simp_all add: model_enum_sel model_env_total)

lemma model_harvested: "harvested model_enum_opts model_pages (\<lambda>_ _. False) None Deposit = [[model_item]]"
  by (simp add: harvested_def emitterOf_def model_enum_opts_def harvestVaaPages_def model_pages_def catch_def Let_def)

lemma model_inj: "inj (toBase58 model_env)"
proof -
  have "inj (\<lambda>b :: byte. char_of (unat b) :: char)"
    by (rule inj_on_inverseI [where g = "\<lambda>c. of_nat (of_char c)"]) (simp add: unat_byte_less)
  then show ?thesis by (simp add: model_env_def)
qed

lemma model_resolves: "\<exists>r. resolveNttVaa model_env (wvVaa model_item) prog None = Inr r"
  using model_vaa_resolves [OF model_env_ctor model_env_total, of "replicate 32 4" prog] by (auto simp: model_item_def)

lemma model_missing: "fetchOutcome model_enum_ctx Deposit inbox = Missing" "\<not> swept model_enum_ctx mint inbox"
proof -
  have "\<exists>a. flowAddress model_env model_client Deposit inbox = Inr a"
    using key_of_Ex [OF model_env_total] unfolding flowAddress_def findInflightFlowPda_def findFlowPda_def Let_def by auto
  then show "fetchOutcome model_enum_ctx Deposit inbox = Missing"
    by (auto simp: fetchOutcome_def model_enum_ctx_def model_ctx_def isAccountMissingError_def errorText_def plain_error_def is_prefix_def)
  show "\<not> swept model_enum_ctx mint inbox"
    by (simp add: swept_def model_enum_ctx_def model_ctx_def decodeNttInboxItem_def checkDiscriminator_def INBOX_ITEM_DISCRIMINATOR_def
        accountDiscriminator_def model_env_def)
qed

theorem pending_flow_is_dispatched_witness:
  "\<exists>flows es r. model_enumeration None = (Inr flows, es) \<and>
     resolveNttVaa model_env (wvVaa model_item) (manager_of model_cfg Deposit) None = Inr r \<and>
     (\<exists>f \<in> set flows. sfPubkey f = rvNttInboxItem r \<and> pickAdvanceForStatus (sfStatus f) default_fns = Some (afReceive default_fns))"
proof -
  obtain flows es where e: "model_enumeration None = (Inr flows, es)" using model_enum_returns by blast
  obtain r where r: "resolveNttVaa model_env (wvVaa model_item) (manager_of model_cfg Deposit) None = Inr r" using model_resolves by blast
  have "\<exists>f \<in> set flows. sfPubkey f = rvNttInboxItem r \<and> sfDirection f = Deposit \<and> sfVaaHex f = Some (hex_of (wvVaa model_item)) \<and>
    pickAdvanceForStatus (sfStatus f) default_fns = Some (afReceive default_fns)"
    by (rule pending_flow_is_dispatched [OF e [unfolded model_enumeration_def] model_enum_sel(2,3), of "[model_item]" Deposit model_item r])
       (simp_all add: model_enum_sel model_inj model_harvested r model_missing, simp add: model_cache_def bm_get_def)
  with e r show ?thesis by blast
qed

theorem enumerated_flow_is_sound_witness:
  "\<exists>flows es f vaa. model_enumeration None = (Inr flows, es) \<and> f \<in> set flows \<and>
     fetchVaaBytes model_enum_ctx (sfFogoTx f) (sfVaaHex f) = Inr vaa"
proof -
  obtain flows es where e: "model_enumeration None = (Inr flows, es)" using model_enum_returns by blast
  from enumerateFlows_run [OF e [unfolded model_enumeration_def] model_enum_sel(2)] model_harvested obtain pgs u where
    run: "runPages model_enum_ctx model_enum_opts model_cfg (\<lambda>_. False) 0 pgs
        \<lparr>esOut = [], esCache = model_cache, esWatermarks = None, esMetrics = []\<rparr> = (u, es)"
      "Inr flows = rbind u (\<lambda>_. Inr (esOut es))" "(Deposit, [model_item]) \<in> set pgs"
    by (metis list.set_intros(1))
  obtain r where r: "resolveNttVaa (acEnv model_enum_ctx) (wvVaa model_item) (manager_of model_cfg Deposit) None = Inr r"
    using model_resolves model_enum_sel(1) by metis
  from run(2) obtain v where u: "u = Inr v" "flows = esOut es" by (cases u) auto
  have "enum_inv model_enum_ctx model_cfg model_cache \<lparr>esOut = [], esCache = model_cache, esWatermarks = None, esMetrics = []\<rparr>"
    using model_enum_sel(3) by (simp add: enum_inv_def closed_key_def)
  from run_emits_pending [OF r model_missing(1) _ _ _ _ this run(1) [unfolded u] run(3)] have
    f: "scannedFlow model_item Deposit (rvNttInboxItem r) ''Pending'' \<in> set flows"
    using u model_missing(2) model_inj by (simp add: model_enum_sel model_cache_def bm_get_def)
  from enumerated_flow_is_sound [OF e [unfolded model_enumeration_def] model_enum_sel(2,3) f] e f show ?thesis by blast
qed

theorem watermark_moves_to_observed_witness:
  "\<exists>res es s. model_enumeration (Some []) = (res, es) \<and> esWatermarks es = Some s \<and> jm_ok s"
proof -
  obtain res es where e: "model_enumeration (Some []) = (res, es)" by fastforce
  from watermark_moves_to_observed [OF e [unfolded model_enumeration_def] model_enum_sel(2,3)] e show ?thesis by auto
qed

end
