(* ===== verification/Prepare.thy ===== *)
theory Prepare
  imports Leg_Safety
begin

text \<open>
  The preparation of an NTT transceiver message (\<open>packages/cranker/src/relayer/prepare-transceiver-message.ts\<close>), the step
  of \<open>receive\<close> that posts a VAA to Solana when no other relayer has done so.

  The NTT SDK and the submission of transactions are a record of functions. The state is the sequence of
  transactions submitted so far; the \<open>n\<close>-th submission, its confirmation and its timers are functions of \<open>n\<close>.
  A transaction whose timer expires has been submitted all the same.
\<close>

section \<open>The outside\<close>

record transceiver_vaa =
  tvGuardianSet :: nat
  tvSignatures :: "(nat \<times> bytes) list"

datatype prep_ix =
    PriceIx int
  | LimitIx nat
  | PostSignaturesIx nat nat "(nat \<times> bytes) list" pubkey pubkey
  | ReceiveMessageIx "pubkey option"
  | CloseSignaturesIx pubkey pubkey

text \<open>A transaction built here (versioned or legacy, instructions, signers), or a step of the SDK's \<open>postVaa\<close>, which is
  signed and sent as the SDK built it.\<close>

datatype prep_tx = OwnTx bool "prep_ix list" "pubkey list" | SdkTx nat bool

text \<open>\<open>paTransceiver\<close> says of the SDK object of a manager whether it has a Wormhole transceiver, and whether that one uses
  the verification shim. \<open>paPostVaa\<close> lists the steps \<open>core.postVaa\<close> yields (versioned or not), and the error with which it
  ends, if any.\<close>

record prep_api =
  paDeserialize :: "bytes \<Rightarrow> thrown + transceiver_vaa"
  paTransceiver :: "pubkey \<Rightarrow> pubkey \<Rightarrow> pubkey \<Rightarrow> thrown + bool option"
  paPostSignatures :: "thrown + unit"
  paCreateReceive :: "thrown + unit"
  paCloseSignatures :: "thrown + unit"
  paPostVaa :: "bool list \<times> thrown option"
  paGenerate :: pubkey
  paSend :: "nat \<Rightarrow> prep_tx \<Rightarrow> thrown + string"
  paConfirm :: "nat \<Rightarrow> string \<Rightarrow> thrown + unit"
  paExpired :: "nat \<Rightarrow> string \<Rightarrow> bool"
  paBlockhash :: "nat \<Rightarrow> thrown + string"

section \<open>Steps over the submitted transactions\<close>

text \<open>An asynchronous step over a state: it throws or returns, and leaves the state changed either way.\<close>

type_synonym ('s, 'a) io = "'s \<Rightarrow> (thrown + 'a) \<times> 's"

type_synonym 'a prep = "(prep_tx list, 'a) io"

definition pbind :: "('s, 'a) io \<Rightarrow> ('a \<Rightarrow> ('s, 'b) io) \<Rightarrow> ('s, 'b) io" where
  "pbind m f s = (case m s of (Inl e, s') \<Rightarrow> (Inl e, s') | (Inr x, s') \<Rightarrow> f x s')"

definition pure :: "thrown + 'a \<Rightarrow> ('s, 'a) io" where
  "pure r s = (r, s)"

definition timed :: "prep_api \<Rightarrow> nat \<Rightarrow> string \<Rightarrow> thrown + 'a \<Rightarrow> thrown + 'a" where
  "timed api n label r = (if paExpired api n label then Inl (of_js_error (Error ''timeout exceeded'')) else r)"

definition submit :: "prep_api \<Rightarrow> string \<Rightarrow> prep_tx \<Rightarrow> string prep" where
  "submit api label tx sent = (timed api (length sent) label (paSend api (length sent) tx), sent @ [tx])"

definition confirm :: "prep_api \<Rightarrow> string \<Rightarrow> string \<Rightarrow> unit prep" where
  "confirm api label sig sent = (timed api (length sent) label (paConfirm api (length sent) sig), sent)"

definition getLatestBlockhash :: "prep_api \<Rightarrow> string prep" where
  "getLatestBlockhash api sent = (paBlockhash api (length sent), sent)"

section \<open>The two ways to post\<close>

definition postStep :: "prep_api \<Rightarrow> nat \<Rightarrow> bool \<Rightarrow> string prep" where
  "postStep api i versioned =
     (if versioned then
        pbind (getLatestBlockhash api) (\<lambda>_.
        pbind (submit api ''sendRawTransaction(core.postVaa step)'' (SdkTx i True)) (\<lambda>sig.
        pbind (confirm api ''confirmTransaction(core.postVaa step)'' sig) (\<lambda>_. pure (Inr sig))))
      else submit api ''sendAndConfirmTransaction(core.postVaa step)'' (SdkTx i False))"

fun postVaa :: "prep_api \<Rightarrow> nat \<Rightarrow> bool list \<Rightarrow> thrown option \<Rightarrow> string list \<Rightarrow> string list prep" where
  "postVaa api i [] failed sigs = pure (case failed of None \<Rightarrow> Inr sigs | Some e \<Rightarrow> Inl e)"
| "postVaa api i (versioned # steps) failed sigs =
     pbind (postStep api i versioned) (\<lambda>sig. postVaa api (Suc i) steps failed (sigs @ [sig]))"

definition withoutShim :: "prep_api \<Rightarrow> AdvanceContext \<Rightarrow> string list prep" where
  "withoutShim api ctx =
     pbind (postVaa api 0 (fst (paPostVaa api)) (snd (paPostVaa api)) []) (\<lambda>sigs.
     pbind (pure (paCreateReceive api)) (\<lambda>_.
     pbind (submit api ''sendAndConfirmTransaction(receive_message)''
              (OwnTx False [PriceIx (acPriorityFee ctx), LimitIx 200000, ReceiveMessageIx None] [acKeypair ctx])) (\<lambda>sig.
       pure (Inr (sigs @ [sig])))))"

definition withShim :: "prep_api \<Rightarrow> AdvanceContext \<Rightarrow> transceiver_vaa \<Rightarrow> string list prep" where
  "withShim api ctx vaa =
     (let payer = acKeypair ctx; sigAccount = paGenerate api
      in pbind (pure (paPostSignatures api)) (\<lambda>_.
         pbind (submit api ''sendAndConfirmTransaction(VerifyVAAShim.PostSignature)''
                  (OwnTx False [PriceIx (acPriorityFee ctx), LimitIx 200000,
                     PostSignaturesIx (tvGuardianSet vaa) (length (tvSignatures vaa)) (tvSignatures vaa) payer sigAccount]
                     [payer, sigAccount])) (\<lambda>sig1.
         pbind (pure (paCreateReceive api)) (\<lambda>_.
         pbind (pure (paCloseSignatures api)) (\<lambda>_.
         pbind (getLatestBlockhash api) (\<lambda>_.
         pbind (submit api ''sendRawTransaction(receive+closeSignatures)''
                  (OwnTx True [PriceIx (acPriorityFee ctx), LimitIx 400000, ReceiveMessageIx (Some sigAccount),
                     CloseSignaturesIx sigAccount payer] [payer])) (\<lambda>sig2.
         pbind (confirm api ''confirmTransaction(receive+closeSignatures)'' sig2) (\<lambda>_.
           pure (Inr [sig1, sig2])))))))))"

section \<open>The whole step\<close>

definition errorStrings :: "thrown \<Rightarrow> string list" where
  "errorStrings err =
     (case err of
        Primitive s \<Rightarrow> [s]
      | Object e \<Rightarrow> eoMessage e # eoLogs e @ eoErrorLogs e @ eoTransactionLogs e)"

definition transceiverMessageAlreadyExists :: "web3_env \<Rightarrow> thrown \<Rightarrow> pubkey \<Rightarrow> bool" where
  "transceiverMessageAlreadyExists env err pda \<longleftrightarrow>
     list_ex (\<lambda>s. text_includes s ''already in use'' \<and> text_includes s (toBase58 env pda)) (errorStrings err)"

text \<open>The module's cache of SDK objects: per manager, the token and transceiver it was first built with.\<close>

type_synonym ntt_cache = "(string, pubkey \<times> pubkey) jsmap"

definition getOrCreateNtt ::
  "web3_env \<Rightarrow> ntt_cache \<Rightarrow> pubkey \<Rightarrow> pubkey \<Rightarrow> pubkey \<Rightarrow> (pubkey \<times> pubkey) \<times> ntt_cache" where
  "getOrCreateNtt env cache manager token transceiver =
     (let key = toBase58 env manager
      in case jm_get cache key of
           Some built \<Rightarrow> (built, cache)
         | None \<Rightarrow> ((token, transceiver), jm_set key (token, transceiver) cache))"

record PrepareTransceiverMessageInput =
  prVaaBytes :: bytes
  prTransceiverMessagePda :: pubkey
  prManager :: pubkey
  prToken :: pubkey
  prTransceiver :: pubkey
  prExpectedOwner :: pubkey

text \<open>The \<open>catch\<close> around the two paths: losing the race to create the account is as good as having created it.\<close>

definition prepResult :: "web3_env \<Rightarrow> pubkey \<Rightarrow> thrown + string list \<Rightarrow> PrepareResult" where
  "prepResult env pda r =
     (case r of
        Inr signatures \<Rightarrow> Prepared signatures
      | Inl err \<Rightarrow> if transceiverMessageAlreadyExists env err pda then AlreadyPrepared else PrepareError (toError err))"

definition prepareTransceiverMessage ::
  "prep_api \<Rightarrow> AdvanceContext \<Rightarrow> ntt_cache \<Rightarrow> PrepareTransceiverMessageInput \<Rightarrow> PrepareResult \<times> prep_tx list \<times> ntt_cache" where
  "prepareTransceiverMessage api ctx cache input =
     (let existing = timedAccountOrNull ctx ''getAccountInfo(transceiverMessage)'' (prTransceiverMessagePda input)
      in if existing \<noteq> None \<and> aiOwner (the existing) = prExpectedOwner input then (AlreadyPrepared, [], cache)
         else case paDeserialize api (prVaaBytes input) of
           Inl err \<Rightarrow> (PrepareError (toError err), [], cache)
         | Inr vaa \<Rightarrow>
             (case getOrCreateNtt (acEnv ctx) cache (prManager input) (prToken input) (prTransceiver input) of
                ((token, transceiver), cache') \<Rightarrow>
                  (case paTransceiver api (prManager input) token transceiver of
                     Inl err \<Rightarrow> (PrepareError (toError err), [], cache')
                   | Inr None \<Rightarrow> (PrepareError (of_js_error (Error ''NTT manager has no wormhole transceiver registered'')), [], cache')
                   | Inr (Some shim) \<Rightarrow>
                       (case (if shim then withShim api ctx vaa else withoutShim api ctx) [] of
                          (r, sent) \<Rightarrow> (prepResult (acEnv ctx) (prTransceiverMessagePda input) r, sent, cache')))))"

text \<open>\<open>receive\<close> prepares with the manager as transceiver and expected owner: the \<open>acPrepare\<close> of its context.\<close>

definition prepareFor :: "prep_api \<Rightarrow> ntt_cache \<Rightarrow> AdvanceContext \<Rightarrow> AdvanceContext" where
  "prepareFor api cache ctx = ctx\<lparr>acPrepare := (\<lambda>vaa pda manager token.
     Inr (fst (prepareTransceiverMessage api ctx cache
       \<lparr>prVaaBytes = vaa, prTransceiverMessagePda = pda, prManager = manager, prToken = token, prTransceiver = manager,
        prExpectedOwner = manager\<rparr>)))\<rparr>"

section \<open>What a result means\<close>

fun receives :: "prep_tx \<Rightarrow> bool" where
  "receives (OwnTx _ ixs _) \<longleftrightarrow> (\<exists>k. ReceiveMessageIx k \<in> set ixs)"
| "receives (SdkTx _ _) \<longleftrightarrow> False"

text \<open>Each submitted transaction has its signature, in order.\<close>

definition signed :: "prep_api \<Rightarrow> string list \<Rightarrow> prep_tx list \<Rightarrow> bool" where
  "signed api sigs sent \<longleftrightarrow> length sigs = length sent \<and> (\<forall>i < length sent. paSend api i (sent ! i) = Inr (sigs ! i))"

lemma signed_Nil [simp]: "signed api [] []"
  by (simp add: signed_def)

lemma signed_snoc: "signed api sigs sent \<Longrightarrow> paSend api (length sent) tx = Inr sig \<Longrightarrow> signed api (sigs @ [sig]) (sent @ [tx])"
  by (auto simp: signed_def nth_append less_Suc_eq)

lemma pbind_Inr:
  "pbind m f sent = (Inr y, sent'') \<longleftrightarrow> (\<exists>x sent'. m sent = (Inr x, sent') \<and> f x sent' = (Inr y, sent''))"
  by (auto simp: pbind_def split: prod.splits sum.splits)

lemma pure_Inr [simp]: "pure r sent = (Inr y, sent') \<longleftrightarrow> r = Inr y \<and> sent' = sent"
  by (auto simp: pure_def)

lemma submit_Inr: "submit api l tx sent = (Inr sig, sent') \<Longrightarrow> sent' = sent @ [tx] \<and> paSend api (length sent) tx = Inr sig"
  by (auto simp: submit_def timed_def split: if_splits)

lemma confirm_Inr: "confirm api l sig sent = (Inr u, sent') \<Longrightarrow> sent' = sent"
  by (simp add: confirm_def)

lemma blockhash_Inr: "getLatestBlockhash api sent = (Inr bh, sent') \<Longrightarrow> sent' = sent"
  by (simp add: getLatestBlockhash_def)

lemmas step_Inr = submit_Inr confirm_Inr blockhash_Inr

lemma postStep_Inr:
  "postStep api i v sent = (Inr sig, sent') \<Longrightarrow> sent' = sent @ [SdkTx i v] \<and> paSend api (length sent) (SdkTx i v) = Inr sig"
  by (auto simp: postStep_def pbind_Inr dest!: step_Inr split: if_splits)

lemma postVaa_Inr:
  "postVaa api i steps failed sigs sent = (Inr sigs', sent') \<Longrightarrow> signed api sigs sent \<Longrightarrow> list_all (Not \<circ> receives) sent \<Longrightarrow>
     signed api sigs' sent' \<and> list_all (Not \<circ> receives) sent'"
proof (induction steps arbitrary: i sigs sent)
  case (Cons v steps)
  then obtain sig where "paSend api (length sent) (SdkTx i v) = Inr sig"
    "postVaa api (Suc i) steps failed (sigs @ [sig]) (sent @ [SdkTx i v]) = (Inr sigs', sent')"
    by (auto simp: pbind_Inr dest!: postStep_Inr)
  with Cons show ?case by (simp add: signed_snoc)
qed (auto split: option.splits)

lemma withoutShim_Inr:
  assumes "withoutShim api ctx [] = (Inr sigs, sent)"
  shows "signed api sigs sent \<and> sent \<noteq> [] \<and> receives (last sent) \<and> list_all (Not \<circ> receives) (butlast sent)"
proof -
  from assms obtain sigs0 sent0 sig where
    p: "postVaa api 0 (fst (paPostVaa api)) (snd (paPostVaa api)) [] [] = (Inr sigs0, sent0)"
    and r: "paSend api (length sent0) (OwnTx False [PriceIx (acPriorityFee ctx), LimitIx 200000, ReceiveMessageIx None] [acKeypair ctx]) = Inr sig"
      "sent = sent0 @ [OwnTx False [PriceIx (acPriorityFee ctx), LimitIx 200000, ReceiveMessageIx None] [acKeypair ctx]]"
      "sigs = sigs0 @ [sig]"
    by (auto simp: withoutShim_def pbind_Inr dest!: step_Inr)
  from postVaa_Inr [OF p] r show ?thesis by (auto intro!: signed_snoc)
qed

lemma withShim_Inr:
  assumes "withShim api ctx vaa [] = (Inr sigs, sent)"
  shows "signed api sigs sent \<and> sent \<noteq> [] \<and> receives (last sent) \<and> list_all (Not \<circ> receives) (butlast sent)"
  using assms
  by (auto simp: withShim_def pbind_Inr Let_def signed_def less_Suc_eq dest!: step_Inr)

text \<open>Steps that only ever submit transactions of a kind.\<close>

definition only_sends :: "(prep_tx \<Rightarrow> bool) \<Rightarrow> 'a prep \<Rightarrow> bool" where
  "only_sends P m \<longleftrightarrow> (\<forall>sent. list_all P sent \<longrightarrow> list_all P (snd (m sent)))"

lemma only_sends_pbind [intro]: "only_sends P m \<Longrightarrow> (\<And>x. only_sends P (f x)) \<Longrightarrow> only_sends P (pbind m f)"
  by (fastforce simp: only_sends_def pbind_def split: prod.splits sum.splits)

lemma only_sends_steps [intro]:
  "only_sends P (pure r)" "only_sends P (confirm api l sig)" "only_sends P (getLatestBlockhash api)"
  "P tx \<Longrightarrow> only_sends P (submit api l tx)"
  by (simp_all add: only_sends_def pure_def confirm_def getLatestBlockhash_def submit_def)

fun price :: "prep_ix \<Rightarrow> int option" where
  "price (PriceIx p) = Some p"
| "price _ = None"

text \<open>The fee is set once in a transaction built here; a step of the SDK is left as it is.\<close>

fun priced :: "int \<Rightarrow> prep_tx \<Rightarrow> bool" where
  "priced fee (OwnTx _ ixs _) \<longleftrightarrow> List.map_filter price ixs = [fee]"
| "priced fee (SdkTx _ _) \<longleftrightarrow> True"

lemma only_sends_postStep: "only_sends (priced fee) (postStep api i v)"
  unfolding postStep_def by (cases v; simp only: if_True if_False; intro only_sends_pbind only_sends_steps; simp)

lemma only_sends_postVaa: "only_sends (priced fee) (postVaa api i steps failed sigs)"
proof (induction steps arbitrary: i sigs)
  case Nil
  show ?case unfolding postVaa.simps by (rule only_sends_steps)
next
  case (Cons v steps)
  show ?case unfolding postVaa.simps by (intro only_sends_pbind only_sends_postStep Cons)
qed

lemma only_sends_paths:
  "only_sends (priced (acPriorityFee ctx)) (withoutShim api ctx)"
  "only_sends (priced (acPriorityFee ctx)) (withShim api ctx vaa)"
  unfolding withoutShim_def withShim_def Let_def
  by (intro only_sends_pbind only_sends_steps only_sends_postVaa; simp add: List.map_filter_simps)+

text \<open>C22. The three outcomes of the preparation. \<open>Prepared\<close> means that every submitted transaction returned its signature and
  that exactly the last one delivered the message. \<open>AlreadyPrepared\<close> means that the account was seen with the expected
  owner before anything was submitted, or that a submission failed because this very account exists. Any other
  failure is an error. Every transaction built on the way sets the configured fee exactly once.\<close>

theorem prepare_outcome:
  assumes "prepareTransceiverMessage api ctx cache input = (res, sent, cache')"
  shows "list_all (priced (acPriorityFee ctx)) sent \<and>
    (let existing = timedAccountOrNull ctx ''getAccountInfo(transceiverMessage)'' (prTransceiverMessagePda input);
         ready = (\<exists>acc. existing = Some acc \<and> aiOwner acc = prExpectedOwner input);
         raced = (\<lambda>err. transceiverMessageAlreadyExists (acEnv ctx) err (prTransceiverMessagePda input));
         failed = (\<lambda>err. withoutShim api ctx [] = (Inl err, sent) \<or> (\<exists>vaa. withShim api ctx vaa [] = (Inl err, sent)))
     in case res of
          Prepared sigs \<Rightarrow> \<not> ready \<and> signed api sigs sent \<and> sent \<noteq> [] \<and> receives (last sent) \<and>
            list_all (Not \<circ> receives) (butlast sent)
        | AlreadyPrepared \<Rightarrow> (ready \<and> sent = []) \<or> (\<not> ready \<and> (\<exists>err. failed err \<and> raced err))
        | PrepareError e \<Rightarrow> \<not> ready \<and> (sent = [] \<or> (\<exists>err. failed err \<and> \<not> raced err \<and> e = toError err)))"
proof -
  let ?ready = "\<exists>acc. timedAccountOrNull ctx ''getAccountInfo(transceiverMessage)'' (prTransceiverMessagePda input) = Some acc \<and>
    aiOwner acc = prExpectedOwner input"
  show ?thesis
  proof (cases ?ready)
    case True
    then have "prepareTransceiverMessage api ctx cache input = (AlreadyPrepared, [], cache)"
      by (auto simp: prepareTransceiverMessage_def Let_def)
    with assms True show ?thesis by (auto simp: Let_def)
  next
    case False
    then have not_ready: "\<not> (timedAccountOrNull ctx ''getAccountInfo(transceiverMessage)'' (prTransceiverMessagePda input) \<noteq> None \<and>
      aiOwner (the (timedAccountOrNull ctx ''getAccountInfo(transceiverMessage)'' (prTransceiverMessagePda input))) = prExpectedOwner input)"
      by auto
    consider (early) e where "res = PrepareError e" "sent = []"
      | (path) m vaa r where "m = withoutShim api ctx \<or> m = withShim api ctx vaa" "m [] = (r, sent)"
        "res = prepResult (acEnv ctx) (prTransceiverMessagePda input) r"
      using assms unfolding prepareTransceiverMessage_def Let_def if_not_P [OF not_ready]
      by (fastforce split: sum.splits option.splits prod.splits if_splits)
    then show ?thesis
    proof cases
      case early
      with False show ?thesis by (auto simp: Let_def)
    next
      case path
      have "only_sends (priced (acPriorityFee ctx)) m" using path(1) only_sends_paths by blast
      with path(2) have priced: "list_all (priced (acPriorityFee ctx)) sent"
        unfolding only_sends_def by (metis list.pred_inject(1) snd_conv)
      show ?thesis
      proof (cases r)
        case (Inl err)
        with False path priced show ?thesis by (auto simp: Let_def prepResult_def)
      next
        case (Inr sigs)
        with path(1,2) have "signed api sigs sent \<and> sent \<noteq> [] \<and> receives (last sent) \<and> list_all (Not \<circ> receives) (butlast sent)"
          using withoutShim_Inr withShim_Inr by metis
        with False path(3) Inr priced show ?thesis by (simp add: Let_def prepResult_def)
      qed
    qed
  qed
qed

theorem prepare_outcome_witness:
  "\<exists>api ctx input sent cache'. prepareTransceiverMessage api ctx [] input = (Prepared [''s'', ''s''], sent, cache') \<and>
     receives (last sent) \<and> list_all (Not \<circ> receives) (butlast sent)"
proof -
  define api where "api = \<lparr>paDeserialize = \<lambda>_. Inr \<lparr>tvGuardianSet = 4, tvSignatures = []\<rparr>, paTransceiver = \<lambda>_ _ _. Inr (Some False),
    paPostSignatures = Inr (), paCreateReceive = Inr (), paCloseSignatures = Inr (), paPostVaa = ([False], None), paGenerate = [],
    paSend = \<lambda>_ _. Inr ''s'', paConfirm = \<lambda>_ _. Inr (), paExpired = \<lambda>_ _. False, paBlockhash = \<lambda>_. Inr ''b''\<rparr>"
  define input where "input = \<lparr>prVaaBytes = [], prTransceiverMessagePda = [1], prManager = [2], prToken = [3], prTransceiver = [2],
    prExpectedOwner = [2]\<rparr>"
  have "\<exists>sent cache'. prepareTransceiverMessage api (model_ctx model_env [] (Inl (Primitive [])) []) [] input = (Prepared [''s'', ''s''], sent, cache')"
    by (simp add: prepareTransceiverMessage_def api_def input_def model_ctx_def timedAccountOrNull_def withTimeout_def
        catch_def getOrCreateNtt_def withoutShim_def postStep_def pbind_def submit_def timed_def pure_def prepResult_def Let_def)
  then obtain sent cache' where p: "prepareTransceiverMessage api (model_ctx model_env [] (Inl (Primitive [])) []) [] input = (Prepared [''s'', ''s''], sent, cache')" by blast
  from prepare_outcome [OF p] have "receives (last sent)" "list_all (Not \<circ> receives) (butlast sent)" by (simp_all add: Let_def)
  with p show ?thesis by blast
qed

end
