(* ===== verification/Intent.thy ===== *)
theory Intent
  imports Signed_Intent Ntt
begin

text \<open>
  The FOGO intent builders: \<open>packages/sdk/src/builders/intent-transfer.ts\<close> (the message the user signs, the
  Ed25519 verifier instruction, \<open>bridge_ntt_tokens\<close> and \<open>update_fee_config\<close>) and
  \<open>packages/sdk/src/builders/fogo-redeem-intent.ts\<close>, which composes them for a withdrawal. The Ed25519
  instruction builder of web3.js and two program addresses are parameters (\<open>intent_env\<close>).
\<close>

record TransactionInstruction =
  tiProgramId :: pubkey
  tiKeys :: "AccountMeta list"
  tiData :: bytes

record intent_env =
  ED25519_PROGRAM_ID :: pubkey
  createInstructionWithPublicKey :: "pubkey \<Rightarrow> bytes \<Rightarrow> bytes \<Rightarrow> TransactionInstruction result"
  SYSVAR_INSTRUCTIONS_PUBKEY :: pubkey
  ASSOCIATED_TOKEN_PROGRAM_ID :: pubkey

section \<open>The signed message\<close>

definition INTENT_VERSION_MAJOR :: nat where "INTENT_VERSION_MAJOR = 0"
definition INTENT_VERSION_MINOR :: nat where "INTENT_VERSION_MINOR = 3"

definition BRIDGE_OUT_MESSAGE_HEADER :: string where
  "BRIDGE_OUT_MESSAGE_HEADER = ''Fogo Bridge'' @ [newline]"

record BuildBridgeOutIntentMessageParams =
  imFromChainId :: string
  imToChainId :: string
  imTokenSymbolOrMint :: string
  imAmount :: string
  imFeeTokenSymbolOrMint :: string
  imFeeAmount :: string
  imMinOut :: int
  imNonce :: int

text \<open>\<open>lines.join('\\n')\<close>\<close>

fun join_lines :: "string list \<Rightarrow> string" where
  "join_lines [] = []"
| "join_lines [l] = l"
| "join_lines (l # ls) = l @ newline # join_lines ls"

definition intentLines :: "BuildBridgeOutIntentMessageParams \<Rightarrow> string list" where
  "intentLines ps =
     [BRIDGE_OUT_MESSAGE_HEADER,
      ''version: '' @ dec_of_nat INTENT_VERSION_MAJOR @ ''.'' @ dec_of_nat INTENT_VERSION_MINOR,
      ''from_chain_id: '' @ imFromChainId ps,
      ''to_chain_id: '' @ imToChainId ps,
      ''token: '' @ imTokenSymbolOrMint ps,
      ''amount: '' @ imAmount ps,
      ''min_out: '' @ bigint_toString (imMinOut ps),
      ''fee_token: '' @ imFeeTokenSymbolOrMint ps,
      ''fee_amount: '' @ imFeeAmount ps,
      ''nonce: '' @ bigint_toString (imNonce ps)]"

definition buildBridgeOutIntentMessage :: "BuildBridgeOutIntentMessageParams \<Rightarrow> bytes" where
  "buildBridgeOutIntentMessage ps = utf8 (join_lines (intentLines ps))"

section \<open>The verifier instruction\<close>

definition ED25519_HEADER_LEN :: nat where "ED25519_HEADER_LEN = 16"

definition indexOfBytes :: "bytes \<Rightarrow> bytes \<Rightarrow> nat option" where
  "indexOfBytes haystack needle = index_of haystack needle"

definition verifierData :: "bytes \<Rightarrow> bytes \<Rightarrow> nat \<Rightarrow> bytes" where
  "verifierData signature message embeddedAt =
     (let signatureOffset = ED25519_HEADER_LEN;
          messageOffset = signatureOffset + length signature;
          data = replicate (messageOffset + length message) 0;
          data = put data 0 [1];
          data = put data 1 [0];
          data = put data 2 (nat_le 2 signatureOffset);
          data = put data 4 (nat_le 2 CURRENT_IX);
          data = put data 6 (nat_le 2 (messageOffset + embeddedAt));
          data = put data 8 (nat_le 2 CURRENT_IX);
          data = put data 10 (nat_le 2 messageOffset);
          data = put data 12 (nat_le 2 (length message));
          data = put data 14 (nat_le 2 CURRENT_IX);
          data = put data signatureOffset signature
      in put data messageOffset message)"

definition buildIntentVerifierIx ::
  "intent_env \<Rightarrow> pubkey \<Rightarrow> bytes \<Rightarrow> bytes \<Rightarrow> TransactionInstruction result" where
  "buildIntentVerifierIx ie walletPublicKey signature message =
     (case indexOfBytes message walletPublicKey of
        None \<Rightarrow> createInstructionWithPublicKey ie walletPublicKey signature message
      | Some embeddedAt \<Rightarrow>
          Inr \<lparr>tiProgramId = ED25519_PROGRAM_ID ie, tiKeys = [],
               tiData = verifierData signature message embeddedAt\<rparr>)"

section \<open>\<open>bridge_ntt_tokens\<close>\<close>

definition BRIDGE_NTT_TOKENS_DISCRIMINATOR :: byte where "BRIDGE_NTT_TOKENS_DISCRIMINATOR = 0x01"

record NttBridgeSubAccounts =
  nbNttManager :: pubkey
  nbNttConfig :: pubkey
  nbNttInboxRateLimit :: pubkey
  nbNttSessionAuthority :: pubkey
  nbNttTokenAuthority :: pubkey
  nbWormholeMessage :: pubkey
  nbTransceiver :: pubkey
  nbEmitter :: pubkey
  nbWormholeBridge :: pubkey
  nbWormholeFeeCollector :: pubkey
  nbWormholeSequence :: pubkey
  nbWormholeProgram :: pubkey
  nbNttWithExecutorProgram :: pubkey
  nbExecutorProgram :: pubkey
  nbNttPeer :: pubkey
  nbNttOutboxItem :: pubkey
  nbNttOutboxRateLimit :: pubkey
  nbNttCustody :: pubkey
  nbPayeeNttWithExecutor :: pubkey

record BuildBridgeNttIxParams =
  bnFromChainId :: pubkey
  bnIntentTransferSetter :: pubkey
  bnSource :: pubkey
  bnIntermediateTokenAccount :: pubkey
  bnMint :: pubkey
  bnMetadata :: "pubkey option"
  bnExpectedNttConfig :: pubkey
  bnNonce :: pubkey
  bnSponsor :: pubkey
  bnFeeSource :: pubkey
  bnFeeDestination :: pubkey
  bnFeeMint :: pubkey
  bnFeeMetadata :: "pubkey option"
  bnFeeConfig :: pubkey
  bnSignerOrSession :: pubkey
  bnProgramSigner :: pubkey
  bnNtt :: NttBridgeSubAccounts
  bnSignedQuoteBytes :: bytes
  bnPayDestinationAtaRent :: bool

definition bridgeNttKeys :: "web3_env \<Rightarrow> intent_env \<Rightarrow> BuildBridgeNttIxParams \<Rightarrow> AccountMeta list" where
  "bridgeNttKeys env ie ps =
     (let PUBKEY_NULL = SYSTEM_PROGRAM_ID env; n = bnNtt ps in
      [readonly (bnFromChainId ps),
       readonly (SYSVAR_INSTRUCTIONS_PUBKEY ie),
       readonly (bnIntentTransferSetter ps),
       writable (bnSource ps),
       writable (bnIntermediateTokenAccount ps),
       writable (bnMint ps),
       readonly (case bnMetadata ps of None \<Rightarrow> PUBKEY_NULL | Some m \<Rightarrow> m),
       readonly (bnExpectedNttConfig ps),
       writable (bnNonce ps),
       signerWritable (bnSponsor ps),
       readonly (bnFeeConfig ps),
       writable (bnFeeSource ps),
       writable (bnFeeDestination ps),
       readonly (bnFeeMint ps),
       readonly (case bnFeeMetadata ps of None \<Rightarrow> PUBKEY_NULL | Some m \<Rightarrow> m),
       readonly (SYSTEM_PROGRAM_ID env),
       readonly (TOKEN_PROGRAM_ID env),
       readonly (ASSOCIATED_TOKEN_PROGRAM_ID ie),
       \<lparr>amPubkey = bnSignerOrSession ps, amIsSigner = True, amIsWritable = False\<rparr>,
       readonly (bnProgramSigner ps),
       readonly (SYSVAR_CLOCK_PUBKEY env),
       readonly (SYSVAR_RENT_PUBKEY env),
       readonly (nbNttManager n),
       readonly (nbNttConfig n),
       writable (nbNttInboxRateLimit n),
       readonly (nbNttSessionAuthority n),
       readonly (nbNttTokenAuthority n),
       writable (nbWormholeMessage n),
       readonly (nbTransceiver n),
       readonly (nbEmitter n),
       writable (nbWormholeBridge n),
       writable (nbWormholeFeeCollector n),
       writable (nbWormholeSequence n),
       readonly (nbWormholeProgram n),
       readonly (nbNttWithExecutorProgram n),
       readonly (nbExecutorProgram n),
       readonly (nbNttPeer n),
       \<lparr>amPubkey = nbNttOutboxItem n, amIsSigner = True, amIsWritable = True\<rparr>,
       writable (nbNttOutboxRateLimit n),
       writable (nbNttCustody n),
       writable (nbPayeeNttWithExecutor n)])"

definition buildBridgeNttTokensIx ::
  "web3_env \<Rightarrow> intent_env \<Rightarrow> pubkey \<Rightarrow> BuildBridgeNttIxParams \<Rightarrow> TransactionInstruction result" where
  "buildBridgeNttTokensIx env ie programId ps =
     (if length (bnSignedQuoteBytes ps) \<noteq> 165 then Inl (Error ''signedQuoteBytes must be exactly 165 bytes'')
      else
        let data = replicate (1 + 165 + 1) 0;
            data = put data 0 [BRIDGE_NTT_TOKENS_DISCRIMINATOR];
            data = put data 1 (bnSignedQuoteBytes ps);
            data = put data (1 + 165) [if bnPayDestinationAtaRent ps then 1 else 0]
        in Inr \<lparr>tiProgramId = programId, tiKeys = bridgeNttKeys env ie ps, tiData = data\<rparr>)"

section \<open>\<open>update_fee_config\<close>\<close>

definition UPDATE_FEE_CONFIG_DISCRIMINATOR :: byte where "UPDATE_FEE_CONFIG_DISCRIMINATOR = 0x05"

definition FEE_CONFIG_SEED :: bytes where "FEE_CONFIG_SEED = utf8 ''fee_config''"

definition BPF_LOADER_UPGRADEABLE_ID :: pubkey where
  "BPF_LOADER_UPGRADEABLE_ID = pk58 ''BPFLoaderUpgradeab1e11111111111111111111111''"

definition findFeeConfigPda :: "web3_env \<Rightarrow> pubkey \<Rightarrow> pubkey \<Rightarrow> pubkey result" where
  "findFeeConfigPda env intentTransferProgramId mint =
     key_of (fpa env [FEE_CONFIG_SEED, mint] intentTransferProgramId)"

record BuildUpdateFeeConfigIxParams =
  ufIntentTransferProgramId :: pubkey
  ufUpgradeAuthority :: pubkey
  ufMint :: pubkey
  ufFeeRecipient :: pubkey
  ufIntrachainTransferFee :: int
  ufBridgeTransferFee :: int

text \<open>\<open>Buffer.writeBigUInt64LE\<close> throws outside the u64 range.\<close>

definition writeBigUInt64LE :: "bytes \<Rightarrow> nat \<Rightarrow> int \<Rightarrow> bytes result" where
  "writeBigUInt64LE data off v =
     (if v < 0 \<or> v > U64_MAX then Inl (RangeError ''The value is out of range'') else Inr (put data off (u64_le v)))"

definition buildUpdateFeeConfigIx ::
  "web3_env \<Rightarrow> BuildUpdateFeeConfigIxParams \<Rightarrow> TransactionInstruction result" where
  "buildUpdateFeeConfigIx env ps =
     (let programId = ufIntentTransferProgramId ps in
      rbind (key_of (fpa env [programId] BPF_LOADER_UPGRADEABLE_ID)) (\<lambda>programData.
      rbind (findFeeConfigPda env programId (ufMint ps)) (\<lambda>feeConfig.
      let keys = [signerWritable (ufUpgradeAuthority ps), readonly programData, readonly (ufMint ps),
                  writable feeConfig, readonly (SYSTEM_PROGRAM_ID env)];
          data = put (replicate (1 + 8 + 8 + 32) 0) 0 [UPDATE_FEE_CONFIG_DISCRIMINATOR]
      in rbind (writeBigUInt64LE data 1 (ufIntrachainTransferFee ps)) (\<lambda>data.
         rbind (writeBigUInt64LE data 9 (ufBridgeTransferFee ps)) (\<lambda>data.
           Inr \<lparr>tiProgramId = programId, tiKeys = keys, tiData = put data 17 (ufFeeRecipient ps)\<rparr>)))))"

section \<open>The withdrawal intent\<close>

record FogoRedeemIntentResult =
  riRecipientAddress :: pubkey
  riMessage :: bytes
  riVerifierIx :: TransactionInstruction
  riBridgeIx :: TransactionInstruction
  riMemoIx :: TransactionInstruction
  riIxs :: "TransactionInstruction list"

record BuildFogoRedeemIntentParams =
  frUserWallet :: pubkey
  frSignMessage :: "bytes \<Rightarrow> bytes result"
  frIntent :: BuildBridgeOutIntentMessageParams
  frMinSwapOut :: int
  frBridge :: BuildBridgeNttIxParams
  frIntentTransferProgramId :: "pubkey option"
  frRelayerProgramId :: "pubkey option"

definition buildFogoRedeemIntentIx ::
  "web3_env \<Rightarrow> intent_env \<Rightarrow> BuildFogoRedeemIntentParams \<Rightarrow> FogoRedeemIntentResult result" where
  "buildFogoRedeemIntentIx env ie ps =
     (let intentTransferProgramId =
            (case frIntentTransferProgramId ps of None \<Rightarrow> ONRE_INTENT_PROGRAM_ID | Some p \<Rightarrow> p);
          relayerProgramId = (case frRelayerProgramId ps of None \<Rightarrow> RELAYER_PROGRAM_ID | Some p \<Rightarrow> p)
      in rbind (key_of (findUserInboxWithMinPda env (frUserWallet ps) (frMinSwapOut ps) relayerProgramId))
           (\<lambda>recipientAddress.
         let message = buildBridgeOutIntentMessage ((frIntent ps)\<lparr>imMinOut := frMinSwapOut ps\<rparr>) in
         rbind (frSignMessage ps message) (\<lambda>signature.
         rbind (buildIntentVerifierIx ie (frUserWallet ps) signature message) (\<lambda>verifierIx.
         rbind (buildBridgeNttTokensIx env ie intentTransferProgramId (frBridge ps)) (\<lambda>bridgeIx.
         rbind (buildMinSwapOutMemoIx (frMinSwapOut ps)) (\<lambda>(memoProgram, memoData).
         let memoIx = \<lparr>tiProgramId = memoProgram, tiKeys = [], tiData = memoData\<rparr> in
           Inr \<lparr>riRecipientAddress = recipientAddress, riMessage = message, riVerifierIx = verifierIx,
                riBridgeIx = bridgeIx, riMemoIx = memoIx, riIxs = [memoIx, verifierIx, bridgeIx]\<rparr>))))))"

section \<open>The floor survives the signed message\<close>

definition intent_clean :: "BuildBridgeOutIntentMessageParams \<Rightarrow> bool" where
  "intent_clean ps \<longleftrightarrow> clean (imFromChainId ps) \<and> clean (imToChainId ps) \<and> clean (imTokenSymbolOrMint ps) \<and>
     clean (imAmount ps) \<and> clean (imFeeTokenSymbolOrMint ps) \<and> clean (imFeeAmount ps)"

lemma clean_literals:
  "clean ''Fogo Bridge''" "clean ''version: ''" "clean ''.''" "clean ''from_chain_id: ''" "clean ''to_chain_id: ''"
  "clean ''token: ''" "clean ''amount: ''" "clean ''fee_token: ''" "clean ''fee_amount: ''" "clean ''nonce: ''"
  "clean MIN_OUT_KEY"
  by (simp_all add: clean_def ascii_def newline_def MIN_OUT_KEY_def)

lemma scan_line: "clean l \<Longrightarrow> \<not> is_prefix MIN_OUT_KEY (l @ t) \<Longrightarrow>
    matchAllMinOut False (newline # l @ t) = matchAllMinOut False t"
  by (simp add: scan_newline scan_skip clean_def)

lemma scan_body: "clean l \<Longrightarrow> matchAllMinOut False (l @ t) = matchAllMinOut False t"
  by (simp add: scan_skip clean_def)

definition intentHead :: "BuildBridgeOutIntentMessageParams \<Rightarrow> string list" where
  "intentHead ps =
     [''version: '' @ dec_of_nat INTENT_VERSION_MAJOR @ ''.'' @ dec_of_nat INTENT_VERSION_MINOR,
      ''from_chain_id: '' @ imFromChainId ps, ''to_chain_id: '' @ imToChainId ps,
      ''token: '' @ imTokenSymbolOrMint ps, ''amount: '' @ imAmount ps]"

definition intentTail :: "BuildBridgeOutIntentMessageParams \<Rightarrow> string list" where
  "intentTail ps =
     [''fee_amount: '' @ imFeeAmount ps, ''nonce: '' @ bigint_toString (imNonce ps)]"

definition lines_text :: "string list \<Rightarrow> string" where
  "lines_text ls = concat (map (\<lambda>l. newline # l) ls)"

lemma scan_lines:
  "list_all (\<lambda>l. clean l \<and> l \<noteq> [] \<and> hd l \<noteq> CHR ''m'') ls \<Longrightarrow>
     matchAllMinOut False (lines_text ls @ t) = matchAllMinOut False t"
proof (induction ls)
  case (Cons l ls)
  then obtain c cs where l: "l = c # cs" "c \<noteq> CHR ''m''" by (cases l) auto
  have "\<not> is_prefix MIN_OUT_KEY (l @ lines_text ls @ t)" by (simp add: l is_prefix_def MIN_OUT_KEY_def)
  with Cons show ?case using scan_line [of l "lines_text ls @ t"] by (simp add: lines_text_def)
qed (simp add: lines_text_def)

lemma intent_text:
  "join_lines (intentLines ps) =
     ''Fogo Bridge'' @ newline # lines_text (intentHead ps) @ newline # MIN_OUT_KEY @ bigint_toString (imMinOut ps) @
     newline # (''fee_token: '' @ imFeeTokenSymbolOrMint ps) @ lines_text (intentTail ps)"
  by (simp add: intentLines_def BRIDGE_OUT_MESSAGE_HEADER_def intentHead_def intentTail_def lines_text_def MIN_OUT_KEY_def)

lemma heads_ok:
  assumes "intent_clean ps"
  shows "list_all (\<lambda>l. clean l \<and> l \<noteq> [] \<and> hd l \<noteq> CHR ''m'') (intentHead ps)"
    and "list_all (\<lambda>l. clean l \<and> l \<noteq> [] \<and> hd l \<noteq> CHR ''m'') (intentTail ps)"
  using assms clean_literals
  by (simp_all add: intentHead_def intentTail_def clean_append clean_dec clean_toString intent_clean_def
      del: append_Cons)

lemma ascii_lines: "list_all (\<lambda>l. clean l \<and> l \<noteq> [] \<and> hd l \<noteq> CHR ''m'') ls \<Longrightarrow> ascii (lines_text ls)"
  by (induction ls) (auto simp: lines_text_def clean_def ascii_def newline_def)

lemma intent_scan:
  assumes "intent_clean ps" "0 \<le> imMinOut ps"
  shows "matchAllMinOut True (join_lines (intentLines ps)) = [bigint_toString (imMinOut ps)]"
proof -
  note h = heads_ok [OF assms(1)]
  let ?d = "bigint_toString (imMinOut ps)"
  let ?fee = "''fee_token: '' @ imFeeTokenSymbolOrMint ps"
  let ?rest = "?fee @ lines_text (intentTail ps)"
  have fee: "clean ?fee" using assms(1) clean_literals by (simp add: clean_append intent_clean_def del: append_Cons)
  have "matchAllMinOut True (join_lines (intentLines ps)) = matchAllMinOut False (join_lines (intentLines ps))"
    by (rule scan_start) (simp_all add: intent_text is_prefix_def MIN_OUT_KEY_def newline_def)
  also have "\<dots> = matchAllMinOut False (newline # lines_text (intentHead ps) @ newline # MIN_OUT_KEY @ ?d @ newline # ?rest)"
    unfolding intent_text by (rule scan_body) (rule clean_literals)
  also have "\<dots> = matchAllMinOut False (lines_text (intentHead ps) @ newline # MIN_OUT_KEY @ ?d @ newline # ?rest)"
    by (rule scan_newline) (simp add: intentHead_def lines_text_def is_prefix_def MIN_OUT_KEY_def newline_def)
  also have "\<dots> = matchAllMinOut False (newline # MIN_OUT_KEY @ ?d @ newline # ?rest)"
    by (rule scan_lines [OF h(1)])
  also have "\<dots> = ?d # matchAllMinOut False ?rest"
    by (rule scan_match) (rule canonical_toString [OF assms(2)])
  also have "matchAllMinOut False ?rest = []"
    using scan_body [OF fee, of "lines_text (intentTail ps)"] scan_lines [OF h(2), of "[]"] by (simp add: scan_nil)
  finally show ?thesis .
qed

lemma intent_ascii: "intent_clean ps \<Longrightarrow> ascii (join_lines (intentLines ps))"
  using ascii_lines [OF heads_ok(1), of ps] ascii_lines [OF heads_ok(2), of ps] clean_toString [of "imMinOut ps"]
  by (simp add: intent_text intent_clean_def clean_def ascii_def newline_def MIN_OUT_KEY_def)

lemma intent_floors:
  assumes "intent_clean ps" "0 \<le> imMinOut ps" "imMinOut ps \<le> U64_MAX"
  shows "parseSignedMinOuts (buildBridgeOutIntentMessage ps) = [imMinOut ps]"
  using assms(2,3) intent_scan [OF assms(1,2)] textDecode_ascii [OF intent_ascii [OF assms(1)]]
  by (simp add: parseSignedMinOuts_def buildBridgeOutIntentMessage_def bigint_toString_def)

text \<open>The floor the user signs is the floor the cranker reads: whenever the other fields of the intent
  are plain one-line text, the floors recovered from the signed message are exactly the one that was
  put in.\<close>

theorem signed_floor_round_trip:
  assumes "intent_clean ps" "0 \<le> imMinOut ps" "imMinOut ps \<le> U64_MAX"
  shows "parseSignedMinOuts (buildBridgeOutIntentMessage ps) = [imMinOut ps]"
  by (rule intent_floors [OF assms])

theorem signed_floor_round_trip_witness:
  "parseSignedMinOuts (buildBridgeOutIntentMessage
     \<lparr>imFromChainId = ''fogo'', imToChainId = ''solana'', imTokenSymbolOrMint = ''USDC'', imAmount = ''12.5'',
      imFeeTokenSymbolOrMint = ''USDC'', imFeeAmount = ''0.1'', imMinOut = 990000000, imNonce = 7\<rparr>) = [990000000]"
  by (subst signed_floor_round_trip) (simp_all add: intent_clean_def clean_def ascii_def newline_def U64_MAX_def)

section \<open>The verifier instruction carries the message\<close>

lemma put_zeros:
  "length xs = off \<Longrightarrow> length ys \<le> m \<Longrightarrow>
     put (xs @ replicate m 0) off ys = (xs @ ys) @ replicate (m - length ys) 0"
  by (simp add: put_def)

lemma put_zeros0: "length ys \<le> m \<Longrightarrow> put (replicate m 0) 0 ys = ys @ replicate (m - length ys) 0"
  by (simp add: put_def)

definition verifierHeader :: "bytes \<Rightarrow> bytes \<Rightarrow> nat \<Rightarrow> bytes" where
  "verifierHeader signature message embeddedAt =
     [1, 0] @ nat_le 2 16 @ nat_le 2 CURRENT_IX @ nat_le 2 (16 + length signature + embeddedAt) @
     nat_le 2 CURRENT_IX @ nat_le 2 (16 + length signature) @ nat_le 2 (length message) @ nat_le 2 CURRENT_IX"

lemma verifierData_eq:
  "verifierData signature message embeddedAt = verifierHeader signature message embeddedAt @ signature @ message"
proof -
  let ?N = "length signature + length message"
  have N: "16 + length signature + length message = 16 + ?N" by simp
  show ?thesis
    unfolding verifierData_def Let_def ED25519_HEADER_LEN_def N
    by (subst put_zeros0, simp, (subst put_zeros, simp, simp)+) (simp add: verifierHeader_def)
qed

lemma length_verifierHeader [simp]: "length (verifierHeader s m e) = 16"
  by (simp add: verifierHeader_def)

lemma u16_at_append:
  assumes "length pre = off" "v < 65536"
  shows "u16_at (pre @ nat_le 2 v @ post) off = v"
  using assms by (simp add: u16_at_def bslice_def le_nat_nat_le)

lemma verifier_fields:
  assumes "16 + length signature + length message < 65536" "e < length message"
  shows "unat (verifierData signature message e ! 0) = 1"
    and "u16_at (verifierData signature message e) 2 = 16"
    and "u16_at (verifierData signature message e) 6 = 16 + length signature + e"
    and "u16_at (verifierData signature message e) 10 = 16 + length signature"
    and "u16_at (verifierData signature message e) 12 = length message"
    and "u16_at (verifierData signature message e) 14 = CURRENT_IX"
proof -
  let ?s = signature and ?m = message
  show "unat (verifierData ?s ?m e ! 0) = 1" by (simp add: verifierData_eq verifierHeader_def)
  show "u16_at (verifierData ?s ?m e) 2 = 16"
    using u16_at_append [of "[1, 0]" 2 16] by (simp add: verifierData_eq verifierHeader_def)
  show "u16_at (verifierData ?s ?m e) 6 = 16 + length ?s + e"
    using u16_at_append [of "[1, 0] @ nat_le 2 16 @ nat_le 2 CURRENT_IX" 6 "16 + length ?s + e"] assms
    by (simp add: verifierData_eq verifierHeader_def)
  show "u16_at (verifierData ?s ?m e) 10 = 16 + length ?s"
    using u16_at_append [of "[1, 0] @ nat_le 2 16 @ nat_le 2 CURRENT_IX @ nat_le 2 (16 + length ?s + e) @
        nat_le 2 CURRENT_IX" 10 "16 + length ?s"] assms
    by (simp add: verifierData_eq verifierHeader_def)
  show "u16_at (verifierData ?s ?m e) 12 = length ?m"
    using u16_at_append [of "[1, 0] @ nat_le 2 16 @ nat_le 2 CURRENT_IX @ nat_le 2 (16 + length ?s + e) @
        nat_le 2 CURRENT_IX @ nat_le 2 (16 + length ?s)" 12 "length ?m"] assms
    by (simp add: verifierData_eq verifierHeader_def)
  show "u16_at (verifierData ?s ?m e) 14 = CURRENT_IX"
    using u16_at_append [of "[1, 0] @ nat_le 2 16 @ nat_le 2 CURRENT_IX @ nat_le 2 (16 + length ?s + e) @
        nat_le 2 CURRENT_IX @ nat_le 2 (16 + length ?s) @ nat_le 2 (length ?m)" 14 CURRENT_IX]
    by (simp add: verifierData_eq verifierHeader_def CURRENT_IX_def)
qed

text \<open>When the wallet's key already stands inside the signed message, the compact verifier instruction
  is sound: the offsets in its header lead to the signature, to the wallet's key and to the whole message, and
  the reader finds exactly that one inline message.\<close>

theorem compact_verifier_sound:
  assumes "buildIntentVerifierIx ie wallet signature message = Inr ix"
    and "indexOfBytes message wallet = Some e" "length wallet = 32"
    and "16 + length signature + length message < 65536"
  shows "ed25519InlineMessages (tiData ix) = [message] \<and>
    (let d = tiData ix in
       bslice d (u16_at d 2) (u16_at d 2 + length signature) = signature \<and>
       bslice d (u16_at d 6) (u16_at d 6 + 32) = wallet)"
proof -
  let ?d = "verifierData signature message e"
  have ix: "tiData ix = ?d" using assms(1,2) by (auto simp: buildIntentVerifierIx_def)
  from assms(2,3) have w: "bslice message e (e + 32) = wallet" "e + 32 \<le> length message"
    using index_of_Some [of message wallet e] by (simp_all add: indexOfBytes_def)
  then have e: "e < length message" by simp
  note f = verifier_fields [OF assms(4) e]
  have len: "length ?d = 16 + length signature + length message" by (simp add: verifierData_eq)
  have sig: "bslice ?d 16 (16 + length signature) = signature"
    using bslice_append_exact [of "verifierHeader signature message e" 16 "16 + length signature" signature message]
    by (simp add: verifierData_eq)
  have msg: "bslice ?d (16 + length signature) (16 + length signature + length message) = message"
    using bslice_append_exact [of "verifierHeader signature message e @ signature" "16 + length signature"
        "16 + length signature + length message" message "[]"]
    by (simp add: verifierData_eq)
  have "bslice ?d (16 + length signature + e) (16 + length signature + e + 32) = bslice message e (e + 32)"
    by (simp add: verifierData_eq bslice_def)
  then have key: "bslice ?d (u16_at ?d 6) (u16_at ?d 6 + 32) = wallet" using w(1) f(3) by simp
  have "ed25519InlineMessages ?d = [message]"
    using f msg len by (simp add: ed25519InlineMessages_def ed25519_consts)
  with sig key f(2) show ?thesis unfolding ix by (simp add: Let_def)
qed

theorem compact_verifier_sound_witness:
  "let wallet = replicate 32 5; message = [1, 2] @ wallet @ [3]; signature = replicate 64 9;
       ie = \<lparr>ED25519_PROGRAM_ID = [], createInstructionWithPublicKey = \<lambda>_ _ _. Inl (Error ''unused''),
             SYSVAR_INSTRUCTIONS_PUBKEY = [], ASSOCIATED_TOKEN_PROGRAM_ID = []\<rparr>
   in \<exists>ix. buildIntentVerifierIx ie wallet signature message = Inr ix \<and>
        ed25519InlineMessages (tiData ix) = [message]"
proof -
  let ?w = "replicate 32 5 :: bytes" and ?s = "replicate 64 9 :: bytes"
  let ?m = "[1, 2] @ ?w @ [3]"
  let ?ie = "\<lparr>ED25519_PROGRAM_ID = [], createInstructionWithPublicKey = \<lambda>_ _ _. Inl (Error ''unused''),
             SYSVAR_INSTRUCTIONS_PUBKEY = [], ASSOCIATED_TOKEN_PROGRAM_ID = []\<rparr>"
  have i: "indexOfBytes ?m ?w = Some 2" by code_simp
  then obtain ix where ix: "buildIntentVerifierIx ?ie ?w ?s ?m = Inr ix" by (simp add: buildIntentVerifierIx_def)
  from compact_verifier_sound [OF ix i] ix show ?thesis by (auto simp: Let_def)
qed

text \<open>When the message does not hold the key, \<open>Ed25519Program.createInstructionWithPublicKey\<close> of \<open>web3.js\<close> builds the instruction. Its
  documented layout: the header with one signature and the offsets, then key, signature and message.\<close>

definition ed25519_layout :: "intent_env \<Rightarrow> bool" where
  "ed25519_layout ie \<longleftrightarrow>
     (\<forall>pk sig m ix. length pk = 32 \<and> length sig = 64 \<and> createInstructionWithPublicKey ie pk sig m = Inr ix \<longrightarrow>
        tiProgramId ix = ED25519_PROGRAM_ID ie \<and>
        tiData ix = [1, 0] @ nat_le 2 48 @ nat_le 2 CURRENT_IX @ nat_le 2 16 @ nat_le 2 CURRENT_IX @ nat_le 2 112 @
          nat_le 2 (length m) @ nat_le 2 CURRENT_IX @ pk @ sig @ m)"

lemma full_verifier_messages:
  assumes "length pk = 32" "length sig = 64" "length m < 65536"
    and "d = [1, 0] @ nat_le 2 48 @ nat_le 2 CURRENT_IX @ nat_le 2 16 @ nat_le 2 CURRENT_IX @ nat_le 2 112 @
          nat_le 2 (length m) @ nat_le 2 CURRENT_IX @ pk @ sig @ m"
  shows "ed25519InlineMessages d = [m]"
proof -
  let ?h = "[1, 0] @ nat_le 2 48 @ nat_le 2 CURRENT_IX @ nat_le 2 16 @ nat_le 2 CURRENT_IX"
  have f: "u16_at d 10 = 112" "u16_at d 12 = length m" "u16_at d 14 = CURRENT_IX"
    using u16_at_append [of ?h 10 112] u16_at_append [of "?h @ nat_le 2 112" 12 "length m"]
      u16_at_append [of "?h @ nat_le 2 112 @ nat_le 2 (length m)" 14 CURRENT_IX] assms(3,4)
    by (simp_all add: CURRENT_IX_def)
  have n: "unat (d ! 0) = 1" "length d = 112 + length m" using assms by simp_all
  have "bslice d 112 (112 + length m) = m"
    using bslice_append_exact [of "?h @ nat_le 2 112 @ nat_le 2 (length m) @ nat_le 2 CURRENT_IX @ pk @ sig" 112 "112 + length m" m "[]"] assms
    by simp
  with f n show ?thesis by (simp add: ed25519InlineMessages_def ed25519_consts)
qed

text \<open>Either way the instruction carries exactly the message.\<close>

lemma verifier_messages:
  assumes "buildIntentVerifierIx ie wallet signature message = Inr ix" "ed25519_layout ie"
    and "length wallet = 32" "length signature = 64" "112 + length message < 65536"
  shows "ed25519InlineMessages (tiData ix) = [message]" "tiProgramId ix = ED25519_PROGRAM_ID ie"
proof -
  have "ed25519InlineMessages (tiData ix) = [message] \<and> tiProgramId ix = ED25519_PROGRAM_ID ie"
  proof (cases "indexOfBytes message wallet")
    case None
    with assms(1) have "createInstructionWithPublicKey ie wallet signature message = Inr ix" by (simp add: buildIntentVerifierIx_def)
    with assms(2-4) have "tiProgramId ix = ED25519_PROGRAM_ID ie" "tiData ix = [1, 0] @ nat_le 2 48 @ nat_le 2 CURRENT_IX @ nat_le 2 16 @
        nat_le 2 CURRENT_IX @ nat_le 2 112 @ nat_le 2 (length message) @ nat_le 2 CURRENT_IX @ wallet @ signature @ message"
      unfolding ed25519_layout_def by blast+
    with full_verifier_messages [OF assms(3,4) _ this(2)] assms(5) show ?thesis by simp
  next
    case (Some e)
    with compact_verifier_sound [OF assms(1) Some assms(3)] assms(1,4,5) show ?thesis by (auto simp: buildIntentVerifierIx_def)
  qed
  then show "ed25519InlineMessages (tiData ix) = [message]" "tiProgramId ix = ED25519_PROGRAM_ID ie" by auto
qed

section \<open>A withdrawal commits to one floor\<close>

text \<open>A withdrawal that can be built: every address the same key, a wallet that signs anything.\<close>

definition model_bridge :: BuildBridgeNttIxParams where
  "model_bridge = (let k = replicate 32 200; n = \<lparr>nbNttManager = k, nbNttConfig = k, nbNttInboxRateLimit = k,
     nbNttSessionAuthority = k, nbNttTokenAuthority = k, nbWormholeMessage = k, nbTransceiver = k, nbEmitter = k,
     nbWormholeBridge = k, nbWormholeFeeCollector = k, nbWormholeSequence = k, nbWormholeProgram = k,
     nbNttWithExecutorProgram = k, nbExecutorProgram = k, nbNttPeer = k, nbNttOutboxItem = k, nbNttOutboxRateLimit = k,
     nbNttCustody = k, nbPayeeNttWithExecutor = k\<rparr>
     in \<lparr>bnFromChainId = k, bnIntentTransferSetter = k, bnSource = k, bnIntermediateTokenAccount = k, bnMint = k,
         bnMetadata = None, bnExpectedNttConfig = k, bnNonce = k, bnSponsor = k, bnFeeSource = k, bnFeeDestination = k,
         bnFeeMint = k, bnFeeMetadata = None, bnFeeConfig = k, bnSignerOrSession = k, bnProgramSigner = k, bnNtt = n,
         bnSignedQuoteBytes = replicate 165 0, bnPayDestinationAtaRent = True\<rparr>)"

definition model_redeem :: "pubkey \<Rightarrow> int \<Rightarrow> pubkey option \<Rightarrow> BuildFogoRedeemIntentParams" where
  "model_redeem wallet floor prog = \<lparr>frUserWallet = wallet, frSignMessage = \<lambda>_. Inr (replicate 64 1),
     frIntent = \<lparr>imFromChainId = ''fogo'', imToChainId = ''solana'', imTokenSymbolOrMint = ''ONyc'', imAmount = ''1.5'',
       imFeeTokenSymbolOrMint = ''USDC'', imFeeAmount = ''0.1'', imMinOut = 0, imNonce = 7\<rparr>,
     frMinSwapOut = floor, frBridge = model_bridge, frIntentTransferProgramId = None, frRelayerProgramId = prog\<rparr>"

definition model_intent_env :: intent_env where
  "model_intent_env = \<lparr>ED25519_PROGRAM_ID = replicate 32 200,
     createInstructionWithPublicKey = \<lambda>_ _ m. Inr \<lparr>tiProgramId = replicate 32 200, tiKeys = [], tiData = m\<rparr>,
     SYSVAR_INSTRUCTIONS_PUBKEY = replicate 32 200, ASSOCIATED_TOKEN_PROGRAM_ID = replicate 32 200\<rparr>"

lemma model_redeem_builds:
  assumes "env_total env" "0 < floor" "floor \<le> U64_MAX"
  shows "\<exists>r. buildFogoRedeemIntentIx env model_intent_env (model_redeem wallet floor prog) = Inr r"
proof -
  have v: "\<exists>x. buildIntentVerifierIx model_intent_env w s m = Inr x" for w s m
    by (simp add: buildIntentVerifierIx_def model_intent_env_def split: option.split)
  have br: "\<exists>x. buildBridgeNttTokensIx env model_intent_env p model_bridge = Inr x" for p
    by (simp add: buildBridgeNttTokensIx_def model_bridge_def Let_def)
  have pda: "\<exists>x y. findUserInboxWithMinPda env wallet floor p = Inr (x, y)" for p
    using assms(1) by (simp add: findUserInboxWithMinPda_def env_total_def Let_def)
  show ?thesis
    using v [of wallet "replicate 64 1"] br pda assms(2,3)
    by (simp add: buildFogoRedeemIntentIx_def model_redeem_def Let_def result_simps key_of_def buildMinSwapOutMemoIx_def)
       blast
qed

text \<open>A withdrawal intent is built only for a positive u64 floor, and then its four carriers agree on
  it: the recipient is the inbox address of the wallet and that floor, the signed message states it and nothing
  else, the memo parses to it, and the transaction lists memo, verifier and bridge in this order.
  In particular a floor outside the range, whose inbox address would wrap around, is refused.\<close>

theorem redeem_intent_one_floor:
  assumes "intent_clean (frIntent ps)" "buildFogoRedeemIntentIx env ie ps = Inr r"
  shows "0 < frMinSwapOut ps \<and> frMinSwapOut ps \<le> U64_MAX \<and>
    (\<exists>b. findUserInboxWithMinPda env (frUserWallet ps) (frMinSwapOut ps)
       (case frRelayerProgramId ps of None \<Rightarrow> RELAYER_PROGRAM_ID | Some p \<Rightarrow> p) = Inr (riRecipientAddress r, b)) \<and>
    parseSignedMinOuts (riMessage r) = [frMinSwapOut ps] \<and>
    tiData (riMemoIx r) = utf8 (MIN_SWAP_OUT_MEMO_PREFIX @ bigint_toString (frMinSwapOut ps)) \<and>
    riIxs r = [riMemoIx r, riVerifierIx r, riBridgeIx r]"
proof -
  from assms(2) have fl: "0 < frMinSwapOut ps" "frMinSwapOut ps \<le> U64_MAX"
    and msg: "riMessage r = buildBridgeOutIntentMessage ((frIntent ps)\<lparr>imMinOut := frMinSwapOut ps\<rparr>)"
    and memo: "tiData (riMemoIx r) = utf8 (MIN_SWAP_OUT_MEMO_PREFIX @ bigint_toString (frMinSwapOut ps))"
    and ixs: "riIxs r = [riMemoIx r, riVerifierIx r, riBridgeIx r]"
    and pda: "\<exists>b. findUserInboxWithMinPda env (frUserWallet ps) (frMinSwapOut ps)
       (case frRelayerProgramId ps of None \<Rightarrow> RELAYER_PROGRAM_ID | Some p \<Rightarrow> p) = Inr (riRecipientAddress r, b)"
    by (auto simp: buildFogoRedeemIntentIx_def Let_def result_simps buildMinSwapOutMemoIx_def key_of_def split: if_splits)
  have "intent_clean ((frIntent ps)\<lparr>imMinOut := frMinSwapOut ps\<rparr>)"
    using assms(1) by (simp add: intent_clean_def)
  from intent_floors [OF this] fl have "parseSignedMinOuts (riMessage r) = [frMinSwapOut ps]"
    by (simp add: msg)
  with fl memo ixs pda show ?thesis by blast
qed

theorem redeem_intent_one_floor_witness:
  "\<exists>r. buildFogoRedeemIntentIx model_env model_intent_env (model_redeem (replicate 32 200) 42 None) = Inr r \<and>
     parseSignedMinOuts (riMessage r) = [42]"
proof -
  let ?ps = "model_redeem (replicate 32 200) 42 None"
  obtain r where r: "buildFogoRedeemIntentIx model_env model_intent_env ?ps = Inr r"
    using model_redeem_builds [OF model_env_total, of 42] by (auto simp: U64_MAX_def)
  have "intent_clean (frIntent ?ps)" by (simp add: model_redeem_def intent_clean_def clean_def ascii_def newline_def)
  from redeem_intent_one_floor [OF this r] have "parseSignedMinOuts (riMessage r) = [frMinSwapOut ?ps]" by blast
  with r show ?thesis by (auto simp: model_redeem_def)
qed

end
