(* ===== verification/Fogo_Redeem.thy ===== *)
theory Fogo_Redeem
  imports Intent Relayer_Base
begin

text \<open>
  The instructions that redeem a transfer on FOGO (\<open>packages/sdk/src/builders/fogo-redeem.ts\<close>) and the chunked
  account read (\<open>packages/sdk/src/rpc/accounts.ts\<close>).
\<close>

section \<open>Redeem and release\<close>

definition REDEEM_DISCRIMINATOR :: "web3_env \<Rightarrow> bytes" where
  "REDEEM_DISCRIMINATOR env = ixDiscriminator env ''redeem''"

definition RELEASE_INBOUND_MINT_DISCRIMINATOR :: "web3_env \<Rightarrow> bytes" where
  "RELEASE_INBOUND_MINT_DISCRIMINATOR env = ixDiscriminator env ''release_inbound_mint''"

definition RELEASE_INBOUND_UNLOCK_DISCRIMINATOR :: "web3_env \<Rightarrow> bytes" where
  "RELEASE_INBOUND_UNLOCK_DISCRIMINATOR env = ixDiscriminator env ''release_inbound_unlock''"

record BuildFogoNttRedeemIxParams =
  fnPayer :: pubkey
  fnNttManagerProgramId :: pubkey
  fnMint :: pubkey
  fnNttTransceiverMessage :: pubkey
  fnNttInboxItem :: pubkey
  fnTransceiverProgramId :: "pubkey option"

definition buildFogoNttRedeemIx :: "web3_env \<Rightarrow> BuildFogoNttRedeemIxParams \<Rightarrow> TransactionInstruction result" where
  "buildFogoNttRedeemIx env ps =
     (let prog = fnNttManagerProgramId ps; transceiverProgramId = ifNone (fnTransceiverProgramId ps) prog
      in rbind (key_of (findNttConfigPda env prog)) (\<lambda>configPda.
         rbind (key_of (findNttPeerPda env SOLANA_WORMHOLE_CHAIN_ID prog)) (\<lambda>peerPda.
         rbind (key_of (findRegisteredTransceiverPda env transceiverProgramId prog)) (\<lambda>registeredTransceiverPda.
         rbind (key_of (findInboxRateLimitPda env SOLANA_WORMHOLE_CHAIN_ID prog)) (\<lambda>inboxRateLimitPda.
         rbind (key_of (findOutboxRateLimitPda env prog)) (\<lambda>outboxRateLimitPda.
           Inr \<lparr>tiProgramId = prog,
                tiKeys =
                  [signerWritable (fnPayer ps),
                   readonly configPda,
                   readonly peerPda,
                   readonly (fnNttTransceiverMessage ps),
                   readonly registeredTransceiverPda,
                   readonly (fnMint ps),
                   writable (fnNttInboxItem ps),
                   writable inboxRateLimitPda,
                   writable outboxRateLimitPda,
                   readonly (SYSTEM_PROGRAM_ID env)],
                tiData = put (replicate (length (REDEEM_DISCRIMINATOR env)) 0) 0 (REDEEM_DISCRIMINATOR env)\<rparr>))))))"

record BuildFogoNttReleaseInboundIxParams =
  fiPayer :: pubkey
  fiNttManagerProgramId :: pubkey
  fiMint :: pubkey
  fiNttInboxItem :: pubkey
  fiRecipientAta :: pubkey
  fiRevertWhenNotReady :: "bool option"

definition buildReleaseInboundIx ::
  "web3_env \<Rightarrow> BuildFogoNttReleaseInboundIxParams \<Rightarrow> bytes \<Rightarrow> TransactionInstruction result" where
  "buildReleaseInboundIx env ps discriminator =
     (let prog = fiNttManagerProgramId ps
      in rbind (key_of (findNttConfigPda env prog)) (\<lambda>configPda.
         rbind (key_of (findTokenAuthorityPda env prog)) (\<lambda>tokenAuthorityPda.
         rbind (findNttCustodyAta env (fiMint ps) prog) (\<lambda>custody.
           let data = put (replicate (length discriminator + 1) 0) 0 discriminator
           in Inr \<lparr>tiProgramId = prog,
                   tiKeys =
                     [signerWritable (fiPayer ps),
                      readonly configPda,
                      writable (fiNttInboxItem ps),
                      writable (fiRecipientAta ps),
                      readonly tokenAuthorityPda,
                      writable (fiMint ps),
                      readonly (TOKEN_PROGRAM_ID env),
                      writable custody],
                   tiData = put data (length discriminator) [if ifNone (fiRevertWhenNotReady ps) False then 1 else 0]\<rparr>))))"

definition buildFogoNttReleaseInboundMintIx ::
  "web3_env \<Rightarrow> BuildFogoNttReleaseInboundIxParams \<Rightarrow> TransactionInstruction result" where
  "buildFogoNttReleaseInboundMintIx env ps = buildReleaseInboundIx env ps (RELEASE_INBOUND_MINT_DISCRIMINATOR env)"

definition buildFogoNttReleaseInboundUnlockIx ::
  "web3_env \<Rightarrow> BuildFogoNttReleaseInboundIxParams \<Rightarrow> TransactionInstruction result" where
  "buildFogoNttReleaseInboundUnlockIx env ps = buildReleaseInboundIx env ps (RELEASE_INBOUND_UNLOCK_DISCRIMINATOR env)"

text \<open>The standalone release and the release half of the list that the relayer hands to its own program agree, account for
  account, but for the signer flag of the payer: on FOGO the caller signs, on Solana the relayer's address does.\<close>

lemma release_layouts_agree:
  assumes "buildReleaseInboundIx env ps d = Inr ix"
    and "buildNttRedeemReleaseAccounts env
           \<lparr>rrMint = fiMint ps, rrNttInboxItem = fiNttInboxItem ps, rrNttTransceiverMessage = tm, rrTransceiverAddress = ta,
            rrProgramId = fiNttManagerProgramId ps, rrAuthority = fiPayer ps, rrRecipientAta = fiRecipientAta ps\<rparr> = Inr (accounts, n)"
  shows "drop n accounts = writable (fiPayer ps) # tl (tiKeys ix) @ [readonly (fiNttManagerProgramId ps)]"
  using assms
  by (auto simp: buildReleaseInboundIx_def buildNttRedeemReleaseAccounts_def Let_def result_simps assertAccountCount_def
      NTT_REDEEM_ACCOUNT_COUNT_def NTT_RELEASE_INBOUND_ACCOUNT_COUNT_def split: if_splits)

section \<open>Reading many accounts\<close>

definition MAX_KEYS_PER_CALL :: int where
  "MAX_KEYS_PER_CALL = 100"

text \<open>The loop over the chunks; \<open>n\<close> is positive.\<close>

function fetchChunks :: "('k list \<Rightarrow> thrown + 'a list) \<Rightarrow> nat \<Rightarrow> 'k list \<Rightarrow> thrown + 'a list" where
  "fetchChunks getMultipleAccountsInfo n keys =
     (if keys = [] \<or> n = 0 then Inr []
      else rbind (getMultipleAccountsInfo (take n keys)) (\<lambda>infos.
           rbind (fetchChunks getMultipleAccountsInfo n (drop n keys)) (\<lambda>rest. Inr (infos @ rest))))"
  by auto
termination
  by (relation "measure (\<lambda>(_, _, keys). length keys)") auto

declare fetchChunks.simps [simp del]

definition getMultipleAccountsChunked ::
  "('k list \<Rightarrow> thrown + 'a list) \<Rightarrow> 'k list \<Rightarrow> int option \<Rightarrow> thrown + 'a list" where
  "getMultipleAccountsChunked getMultipleAccountsInfo pubkeys chunkSizeOpt =
     (if pubkeys = [] then Inr []
      else let chunkSize = max 1 (min (ifNone chunkSizeOpt MAX_KEYS_PER_CALL) MAX_KEYS_PER_CALL)
           in fetchChunks getMultipleAccountsInfo (nat chunkSize) pubkeys)"

lemma fetchChunks_pointwise:
  "0 < n \<Longrightarrow> \<forall>ks. ks \<noteq> [] \<and> length ks \<le> n \<longrightarrow> getMultiple ks = Inr (map f ks) \<Longrightarrow> fetchChunks getMultiple n keys = Inr (map f keys)"
proof (induction getMultiple n keys rule: fetchChunks.induct)
  case (1 getMultiple n keys)
  show ?case
  proof (cases "keys = []")
    case False
    with 1 have "fetchChunks getMultiple n (drop n keys) = Inr (map f (drop n keys))" "getMultiple (take n keys) = Inr (map f (take n keys))"
      by auto
    then show ?thesis using False 1 by (subst fetchChunks.simps) (simp add: map_append [symmetric])
  qed (simp add: fetchChunks.simps)
qed

text \<open>Chunking is invisible: against an RPC node that answers requests of 1 to 100 keys, key by key, and may do anything
  with other requests, the result is the one a single unbounded request would have, for any requested chunk size,
  zero, negative and oversized ones included.\<close>

lemma chunked_pointwise:
  assumes "\<forall>ks. ks \<noteq> [] \<and> length ks \<le> 100 \<longrightarrow> getMultiple ks = Inr (map f ks)"
  shows "getMultipleAccountsChunked getMultiple keys chunkSize = Inr (map f keys)"
proof -
  have "nat (max 1 (min s 100)) \<le> 100" "0 < nat (max 1 (min s 100))" for s :: int by auto
  with assms show ?thesis
    by (auto simp: getMultipleAccountsChunked_def MAX_KEYS_PER_CALL_def Let_def intro!: fetchChunks_pointwise)
qed

end
