(* ===== verification/Bridge.thy ===== *)
theory Bridge
  imports Enumerate Prepare Fogo_Redeem
begin

text \<open>
  The bridge legs (\<open>packages/cranker/src/bridge\<close>): VAAs that leave Solana are redeemed on FOGO, one scan per target.
  \<open>redeem.ts\<close> plans and executes the redemption of one VAA, \<open>sdk-redeem.ts\<close> runs the NTT SDK's own sequence, \<open>scan.ts\<close>
  drives a target, \<open>solana-onyc-to-fogo.ts\<close> and \<open>solana-usdc-to-fogo.ts\<close> build the two targets.

  A step works on the events so far, transactions submitted and metrics counted, and on the module's cache of SDK
  objects. What RPC, timers and the abort signal do at a point is a function of the number of events before it.
  Signing is part of the submission. Texts of reasons are their constant parts.
\<close>

section \<open>Targets, plans, results\<close>

record BridgeRedeemTarget =
  btName :: string
  btSourceChainId :: nat
  btSourceEmitterHex :: string
  btDestChainId :: nat
  btDestNttManagerProgramId :: pubkey
  btDestWhTransceiverProgramId :: pubkey
  btDestMint :: pubkey
  btDestSigner :: pubkey
  btDestReleaseMode :: NttManagerMode
  btConfigReady :: bool
  btConfigError :: "string option"

datatype BridgeAction = RedeemAndRelease | ReleaseOnly | ActNoop

datatype bridge_ix = Common solana_ix | Raw TransactionInstruction

record BridgePlan =
  bpAction :: BridgeAction
  bpReason :: "string option"
  bpIxs :: "bridge_ix list"

datatype BridgeRedeemResult =
    BridgeSubmitted string BridgeAction
  | BridgeNoop string
  | BridgeError thrown

text \<open>A transaction built here, signed by the target's signer, or a step the SDK built (its number, whether it is versioned,
  its description).\<close>

datatype bridge_tx = OwnBridgeTx "bridge_ix list" | SdkBridgeTx nat bool string

datatype bridge_metric = Redeemed string string | BridgeTxSent string bool | RpcErrors string string

datatype bridge_event = Submitted bridge_tx | Counted bridge_metric

record bridge_state =
  bsEvents :: "bridge_event list"
  bsNttCache :: ntt_cache

section \<open>The outside\<close>

record ntt_object =
  noManager :: pubkey
  noToken :: pubkey
  noTransceiver :: pubkey

text \<open>\<open>bcDeserialize\<close> gives the recipient address of the SDK's parsed VAA, the only field the code reads. \<open>bcRedeem\<close> lists the
  transactions \<open>SolanaNtt.redeem\<close> yields, and the error with which it ends, if any.\<close>

record BridgeContext =
  bcEnv :: web3_env
  bcPriorityFee :: int
  bcNowMs :: int
  bcGetAccountInfo :: "pubkey \<Rightarrow> thrown + account_info option"
  bcExpired :: "nat \<Rightarrow> string \<Rightarrow> bool"
  bcAborted :: "nat \<Rightarrow> bool"
  bcSend :: "nat \<Rightarrow> bridge_tx \<Rightarrow> thrown + string"
  bcConfirm :: "nat \<Rightarrow> string \<Rightarrow> thrown + unit"
  bcBlockhash :: "nat \<Rightarrow> thrown + string"
  bcDeserialize :: "bytes \<Rightarrow> thrown + bytes"
  bcIsExecuted :: "ntt_object \<Rightarrow> bytes \<Rightarrow> thrown + bool"
  bcRedeem :: "ntt_object \<Rightarrow> bytes \<Rightarrow> pubkey \<Rightarrow> (bool \<times> string) list \<times> thrown option"

type_synonym 'a bridge = "(bridge_state, 'a) io"

text \<open>A \<open>try\<close> block: the exception becomes a value.\<close>

definition attempt :: "('s, 'a) io \<Rightarrow> ('s, thrown + 'a) io" where
  "attempt m s = (case m s of (r, s') \<Rightarrow> (Inr r, s'))"

definition count :: "bridge_metric \<Rightarrow> unit bridge" where
  "count m s = (Inr (), s\<lparr>bsEvents := bsEvents s @ [Counted m]\<rparr>)"

definition bridgeTimed :: "BridgeContext \<Rightarrow> bridge_state \<Rightarrow> string \<Rightarrow> thrown + 'a \<Rightarrow> thrown + 'a" where
  "bridgeTimed ctx s label r =
     (if bcExpired ctx (length (bsEvents s)) label then Inl (of_js_error (Error ''timeout exceeded'')) else r)"

definition transmit :: "BridgeContext \<Rightarrow> string \<Rightarrow> bridge_tx \<Rightarrow> string bridge" where
  "transmit ctx label tx s =
     (bridgeTimed ctx s label (bcSend ctx (length (bsEvents s)) tx), s\<lparr>bsEvents := bsEvents s @ [Submitted tx]\<rparr>)"

definition confirmTransaction :: "BridgeContext \<Rightarrow> string \<Rightarrow> string \<Rightarrow> unit bridge" where
  "confirmTransaction ctx label sig s = (bridgeTimed ctx s label (bcConfirm ctx (length (bsEvents s)) sig), s)"

definition latestBlockhash :: "BridgeContext \<Rightarrow> string bridge" where
  "latestBlockhash ctx s = (bcBlockhash ctx (length (bsEvents s)), s)"

section \<open>The plan of one VAA\<close>

definition noopPlan :: "string \<Rightarrow> BridgePlan" where
  "noopPlan reason = \<lparr>bpAction = ActNoop, bpReason = Some reason, bpIxs = []\<rparr>"

text \<open>The prefetched inbox account, or a read of its own, whose failure counts as a missing account.\<close>

definition inboxAccount ::
  "BridgeContext \<Rightarrow> pubkey \<Rightarrow> account_info option option \<Rightarrow> account_info option bridge" where
  "inboxAccount ctx nttInboxItem prefetched =
     (case prefetched of
        Some inboxInfo \<Rightarrow> pure (Inr inboxInfo)
      | None \<Rightarrow> (\<lambda>s.
          case bridgeTimed ctx s ''dest.getAccountInfo(InboxItem)'' (bcGetAccountInfo ctx nttInboxItem) of
            Inr info \<Rightarrow> (Inr info, s)
          | Inl _ \<Rightarrow> pbind (count (RpcErrors ''dest'' ''getAccountInfo'')) (\<lambda>_. pure (Inr None)) s))"

text \<open>Why an inbox item is left alone.\<close>

definition inboxGate :: "int \<Rightarrow> NttInboxItem \<Rightarrow> string option" where
  "inboxGate nowMs inbox =
     (case iiReleaseStatus inbox of
        Released \<Rightarrow> Some ''inbox-item already Released''
      | ReleaseAfter timestamp \<Rightarrow>
          if timestamp > nowMs div 1000 then Some ''inbox-item gated (rate-limit delay)'' else None
      | NotApproved \<Rightarrow> None)"

definition releaseParams :: "BridgeRedeemTarget \<Rightarrow> pubkey \<Rightarrow> pubkey \<Rightarrow> BuildFogoNttReleaseInboundIxParams" where
  "releaseParams target nttInboxItem recipientAta =
     \<lparr>fiPayer = btDestSigner target, fiNttManagerProgramId = btDestNttManagerProgramId target, fiMint = btDestMint target,
      fiNttInboxItem = nttInboxItem, fiRecipientAta = recipientAta, fiRevertWhenNotReady = None\<rparr>"

definition releasePlan :: "BridgeContext \<Rightarrow> BridgeRedeemTarget \<Rightarrow> ResolvedNttVaa \<Rightarrow> NttInboxItem option \<Rightarrow> BridgePlan result" where
  "releasePlan ctx target resolved inboxState =
     (let recipientWallet = rvRecipientOnSolana resolved
      in rbind (ata (bcEnv ctx) (btDestMint target) recipientWallet False (TOKEN_PROGRAM_ID (bcEnv ctx))) (\<lambda>recipientAta.
         let ensureAtaIx = Common (CreateAtaIdempotent (btDestSigner target) recipientAta recipientWallet (btDestMint target))
         in rbind ((if btDestReleaseMode target = Burning then buildFogoNttReleaseInboundMintIx
                    else buildFogoNttReleaseInboundUnlockIx) (bcEnv ctx)
                   (releaseParams target (rvNttInboxItem resolved) recipientAta)) (\<lambda>releaseIx.
            Inr (if inboxState = None then \<lparr>bpAction = RedeemAndRelease, bpReason = None, bpIxs = []\<rparr>
                 else \<lparr>bpAction = ReleaseOnly, bpReason = None,
                       bpIxs = [Common (SetComputeUnitLimit 200000), ensureAtaIx, Raw releaseIx]\<rparr>))))"

definition planBridgeRedeem ::
  "BridgeContext \<Rightarrow> BridgeRedeemTarget \<Rightarrow> bytes \<Rightarrow> account_info option option \<Rightarrow> (BridgePlan \<times> ResolvedNttVaa option) bridge" where
  "planBridgeRedeem ctx target vaaBytes prefetched =
     (if \<not> btConfigReady target
      then pure (Inr (noopPlan (''ntt-not-configured: '' @ ifNone (btConfigError target) ''governance state missing''), None))
      else case resolveNttVaa (bcEnv ctx) vaaBytes (btDestNttManagerProgramId target) (Some (btDestWhTransceiverProgramId target)) of
        Inl _ \<Rightarrow> pure (Inr (noopPlan ''unparseable as NTT VAA'', None))
      | Inr resolved \<Rightarrow>
          if pmToChain (rvManager resolved) \<noteq> btDestChainId target
          then pure (Inr (noopPlan ''VAA toChain does not match target dest chain'', Some resolved))
          else if rvFromChain resolved \<noteq> btSourceChainId target
          then pure (Inr (noopPlan ''VAA fromChain does not match target source chain'', Some resolved))
          else
            pbind (inboxAccount ctx (rvNttInboxItem resolved) prefetched) (\<lambda>inboxInfo.
              case (case inboxInfo of
                      None \<Rightarrow> Inr None
                    | Some info \<Rightarrow> rbind (decodeNttInboxItem (bcEnv ctx) (aiData info)) (\<lambda>i. Inr (Some i))) of
                Inl _ \<Rightarrow> pure (Inr (noopPlan ''inbox-item present but not decodable as NttInboxItem'', Some resolved))
              | Inr inboxState \<Rightarrow>
                  (case Option.bind inboxState (inboxGate (bcNowMs ctx)) of
                     Some reason \<Rightarrow> pure (Inr (noopPlan reason, Some resolved))
                   | None \<Rightarrow> pure (rbind (lift (releasePlan ctx target resolved inboxState)) (\<lambda>plan. Inr (plan, Some resolved))))))"

section \<open>The SDK's redemption\<close>

definition getOrCreateSolanaNtt :: "web3_env \<Rightarrow> BridgeRedeemTarget \<Rightarrow> ntt_object bridge" where
  "getOrCreateSolanaNtt env target s =
     (let manager = btDestNttManagerProgramId target; key = ''Mainnet|'' @ toBase58 env manager;
          obj = (\<lambda>(token, transceiver). \<lparr>noManager = manager, noToken = token, noTransceiver = transceiver\<rparr>)
      in case jm_get (bsNttCache s) key of
           Some cached \<Rightarrow> (Inr (obj cached), s)
         | None \<Rightarrow>
             let built = (btDestMint target, btDestWhTransceiverProgramId target)
             in (Inr (obj built), s\<lparr>bsNttCache := jm_set key built (bsNttCache s)\<rparr>))"

definition ensureRecipientAta :: "BridgeContext \<Rightarrow> BridgeRedeemTarget \<Rightarrow> bytes \<Rightarrow> (pubkey \<times> pubkey) bridge" where
  "ensureRecipientAta ctx target recipientAddress =
     pbind (pure (lift (newPublicKey (bcEnv ctx) recipientAddress))) (\<lambda>own.
     pbind (pure (lift (ata (bcEnv ctx) (btDestMint target) own True (TOKEN_PROGRAM_ID (bcEnv ctx))))) (\<lambda>recipientAta.
     pbind (transmit ctx ''dest.sendAndConfirmTransaction(ensure recipient ATA)''
              (OwnBridgeTx [Common (makePriorityFeeIx (bcPriorityFee ctx)), Common (SetComputeUnitLimit 80000),
                 Common (CreateAtaIdempotent (btDestSigner target) recipientAta own (btDestMint target))])) (\<lambda>_.
     pbind (count (BridgeTxSent ''ensure_recipient_ata'' True)) (\<lambda>_.
       pure (Inr (recipientAta, own))))))"

definition redeemStep :: "BridgeContext \<Rightarrow> nat \<Rightarrow> bool \<Rightarrow> string \<Rightarrow> string bridge" where
  "redeemStep ctx i versioned description =
     (if versioned then
        pbind (latestBlockhash ctx) (\<lambda>_.
        pbind (transmit ctx (''dest.sendRawTransaction(sdk-redeem:'' @ description @ '')'') (SdkBridgeTx i True description)) (\<lambda>sig.
        pbind (confirmTransaction ctx (''dest.confirmTransaction(sdk-redeem:'' @ description @ '')'') sig) (\<lambda>_. pure (Inr sig))))
      else transmit ctx (''dest.sendAndConfirmTransaction(sdk-redeem:'' @ description @ '')'') (SdkBridgeTx i False description))"

datatype redeem_end = AbortedMidRedeem | Yielded "string option"

fun redeemSteps :: "BridgeContext \<Rightarrow> nat \<Rightarrow> (bool \<times> string) list \<Rightarrow> thrown option \<Rightarrow> string option \<Rightarrow> redeem_end bridge" where
  "redeemSteps ctx i [] failed lastSig = pure (case failed of None \<Rightarrow> Inr (Yielded lastSig) | Some e \<Rightarrow> Inl e)"
| "redeemSteps ctx i ((versioned, description) # steps) failed lastSig = (\<lambda>s.
     if bcAborted ctx (length (bsEvents s)) then (Inr AbortedMidRedeem, s)
     else pbind (redeemStep ctx i versioned description) (\<lambda>sig.
          pbind (count (BridgeTxSent ''sdk_bundled_redeem_step'' True)) (\<lambda>_.
            redeemSteps ctx (Suc i) steps failed (Some sig))) s)"

definition counting :: "bridge_metric list \<Rightarrow> BridgeRedeemResult \<Rightarrow> BridgeRedeemResult bridge" where
  "counting ms result s = (Inr result, s\<lparr>bsEvents := bsEvents s @ map Counted ms\<rparr>)"

definition executeSdkBundledRedeem :: "BridgeContext \<Rightarrow> BridgeRedeemTarget \<Rightarrow> bytes \<Rightarrow> BridgeRedeemResult bridge" where
  "executeSdkBundledRedeem ctx target vaaBytes =
     (let redeemed = Redeemed (btName target)
      in pbind (getOrCreateSolanaNtt (bcEnv ctx) target) (\<lambda>ntt.
         case bcDeserialize ctx vaaBytes of
           Inl err \<Rightarrow> counting [redeemed ''error''] (BridgeError (toError err))
         | Inr recipientAddress \<Rightarrow>
             if bcIsExecuted ctx ntt vaaBytes = Inr True
             then counting [redeemed ''noop''] (BridgeNoop ''already executed on dest'')
             else
               pbind (attempt (ensureRecipientAta ctx target recipientAddress)) (\<lambda>ensured.
                 case ensured of
                   Inl err \<Rightarrow>
                     counting [redeemed ''error'', BridgeTxSent ''ensure_recipient_ata'' False] (BridgeError (toError err))
                 | Inr _ \<Rightarrow>
                     pbind (attempt (case bcRedeem ctx ntt vaaBytes (btDestSigner target) of
                              (steps, failed) \<Rightarrow> redeemSteps ctx 0 steps failed None)) (\<lambda>stepped.
                       case stepped of
                         Inl err \<Rightarrow>
                           counting [redeemed ''error'', BridgeTxSent ''sdk_bundled_redeem_step'' False] (BridgeError (toError err))
                       | Inr AbortedMidRedeem \<Rightarrow> counting [] (BridgeNoop ''aborted mid-redeem'')
                       | Inr (Yielded lastSig) \<Rightarrow>
                           if \<not> truthy lastSig then counting [redeemed ''noop''] (BridgeNoop ''sdk redeem yielded no transactions'')
                           else counting [redeemed ''ok''] (BridgeSubmitted (the lastSig) RedeemAndRelease)))))"

definition executeBridgePlan :: "BridgeContext \<Rightarrow> BridgeRedeemTarget \<Rightarrow> BridgePlan \<Rightarrow> bytes \<Rightarrow> BridgeRedeemResult bridge" where
  "executeBridgePlan ctx target plan vaaBytes =
     (let redeemed = Redeemed (btName target)
      in case bpAction plan of
           ActNoop \<Rightarrow> counting [redeemed ''noop''] (BridgeNoop (ifNone (bpReason plan) ''noop''))
         | RedeemAndRelease \<Rightarrow> executeSdkBundledRedeem ctx target vaaBytes
         | ReleaseOnly \<Rightarrow>
             pbind (attempt (transmit ctx ''dest.sendAndConfirmTransaction(release-only)''
                      (OwnBridgeTx (Common (makePriorityFeeIx (bcPriorityFee ctx)) # bpIxs plan)))) (\<lambda>sent.
               case sent of
                 Inr sig \<Rightarrow> counting [redeemed ''ok'', BridgeTxSent ''bridge_release_only'' True] (BridgeSubmitted sig ReleaseOnly)
               | Inl err \<Rightarrow> counting [redeemed ''error'', BridgeTxSent ''bridge_release_only'' False] (BridgeError (toError err))))"

definition planAndSubmit ::
  "BridgeContext \<Rightarrow> BridgeRedeemTarget \<Rightarrow> bytes \<Rightarrow> account_info option option \<Rightarrow> BridgeRedeemResult bridge" where
  "planAndSubmit ctx target vaaBytes prefetched =
     pbind (planBridgeRedeem ctx target vaaBytes prefetched) (\<lambda>(plan, _). executeBridgePlan ctx target plan vaaBytes)"

section \<open>The scan of one target\<close>

definition logBridgeResult :: "string \<Rightarrow> BridgeRedeemResult \<Rightarrow> class_memo \<Rightarrow> log_level \<times> class_memo" where
  "logBridgeResult seqLabel result m =
     (case result of
        BridgeSubmitted _ _ \<Rightarrow> (LogInfo, m)
      | BridgeNoop _ \<Rightarrow> (LogDebug, m)
      | BridgeError err \<Rightarrow>
          (case recordErrorClass err seqLabel m of
             ((_, firstSeenOn), m') \<Rightarrow> (if firstSeenOn \<noteq> None then LogDebug else LogWarn, m')))"

text \<open>The world of one scan: the abort signal before the start, Wormholescan's pages, the batched read, the context in which
  the \<open>i\<close>-th VAA is worked off, the final state of the pool.\<close>

record bridge_world =
  bwAborted :: bool
  bwPages :: "nat \<Rightarrow> WormholescanVaa list result"
  bwAbortedAt :: "nat \<Rightarrow> bool"
  bwEnv :: web3_env
  bwGetMultipleAccounts :: "pubkey list \<Rightarrow> thrown + account_info option list"
  bwBatchExpired :: bool
  bwView :: "nat \<Rightarrow> BridgeContext"
  bwPool :: pool

definition inboxKeyOf :: "web3_env \<Rightarrow> BridgeRedeemTarget \<Rightarrow> WormholescanVaa \<Rightarrow> pubkey option" where
  "inboxKeyOf env target it =
     (case resolveNttVaa env (wvVaa it) (btDestNttManagerProgramId target) (Some (btDestWhTransceiverProgramId target)) of
        Inl _ \<Rightarrow> None
      | Inr r \<Rightarrow> Some (rvNttInboxItem r))"

text \<open>The batched read: the accounts by key, or \<open>None\<close> when there was nothing to read or the read failed.\<close>

definition batchInboxes :: "bridge_world \<Rightarrow> pubkey list \<Rightarrow> (string, account_info option) jsmap option" where
  "batchInboxes w toFetch =
     (if toFetch = [] then None
      else case (if bwBatchExpired w then Inl (of_js_error (Error ''timeout exceeded''))
                 else getMultipleAccountsChunked (bwGetMultipleAccounts w) toFetch None) of
        Inl _ \<Rightarrow> None
      | Inr infos \<Rightarrow>
          Some (fold (\<lambda>(k, info). jm_set (toBase58 (bwEnv w) k) info)
                  (zip toFetch (infos @ replicate (length toFetch) None)) []))"

definition prefetchWork ::
  "bridge_world \<Rightarrow> BridgeRedeemTarget \<Rightarrow> WormholescanVaa list \<Rightarrow> (WormholescanVaa \<times> account_info option option) list" where
  "prefetchWork w target vaas =
     (let inboxKeys = map (inboxKeyOf (bwEnv w) target) vaas;
          batch = batchInboxes w (map the (filter (\<lambda>k. k \<noteq> None) inboxKeys))
      in map (\<lambda>(it, key).
           (it, case (batch, key) of
                  (Some infoByKey, Some k) \<Rightarrow> Some (ifNone (jm_get infoByKey (toBase58 (bwEnv w) k)) None)
                | _ \<Rightarrow> None)) (zip vaas inboxKeys))"

record bridge_scan =
  bxState :: bridge_state
  bxProgress :: bool
  bxWatermarks :: "WatermarkStore option"
  bxMemo :: class_memo
  bxResults :: "(int \<times> BridgeRedeemResult) list"

fun is_submitted :: "BridgeRedeemResult \<Rightarrow> bool" where
  "is_submitted (BridgeSubmitted _ _) = True"
| "is_submitted _ = False"

fun is_error :: "BridgeRedeemResult \<Rightarrow> bool" where
  "is_error (BridgeError _) = True"
| "is_error _ = False"

definition redeemItem ::
  "BridgeContext \<Rightarrow> BridgeRedeemTarget \<Rightarrow> WormholescanVaa \<times> account_info option option \<Rightarrow> bridge_scan \<Rightarrow> bridge_scan" where
  "redeemItem ctx target = (\<lambda>(item, prefetched) st.
     case planAndSubmit ctx target (wvVaa item) prefetched (bxState st) of
       (r, s) \<Rightarrow>
         let result = (case r of Inr x \<Rightarrow> x | Inl err \<Rightarrow> BridgeError (toError err))
         in st\<lparr>bxState := s,
               bxProgress := (bxProgress st \<or> is_submitted result),
               bxWatermarks :=
                 (if is_error result then bxWatermarks st
                  else map_option (\<lambda>store. recordSeen store (btSourceChainId target) (btSourceEmitterHex target) (wvSequence item))
                         (bxWatermarks st)),
               bxMemo := snd (logBridgeResult (bigint_toString (wvSequence item)) result (bxMemo st)),
               bxResults := bxResults st @ [(wvSequence item, result)]\<rparr>)"

record bridge_report =
  brWoke :: bool
  brRollup :: "(string \<times> ClassRollupAgg \<times> bool) list"

definition scanAndRedeemBridge ::
  "bridge_world \<Rightarrow> BridgeRedeemTarget \<Rightarrow> nat \<Rightarrow> (string, string) jsmap option \<Rightarrow> WatermarkStore option \<Rightarrow> bridge_state \<Rightarrow>
   (thrown + bridge_report) \<times> bridge_scan" where
  "scanAndRedeemBridge w target maxPages seen watermarks s =
     (let st0 = \<lparr>bxState = s, bxProgress = False, bxWatermarks = watermarks, bxMemo = \<lparr>cmSeen = seen, cmIter = []\<rparr>, bxResults = []\<rparr>
      in if bwAborted w then (Inl (of_js_error (Error ''bridge scan aborted before start'')), st0)
         else
           let known = (case seen of None \<Rightarrow> {} | Some m \<Rightarrow> fst ` set m);
               vaas = concat (harvestVaaPages (bwPages w) (bwAbortedAt w) (btSourceChainId target) (btSourceEmitterHex target)
                        maxPages watermarks False);
               work = prefetchWork w target vaas;
               st = fold (\<lambda>i. redeemItem (bwView w i) target (work ! i)) (invoked (bwPool w)) st0
           in (case pool_outcome True (bwPool w) of
                 Inl e \<Rightarrow> Inl (of_js_error e)
               | Inr _ \<Rightarrow> Inr \<lparr>brWoke = bxProgress st, brRollup = rollupErrorClasses (cmIter (bxMemo st)) known\<rparr>, st))"

section \<open>The two targets\<close>

definition DEFAULT_FOGO_ONYC_MINT :: pubkey where
  "DEFAULT_FOGO_ONYC_MINT = pk58 ''oNyCm1QsAatj3ckaEwZjtAPWvstPn3Zm5MAYPtkjEfa''"

definition DEFAULT_FOGO_USDC_MINT :: pubkey where
  "DEFAULT_FOGO_USDC_MINT = pk58 ''uSd2czE61Evaf76RNbq4KPpXnkiL3irdzgLFUMe3NoG''"

text \<open>The options of both builders, and the FOGO connection with the timers of its reads.\<close>

record target_options =
  foDestSigner :: pubkey
  foEmitterHex :: "string option"
  foNttProgramId :: "pubkey option"
  foWhTransceiverProgramId :: "pubkey option"
  foMint :: "pubkey option"
  foExpectedReleaseMode :: "NttManagerMode option"

record fogo_rpc =
  frpAccount :: "pubkey \<Rightarrow> thrown + account_info option"
  frpExpired :: "string \<Rightarrow> bool"

definition fogoRead :: "fogo_rpc \<Rightarrow> string \<Rightarrow> pubkey \<Rightarrow> thrown + account_info option" where
  "fogoRead rpc what key =
     (if frpExpired rpc (''fogo.getAccountInfo('' @ what @ '')'') then Inl (of_js_error (Error ''timeout exceeded''))
      else frpAccount rpc key)"

definition sourceEmitter :: "web3_env \<Rightarrow> string option \<Rightarrow> pubkey \<Rightarrow> thrown + string" where
  "sourceEmitter env override programId =
     (case override of
        Some hex \<Rightarrow> Inr hex
      | None \<Rightarrow> rbind (lift (key_of (findNttEmitterPda env programId))) (\<lambda>k. Inr (hex_of k)))"

definition configErrorText :: "(string \<times> bool) list \<Rightarrow> string option" where
  "configErrorText missing =
     (if missing = [] then None
      else Some (''FOGO manager is missing NTT-governance state: '' @ concat (map (\<lambda>(name, _). name @ ''; '') missing)))"

text \<open>The common parts of the builders, after the defaults are filled in: the manager's configuration, the three accounts that
  governance must have created, and the target.\<close>

definition probeConfig :: "web3_env \<Rightarrow> fogo_rpc \<Rightarrow> pubkey \<Rightarrow> pubkey \<Rightarrow> NttManagerMode option \<Rightarrow> thrown + NttConfig" where
  "probeConfig env rpc programId mint expectedReleaseMode =
     rbind (lift (key_of (findNttConfigPda env programId))) (\<lambda>configPda.
     rbind (fogoRead rpc ''NttConfig'' configPda) (\<lambda>found.
       case found of
         None \<Rightarrow> Inl (of_js_error (Error ''NTT manager Config PDA not found''))
       | Some info \<Rightarrow>
           rbind (lift (decodeNttConfig env (aiData info))) (\<lambda>config.
             if ncMint config \<noteq> mint then Inl (of_js_error (Error ''Config.mint does not match expected mint''))
             else if expectedReleaseMode \<noteq> None \<and> Some (ncMode config) \<noteq> expectedReleaseMode
             then Inl (of_js_error (Error ''Operator override mismatched on-chain state; refusing to start.''))
             else Inr config)))"

definition probeGovernance :: "web3_env \<Rightarrow> fogo_rpc \<Rightarrow> pubkey \<Rightarrow> pubkey \<Rightarrow> thrown + (string \<times> bool) list" where
  "probeGovernance env rpc programId whTransceiverProgramId =
     rbind (lift (key_of (findNttPeerPda env SOLANA_WORMHOLE_CHAIN_ID programId))) (\<lambda>peerPda.
     rbind (lift (key_of (findRegisteredTransceiverPda env whTransceiverProgramId programId))) (\<lambda>xcvrPda.
     rbind (lift (key_of (findInboxRateLimitPda env SOLANA_WORMHOLE_CHAIN_ID programId))) (\<lambda>rateLimitPda.
       promise_all (map (\<lambda>(what, pda). rbind (fogoRead rpc what pda) (\<lambda>info. Inr (what, info \<noteq> None)))
         [(''peer'', peerPda), (''registered_transceiver'', xcvrPda), (''inbox_rate_limit'', rateLimitPda)]))))"

definition probeTarget ::
  "web3_env \<Rightarrow> fogo_rpc \<Rightarrow> string \<Rightarrow> pubkey \<Rightarrow> pubkey \<Rightarrow> pubkey \<Rightarrow> pubkey \<Rightarrow> string \<Rightarrow> NttManagerMode option \<Rightarrow> thrown + BridgeRedeemTarget" where
  "probeTarget env rpc name signer programId whTransceiverProgramId mint sourceEmitterHex expectedReleaseMode =
     rbind (probeConfig env rpc programId mint expectedReleaseMode) (\<lambda>config.
     rbind (probeGovernance env rpc programId whTransceiverProgramId) (\<lambda>probed.
       let missing = filter (\<lambda>(_, present). \<not> present) probed
       in Inr \<lparr>btName = name, btSourceChainId = SOLANA_WORMHOLE_CHAIN_ID, btSourceEmitterHex = sourceEmitterHex,
               btDestChainId = FOGO_WORMHOLE_CHAIN_ID, btDestNttManagerProgramId = programId,
               btDestWhTransceiverProgramId = whTransceiverProgramId, btDestMint = mint, btDestSigner = signer,
               btDestReleaseMode = ncMode config, btConfigReady = (missing = []),
               btConfigError = configErrorText missing\<rparr>))"

definition buildSolanaOnycToFogoTarget :: "web3_env \<Rightarrow> fogo_rpc \<Rightarrow> target_options \<Rightarrow> thrown + BridgeRedeemTarget" where
  "buildSolanaOnycToFogoTarget env rpc opts =
     (let programId = ifNone (foNttProgramId opts) NTT_ONYC_PROGRAM_ID;
          whTransceiverProgramId = ifNone (foWhTransceiverProgramId opts) WH_TRANSCEIVER_ONYC_PROGRAM_ID;
          mint = ifNone (foMint opts) DEFAULT_FOGO_ONYC_MINT
      in rbind (sourceEmitter env (foEmitterHex opts) NTT_ONYC_PROGRAM_ID) (\<lambda>sourceEmitterHex.
           probeTarget env rpc ''solana-onyc-to-fogo'' (foDestSigner opts) programId whTransceiverProgramId mint sourceEmitterHex
             (foExpectedReleaseMode opts)))"

definition buildSolanaUsdcToFogoTarget :: "web3_env \<Rightarrow> fogo_rpc \<Rightarrow> target_options \<Rightarrow> thrown + BridgeRedeemTarget" where
  "buildSolanaUsdcToFogoTarget env rpc opts =
     (let programId = ifNone (foNttProgramId opts) NTT_USDC_PROGRAM_ID;
          whTransceiverProgramId = ifNone (foWhTransceiverProgramId opts) programId;
          mint = ifNone (foMint opts) DEFAULT_FOGO_USDC_MINT
      in rbind (sourceEmitter env (foEmitterHex opts) NTT_USDC_PROGRAM_ID) (\<lambda>sourceEmitterHex.
           probeTarget env rpc ''solana-usdc-to-fogo'' (foDestSigner opts) programId whTransceiverProgramId mint sourceEmitterHex
             (foExpectedReleaseMode opts)))"

end
