(* ===== verification/Bridge_Safety.thy ===== *)
theory Bridge_Safety
  imports Bridge
begin

text \<open>
  What the bridge legs promise: which transactions a scan submits and whom they pay, which VAAs move the watermark, that
  the batched read changes nothing but the number of requests, and when a target counts as ready.
\<close>

section \<open>What a step emits\<close>

definition emits :: "(bridge_tx \<Rightarrow> bool) \<Rightarrow> 'a bridge \<Rightarrow> bool" where
  "emits P m \<longleftrightarrow> (\<forall>s. \<exists>new. bsEvents (snd (m s)) = bsEvents s @ new \<and> (\<forall>tx. Submitted tx \<in> set new \<longrightarrow> P tx))"

lemma emits_pure [intro, simp]: "emits P (pure r)"
  by (simp add: emits_def pure_def)

lemma emits_pbind [intro]:
  assumes "emits P m" "\<And>x. emits P (f x)"
  shows "emits P (pbind m f)"
  unfolding emits_def
proof
  fix s
  obtain r s1 where m: "m s = (r, s1)" by fastforce
  with assms(1) obtain a where a: "bsEvents s1 = bsEvents s @ a" "\<forall>tx. Submitted tx \<in> set a \<longrightarrow> P tx"
    unfolding emits_def by (metis snd_conv)
  show "\<exists>new. bsEvents (snd (pbind m f s)) = bsEvents s @ new \<and> (\<forall>tx. Submitted tx \<in> set new \<longrightarrow> P tx)"
  proof (cases r)
    case (Inl e)
    with m a show ?thesis by (simp add: pbind_def)
  next
    case (Inr x)
    from assms(2) [of x] obtain b where "bsEvents (snd (f x s1)) = bsEvents s1 @ b" "\<forall>tx. Submitted tx \<in> set b \<longrightarrow> P tx"
      unfolding emits_def by blast
    with m a Inr show ?thesis by (intro exI [of _ "a @ b"]) (auto simp: pbind_def)
  qed
qed

lemma emits_attempt [intro]: "emits P m \<Longrightarrow> emits P (attempt m)"
  by (auto simp: emits_def attempt_def split: prod.split) (metis snd_conv)

lemma emits_base [intro, simp]:
  "emits P (count m)" "emits P (counting ms r)" "emits P (latestBlockhash ctx)" "emits P (confirmTransaction ctx l sig)"
  "emits P (getOrCreateSolanaNtt env target)"
  by (auto simp: emits_def count_def counting_def latestBlockhash_def confirmTransaction_def getOrCreateSolanaNtt_def Let_def split: option.split)

lemma emits_transmit [intro]: "P tx \<Longrightarrow> emits P (transmit ctx l tx)"
  by (simp add: emits_def transmit_def)

lemma emits_inboxAccount [intro, simp]: "emits P (inboxAccount ctx k pre)"
proof (cases pre)
  case None
  have "emits P (pbind (count (RpcErrors ''dest'' ''getAccountInfo'')) (\<lambda>_. pure (Inr (None :: account_info option))))" by auto
  with None show ?thesis by (auto simp: emits_def inboxAccount_def split: sum.split)
qed (simp add: inboxAccount_def)

lemma emits_planBridgeRedeem: "emits P (planBridgeRedeem ctx target vaa pre)"
  unfolding planBridgeRedeem_def by (auto split: sum.split option.split)

lemma emits_redeemSteps:
  assumes "\<forall>i v d. P (SdkBridgeTx i v d)"
  shows "emits P (redeemSteps ctx i steps failed lastSig)"
proof (induction steps arbitrary: i lastSig)
  case (Cons step steps)
  obtain v d where step: "step = (v, d)" by (cases step)
  have "emits P (redeemStep ctx i v d)" using assms unfolding redeemStep_def by (auto intro!: emits_pbind emits_transmit)
  then have "emits P (pbind (redeemStep ctx i v d) (\<lambda>sig. pbind (count (BridgeTxSent ''sdk_bundled_redeem_step'' True)) (\<lambda>_.
    redeemSteps ctx (Suc i) steps failed (Some sig))))" using Cons by auto
  then show ?case by (simp add: emits_def step)
qed (simp split: option.split)

lemma emits_executeSdk:
  assumes "\<forall>i v d. P (SdkBridgeTx i v d)"
    and "\<And>addr. bcDeserialize ctx vaa = Inr addr \<Longrightarrow> emits P (ensureRecipientAta ctx target addr)"
  shows "emits P (executeSdkBundledRedeem ctx target vaa)"
  using assms(2) emits_redeemSteps [OF assms(1)]
  unfolding executeSdkBundledRedeem_def Let_def
  by (auto split: sum.split redeem_end.split prod.split intro!: emits_pbind emits_attempt)

section \<open>What is submitted\<close>

text \<open>The inbox account a plan looks at, and what it must be like for anything to be submitted: absent, or an item that is
  neither released nor still held back.\<close>

definition inboxSeen :: "BridgeContext \<Rightarrow> bridge_state \<Rightarrow> pubkey \<Rightarrow> account_info option option \<Rightarrow> account_info option" where
  "inboxSeen ctx s key pre =
     (case pre of
        Some info \<Rightarrow> info
      | None \<Rightarrow> catch (bridgeTimed ctx s ''dest.getAccountInfo(InboxItem)'' (bcGetAccountInfo ctx key)) (\<lambda>_. None))"

definition release_due :: "BridgeContext \<Rightarrow> account_info option \<Rightarrow> bool" where
  "release_due ctx seen \<longleftrightarrow>
     (case seen of
        None \<Rightarrow> True
      | Some info \<Rightarrow> \<exists>item. decodeNttInboxItem (bcEnv ctx) (aiData info) = Inr item \<and>
          (iiReleaseStatus item = NotApproved \<or> (\<exists>t. iiReleaseStatus item = ReleaseAfter t \<and> t \<le> bcNowMs ctx div 1000)))"

text \<open>The instructions a transaction of ours may hold: the compute budget, the creation of the recipient's token account at
  the signer's expense, and the release of the VAA's own inbox item into that account.\<close>

fun serves :: "BridgeContext \<Rightarrow> BridgeRedeemTarget \<Rightarrow> ResolvedNttVaa \<Rightarrow> bridge_ix \<Rightarrow> bool" where
  "serves ctx target r (Common (SetComputeUnitLimit _)) \<longleftrightarrow> True"
| "serves ctx target r (Common (SetComputeUnitPrice p)) \<longleftrightarrow> p = bcPriorityFee ctx"
| "serves ctx target r (Common (CreateAtaIdempotent payer a own mint)) \<longleftrightarrow>
     payer = btDestSigner target \<and> own = rvRecipientOnSolana r \<and> mint = btDestMint target \<and>
     Inr a \<in> (\<lambda>allow. ata (bcEnv ctx) mint own allow (TOKEN_PROGRAM_ID (bcEnv ctx))) ` {True, False}"
| "serves ctx target r (Common _) \<longleftrightarrow> False"
| "serves ctx target r (Raw ix) \<longleftrightarrow>
     tiProgramId ix = btDestNttManagerProgramId target \<and> amPubkey (tiKeys ix ! 2) = rvNttInboxItem r \<and>
     ata (bcEnv ctx) (btDestMint target) (rvRecipientOnSolana r) False (TOKEN_PROGRAM_ID (bcEnv ctx)) = Inr (amPubkey (tiKeys ix ! 3))"

definition resolves_to :: "BridgeContext \<Rightarrow> BridgeRedeemTarget \<Rightarrow> bytes \<Rightarrow> ResolvedNttVaa \<Rightarrow> bool" where
  "resolves_to ctx target vaa r \<longleftrightarrow>
     resolveNttVaa (bcEnv ctx) vaa (btDestNttManagerProgramId target) (Some (btDestWhTransceiverProgramId target)) = Inr r"

text \<open>The SDK and the repository's own parser read the same recipient address off a VAA.\<close>

definition sdk_agrees :: "BridgeContext \<Rightarrow> BridgeRedeemTarget \<Rightarrow> bytes \<Rightarrow> bool" where
  "sdk_agrees ctx target vaa \<longleftrightarrow>
     (\<forall>addr r. bcDeserialize ctx vaa = Inr addr \<longrightarrow> resolves_to ctx target vaa r \<longrightarrow> addr = pmTo (rvManager r))"

lemma resolve_recipient:
  "resolveNttVaa env vaa prog t = Inr r \<Longrightarrow> newPublicKey env (pmTo (rvManager r)) = Inr (rvRecipientOnSolana r)"
  by (auto simp: resolveNttVaa_def Let_def result_simps)

lemma inboxAccount_result: "fst (inboxAccount ctx k pre s) = Inr (inboxSeen ctx s k pre)"
  by (auto simp: inboxAccount_def inboxSeen_def pure_def pbind_def count_def catch_def split: option.split sum.split)

lemma inboxGate_None:
  "inboxGate now item = None \<longleftrightarrow> iiReleaseStatus item = NotApproved \<or> (\<exists>t. iiReleaseStatus item = ReleaseAfter t \<and> t \<le> now div 1000)"
  by (auto simp: inboxGate_def split: NttInboxReleaseStatus.split)

lemma plan_acts:
  assumes "planBridgeRedeem ctx target vaa pre s = (Inr (plan, ro), s')" "bpAction plan \<noteq> ActNoop"
  obtains r st where "btConfigReady target" "resolves_to ctx target vaa r" "pmToChain (rvManager r) = btDestChainId target"
    "rvFromChain r = btSourceChainId target" "release_due ctx (inboxSeen ctx s (rvNttInboxItem r) pre)"
    "releasePlan ctx target r st = Inr plan"
proof -
  have n: "bpAction (noopPlan x) = ActNoop" for x by (simp add: noopPlan_def)
  have ready: "btConfigReady target" using assms n by (auto simp: planBridgeRedeem_def pure_def split: if_splits)
  obtain r where r: "resolveNttVaa (bcEnv ctx) vaa (btDestNttManagerProgramId target) (Some (btDestWhTransceiverProgramId target)) = Inr r"
    and c: "pmToChain (rvManager r) = btDestChainId target" "rvFromChain r = btSourceChainId target"
    using assms n ready by (auto simp: planBridgeRedeem_def pure_def split: if_splits sum.splits)
  obtain seen s1 where seen: "inboxAccount ctx (rvNttInboxItem r) pre s = (Inr seen, s1)" "seen = inboxSeen ctx s (rvNttInboxItem r) pre"
    using inboxAccount_result [of ctx "rvNttInboxItem r" pre s] by (cases "inboxAccount ctx (rvNttInboxItem r) pre s") auto
  have "release_due ctx seen \<and> (\<exists>st. releasePlan ctx target r st = Inr plan)"
    using assms n
    by (auto simp: planBridgeRedeem_def ready r c seen(1) pbind_def pure_def release_due_def inboxGate_None result_simps
        split: option.splits sum.splits)
  with seen(2) ready r c that show thesis by (auto simp: resolves_to_def)
qed

lemma releasePlan_serves:
  assumes "releasePlan ctx target r st = Inr plan" "ix \<in> set (bpIxs plan)"
  shows "serves ctx target r ix"
  using assms
  by (auto simp: releasePlan_def Let_def result_simps releaseParams_def buildFogoNttReleaseInboundMintIx_def
      buildFogoNttReleaseInboundUnlockIx_def buildReleaseInboundIx_def writable_def split: if_splits)

definition own_serves :: "BridgeContext \<Rightarrow> BridgeRedeemTarget \<Rightarrow> ResolvedNttVaa \<Rightarrow> bridge_tx \<Rightarrow> bool" where
  "own_serves ctx target r tx \<longleftrightarrow> (\<forall>ixs. tx = OwnBridgeTx ixs \<longrightarrow> list_all (serves ctx target r) ixs)"

lemma emits_ensure:
  assumes "newPublicKey (bcEnv ctx) addr = Inr (rvRecipientOnSolana r)"
  shows "emits (own_serves ctx target r) (ensureRecipientAta ctx target addr)"
proof -
  let ?k = "ata (bcEnv ctx) (btDestMint target) (rvRecipientOnSolana r) True (TOKEN_PROGRAM_ID (bcEnv ctx))"
  show ?thesis
  proof (cases ?k)
    case (Inl e)
    then show ?thesis using assms by (simp add: emits_def ensureRecipientAta_def pbind_def pure_def)
  next
    case (Inr a)
    let ?tx = "OwnBridgeTx [Common (makePriorityFeeIx (bcPriorityFee ctx)), Common (SetComputeUnitLimit 80000),
      Common (CreateAtaIdempotent (btDestSigner target) a (rvRecipientOnSolana r) (btDestMint target))]"
    have "ensureRecipientAta ctx target addr =
      pbind (transmit ctx ''dest.sendAndConfirmTransaction(ensure recipient ATA)'' ?tx) (\<lambda>_.
      pbind (count (BridgeTxSent ''ensure_recipient_ata'' True)) (\<lambda>_. pure (Inr (a, rvRecipientOnSolana r))))"
      using assms Inr by (simp add: ensureRecipientAta_def pbind_def pure_def fun_eq_iff)
    moreover have "own_serves ctx target r ?tx" using Inr by (auto simp: own_serves_def makePriorityFeeIx_def)
    ultimately show ?thesis by (auto intro!: emits_pbind emits_transmit)
  qed
qed

lemma emits_executeBridgePlan:
  assumes "resolves_to ctx target vaa r" "sdk_agrees ctx target vaa" "releasePlan ctx target r st = Inr plan"
  shows "emits (own_serves ctx target r) (executeBridgePlan ctx target plan vaa)"
proof -
  have "emits (own_serves ctx target r) (executeSdkBundledRedeem ctx target vaa)"
    using assms(1,2) resolve_recipient
    by (intro emits_executeSdk) (auto simp: own_serves_def sdk_agrees_def resolves_to_def intro!: emits_ensure)
  moreover have "own_serves ctx target r (OwnBridgeTx (Common (makePriorityFeeIx (bcPriorityFee ctx)) # bpIxs plan))"
    using releasePlan_serves [OF assms(3)] by (auto simp: own_serves_def makePriorityFeeIx_def list_all_iff)
  ultimately show ?thesis
    unfolding executeBridgePlan_def Let_def
    by (auto split: BridgeAction.split sum.split intro!: emits_pbind emits_attempt emits_transmit)
qed

lemma emitsD:
  "emits P m \<Longrightarrow> m s = (r, s') \<Longrightarrow> \<exists>new. bsEvents s' = bsEvents s @ new \<and> (\<forall>tx. Submitted tx \<in> set new \<longrightarrow> P tx)"
  unfolding emits_def by (metis snd_conv)

lemma emits_noop: "bpAction plan = ActNoop \<Longrightarrow> emits (\<lambda>_. False) (executeBridgePlan ctx target plan vaa)"
  by (simp add: executeBridgePlan_def)

text \<open>What justifies the submission of a transaction for a VAA that was taken up in state \<open>s\<close>, with the inbox account \<open>pre\<close> from the
  batched read (\<open>None\<close> when the batch has no answer and the plan reads the account itself).\<close>

definition justified ::
  "BridgeContext \<Rightarrow> BridgeRedeemTarget \<Rightarrow> bytes \<Rightarrow> account_info option option \<Rightarrow> bridge_state \<Rightarrow> bridge_tx \<Rightarrow> bool" where
  "justified ctx target vaa pre s tx \<longleftrightarrow>
     btConfigReady target \<and>
     (\<exists>r. resolves_to ctx target vaa r \<and> pmToChain (rvManager r) = btDestChainId target \<and> rvFromChain r = btSourceChainId target \<and>
        release_due ctx (inboxSeen ctx s (rvNttInboxItem r) pre) \<and> own_serves ctx target r tx)"

lemma planAndSubmit_justified:
  assumes "planAndSubmit ctx target vaa pre s = (res, s')" "sdk_agrees ctx target vaa"
  shows "\<exists>new. bsEvents s' = bsEvents s @ new \<and> (\<forall>tx. Submitted tx \<in> set new \<longrightarrow> justified ctx target vaa pre s tx)"
proof -
  obtain q s1 where p: "planBridgeRedeem ctx target vaa pre s = (q, s1)" by fastforce
  obtain a where a: "bsEvents s1 = bsEvents s @ a" "\<forall>tx. Submitted tx \<notin> set a"
    using emitsD [OF emits_planBridgeRedeem p, of "\<lambda>_. False"] by blast
  show ?thesis
  proof (cases q)
    case (Inl e)
    with assms(1) p a show ?thesis by (auto simp: planAndSubmit_def pbind_def)
  next
    case (Inr y)
    obtain plan ro where y: "y = (plan, ro)" by (cases y)
    have x: "executeBridgePlan ctx target plan vaa s1 = (res, s')"
      using assms(1) p Inr y by (simp add: planAndSubmit_def pbind_def)
    show ?thesis
    proof (cases "bpAction plan = ActNoop")
      case True
      from emitsD [OF emits_noop [OF True] x] a show ?thesis by auto
    next
      case False
      from p Inr y obtain r st where r: "btConfigReady target" "resolves_to ctx target vaa r"
        "pmToChain (rvManager r) = btDestChainId target" "rvFromChain r = btSourceChainId target"
        "release_due ctx (inboxSeen ctx s (rvNttInboxItem r) pre)" "releasePlan ctx target r st = Inr plan"
        using plan_acts [OF _ False] by metis
      from emitsD [OF emits_executeBridgePlan [OF r(2) assms(2) r(6)] x] a r(1-5) show ?thesis
        by (auto simp: justified_def) blast
    qed
  qed
qed

end
