(* ===== verification/Bridge_Scan.thy ===== *)
theory Bridge_Scan
  imports Bridge_Safety
begin

text \<open>
  The properties of a whole scan of a bridge target, from the pages of Wormholescan to the watermark, and of the two
  targets the daemon builds.
\<close>

section \<open>Every submission is justified\<close>

definition harvestedFor :: "bridge_world \<Rightarrow> BridgeRedeemTarget \<Rightarrow> nat \<Rightarrow> WatermarkStore option \<Rightarrow> WormholescanVaa list" where
  "harvestedFor w target maxPages wm =
     concat (harvestVaaPages (bwPages w) (bwAbortedAt w) (btSourceChainId target) (btSourceEmitterHex target) maxPages wm False)"

lemma redeemItem_result:
  assumes "planAndSubmit ctx target (wvVaa (fst x)) (snd x) (bxState st) = (r, s)"
  defines "result \<equiv> case r of Inr y \<Rightarrow> y | Inl err \<Rightarrow> BridgeError (toError err)"
  shows "bxState (redeemItem ctx target x st) = s"
    "bxResults (redeemItem ctx target x st) = bxResults st @ [(wvSequence (fst x), result)]"
    "bxProgress (redeemItem ctx target x st) \<longleftrightarrow> bxProgress st \<or> is_submitted result"
    "bxWatermarks (redeemItem ctx target x st) =
       (if is_error result then bxWatermarks st
        else map_option (\<lambda>m. recordSeen m (btSourceChainId target) (btSourceEmitterHex target) (wvSequence (fst x))) (bxWatermarks st))"
  using assms by (cases x, simp add: redeemItem_def Let_def)+

lemma prefetchWork_fst [simp]: "length (prefetchWork w target vaas) = length vaas"
  "i < length vaas \<Longrightarrow> fst (prefetchWork w target vaas ! i) = vaas ! i"
  by (simp_all add: prefetchWork_def Let_def split: prod.split)

lemma fold_justified:
  fixes vw target work
  defines "rn \<equiv> fold (\<lambda>i. redeemItem (vw i) target (work ! i))"
  assumes "\<forall>i \<in> set is. sdk_agrees (vw i) target (wvVaa (fst (work ! i)))"
  shows "\<exists>new. bsEvents (bxState (rn is st)) = bsEvents (bxState st) @ new \<and>
     (\<forall>tx. Submitted tx \<in> set new \<longrightarrow> (\<exists>j < length is.
        justified (vw (is ! j)) target (wvVaa (fst (work ! (is ! j)))) (snd (work ! (is ! j))) (bxState (rn (take j is) st)) tx))"
  using assms(2)
proof (induction "is" arbitrary: st)
  case Nil
  then show ?case by (simp add: rn_def)
next
  case (Cons i "is")
  obtain r s where p: "planAndSubmit (vw i) target (wvVaa (fst (work ! i))) (snd (work ! i)) (bxState st) = (r, s)" by fastforce
  let ?st = "redeemItem (vw i) target (work ! i) st"
  let ?J = "\<lambda>is st j. justified (vw (is ! j)) target (wvVaa (fst (work ! (is ! j)))) (snd (work ! (is ! j))) (bxState (rn (take j is) st))"
  from planAndSubmit_justified [OF p] Cons.prems obtain a where a: "bsEvents (bxState ?st) = bsEvents (bxState st) @ a"
    "\<And>tx. Submitted tx \<in> set a \<Longrightarrow> ?J (i # is) st 0 tx"
    using redeemItem_result(1) [OF p] by (auto simp: rn_def)
  from Cons.IH [of ?st] Cons.prems obtain b where b: "bsEvents (bxState (rn is ?st)) = bsEvents (bxState ?st) @ b"
    "\<forall>tx. Submitted tx \<in> set b \<longrightarrow> (\<exists>j < length is. ?J is ?st j tx)" by auto
  have step: "?J is ?st j tx \<Longrightarrow> ?J (i # is) st (Suc j) tx" for j tx by (simp add: rn_def)
  have "\<exists>j < length (i # is). ?J (i # is) st j tx" if "Submitted tx \<in> set (a @ b)" for tx
  proof (cases "Submitted tx \<in> set a")
    case True
    from a(2) [OF this] show ?thesis by blast
  next
    case False
    with that b(2) obtain j where "j < length is" "?J is ?st j tx" by auto
    with step show ?thesis by (metis Suc_less_eq length_Cons)
  qed
  moreover have "bsEvents (bxState (rn (i # is) st)) = bsEvents (bxState st) @ a @ b" using a(1) b(1) by (simp add: rn_def)
  ultimately show ?case by blast
qed

definition bridgeStart :: "bridge_state \<Rightarrow> WatermarkStore option \<Rightarrow> (string, string) jsmap option \<Rightarrow> bridge_scan" where
  "bridgeStart s wm seen = \<lparr>bxState = s, bxProgress = False, bxWatermarks = wm, bxMemo = \<lparr>cmSeen = seen, cmIter = []\<rparr>, bxResults = []\<rparr>"

lemma scan_cases:
  assumes "scanAndRedeemBridge w target maxPages seen wm s = (res, st)"
  obtains "st = bridgeStart s wm seen" "isl res" "bwAborted w"
    | work where "work = prefetchWork w target (harvestedFor w target maxPages wm)"
      "st = fold (\<lambda>i. redeemItem (bwView w i) target (work ! i)) (invoked (bwPool w)) (bridgeStart s wm seen)"
      "\<forall>rep. res = Inr rep \<longrightarrow> brWoke rep = bxProgress st"
  using assms
  by (fastforce simp: scanAndRedeemBridge_def bridgeStart_def harvestedFor_def Let_def split: if_splits sum.splits)

text \<open>The state of the scan when the pool takes up VAA \<open>i\<close>: the \<open>i\<close> VAAs before it are done.\<close>

definition scanStateAt ::
  "bridge_world \<Rightarrow> BridgeRedeemTarget \<Rightarrow> nat \<Rightarrow> WatermarkStore option \<Rightarrow> (string, string) jsmap option \<Rightarrow> bridge_state \<Rightarrow> nat \<Rightarrow> bridge_state" where
  "scanStateAt w target maxPages wm seen s i =
     bxState (fold (\<lambda>j. redeemItem (bwView w j) target (prefetchWork w target (harvestedFor w target maxPages wm) ! j)) [0..<i]
       (bridgeStart s wm seen))"

text \<open>C24. A bridge scan submits nothing it should not. Every transaction it submits is for a VAA it harvested, of a target whose
  governance state is complete; the VAA resolves under the target's manager, comes from the target's source chain
  and is addressed to its destination chain; its inbox item, as the plan saw it, is absent, or decodes as an item that is
  not yet approved or whose release time has come. What the plan saw is the entry of the batched read for this VAA or, where
  the batch failed, the plan's own read in the state in which the VAA was taken up; a read that fails counts as absent, as in
  the code. A transaction built here only sets the compute budget, creates the token account of the VAA's
  recipient, and releases the VAA's own inbox item into that account.\<close>

theorem bridge_submits_only_due:
  assumes "scanAndRedeemBridge w target maxPages seen wm s = (res, st)"
    and "pool_reach (length (harvestedFor w target maxPages wm)) c a (bwPool w)"
    and "\<forall>i. \<forall>it \<in> set (harvestedFor w target maxPages wm). sdk_agrees (bwView w i) target (wvVaa it)"
    and "Submitted tx \<in> set (drop (length (bsEvents s)) (bsEvents (bxState st)))"
  shows "\<exists>i r. i < length (harvestedFor w target maxPages wm) \<and> btConfigReady target \<and>
    resolves_to (bwView w i) target (wvVaa (harvestedFor w target maxPages wm ! i)) r \<and>
    pmToChain (rvManager r) = btDestChainId target \<and> rvFromChain r = btSourceChainId target \<and>
    release_due (bwView w i) (inboxSeen (bwView w i) (scanStateAt w target maxPages wm seen s i) (rvNttInboxItem r)
      (snd (prefetchWork w target (harvestedFor w target maxPages wm) ! i))) \<and>
    own_serves (bwView w i) target r tx"
  using assms(1)
proof (cases rule: scan_cases)
  case 1
  with assms(4) show ?thesis by (simp add: bridgeStart_def)
next
  case (2 work)
  let ?vaas = "harvestedFor w target maxPages wm" and ?is = "invoked (bwPool w)"
  have inv: "?is = [0..<cursor (bwPool w)]" "cursor (bwPool w) \<le> length ?vaas"
    using pool_inv_reach [OF assms(2)] by (simp_all add: pool_inv_def)
  then have i: "i < length ?vaas \<and> fst (work ! i) = ?vaas ! i" if "i \<in> set ?is" for i
    using that 2(1) by auto
  then have "\<forall>i \<in> set ?is. sdk_agrees (bwView w i) target (wvVaa (fst (work ! i)))" using assms(3) by auto
  from fold_justified [OF this, of "bridgeStart s wm seen"] 2(2) assms(4) obtain j where j: "j < length ?is"
    "justified (bwView w (?is ! j)) target (wvVaa (fst (work ! (?is ! j)))) (snd (work ! (?is ! j)))
       (bxState (fold (\<lambda>i. redeemItem (bwView w i) target (work ! i)) (take j ?is) (bridgeStart s wm seen))) tx"
    by (auto simp: bridgeStart_def)
  then have "?is ! j = j" "take j ?is = [0..<j]" "j \<in> set ?is" using inv(1) by (auto simp: take_upt)
  with j(2) i 2(1) have "j < length ?vaas" "justified (bwView w j) target (wvVaa (?vaas ! j)) (snd (work ! j)) (scanStateAt w target maxPages wm seen s j) tx"
    by (simp_all add: scanStateAt_def)
  then show ?thesis unfolding justified_def 2(1) by blast
qed

section \<open>The watermark\<close>

definition settledSeqs :: "(int \<times> BridgeRedeemResult) list \<Rightarrow> int list" where
  "settledSeqs results = map fst (filter (\<lambda>(_, x). \<not> is_error x) results)"

lemma settledSeqs_simps [simp]:
  "settledSeqs [] = []" "settledSeqs (rs @ [(q, x)]) = settledSeqs rs @ (if is_error x then [] else [q])"
  by (simp_all add: settledSeqs_def)

definition bridge_marks :: "BridgeRedeemTarget \<Rightarrow> WatermarkStore \<Rightarrow> bridge_scan \<Rightarrow> bool" where
  "bridge_marks target store st \<longleftrightarrow>
     (\<exists>m. bxWatermarks st = Some m \<and> jm_ok m \<and>
        (\<forall>c e. watermark m c e =
           (if c = btSourceChainId target \<and> e = btSourceEmitterHex target
            then Max (insert (watermark store c e) (set (settledSeqs (bxResults st)))) else watermark store c e))) \<and>
     (bxProgress st \<longleftrightarrow> (\<exists>(_, x) \<in> set (bxResults st). is_submitted x))"

lemma bridge_marks_step:
  assumes "bridge_marks target store st"
  shows "bridge_marks target store (redeemItem ctx target x st)"
proof -
  obtain r s where p: "planAndSubmit ctx target (wvVaa (fst x)) (snd x) (bxState st) = (r, s)" by fastforce
  note res = redeemItem_result [OF p]
  from assms obtain m where m: "bxWatermarks st = Some m" "jm_ok m"
    "\<And>c e. watermark m c e = (if c = btSourceChainId target \<and> e = btSourceEmitterHex target
       then Max (insert (watermark store c e) (set (settledSeqs (bxResults st)))) else watermark store c e)"
    "bxProgress st \<longleftrightarrow> (\<exists>(_, x) \<in> set (bxResults st). is_submitted x)"
    unfolding bridge_marks_def by blast
  have "Max (insert a (insert q (set qs))) = max (Max (insert a (set qs))) q" for a q :: int and qs
    by (metis Max_insert finite_insert finite_set insert_commute insert_not_empty max.commute)
  then show ?thesis using m unfolding bridge_marks_def res
    by (auto simp: watermark_recordSeen jm_ok_recordSeen)
qed

lemma bridge_marks_fold:
  "bridge_marks target store st \<Longrightarrow> bridge_marks target store (fold (\<lambda>i. redeemItem (vw i) target (work ! i)) is st)"
  by (induction "is" arbitrary: st) (auto simp: bridge_marks_step)

text \<open>C25. The bridge's watermark is the largest sequence among the one it had and those of the VAAs of this scan that did not end
  in an error; no other emitter is touched, and this holds even when the scan is aborted. The scan asks
  for an early next turn exactly when some VAA was redeemed.\<close>

theorem bridge_watermark:
  assumes "scanAndRedeemBridge w target maxPages seen (Some store) s = (res, st)" "jm_ok store"
  shows "(\<exists>m. bxWatermarks st = Some m \<and> jm_ok m \<and>
      (\<forall>c e. watermark m c e =
         (if c = btSourceChainId target \<and> e = btSourceEmitterHex target
          then Max (insert (watermark store c e) {q. \<exists>x. (q, x) \<in> set (bxResults st) \<and> \<not> is_error x}) else watermark store c e))) \<and>
    (\<forall>rep. res = Inr rep \<longrightarrow> (brWoke rep \<longleftrightarrow> (\<exists>q x. (q, x) \<in> set (bxResults st) \<and> is_submitted x)))"
proof -
  have "bridge_marks target store (bridgeStart s (Some store) seen)"
    using assms(2) by (auto simp: bridge_marks_def bridgeStart_def)
  moreover from assms(1) have "st = bridgeStart s (Some store) seen \<and> isl res \<or>
    (\<exists>vw work is. st = fold (\<lambda>i. redeemItem (vw i) target (work ! i)) is (bridgeStart s (Some store) seen) \<and>
       (\<forall>rep. res = Inr rep \<longrightarrow> brWoke rep = bxProgress st))"
    by (cases rule: scan_cases) blast+
  ultimately have "bridge_marks target store st" "\<forall>rep. res = Inr rep \<longrightarrow> brWoke rep = bxProgress st"
    using bridge_marks_fold by auto
  moreover have "{q. \<exists>x. (q, x) \<in> set (bxResults st) \<and> \<not> is_error x} = set (settledSeqs (bxResults st))"
    by (force simp: settledSeqs_def)
  ultimately show ?thesis by (auto simp: bridge_marks_def)
qed

section \<open>The batched read\<close>

lemma jm_get_batch:
  assumes "inj h"
  shows "jm_get (fold (\<lambda>(k, info). jm_set (h k) info) (zip ks (map f ks @ rest)) []) (h k) =
    (if k \<in> set ks then Some (f k) else None)"
proof -
  have zip: "zip ks (map f ks @ rest) = map (\<lambda>k. (k, f k)) ks" by (simp add: zip_append2 map_zip_map [symmetric] zip_map2 zip_same_conv_map)
  have "jm_ok m \<Longrightarrow> jm_get (fold (\<lambda>(k, info). jm_set (h k) info) (map (\<lambda>k. (k, f k)) ks) m) (h k) =
      (if k \<in> set ks then Some (f k) else jm_get m (h k))" for m
    by (induction ks arbitrary: m) (auto simp: jm.inv_put jm.get_put inj_eq [OF assms])
  from this [of "[]"] show ?thesis by (simp add: zip)
qed

lemma prefetchWork_mem:
  assumes "(it, Some info) \<in> set (prefetchWork w target vaas)"
    and "\<forall>ks. ks \<noteq> [] \<and> length ks \<le> 100 \<longrightarrow> bwGetMultipleAccounts w ks = Inr (map f ks)" "inj (toBase58 (bwEnv w))"
  shows "\<exists>k. inboxKeyOf (bwEnv w) target it = Some k \<and> info = f k"
proof -
  let ?keys = "map (inboxKeyOf (bwEnv w) target) vaas"
  let ?fetch = "map the (filter (\<lambda>k. k \<noteq> None) ?keys)"
  from assms(1) obtain k m where k: "it \<in> set vaas" "inboxKeyOf (bwEnv w) target it = Some k"
    "batchInboxes w ?fetch = Some m" "info = ifNone (jm_get m (toBase58 (bwEnv w) k)) None"
    by (auto simp: prefetchWork_def Let_def zip_map2 zip_same_conv_map split: option.splits prod.splits)
  have "Some k \<in> set (filter (\<lambda>k. k \<noteq> None) ?keys)" using k(1,2) by force
  from imageI [OF this, of the] have mem: "k \<in> set ?fetch" unfolding set_map by simp
  have fetched: "getMultipleAccountsChunked (bwGetMultipleAccounts w) ?fetch None = Inr (map f ?fetch)"
    by (rule chunked_pointwise [OF assms(2)])
  from k(3) have "m = fold (\<lambda>(k, info). jm_set (toBase58 (bwEnv w) k) info)
      (zip ?fetch (map f ?fetch @ replicate (length ?fetch) None)) []"
    using fetched by (auto simp: batchInboxes_def split: if_splits sum.splits)
  then have "jm_get m (toBase58 (bwEnv w) k) = Some (f k)" using jm_get_batch [OF assms(3)] mem by metis
  with k(2,4) show ?thesis by (simp add: ifNone_def)
qed

text \<open>C26. Batching saves requests and changes no decision: when the RPC node answers the batched and the single read of an account
  alike, the plan made from the batch is the plan made from a read of the VAA's own inbox item, for every VAA of
  the scan, and it leaves the same state behind.\<close>

theorem prefetch_transparent:
  assumes "\<forall>ks. ks \<noteq> [] \<and> length ks \<le> 100 \<longrightarrow> bwGetMultipleAccounts w ks = Inr (map f ks)" "inj (toBase58 (bwEnv w))"
    and "bcEnv ctx = bwEnv w" "\<forall>k. bcGetAccountInfo ctx k = Inr (f k)" "\<forall>n. \<not> bcExpired ctx n ''dest.getAccountInfo(InboxItem)''"
    and "(it, pre) \<in> set (prefetchWork w target vaas)"
  shows "planBridgeRedeem ctx target (wvVaa it) pre s = planBridgeRedeem ctx target (wvVaa it) None s"
proof (cases pre)
  case (Some info)
  with assms obtain k where k: "inboxKeyOf (bwEnv w) target it = Some k" "info = f k" using prefetchWork_mem by metis
  have "inboxAccount ctx k (Some info) = inboxAccount ctx k None"
    using assms(4,5) k(2) by (auto simp: inboxAccount_def bridgeTimed_def pure_def)
  with k(1) assms(3) Some show ?thesis
    by (auto simp: planBridgeRedeem_def inboxKeyOf_def split: sum.splits)
qed simp

section \<open>The targets\<close>

lemma fogoRead_Inr: "fogoRead rpc what k = Inr x \<Longrightarrow> frpAccount rpc k = Inr x"
  by (simp add: fogoRead_def split: if_splits)

lemma probeConfig_Inr:
  assumes "probeConfig env rpc prog mint mode = Inr config"
  shows "\<exists>pda info. key_of (findNttConfigPda env prog) = Inr pda \<and> frpAccount rpc pda = Inr (Some info) \<and>
    decodeNttConfig env (aiData info) = Inr config \<and> ncMint config = mint \<and> (\<forall>m. mode = Some m \<longrightarrow> ncMode config = m)"
  using assms by (auto simp: probeConfig_def result_simps split: if_splits dest!: fogoRead_Inr)

lemma probeGovernance_Inr:
  assumes "probeGovernance env rpc prog wh = Inr probed"
    and "key_of (findNttPeerPda env SOLANA_WORMHOLE_CHAIN_ID prog) = Inr peer" "key_of (findRegisteredTransceiverPda env wh prog) = Inr xcvr"
    and "key_of (findInboxRateLimitPda env SOLANA_WORMHOLE_CHAIN_ID prog) = Inr rate"
  shows "filter (\<lambda>(_, present). \<not> present) probed = [] \<longleftrightarrow> list_all (\<lambda>k. \<exists>info. frpAccount rpc k = Inr (Some info)) [peer, xcvr, rate]"
proof -
  from assms obtain a b c where "probed = [(''peer'', a \<noteq> None), (''registered_transceiver'', b \<noteq> None), (''inbox_rate_limit'', c \<noteq> None)]"
    "frpAccount rpc peer = Inr a" "frpAccount rpc xcvr = Inr b" "frpAccount rpc rate = Inr c"
    by (auto simp: probeGovernance_def result_simps dest!: fogoRead_Inr)
  then show ?thesis by simp
qed

lemma redeem_probed:
  assumes "buildFogoNttRedeemIx env ps = Inr ix"
  shows "key_of (findNttPeerPda env SOLANA_WORMHOLE_CHAIN_ID (fnNttManagerProgramId ps)) = Inr (amPubkey (tiKeys ix ! 2))"
    "key_of (findRegisteredTransceiverPda env (ifNone (fnTransceiverProgramId ps) (fnNttManagerProgramId ps)) (fnNttManagerProgramId ps)) =
       Inr (amPubkey (tiKeys ix ! 4))"
    "key_of (findInboxRateLimitPda env SOLANA_WORMHOLE_CHAIN_ID (fnNttManagerProgramId ps)) = Inr (amPubkey (tiKeys ix ! 7))"
  using assms by (auto simp: buildFogoNttRedeemIx_def result_simps Let_def readonly_def writable_def)

text \<open>A target is ready exactly when the accounts its redemptions will read exist: the peer, the registered transceiver and the
  inbound rate limit, which are the third, fifth and eighth account of the redeem instruction built for the same
  manager and transceiver. Its mint and release mode are those of the manager's own configuration, and agree
  with what the operator expects.\<close>

theorem target_ready_iff:
  assumes "buildSolanaOnycToFogoTarget env rpc opts = Inr t \<or> buildSolanaUsdcToFogoTarget env rpc opts = Inr t"
    and "buildFogoNttRedeemIx env ps = Inr ix"
    and "fnNttManagerProgramId ps = btDestNttManagerProgramId t" "fnTransceiverProgramId ps = Some (btDestWhTransceiverProgramId t)"
  shows "(btConfigReady t \<longleftrightarrow> list_all (\<lambda>i. \<exists>info. frpAccount rpc (amPubkey (tiKeys ix ! i)) = Inr (Some info)) [2, 4, 7]) \<and>
    (btConfigReady t \<longleftrightarrow> btConfigError t = None) \<and>
    (\<exists>pda info config. key_of (findNttConfigPda env (btDestNttManagerProgramId t)) = Inr pda \<and> frpAccount rpc pda = Inr (Some info) \<and>
       decodeNttConfig env (aiData info) = Inr config \<and> ncMint config = btDestMint t \<and> ncMode config = btDestReleaseMode t \<and>
       (\<forall>m. foExpectedReleaseMode opts = Some m \<longrightarrow> ncMode config = m))"
proof -
  let ?mode = "foExpectedReleaseMode opts"
  from assms(1) obtain name prog wh mint hex where "probeTarget env rpc name (foDestSigner opts) prog wh mint hex ?mode = Inr t"
    by (auto simp: buildSolanaOnycToFogoTarget_def buildSolanaUsdcToFogoTarget_def Let_def result_simps)
  then obtain config probed where
    p: "probeConfig env rpc prog mint ?mode = Inr config" "probeGovernance env rpc prog wh = Inr probed"
    and t: "btDestNttManagerProgramId t = prog" "btDestWhTransceiverProgramId t = wh" "btDestMint t = mint" "btDestReleaseMode t = ncMode config"
      "btConfigReady t = (filter (\<lambda>(_, present). \<not> present) probed = [])"
      "btConfigError t = configErrorText (filter (\<lambda>(_, present). \<not> present) probed)"
    by (auto simp: probeTarget_def result_simps Let_def)
  note probed = redeem_probed [OF assms(2), unfolded assms(3,4) t(1,2), simplified ifNone_def option.case]
  have "btConfigReady t \<longleftrightarrow> btConfigError t = None" unfolding t(5,6) by (simp add: configErrorText_def)
  moreover have "btConfigReady t \<longleftrightarrow> list_all (\<lambda>i. \<exists>info. frpAccount rpc (amPubkey (tiKeys ix ! i)) = Inr (Some info)) [2, 4, 7]"
    unfolding t(5) probeGovernance_Inr [OF p(2) probed] by simp
  moreover note probeConfig_Inr [OF p(1)]
  ultimately show ?thesis unfolding t(1,3,4) by blast
qed

section \<open>Two ways for a transfer to be left behind\<close>

text \<open>A VAA that must only wait, because the target is not configured yet or because the inbox item is held back by the rate
  limit, is a \<open>noop\<close>, and the watermark moves past it as past a finished one. Once more than \<open>BACKFILL_COUNT\<close> newer
  VAAs have been seen it is below the paging floor, and the bridge has no backstop sweep.\<close>

lemma waiting_vaa_moves_watermark:
  assumes "btConfigReady target \<longrightarrow>
      (\<exists>r info inbox t. resolves_to ctx target (wvVaa it) r \<and> pmToChain (rvManager r) = btDestChainId target \<and>
         rvFromChain r = btSourceChainId target \<and> pre = Some (Some info) \<and>
         decodeNttInboxItem (bcEnv ctx) (aiData info) = Inr inbox \<and> iiReleaseStatus inbox = ReleaseAfter t \<and> bcNowMs ctx div 1000 < t)"
  shows "bxWatermarks (redeemItem ctx target (it, pre) st) =
    map_option (\<lambda>m. recordSeen m (btSourceChainId target) (btSourceEmitterHex target) (wvSequence it)) (bxWatermarks st)"
proof -
  have "\<exists>reason ro. planBridgeRedeem ctx target (wvVaa it) pre = pure (Inr (noopPlan reason, ro))"
    using assms
    by (cases "btConfigReady target")
       (auto simp: planBridgeRedeem_def resolves_to_def inboxAccount_def inboxGate_def pbind_def pure_def fun_eq_iff)
  then show ?thesis
    by (auto simp: redeemItem_def planAndSubmit_def executeBridgePlan_def noopPlan_def counting_def pbind_def pure_def Let_def)
qed

text \<open>The plan derives the recipient's token account for on-curve owners only, so a transfer to a program-derived address fails
  in every scan before anything is submitted, although the redemption itself would accept the owner.\<close>

lemma off_curve_recipient_fails:
  assumes "btConfigReady target" "resolves_to ctx target vaa r" "pmToChain (rvManager r) = btDestChainId target"
    and "rvFromChain r = btSourceChainId target"
    and "ata (bcEnv ctx) (btDestMint target) (rvRecipientOnSolana r) False (TOKEN_PROGRAM_ID (bcEnv ctx)) = Inl e"
  shows "planAndSubmit ctx target vaa (Some None) s = (Inl (of_js_error e), s)"
  using assms
  by (simp add: planAndSubmit_def planBridgeRedeem_def resolves_to_def inboxAccount_def releasePlan_def pbind_def pure_def Let_def)

section \<open>A concrete scan\<close>

definition model_bridge_ctx :: BridgeContext where
  "model_bridge_ctx =
     \<lparr>bcEnv = model_env, bcPriorityFee = 1000, bcNowMs = 10000, bcGetAccountInfo = (\<lambda>_. Inr None), bcExpired = (\<lambda>_ _. False),
      bcAborted = (\<lambda>_. False), bcSend = (\<lambda>_ _. Inr ''sig''), bcConfirm = (\<lambda>_ _. Inr ()), bcBlockhash = (\<lambda>_. Inr ''bh''),
      bcDeserialize = (\<lambda>_. Inr (replicate 32 4)), bcIsExecuted = (\<lambda>_ _. Inr False),
      bcRedeem = (\<lambda>_ _ _. ([(True, ''Redeem'')], None))\<rparr>"

definition model_target :: BridgeRedeemTarget where
  "model_target =
     \<lparr>btName = ''t'', btSourceChainId = 51, btSourceEmitterHex = ''ab'', btDestChainId = 1,
      btDestNttManagerProgramId = replicate 32 20, btDestWhTransceiverProgramId = replicate 32 20, btDestMint = replicate 32 21,
      btDestSigner = replicate 32 22, btDestReleaseMode = Burning, btConfigReady = True, btConfigError = None\<rparr>"

definition model_world :: bridge_world where
  "model_world =
     \<lparr>bwAborted = False, bwPages = (\<lambda>_. Inr [model_item]), bwAbortedAt = (\<lambda>_. False), bwEnv = model_env,
      bwGetMultipleAccounts = (\<lambda>ks. Inr (map (\<lambda>_. None) ks)), bwBatchExpired = False, bwView = (\<lambda>_. model_bridge_ctx),
      bwPool = oneItemRun ! 3\<rparr>"

definition model_bridge_state :: bridge_state where
  "model_bridge_state = \<lparr>bsEvents = [], bsNttCache = []\<rparr>"

lemma model_bridge_resolves:
  "\<exists>r. resolves_to model_bridge_ctx model_target (wvVaa model_item) r \<and> rvManager r = model_manager (replicate 32 4) \<and> rvFromChain r = 51 \<and>
     rvRecipientOnSolana r = replicate 32 4"
proof -
  have "length (replicate 32 4 :: pubkey) = 32" by simp
  from resolveNttVaa_enc [OF model_env_ctor model_env_total model_vaa_wf [OF this], of "[]" "[]" "replicate 32 20" "Some (replicate 32 20)"]
  show ?thesis
    by (auto simp: resolves_to_def model_bridge_ctx_def model_target_def model_item_def model_vaa_def model_transceiver_def model_manager_def)
qed

lemma releasePlan_total:
  assumes "env_total (bcEnv ctx)"
  shows "releasePlan ctx target r None = Inr \<lparr>bpAction = RedeemAndRelease, bpReason = None, bpIxs = []\<rparr>"
proof -
  obtain a where a: "ata (bcEnv ctx) (btDestMint target) (rvRecipientOnSolana r) False (TOKEN_PROGRAM_ID (bcEnv ctx)) = Inr a"
    using assms unfolding env_total_def by blast
  obtain c where c: "key_of (findNttConfigPda (bcEnv ctx) (btDestNttManagerProgramId target)) = Inr c"
    using key_of_Ex [OF assms] unfolding findNttConfigPda_def by blast
  obtain t where t: "key_of (findTokenAuthorityPda (bcEnv ctx) (btDestNttManagerProgramId target)) = Inr t"
    using key_of_Ex [OF assms] unfolding findTokenAuthorityPda_def by blast
  obtain k where k: "ata (bcEnv ctx) (btDestMint target) t True (TOKEN_PROGRAM_ID (bcEnv ctx)) = Inr k"
    using assms unfolding env_total_def by blast
  have "\<exists>ix. buildReleaseInboundIx (bcEnv ctx) (releaseParams target (rvNttInboxItem r) a) d = Inr ix" for d
    by (simp add: buildReleaseInboundIx_def releaseParams_def findNttCustodyAta_def c t k Let_def)
  then obtain ix ix' where "buildFogoNttReleaseInboundMintIx (bcEnv ctx) (releaseParams target (rvNttInboxItem r) a) = Inr ix"
    "buildFogoNttReleaseInboundUnlockIx (bcEnv ctx) (releaseParams target (rvNttInboxItem r) a) = Inr ix'"
    unfolding buildFogoNttReleaseInboundMintIx_def buildFogoNttReleaseInboundUnlockIx_def by blast
  with a show ?thesis by (simp add: releasePlan_def Let_def)
qed

lemma model_redeems:
  assumes "pre \<in> {None, Some None}"
  shows "\<exists>new. planAndSubmit model_bridge_ctx model_target (wvVaa model_item) pre model_bridge_state =
      (Inr (BridgeSubmitted ''sig'' RedeemAndRelease), new) \<and> (\<exists>tx rest. bsEvents new = Submitted tx # rest)"
proof -
  obtain r where r: "resolves_to model_bridge_ctx model_target (wvVaa model_item) r" "rvManager r = model_manager (replicate 32 4)"
    "rvFromChain r = 51" "rvRecipientOnSolana r = replicate 32 4" using model_bridge_resolves by blast
  have plan: "releasePlan model_bridge_ctx model_target r None = Inr \<lparr>bpAction = RedeemAndRelease, bpReason = None, bpIxs = []\<rparr>"
    by (rule releasePlan_total) (simp add: model_bridge_ctx_def model_env_total)
  show ?thesis
    using assms r(1) plan
    by (auto simp: planAndSubmit_def planBridgeRedeem_def resolves_to_def inboxAccount_def executeBridgePlan_def executeSdkBundledRedeem_def
        r(2,3) model_manager_def model_target_def model_bridge_ctx_def model_bridge_state_def pbind_def pure_def bridgeTimed_def
        getOrCreateSolanaNtt_def ensureRecipientAta_def model_env_def transmit_def count_def counting_def attempt_def redeemStep_def
        latestBlockhash_def confirmTransaction_def truthy_def jm_get_def Let_def)
qed

lemma model_world_harvest: "harvestedFor model_world model_target 1 wm = [model_item]"
  by (simp add: harvestedFor_def harvestVaaPages_def model_world_def catch_def Let_def)

lemma model_world_pool: "pool_reach 1 1 False (bwPool model_world)" "invoked (bwPool model_world) = [0]"
proof -
  have "oneItemRun ! 0 = startPool 1 False" by (simp add: oneItemRun_def Let_def)
  then show "pool_reach 1 1 False (bwPool model_world)" using oneItemRun_steps by (simp add: model_world_def) (metis pool_reach.intros)
  show "invoked (bwPool model_world) = [0]" by (simp add: model_world_def oneItemRun_def Let_def numeral_eq_Suc)
qed

lemma model_prefetch: "prefetchWork model_world model_target [model_item] = [(model_item, Some None)]"
proof -
  obtain r where "resolves_to model_bridge_ctx model_target (wvVaa model_item) r" using model_bridge_resolves by blast
  then have "inboxKeyOf model_env model_target model_item = Some (rvNttInboxItem r)"
    by (simp add: inboxKeyOf_def resolves_to_def model_bridge_ctx_def)
  moreover have "getMultipleAccountsChunked (bwGetMultipleAccounts model_world) ks None = Inr (map (\<lambda>_. None) ks)" for ks :: "pubkey list"
    by (rule chunked_pointwise) (simp add: model_world_def)
  moreover have "bwEnv model_world = model_env" "\<not> bwBatchExpired model_world" by (simp_all add: model_world_def)
  ultimately show ?thesis by (simp add: prefetchWork_def batchInboxes_def jm_get_def jm_set_def ifNone_def Let_def)
qed

lemma model_scan_redeems:
  "\<exists>res st tx. scanAndRedeemBridge model_world model_target 1 None wm model_bridge_state = (res, st) \<and> Submitted tx \<in> set (bsEvents (bxState st)) \<and>
     bxResults st = [(9, BridgeSubmitted ''sig'' RedeemAndRelease)]"
proof -
  obtain res st where scan: "scanAndRedeemBridge model_world model_target 1 None wm model_bridge_state = (res, st)" by fastforce
  obtain new tx rest where p: "planAndSubmit model_bridge_ctx model_target (wvVaa model_item) (Some None) model_bridge_state =
      (Inr (BridgeSubmitted ''sig'' RedeemAndRelease), new)" "bsEvents new = Submitted tx # rest" using model_redeems by blast
  have st: "st = redeemItem model_bridge_ctx model_target (model_item, Some None) (bridgeStart model_bridge_state wm None)"
    using scan
  proof (cases rule: scan_cases)
    case (2 work)
    have "bwView model_world i = model_bridge_ctx" for i by (simp add: model_world_def)
    with 2(2) show ?thesis unfolding 2(1) model_world_harvest model_prefetch model_world_pool(2) by simp
  qed (simp add: model_world_def)
  have "planAndSubmit model_bridge_ctx model_target (wvVaa (fst (model_item, Some None))) (snd (model_item, Some None))
      (bxState (bridgeStart model_bridge_state wm None)) = (Inr (BridgeSubmitted ''sig'' RedeemAndRelease), new)"
    using p(1) by (simp add: bridgeStart_def)
  from redeemItem_result(1,2) [OF this] have "Submitted tx \<in> set (bsEvents (bxState st))"
    "bxResults st = [(9, BridgeSubmitted ''sig'' RedeemAndRelease)]" using st p(2) by (simp_all add: bridgeStart_def model_item_def)
  with scan show ?thesis by blast
qed

theorem bridge_submits_only_due_witness:
  "\<exists>res st tx r. scanAndRedeemBridge model_world model_target 1 None None model_bridge_state = (res, st) \<and>
     Submitted tx \<in> set (bsEvents (bxState st)) \<and> resolves_to model_bridge_ctx model_target (wvVaa model_item) r \<and>
     release_due model_bridge_ctx (inboxSeen model_bridge_ctx model_bridge_state (rvNttInboxItem r) (Some None)) \<and>
     own_serves model_bridge_ctx model_target r tx"
proof -
  obtain res st tx where scan: "scanAndRedeemBridge model_world model_target 1 None None model_bridge_state = (res, st)"
    "Submitted tx \<in> set (bsEvents (bxState st))" using model_scan_redeems by blast
  obtain r where r: "resolves_to model_bridge_ctx model_target (wvVaa model_item) r" "rvManager r = model_manager (replicate 32 4)"
    using model_bridge_resolves by blast
  have agrees: "sdk_agrees model_bridge_ctx model_target (wvVaa model_item)"
    using r by (auto simp: sdk_agrees_def resolves_to_def model_manager_def) (simp add: model_bridge_ctx_def)
  have vw: "bwView model_world i = model_bridge_ctx" for i by (simp add: model_world_def)
  have ev: "bsEvents model_bridge_state = []" by (simp add: model_bridge_state_def)
  have "scanStateAt model_world model_target 1 None None model_bridge_state 0 = model_bridge_state"
    by (simp add: scanStateAt_def bridgeStart_def)
  with bridge_submits_only_due [OF scan(1), of 1 False tx, unfolded model_world_harvest] model_world_pool(1) scan(2) agrees
  obtain r where "resolves_to model_bridge_ctx model_target (wvVaa model_item) r" "own_serves model_bridge_ctx model_target r tx"
     "release_due model_bridge_ctx (inboxSeen model_bridge_ctx model_bridge_state (rvNttInboxItem r) (Some None))"
    by (auto simp: vw ev model_prefetch)
  with scan show ?thesis by blast
qed

theorem bridge_watermark_witness:
  "\<exists>res st m. scanAndRedeemBridge model_world model_target 1 None (Some []) model_bridge_state = (res, st) \<and> bxWatermarks st = Some m \<and>
     watermark m 51 ''ab'' = 9"
proof -
  obtain res st where scan: "scanAndRedeemBridge model_world model_target 1 None (Some []) model_bridge_state = (res, st)"
    "bxResults st = [(9, BridgeSubmitted ''sig'' RedeemAndRelease)]" using model_scan_redeems by blast
  have "{q. \<exists>x. (q, x) \<in> set (bxResults st) \<and> \<not> is_error x} = {9}" using scan(2) by auto
  with bridge_watermark [OF scan(1)] scan(1) show ?thesis
    by (auto simp: model_target_def watermark_def)
qed

theorem prefetch_transparent_witness:
  "prefetchWork model_world model_target [model_item] = [(model_item, Some None)] \<and>
   planBridgeRedeem model_bridge_ctx model_target (wvVaa model_item) (Some None) model_bridge_state =
     planBridgeRedeem model_bridge_ctx model_target (wvVaa model_item) None model_bridge_state"
  using prefetch_transparent [of model_world "\<lambda>_. None" model_bridge_ctx model_item "Some None" model_target "[model_item]" model_bridge_state]
    model_prefetch model_inj
  by (simp add: model_world_def model_bridge_ctx_def)

definition model_ntt_config :: NttConfig where
  "model_ntt_config = \<lparr>ncBump = 254, ncOwner = replicate 32 1, ncPendingOwner = None, ncMint = replicate 32 3,
     ncTokenProgram = replicate 32 4, ncMode = Burning, ncChainId = 51, ncNextTransceiverId = 1, ncThreshold = 1,
     ncEnabledTransceivers = 1, ncPaused = False, ncCustody = replicate 32 5\<rparr>"

definition model_rpc :: fogo_rpc where
  "model_rpc = \<lparr>frpAccount = (\<lambda>_. Inr (Some \<lparr>aiOwner = [], aiLamports = 1, aiData = encodeNttConfig model_env model_ntt_config\<rparr>)),
     frpExpired = (\<lambda>_. False)\<rparr>"

definition model_target_options :: target_options where
  "model_target_options = \<lparr>foDestSigner = replicate 32 22, foEmitterHex = Some ''ab'', foNttProgramId = Some (replicate 32 20),
     foWhTransceiverProgramId = None, foMint = Some (replicate 32 3), foExpectedReleaseMode = Some Burning\<rparr>"

theorem target_ready_iff_witness:
  "\<exists>t. buildSolanaUsdcToFogoTarget model_env model_rpc model_target_options = Inr t \<and> btConfigReady t \<and> btDestReleaseMode t = Burning"
proof -
  have "decodeNttConfig model_env (encodeNttConfig model_env model_ntt_config @ []) = Inr model_ntt_config"
    by (rule decodeNttConfig_round_trip [OF model_env_ctor model_env_sha]) (simp add: config_wf_def model_ntt_config_def)
  then have "probeConfig model_env model_rpc (replicate 32 20) (replicate 32 3) (Some Burning) = Inr model_ntt_config"
    using key_of_Ex [OF model_env_total, of "[NTT_CONFIG_SEED]"]
    by (auto simp: probeConfig_def fogoRead_def model_rpc_def findNttConfigPda_def model_ntt_config_def)
       (metis (no_types, lifting) lift_simps(2) rbind_Inr)
  moreover obtain peer xcvr rate where
    k: "key_of (findNttPeerPda model_env SOLANA_WORMHOLE_CHAIN_ID (replicate 32 20)) = Inr peer"
    "key_of (findRegisteredTransceiverPda model_env (replicate 32 20) (replicate 32 20)) = Inr xcvr"
    "key_of (findInboxRateLimitPda model_env SOLANA_WORMHOLE_CHAIN_ID (replicate 32 20)) = Inr rate"
    by (simp add: findNttPeerPda_def findRegisteredTransceiverPda_def findInboxRateLimitPda_def chainIdBeBuf_def SOLANA_WORMHOLE_CHAIN_ID_def
        key_of_def model_env_def)
  then have "\<exists>probed. probeGovernance model_env model_rpc (replicate 32 20) (replicate 32 20) = Inr probed"
    by (simp add: probeGovernance_def fogoRead_def model_rpc_def)
  ultimately obtain t where t: "buildSolanaUsdcToFogoTarget model_env model_rpc model_target_options = Inr t"
    "btDestNttManagerProgramId t = replicate 32 20" "btDestWhTransceiverProgramId t = replicate 32 20" "btDestReleaseMode t = Burning"
    by (auto simp: buildSolanaUsdcToFogoTarget_def sourceEmitter_def probeTarget_def model_target_options_def model_ntt_config_def ifNone_def Let_def)
  define ps where "ps = \<lparr>fnPayer = [], fnNttManagerProgramId = replicate 32 20, fnMint = [], fnNttTransceiverMessage = [], fnNttInboxItem = [],
    fnTransceiverProgramId = Some (replicate 32 20 :: pubkey)\<rparr>"
  have "\<exists>ix. buildFogoNttRedeemIx model_env ps = Inr ix"
    using k key_of_Ex [OF model_env_total, of "[NTT_CONFIG_SEED]" "replicate 32 20"]
      key_of_Ex [OF model_env_total, of "[OUTBOX_RATE_LIMIT_SEED]" "replicate 32 20"]
    by (auto simp: buildFogoNttRedeemIx_def ps_def findNttConfigPda_def findOutboxRateLimitPda_def ifNone_def Let_def)
  then obtain ix where "buildFogoNttRedeemIx model_env ps = Inr ix" by blast
  from target_ready_iff [OF disjI2 [OF t(1)] this] t have "btConfigReady t" by (simp add: ps_def model_rpc_def)
  with t show ?thesis by blast
qed

end
