(* ===== verification/Pyth.thy ===== *)
theory Pyth
  imports Relayer_Base Complex_Main
begin

text \<open>
  The ONyc NAV on Pyth: the reader of \<open>packages/sdk/src/utils/pyth-onyc-nav.ts\<close> and the keeper of
  \<open>packages/cranker/src/pyth/keeper.ts\<close>, which posts Hermes updates to FOGO when the price there is stale.

  HTTP, RPC and the Pyth receiver SDK are parameters. A price in USD is a real number (the rounding of doubles is not
  modelled), a publish time an integer.
\<close>

section \<open>The price account\<close>

definition PYTH_PUSH_ORACLE_PROGRAM_ID :: pubkey where
  "PYTH_PUSH_ORACLE_PROGRAM_ID = pk58 ''pythWSnswVUd12oZpeFP8e9CVaEqJg25g1Vtc2biRsT''"

definition ONYC_PYTH_FEED_ID :: string where
  "ONYC_PYTH_FEED_ID = ''babbfcc7f46b6e7df73adcccece8b6782408ed27c4e77f35ba39a449440170ab''"

text \<open>\<open>Buffer.from(text, 'hex')\<close> stops at the first pair that is not hexadecimal.\<close>

fun bufferFromHex :: "string \<Rightarrow> bytes" where
  "bufferFromHex (a # b # s) =
     (if hex_char a \<and> hex_char b then of_nat (16 * hex_value a + hex_value b) # bufferFromHex s else [])"
| "bufferFromHex _ = []"

definition getPythPriceFeedAccount :: "web3_env \<Rightarrow> string \<Rightarrow> nat \<Rightarrow> pubkey result" where
  "getPythPriceFeedAccount env feedId shardId =
     (if 65535 < shardId then Inl (RangeError ''The value is out of range'')
      else key_of (fpa env [nat_le 2 shardId, bufferFromHex feedId] PYTH_PUSH_ORACLE_PROGRAM_ID))"

text \<open>\<open>buf.indexOf(bytes)\<close>: where the bytes occur first.\<close>

fun indexOf :: "bytes \<Rightarrow> bytes \<Rightarrow> nat option" where
  "indexOf needle [] = (if needle = [] then Some 0 else None)"
| "indexOf needle (b # buf) =
     (if take (length needle) (b # buf) = needle then Some 0 else map_option Suc (indexOf needle buf))"

definition read_i32 :: "bytes \<Rightarrow> nat \<Rightarrow> (int \<times> nat) result" where
  "read_i32 buf off = rbind (get_le 4 buf off) (\<lambda>v. Inr (if v < 2 ^ 31 then int v else int v - 2 ^ 32, off + 4))"

record DecodedPriceUpdate =
  puPrice :: int
  puExpo :: int
  puPublishTime :: int

definition decodePriceUpdate :: "bytes \<Rightarrow> string \<Rightarrow> DecodedPriceUpdate option result" where
  "decodePriceUpdate data feedId =
     (case indexOf (bufferFromHex feedId) data of
        None \<Rightarrow> Inr None
      | Some off \<Rightarrow>
          rbind (read_i64 data (off + 32)) (\<lambda>(price, _).
          rbind (read_i32 data (off + 48)) (\<lambda>(expo, _).
          rbind (read_i64 data (off + 52)) (\<lambda>(publishTime, _).
            Inr (Some \<lparr>puPrice = price, puExpo = expo, puPublishTime = publishTime\<rparr>)))))"

definition scaled :: "int \<Rightarrow> int \<Rightarrow> real" where
  "scaled price expo = real_of_int price * (if 0 \<le> expo then 10 ^ nat expo else inverse (10 ^ nat (- expo)))"

definition decodeNavFromPriceUpdate :: "bytes \<Rightarrow> string \<Rightarrow> real option result" where
  "decodeNavFromPriceUpdate data feedId =
     rbind (decodePriceUpdate data feedId) (\<lambda>d. Inr (map_option (\<lambda>u. scaled (puPrice u) (puExpo u)) d))"

section \<open>Hermes\<close>

record PythOnycNav =
  pnNavUsd :: real
  pnPublishTime :: int
  pnPrice :: int
  pnExpo :: int

text \<open>\<open>parsed?: { price?: { price: string, expo: number, publish_time: number } }[]\<close>\<close>

type_synonym hermes_parsed = "(string \<times> int \<times> int) option list option"

definition fetchOnycNavFromHermes :: "hermes_parsed fetch \<Rightarrow> string \<Rightarrow> string \<Rightarrow> PythOnycNav result" where
  "fetchOnycNavFromHermes fetchImpl endpoint feedId =
     rbind (fetchImpl (endpoint @ ''/v2/updates/price/latest?ids[]='' @ feedId @ ''&parsed=true'')) (\<lambda>res.
       if \<not> rsOk res then Inl (Error ''Pyth Hermes returned'')
       else rbind (rsJson res) (\<lambda>json.
         case Option.bind json (\<lambda>ps. case ps of [] \<Rightarrow> None | p # _ \<Rightarrow> p) of
           None \<Rightarrow> Inl (Error ''Pyth Hermes: no parsed price for the ONyc feed'')
         | Some (price, expo, publishTime) \<Rightarrow>
             rbind (BigInt price) (\<lambda>n.
               Inr \<lparr>pnNavUsd = scaled n expo, pnPublishTime = publishTime, pnPrice = n, pnExpo = expo\<rparr>)))"

section \<open>The keeper\<close>

record PythNavKeeperArgs =
  pkHermesUrl :: string
  pkFeedId :: string
  pkShardId :: nat
  pkMaxAgeMs :: int

datatype KeeperResult = Posted | Fresh | KeeperError

text \<open>What a round of the keeper meets: FOGO's account, Hermes, the Pyth receiver (the number of transactions it sent), the time.\<close>

record keeper_round =
  krGetAccountInfo :: "pubkey \<Rightarrow> thrown + account_info option"
  krHermes :: "string list option fetch"
  krPost :: "string list \<Rightarrow> nat \<Rightarrow> thrown + nat"
  krNow :: int

definition isFresh :: "PythNavKeeperArgs \<Rightarrow> keeper_round \<Rightarrow> pubkey \<Rightarrow> thrown + bool" where
  "isFresh args w priceAccount =
     rbind (krGetAccountInfo w priceAccount) (\<lambda>info.
       case info of
         None \<Rightarrow> Inr False
       | Some i \<Rightarrow>
           rbind (lift (decodePriceUpdate (aiData i) (pkFeedId args))) (\<lambda>decoded.
             Inr (case decoded of
                    None \<Rightarrow> False
                  | Some u \<Rightarrow> krNow w - puPublishTime u * 1000 < pkMaxAgeMs args)))"

definition fetchSignedUpdate :: "PythNavKeeperArgs \<Rightarrow> keeper_round \<Rightarrow> thrown + string list" where
  "fetchSignedUpdate args w =
     rbind (lift (krHermes w (pkHermesUrl args @ ''/v2/updates/price/latest?ids[]='' @ pkFeedId args @ ''&encoding=base64''))) (\<lambda>res.
       if \<not> rsOk res then Inl (of_js_error (Error ''Pyth Hermes returned''))
       else rbind (lift (rsJson res)) (\<lambda>data.
         if ifNone data [] = [] then Inl (of_js_error (Error ''Pyth Hermes: no signed update data'')) else Inr (the data)))"

text \<open>The result of a round, and the updates handed to the receiver.\<close>

definition runOnce :: "PythNavKeeperArgs \<Rightarrow> keeper_round \<Rightarrow> pubkey \<Rightarrow> KeeperResult \<times> string list list" where
  "runOnce args w priceAccount =
     (case isFresh args w priceAccount of
        Inl _ \<Rightarrow> (KeeperError, [])
      | Inr True \<Rightarrow> (Fresh, [])
      | Inr False \<Rightarrow>
          (case fetchSignedUpdate args w of
             Inl _ \<Rightarrow> (KeeperError, [])
           | Inr signedUpdate \<Rightarrow>
               (case krPost w signedUpdate (pkShardId args) of
                  Inl _ \<Rightarrow> (KeeperError, [signedUpdate])
                | Inr _ \<Rightarrow> (Posted, [signedUpdate]))))"

definition checkIntervalMs :: "PythNavKeeperArgs \<Rightarrow> int" where
  "checkIntervalMs args = max 30000 (pkMaxAgeMs args div 2)"

text \<open>The rounds of the keeper until the abort signal is seen, each with the sleep after it.\<close>

fun keeperLoop :: "PythNavKeeperArgs \<Rightarrow> pubkey \<Rightarrow> (bool \<times> keeper_round) list \<Rightarrow> (KeeperResult \<times> int) list" where
  "keeperLoop args priceAccount [] = []"
| "keeperLoop args priceAccount ((aborted, w) # rest) =
     (if aborted then [] else (fst (runOnce args w priceAccount), checkIntervalMs args) # keeperLoop args priceAccount rest)"

definition startPythNavKeeper :: "web3_env \<Rightarrow> PythNavKeeperArgs \<Rightarrow> (bool \<times> keeper_round) list \<Rightarrow> (KeeperResult \<times> int) list result" where
  "startPythNavKeeper env args rounds =
     rbind (getPythPriceFeedAccount env (pkFeedId args) (pkShardId args)) (\<lambda>priceAccount. Inr (keeperLoop args priceAccount rounds))"

section \<open>The decoder reads what the oracle writes\<close>

definition enc_i32 :: "int \<Rightarrow> bytes" where
  "enc_i32 v = nat_le 4 (nat (v mod 2 ^ 32))"

interpretation i32: codec enc_i32 read_i32 "\<lambda>v. - (2 ^ 31) \<le> v \<and> v < 2 ^ 31"
proof
  fix v :: int and off :: nat and buf rest :: bytes
  assume v: "- (2 ^ 31) \<le> v \<and> v < 2 ^ 31" and d: "drop off buf = enc_i32 v @ rest"
  have "nat (v mod 2 ^ 32) < 256 ^ 4" by (simp add: nat_less_iff)
  with d have "read_le 4 buf off = Inr (nat (v mod 2 ^ 32), off + 4)"
    by (intro read_le_enc) (simp_all add: enc_i32_def)
  then have "get_le 4 buf off = Inr (nat (v mod 2 ^ 32))" by (auto simp: read_le_def result_simps)
  moreover have "v mod 2 ^ 32 = (if 0 \<le> v then v else v + 2 ^ 32)"
  proof (cases "0 \<le> v")
    case False
    have "v mod 2 ^ 32 = (v + 2 ^ 32) mod 2 ^ 32" by (rule mod_add_self2 [symmetric])
    also have "\<dots> = v + 2 ^ 32" using False v by (intro mod_pos_pos_trivial) auto
    finally show ?thesis using False by simp
  qed (use v in simp)
  ultimately show "read_i32 buf off = Inr (v, off + length (enc_i32 v))"
    using v by (auto simp: read_i32_def enc_i32_def nat_less_iff split: if_splits)
qed

text \<open>A \<open>PriceUpdateV2\<close> account: a header of any length (write authority, verification level), then the price message.\<close>

record price_message =
  pmFeed :: bytes
  pmPrice :: int
  pmConf :: nat
  pmExpo :: int
  pmPublish :: int

definition encodePriceMessage :: "price_message \<Rightarrow> bytes" where
  "encodePriceMessage m = pmFeed m @ enc_i64 (pmPrice m) @ nat_le 8 (pmConf m) @ enc_i32 (pmExpo m) @ enc_i64 (pmPublish m)"

definition price_message_wf :: "price_message \<Rightarrow> bool" where
  "price_message_wf m \<longleftrightarrow> length (pmFeed m) = 32 \<and> - (2 ^ 63) \<le> pmPrice m \<and> pmPrice m < 2 ^ 63 \<and> - (2 ^ 31) \<le> pmExpo m \<and>
     pmExpo m < 2 ^ 31 \<and> - (2 ^ 63) \<le> pmPublish m \<and> pmPublish m < 2 ^ 63"

text \<open>The feed id does not occur earlier than where the message puts it.\<close>

definition first_at :: "bytes \<Rightarrow> bytes \<Rightarrow> nat \<Rightarrow> bool" where
  "first_at needle buf n \<longleftrightarrow> take (length needle) (drop n buf) = needle \<and> (\<forall>i < n. take (length needle) (drop i buf) \<noteq> needle)"

lemma indexOf_first: "n < length buf \<Longrightarrow> first_at needle buf n \<Longrightarrow> indexOf needle buf = Some n"
proof (induction buf arbitrary: n)
  case (Cons b buf)
  show ?case
  proof (cases n)
    case 0
    with Cons.prems show ?thesis by (simp add: first_at_def)
  next
    case (Suc m)
    have "take (length needle) (b # buf) \<noteq> needle" using Cons.prems(2) Suc by (auto simp: first_at_def)
    moreover have "first_at needle buf m" using Cons.prems(2) Suc unfolding first_at_def by (metis Suc_less_eq drop_Suc_Cons)
    ultimately show ?thesis using Cons.IH [of m] Cons.prems(1) Suc by simp
  qed
qed simp

lemma decodePriceUpdate_enc:
  assumes "price_message_wf m" "bufferFromHex feedId = pmFeed m"
    and "first_at (pmFeed m) (pre @ encodePriceMessage m @ rest) (length pre)"
  shows "decodePriceUpdate (pre @ encodePriceMessage m @ rest) feedId =
    Inr (Some \<lparr>puPrice = pmPrice m, puExpo = pmExpo m, puPublishTime = pmPublish m\<rparr>)"
proof -
  let ?buf = "pre @ encodePriceMessage m @ rest"
  have len: "length (pmFeed m) = 32" "length (enc_i64 v) = 8" "length (enc_i32 w) = 4" for v w
    using assms(1) by (simp_all add: price_message_wf_def enc_i64_def enc_i32_def)
  then have "length pre < length ?buf" by (simp add: encodePriceMessage_def)
  from indexOf_first [OF this assms(3)] have off: "indexOf (bufferFromHex feedId) ?buf = Some (length pre)" by (simp add: assms(2))
  have d: "drop (length pre + 32) ?buf = enc_i64 (pmPrice m) @ nat_le 8 (pmConf m) @ enc_i32 (pmExpo m) @ enc_i64 (pmPublish m) @ rest"
    "drop (length pre + 48) ?buf = enc_i32 (pmExpo m) @ enc_i64 (pmPublish m) @ rest"
    "drop (length pre + 52) ?buf = enc_i64 (pmPublish m) @ rest"
    by (simp_all add: encodePriceMessage_def len)
  show ?thesis
    using i64.dec_enc [OF _ d(1)] i32.dec_enc [OF _ d(2)] i64.dec_enc [OF _ d(3)] assms(1)
    by (simp add: decodePriceUpdate_def off price_message_wf_def)
qed

section \<open>The keeper posts when it should\<close>

text \<open>The keeper hands an update to the receiver only when FOGO's account is missing, does not hold the feed, or holds a price
  at least \<open>maxAgeMs\<close> old; the update is what Hermes returned, unchanged and not empty. When the account holds a
  well-formed message of the feed that is younger, nothing is posted whatever Hermes says.\<close>

theorem keeper_posts_when_stale:
  assumes "runOnce args w account = (res, posts)"
  shows "(posts \<noteq> [] \<longrightarrow>
      (\<exists>info. krGetAccountInfo w account = Inr info \<and>
         (\<forall>i m pre rest. info = Some i \<and> aiData i = pre @ encodePriceMessage m @ rest \<and> price_message_wf m \<and>
            bufferFromHex (pkFeedId args) = pmFeed m \<and> first_at (pmFeed m) (aiData i) (length pre) \<longrightarrow>
            pkMaxAgeMs args \<le> krNow w - pmPublish m * 1000)) \<and>
      (\<exists>u. u \<noteq> [] \<and> posts = [u] \<and> fetchSignedUpdate args w = Inr u \<and> (res = Posted \<longleftrightarrow> \<not> isl (krPost w u (pkShardId args))))) \<and>
    (res = Fresh \<longrightarrow> posts = [])"
proof -
  have fresh: "isFresh args w account = Inr (krNow w - pmPublish m * 1000 < pkMaxAgeMs args)"
    if "krGetAccountInfo w account = Inr (Some i)" "aiData i = pre @ encodePriceMessage m @ rest" "price_message_wf m"
      "bufferFromHex (pkFeedId args) = pmFeed m" "first_at (pmFeed m) (aiData i) (length pre)" for i m pre rest
    using that decodePriceUpdate_enc [of m "pkFeedId args" pre rest] by (simp add: isFresh_def)
  have update: "fetchSignedUpdate args w = Inr u \<Longrightarrow> u \<noteq> []" for u
    by (auto simp: fetchSignedUpdate_def result_simps ifNone_def split: if_splits option.splits)
  show ?thesis
  proof (cases "posts = []")
    case False
    then have stale: "isFresh args w account = Inr False" and "\<exists>u. fetchSignedUpdate args w = Inr u \<and> posts = [u] \<and>
        (res = Posted \<longleftrightarrow> \<not> isl (krPost w u (pkShardId args)))" "res \<noteq> Fresh"
      using assms by (auto simp: runOnce_def split: sum.splits bool.splits)
    moreover from stale obtain info where "krGetAccountInfo w account = Inr info" by (auto simp: isFresh_def result_simps)
    ultimately show ?thesis using fresh update by fastforce
  qed (use assms in simp)
qed

definition model_price :: price_message where
  "model_price = \<lparr>pmFeed = replicate 32 171, pmPrice = 104000000, pmConf = 1, pmExpo = - 8, pmPublish = 1000\<rparr>"

definition model_keeper :: PythNavKeeperArgs where
  "model_keeper = \<lparr>pkHermesUrl = ''https://h'', pkFeedId = concat (replicate 32 ''ab''), pkShardId = 0, pkMaxAgeMs = 300000\<rparr>"

definition model_round :: "int \<Rightarrow> keeper_round" where
  "model_round now =
     \<lparr>krGetAccountInfo = (\<lambda>_. Inr (Some \<lparr>aiOwner = [], aiLamports = 1, aiData = encodePriceMessage model_price\<rparr>)),
      krHermes = (\<lambda>_. Inr \<lparr>rsStatus = 200, rsOk = True, rsJson = Inr (Some [''u''])\<rparr>), krPost = (\<lambda>_ _. Inr 1), krNow = now\<rparr>"

lemma model_feed: "bufferFromHex (pkFeedId model_keeper) = pmFeed model_price"
  by (simp add: model_keeper_def model_price_def numeral_eq_Suc hex_char_def hex_value_def radix_digit_def)

lemma model_isFresh: "isFresh model_keeper (model_round now) k = Inr (now < 1300000)"
proof -
  have "decodePriceUpdate ([] @ encodePriceMessage model_price @ []) (pkFeedId model_keeper) =
      Inr (Some \<lparr>puPrice = pmPrice model_price, puExpo = pmExpo model_price, puPublishTime = pmPublish model_price\<rparr>)"
    by (rule decodePriceUpdate_enc [OF _ model_feed]) (simp_all add: price_message_wf_def first_at_def encodePriceMessage_def model_price_def)
  then show ?thesis by (simp add: isFresh_def model_round_def) (simp add: model_price_def model_keeper_def)
qed

theorem keeper_posts_when_stale_witness:
  "runOnce model_keeper (model_round 1300000) [] = (Posted, [[''u'']]) \<and> (\<exists>u. u \<noteq> [] \<and> [[''u'']] = [u])"
proof -
  have r: "runOnce model_keeper (model_round 1300000) [] = (Posted, [[''u'']])"
    by (simp add: runOnce_def model_isFresh) (simp add: fetchSignedUpdate_def model_round_def ifNone_def)
  from keeper_posts_when_stale [OF r] r show ?thesis by auto
qed

text \<open>The price on FOGO can grow older than \<open>maxAgeMs\<close> by up to half of it: a check that finds it just fresh leaves it alone, and
  the next check is an interval away.\<close>

lemma price_outlives_max_age:
  "fst (runOnce model_keeper (model_round 1299999) []) = Fresh"
  "checkIntervalMs model_keeper = 150000"
  "\<And>now. 1300000 < now \<Longrightarrow> now < 1299999 + checkIntervalMs model_keeper \<Longrightarrow> pkMaxAgeMs model_keeper < now - pmPublish model_price * 1000"
  by (simp_all add: runOnce_def model_isFresh) (simp_all add: checkIntervalMs_def model_keeper_def model_price_def)

section \<open>Posting\<close>

text \<open>
  \<open>postSignedUpdateToFogo\<close> over the Pyth receiver: loading the package, adding the update to a builder for a shard, building
  the transactions at a priority fee, signing and sending them.
\<close>

record 'tx receiver =
  rvImport :: "thrown + unit"
  rvAddUpdatePriceFeed :: "string list \<Rightarrow> nat \<Rightarrow> thrown + unit"
  rvBuild :: "string list \<Rightarrow> nat \<Rightarrow> int \<Rightarrow> thrown + 'tx list"
  rvSendAll :: "'tx list \<Rightarrow> thrown + unit"

definition postSignedUpdateToFogo :: "'tx receiver \<Rightarrow> int \<Rightarrow> string list \<Rightarrow> nat \<Rightarrow> thrown + nat" where
  "postSignedUpdateToFogo rv priorityFeeMicroLamports signedUpdate shardId =
     rbind (rvImport rv) (\<lambda>_.
     rbind (rvAddUpdatePriceFeed rv signedUpdate shardId) (\<lambda>_.
     rbind (rvBuild rv signedUpdate shardId priorityFeeMicroLamports) (\<lambda>txs.
     rbind (rvSendAll rv txs) (\<lambda>_. Inr (length txs)))))"

text \<open>The wallet the receiver signs with: \<open>'version' in tx\<close> tells a versioned transaction, which is signed whole, from a legacy one, which
  is signed in part.\<close>

datatype 'tx signed = SignedWhole 'tx | SignedPartly 'tx

definition keypairSign :: "('tx \<Rightarrow> bool) \<Rightarrow> 'tx \<Rightarrow> 'tx signed" where
  "keypairSign hasVersion tx = (if hasVersion tx then SignedWhole tx else SignedPartly tx)"

definition keypairSignAll :: "('tx \<Rightarrow> bool) \<Rightarrow> 'tx list \<Rightarrow> 'tx signed list" where
  "keypairSignAll hasVersion txs = map (keypairSign hasVersion) txs"

text \<open>When the sleep between two rounds ends: after \<open>ms\<close>, or at the abort signal if that comes first.\<close>

definition keeperSleep :: "int \<Rightarrow> int \<Rightarrow> int option \<Rightarrow> int" where
  "keeperSleep now ms abortAt =
     (case abortAt of None \<Rightarrow> now + ms | Some t \<Rightarrow> if t \<le> now then now else min t (now + ms))"

text \<open>A round that counts as posted has sent every transaction the receiver built for exactly the update Hermes signed, at the
  configured shard and fee; a round that does not is an error or found the price fresh, whatever part of the posting failed.\<close>

lemma posted_is_sent:
  assumes "krPost w = postSignedUpdateToFogo rv fee" "runOnce args w account = (Posted, posts)"
  shows "\<exists>u txs. fetchSignedUpdate args w = Inr u \<and> posts = [u] \<and> rvAddUpdatePriceFeed rv u (pkShardId args) = Inr () \<and>
    rvBuild rv u (pkShardId args) fee = Inr txs \<and> rvSendAll rv txs = Inr ()"
  using assms by (auto simp: runOnce_def postSignedUpdateToFogo_def elim!: rbind_InrE split: sum.splits bool.splits)

end
