(* ===== verification/Rate_Limit.thy ===== *)
theory Rate_Limit
  imports Relayer_Base Complex_Main
begin

text \<open>
  The rate-limited \<open>fetch\<close> behind every RPC connection (\<open>packages/sdk/src/rpc/connection.ts\<close>): a token bucket that paces
  requests, and the retries of a request the server answers with 429.

  Times are milliseconds, tokens are real numbers (the rounding of doubles is not modelled). The promise chain \<open>gate\<close>
  makes callers take turns, so the polls of the bucket form one sequence; \<open>clock n\<close> is the \<open>n\<close>-th reading of the clock
  in it. What a server answers to the \<open>n\<close>-th attempt, the random numbers, \<open>Number(text)\<close> and \<open>Date.parse(text)\<close>
  where they give a finite number are parameters.
\<close>

section \<open>Options\<close>

record RateLimitedFetchOptions =
  roMaxRps :: "real option"
  roBurst :: "real option"
  roMaxRetries :: "int option"
  roBaseBackoffMs :: "real option"
  roMaxBackoffMs :: "real option"

definition maxRps :: "RateLimitedFetchOptions \<Rightarrow> real" where
  "maxRps opts = max (1 / 1000) (ifNone (roMaxRps opts) 10)"

definition bucketCapacity :: "RateLimitedFetchOptions \<Rightarrow> real" where
  "bucketCapacity opts = max 1 (ifNone (roBurst opts) (maxRps opts))"

section \<open>The bucket\<close>

record bucket =
  bkTokens :: real
  bkLast :: int

definition newBucket :: "RateLimitedFetchOptions \<Rightarrow> int \<Rightarrow> bucket" where
  "newBucket opts now = \<lparr>bkTokens = bucketCapacity opts, bkLast = now\<rparr>"

text \<open>One round of the loop of \<open>acquire\<close>: refill, then take a token (\<open>None\<close>) or say how long to sleep.\<close>

definition poll :: "RateLimitedFetchOptions \<Rightarrow> int \<Rightarrow> bucket \<Rightarrow> int option \<times> bucket" where
  "poll opts t b =
     (let tokens = min (bucketCapacity opts) (bkTokens b + (real_of_int (t - bkLast b) / 1000) * maxRps opts)
      in if tokens \<ge> 1 then (None, \<lparr>bkTokens = tokens - 1, bkLast = t\<rparr>)
         else (Some \<lceil>((1 - tokens) / maxRps opts) * 1000\<rceil>, \<lparr>bkTokens = tokens, bkLast = t\<rparr>))"

partial_function (option) acquire ::
  "RateLimitedFetchOptions \<Rightarrow> (nat \<Rightarrow> int) \<Rightarrow> nat \<Rightarrow> bucket \<Rightarrow> (nat \<times> bucket) option" where
  "acquire opts clock n b =
     (case poll opts (clock n) b of
        (None, b') \<Rightarrow> Some (Suc n, b')
      | (Some _, b') \<Rightarrow> acquire opts clock (Suc n) b')"

section \<open>Retries\<close>

record rl_response =
  rlStatus :: nat
  rlRetryAfter :: "string option"

definition parseRetryAfter :: "(string \<Rightarrow> real option) \<Rightarrow> (string \<Rightarrow> real option) \<Rightarrow> string option \<Rightarrow> real \<Rightarrow> real option" where
  "parseRetryAfter number dateParse header now =
     (if \<not> truthy header then None
      else case number (the header) of
        Some secs \<Rightarrow> Some (max 0 (secs * 1000))
      | None \<Rightarrow> (case dateParse (the header) of Some t \<Rightarrow> Some (max 0 (t - now)) | None \<Rightarrow> None))"

record fetch_world =
  fwAnswer :: "nat \<Rightarrow> thrown + rl_response"
  fwNumber :: "string \<Rightarrow> real option"
  fwDateParse :: "string \<Rightarrow> real option"
  fwNow :: "nat \<Rightarrow> real"
  fwRandom :: "nat \<Rightarrow> real"

definition backoffMs :: "RateLimitedFetchOptions \<Rightarrow> fetch_world \<Rightarrow> nat \<Rightarrow> rl_response \<Rightarrow> real" where
  "backoffMs opts w attempt res =
     (let backoff = ifNone (parseRetryAfter (fwNumber w) (fwDateParse w) (rlRetryAfter res) (fwNow w attempt))
                      (min (ifNone (roMaxBackoffMs opts) 15000) (ifNone (roBaseBackoffMs opts) 500 * 2 ^ attempt))
      in backoff + real_of_int \<lfloor>backoff * (1 / 2) * fwRandom w attempt\<rfloor>)"

text \<open>The requests made from an attempt on (each after a token was acquired), the waits between them, and what is returned.\<close>

function rateLimitedFetch :: "RateLimitedFetchOptions \<Rightarrow> fetch_world \<Rightarrow> nat \<Rightarrow> (thrown + rl_response) \<times> real list" where
  "rateLimitedFetch opts w attempt =
     (case fwAnswer w attempt of
        Inl e \<Rightarrow> (Inl e, [])
      | Inr res \<Rightarrow>
          if rlStatus res \<noteq> 429 \<or> int attempt \<ge> ifNone (roMaxRetries opts) 5 then (Inr res, [])
          else (case rateLimitedFetch opts w (Suc attempt) of (r, waits) \<Rightarrow> (r, backoffMs opts w attempt res # waits)))"
  by auto
termination
  by (relation "measure (\<lambda>(opts, w, attempt). nat (ifNone (roMaxRetries opts) 5 - int attempt))") auto

declare rateLimitedFetch.simps [simp del]

section \<open>The ceiling\<close>

lemma maxRps_pos: "0 < maxRps opts"
  by (simp add: maxRps_def)

lemma poll_tokens:
  assumes "poll opts t b = (r, b')" "bkLast b \<le> t" "0 \<le> bkTokens b"
  shows "0 \<le> bkTokens b'" "bkLast b' = t"
    "bkTokens b' + (if r = None then 1 else 0) \<le> bkTokens b + maxRps opts * real_of_int (t - bkLast b) / 1000"
    "bkTokens b' + (if r = None then 1 else 0) \<le> bucketCapacity opts"
proof -
  have "0 \<le> real_of_int (t - bkLast b) / 1000 * maxRps opts" using assms(2) maxRps_pos [of opts] by simp
  moreover have "1 \<le> bucketCapacity opts" by (simp add: bucketCapacity_def)
  ultimately show "0 \<le> bkTokens b'" "bkLast b' = t"
    "bkTokens b' + (if r = None then 1 else 0) \<le> bkTokens b + maxRps opts * real_of_int (t - bkLast b) / 1000"
    "bkTokens b' + (if r = None then 1 else 0) \<le> bucketCapacity opts"
    using assms by (auto simp: poll_def Let_def algebra_simps split: if_splits)
qed

text \<open>The times at which a sequence of polls is granted a token.\<close>

fun granted :: "RateLimitedFetchOptions \<Rightarrow> int list \<Rightarrow> bucket \<Rightarrow> int list" where
  "granted opts [] b = []"
| "granted opts (t # ts) b =
     (case poll opts t b of (r, b') \<Rightarrow> (if r = None then [t] else []) @ granted opts ts b')"

lemma granted_sub: "set (granted opts ts b) \<subseteq> set ts"
  by (induction ts arbitrary: b) (auto split: prod.split)

lemma granted_from:
  "sorted ts \<Longrightarrow> \<forall>t \<in> set ts. bkLast b \<le> t \<Longrightarrow> 0 \<le> bkTokens b \<Longrightarrow> bkLast b \<le> c \<Longrightarrow>
     real (length (filter (\<lambda>t. t \<le> c) (granted opts ts b))) \<le> bkTokens b + maxRps opts * real_of_int (c - bkLast b) / 1000"
proof (induction ts arbitrary: b)
  case Nil
  then show ?case using maxRps_pos [of opts] by simp
next
  case (Cons t ts)
  obtain r b' where p: "poll opts t b = (r, b')" by fastforce
  have le: "bkLast b \<le> t" using Cons.prems(2) by simp
  note tok = poll_tokens [OF p le Cons.prems(3)]
  show ?case
  proof (cases "t \<le> c")
    case True
    have "real (length (filter (\<lambda>t. t \<le> c) (granted opts ts b'))) \<le> bkTokens b' + maxRps opts * real_of_int (c - bkLast b') / 1000"
      using Cons.prems True tok by (intro Cons.IH) auto
    then have "real (length (filter (\<lambda>t. t \<le> c) (granted opts (t # ts) b))) \<le>
        bkTokens b' + (if r = None then 1 else 0) + maxRps opts * real_of_int (c - t) / 1000"
      using p True tok(2) by simp
    also have "\<dots> \<le> bkTokens b + maxRps opts * real_of_int (t - bkLast b) / 1000 + maxRps opts * real_of_int (c - t) / 1000"
      using tok(3) by simp
    also have "\<dots> = bkTokens b + maxRps opts * real_of_int (c - bkLast b) / 1000" by (simp add: algebra_simps add_divide_distrib diff_divide_distrib)
    finally show ?thesis .
  next
    case False
    with Cons.prems(1) have "\<forall>u \<in> set (t # ts). \<not> u \<le> c" by auto
    with granted_sub [of opts "t # ts" b] have "filter (\<lambda>t. t \<le> c) (granted opts (t # ts) b) = []"
      unfolding filter_empty_conv by blast
    then show ?thesis using Cons.prems(3,4) maxRps_pos [of opts] by simp
  qed
qed

lemma granted_window:
  assumes "a \<le> c"
  shows "sorted ts \<Longrightarrow> \<forall>t \<in> set ts. bkLast b \<le> t \<Longrightarrow> 0 \<le> bkTokens b \<Longrightarrow>
     real (length (filter (\<lambda>t. a \<le> t \<and> t \<le> c) (granted opts ts b))) \<le> bucketCapacity opts + maxRps opts * real_of_int (c - a) / 1000"
proof (induction ts arbitrary: b)
  case Nil
  then show ?case using assms maxRps_pos [of opts] by (simp add: bucketCapacity_def)
next
  case (Cons t ts)
  obtain r b' where p: "poll opts t b = (r, b')" by fastforce
  have le: "bkLast b \<le> t" using Cons.prems(2) by simp
  note tok = poll_tokens [OF p le Cons.prems(3)]
  have later: "sorted ts" "\<forall>u \<in> set ts. bkLast b' \<le> u" "0 \<le> bkTokens b'" using Cons.prems tok by auto
  show ?case
  proof (cases "a \<le> t \<and> t \<le> c")
    case True
    have "length (filter (\<lambda>u. a \<le> u \<and> u \<le> c) us) \<le> length (filter (\<lambda>u. u \<le> c) us)" for us by (induction us) auto
    then have "real (length (filter (\<lambda>u. a \<le> u \<and> u \<le> c) (granted opts ts b'))) \<le> real (length (filter (\<lambda>u. u \<le> c) (granted opts ts b')))"
      by simp
    also have "\<dots> \<le> bkTokens b' + maxRps opts * real_of_int (c - t) / 1000"
      using granted_from [OF later, of c] True tok(2) by simp
    finally have "real (length (filter (\<lambda>u. a \<le> u \<and> u \<le> c) (granted opts (t # ts) b))) \<le>
        bkTokens b' + (if r = None then 1 else 0) + maxRps opts * real_of_int (c - t) / 1000" using p True by simp
    also have "\<dots> \<le> bucketCapacity opts + maxRps opts * real_of_int (c - a) / 1000"
      using tok(4) True maxRps_pos [of opts] by (simp add: add_mono divide_right_mono)
    finally show ?thesis .
  next
    case False
    then show ?thesis using Cons.IH [OF later] p by simp
  qed
qed

text \<open>C29. The limiter keeps its promise: however callers press, in any window of time from \<open>a\<close> to \<open>c\<close> at most the
  capacity of the bucket plus \<open>maxRps\<close> requests per second of the window are let through.\<close>

theorem rate_ceiling:
  assumes "sorted ts" "\<forall>t \<in> set ts. start \<le> t" "a \<le> c"
  shows "real (length (filter (\<lambda>t. a \<le> t \<and> t \<le> c) (granted opts ts (newBucket opts start)))) \<le>
    bucketCapacity opts + maxRps opts * real_of_int (c - a) / 1000"
  using assms by (intro granted_window) (auto simp: newBucket_def bucketCapacity_def)

theorem rate_ceiling_witness:
  "real (length (granted \<lparr>roMaxRps = Some 2, roBurst = None, roMaxRetries = None, roBaseBackoffMs = None, roMaxBackoffMs = None\<rparr> [0, 0, 0, 0]
     (newBucket \<lparr>roMaxRps = Some 2, roBurst = None, roMaxRetries = None, roBaseBackoffMs = None, roMaxBackoffMs = None\<rparr> 0))) \<le> 2"
proof -
  let ?opts = "\<lparr>roMaxRps = Some 2, roBurst = None, roMaxRetries = None, roBaseBackoffMs = None, roMaxBackoffMs = None\<rparr>"
  have "filter (\<lambda>t. 0 \<le> t \<and> t \<le> 0) (granted ?opts [0, 0, 0, 0] b) = granted ?opts [0, 0, 0, 0] b" for b
    using granted_sub [of ?opts "[0, 0, 0, 0]" b] by (auto simp: filter_id_conv)
  then show ?thesis using rate_ceiling [of "[0, 0, 0, 0]" 0 0 0 ?opts] by (simp add: bucketCapacity_def maxRps_def ifNone_def)
qed

section \<open>A caller is served\<close>

text \<open>C31. After a sleep that is at least as long as asked for, the token is there: \<open>acquire\<close> returns after at most two polls.\<close>

theorem acquire_returns:
  assumes "bkLast b \<le> clock n" "0 \<le> bkTokens b"
    and "\<forall>ms b'. poll opts (clock n) b = (Some ms, b') \<longrightarrow> clock n + ms \<le> clock (Suc n)"
  shows "\<exists>n' b'. acquire opts clock n b = Some (n', b') \<and> n' \<le> n + 2 \<and> 0 \<le> bkTokens b' \<and> bkLast b' = clock (n' - 1)"
proof -
  obtain r b1 where p: "poll opts (clock n) b = (r, b1)" by fastforce
  note tok = poll_tokens [OF p assms(1,2)]
  show ?thesis
  proof (cases r)
    case None
    with p tok show ?thesis by (simp add: acquire.simps)
  next
    case (Some ms)
    with p assms(3) have late: "clock n + ms \<le> clock (Suc n)" by simp
    have ms: "ms = \<lceil>((1 - bkTokens b1) / maxRps opts) * 1000\<rceil>" "bkTokens b1 < 1"
      using p Some by (auto simp: poll_def Let_def split: if_splits)
    then have "(1 - bkTokens b1) / maxRps opts * 1000 \<le> real_of_int ms" by simp
    also have "\<dots> \<le> real_of_int (clock (Suc n) - clock n)" using late by simp
    finally have "1 - bkTokens b1 \<le> real_of_int (clock (Suc n) - clock n) / 1000 * maxRps opts"
      using maxRps_pos [of opts] by (simp add: field_simps)
    moreover have "1 \<le> bucketCapacity opts" by (simp add: bucketCapacity_def)
    ultimately have enough: "1 \<le> min (bucketCapacity opts) (bkTokens b1 + real_of_int (clock (Suc n) - bkLast b1) / 1000 * maxRps opts)"
      using tok(2) by simp
    then obtain b2 where p2: "poll opts (clock (Suc n)) b1 = (None, b2)" by (auto simp: poll_def Let_def)
    have "0 \<le> (1 - bkTokens b1) / maxRps opts * 1000" using ms(2) maxRps_pos [of opts] by simp
    then have "0 \<le> ms" unfolding ms(1) by linarith
    then have "bkLast b1 \<le> clock (Suc n)" using late tok(2) by simp
    from poll_tokens [OF p2 this tok(1)] p Some p2 show ?thesis by (simp add: acquire.simps)
  qed
qed

theorem acquire_returns_witness:
  "\<exists>n' b'. acquire \<lparr>roMaxRps = Some 1, roBurst = None, roMaxRetries = None, roBaseBackoffMs = None, roMaxBackoffMs = None\<rparr>
     (\<lambda>n. 1000 * int n) 0 \<lparr>bkTokens = 0, bkLast = 0\<rparr> = Some (n', b') \<and> n' \<le> 2"
proof -
  let ?opts = "\<lparr>roMaxRps = Some 1, roBurst = None, roMaxRetries = None, roBaseBackoffMs = None, roMaxBackoffMs = None\<rparr>"
  have "\<forall>ms b'. poll ?opts 0 \<lparr>bkTokens = 0, bkLast = 0\<rparr> = (Some ms, b') \<longrightarrow> ms \<le> 1000"
    by (simp add: poll_def maxRps_def bucketCapacity_def ifNone_def Let_def)
  with acquire_returns [of "\<lparr>bkTokens = 0, bkLast = 0\<rparr>" "\<lambda>n. 1000 * int n" 0 ?opts] show ?thesis by auto
qed

section \<open>Retries end\<close>

text \<open>Requests are retried on 429 only and a bounded number of times: of the attempts made all but the last were answered with
  429, what is returned is the answer to the last one, there are at most \<open>maxRetries\<close> retries, and a 429 is
  returned only when they are used up.\<close>

theorem retries_bounded:
  assumes "rateLimitedFetch opts w n = (r, waits)"
  shows "r = fwAnswer w (n + length waits) \<and> int (length waits) \<le> max 0 (ifNone (roMaxRetries opts) 5 - int n) \<and>
    (\<forall>i < length waits. \<exists>res. fwAnswer w (n + i) = Inr res \<and> rlStatus res = 429) \<and>
    (\<forall>res. r = Inr res \<and> rlStatus res = 429 \<longrightarrow> ifNone (roMaxRetries opts) 5 \<le> int (n + length waits))"
  using assms
proof (induction opts w n arbitrary: waits rule: rateLimitedFetch.induct)
  case (1 opts w n)
  show ?case
  proof (cases "\<exists>res. fwAnswer w n = Inr res \<and> rlStatus res = 429 \<and> int n < ifNone (roMaxRetries opts) 5")
    case True
    then obtain res where res: "fwAnswer w n = Inr res" "rlStatus res = 429" "int n < ifNone (roMaxRetries opts) 5" by blast
    obtain r' ws where rec: "rateLimitedFetch opts w (Suc n) = (r', ws)" by fastforce
    with "1.prems" res have eq: "r' = r" "waits = backoffMs opts w n res # ws" by (auto simp: rateLimitedFetch.simps [of opts w n])
    note ih = "1.IH" [OF res(1), of ws] 
    have "r = fwAnswer w (Suc n + length ws) \<and> int (length ws) \<le> max 0 (ifNone (roMaxRetries opts) 5 - int (Suc n)) \<and>
      (\<forall>i < length ws. \<exists>res. fwAnswer w (Suc n + i) = Inr res \<and> rlStatus res = 429) \<and>
      (\<forall>res. r = Inr res \<and> rlStatus res = 429 \<longrightarrow> ifNone (roMaxRetries opts) 5 \<le> int (Suc n + length ws))"
      using ih rec eq(1) res by simp
    then show ?thesis using res eq(2) by (auto simp: less_Suc_eq_0_disj)
  next
    case False
    then show ?thesis using "1.prems" by (auto simp: rateLimitedFetch.simps [of opts w n] split: sum.splits if_splits)
  qed
qed

theorem retries_bounded_witness:
  "\<exists>r waits. rateLimitedFetch \<lparr>roMaxRps = None, roBurst = None, roMaxRetries = Some 2, roBaseBackoffMs = None, roMaxBackoffMs = None\<rparr>
     \<lparr>fwAnswer = \<lambda>_. Inr \<lparr>rlStatus = 429, rlRetryAfter = None\<rparr>, fwNumber = \<lambda>_. None, fwDateParse = \<lambda>_. None, fwNow = \<lambda>_. 0, fwRandom = \<lambda>_. 0\<rparr> 0 =
     (r, waits) \<and> length waits = 2"
proof -
  let ?opts = "\<lparr>roMaxRps = None, roBurst = None, roMaxRetries = Some 2, roBaseBackoffMs = None, roMaxBackoffMs = None\<rparr>"
  let ?w = "\<lparr>fwAnswer = \<lambda>_. Inr \<lparr>rlStatus = 429, rlRetryAfter = None\<rparr>, fwNumber = \<lambda>_. None, fwDateParse = \<lambda>_. None, fwNow = \<lambda>_. 0, fwRandom = \<lambda>_. 0\<rparr>"
  obtain r waits where f: "rateLimitedFetch ?opts ?w 0 = (r, waits)" by fastforce
  from retries_bounded [OF f] have "int (length waits) \<le> 2" "2 \<le> int (length waits)" by (auto simp: ifNone_def)
  then have "length waits = 2" by linarith
  with f show ?thesis by blast
qed

text \<open>\<open>maxBackoffMs\<close> is not a ceiling on a single wait: a \<open>Retry-After\<close> header is obeyed without it, and the jitter comes on
  top of it.\<close>

lemma backoff_above_ceiling:
  fixes opts :: RateLimitedFetchOptions
  assumes "roMaxBackoffMs opts = Some 15000" "roBaseBackoffMs opts = Some 500"
  shows "fwNumber w ''120'' = Some 120 \<Longrightarrow> 0 \<le> fwRandom w k \<Longrightarrow>
      120000 \<le> backoffMs opts w k \<lparr>rlStatus = 429, rlRetryAfter = Some ''120''\<rparr>"
    "fwRandom w 5 = 1 / 2 \<Longrightarrow> backoffMs opts w 5 \<lparr>rlStatus = 429, rlRetryAfter = None\<rparr> = 18750"
  using assms by (simp_all add: backoffMs_def parseRetryAfter_def truthy_def ifNone_def floor_eq_iff Let_def)

end
