(* ===== verification/Daemon.thy ===== *)
theory Daemon
  imports Scan Complex_Main
begin

text \<open>
  The daemon (\<open>packages/cranker/src/daemon.ts\<close>) and the scan it runs (\<open>settleScans\<close>, the tick selection of
  \<open>main\<close> and the retry handler of \<open>packages/cranker/src/index.ts\<close>).

  One turn of the loop is a function of what happens during it: the scan's outcome, the wake signals that arrive, the
  abort signal at the points where the code looks at it, the random number of the jitter. A turn stops the loop,
  kills the process, or goes on after a nap, whose length is what the code would sleep if nothing wakes it.
\<close>

section \<open>The loop\<close>

record DaemonOptions =
  doIntervalMs :: int
  doHeartbeatStaleMs :: int
  doMaxBackoffMs :: "int option"

record daemon =
  dmCurrentDelay :: int
  dmConsecutiveErrors :: nat
  dmHeartbeat :: int
  dmWakeup :: "WakeFlag option"
  dmScanIterations :: "bool list"

record turn =
  tnAborted :: bool
  tnPreScan :: "thrown + unit"
  tnAbortedBeforeScan :: bool
  tnScan :: "thrown + unit"
  tnSignals :: nat
  tnNow :: int
  tnAbortedAfter :: bool
  tnRandom :: real
  tnPromise :: nat
  tnSignalsAsleep :: nat

definition maxBackoff :: "DaemonOptions \<Rightarrow> int" where
  "maxBackoff opts = ifNone (doMaxBackoffMs opts) 300000"

definition startDaemon :: "DaemonOptions \<Rightarrow> int \<Rightarrow> WakeFlag option \<Rightarrow> daemon" where
  "startDaemon opts now wakeup =
     \<lparr>dmCurrentDelay = doIntervalMs opts, dmConsecutiveErrors = 0, dmHeartbeat = now, dmWakeup = wakeup, dmScanIterations = []\<rparr>"

text \<open>\<open>jitter(ms)\<close> with the random number \<open>u\<close> of \<open>Math.random()\<close>, which lies in \<open>[0, 1)\<close>.\<close>

definition jitter :: "int \<Rightarrow> real \<Rightarrow> real" where
  "jitter ms u = (let delta = real_of_int ms / 10 in max 0 (real_of_int ms - delta + u * 2 * delta))"

text \<open>The watchdog's test, every \<open>watchdogIntervalMs\<close>.\<close>

definition watchdogKills :: "DaemonOptions \<Rightarrow> daemon \<Rightarrow> int \<Rightarrow> bool" where
  "watchdogKills opts d now \<longleftrightarrow> now - dmHeartbeat d > doHeartbeatStaleMs opts"

definition signals :: "nat \<Rightarrow> daemon \<Rightarrow> daemon" where
  "signals n d = d\<lparr>dmWakeup := map_option ((\<lambda>f. snd (signal f)) ^^ n) (dmWakeup d)\<rparr>"

definition afterScan :: "DaemonOptions \<Rightarrow> turn \<Rightarrow> daemon \<Rightarrow> daemon" where
  "afterScan opts t d =
     (case tnScan t of
        Inr _ \<Rightarrow> d\<lparr>dmHeartbeat := tnNow t, dmScanIterations := dmScanIterations d @ [True], dmConsecutiveErrors := 0,
                    dmCurrentDelay := doIntervalMs opts\<rparr>
      | Inl _ \<Rightarrow>
          if tnAbortedAfter t then d
          else let n = dmConsecutiveErrors d + 1
               in d\<lparr>dmScanIterations := dmScanIterations d @ [False], dmConsecutiveErrors := n,
                    dmCurrentDelay := min (doIntervalMs opts * 2 ^ n) (maxBackoff opts)\<rparr>)"

datatype turn_end = Stop daemon | ExitProcess | Nap real daemon

text \<open>The race of the sleep against the wake flag.\<close>

definition napTurn :: "turn \<Rightarrow> daemon \<Rightarrow> turn_end" where
  "napTurn t d =
     (case dmWakeup d of
        None \<Rightarrow> Nap (jitter (dmCurrentDelay d) (tnRandom t)) d
      | Some f \<Rightarrow>
          (case wait (tnPromise t) f of
             (immediate, f') \<Rightarrow>
               Nap (if immediate then 0 else jitter (dmCurrentDelay d) (tnRandom t))
                   (signals (tnSignalsAsleep t) (d\<lparr>dmWakeup := Some f'\<rparr>))))"

definition daemonTurn :: "DaemonOptions \<Rightarrow> turn \<Rightarrow> daemon \<Rightarrow> turn_end" where
  "daemonTurn opts t d =
     (if tnAborted t then Stop d
      else case tnPreScan t of
        Inl _ \<Rightarrow> ExitProcess
      | Inr _ \<Rightarrow>
          if tnAbortedBeforeScan t then Stop d
          else let d' = afterScan opts t (signals (tnSignals t) d)
               in if tnAbortedAfter t then Stop d' else napTurn t d')"

text \<open>The loop over the turns the world provides; the naps taken and how the last turn ended.\<close>

fun runDaemon :: "DaemonOptions \<Rightarrow> turn list \<Rightarrow> daemon \<Rightarrow> real list \<times> turn_end" where
  "runDaemon opts [] d = ([], Nap 0 d)"
| "runDaemon opts (t # ts) d =
     (case daemonTurn opts t d of
        Nap ms d' \<Rightarrow> (case runDaemon opts ts d' of (naps, e) \<Rightarrow> (ms # naps, e))
      | e \<Rightarrow> ([], e))"

section \<open>One scan of all legs\<close>

text \<open>\<open>Promise.allSettled\<close> over the flow scan, the refund sweep and the bridge scans: the metrics counted and the error
  re-thrown.\<close>

definition settleScans ::
  "thrown + unit \<Rightarrow> thrown + unit \<Rightarrow> (string \<times> (thrown + unit)) list \<Rightarrow> (thrown + unit) \<times> (string \<times> bool) list" where
  "settleScans flowResult refundResult bridgeResults =
     (let counted = (if isl flowResult then [(''flow'', False)] else []) @
                    (if isl refundResult then [(''refund'', False)] else []) @
                    map (\<lambda>(name, r). (name, \<not> isl r)) bridgeResults
      in (case flowResult of
            Inl reason \<Rightarrow> if list_all (\<lambda>(_, r). isl r) bridgeResults then Inl (toError reason) else Inr ()
          | Inr _ \<Rightarrow> Inr (), counted))"

record tick_state =
  tsLastBackstopAt :: int
  tsLastRefundAt :: int

text \<open>Which enumerator a tick uses (backstop or incremental), and whether it also sweeps refunds. An interval of zero
  disables a sweep.\<close>

definition selectTick :: "int \<Rightarrow> int \<Rightarrow> int \<Rightarrow> tick_state \<Rightarrow> bool \<times> bool \<times> tick_state" where
  "selectTick backstopIntervalMs refundIntervalMs now s =
     (let backstop = (backstopIntervalMs > 0 \<and> now - tsLastBackstopAt s \<ge> backstopIntervalMs);
          sweep = (refundIntervalMs > 0 \<and> now - tsLastRefundAt s \<ge> refundIntervalMs)
      in (backstop, sweep,
          \<lparr>tsLastBackstopAt = (if backstop then now else tsLastBackstopAt s),
           tsLastRefundAt = (if sweep then now else tsLastRefundAt s)\<rparr>))"

text \<open>SIGUSR1: clear every backoff and wake the daemon.\<close>

definition onRetrySignal :: "FlowStateTracker \<Rightarrow> daemon \<Rightarrow> FlowStateTracker \<times> daemon" where
  "onRetrySignal tracker d = (snd (clearBackoff tracker), signals 1 d)"

section \<open>The pace of the loop\<close>

text \<open>The reference: the number of scans that failed since the last one that did not.\<close>

definition trailing_failures :: "bool list \<Rightarrow> nat" where
  "trailing_failures results = length (takeWhile Not (rev results))"

definition pace :: "DaemonOptions \<Rightarrow> nat \<Rightarrow> int" where
  "pace opts n = (if n = 0 then doIntervalMs opts else min (doIntervalMs opts * 2 ^ n) (maxBackoff opts))"

definition paced :: "DaemonOptions \<Rightarrow> daemon \<Rightarrow> bool" where
  "paced opts d \<longleftrightarrow> dmConsecutiveErrors d = trailing_failures (dmScanIterations d) \<and>
     dmCurrentDelay d = pace opts (trailing_failures (dmScanIterations d))"

lemma trailing_snoc [simp]:
  "trailing_failures [] = 0" "trailing_failures (rs @ [True]) = 0" "trailing_failures (rs @ [False]) = Suc (trailing_failures rs)"
  by (simp_all add: trailing_failures_def)

lemma paced_start: "paced opts (startDaemon opts now w)"
  by (simp add: paced_def startDaemon_def pace_def)

lemma paced_signals [simp]: "paced opts (signals n d) \<longleftrightarrow> paced opts d"
  by (simp add: paced_def signals_def)

lemma paced_afterScan: "paced opts d \<Longrightarrow> paced opts (afterScan opts t d)"
  by (auto simp: paced_def afterScan_def pace_def Let_def split: sum.split)

lemma napTurn_Nap:
  "napTurn t d = Nap ms d' \<Longrightarrow> paced opts d \<Longrightarrow> paced opts d' \<and> (ms = 0 \<or> ms = jitter (dmCurrentDelay d) (tnRandom t))"
  by (auto simp: napTurn_def paced_def signals_def split: option.splits prod.splits if_splits)

lemma napTurn_cases: "(\<exists>ms d'. napTurn t d = Nap ms d')"
  by (simp add: napTurn_def split: option.split prod.split)

lemma pace_bounds:
  assumes "0 \<le> doIntervalMs opts" "0 \<le> maxBackoff opts"
  shows "0 \<le> pace opts n" "pace opts n \<le> max (doIntervalMs opts) (maxBackoff opts)"
  using assms by (auto simp: pace_def)

lemma jitter_bounds:
  assumes "0 \<le> ms" "0 \<le> u" "u \<le> 1"
  shows "9 / 10 * real_of_int ms \<le> jitter ms u" "jitter ms u \<le> 11 / 10 * real_of_int ms"
proof -
  have "0 \<le> u * real_of_int ms" "u * real_of_int ms \<le> real_of_int ms"
    using assms by (simp_all add: mult_left_le_one_le)
  then show "9 / 10 * real_of_int ms \<le> jitter ms u" "jitter ms u \<le> 11 / 10 * real_of_int ms"
    using assms(1) by (auto simp: jitter_def Let_def)
qed

lemma daemonTurn_Nap:
  assumes "daemonTurn opts t d = Nap ms d'" "paced opts d"
  shows "paced opts d'" "\<exists>n. ms = 0 \<or> ms = jitter (pace opts n) (tnRandom t)"
proof -
  let ?d = "afterScan opts t (signals (tnSignals t) d)"
  have p: "paced opts ?d" using assms(2) by (simp add: paced_afterScan)
  have "napTurn t ?d = Nap ms d'" using assms(1) by (auto simp: daemonTurn_def Let_def split: if_splits sum.splits)
  from napTurn_Nap [OF this p] p show "paced opts d'" "\<exists>n. ms = 0 \<or> ms = jitter (pace opts n) (tnRandom t)"
    by (auto simp: paced_def)
qed

lemma daemonTurn_Stop: "daemonTurn opts t d = Stop d' \<Longrightarrow> paced opts d \<Longrightarrow> paced opts d'"
  using napTurn_cases [of t "afterScan opts t (signals (tnSignals t) d)"]
  by (auto simp: daemonTurn_def Let_def paced_afterScan split: if_splits sum.splits)

lemma run_paced:
  "paced opts d \<Longrightarrow> runDaemon opts ts d = (naps, e) \<Longrightarrow>
     (\<forall>ms d'. e = Nap ms d' \<or> e = Stop d' \<longrightarrow> paced opts d') \<and>
     (\<forall>ms \<in> set naps. \<exists>n. \<exists>t \<in> set ts. ms = 0 \<or> ms = jitter (pace opts n) (tnRandom t))"
proof (induction ts arbitrary: d naps)
  case (Cons t ts)
  show ?case
  proof (cases "daemonTurn opts t d")
    case (Nap ms d')
    obtain rest where r: "runDaemon opts ts d' = (rest, e)" "naps = ms # rest"
      using Cons.prems(2) Nap by (auto split: prod.splits)
    note turn = daemonTurn_Nap [OF Nap Cons.prems(1)]
    from Cons.IH [OF turn(1) r(1)] turn(2) r(2) show ?thesis by (simp add: r(2)) blast
  qed (use Cons.prems daemonTurn_Stop in auto)
qed auto

text \<open>C23. The pace of the daemon is a function of its recent history alone: at any time the error count is the number of
  failed scans since the last good one, and the delay is the interval doubled that often, never above the cap. No nap is
  longer than the longest delay with its jitter, so a daemon that is not stopped scans again within that time.\<close>

theorem daemon_paced:
  assumes "runDaemon opts ts (startDaemon opts now w) = (naps, e)"
    and "0 \<le> doIntervalMs opts" "0 \<le> maxBackoff opts" "list_all (\<lambda>t. 0 \<le> tnRandom t \<and> tnRandom t < 1) ts"
  shows "(\<forall>ms d. e = Nap ms d \<or> e = Stop d \<longrightarrow> dmConsecutiveErrors d = trailing_failures (dmScanIterations d) \<and>
        dmCurrentDelay d = pace opts (trailing_failures (dmScanIterations d))) \<and>
    (\<forall>ms \<in> set naps. 0 \<le> ms \<and> ms \<le> 11 / 10 * real_of_int (max (doIntervalMs opts) (maxBackoff opts)))"
proof -
  note run = run_paced [OF paced_start assms(1)]
  have "0 \<le> ms \<and> ms \<le> 11 / 10 * real_of_int (max (doIntervalMs opts) (maxBackoff opts))" if ms: "ms \<in> set naps" for ms
  proof -
    from run ms obtain n t where t: "t \<in> set ts" and m: "ms = 0 \<or> ms = jitter (pace opts n) (tnRandom t)" by blast
    have u: "0 \<le> tnRandom t" "tnRandom t \<le> 1" using assms(4) t by (auto simp: list_all_iff)
    note b = pace_bounds [OF assms(2,3), of n]
    have "real_of_int (pace opts n) \<le> real_of_int (max (doIntervalMs opts) (maxBackoff opts))" using b(2) by linarith
    moreover have "0 \<le> real_of_int (pace opts n)" using b(1) by simp
    ultimately show ?thesis using m jitter_bounds [OF b(1) u] by auto
  qed
  with run show ?thesis by (auto simp: paced_def)
qed

definition model_turn :: "thrown + unit \<Rightarrow> nat \<Rightarrow> turn" where
  "model_turn scan n = \<lparr>tnAborted = False, tnPreScan = Inr (), tnAbortedBeforeScan = False, tnScan = scan, tnSignals = n, tnNow = 7,
     tnAbortedAfter = False, tnRandom = 1 / 2, tnPromise = 0, tnSignalsAsleep = 0\<rparr>"

definition model_options :: DaemonOptions where
  "model_options = \<lparr>doIntervalMs = 30000, doHeartbeatStaleMs = 120000, doMaxBackoffMs = Some 300000\<rparr>"

theorem daemon_paced_witness:
  "\<exists>naps ms d. runDaemon model_options (replicate 4 (model_turn (Inl (Primitive ''rpc'')) 0)) (startDaemon model_options 0 None) =
       (naps, Nap ms d) \<and> dmCurrentDelay d = 300000 \<and> (\<forall>ms \<in> set naps. 0 \<le> ms \<and> ms \<le> 330000)"
proof -
  let ?ts = "replicate 4 (model_turn (Inl (Primitive ''rpc'')) 0)"
  have "\<exists>naps ms d. runDaemon model_options ?ts (startDaemon model_options 0 None) = (naps, Nap ms d) \<and>
      dmScanIterations d = [False, False, False, False]"
    by (simp add: numeral_eq_Suc daemonTurn_def model_turn_def afterScan_def napTurn_def startDaemon_def signals_def Let_def)
  then obtain naps ms d where r: "runDaemon model_options ?ts (startDaemon model_options 0 None) = (naps, Nap ms d)"
    "dmScanIterations d = [False, False, False, False]" by blast
  have "trailing_failures [False, False, False, False] = 4" by (simp add: trailing_failures_def)
  moreover have "list_all (\<lambda>t. 0 \<le> tnRandom t \<and> tnRandom t < 1) ?ts" by (simp add: list_all_iff model_turn_def)
  ultimately have "dmCurrentDelay d = pace model_options 4" "\<forall>ms \<in> set naps. 0 \<le> ms \<and> ms \<le> 330000"
    using daemon_paced [OF r(1)] r(2) by (simp_all add: model_options_def maxBackoff_def ifNone_def)
  with r(1) show ?thesis by (auto simp: pace_def model_options_def maxBackoff_def ifNone_def)
qed

text \<open>With the defaults (an interval of 30 s, a heartbeat that is stale after 120 s, a cap of 300 s) the cap is never
  reached: after a good scan two failures in a row nap for longer than the heartbeat may age, so the watchdog ends
  the process during the second of these naps.\<close>

lemma default_backoff_outlives_heartbeat:
  assumes "runDaemon model_options [good, bad1, bad2] (startDaemon model_options now None) = ([a, b, c], Nap z d)"
    and "\<forall>t \<in> {good, bad1, bad2}. 0 \<le> tnRandom t \<and> tnRandom t < 1"
    and "tnScan good = Inr ()" "tnScan bad1 = Inl e1" "tnScan bad2 = Inl e2"
  shows "dmHeartbeat d = tnNow good" "real_of_int (doHeartbeatStaleMs model_options) < a + b + c"
proof -
  let ?d0 = "startDaemon model_options now None"
  have n: "\<not> tnAborted t \<and> \<not> tnAbortedAfter t \<and> napTurn t (afterScan opts t (signals (tnSignals t) x)) = Nap ms y"
    if "daemonTurn opts t x = Nap ms y" for opts t x ms y
    using that by (auto simp: daemonTurn_def Let_def split: if_splits sum.splits)
  from assms(1) obtain d1 d2 where
    t: "daemonTurn model_options good ?d0 = Nap a d1" "daemonTurn model_options bad1 d1 = Nap b d2"
       "daemonTurn model_options bad2 d2 = Nap c d"
    by (auto split: turn_end.splits prod.splits)
  from n [OF t(1)] assms(3) have 1: "a = jitter 30000 (tnRandom good)" "d1 = ?d0\<lparr>dmHeartbeat := tnNow good, dmScanIterations := [True]\<rparr>"
    by (auto simp: afterScan_def napTurn_def startDaemon_def signals_def model_options_def)
  from n [OF t(2)] assms(4) 1 have 2: "b = jitter 60000 (tnRandom bad1)"
    "d2 = d1\<lparr>dmScanIterations := [True, False], dmConsecutiveErrors := 1, dmCurrentDelay := 60000\<rparr>"
    by (auto simp: afterScan_def napTurn_def startDaemon_def signals_def model_options_def maxBackoff_def ifNone_def Let_def)
  from n [OF t(3)] assms(5) 1 2 have 3: "c = jitter 120000 (tnRandom bad2)" "dmHeartbeat d = tnNow good"
    by (auto simp: afterScan_def napTurn_def startDaemon_def signals_def model_options_def maxBackoff_def ifNone_def Let_def)
  show "dmHeartbeat d = tnNow good" by (rule 3)
  have "27000 \<le> a" "54000 \<le> b" "108000 \<le> c"
    using assms(2) jitter_bounds(1) [of 30000 "tnRandom good"] jitter_bounds(1) [of 60000 "tnRandom bad1"]
      jitter_bounds(1) [of 120000 "tnRandom bad2"] 1 2 3 by auto
  then show "real_of_int (doHeartbeatStaleMs model_options) < a + b + c" by (simp add: model_options_def)
qed

section \<open>Progress is followed up at once\<close>

text \<open>A leg that made progress is followed up without a nap: when a wake signal arrives while the scan runs, or arrived
  during the nap before it, the turn does not sleep. Several signals cost one extra scan, and the flag is down
  again after it unless a new signal comes.\<close>

theorem progress_skips_nap:
  assumes "dmWakeup d = Some f" "0 < tnSignals t \<or> flagged f" "daemonTurn opts t d = Nap ms d'" "tnSignalsAsleep t = 0"
  shows "ms = 0 \<and> (\<exists>f'. dmWakeup d' = Some f' \<and> \<not> flagged f')"
proof -
  have "\<exists>f'. dmWakeup (signals (tnSignals t) d) = Some f' \<and> flagged f'"
    using assms(1,2) by (cases "tnSignals t") (auto simp: signals_def signal_def)
  moreover have "dmWakeup (afterScan opts t x) = dmWakeup x" for x by (simp add: afterScan_def Let_def split: sum.split)
  ultimately obtain f' where f': "dmWakeup (afterScan opts t (signals (tnSignals t) d)) = Some f'" "flagged f'" by auto
  have "napTurn t (afterScan opts t (signals (tnSignals t) d)) = Nap ms d'"
    using assms(3) by (auto simp: daemonTurn_def Let_def split: if_splits sum.splits)
  with f' assms(4) show ?thesis by (auto simp: napTurn_def wait_def signals_def)
qed

theorem progress_skips_nap_witness:
  "\<exists>d'. daemonTurn model_options (model_turn (Inr ()) 2) (startDaemon model_options 0 (Some newWakeFlag)) = Nap 0 d' \<and>
     (\<exists>f'. dmWakeup d' = Some f' \<and> \<not> flagged f')"
proof -
  let ?d = "startDaemon model_options 0 (Some newWakeFlag)" and ?t = "model_turn (Inr ()) 2"
  obtain ms d' where n: "daemonTurn model_options ?t ?d = Nap ms d'"
    using napTurn_cases [of ?t "afterScan model_options ?t (signals (tnSignals ?t) ?d)"]
    by (auto simp: daemonTurn_def model_turn_def Let_def)
  have "dmWakeup ?d = Some newWakeFlag" by (simp add: startDaemon_def)
  from progress_skips_nap [OF this _ n] n show ?thesis by (auto simp: model_turn_def)
qed

section \<open>The scan of all legs\<close>

text \<open>The daemon backs off only in a total outage: a scan fails exactly when the flow scan and every bridge scan failed, and
  the refund sweep never matters.\<close>

lemma scan_fails_iff:
  "fst (settleScans flow sweep bridges) = Inl e \<longleftrightarrow>
     (\<exists>reason. flow = Inl reason \<and> e = toError reason) \<and> (\<forall>(name, r) \<in> set bridges. isl r)"
  by (auto simp: settleScans_def Let_def list_all_iff split: sum.splits)

section \<open>The cadence of the sweeps\<close>

fun backstops :: "int \<Rightarrow> int \<Rightarrow> int list \<Rightarrow> tick_state \<Rightarrow> int list" where
  "backstops bi ri [] s = []"
| "backstops bi ri (now # rest) s =
     (case selectTick bi ri now s of
        (backstop, _, s') \<Rightarrow> (if backstop then [now] else []) @ backstops bi ri rest s')"

lemma backstops_spaced:
  "successively (\<lambda>a b. a + bi \<le> b) (tsLastBackstopAt s # backstops bi ri nows s)"
proof (induction nows arbitrary: s)
  case (Cons now nows)
  obtain b r s' where t: "selectTick bi ri now s = (b, r, s')" by (metis prod_cases3)
  show ?case using t Cons [of s']
    by (cases b; cases "backstops bi ri nows s'") (auto simp: selectTick_def Let_def)
qed simp

text \<open>However fast wake-ups make the loop run, two backstop sweeps are at least an interval apart, and a tick that comes an
  interval or more after the last sweep is itself a sweep.\<close>

theorem backstop_cadence:
  assumes "0 < bi"
  shows "sorted_wrt (\<lambda>a b. a + bi \<le> b) (backstops bi ri nows s) \<and>
    (tsLastBackstopAt s + bi \<le> now \<longrightarrow> fst (selectTick bi ri now s))"
proof -
  have "transp (\<lambda>a b. a + bi \<le> (b :: int))" using assms by (auto simp: transp_def)
  then have "sorted_wrt (\<lambda>a b. a + bi \<le> b) (tsLastBackstopAt s # backstops bi ri nows s)"
    using backstops_spaced successively_conv_sorted_wrt by blast
  with assms show ?thesis by (auto simp: selectTick_def Let_def)
qed

theorem backstop_cadence_witness:
  "backstops 10 0 [10, 15, 20, 21] \<lparr>tsLastBackstopAt = 0, tsLastRefundAt = 0\<rparr> = [10, 20] \<and>
   sorted_wrt (\<lambda>a b. a + 10 \<le> b) (backstops 10 0 [10, 15, 20, 21] \<lparr>tsLastBackstopAt = 0, tsLastRefundAt = 0\<rparr>)"
  using backstop_cadence [of 10 0 "[10, 15, 20, 21]" "\<lparr>tsLastBackstopAt = 0, tsLastRefundAt = 0\<rparr>" 10]
  by (simp add: selectTick_def Let_def)

end
