(* ===== verification/Config.thy ===== *)
theory Config
  imports Pyth Rate_Limit Enumerate Daemon
begin

text \<open>
  The cranker's configuration (\<open>packages/cranker/src/config.ts\<close>): the schema of the environment variables with its defaults,
  and \<open>loadConfig\<close>.

  The schema library zod is a parameter: \<open>zod ty text\<close> is what it makes of a variable that is set, \<open>None\<close> when it reports an
  issue. What a theorem relies on of it is \<open>zod_sound\<close> (an accepted value has the shape the schema states) or \<open>zod_documented\<close>
  (which value that is). A default is taken for an unset variable without being checked against the schema, as zod documents it.
\<close>

section \<open>The schema\<close>

text \<open>\<open>ZUrl p\<close> is \<open>z.string().url()\<close> with the refinement \<open>p\<close>; \<open>ZString n\<close> is \<open>z.string().min(n)\<close>; \<open>ZInt\<close> and \<open>ZNumber\<close> are
  \<open>z.coerce.number()\<close> with their bounds, the first with \<open>int()\<close>; \<open>ZHex64\<close> is the regular expression of 64 hexadecimal digits.\<close>

datatype zod_type =
    ZUrl "string \<Rightarrow> bool"
  | ZString nat
  | ZInt int "int option"
  | ZNumber int
  | ZHex64
  | ZEnum "string list"

datatype zod_value = VText string | VInt int | VNum real

type_synonym schema = "(string \<times> zod_type \<times> zod_value option) list"

text \<open>The refinement of \<open>SOLANA_RPC_URL\<close>.\<close>

definition paidRpc :: "string \<Rightarrow> bool" where
  "paidRpc u \<longleftrightarrow> \<not> text_includes u ''api.mainnet-beta.solana.com''"

definition DEFAULT_EMITTER_HEX :: "web3_env \<Rightarrow> pubkey \<Rightarrow> string result" where
  "DEFAULT_EMITTER_HEX env manager = rbind (key_of (findNttEmitterPda env manager)) (\<lambda>k. Inr (hex_of k))"

definition HERMES_ENDPOINT :: string where
  "HERMES_ENDPOINT = ''https://hermes.pyth.network''"

definition configSchema :: "string \<Rightarrow> string \<Rightarrow> schema" where
  "configSchema usdcEmitterHex onycEmitterHex =
     [(''SOLANA_RPC_URL'', (ZUrl paidRpc), None),
      (''SOLANA_WS_URL'', (ZUrl (\<lambda>_. True)), None),
      (''FOGO_RPC_URL'', (ZUrl (\<lambda>_. True)), None),
      (''KEYPAIR_PATH'', (ZString 1), None),
      (''WORMHOLESCAN_URL'', (ZUrl (\<lambda>_. True)), (Some (VText ''https://api.wormholescan.io''))),
      (''WORMHOLESCAN_PAGE_SIZE'', (ZInt 1 (Some 200)), (Some (VInt 50))),
      (''WORMHOLESCAN_MAX_PAGES'', (ZInt 1 (Some 20)), (Some (VInt 2))),
      (''WORMHOLESCAN_BACKSTOP_MAX_PAGES'', (ZInt 1 (Some 200)), (Some (VInt 50))),
      (''BACKSTOP_INTERVAL_MS'', (ZInt 0 None), (Some (VInt 300000))),
      (''REFUND_INTERVAL_MS'', (ZInt 0 None), (Some (VInt 0))),
      (''MAX_CONCURRENT_REFUNDS'', (ZInt 1 (Some 32)), (Some (VInt 2))),
      (''FOGO_WORMHOLE_CHAIN_ID'', (ZInt 1 None), (Some (VInt (int FOGO_WORMHOLE_CHAIN_ID)))),
      (''FOGO_USDC_EMITTER_HEX'', ZHex64, (Some (VText usdcEmitterHex))),
      (''FOGO_ONYC_EMITTER_HEX'', ZHex64, (Some (VText onycEmitterHex))),
      (''SOLANA_ONYC_EMITTER_HEX'', ZHex64, (Some (VText onycEmitterHex))),
      (''SOLANA_USDC_EMITTER_HEX'', ZHex64, (Some (VText usdcEmitterHex))),
      (''BRIDGE_PIPELINE_ENABLED'', (ZEnum [''true'', ''false'']), (Some (VText ''true''))),
      (''BRIDGE_MAX_CONCURRENT'', (ZInt 1 (Some 32)), (Some (VInt 4))),
      (''METRICS_PORT'', (ZInt 1 (Some 65535)), (Some (VInt 9090))),
      (''SCAN_INTERVAL_MS'', (ZInt 1000 None), (Some (VInt 30000))),
      (''SCAN_MAX_BACKOFF_MS'', (ZInt 1000 None), (Some (VInt 300000))),
      (''SHUTDOWN_DEADLINE_MS'', (ZInt 1000 None), (Some (VInt 8000))),
      (''BALANCE_POLL_INTERVAL_MS'', (ZInt 5000 None), (Some (VInt 60000))),
      (''RPC_TIMEOUT_MS'', (ZInt 1000 None), (Some (VInt 15000))),
      (''SOLANA_RPC_MAX_RPS'', (ZNumber 1), (Some (VNum 25))),
      (''FOGO_RPC_MAX_RPS'', (ZNumber 1), (Some (VNum 25))),
      (''ENUMERATE_TIMEOUT_MS'', (ZInt 5000 None), (Some (VInt 90000))),
      (''TX_CONFIRM_TIMEOUT_MS'', (ZInt 30000 None), (Some (VInt 90000))),
      (''WORMHOLESCAN_TIMEOUT_MS'', (ZInt 1000 None), (Some (VInt 10000))),
      (''HEARTBEAT_STALE_MS'', (ZInt 30000 None), (Some (VInt 120000))),
      (''MAX_CONCURRENT_ADVANCES'', (ZInt 1 (Some 32)), (Some (VInt 4))),
      (''SOLANA_PRIORITY_FEE_MICROLAMPORTS'', (ZInt 0 None), (Some (VInt 10000))),
      (''SEND_LOOKUP_TABLE'', (ZString 32), (Some (VText ''9aF7QN6HTtfQ6Wvo2UMFeTuHyaBxidMHhbTbN16Bwuyk''))),
      (''CHECKPOINT_PATH'', (ZString 0), (Some (VText ''./cranker-checkpoint.json''))),
      (''LOG_LEVEL'', (ZEnum [''debug'', ''info'', ''warn'', ''error'']), (Some (VText ''info''))),
      (''PYTH_KEEPER_ENABLED'', (ZEnum [''true'', ''false'']), (Some (VText ''false''))),
      (''HERMES_URL'', (ZUrl (\<lambda>_. True)), (Some (VText HERMES_ENDPOINT))),
      (''PYTH_ONYC_FEED_ID'', ZHex64, (Some (VText ONYC_PYTH_FEED_ID))),
      (''PYTH_KEEPER_MAX_AGE_MS'', (ZInt 10000 None), (Some (VInt 300000))),
      (''PYTH_KEEPER_SHARD'', (ZInt 0 None), (Some (VInt 0)))]"

record CrankerConfig =
  ccSolanaRpcUrl :: string
  ccSolanaWsUrl :: string
  ccFogoRpcUrl :: string
  ccKeypairPath :: string
  ccWormholescanUrl :: string
  ccWormholescanPageSize :: int
  ccWormholescanMaxPages :: int
  ccWormholescanBackstopMaxPages :: int
  ccBackstopIntervalMs :: int
  ccRefundIntervalMs :: int
  ccMaxConcurrentRefunds :: int
  ccFogoWormholeChainId :: int
  ccFogoUsdcEmitterHex :: string
  ccFogoOnycEmitterHex :: string
  ccSolanaOnycEmitterHex :: string
  ccSolanaUsdcEmitterHex :: string
  ccBridgePipelineEnabled :: bool
  ccBridgeMaxConcurrent :: int
  ccMetricsPort :: int
  ccScanIntervalMs :: int
  ccScanMaxBackoffMs :: int
  ccShutdownDeadlineMs :: int
  ccBalancePollIntervalMs :: int
  ccRpcTimeoutMs :: int
  ccSolanaRpcMaxRps :: real
  ccFogoRpcMaxRps :: real
  ccEnumerateTimeoutMs :: int
  ccTxConfirmTimeoutMs :: int
  ccWormholescanTimeoutMs :: int
  ccHeartbeatStaleMs :: int
  ccMaxConcurrentAdvances :: int
  ccSolanaPriorityFeeMicroLamports :: int
  ccSendLookupTable :: string
  ccCheckpointPath :: string
  ccLogLevel :: string
  ccPythKeeperEnabled :: bool
  ccHermesUrl :: string
  ccPythOnycFeedId :: string
  ccPythKeeperMaxAgeMs :: int
  ccPythKeeperShard :: int

section \<open>Loading\<close>

definition fieldValue :: "(zod_type \<Rightarrow> string \<Rightarrow> zod_value option) \<Rightarrow> (string \<rightharpoonup> string) \<Rightarrow> zod_type \<Rightarrow> zod_value option \<Rightarrow> string \<Rightarrow> zod_value option" where
  "fieldValue zod vars ty dflt name = (case vars name of None \<Rightarrow> dflt | Some text \<Rightarrow> zod ty text)"

text \<open>\<open>schema.parse(env)\<close>: every field must have a value, else it throws.\<close>

definition parseSchema :: "(zod_type \<Rightarrow> string \<Rightarrow> zod_value option) \<Rightarrow> schema \<Rightarrow> (string \<rightharpoonup> string) \<Rightarrow> (string \<rightharpoonup> zod_value) result" where
  "parseSchema zod entries vars =
     (if list_all (\<lambda>(name, ty, dflt). fieldValue zod vars ty dflt name \<noteq> None) entries
      then Inr (\<lambda>n. case map_of entries n of None \<Rightarrow> None | Some (ty, dflt) \<Rightarrow> fieldValue zod vars ty dflt n)
      else Inl (Error ''ZodError''))"

fun textOf :: "zod_value option \<Rightarrow> string" where
  "textOf (Some (VText s)) = s"
| "textOf _ = []"

fun intOf :: "zod_value option \<Rightarrow> int" where
  "intOf (Some (VInt i)) = i"
| "intOf _ = 0"

fun numOf :: "zod_value option \<Rightarrow> real" where
  "numOf (Some (VNum x)) = x"
| "numOf _ = 0"

definition configOf :: "(string \<rightharpoonup> zod_value) \<Rightarrow> CrankerConfig" where
  "configOf parsed =
     \<lparr>ccSolanaRpcUrl = textOf (parsed ''SOLANA_RPC_URL''),
        ccSolanaWsUrl = textOf (parsed ''SOLANA_WS_URL''),
        ccFogoRpcUrl = textOf (parsed ''FOGO_RPC_URL''),
        ccKeypairPath = textOf (parsed ''KEYPAIR_PATH''),
        ccWormholescanUrl = textOf (parsed ''WORMHOLESCAN_URL''),
        ccWormholescanPageSize = intOf (parsed ''WORMHOLESCAN_PAGE_SIZE''),
        ccWormholescanMaxPages = intOf (parsed ''WORMHOLESCAN_MAX_PAGES''),
        ccWormholescanBackstopMaxPages = intOf (parsed ''WORMHOLESCAN_BACKSTOP_MAX_PAGES''),
        ccBackstopIntervalMs = intOf (parsed ''BACKSTOP_INTERVAL_MS''),
        ccRefundIntervalMs = intOf (parsed ''REFUND_INTERVAL_MS''),
        ccMaxConcurrentRefunds = intOf (parsed ''MAX_CONCURRENT_REFUNDS''),
        ccFogoWormholeChainId = intOf (parsed ''FOGO_WORMHOLE_CHAIN_ID''),
        ccFogoUsdcEmitterHex = textOf (parsed ''FOGO_USDC_EMITTER_HEX''),
        ccFogoOnycEmitterHex = textOf (parsed ''FOGO_ONYC_EMITTER_HEX''),
        ccSolanaOnycEmitterHex = textOf (parsed ''SOLANA_ONYC_EMITTER_HEX''),
        ccSolanaUsdcEmitterHex = textOf (parsed ''SOLANA_USDC_EMITTER_HEX''),
        ccBridgePipelineEnabled = (textOf (parsed ''BRIDGE_PIPELINE_ENABLED'') = ''true''),
        ccBridgeMaxConcurrent = intOf (parsed ''BRIDGE_MAX_CONCURRENT''),
        ccMetricsPort = intOf (parsed ''METRICS_PORT''),
        ccScanIntervalMs = intOf (parsed ''SCAN_INTERVAL_MS''),
        ccScanMaxBackoffMs = intOf (parsed ''SCAN_MAX_BACKOFF_MS''),
        ccShutdownDeadlineMs = intOf (parsed ''SHUTDOWN_DEADLINE_MS''),
        ccBalancePollIntervalMs = intOf (parsed ''BALANCE_POLL_INTERVAL_MS''),
        ccRpcTimeoutMs = intOf (parsed ''RPC_TIMEOUT_MS''),
        ccSolanaRpcMaxRps = numOf (parsed ''SOLANA_RPC_MAX_RPS''),
        ccFogoRpcMaxRps = numOf (parsed ''FOGO_RPC_MAX_RPS''),
        ccEnumerateTimeoutMs = intOf (parsed ''ENUMERATE_TIMEOUT_MS''),
        ccTxConfirmTimeoutMs = intOf (parsed ''TX_CONFIRM_TIMEOUT_MS''),
        ccWormholescanTimeoutMs = intOf (parsed ''WORMHOLESCAN_TIMEOUT_MS''),
        ccHeartbeatStaleMs = intOf (parsed ''HEARTBEAT_STALE_MS''),
        ccMaxConcurrentAdvances = intOf (parsed ''MAX_CONCURRENT_ADVANCES''),
        ccSolanaPriorityFeeMicroLamports = intOf (parsed ''SOLANA_PRIORITY_FEE_MICROLAMPORTS''),
        ccSendLookupTable = textOf (parsed ''SEND_LOOKUP_TABLE''),
        ccCheckpointPath = textOf (parsed ''CHECKPOINT_PATH''),
        ccLogLevel = textOf (parsed ''LOG_LEVEL''),
        ccPythKeeperEnabled = (textOf (parsed ''PYTH_KEEPER_ENABLED'') = ''true''),
        ccHermesUrl = textOf (parsed ''HERMES_URL''),
        ccPythOnycFeedId = textOf (parsed ''PYTH_ONYC_FEED_ID''),
        ccPythKeeperMaxAgeMs = intOf (parsed ''PYTH_KEEPER_MAX_AGE_MS''),
        ccPythKeeperShard = intOf (parsed ''PYTH_KEEPER_SHARD'')\<rparr>"

definition loadConfig :: "web3_env \<Rightarrow> (zod_type \<Rightarrow> string \<Rightarrow> zod_value option) \<Rightarrow> (string \<rightharpoonup> string) \<Rightarrow> CrankerConfig result" where
  "loadConfig env zod vars =
     rbind (DEFAULT_EMITTER_HEX env NTT_USDC_PROGRAM_ID) (\<lambda>usdcEmitterHex.
     rbind (DEFAULT_EMITTER_HEX env NTT_ONYC_PROGRAM_ID) (\<lambda>onycEmitterHex.
     rbind (parseSchema zod (configSchema usdcEmitterHex onycEmitterHex) vars) (\<lambda>parsed.
       Inr (configOf parsed))))"

section \<open>What an accepted configuration is like\<close>

fun value_ok :: "zod_type \<Rightarrow> zod_value \<Rightarrow> bool" where
  "value_ok (ZUrl p) (VText s) \<longleftrightarrow> p s"
| "value_ok (ZString n) (VText s) \<longleftrightarrow> n \<le> length s"
| "value_ok (ZInt lo hi) (VInt i) \<longleftrightarrow> lo \<le> i \<and> (case hi of None \<Rightarrow> True | Some h \<Rightarrow> i \<le> h)"
| "value_ok (ZNumber lo) (VNum x) \<longleftrightarrow> real_of_int lo \<le> x"
| "value_ok ZHex64 (VText s) \<longleftrightarrow> length s = 64 \<and> list_all hex_char s"
| "value_ok (ZEnum vs) (VText s) \<longleftrightarrow> s \<in> set vs"
| "value_ok _ _ \<longleftrightarrow> False"

definition zod_sound :: "(zod_type \<Rightarrow> string \<Rightarrow> zod_value option) \<Rightarrow> bool" where
  "zod_sound zod \<longleftrightarrow> (\<forall>ty text v. zod ty text = Some v \<longrightarrow> value_ok ty v)"

text \<open>Every default satisfies the constraint it stands for, which zod itself does not check.\<close>

lemma defaults_ok:
  assumes "length usdc = 64" "list_all hex_char usdc" "length onyc = 64" "list_all hex_char onyc"
  shows "list_all (\<lambda>(name, ty, dflt). case dflt of None \<Rightarrow> True | Some v \<Rightarrow> value_ok ty v) (configSchema usdc onyc)"
  using assms by (simp add: configSchema_def FOGO_WORMHOLE_CHAIN_ID_def ONYC_PYTH_FEED_ID_def hex_char_def)

lemma schema_distinct: "distinct (map fst (configSchema usdc onyc))"
  by (simp add: configSchema_def)

lemma parseSchema_field:
  assumes "parseSchema zod entries vars = Inr parsed" "zod_sound zod" "distinct (map fst entries)" "(name, ty, dflt) \<in> set entries"
    and "list_all (\<lambda>(name, ty, dflt). case dflt of None \<Rightarrow> True | Some v \<Rightarrow> value_ok ty v) entries"
  shows "\<exists>v. parsed name = Some v \<and> value_ok ty v \<and> (vars name = None \<longrightarrow> dflt = Some v)"
proof -
  have p: "parsed name = fieldValue zod vars ty dflt name" "fieldValue zod vars ty dflt name \<noteq> None"
    using assms(1,3,4) by (auto simp: parseSchema_def list_all_iff split: if_splits)
  then obtain v where v: "fieldValue zod vars ty dflt name = Some v" by blast
  have "value_ok ty v" using v assms(2,4,5) by (auto simp: fieldValue_def zod_sound_def list_all_iff split: option.splits)
  with p v show ?thesis by (auto simp: fieldValue_def split: option.splits)
qed

lemma value_ok_inv:
  "value_ok (ZUrl p) v \<Longrightarrow> p (textOf (Some v))" "value_ok (ZString n) v \<Longrightarrow> n \<le> length (textOf (Some v))"
  "value_ok (ZInt lo hi) v \<Longrightarrow> lo \<le> intOf (Some v) \<and> (\<forall>h. hi = Some h \<longrightarrow> intOf (Some v) \<le> h)"
  "value_ok (ZNumber lo) v \<Longrightarrow> real_of_int lo \<le> numOf (Some v)"
  "value_ok ZHex64 v \<Longrightarrow> length (textOf (Some v)) = 64 \<and> list_all hex_char (textOf (Some v))"
  "value_ok (ZEnum vs) v \<Longrightarrow> textOf (Some v) \<in> set vs"
  by (cases v; auto split: option.splits)+

text \<open>A program address has 32 bytes.\<close>

definition pda_keys :: "web3_env \<Rightarrow> bool" where
  "pda_keys env \<longleftrightarrow> (\<forall>s p k b. fpa env s p = Inr (k, b) \<longrightarrow> length k = 32)"

lemma emitter_hex: "pda_keys env \<Longrightarrow> DEFAULT_EMITTER_HEX env m = Inr h \<Longrightarrow> length h = 64" "pda_keys env \<Longrightarrow> DEFAULT_EMITTER_HEX env m = Inr h \<Longrightarrow> list_all hex_char h"
  by (auto simp: DEFAULT_EMITTER_HEX_def findNttEmitterPda_def key_of_def result_simps hex_of_chars) (auto simp: pda_keys_def)

lemma loadConfig_parsed:
  assumes "loadConfig env zod vars = Inr cfg" "zod_sound zod" "pda_keys env"
  obtains usdc onyc parsed where "cfg = configOf parsed"
    "list_all (\<lambda>(name, ty, dflt). \<exists>v. parsed name = Some v \<and> value_ok ty v \<and> (vars name = None \<longrightarrow> dflt = Some v)) (configSchema usdc onyc)"
proof -
  from assms(1) obtain usdc onyc parsed where
    e: "DEFAULT_EMITTER_HEX env NTT_USDC_PROGRAM_ID = Inr usdc" "DEFAULT_EMITTER_HEX env NTT_ONYC_PROGRAM_ID = Inr onyc"
    and p: "parseSchema zod (configSchema usdc onyc) vars = Inr parsed" "cfg = configOf parsed"
    by (auto simp: loadConfig_def result_simps)
  from e have d: "list_all (\<lambda>(name, ty, dflt). case dflt of None \<Rightarrow> True | Some v \<Rightarrow> value_ok ty v) (configSchema usdc onyc)"
    using emitter_hex [OF assms(3)] by (intro defaults_ok) auto
  show thesis by (rule that [OF p(2)]) (use parseSchema_field [OF p(1) assms(2) schema_distinct _ d] in \<open>auto simp: list_all_iff\<close>)
qed

fun shape_ok :: "zod_value option \<Rightarrow> zod_type \<Rightarrow> bool" where
  "shape_ok v (ZUrl p) \<longleftrightarrow> p (textOf v)"
| "shape_ok v (ZString n) \<longleftrightarrow> n \<le> length (textOf v)"
| "shape_ok v (ZInt lo None) \<longleftrightarrow> lo \<le> intOf v"
| "shape_ok v (ZInt lo (Some hi)) \<longleftrightarrow> lo \<le> intOf v \<and> intOf v \<le> hi"
| "shape_ok v (ZNumber lo) \<longleftrightarrow> real_of_int lo \<le> numOf v"
| "shape_ok v ZHex64 \<longleftrightarrow> length (textOf v) = 64 \<and> list_all hex_char (textOf v)"
| "shape_ok v (ZEnum vs) \<longleftrightarrow> textOf v \<in> set vs"

lemma shape_of_value: "value_ok ty v \<Longrightarrow> shape_ok (Some v) ty"
  by (cases "(Some v, ty)" rule: shape_ok.cases) (auto dest: value_ok_inv)

text \<open>The ranges the rest of the cranker can rely on.\<close>

definition config_ok :: "CrankerConfig \<Rightarrow> bool" where
  "config_ok c \<longleftrightarrow>
     paidRpc (ccSolanaRpcUrl c) \<and> ccKeypairPath c \<noteq> [] \<and>
     ccWormholescanPageSize c \<in> {1..200} \<and> ccWormholescanMaxPages c \<in> {1..20} \<and> ccWormholescanBackstopMaxPages c \<in> {1..200} \<and>
     0 \<le> ccBackstopIntervalMs c \<and> 0 \<le> ccRefundIntervalMs c \<and>
     ccMaxConcurrentRefunds c \<in> {1..32} \<and> ccBridgeMaxConcurrent c \<in> {1..32} \<and> ccMaxConcurrentAdvances c \<in> {1..32} \<and>
     1 \<le> ccFogoWormholeChainId c \<and> ccMetricsPort c \<in> {1..65535} \<and>
     (\<forall>h \<in> {ccFogoUsdcEmitterHex c, ccFogoOnycEmitterHex c, ccSolanaOnycEmitterHex c, ccSolanaUsdcEmitterHex c, ccPythOnycFeedId c}.
        length h = 64 \<and> list_all hex_char h) \<and>
     1000 \<le> ccScanIntervalMs c \<and> 1000 \<le> ccScanMaxBackoffMs c \<and> 1000 \<le> ccShutdownDeadlineMs c \<and> 5000 \<le> ccBalancePollIntervalMs c \<and>
     1000 \<le> ccRpcTimeoutMs c \<and> 5000 \<le> ccEnumerateTimeoutMs c \<and> 30000 \<le> ccTxConfirmTimeoutMs c \<and>
     1000 \<le> ccWormholescanTimeoutMs c \<and> 30000 \<le> ccHeartbeatStaleMs c \<and> 1 \<le> ccSolanaRpcMaxRps c \<and> 1 \<le> ccFogoRpcMaxRps c \<and>
     0 \<le> ccSolanaPriorityFeeMicroLamports c \<and> 32 \<le> length (ccSendLookupTable c) \<and>
     ccLogLevel c \<in> {''debug'', ''info'', ''warn'', ''error''} \<and> 10000 \<le> ccPythKeeperMaxAgeMs c \<and> 0 \<le> ccPythKeeperShard c"

lemma config_shapes:
  assumes "list_all (\<lambda>(name, ty, dflt). shape_ok (parsed name) ty) (configSchema usdc onyc)"
  shows "config_ok (configOf parsed)"
  using assms by (simp add: configSchema_def config_ok_def configOf_def) (auto simp: Suc_le_eq)

lemma loadConfig_ok:
  assumes "loadConfig env zod vars = Inr cfg" "zod_sound zod" "pda_keys env"
  shows "config_ok cfg"
proof -
  obtain usdc onyc parsed where c: "cfg = configOf parsed"
    and f: "list_all (\<lambda>(name, ty, dflt). \<exists>v. parsed name = Some v \<and> value_ok ty v \<and> (vars name = None \<longrightarrow> dflt = Some v)) (configSchema usdc onyc)"
    by (rule loadConfig_parsed [OF assms])
  have "shape_ok (parsed name) ty" if "(name, ty, dflt) \<in> set (configSchema usdc onyc)" for name ty dflt
    using f that shape_of_value by (fastforce simp: list_all_iff)
  then show ?thesis unfolding c by (intro config_shapes [of _ usdc onyc]) (auto simp: list_all_iff)
qed

text \<open>What JavaScript's \<open>Number\<close> makes of a text, where that is a finite number: white space around it does not count, the empty
  text is zero, a prefix selects another radix, and a decimal has an optional sign, fraction and exponent. (Doubles are taken as
  reals.)\<close>

definition exponentOf :: "string \<Rightarrow> int option" where
  "exponentOf s =
     (if is_prefix ''-'' s then map_option (\<lambda>n. - int n) (radix_nat 10 (drop 1 s))
      else map_option int (radix_nat 10 (if is_prefix ''+'' s then drop 1 s else s)))"

definition unsignedDecimal :: "string \<Rightarrow> real option" where
  "unsignedDecimal s =
     (let whole = takeWhile is_digit s; rest = dropWhile is_digit s;
          frac = (if is_prefix ''.'' rest then takeWhile is_digit (drop 1 rest) else []);
          tail = (if is_prefix ''.'' rest then dropWhile is_digit (drop 1 rest) else rest);
          value = real (nat_of_dec (whole @ frac)) / 10 ^ length frac
      in if whole = [] \<and> frac = [] then None
         else if tail = [] then Some value
         else if is_prefix ''e'' tail \<or> is_prefix ''E'' tail then map_option (\<lambda>k. value * 10 powi k) (exponentOf (drop 1 tail))
         else None)"

definition finiteNumber :: "string \<Rightarrow> real option" where
  "finiteNumber text =
     (let t = trim text in
      if t = [] then Some 0
      else if is_prefix ''0x'' t \<or> is_prefix ''0X'' t then map_option real (radix_nat 16 (drop 2 t))
      else if is_prefix ''0o'' t \<or> is_prefix ''0O'' t then map_option real (radix_nat 8 (drop 2 t))
      else if is_prefix ''0b'' t \<or> is_prefix ''0B'' t then map_option real (radix_nat 2 (drop 2 t))
      else if is_prefix ''-'' t then map_option uminus (unsignedDecimal (drop 1 t))
      else unsignedDecimal (if is_prefix ''+'' t then drop 1 t else t))"

text \<open>What zod documents of an accepted text, by type: a string is kept as it is and satisfies every check of its chain; a coerced
  number is \<open>Number(text)\<close>, finite, whole where \<open>int()\<close> asks for it, and within its bounds. \<open>isUrl\<close> is the check of \<open>url()\<close>.\<close>

fun documented :: "(string \<Rightarrow> bool) \<Rightarrow> zod_type \<Rightarrow> string \<Rightarrow> zod_value \<Rightarrow> bool" where
  "documented isUrl (ZUrl p) text v \<longleftrightarrow> v = VText text \<and> isUrl text \<and> p text"
| "documented isUrl (ZString n) text v \<longleftrightarrow> v = VText text \<and> n \<le> length text"
| "documented isUrl (ZInt lo hi) text v \<longleftrightarrow>
     (\<exists>i. v = VInt i \<and> finiteNumber text = Some (real_of_int i) \<and> lo \<le> i \<and> (\<forall>h. hi = Some h \<longrightarrow> i \<le> h))"
| "documented isUrl (ZNumber lo) text v \<longleftrightarrow> (\<exists>x. v = VNum x \<and> finiteNumber text = Some x \<and> real_of_int lo \<le> x)"
| "documented isUrl ZHex64 text v \<longleftrightarrow> v = VText text \<and> length text = 64 \<and> list_all hex_char text"
| "documented isUrl (ZEnum vs) text v \<longleftrightarrow> v = VText text \<and> text \<in> set vs"

definition zod_documented :: "(string \<Rightarrow> bool) \<Rightarrow> (zod_type \<Rightarrow> string \<Rightarrow> zod_value option) \<Rightarrow> bool" where
  "zod_documented isUrl zod \<longleftrightarrow> (\<forall>ty text v. zod ty text = Some v \<longrightarrow> documented isUrl ty text v)"

lemma documented_value_ok: "documented isUrl ty text v \<Longrightarrow> value_ok ty v"
  by (cases ty) (auto split: option.split)

lemma zod_documented_sound: "zod_documented isUrl zod \<Longrightarrow> zod_sound zod"
  unfolding zod_documented_def zod_sound_def using documented_value_ok by blast

text \<open>A field is the value of a variable when that is set, and a default otherwise.\<close>

definition text_var :: "(string \<rightharpoonup> string) \<Rightarrow> string \<Rightarrow> string option \<Rightarrow> string \<Rightarrow> bool" where
  "text_var vars name dflt s \<longleftrightarrow> (case vars name of None \<Rightarrow> dflt = Some s | Some text \<Rightarrow> s = text)"

definition num_var :: "(string \<rightharpoonup> string) \<Rightarrow> string \<Rightarrow> real \<Rightarrow> real \<Rightarrow> bool" where
  "num_var vars name dflt x \<longleftrightarrow> (case vars name of None \<Rightarrow> x = dflt | Some text \<Rightarrow> finiteNumber text = Some x)"

definition int_var :: "(string \<rightharpoonup> string) \<Rightarrow> string \<Rightarrow> int \<Rightarrow> int \<Rightarrow> bool" where
  "int_var vars name dflt i \<longleftrightarrow> num_var vars name (real_of_int dflt) (real_of_int i)"

definition flag_var :: "(string \<rightharpoonup> string) \<Rightarrow> string \<Rightarrow> bool \<Rightarrow> bool \<Rightarrow> bool" where
  "flag_var vars name dflt b \<longleftrightarrow>
     (case vars name of None \<Rightarrow> b = dflt | Some text \<Rightarrow> text = ''true'' \<and> b \<or> text = ''false'' \<and> \<not> b)"

definition config_reads :: "(string \<rightharpoonup> string) \<Rightarrow> string \<Rightarrow> string \<Rightarrow> CrankerConfig \<Rightarrow> bool" where
  "config_reads vars usdcHex onycHex c \<longleftrightarrow>
     text_var vars ''SOLANA_RPC_URL'' None (ccSolanaRpcUrl c) \<and> text_var vars ''SOLANA_WS_URL'' None (ccSolanaWsUrl c) \<and>
     text_var vars ''FOGO_RPC_URL'' None (ccFogoRpcUrl c) \<and> text_var vars ''KEYPAIR_PATH'' None (ccKeypairPath c) \<and>
     text_var vars ''WORMHOLESCAN_URL'' (Some ''https://api.wormholescan.io'') (ccWormholescanUrl c) \<and>
     int_var vars ''WORMHOLESCAN_PAGE_SIZE'' 50 (ccWormholescanPageSize c) \<and>
     int_var vars ''WORMHOLESCAN_MAX_PAGES'' 2 (ccWormholescanMaxPages c) \<and>
     int_var vars ''WORMHOLESCAN_BACKSTOP_MAX_PAGES'' 50 (ccWormholescanBackstopMaxPages c) \<and>
     int_var vars ''BACKSTOP_INTERVAL_MS'' 300000 (ccBackstopIntervalMs c) \<and>
     int_var vars ''REFUND_INTERVAL_MS'' 0 (ccRefundIntervalMs c) \<and>
     int_var vars ''MAX_CONCURRENT_REFUNDS'' 2 (ccMaxConcurrentRefunds c) \<and>
     int_var vars ''FOGO_WORMHOLE_CHAIN_ID'' 51 (ccFogoWormholeChainId c) \<and>
     text_var vars ''FOGO_USDC_EMITTER_HEX'' (Some usdcHex) (ccFogoUsdcEmitterHex c) \<and>
     text_var vars ''FOGO_ONYC_EMITTER_HEX'' (Some onycHex) (ccFogoOnycEmitterHex c) \<and>
     text_var vars ''SOLANA_ONYC_EMITTER_HEX'' (Some onycHex) (ccSolanaOnycEmitterHex c) \<and>
     text_var vars ''SOLANA_USDC_EMITTER_HEX'' (Some usdcHex) (ccSolanaUsdcEmitterHex c) \<and>
     flag_var vars ''BRIDGE_PIPELINE_ENABLED'' True (ccBridgePipelineEnabled c) \<and>
     int_var vars ''BRIDGE_MAX_CONCURRENT'' 4 (ccBridgeMaxConcurrent c) \<and> int_var vars ''METRICS_PORT'' 9090 (ccMetricsPort c) \<and>
     int_var vars ''SCAN_INTERVAL_MS'' 30000 (ccScanIntervalMs c) \<and> int_var vars ''SCAN_MAX_BACKOFF_MS'' 300000 (ccScanMaxBackoffMs c) \<and>
     int_var vars ''SHUTDOWN_DEADLINE_MS'' 8000 (ccShutdownDeadlineMs c) \<and>
     int_var vars ''BALANCE_POLL_INTERVAL_MS'' 60000 (ccBalancePollIntervalMs c) \<and>
     int_var vars ''RPC_TIMEOUT_MS'' 15000 (ccRpcTimeoutMs c) \<and>
     num_var vars ''SOLANA_RPC_MAX_RPS'' 25 (ccSolanaRpcMaxRps c) \<and> num_var vars ''FOGO_RPC_MAX_RPS'' 25 (ccFogoRpcMaxRps c) \<and>
     int_var vars ''ENUMERATE_TIMEOUT_MS'' 90000 (ccEnumerateTimeoutMs c) \<and>
     int_var vars ''TX_CONFIRM_TIMEOUT_MS'' 90000 (ccTxConfirmTimeoutMs c) \<and>
     int_var vars ''WORMHOLESCAN_TIMEOUT_MS'' 10000 (ccWormholescanTimeoutMs c) \<and>
     int_var vars ''HEARTBEAT_STALE_MS'' 120000 (ccHeartbeatStaleMs c) \<and>
     int_var vars ''MAX_CONCURRENT_ADVANCES'' 4 (ccMaxConcurrentAdvances c) \<and>
     int_var vars ''SOLANA_PRIORITY_FEE_MICROLAMPORTS'' 10000 (ccSolanaPriorityFeeMicroLamports c) \<and>
     text_var vars ''SEND_LOOKUP_TABLE'' (Some ''9aF7QN6HTtfQ6Wvo2UMFeTuHyaBxidMHhbTbN16Bwuyk'') (ccSendLookupTable c) \<and>
     text_var vars ''CHECKPOINT_PATH'' (Some ''./cranker-checkpoint.json'') (ccCheckpointPath c) \<and>
     text_var vars ''LOG_LEVEL'' (Some ''info'') (ccLogLevel c) \<and>
     flag_var vars ''PYTH_KEEPER_ENABLED'' False (ccPythKeeperEnabled c) \<and>
     text_var vars ''HERMES_URL'' (Some ''https://hermes.pyth.network'') (ccHermesUrl c) \<and>
     text_var vars ''PYTH_ONYC_FEED_ID'' (Some ONYC_PYTH_FEED_ID) (ccPythOnycFeedId c) \<and>
     int_var vars ''PYTH_KEEPER_MAX_AGE_MS'' 300000 (ccPythKeeperMaxAgeMs c) \<and> int_var vars ''PYTH_KEEPER_SHARD'' 0 (ccPythKeeperShard c)"

text \<open>The same of one entry of the schema, and from all entries to the configuration.\<close>

fun entry_reads :: "(string \<rightharpoonup> string) \<Rightarrow> string \<Rightarrow> zod_type \<Rightarrow> zod_value option \<Rightarrow> zod_value option \<Rightarrow> bool" where
  "entry_reads vars name (ZInt lo hi) (Some (VInt d)) v \<longleftrightarrow> int_var vars name d (intOf v)"
| "entry_reads vars name (ZNumber lo) (Some (VNum d)) v \<longleftrightarrow> num_var vars name d (numOf v)"
| "entry_reads vars name (ZEnum [a, b]) (Some (VText d)) v \<longleftrightarrow> (textOf v = a \<or> textOf v = b) \<and> text_var vars name (Some d) (textOf v)"
| "entry_reads vars name _ (Some (VText d)) v \<longleftrightarrow> text_var vars name (Some d) (textOf v)"
| "entry_reads vars name _ None v \<longleftrightarrow> text_var vars name None (textOf v)"
| "entry_reads vars name _ _ v \<longleftrightarrow> True"

lemma flag_of_text: "s = ''true'' \<or> s = ''false'' \<Longrightarrow> text_var vars name (Some (if d then ''true'' else ''false'')) s \<Longrightarrow> flag_var vars name d (s = ''true'')"
  by (auto simp: text_var_def flag_var_def split: option.splits if_splits)

lemma config_entries:
  assumes "list_all (\<lambda>(name, ty, dflt). entry_reads vars name ty dflt (parsed name)) (configSchema usdc onyc)"
  shows "config_reads vars usdc onyc (configOf parsed)"
  using assms flag_of_text [of _ vars "''BRIDGE_PIPELINE_ENABLED''" True] flag_of_text [of _ vars "''PYTH_KEEPER_ENABLED''" False]
  by (simp add: configSchema_def config_reads_def configOf_def FOGO_WORMHOLE_CHAIN_ID_def HERMES_ENDPOINT_def)

lemma loadConfig_entries:
  assumes "loadConfig env zod vars = Inr cfg" "zod_documented isUrl zod" "pda_keys env"
  obtains usdc onyc parsed where "cfg = configOf parsed" "DEFAULT_EMITTER_HEX env NTT_USDC_PROGRAM_ID = Inr usdc"
    "DEFAULT_EMITTER_HEX env NTT_ONYC_PROGRAM_ID = Inr onyc"
    "\<forall>(name, ty, dflt) \<in> set (configSchema usdc onyc).
       \<exists>v. parsed name = Some v \<and> (vars name = None \<longrightarrow> dflt = Some v) \<and> (\<forall>text. vars name = Some text \<longrightarrow> documented isUrl ty text v)"
proof -
  from assms(1) obtain usdc onyc parsed where
    e: "DEFAULT_EMITTER_HEX env NTT_USDC_PROGRAM_ID = Inr usdc" "DEFAULT_EMITTER_HEX env NTT_ONYC_PROGRAM_ID = Inr onyc"
    and p: "parseSchema zod (configSchema usdc onyc) vars = Inr parsed" "cfg = configOf parsed"
    by (auto simp: loadConfig_def result_simps)
  have "\<exists>v. parsed name = Some v \<and> (vars name = None \<longrightarrow> dflt = Some v) \<and> (\<forall>text. vars name = Some text \<longrightarrow> documented isUrl ty text v)"
    if m: "(name, ty, dflt) \<in> set (configSchema usdc onyc)" for name ty dflt
  proof -
    have "parsed name = fieldValue zod vars ty dflt name" "fieldValue zod vars ty dflt name \<noteq> None"
      using p(1) m schema_distinct [of usdc onyc] by (auto simp: parseSchema_def list_all_iff split: if_splits)
    then show ?thesis using assms(2) by (auto simp: fieldValue_def zod_documented_def split: option.splits)
  qed
  with p(2) e that show thesis by blast
qed

lemma documented_text: "documented isUrl ty text v \<Longrightarrow> \<forall>lo hi. ty \<noteq> ZInt lo hi \<and> ty \<noteq> ZNumber lo \<Longrightarrow> v = VText text"
  by (cases ty) auto

lemma entry_of_documented:
  assumes "\<exists>v. pv = Some v \<and> (vars name = None \<longrightarrow> dflt = Some v) \<and> (\<forall>text. vars name = Some text \<longrightarrow> documented isUrl ty text v)"
    and "case dflt of None \<Rightarrow> \<forall>lo hi. ty \<noteq> ZInt lo hi \<and> ty \<noteq> ZNumber lo | Some d \<Rightarrow> value_ok ty d"
  shows "entry_reads vars name ty dflt pv"
  using assms
  by (cases "(vars, name, ty, dflt, pv)" rule: entry_reads.cases; cases "vars name")
     (auto simp: text_var_def int_var_def num_var_def dest: documented_text split: option.splits)

text \<open>C30. Whatever environment the cranker starts with, the configuration it runs with is what its variables say, and in range. Each of
  the forty fields is the text or the number of its own variable when that is set, and otherwise the default the schema documents.
  The RPC is not the public one, a URL that was given is one, emitters and the feed id are 32 bytes of hex, page sizes, concurrency
  limits, intervals, timeouts and rates lie in the ranges the schema states; this includes the values that
  come from defaults, which are not checked at run time.\<close>

theorem loadConfig_in_range:
  assumes "loadConfig env zod vars = Inr cfg" "zod_documented isUrl zod" "pda_keys env"
  shows "\<exists>usdc onyc. DEFAULT_EMITTER_HEX env NTT_USDC_PROGRAM_ID = Inr usdc \<and> DEFAULT_EMITTER_HEX env NTT_ONYC_PROGRAM_ID = Inr onyc \<and>
    config_reads vars usdc onyc cfg \<and> config_ok cfg \<and>
    list_all isUrl [ccSolanaRpcUrl cfg, ccSolanaWsUrl cfg, ccFogoRpcUrl cfg] \<and>
    (vars ''WORMHOLESCAN_URL'' \<noteq> None \<longrightarrow> isUrl (ccWormholescanUrl cfg)) \<and> (vars ''HERMES_URL'' \<noteq> None \<longrightarrow> isUrl (ccHermesUrl cfg))"
proof -
  obtain usdc onyc parsed where c: "cfg = configOf parsed" and e: "DEFAULT_EMITTER_HEX env NTT_USDC_PROGRAM_ID = Inr usdc"
    "DEFAULT_EMITTER_HEX env NTT_ONYC_PROGRAM_ID = Inr onyc"
    and all: "\<forall>(name, ty, dflt) \<in> set (configSchema usdc onyc).
       \<exists>v. parsed name = Some v \<and> (vars name = None \<longrightarrow> dflt = Some v) \<and> (\<forall>text. vars name = Some text \<longrightarrow> documented isUrl ty text v)"
    by (rule loadConfig_entries [OF assms]) (rule that; assumption)
  have f: "\<exists>v. parsed name = Some v \<and> (vars name = None \<longrightarrow> dflt = Some v) \<and> (\<forall>text. vars name = Some text \<longrightarrow> documented isUrl ty text v)"
    if "(name, ty, dflt) \<in> set (configSchema usdc onyc)" for name ty dflt using bspec [OF all that] by simp
  note d = defaults_ok [OF emitter_hex [OF assms(3) e(1)] emitter_hex [OF assms(3) e(2)]]
  have "case dflt of None \<Rightarrow> \<forall>lo hi. ty \<noteq> ZInt lo hi \<and> ty \<noteq> ZNumber lo | Some v \<Rightarrow> value_ok ty v"
    if "(name, ty, dflt) \<in> set (configSchema usdc onyc)" for name ty dflt
    using that d by (cases dflt) (auto simp: list_all_iff configSchema_def)
  then have "config_reads vars usdc onyc (configOf parsed)"
    by (intro config_entries) (auto simp: list_all_iff intro!: entry_of_documented [OF f])
  moreover
  have url: "vars name \<noteq> None \<or> dflt = None \<longrightarrow> isUrl (textOf (parsed name))" if "(name, ZUrl p, dflt) \<in> set (configSchema usdc onyc)" for name p dflt
    using f [OF that] by (cases "vars name") auto
  have entries: "(''SOLANA_RPC_URL'', ZUrl paidRpc, None) \<in> set (configSchema usdc onyc)"
    "(''SOLANA_WS_URL'', ZUrl (\<lambda>_. True), None) \<in> set (configSchema usdc onyc)" "(''FOGO_RPC_URL'', ZUrl (\<lambda>_. True), None) \<in> set (configSchema usdc onyc)"
    "(''WORMHOLESCAN_URL'', ZUrl (\<lambda>_. True), Some (VText ''https://api.wormholescan.io'')) \<in> set (configSchema usdc onyc)"
    "(''HERMES_URL'', ZUrl (\<lambda>_. True), Some (VText HERMES_ENDPOINT)) \<in> set (configSchema usdc onyc)"
    by (simp_all add: configSchema_def)
  moreover note url [OF entries(1)] url [OF entries(2)] url [OF entries(3)] url [OF entries(4)] url [OF entries(5)]
  ultimately show ?thesis using e loadConfig_ok [OF assms(1) zod_documented_sound [OF assms(2)] assms(3)] by (auto simp: c configOf_def)
qed

text \<open>A parser by the book, and an environment with the required variables only.\<close>

definition model_zod :: "zod_type \<Rightarrow> string \<Rightarrow> zod_value option" where
  "model_zod ty text =
     (case ty of
        ZInt lo hi \<Rightarrow> Option.bind (finiteNumber text) (\<lambda>x. let v = VInt \<lfloor>x\<rfloor> in if real_of_int \<lfloor>x\<rfloor> = x \<and> value_ok ty v then Some v else None)
      | ZNumber lo \<Rightarrow> Option.bind (finiteNumber text) (\<lambda>x. if value_ok ty (VNum x) then Some (VNum x) else None)
      | ZUrl p \<Rightarrow> if text_includes text ''://'' \<and> p text then Some (VText text) else None
      | _ \<Rightarrow> if value_ok ty (VText text) then Some (VText text) else None)"

lemma model_zod_documented: "zod_documented (\<lambda>s. text_includes s ''://'') model_zod"
  unfolding zod_documented_def model_zod_def
  by (auto simp: Let_def bind_eq_Some_conv split: zod_type.splits if_splits option.splits)

definition model_vars :: "string \<rightharpoonup> string" where
  "model_vars = [''SOLANA_RPC_URL'' \<mapsto> ''https://rpc.example'', ''SOLANA_WS_URL'' \<mapsto> ''wss://rpc.example'',
     ''FOGO_RPC_URL'' \<mapsto> ''https://fogo.example'', ''KEYPAIR_PATH'' \<mapsto> ''/k'']"

definition model_config_env :: web3_env where
  "model_config_env = model_env\<lparr>fpa := (\<lambda>_ _. Inr (replicate 32 1, 255))\<rparr>"

lemma model_emitter: "DEFAULT_EMITTER_HEX model_config_env m = Inr (hex_of (replicate 32 1))"
  by (simp add: DEFAULT_EMITTER_HEX_def findNttEmitterPda_def key_of_def model_config_env_def)

lemma model_texts:
  "model_zod (ZUrl paidRpc) ''https://rpc.example'' = Some (VText ''https://rpc.example'')"
  "model_zod (ZUrl (\<lambda>_. True)) ''wss://rpc.example'' = Some (VText ''wss://rpc.example'')"
  "model_zod (ZUrl (\<lambda>_. True)) ''https://fogo.example'' = Some (VText ''https://fogo.example'')"
  "model_zod (ZString (Suc 0)) ''/k'' = Some (VText ''/k'')"
  by (simp_all add: model_zod_def paidRpc_def is_prefix_def)

lemma model_loads: "\<exists>cfg. loadConfig model_config_env model_zod model_vars = Inr cfg"
proof -
  have "list_all (\<lambda>(name, ty, dflt). fieldValue model_zod model_vars ty dflt name \<noteq> None) (configSchema usdc onyc)" for usdc onyc
    by (simp add: configSchema_def fieldValue_def model_vars_def model_texts)
  then show ?thesis by (simp add: loadConfig_def model_emitter parseSchema_def)
qed

text \<open>With numbers of both kinds and an endpoint set by the operator as well.\<close>

definition tuned_vars :: "string \<rightharpoonup> string" where
  "tuned_vars = model_vars(''SCAN_INTERVAL_MS'' \<mapsto> ''45000'', ''METRICS_PORT'' \<mapsto> ''8080'', ''SOLANA_RPC_MAX_RPS'' \<mapsto> ''12.5'',
     ''HERMES_URL'' \<mapsto> ''https://hermes.example'', ''PYTH_KEEPER_ENABLED'' \<mapsto> ''true'')"

lemma tuned_numbers: "finiteNumber ''45000'' = Some 45000" "finiteNumber ''8080'' = Some 8080" "finiteNumber ''12.5'' = Some (25 / 2)"
  by (simp_all add: finiteNumber_def trim_visible visible_def unsignedDecimal_def is_prefix_def is_digit_def nat_of_dec_def digit_val_def Let_def)

theorem loadConfig_in_range_witness:
  "\<exists>cfg. loadConfig model_config_env model_zod tuned_vars = Inr cfg \<and> config_ok cfg \<and> ccScanIntervalMs cfg = 45000 \<and> ccMetricsPort cfg = 8080 \<and>
     ccSolanaRpcMaxRps cfg = 25 / 2 \<and> ccPythKeeperEnabled cfg \<and> ccHeartbeatStaleMs cfg = 120000"
proof -
  have "model_zod (ZInt 1000 None) ''45000'' = Some (VInt 45000)" "model_zod (ZInt 1 (Some 65535)) ''8080'' = Some (VInt 8080)"
    "model_zod (ZNumber 1) ''12.5'' = Some (VNum (25 / 2))" "model_zod (ZEnum [''true'', ''false'']) ''true'' = Some (VText ''true'')"
    by (simp_all add: model_zod_def tuned_numbers)
  moreover have "model_zod (ZUrl (\<lambda>_. True)) ''https://hermes.example'' = Some (VText ''https://hermes.example'')"
    by (simp add: model_zod_def is_prefix_def)
  ultimately have "list_all (\<lambda>(name, ty, dflt). fieldValue model_zod tuned_vars ty dflt name \<noteq> None) (configSchema usdc onyc)" for usdc onyc
    by (simp add: configSchema_def fieldValue_def tuned_vars_def model_vars_def model_texts)
  then obtain cfg where cfg: "loadConfig model_config_env model_zod tuned_vars = Inr cfg" by (simp add: loadConfig_def model_emitter parseSchema_def)
  have "pda_keys model_config_env" by (simp add: pda_keys_def model_config_env_def)
  from loadConfig_in_range [OF cfg model_zod_documented this] obtain usdc onyc where r: "config_reads tuned_vars usdc onyc cfg" "config_ok cfg" by blast
  then have "int_var tuned_vars ''SCAN_INTERVAL_MS'' 30000 (ccScanIntervalMs cfg)" "int_var tuned_vars ''METRICS_PORT'' 9090 (ccMetricsPort cfg)"
    "num_var tuned_vars ''SOLANA_RPC_MAX_RPS'' 25 (ccSolanaRpcMaxRps cfg)" "flag_var tuned_vars ''PYTH_KEEPER_ENABLED'' False (ccPythKeeperEnabled cfg)"
    "int_var tuned_vars ''HEARTBEAT_STALE_MS'' 120000 (ccHeartbeatStaleMs cfg)"
    unfolding config_reads_def by blast+
  then show ?thesis using cfg r(2) by (simp add: int_var_def num_var_def flag_var_def tuned_vars_def model_vars_def tuned_numbers)
qed

text \<open>The heartbeat limit is meant to be far above the interval plus the longest scan. With the defaults it is below a scan in
  which one enumeration and one confirmation use the time they are given, so the watchdog ends a process that works within
  every one of its budgets.\<close>

lemma default_scan_outlives_heartbeat:
  assumes "loadConfig env zod vars = Inr cfg" "zod_sound zod" "pda_keys env"
    and "vars ''ENUMERATE_TIMEOUT_MS'' = None" "vars ''TX_CONFIRM_TIMEOUT_MS'' = None" "vars ''HEARTBEAT_STALE_MS'' = None"
  shows "ccHeartbeatStaleMs cfg < ccEnumerateTimeoutMs cfg + ccTxConfirmTimeoutMs cfg"
proof -
  obtain usdc onyc parsed where c: "cfg = configOf parsed"
    and f: "list_all (\<lambda>(name, ty, dflt). \<exists>v. parsed name = Some v \<and> value_ok ty v \<and> (vars name = None \<longrightarrow> dflt = Some v)) (configSchema usdc onyc)"
    by (rule loadConfig_parsed [OF assms(1-3)])
  have d: "parsed name = Some v" if "(name, ty, Some v) \<in> set (configSchema usdc onyc)" "vars name = None" for name ty v
    using f that by (auto simp: list_all_iff)
  have "parsed ''ENUMERATE_TIMEOUT_MS'' = Some (VInt 90000)" "parsed ''TX_CONFIRM_TIMEOUT_MS'' = Some (VInt 90000)"
    "parsed ''HEARTBEAT_STALE_MS'' = Some (VInt 120000)"
    using assms(4-6) d unfolding configSchema_def by (simp_all del: set_simps add: list.set)
  then show ?thesis by (simp add: c configOf_def)
qed

end
