(* ===== verification/Cranker.thy ===== *)
theory Cranker
  imports Bridge_Scan Config
begin

text \<open>
  The cranker process (\<open>packages/cranker/src/index.ts\<close>): what \<open>main\<close> builds, one scan iteration over all legs, and
  the process as a state machine whose steps are iterations and the operator's retry signal.

  The legs of an iteration run concurrently. They share the watermarks, the logs of seen errors, the wake flag and, for the
  bridges, the cache of NTT objects, and each of them is run as a whole, in an order that the iteration gives
  (\<open>itOrder\<close>). What the runtime and the outside contribute to an iteration is its record: the views of the chain, the
  pages of Wormholescan, the clock, and the pools, as functions of the number of tasks they are given. An enumeration that
  overruns its time limit goes on in the background: its flows are not used, its effects on memo and watermarks are.
\<close>

section \<open>The state of the process\<close>

definition USER_WALLET_CACHE_MAX :: int where
  "USER_WALLET_CACHE_MAX = 10000"

record cranker =
  crTargets :: "BridgeRedeemTarget list"
  crTracker :: FlowStateTracker
  crWatermarks :: WatermarkStore
  crIncrementalMemo :: terminal_cache
  crBackstopMemo :: terminal_cache
  crRefundMemo :: terminal_cache
  crWalletCache :: wallet_cache
  crSeenAdvanceErrors :: "(string, string) jsmap"
  crSeenBridgeErrors :: "(string, string) jsmap"
  crSeenRefundErrors :: "(string, string) jsmap"
  crBridge :: bridge_state
  crTicks :: tick_state
  crSignals :: nat
  crDispatched :: "(string \<times> string) list"
  crMetrics :: "metric list"
  crIterations :: "(string \<times> bool) list"

text \<open>The options of the three enumerators: the incremental one, and the two that page deep and ignore the watermarks.\<close>

definition enumeratorOptions :: "CrankerConfig \<Rightarrow> bool \<Rightarrow> EnumerateOptions" where
  "enumeratorOptions cfg bypass =
     \<lparr>enFogoWormholeChainId = nat (ccFogoWormholeChainId cfg), enFogoUsdcEmitterHex = ccFogoUsdcEmitterHex cfg,
      enFogoOnycEmitterHex = ccFogoOnycEmitterHex cfg,
      enMaxPages = nat (if bypass then ccWormholescanBackstopMaxPages cfg else ccWormholescanMaxPages cfg),
      enBypassWatermark = bypass\<rparr>"

definition daemonOptions :: "CrankerConfig \<Rightarrow> DaemonOptions" where
  "daemonOptions cfg =
     \<lparr>doIntervalMs = ccScanIntervalMs cfg, doHeartbeatStaleMs = ccHeartbeatStaleMs cfg, doMaxBackoffMs = Some (ccScanMaxBackoffMs cfg)\<rparr>"

text \<open>A target that cannot be built is skipped; the others are kept.\<close>

definition targetOptions :: "pubkey \<Rightarrow> string \<Rightarrow> target_options" where
  "targetOptions keypair emitterHex =
     \<lparr>foDestSigner = keypair, foEmitterHex = Some emitterHex, foNttProgramId = None, foWhTransceiverProgramId = None,
      foMint = None, foExpectedReleaseMode = None\<rparr>"

definition buildTargets :: "web3_env \<Rightarrow> fogo_rpc \<Rightarrow> pubkey \<Rightarrow> CrankerConfig \<Rightarrow> BridgeRedeemTarget list" where
  "buildTargets env rpc keypair cfg =
     (if ccBridgePipelineEnabled cfg
      then concat (map (\<lambda>built. case built of Inl _ \<Rightarrow> [] | Inr target \<Rightarrow> [target])
        [buildSolanaOnycToFogoTarget env rpc (targetOptions keypair (ccSolanaOnycEmitterHex cfg)),
         buildSolanaUsdcToFogoTarget env rpc (targetOptions keypair (ccSolanaUsdcEmitterHex cfg))])
      else [])"

text \<open>\<open>main\<close> up to the loop. The pair's configuration is read once, before anything else is set up, and must exist. A lookup table that
  is no public key ends the start; the key itself is part of the context of the legs (\<open>acSendLookupTable\<close>).\<close>

definition startCranker ::
  "web3_env \<Rightarrow> fogo_rpc \<Rightarrow> pubkey \<Rightarrow> thrown + PairConfig \<Rightarrow> (string \<Rightarrow> CheckpointFile option) \<Rightarrow> CrankerConfig \<Rightarrow> thrown + cranker" where
  "startCranker env rpc keypair pairConfig readFile cfg =
     rbind pairConfig (\<lambda>_.
     rbind (lift (watermarksFromCheckpoint
              (if ccCheckpointPath cfg = [] then None else loadCheckpoint readFile (ccCheckpointPath cfg)))) (\<lambda>watermarks.
     rbind (lift (newBoundedMap TERMINAL_CACHE_MAX)) (\<lambda>memo.
     rbind (if ccSendLookupTable cfg = [] then Inr None
            else rbind (lift (fromBase58 env (ccSendLookupTable cfg))) (\<lambda>key. Inr (Some key))) (\<lambda>sendLookupTable.
     rbind (lift (newBoundedMap USER_WALLET_CACHE_MAX)) (\<lambda>walletCache.
     rbind (lift (newFlowStateTracker \<lparr>cooldownBaseMs = None, cooldownMaxMs = None, poisonThreshold = None,
              inFlightTimeoutMs = None, maxEntries = None\<rparr>)) (\<lambda>tracker.
       Inr \<lparr>crTargets = buildTargets env rpc keypair cfg, crTracker = tracker, crWatermarks = watermarks,
            crIncrementalMemo = memo, crBackstopMemo = memo, crRefundMemo = memo, crWalletCache = walletCache,
            crSeenAdvanceErrors = [], crSeenBridgeErrors = [], crSeenRefundErrors = [],
            crBridge = \<lparr>bsEvents = [], bsNttCache = []\<rparr>, crTicks = \<lparr>tsLastBackstopAt = 0, tsLastRefundAt = 0\<rparr>,
            crSignals = 0, crDispatched = [], crMetrics = [], crIterations = []\<rparr>))))))"

section \<open>The legs\<close>

text \<open>What one enumeration meets.\<close>

record sweep =
  swCtx :: AdvanceContext
  swPages :: "direction \<Rightarrow> nat \<Rightarrow> WormholescanVaa list result"
  swAbortedAt :: "direction \<Rightarrow> nat \<Rightarrow> bool"
  swSchedule :: "bool list"
  swAborted :: "nat \<Rightarrow> bool"
  swExpired :: bool

datatype scan_leg = FlowLeg | RefundLeg | BridgeLeg nat

record iteration =
  itNow :: int
  itOrder :: "scan_leg list"
  itAborted :: "nat \<Rightarrow> bool"
  itClock :: "nat \<Rightarrow> int"
  itPlanClock :: "nat \<Rightarrow> int"
  itView :: "nat \<Rightarrow> AdvanceContext"
  itFlowSweep :: sweep
  itFlowPool :: "nat \<Rightarrow> pool"
  itRefundSweep :: sweep
  itRefundPool :: "nat \<Rightarrow> pool"
  itBridge :: "nat \<Rightarrow> bridge_world"

definition runEnumerator ::
  "sweep \<Rightarrow> EnumerateOptions \<Rightarrow> terminal_cache \<Rightarrow> WatermarkStore \<Rightarrow> (thrown + ScannedFlow list) \<times> terminal_cache \<times> WatermarkStore \<times> metric list" where
  "runEnumerator sw opts memo watermarks =
     (case enumerateFlows (swCtx sw) opts (swPages sw) (swAbortedAt sw) (swSchedule sw) (swAborted sw) memo (Some watermarks) of
        (r, es) \<Rightarrow> (if swExpired sw then Inl (of_js_error (Error ''timeout exceeded'')) else r,
                    esCache es, ifNone (esWatermarks es) watermarks, esMetrics es))"

definition iterationWorld :: "iteration \<Rightarrow> cranker \<Rightarrow> world" where
  "iterationWorld it c = \<lparr>wView = itView it, wTick = 0, wCache = crWalletCache c, wMetrics = []\<rparr>"

definition plannedTasks :: "web3_env \<Rightarrow> iteration \<Rightarrow> thrown + ScannedFlow list \<Rightarrow> FlowStateTracker \<Rightarrow> ScannedFlow list" where
  "plannedTasks env it enumerated tracker =
     (case enumerated of Inl _ \<Rightarrow> [] | Inr flows \<Rightarrow> fst (planTasks env default_fns (itPlanClock it) 0 flows (Some tracker)))"

definition flowLeg :: "CrankerConfig \<Rightarrow> web3_env \<Rightarrow> bool \<Rightarrow> iteration \<Rightarrow> cranker \<Rightarrow> ((thrown + unit) \<times> cranker) option" where
  "flowLeg cfg env backstop it c =
     (let memo = (if backstop then crBackstopMemo c else crIncrementalMemo c);
          (enumerated, memo', watermarks, ms) =
            (if itAborted it 0 then (Inr [], memo, crWatermarks c, [])
             else runEnumerator (itFlowSweep it) (enumeratorOptions cfg backstop) memo (crWatermarks c));
          p = itFlowPool it (length (plannedTasks env it enumerated (crTracker c)))
      in case scanAndAdvance env (\<lambda>w. itAborted it (wTick w)) (\<lambda>w. itClock it (wTick w)) (itPlanClock it) default_fns
                enumerated p (iterationWorld it c) (Some (crSeenAdvanceErrors c)) (Some (crTracker c)) of
           None \<Rightarrow> None
         | Some (r, st, tracker) \<Rightarrow>
             Some (map_sum id (\<lambda>_. ()) r,
               c\<lparr>crTracker := ifNone tracker (crTracker c), crWatermarks := watermarks,
                 crIncrementalMemo := (if backstop then crIncrementalMemo c else memo'),
                 crBackstopMemo := (if backstop then memo' else crBackstopMemo c),
                 crWalletCache := wCache (scWorld st), crSeenAdvanceErrors := ifNone (cmSeen (scMemo st)) [],
                 crSignals := crSignals c + (case r of Inr rep \<Rightarrow> if srWoke rep then 1 else 0 | Inl _ \<Rightarrow> 0),
                 crDispatched := crDispatched c @ scDispatched st,
                 crMetrics := crMetrics c @ ms @ wMetrics (scWorld st)\<rparr>))"

definition refundDispatch :: "world dispatch_fn" where
  "refundDispatch w i =
     (case refund_leg (view w) \<lparr>liDirection = liDirection i, liFogoTx = liFogoTx i, liVaaHex = liVaaHex i,
             oiNttVersion = None, oiWormholeCore = None\<rparr> of
        (r, ms) \<Rightarrow> (r, w\<lparr>wTick := wTick w + 1, wMetrics := wMetrics w @ ms\<rparr>))"

definition refundLeg :: "CrankerConfig \<Rightarrow> web3_env \<Rightarrow> iteration \<Rightarrow> cranker \<Rightarrow> (thrown + unit) \<times> cranker" where
  "refundLeg cfg env it c =
     (let (enumerated, memo, watermarks, ms) =
            (if itAborted it 0 then (Inr [], crRefundMemo c, crWatermarks c, [])
             else runEnumerator (itRefundSweep it) (enumeratorOptions cfg True) (crRefundMemo c) (crWatermarks c));
          received = (case enumerated of Inl _ \<Rightarrow> [] | Inr flows \<Rightarrow> filter (\<lambda>f. sfStatus f = ''Received'') flows)
      in case scanAndRefund env (itAborted it 0) enumerated refundDispatch (itRefundPool it (length received))
                (iterationWorld it c) (Some (crSeenRefundErrors c)) of
           (r, w, seen) \<Rightarrow>
             (map_sum id (\<lambda>_. ()) r,
              c\<lparr>crWatermarks := watermarks, crRefundMemo := memo, crSeenRefundErrors := ifNone seen [],
                crMetrics := crMetrics c @ ms @ wMetrics w\<rparr>))"

definition bridgeLeg :: "CrankerConfig \<Rightarrow> iteration \<Rightarrow> nat \<Rightarrow> cranker \<Rightarrow> (thrown + unit) \<times> cranker" where
  "bridgeLeg cfg it i c =
     (case scanAndRedeemBridge (itBridge it i) (crTargets c ! i) (nat (ccWormholescanMaxPages cfg)) (Some (crSeenBridgeErrors c))
             (Some (crWatermarks c)) (crBridge c) of
        (r, st) \<Rightarrow>
          (map_sum id (\<lambda>_. ()) r,
           c\<lparr>crWatermarks := ifNone (bxWatermarks st) (crWatermarks c), crSeenBridgeErrors := ifNone (cmSeen (bxMemo st)) [],
             crBridge := bxState st,
             crSignals := crSignals c + (case r of Inr rep \<Rightarrow> if brWoke rep then 1 else 0 | Inl _ \<Rightarrow> 0)\<rparr>))"

definition runLeg :: "CrankerConfig \<Rightarrow> web3_env \<Rightarrow> bool \<Rightarrow> bool \<Rightarrow> iteration \<Rightarrow> scan_leg \<Rightarrow> cranker \<Rightarrow> ((thrown + unit) \<times> cranker) option" where
  "runLeg cfg env backstop sweeping it leg c =
     (case leg of
        FlowLeg \<Rightarrow> flowLeg cfg env backstop it c
      | RefundLeg \<Rightarrow> Some (if sweeping then refundLeg cfg env it c else (Inr (), c))
      | BridgeLeg i \<Rightarrow> Some (bridgeLeg cfg it i c))"

fun runLegs ::
  "CrankerConfig \<Rightarrow> web3_env \<Rightarrow> bool \<Rightarrow> bool \<Rightarrow> iteration \<Rightarrow> scan_leg list \<Rightarrow> cranker \<Rightarrow> ((scan_leg \<times> (thrown + unit)) list \<times> cranker) option" where
  "runLegs cfg env backstop sweeping it [] c = Some ([], c)"
| "runLegs cfg env backstop sweeping it (leg # legs) c =
     (case runLeg cfg env backstop sweeping it leg c of
        None \<Rightarrow> None
      | Some (r, c') \<Rightarrow>
          (case runLegs cfg env backstop sweeping it legs c' of
             None \<Rightarrow> None
           | Some (rs, c'') \<Rightarrow> Some ((leg, r) # rs, c'')))"

section \<open>One iteration\<close>

definition legsOf :: "cranker \<Rightarrow> scan_leg list" where
  "legsOf c = FlowLeg # RefundLeg # map BridgeLeg [0..<length (crTargets c)]"

definition resultOf :: "(scan_leg \<times> (thrown + unit)) list \<Rightarrow> scan_leg \<Rightarrow> thrown + unit" where
  "resultOf rs leg = ifNone (map_of rs leg) (Inr ())"

definition runScanIteration ::
  "CrankerConfig \<Rightarrow> web3_env \<Rightarrow> bool \<Rightarrow> bool \<Rightarrow> iteration \<Rightarrow> cranker \<Rightarrow> ((thrown + unit) \<times> cranker) option" where
  "runScanIteration cfg env backstop sweeping it c =
     (case runLegs cfg env backstop sweeping it (itOrder it) c of
        None \<Rightarrow> None
      | Some (rs, c') \<Rightarrow>
          (case settleScans (resultOf rs FlowLeg) (resultOf rs RefundLeg)
                  (map (\<lambda>i. (btName (crTargets c ! i), resultOf rs (BridgeLeg i))) [0..<length (crTargets c)]) of
             (r, counted) \<Rightarrow> Some (r, c'\<lparr>crIterations := crIterations c' @ counted\<rparr>)))"

text \<open>The scan that \<open>main\<close> hands to \<open>runDaemon\<close>.\<close>

definition scanTick :: "CrankerConfig \<Rightarrow> web3_env \<Rightarrow> iteration \<Rightarrow> cranker \<Rightarrow> ((thrown + unit) \<times> cranker) option" where
  "scanTick cfg env it c =
     (case selectTick (ccBackstopIntervalMs cfg) (ccRefundIntervalMs cfg) (itNow it) (crTicks c) of
        (backstop, sweeping, ticks) \<Rightarrow> runScanIteration cfg env backstop sweeping it (c\<lparr>crTicks := ticks\<rparr>))"

text \<open>SIGUSR1.\<close>

definition retryNow :: "cranker \<Rightarrow> cranker" where
  "retryNow c = c\<lparr>crTracker := snd (clearBackoff (crTracker c)), crSignals := crSignals c + 1\<rparr>"

text \<open>The periodic flush and the one at shutdown: a failing write is logged, never thrown.\<close>

definition flushCheckpoint ::
  "(bytes \<Rightarrow> string) \<Rightarrow> io_fault \<Rightarrow> string \<Rightarrow> CrankerConfig \<Rightarrow> cranker \<Rightarrow> checkpoint_state \<Rightarrow> checkpoint_state" where
  "flushCheckpoint sha fault nowIso cfg c st =
     (if ccCheckpointPath cfg = [] then st
      else snd (saveCheckpoint sha fault nowIso (ccCheckpointPath cfg) (crWatermarks c) st))"

section \<open>Which flows are in flight\<close>

text \<open>Every flow that is in flight is one of \<open>ks\<close>.\<close>

definition busy_within :: "FlowStateTracker \<Rightarrow> string set \<Rightarrow> bool" where
  "busy_within t ks \<longleftrightarrow> (\<forall>k s n. inspect t k = Some (InFlight s n) \<longrightarrow> k \<in> ks)"

definition flowKey :: "web3_env \<Rightarrow> ScannedFlow \<Rightarrow> string" where
  "flowKey env f = toBase58 env (sfPubkey f)"

lemma busy_set:
  assumes "tracker_ok t" "busy_within t ks"
  shows "busy_within (t\<lparr>states := bm_set k s (states t)\<rparr>) (insert k ks)"
    "(\<And>a n. s \<noteq> InFlight a n) \<Longrightarrow> busy_within (t\<lparr>states := bm_set k s (states t)\<rparr>) (ks - {k})"
  using assms by (auto simp: busy_within_def inspect_def tracker_ok_def bm_get_set split: if_splits)

lemma busy_begin:
  assumes "tracker_ok t" "busy_within t ks"
  shows "busy_within (snd (beginIfReady t k now)) (if fst (beginIfReady t k now) = None then insert k ks else ks)"
  using busy_set(1) [OF assms] assms(2) by (cases rule: begin_cases [of t k now]) (simp_all add: grant_def)

lemma busy_outcome:
  assumes "tracker_ok t" "busy_within t ks"
  shows "busy_within (recordOutcome k r now t) (ks - {k})"
proof -
  have "busy_within (recordSuccess t k) (ks - {k})"
    using assms by (simp add: busy_within_def recordSuccess_def inspect_def tracker_ok_def bm.get_drop)
  then show ?thesis using busy_set(2) [OF assms nextOnError_not_InFlight]
    by (simp add: recordOutcome_def recordError_def Let_def split: AdvanceResult.split)
qed

lemma busy_clear:
  assumes "tracker_ok t" "busy_within t {}"
  shows "inspect (snd (clearBackoff t)) k = None"
  using assms(2) inspect_clear [OF assms(1), of k]
  by (auto simp: busy_within_def split: option.splits FlowProcState.splits)

lemma bmMax_begin [simp]: "bmMax (states (snd (beginIfReady t k now))) = bmMax (states t)"
  using opts_op(3) [of "Begin k now" t] by simp

lemma bmMax_outcome [simp]: "bmMax (states (recordOutcome k r now t)) = bmMax (states t)"
  by (simp add: recordOutcome_def recordSuccess_def recordError_def Let_def split: AdvanceResult.split)

lemma planTasks_busy:
  "tracker_ok t \<Longrightarrow> busy_within t ks \<Longrightarrow> planTasks env fns clock n flows (Some t) = (tasks, skips, tr) \<Longrightarrow>
     \<exists>t'. tr = Some t' \<and> tracker_ok t' \<and> bmMax (states t') = bmMax (states t) \<and> busy_within t' (ks \<union> flowKey env ` set tasks)"
proof (induction flows arbitrary: n t ks tasks skips tr)
  case (Cons f fs)
  show ?case
  proof (cases "pickAdvanceForStatus (sfStatus f) fns")
    case None
    with Cons.prems(3) obtain skips' where "planTasks env fns clock (n + 1) fs (Some t) = (tasks, skips', tr)"
      by (auto split: prod.splits)
    from Cons.IH [OF Cons.prems(1,2) this] show ?thesis .
  next
    case (Some d)
    let ?k = "toBase58 env (sfPubkey f)" and ?b = "beginIfReady t (toBase58 env (sfPubkey f)) (clock n)"
    note ok = tracker_ok_begin [OF Cons.prems(1), of ?k "clock n"]
    note busy = busy_begin [OF Cons.prems(1,2), of ?k "clock n"]
    obtain tasks' skips' tr' where p: "planTasks env fns clock (n + 1) fs (Some (snd ?b)) = (tasks', skips', tr')"
      by (metis prod_cases3)
    note ih = Cons.IH [OF ok busy p]
    have same: "bmMax (states (snd ?b)) = bmMax (states t)" by simp
    show ?thesis
    proof (cases ?b)
      case (Pair a t1)
      then show ?thesis using ih same Some p Cons.prems(3) by (cases a) (auto simp: flowKey_def)
    qed
  qed
qed auto

lemma runTasks_busy:
  "tracker_ok t \<Longrightarrow> busy_within t ks \<Longrightarrow>
     \<exists>st' t'. runTasks env ab clock default_fns flows st (Some t) = Some (st', Some t') \<and> tracker_ok t' \<and>
       bmMax (states t') = bmMax (states t) \<and> busy_within t' (ks - flowKey env ` set flows)"
proof (induction flows arbitrary: st t ks)
  case (Cons f fs)
  let ?k = "flowKey env f"
  obtain r st1 where c: "advanceChain ab default_fns ?k (legInput f) (sfStatus f) (Noop ''no dispatch for status'' None) st = Some (r, st1)"
    using legs.chain_returns by blast
  let ?t = "recordOutcome ?k r (clock (scWorld st1)) t"
  have run: "runTask env ab clock default_fns f st (Some t) = Some (st1, Some ?t)"
    using c by (simp add: runTask_def Let_def flowKey_def)
  have "ks - {?k} - flowKey env ` set fs = ks - flowKey env ` set (f # fs)" by auto
  then show ?case
    using Cons.IH [OF tracker_ok_outcome [OF Cons.prems(1), of ?k r "clock (scWorld st1)"] busy_outcome [OF Cons.prems], of st1] run
    by simp
qed simp

lemma pool_all:
  assumes "pool_reach n c a p" "pool_done p" "\<not> abortSeen p"
  shows "invoked p = [0..<n]"
proof -
  from pool_inv_reach [OF assms(1)] have inv: "pool_inv n c p" .
  then have "0 < length (workers p)" by (simp add: pool_inv_def)
  with assms(2) have "workers p ! 0 = Exited" by (simp add: pool_done_def list_all_length)
  with \<open>0 < length (workers p)\<close> inv assms(3) show ?thesis by (fastforce simp: pool_inv_def)
qed

section \<open>Where watermarks move\<close>

definition sourcesOf :: "CrankerConfig \<Rightarrow> BridgeRedeemTarget list \<Rightarrow> (nat \<times> string) set" where
  "sourcesOf cfg targets =
     {(nat (ccFogoWormholeChainId cfg), ccFogoUsdcEmitterHex cfg), (nat (ccFogoWormholeChainId cfg), ccFogoOnycEmitterHex cfg)} \<union>
     (\<lambda>t. (btSourceChainId t, btSourceEmitterHex t)) ` set targets"

definition marks_from :: "(nat \<times> string) set \<Rightarrow> WatermarkStore \<Rightarrow> WatermarkStore \<Rightarrow> bool" where
  "marks_from srcs old new \<longleftrightarrow>
     (\<forall>c e. watermark old c e \<le> watermark new c e \<and> (watermark new c e \<noteq> watermark old c e \<longrightarrow> (c, e) \<in> srcs))"

lemma marks_from_refl [simp]: "marks_from srcs w w"
  by (simp add: marks_from_def)

lemma marks_from_trans: "marks_from srcs a b \<Longrightarrow> marks_from srcs b c \<Longrightarrow> marks_from srcs a c"
  unfolding marks_from_def by (metis order_trans)

lemma runEnumerator_marks:
  assumes "runEnumerator sw (enumeratorOptions cfg bypass) memo wm = (r, memo', wm', ms)" "bm_ok memo" "jm_ok wm"
  shows "bm_ok memo' \<and> jm_ok wm' \<and> marks_from (sourcesOf cfg ts) wm wm'"
proof -
  let ?o = "enumeratorOptions cfg bypass" and ?c = "swCtx sw"
  obtain res es where e: "enumerateFlows ?c ?o (swPages sw) (swAbortedAt sw) (swSchedule sw) (swAborted sw) memo (Some wm) = (res, es)"
    by fastforce
  then have out: "memo' = esCache es" "wm' = ifNone (esWatermarks es) wm" using assms(1) by (auto simp: runEnumerator_def)
  show ?thesis
  proof (cases "acFetchConfig ?c")
    case (Inl err)
    with e out assms(2,3) show ?thesis by (auto simp: enumerateFlows_def Let_def)
  next
    case (Inr pc)
    let ?es0 = "\<lparr>esOut = [], esCache = memo, esWatermarks = Some wm, esMetrics = []\<rparr>"
    from enumerateFlows_run [OF e Inr] obtain pgs u where run: "runPages ?c ?o pc (swAborted sw) 0 pgs ?es0 = (u, es)" by metis
    have inv: "enum_inv ?c pc memo ?es0" using assms(2) by (simp add: enum_inv_def closed_key_def)
    have "marks_ok ?c pc memo ?o (set pgs) wm ?es0" using assms(3) by (simp add: marks_ok_def moved_to_def)
    from marks_ok_run [OF this inv order_refl run] obtain s where
      s: "esWatermarks es = Some s" "jm_ok s" "\<And>c e. moved_to ?c pc memo ?o (set pgs) wm c e (watermark s c e)"
      unfolding marks_ok_def by blast
    have "watermark wm c e \<le> watermark s c e \<and> (watermark s c e \<noteq> watermark wm c e \<longrightarrow> (c, e) \<in> sourcesOf cfg ts)" for c e
      using s(3) [of c e] by (auto simp: moved_to_def sourcesOf_def enumeratorOptions_def emitterOf_def)
    then show ?thesis using s out enum_inv_run [OF inv run] by (simp add: enum_inv_def marks_from_def)
  qed
qed

lemma bridge_scan_marks:
  assumes "scanAndRedeemBridge w target maxPages seen (Some wm) s = (r, st)" "jm_ok wm" "target \<in> set ts"
  shows "\<exists>wm'. bxWatermarks st = Some wm' \<and> jm_ok wm' \<and> marks_from (sourcesOf cfg ts) wm wm'"
proof -
  have "bridge_marks target wm (bridgeStart s (Some wm) seen)" using assms(2) by (auto simp: bridge_marks_def bridgeStart_def)
  with bridge_marks_fold have "bridge_marks target wm st" by (cases rule: scan_cases [OF assms(1)]) auto
  then show ?thesis using assms(3)
    by (fastforce simp: bridge_marks_def marks_from_def sourcesOf_def)
qed

section \<open>The process as a state machine\<close>

text \<open>An iteration that no shutdown disturbs: the legs are those of the process, each once, and the pool of the flow scan runs
  all its tasks.\<close>

definition undisturbed :: "CrankerConfig \<Rightarrow> iteration \<Rightarrow> cranker \<Rightarrow> bool" where
  "undisturbed cfg it c \<longleftrightarrow> (\<forall>n. \<not> itAborted it n) \<and> distinct (itOrder it) \<and> set (itOrder it) = set (legsOf c) \<and>
     (\<forall>n. pool_reach n (ccMaxConcurrentAdvances cfg) False (itFlowPool it n) \<and> pool_done (itFlowPool it n) \<and>
          \<not> abortSeen (itFlowPool it n))"

inductive crank_reach :: "CrankerConfig \<Rightarrow> web3_env \<Rightarrow> cranker \<Rightarrow> cranker \<Rightarrow> bool" for cfg env c0 where
  reach_boot: "crank_reach cfg env c0 c0"
| reach_tick: "crank_reach cfg env c0 c \<Longrightarrow> undisturbed cfg it c \<Longrightarrow> scanTick cfg env it c = Some (r, c') \<Longrightarrow> crank_reach cfg env c0 c'"
| reach_retry: "crank_reach cfg env c0 c \<Longrightarrow> crank_reach cfg env c0 (retryNow c)"

definition cranker_ok :: "CrankerConfig \<Rightarrow> cranker \<Rightarrow> cranker \<Rightarrow> bool" where
  "cranker_ok cfg c0 c \<longleftrightarrow>
     crTargets c = crTargets c0 \<and> tracker_ok (crTracker c) \<and> bmMax (states (crTracker c)) = 10000 \<and> busy_within (crTracker c) {} \<and>
     bm_ok (crIncrementalMemo c) \<and> bm_ok (crBackstopMemo c) \<and> bm_ok (crRefundMemo c) \<and> jm_ok (crWatermarks c) \<and>
     marks_from (sourcesOf cfg (crTargets c0)) (crWatermarks c0) (crWatermarks c)"

lemma scan_releases:
  assumes "tracker_ok t" "busy_within t {}" "\<not> aborted w"
    and "invoked p = [0..<length (plannedTasks env it enumerated t)]"
  shows "\<exists>r st t'. scanAndAdvance env aborted clock (itPlanClock it) default_fns enumerated p w seen (Some t) = Some (r, st, Some t') \<and>
    tracker_ok t' \<and> bmMax (states t') = bmMax (states t) \<and> busy_within t' {}"
proof (cases enumerated)
  case (Inl e)
  then show ?thesis using assms(1-3) by (simp add: scanAndAdvance_def Let_def)
next
  case (Inr flows)
  obtain tasks skips tr where p: "planTasks env default_fns (itPlanClock it) 0 flows (Some t) = (tasks, skips, tr)"
    by (metis prod_cases3)
  from planTasks_busy [OF assms(1,2) p] obtain t1 where
    t1: "tr = Some t1" "tracker_ok t1" "bmMax (states t1) = bmMax (states t)" "busy_within t1 (flowKey env ` set tasks)" by auto
  have "map (\<lambda>i. tasks ! i) (invoked p) = tasks" using assms(4) Inr p by (simp add: plannedTasks_def map_nth)
  moreover obtain st t2 where "runTasks env aborted clock default_fns tasks
      \<lparr>scWorld = w, scMemo = \<lparr>cmSeen = seen, cmIter = []\<rparr>, scProgress = False, scDispatched = []\<rparr> (Some t1) = Some (st, Some t2)"
    "tracker_ok t2" "bmMax (states t2) = bmMax (states t1)" "busy_within t2 {}"
    using runTasks_busy [OF t1(2,4)] by fastforce
  ultimately show ?thesis using assms(3) Inr p t1(1,3) by (simp add: scanAndAdvance_def Let_def)
qed

lemma flowLeg_ok:
  assumes "cranker_ok cfg c0 c" "undisturbed cfg it c1"
  shows "\<exists>r c'. flowLeg cfg env backstop it c = Some (r, c') \<and> cranker_ok cfg c0 c'"
proof -
  let ?memo = "if backstop then crBackstopMemo c else crIncrementalMemo c"
  obtain enumerated memo' wm ms where
    e: "runEnumerator (itFlowSweep it) (enumeratorOptions cfg backstop) ?memo (crWatermarks c) = (enumerated, memo', wm, ms)"
    by (metis prod_cases4)
  have "bm_ok ?memo" "jm_ok (crWatermarks c)" using assms(1) by (simp_all add: cranker_ok_def)
  from runEnumerator_marks [OF e this, of "crTargets c0"]
  have m: "bm_ok memo'" "jm_ok wm" "marks_from (sourcesOf cfg (crTargets c0)) (crWatermarks c0) wm"
    using assms(1) by (auto simp: cranker_ok_def intro: marks_from_trans)
  let ?n = "length (plannedTasks env it enumerated (crTracker c))"
  have q: "\<not> itAborted it n" "invoked (itFlowPool it ?n) = [0..<?n]" for n
    using assms(2) pool_all [of ?n "ccMaxConcurrentAdvances cfg" False] unfolding undisturbed_def by blast+
  obtain r st t' where s: "scanAndAdvance env (\<lambda>w. itAborted it (wTick w)) (\<lambda>w. itClock it (wTick w)) (itPlanClock it) default_fns
      enumerated (itFlowPool it ?n) (iterationWorld it c) (Some (crSeenAdvanceErrors c)) (Some (crTracker c)) = Some (r, st, Some t')"
    "tracker_ok t'" "bmMax (states t') = bmMax (states (crTracker c))" "busy_within t' {}"
    using scan_releases [of "crTracker c" "\<lambda>w. itAborted it (wTick w)", OF _ _ _ q(2)] assms(1) q(1) unfolding cranker_ok_def by blast
  show ?thesis using assms(1) m s by (simp add: flowLeg_def Let_def e q(1) cranker_ok_def)
qed

lemma refundLeg_ok:
  assumes "cranker_ok cfg c0 c" "undisturbed cfg it c1"
  shows "cranker_ok cfg c0 (snd (refundLeg cfg env it c))"
proof -
  obtain enumerated memo' wm ms where
    e: "runEnumerator (itRefundSweep it) (enumeratorOptions cfg True) (crRefundMemo c) (crWatermarks c) = (enumerated, memo', wm, ms)"
    by (metis prod_cases4)
  have "bm_ok (crRefundMemo c)" "jm_ok (crWatermarks c)" using assms(1) by (simp_all add: cranker_ok_def)
  from runEnumerator_marks [OF e this, of "crTargets c0"] assms show ?thesis
    by (auto simp: refundLeg_def Let_def e undisturbed_def cranker_ok_def intro: marks_from_trans split: prod.split)
qed

lemma bridgeLeg_ok:
  assumes "cranker_ok cfg c0 c" "i < length (crTargets c)"
  shows "cranker_ok cfg c0 (snd (bridgeLeg cfg it i c))"
proof -
  obtain r st where b: "scanAndRedeemBridge (itBridge it i) (crTargets c ! i) (nat (ccWormholescanMaxPages cfg)) (Some (crSeenBridgeErrors c))
             (Some (crWatermarks c)) (crBridge c) = (r, st)" by fastforce
  have "jm_ok (crWatermarks c)" "crTargets c ! i \<in> set (crTargets c0)" using assms by (simp_all add: cranker_ok_def)
  from bridge_scan_marks [OF b this, of cfg] obtain wm where
    wm: "bxWatermarks st = Some wm" "jm_ok wm" "marks_from (sourcesOf cfg (crTargets c0)) (crWatermarks c) wm" by blast
  have "snd (bridgeLeg cfg it i c) = c\<lparr>crWatermarks := wm, crSeenBridgeErrors := ifNone (cmSeen (bxMemo st)) [],
      crBridge := bxState st, crSignals := crSignals c + (case r of Inr rep \<Rightarrow> if brWoke rep then 1 else 0 | Inl _ \<Rightarrow> 0)\<rparr>"
    by (simp add: bridgeLeg_def b wm(1))
  then show ?thesis using assms(1) wm by (auto simp: cranker_ok_def intro: marks_from_trans)
qed

lemma runLegs_ok:
  "cranker_ok cfg c0 c \<Longrightarrow> undisturbed cfg it c0 \<Longrightarrow> set legs \<subseteq> set (legsOf c0) \<Longrightarrow>
     \<exists>rs c'. runLegs cfg env backstop sweeping it legs c = Some (rs, c') \<and> cranker_ok cfg c0 c'"
proof (induction legs arbitrary: c)
  case (Cons leg legs)
  have "\<exists>r c'. runLeg cfg env backstop sweeping it leg c = Some (r, c') \<and> cranker_ok cfg c0 c'"
  proof (cases leg)
    case FlowLeg
    then show ?thesis using flowLeg_ok [OF Cons.prems(1,2)] by (simp add: runLeg_def)
  next
    case RefundLeg
    then show ?thesis using refundLeg_ok [OF Cons.prems(1,2), of env] Cons.prems(1) by (cases "refundLeg cfg env it c") (auto simp: runLeg_def)
  next
    case (BridgeLeg i)
    with Cons.prems(1,3) have "i < length (crTargets c)" by (auto simp: legsOf_def cranker_ok_def)
    from bridgeLeg_ok [OF Cons.prems(1) this, of it] BridgeLeg show ?thesis by (cases "bridgeLeg cfg it i c") (auto simp: runLeg_def)
  qed
  then obtain r c1 where "runLeg cfg env backstop sweeping it leg c = Some (r, c1)" "cranker_ok cfg c0 c1" by blast
  with Cons.IH [of c1] Cons.prems(2,3) show ?case by fastforce
qed simp

lemma scanTick_ok:
  assumes "cranker_ok cfg c0 c" "undisturbed cfg it c"
  shows "\<exists>r c'. scanTick cfg env it c = Some (r, c') \<and> cranker_ok cfg c0 c'"
proof -
  obtain b s ticks where t: "selectTick (ccBackstopIntervalMs cfg) (ccRefundIntervalMs cfg) (itNow it) (crTicks c) = (b, s, ticks)"
    by (metis prod_cases3)
  have ok: "cranker_ok cfg c0 (c\<lparr>crTicks := ticks\<rparr>)" using assms(1) by (simp add: cranker_ok_def)
  have l: "legsOf c0 = legsOf c" using assms(1) by (simp add: legsOf_def cranker_ok_def)
  then have "undisturbed cfg it c0" "set (itOrder it) \<subseteq> set (legsOf c0)" using assms(2) by (simp_all add: undisturbed_def)
  from runLegs_ok [OF ok this, of env b s] obtain rs c' where
    "runLegs cfg env b s it (itOrder it) (c\<lparr>crTicks := ticks\<rparr>) = Some (rs, c')" "cranker_ok cfg c0 c'" by blast
  then show ?thesis by (simp add: scanTick_def t runScanIteration_def cranker_ok_def split: prod.split)
qed

lemma retryNow_ok: "cranker_ok cfg c0 c \<Longrightarrow> cranker_ok cfg c0 (retryNow c)"
  using tracker_ok_op [of "crTracker c" Clear] opts_op(3) [of Clear "crTracker c"] busy_clear [of "crTracker c"]
  by (simp add: cranker_ok_def retryNow_def busy_within_def)

lemma restore_ok: "jm_ok (restoreWatermarks ws)"
proof -
  have "jm_ok m \<Longrightarrow> jm_ok (fold restoreEntry ws m)" for m
    by (induction ws arbitrary: m) (auto simp: restoreEntry_def jm.inv_put split: sum.split)
  then show ?thesis by (simp add: restoreWatermarks_def)
qed

lemma startCranker_ok:
  assumes "startCranker env rpc keypair pairConfig readFile cfg = Inr c0"
  shows "cranker_ok cfg c0 c0"
proof -
  from assms obtain memo where m: "newBoundedMap TERMINAL_CACHE_MAX = Inr memo" "crIncrementalMemo c0 = memo" "crBackstopMemo c0 = memo"
    "crRefundMemo c0 = memo" and t: "crTracker c0 = freshTracker"
    and w: "watermarksFromCheckpoint (if ccCheckpointPath cfg = [] then None else loadCheckpoint readFile (ccCheckpointPath cfg)) =
      Inr (crWatermarks c0)"
    unfolding startCranker_def by (auto simp: newFlowStateTracker_default elim!: rbind_InrE simp: result_simps)
  have "busy_within freshTracker {}" "bmMax (states freshTracker) = 10000"
    by (simp_all add: busy_within_def) (simp add: freshTracker_def)
  moreover have "jm_ok (crWatermarks c0)" using w restore_ok
    by (auto simp: watermarksFromCheckpoint_def split: option.splits watermarks_field.splits if_splits) (metis restore_ok)
  ultimately show ?thesis using newBoundedMap_ok [OF m(1)] m(2-) t tracker_ok_fresh by (simp add: cranker_ok_def)
qed

lemma crank_reach_ok:
  assumes "startCranker env rpc keypair pairConfig readFile cfg = Inr c0" "crank_reach cfg env c0 c"
  shows "cranker_ok cfg c0 c"
  using assms(2)
proof induction
  case (reach_tick c it r c')
  from scanTick_ok [OF reach_tick.IH reach_tick.hyps(2), of env] reach_tick.hyps(3) show ?case by simp
qed (simp_all add: startCranker_ok [OF assms(1)] retryNow_ok)

section \<open>Claims\<close>

text \<open>C7. The cranker between iterations, however many it has run, whatever its legs met and in whichever order they ran, and
  however often the operator asked for a retry: no flow is left in flight, the tracker holds at most 10000
  coherent entries, and every watermark is at least the one the process was started with and has moved only for an emitter that
  the process reads, on the chain it reads it from. The next iteration always returns.\<close>

theorem cranker_invariant:
  assumes "startCranker env rpc keypair pairConfig readFile cfg = Inr c0" "crank_reach cfg env c0 c"
  shows "(\<forall>k s n. inspect (crTracker c) k \<noteq> Some (InFlight s n)) \<and> tracker_ok (crTracker c) \<and> tracker_size (crTracker c) \<le> 10000 \<and>
    marks_from (sourcesOf cfg (crTargets c0)) (crWatermarks c0) (crWatermarks c) \<and>
    (\<forall>it. undisturbed cfg it c \<longrightarrow> (\<exists>r c'. scanTick cfg env it c = Some (r, c')))"
proof -
  from crank_reach_ok [OF assms] have ok: "cranker_ok cfg c0 c" .
  then have "bm_ok (states (crTracker c))" "bmMax (states (crTracker c)) = 10000" by (simp_all add: cranker_ok_def tracker_ok_def)
  then have "tracker_size (crTracker c) \<le> 10000" by (simp add: tracker_size_def bm_ok_def)
  with ok scanTick_ok [OF ok] show ?thesis unfolding cranker_ok_def busy_within_def by blast
qed

text \<open>Planning with a tracker whose only entries are the slots of \<open>ks\<close> dispatches every other flow that has a handler.\<close>

lemma planTasks_all:
  assumes "tracker_ok t" "\<And>k s. inspect t k = Some s \<Longrightarrow> k \<in> ks \<and> (\<exists>a n. s = InFlight a n)"
    and "planTasks env fns clock n flows (Some t) = (tasks, skips, tr)" "f \<in> set flows" "pickAdvanceForStatus (sfStatus f) fns \<noteq> None"
  shows "flowKey env f \<in> ks \<union> flowKey env ` set tasks"
  using assms
proof (induction flows arbitrary: n t ks tasks skips tr)
  case (Cons g gs)
  let ?k = "flowKey env g" and ?b = "beginIfReady t (flowKey env g) (clock n)"
  show ?case
  proof (cases "pickAdvanceForStatus (sfStatus g) fns")
    case None
    with Cons.prems(3) obtain skips' where p: "planTasks env fns clock (n + 1) gs (Some t) = (tasks, skips', tr)"
      by (auto split: prod.splits)
    have "f \<in> set gs" using Cons.prems(4,5) None by auto
    from Cons.IH [OF Cons.prems(1,2) p this Cons.prems(5)] show ?thesis .
  next
    case (Some d)
    show ?thesis
    proof (cases rule: begin_cases [of t ?k "clock n"])
      case (refused r)
      with Cons.prems(3) Some obtain skips' where p: "planTasks env fns clock (n + 1) gs (Some t) = (tasks, skips', tr)"
        by (auto simp: flowKey_def split: prod.splits)
      have "inspect t ?k \<noteq> None" using refused by (cases "inspect t ?k") (auto simp: inspect_begin grant_def)
      with Cons.prems(2) have "?k \<in> ks" by blast
      with Cons.IH [OF Cons.prems(1,2) p _ Cons.prems(5)] Cons.prems(4) show ?thesis by auto
    next
      case granted
      let ?t = "snd ?b"
      obtain tasks' skips' tr' where p: "planTasks env fns clock (n + 1) gs (Some ?t) = (tasks', skips', tr')"
        by (metis prod_cases3)
      with Cons.prems(3) Some granted have tasks: "tasks = g # tasks'" by (simp add: grant_def flowKey_def)
      have "k \<in> insert ?k ks \<and> (\<exists>a n. s = InFlight a n)" if "inspect ?t k = Some s" for k s
        using that Cons.prems(1,2) granted by (auto simp: grant_def inspect_def tracker_ok_def bm_get_set split: if_splits)
      from Cons.IH [OF tracker_ok_begin [OF Cons.prems(1)] this p _ Cons.prems(5)] Cons.prems(4) tasks show ?thesis by auto
    qed
  qed
qed simp

lemma planTasks_dispatchable:
  "planTasks env fns clock n flows tr = (tasks, skips, tr') \<Longrightarrow> f \<in> set tasks \<Longrightarrow> pickAdvanceForStatus (sfStatus f) fns \<noteq> None"
proof (induction flows arbitrary: n tr tasks skips tr')
  case (Cons g gs)
  show ?case
  proof (cases "pickAdvanceForStatus (sfStatus g) fns")
    case None
    then show ?thesis using Cons by (auto split: prod.splits)
  next
    case (Some d)
    then show ?thesis using Cons by (fastforce split: prod.splits option.splits)
  qed
qed simp

lemma runTask_dispatches:
  assumes "runTask env ab clock default_fns f st tr = Some (st', tr')" "\<And>w. \<not> ab w"
  shows "\<exists>new. scDispatched st' = scDispatched st @ new \<and>
    (pickAdvanceForStatus (sfStatus f) default_fns \<noteq> None \<longrightarrow> (flowKey env f, sfStatus f) \<in> set new)"
proof -
  let ?k = "flowKey env f" and ?r0 = "Noop ''no dispatch for status'' None"
  obtain r where c: "advanceChain ab default_fns ?k (legInput f) (sfStatus f) ?r0 st = Some (r, st')"
    using assms(1) by (auto simp: runTask_def Let_def flowKey_def split: option.splits)
  show ?thesis
  proof (cases "pickAdvanceForStatus (sfStatus f) default_fns")
    case None
    then show ?thesis using c by (simp add: advanceChain.simps)
  next
    case (Some d)
    let ?x = "dispatchOnce d ?k (legInput f) (sfStatus f) st"
    have "\<exists>new. scDispatched st' = scDispatched (snd ?x) @ new"
    proof (cases "toStatusOf (fst ?x)")
      case None
      then show ?thesis using c Some assms(2) by (simp add: advanceChain.simps)
    next
      case (Some s)
      then have "advanceChain ab default_fns ?k (legInput f) s (fst ?x) (snd ?x) = Some (r, st')"
        using c \<open>pickAdvanceForStatus (sfStatus f) default_fns = Some d\<close> assms(2) by (simp add: advanceChain.simps [of _ _ _ _ "sfStatus f"])
      with legs.chain_returns [of ab ?k "legInput f" s "fst ?x" "snd ?x"] show ?thesis by auto
    qed
    then show ?thesis by (auto simp: dispatched_once)
  qed
qed

lemma runTasks_dispatch:
  "runTasks env ab clock default_fns flows st tr = Some (st', tr') \<Longrightarrow> (\<And>w. \<not> ab w) \<Longrightarrow>
     \<exists>new. scDispatched st' = scDispatched st @ new \<and>
       (\<forall>f \<in> set flows. pickAdvanceForStatus (sfStatus f) default_fns \<noteq> None \<longrightarrow> (flowKey env f, sfStatus f) \<in> set new)"
proof (induction flows arbitrary: st tr)
  case (Cons f fs)
  from Cons.prems(1) obtain st1 tr1 where s: "runTask env ab clock default_fns f st tr = Some (st1, tr1)"
    "runTasks env ab clock default_fns fs st1 tr1 = Some (st', tr')" by (auto split: option.splits)
  from runTask_dispatches [OF s(1) Cons.prems(2)] Cons.IH [OF s(2) Cons.prems(2)] show ?case by fastforce
qed simp

text \<open>C15. The retry signal is a way out of every quarantine. When the operator sends it between two iterations, the next flow scan
  dispatches every flow it enumerates that has a handler, whatever back-off or poisoning the flow was under before.\<close>

theorem retry_dispatches_every_flow:
  assumes "startCranker env rpc keypair pairConfig readFile cfg = Inr c0" "crank_reach cfg env c0 c" "undisturbed cfg it c"
    and "runEnumerator (itFlowSweep it) (enumeratorOptions cfg backstop)
           (if backstop then crBackstopMemo c else crIncrementalMemo c) (crWatermarks c) = (Inr flows, memo, wm, ms)"
    and "flowLeg cfg env backstop it (retryNow c) = Some (r, c')" "f \<in> set flows"
    and "pickAdvanceForStatus (sfStatus f) default_fns \<noteq> None"
  shows "\<exists>status. (toBase58 env (sfPubkey f), status) \<in> set (drop (length (crDispatched c)) (crDispatched c'))"
proof -
  let ?t = "crTracker (retryNow c)" and ?w = "iterationWorld it (retryNow c)"
  from crank_reach_ok [OF assms(1,2)] have ok: "tracker_ok (crTracker c)" "busy_within (crTracker c) {}" by (simp_all add: cranker_ok_def)
  have clear: "tracker_ok ?t" "inspect ?t k = None" for k
    using tracker_ok_op [OF ok(1), of Clear] busy_clear [OF ok] by (simp_all add: retryNow_def)
  obtain tasks skips tr where p: "planTasks env default_fns (itPlanClock it) 0 flows (Some ?t) = (tasks, skips, tr)"
    by (metis prod_cases3)
  have "flowKey env f \<in> {} \<union> flowKey env ` set tasks"
    by (rule planTasks_all [OF clear(1) _ p assms(6,7)]) (simp add: clear(2))
  then obtain g where g: "g \<in> set tasks" "flowKey env g = flowKey env f" by auto
  have q: "\<not> itAborted it n" "invoked (itFlowPool it (length tasks)) = [0..<length tasks]" for n
    using assms(3) pool_all [of "length tasks" "ccMaxConcurrentAdvances cfg" False] unfolding undisturbed_def by blast+
  let ?st0 = "\<lparr>scWorld = ?w, scMemo = \<lparr>cmSeen = Some (crSeenAdvanceErrors c), cmIter = []\<rparr>, scProgress = False, scDispatched = []\<rparr>"
  have same: "crBackstopMemo (retryNow c) = crBackstopMemo c" "crIncrementalMemo (retryNow c) = crIncrementalMemo c"
    "crWatermarks (retryNow c) = crWatermarks c" "crSeenAdvanceErrors (retryNow c) = crSeenAdvanceErrors c"
    "crDispatched (retryNow c) = crDispatched c" by (simp_all add: retryNow_def)
  note enum = assms(4) [folded same(1,2)]
  from assms(5) obtain st t' where run: "runTasks env (\<lambda>w. itAborted it (wTick w)) (\<lambda>w. itClock it (wTick w)) default_fns tasks ?st0 tr = Some (st, t')"
    "crDispatched c' = crDispatched c @ scDispatched st"
    by (auto simp: flowLeg_def scanAndAdvance_def Let_def plannedTasks_def enum same(3-5) p q map_nth split: option.splits)
  from runTasks_dispatch [OF run(1)] q(1) have
    "\<forall>f \<in> set tasks. pickAdvanceForStatus (sfStatus f) default_fns \<noteq> None \<longrightarrow> (flowKey env f, sfStatus f) \<in> set (scDispatched st)" by auto
  with g planTasks_dispatchable [OF p g(1)] have "(flowKey env f, sfStatus g) \<in> set (scDispatched st)" by metis
  then show ?thesis using run(2) by (auto simp: flowKey_def)
qed

text \<open>The FOGO and the Solana legs of a token read the same emitter by default; what keeps their watermarks apart in the one store
  is the chain in the key.\<close>

lemma legs_share_emitters:
  "map_option snd (map_of (configSchema usdc onyc) ''FOGO_ONYC_EMITTER_HEX'') =
     map_option snd (map_of (configSchema usdc onyc) ''SOLANA_ONYC_EMITTER_HEX'')"
  "watermarkKey FOGO_WORMHOLE_CHAIN_ID onyc \<noteq> watermarkKey SOLANA_WORMHOLE_CHAIN_ID onyc"
  by (simp_all add: configSchema_def watermarkKey_inj FOGO_WORMHOLE_CHAIN_ID_def SOLANA_WORMHOLE_CHAIN_ID_def)

section \<open>A concrete process\<close>

lemma pool_can_finish: "\<exists>p. pool_reach n 1 False p \<and> pool_done p \<and> \<not> abortSeen p"
proof -
  define q where "q m = \<lparr>cursor = m, workers = [AtLoop], abortSeen = False, signalAborted = False, invoked = [0..<m], workerThrows = 0\<rparr>" for m
  have reach: "m \<le> n \<Longrightarrow> pool_reach n 1 False (q m)" for m
  proof (induction m)
    case 0
    have "q 0 = startPool 1 False" by (simp add: q_def startPool_def)
    then show ?case using reach_start by simp
  next
    case (Suc m)
    let ?s = "(q m)\<lparr>cursor := m + 1, workers := [Working m], invoked := [0..<m] @ [m]\<rparr>"
    have "pool_step n (q m) ?s" using take_item [of 0 "q m" n] Suc.prems by (simp add: q_def)
    moreover have "pool_step n ?s (q (Suc m))" using call_resolves [of 0 ?s m n] by (simp add: q_def)
    ultimately show ?case using Suc by (meson Suc_leD reach_step)
  qed
  have "pool_step n (q n) ((q n)\<lparr>workers := [Exited]\<rparr>)" using no_item [of 0 "q n" n] by (simp add: q_def)
  from reach_step [OF reach [OF order_refl] this] show ?thesis by (auto simp: pool_done_def q_def)
qed

definition model_config :: CrankerConfig where
  "model_config = configOf (map_of [(''FOGO_WORMHOLE_CHAIN_ID'', VInt 51), (''FOGO_USDC_EMITTER_HEX'', VText ''ab''),
     (''WORMHOLESCAN_MAX_PAGES'', VInt 1), (''MAX_CONCURRENT_ADVANCES'', VInt 1)])"

lemma model_config_sel: "ccMaxConcurrentAdvances model_config = 1" "ccCheckpointPath model_config = []" "\<not> ccBridgePipelineEnabled model_config"
  "enumeratorOptions model_config False = model_enum_opts" "ccSendLookupTable model_config = []"
  by (simp_all add: model_config_def configOf_def enumeratorOptions_def model_enum_opts_def)

definition model_cranker :: cranker where
  "model_cranker = \<lparr>crTargets = [], crTracker = freshTracker, crWatermarks = [], crIncrementalMemo = \<lparr>bmMax = 50000, bmEntries = []\<rparr>,
     crBackstopMemo = \<lparr>bmMax = 50000, bmEntries = []\<rparr>, crRefundMemo = \<lparr>bmMax = 50000, bmEntries = []\<rparr>,
     crWalletCache = \<lparr>bmMax = 10000, bmEntries = []\<rparr>, crSeenAdvanceErrors = [], crSeenBridgeErrors = [], crSeenRefundErrors = [],
     crBridge = \<lparr>bsEvents = [], bsNttCache = []\<rparr>, crTicks = \<lparr>tsLastBackstopAt = 0, tsLastRefundAt = 0\<rparr>,
     crSignals = 0, crDispatched = [], crMetrics = [], crIterations = []\<rparr>"

lemma model_boot: "startCranker model_env rpc keypair (Inr model_cfg) readFile model_config = Inr model_cranker"
  by (simp add: startCranker_def model_config_sel watermarksFromCheckpoint_def newBoundedMap_def TERMINAL_CACHE_MAX_def
      USER_WALLET_CACHE_MAX_def newFlowStateTracker_default buildTargets_def model_cranker_def)

definition model_sweep :: sweep where
  "model_sweep = \<lparr>swCtx = model_enum_ctx, swPages = model_pages, swAbortedAt = (\<lambda>_ _. False), swSchedule = [], swAborted = (\<lambda>_. False),
     swExpired = False\<rparr>"

definition model_iteration :: "(nat \<Rightarrow> pool) \<Rightarrow> iteration" where
  "model_iteration pools = \<lparr>itNow = 0, itOrder = [FlowLeg, RefundLeg], itAborted = (\<lambda>_. False), itClock = (\<lambda>_. 0), itPlanClock = (\<lambda>_. 0),
     itView = (\<lambda>_. model_enum_ctx), itFlowSweep = model_sweep, itFlowPool = pools, itRefundSweep = model_sweep,
     itRefundPool = pools, itBridge = (\<lambda>_. model_world)\<rparr>"

lemma model_undisturbed: "\<exists>pools. undisturbed model_config (model_iteration pools) model_cranker"
proof -
  obtain pools where "\<forall>n. pool_reach n 1 False (pools n) \<and> pool_done (pools n) \<and> \<not> abortSeen (pools n)"
    using pool_can_finish by metis
  then have "undisturbed model_config (model_iteration pools) model_cranker"
    by (simp add: undisturbed_def model_iteration_def legsOf_def model_cranker_def model_config_sel)
  then show ?thesis by blast
qed

theorem cranker_invariant_witness:
  "\<exists>it r c. scanTick model_config model_env it model_cranker = Some (r, c) \<and>
     (\<forall>k s n. inspect (crTracker (retryNow c)) k \<noteq> Some (InFlight s n)) \<and> tracker_size (crTracker (retryNow c)) \<le> 10000"
proof -
  obtain pools where u: "undisturbed model_config (model_iteration pools) model_cranker" using model_undisturbed by blast
  have reach: "crank_reach model_config model_env model_cranker model_cranker" by (rule reach_boot)
  from cranker_invariant [OF model_boot reach] u obtain r c where
    t: "scanTick model_config model_env (model_iteration pools) model_cranker = Some (r, c)" by blast
  from cranker_invariant [OF model_boot reach_retry [OF reach_tick [OF reach u t]]] t show ?thesis by blast
qed

theorem retry_dispatches_every_flow_witness:
  "\<exists>it r c flows memo wm ms. flowLeg model_config model_env False it (retryNow model_cranker) = Some (r, c) \<and>
     runEnumerator model_sweep model_enum_opts \<lparr>bmMax = 50000, bmEntries = []\<rparr> [] = (Inr flows, memo, wm, ms) \<and>
     (\<forall>f \<in> set flows. pickAdvanceForStatus (sfStatus f) default_fns \<noteq> None \<longrightarrow>
        (\<exists>status. (toBase58 model_env (sfPubkey f), status) \<in> set (crDispatched c)))"
proof -
  obtain pools where u: "undisturbed model_config (model_iteration pools) model_cranker" using model_undisturbed by blast
  have reach: "crank_reach model_config model_env model_cranker model_cranker" by (rule reach_boot)
  let ?memo = "\<lparr>bmMax = 50000, bmEntries = []\<rparr> :: terminal_cache"
  obtain flows es where e: "enumerateFlows model_enum_ctx model_enum_opts model_pages (\<lambda>_ _. False) [] (\<lambda>_. False) ?memo (Some []) = (Inr flows, es)"
    using enumerate_returns [of model_enum_ctx] model_enum_sel model_env_total by metis
  then have r: "runEnumerator model_sweep model_enum_opts ?memo [] = (Inr flows, esCache es, ifNone (esWatermarks es) [], esMetrics es)"
    by (simp add: runEnumerator_def model_sweep_def)
  then have r': "runEnumerator (itFlowSweep (model_iteration pools)) (enumeratorOptions model_config False)
      (if False then crBackstopMemo model_cranker else crIncrementalMemo model_cranker) (crWatermarks model_cranker) =
      (Inr flows, esCache es, ifNone (esWatermarks es) [], esMetrics es)"
    by (simp add: model_iteration_def model_config_sel model_cranker_def)
  have "cranker_ok model_config model_cranker (retryNow model_cranker)"
    by (rule retryNow_ok [OF startCranker_ok [OF model_boot]])
  from flowLeg_ok [OF this u, of model_env False] obtain res c where
    fl: "flowLeg model_config model_env False (model_iteration pools) (retryNow model_cranker) = Some (res, c)" by blast
  from retry_dispatches_every_flow [OF model_boot reach u r' fl] have
    "\<forall>f \<in> set flows. pickAdvanceForStatus (sfStatus f) default_fns \<noteq> None \<longrightarrow>
      (\<exists>status. (toBase58 model_env (sfPubkey f), status) \<in> set (crDispatched c))" by (simp add: model_cranker_def)
  with fl r show ?thesis by blast
qed

end
