(* ===== verification/Monitoring.thy ===== *)
theory Monitoring
  imports Daemon
begin

text \<open>
  What the operator sees of the daemon: the balance poller and the WebSocket keep-alive of
  \<open>packages/cranker/src/index.ts\<close>, the health endpoint and the gauges of \<open>packages/cranker/src/metrics.ts\<close> that are
  computed when they are scraped.
\<close>

section \<open>Health\<close>

definition healthz :: "int \<Rightarrow> daemon \<Rightarrow> int \<Rightarrow> nat" where
  "healthz heartbeatStaleMs d now = (if now - dmHeartbeat d > heartbeatStaleMs then 503 else 200)"

text \<open>The endpoint turns unhealthy exactly when the watchdog ends the process.\<close>

lemma healthz_watchdog: "healthz (doHeartbeatStaleMs opts) d now = 503 \<longleftrightarrow> watchdogKills opts d now"
  by (simp add: healthz_def watchdogKills_def)

section \<open>Balances\<close>

text \<open>The gauge of one chain (\<open>None\<close> is \<open>NaN\<close>), the time of the last poll that succeeded, the errors counted.\<close>

record balance_gauge =
  bgBalance :: "real option"
  bgLastSuccess :: "int option"
  bgRpcErrors :: nat

definition LAMPORTS_PER_SOL :: real where
  "LAMPORTS_PER_SOL = 1000000000"

definition balanceTick :: "int \<Rightarrow> thrown + int \<Rightarrow> balance_gauge \<Rightarrow> balance_gauge" where
  "balanceTick now balance g =
     (case balance of
        Inr lamports \<Rightarrow> g\<lparr>bgBalance := Some (real_of_int lamports / LAMPORTS_PER_SOL), bgLastSuccess := Some now\<rparr>
      | Inl _ \<Rightarrow> g\<lparr>bgBalance := None, bgRpcErrors := bgRpcErrors g + 1\<rparr>)"

text \<open>\<open>cranker_balance_poll_age_seconds\<close>, computed at a scrape.\<close>

definition balancePollAge :: "balance_gauge \<Rightarrow> int \<Rightarrow> real option" where
  "balancePollAge g now = map_option (\<lambda>ts. real_of_int (now - ts) / 1000) (bgLastSuccess g)"

text \<open>A failing RPC never leaves an old balance standing: what the gauge shows is the answer to the very last poll, while the age
  is that of the last success.\<close>

lemma balance_after_polls:
  assumes "polls \<noteq> []"
  shows "bgBalance (fold (\<lambda>(t, r). balanceTick t r) polls g) =
      (case snd (last polls) of Inr l \<Rightarrow> Some (real_of_int l / LAMPORTS_PER_SOL) | Inl _ \<Rightarrow> None)"
    "bgLastSuccess (fold (\<lambda>(t, r). balanceTick t r) polls g) =
      (case filter (\<lambda>(_, r). \<not> isl r) polls of [] \<Rightarrow> bgLastSuccess g | ok \<Rightarrow> Some (fst (last ok)))"
proof -
  show "bgBalance (fold (\<lambda>(t, r). balanceTick t r) polls g) =
      (case snd (last polls) of Inr l \<Rightarrow> Some (real_of_int l / LAMPORTS_PER_SOL) | Inl _ \<Rightarrow> None)"
    using assms by (induction polls arbitrary: g) (auto simp: balanceTick_def split: sum.split)
  show "bgLastSuccess (fold (\<lambda>(t, r). balanceTick t r) polls g) =
      (case filter (\<lambda>(_, r). \<not> isl r) polls of [] \<Rightarrow> bgLastSuccess g | ok \<Rightarrow> Some (fst (last ok)))"
  proof (induction polls rule: rev_induct)
    case (snoc p ps)
    then show ?case by (cases p; cases "snd p") (auto simp: balanceTick_def split: list.splits)
  qed simp
qed

text \<open>The poller: one poll at once, then one at every interval, each of which looks at the abort signal first.\<close>

fun balanceLoop :: "(bool \<times> int \<times> (thrown + int)) list \<Rightarrow> balance_gauge \<Rightarrow> balance_gauge" where
  "balanceLoop [] g = g"
| "balanceLoop ((aborted, now, balance) # ticks) g = (if aborted then g else balanceLoop ticks (balanceTick now balance g))"

definition startBalancePoller :: "int \<Rightarrow> thrown + int \<Rightarrow> (bool \<times> int \<times> (thrown + int)) list \<Rightarrow> balance_gauge \<Rightarrow> balance_gauge" where
  "startBalancePoller now balance ticks g = balanceLoop ticks (balanceTick now balance g)"

lemma balanceLoop_polls:
  "balanceLoop ticks g = fold (\<lambda>(t, r). balanceTick t r) (map snd (takeWhile (\<lambda>(aborted, _). \<not> aborted) ticks)) g"
  by (induction ticks arbitrary: g) auto

text \<open>What the gauge shows is the answer to the last poll before the shutdown.\<close>

lemma balance_shown:
  "bgBalance (startBalancePoller now balance ticks g) =
     (case snd (last ((now, balance) # map snd (takeWhile (\<lambda>(aborted, _). \<not> aborted) ticks))) of
        Inr l \<Rightarrow> Some (real_of_int l / LAMPORTS_PER_SOL) | Inl _ \<Rightarrow> None)"
  using balance_after_polls(1) [of "(now, balance) # map snd (takeWhile (\<lambda>(aborted, _). \<not> aborted) ticks)" g]
  by (simp add: startBalancePoller_def balanceLoop_polls)

section \<open>The WebSocket\<close>

record keepalive =
  kaSubId :: "nat option"
  kaLastTickAt :: int
  kaWsAlive :: bool
  kaRemoved :: "nat list"

text \<open>\<open>subscribe\<close>, with what \<open>onSlotChange\<close> returned.\<close>

definition kaSubscribe :: "thrown + nat \<Rightarrow> keepalive \<Rightarrow> keepalive" where
  "kaSubscribe r k = (case r of Inr subId \<Rightarrow> k\<lparr>kaSubId := Some subId\<rparr> | Inl _ \<Rightarrow> k\<lparr>kaWsAlive := False\<rparr>)"

definition kaRemoveListener :: "keepalive \<Rightarrow> keepalive" where
  "kaRemoveListener k = (case kaSubId k of None \<Rightarrow> k | Some subId \<Rightarrow> k\<lparr>kaSubId := None, kaRemoved := kaRemoved k @ [subId]\<rparr>)"

definition kaSlot :: "int \<Rightarrow> keepalive \<Rightarrow> keepalive" where
  "kaSlot now k = k\<lparr>kaLastTickAt := now, kaWsAlive := True\<rparr>"

definition kaCheck :: "int \<Rightarrow> int \<Rightarrow> thrown + nat \<Rightarrow> keepalive \<Rightarrow> keepalive" where
  "kaCheck interval now r k =
     (if kaSubId k = None \<or> (kaLastTickAt k \<noteq> 0 \<and> now - kaLastTickAt k > interval)
      then kaSubscribe r (kaRemoveListener (k\<lparr>kaWsAlive := False\<rparr>))
      else k)"

definition startWsKeepalive :: "thrown + nat \<Rightarrow> keepalive" where
  "startWsKeepalive r = kaSubscribe r \<lparr>kaSubId = None, kaLastTickAt = 0, kaWsAlive = False, kaRemoved = []\<rparr>"

datatype ka_event = SlotTick int | IntervalCheck int "thrown + nat"

fun kaEvent :: "int \<Rightarrow> ka_event \<Rightarrow> keepalive \<Rightarrow> keepalive" where
  "kaEvent interval (SlotTick now) k = kaSlot now k"
| "kaEvent interval (IntervalCheck now r) k = kaCheck interval now r k"

text \<open>The gauge is honest at every check: when it still says alive after a check, a slot arrived within the last interval.\<close>

lemma alive_after_check:
  assumes "\<forall>e \<in> set es. \<forall>t. e = SlotTick t \<longrightarrow> 0 < t"
    and "k = fold (kaEvent interval) (es @ [IntervalCheck now r]) (startWsKeepalive r0)" "kaWsAlive k"
  shows "now - kaLastTickAt k \<le> interval \<and> SlotTick (kaLastTickAt k) \<in> set es"
proof -
  let ?k = "fold (kaEvent interval) es (startWsKeepalive r0)"
  have inv: "kaWsAlive k \<longrightarrow> kaLastTickAt k \<noteq> 0 \<and> SlotTick (kaLastTickAt k) \<in> set es"
    if "\<forall>e \<in> set es. \<forall>t. e = SlotTick t \<longrightarrow> 0 < t" "k = fold (kaEvent interval) es (startWsKeepalive r0)" for k es
    using that
  proof (induction es arbitrary: k rule: rev_induct)
    case Nil
    then show ?case by (simp add: startWsKeepalive_def kaSubscribe_def split: sum.split)
  next
    case (snoc e es)
    then show ?case
      by (cases e) (auto simp: kaSlot_def kaCheck_def kaSubscribe_def kaRemoveListener_def split: sum.splits option.splits if_splits)
  qed
  from assms(2) have k: "k = kaCheck interval now r ?k" by simp
  with assms(3) have "k = ?k" "now - kaLastTickAt ?k \<le> interval \<or> kaLastTickAt ?k = 0"
    by (auto simp: kaCheck_def kaSubscribe_def kaRemoveListener_def split: sum.splits option.splits if_splits)
  with inv [OF assms(1) refl] assms(3) show ?thesis by auto
qed

text \<open>A subscription that never delivers a slot is never renewed: as long as no slot arrives no check does anything, and the
  gauge stays at zero.\<close>

lemma silent_subscription_kept:
  "fold (kaEvent interval) (map (\<lambda>(now, r). IntervalCheck now r) checks) (startWsKeepalive (Inr subId)) = startWsKeepalive (Inr subId) \<and>
   \<not> kaWsAlive (startWsKeepalive (Inr subId))"
  by (induction checks) (auto simp: startWsKeepalive_def kaSubscribe_def kaCheck_def)

end
