(* ===== verification/Telemetry.thy ===== *)
theory Telemetry
  imports Monitoring Flow_State
begin

text \<open>
  What the process writes for its operator: the logger and the line writer of \<open>packages/cranker/src/utils/log.ts\<close> and the state,
  the scrape-time gauges and the HTTP server of \<open>packages/cranker/src/metrics.ts\<close>.

  The series of \<open>prom-client\<close> themselves are not modelled; the increments of its counters are part of the results of the operations
  that make them.
\<close>

section \<open>Log values and their text\<close>

text \<open>A JavaScript value as \<open>JSON.stringify\<close> meets it. \<open>LError name message stack\<close> is an \<open>Error\<close> object (\<open>stack\<close> may be
  undefined), \<open>LCycle\<close> a reference back to an object around it.
  Numbers are the integers.\<close>

datatype log_value =
    LNull | LUndefined | LBool bool | LNumber int | LBigint int | LText string
  | LError string string "string option"
  | LArray "log_value list"
  | LObject "(string \<times> log_value) list"
  | LCycle

type_synonym LogFields = "(string, log_value) jsmap"

definition hex_lower :: "nat \<Rightarrow> char" where
  "hex_lower d = char_of (if d < 10 then 48 + d else 87 + d)"

definition json_char :: "char \<Rightarrow> string" where
  "json_char c =
     (let n = of_char c :: nat in
      if n = 34 then [CHR 0x5C, CHR 0x22] else if n = 92 then [CHR 0x5C, CHR 0x5C]
      else if n = 8 then [CHR 0x5C, CHR ''b''] else if n = 9 then [CHR 0x5C, CHR ''t'']
      else if n = 10 then [CHR 0x5C, CHR ''n''] else if n = 12 then [CHR 0x5C, CHR ''f'']
      else if n = 13 then [CHR 0x5C, CHR ''r'']
      else if n < 32 then [CHR 0x5C, CHR ''u'', CHR ''0'', CHR ''0'', hex_lower (n div 16), hex_lower (n mod 16)]
      else [c])"

definition json_quote :: "string \<Rightarrow> string" where
  "json_quote s = CHR 0x22 # concat (map json_char s) @ [CHR 0x22]"

fun commas :: "string list \<Rightarrow> string" where
  "commas [] = []"
| "commas [t] = t"
| "commas (t # u # ts) = t @ '','' @ commas (u # ts)"

text \<open>
  \<open>JSON.stringify\<close> with the replacer of \<open>safeStringify\<close>: the outer option is a value left out (\<open>undefined\<close> in an object; in an
  array it is written as \<open>null\<close>), \<open>Inl\<close> the \<open>TypeError\<close> of a circular structure.
\<close>

definition present :: "(string \<times> string option) list \<Rightarrow> string list" where
  "present kvs = map (\<lambda>(k, t). json_quote k @ '':'' @ the t) (filter (\<lambda>(k, t). t \<noteq> None) kvs)"

fun stringify :: "log_value \<Rightarrow> string option result"
and stringify_items :: "log_value list \<Rightarrow> string list result"
and stringify_members :: "(string \<times> log_value) list \<Rightarrow> (string \<times> string option) list result" where
  "stringify LNull = Inr (Some ''null'')"
| "stringify LUndefined = Inr None"
| "stringify (LBool b) = Inr (Some (if b then ''true'' else ''false''))"
| "stringify (LNumber n) = Inr (Some (bigint_toString n))"
| "stringify (LBigint n) = Inr (Some (json_quote (bigint_toString n)))"
| "stringify (LText s) = Inr (Some (json_quote s))"
| "stringify (LError nm msg stack) =
     Inr (Some (''{'' @ commas (present [(''name'', Some (json_quote nm)), (''message'', Some (json_quote msg)),
       (''stack'', map_option json_quote stack)]) @ ''}''))"
| "stringify (LArray vs) = rbind (stringify_items vs) (\<lambda>ts. Inr (Some (''['' @ commas ts @ '']'')))"
| "stringify (LObject kvs) = rbind (stringify_members kvs) (\<lambda>ms. Inr (Some (''{'' @ commas (present ms) @ ''}'')))"
| "stringify LCycle = Inl (TypeError ''Converting circular structure to JSON'')"
| "stringify_items [] = Inr []"
| "stringify_items (v # vs) =
     rbind (stringify v) (\<lambda>t. rbind (stringify_items vs) (\<lambda>ts. Inr (ifNone t ''null'' # ts)))"
| "stringify_members [] = Inr []"
| "stringify_members ((k, v) # kvs) =
     rbind (stringify v) (\<lambda>t. rbind (stringify_members kvs) (\<lambda>ms. Inr ((k, t) # ms)))"

text \<open>\<open>String(err)\<close>\<close>

definition jsErrorText :: "js_error \<Rightarrow> string" where
  "jsErrorText e = (case of_js_error e of Object eo \<Rightarrow> eoText eo | Primitive s \<Rightarrow> s)"

definition safeStringify :: "log_value \<Rightarrow> string option" where
  "safeStringify v =
     (case stringify v of
        Inr t \<Rightarrow> t
      | Inl e \<Rightarrow> Some (''{'' @ commas (present [(''__serializeError'', Some (json_quote (jsErrorText e)))]) @ ''}''))"

section \<open>The logger\<close>

datatype LogLevel = Debug | Info | Warn | LevelError | Fatal

primrec ORDER :: "LogLevel \<Rightarrow> nat" where
  "ORDER Debug = 10"
| "ORDER Info = 20"
| "ORDER Warn = 30"
| "ORDER LevelError = 40"
| "ORDER Fatal = 50"

primrec levelName :: "LogLevel \<Rightarrow> string" where
  "levelName Debug = ''debug''"
| "levelName Info = ''info''"
| "levelName Warn = ''warn''"
| "levelName LevelError = ''error''"
| "levelName Fatal = ''fatal''"

text \<open>\<open>{...a, ...b}\<close>: a key of \<open>b\<close> that \<open>a\<close> has keeps its place and takes the value of \<open>b\<close>.\<close>

definition spread :: "LogFields \<Rightarrow> LogFields \<Rightarrow> LogFields" where
  "spread a b = fold (\<lambda>(k, v). jm_set k v) b a"

definition logObject :: "string \<Rightarrow> LogLevel \<Rightarrow> string \<Rightarrow> LogFields \<Rightarrow> LogFields" where
  "logObject time level msg extra = spread [(''level'', LText (levelName level)), (''msg'', LText msg), (''time'', LText time)] extra"

definition writeLogLine :: "string \<Rightarrow> LogLevel \<Rightarrow> string \<Rightarrow> LogFields \<Rightarrow> string option" where
  "writeLogLine time level msg extra = safeStringify (LObject (logObject time level msg extra))"

record Logger =
  lgLevel :: LogLevel
  lgBase :: LogFields

definition createLogger :: "LogLevel \<Rightarrow> LogFields option \<Rightarrow> Logger" where
  "createLogger level base = \<lparr>lgLevel = level, lgBase = ifNone base []\<rparr>"

text \<open>The lines a call of a logger adds to the standard error stream.\<close>

definition emit :: "Logger \<Rightarrow> string \<Rightarrow> LogLevel \<Rightarrow> string \<Rightarrow> LogFields \<Rightarrow> string list" where
  "emit l time level msg extra =
     (if ORDER level < ORDER (lgLevel l) then []
      else [ifNone (writeLogLine time level msg (spread (lgBase l) extra)) ''undefined''])"

definition childLogger :: "Logger \<Rightarrow> LogFields \<Rightarrow> Logger" where
  "childLogger l extra = createLogger (lgLevel l) (Some (spread (lgBase l) extra))"

section \<open>The fields of an error\<close>

text \<open>The first argument is \<open>err.name\<close>.\<close>

definition textList :: "string list \<Rightarrow> log_value" where
  "textList ts = LArray (map LText ts)"

definition errorFields :: "string \<Rightarrow> thrown \<Rightarrow> LogFields" where
  "errorFields errName err =
     (case err of
        Primitive s \<Rightarrow> [(''err'', LText s)]
      | Object e \<Rightarrow>
          if \<not> eoIsError e then [(''err'', LText (eoText e))]
          else [(''err'', LObject [(''name'', LText errName), (''message'', LText (errorMessage err)), (''stack'', LText (eoStack e))])] @
            (if eoLogs e \<noteq> [] then [(''programLogs'', textList (eoLogs e))] else []) @
            (if eoErrorLogs e \<noteq> [] then [(''errorLogs'', textList (eoErrorLogs e))] else []) @
            (if eoTransactionLogs e \<noteq> [] then [(''transactionLogs'', textList (eoTransactionLogs e))] else []) @
            (if truthyText (eoSignature e) then [(''signature'', LText (the (eoSignature e)))] else []))"

definition errorFieldsCompact :: "thrown \<Rightarrow> LogFields" where
  "errorFieldsCompact err = [(''err'', LText (errorMessage err))]"

section \<open>Metrics\<close>

datatype chain = Solana | Fogo

text \<open>
  The variables of \<open>createMetrics\<close>. The provider of the stuck flows is a function of the state \<open>'w\<close> of the process at the scrape.
  \<open>mxListening\<close> are the ports of the sockets that are bound.
\<close>

record 'w metrics =
  mxHeartbeatStaleMs :: int
  mxHeartbeat :: int
  mxPolls :: "chain \<Rightarrow> int option"
  mxProvider :: "('w \<Rightarrow> nat \<times> nat) option"
  mxServer :: bool
  mxActualPort :: nat
  mxListening :: "nat list"

definition createMetrics :: "int \<Rightarrow> int \<Rightarrow> 'w metrics" where
  "createMetrics heartbeatStaleMs now =
     \<lparr>mxHeartbeatStaleMs = heartbeatStaleMs, mxHeartbeat = now, mxPolls = (\<lambda>_. None), mxProvider = None,
      mxServer = False, mxActualPort = 0, mxListening = []\<rparr>"

definition heartbeatSetNow :: "int \<Rightarrow> 'w metrics \<Rightarrow> 'w metrics" where
  "heartbeatSetNow now m = m\<lparr>mxHeartbeat := now\<rparr>"

definition heartbeatSetAt :: "int \<Rightarrow> 'w metrics \<Rightarrow> 'w metrics" where
  "heartbeatSetAt ts m = m\<lparr>mxHeartbeat := ts\<rparr>"

definition heartbeatAgeMs :: "int \<Rightarrow> 'w metrics \<Rightarrow> int" where
  "heartbeatAgeMs now m = now - mxHeartbeat m"

definition recordBalancePollSuccess :: "int \<Rightarrow> chain \<Rightarrow> 'w metrics \<Rightarrow> 'w metrics" where
  "recordBalancePollSuccess now ch m = m\<lparr>mxPolls := (mxPolls m)(ch := Some now)\<rparr>"

definition setStuckFlowProvider :: "('w \<Rightarrow> nat \<times> nat) \<Rightarrow> 'w metrics \<Rightarrow> 'w metrics" where
  "setStuckFlowProvider fn m = m\<lparr>mxProvider := Some fn\<rparr>"

text \<open>The samples that are computed when the registry is read; \<open>None\<close> is positive infinity.\<close>

definition collectStuck :: "'w \<Rightarrow> 'w metrics \<Rightarrow> (string \<times> nat) list" where
  "collectStuck w m =
     (let c = (case mxProvider m of Some fn \<Rightarrow> fn w | None \<Rightarrow> (0, 0)) in [(''poisoned'', fst c), (''cooldown'', snd c)])"

definition collectPollAge :: "int \<Rightarrow> 'w metrics \<Rightarrow> (chain \<times> real option) list" where
  "collectPollAge now m =
     map (\<lambda>ch. (ch, case mxPolls m ch of None \<Rightarrow> None | Some ts \<Rightarrow> Some (real_of_int (now - ts) / 1000))) [Solana, Fogo]"

datatype http_body =
    Health string int
  | Scrape real "(chain \<times> real option) list" "(string \<times> nat) list"
  | NoBody

definition handleRequest :: "int \<Rightarrow> 'w \<Rightarrow> 'w metrics \<Rightarrow> string \<Rightarrow> nat \<times> http_body" where
  "handleRequest now w m url =
     (if url = ''/healthz'' then
        let ageMs = heartbeatAgeMs now m in
        if ageMs > mxHeartbeatStaleMs m then (503, Health ''stale'' ageMs) else (200, Health ''ok'' ageMs)
      else if url = ''/metrics'' then
        (200, Scrape (real_of_int (heartbeatAgeMs now m) / 1000) (collectPollAge now m) (collectStuck w m))
      else (404, NoBody))"

text \<open>
  \<open>bound\<close> is the port the listener gets; \<open>None\<close> when the socket cannot be bound: the server has no handler for its \<open>error\<close> event, so
  the error is thrown outside of every promise and \<open>start\<close> does not settle.
\<close>

definition startServer :: "nat option \<Rightarrow> 'w metrics \<Rightarrow> bool \<times> 'w metrics" where
  "startServer bound m =
     (if mxServer m then (True, m)
      else case bound of
        Some port \<Rightarrow> (True, m\<lparr>mxServer := True, mxActualPort := port, mxListening := port # mxListening m\<rparr>)
      | None \<Rightarrow> (False, m\<lparr>mxServer := True\<rparr>))"

text \<open>\<open>closeErr\<close> is the error \<open>close\<close> reports, which it does only for a server that is not listening.\<close>

definition stopServer :: "thrown option \<Rightarrow> 'w metrics \<Rightarrow> (thrown + unit) \<times> 'w metrics" where
  "stopServer closeErr m =
     (if \<not> mxServer m then (Inr (), m)
      else case closeErr of
        Some e \<Rightarrow> (Inl e, m)
      | None \<Rightarrow> (Inr (), m\<lparr>mxServer := False, mxListening := remove1 (mxActualPort m) (mxListening m)\<rparr>))"

section \<open>One call, one line\<close>

definition printable :: "string \<Rightarrow> bool" where
  "printable s \<longleftrightarrow> list_all (\<lambda>c. (32 :: nat) \<le> of_char c) s"

lemma printable_Nil [simp]: "printable []"
  by (simp add: printable_def)

lemma printable_Cons [simp]: "printable (c # s) \<longleftrightarrow> (32 :: nat) \<le> of_char c \<and> printable s"
  by (simp add: printable_def)

lemma printable_append [simp]: "printable (s @ t) \<longleftrightarrow> printable s \<and> printable t"
  by (simp add: printable_def)

lemma printable_concat: "printable (concat ts) \<longleftrightarrow> list_all printable ts"
  by (induction ts) simp_all

lemma printable_hex_lower: "d < 16 \<Longrightarrow> (32 :: nat) \<le> of_char (hex_lower d)"
  by (simp add: hex_lower_def)

lemma printable_json_char: "printable (json_char c)"
  by (simp add: json_char_def Let_def printable_hex_lower)

lemma printable_json_quote [simp]: "printable (json_quote s)"
  by (simp add: json_quote_def printable_concat list_all_iff printable_json_char)

lemma printable_dec: "printable (dec_of_nat n)"
  using dec_of_nat_digits [of n] by (auto simp: printable_def list_all_iff is_digit_def)

lemma printable_bigint [simp]: "printable (bigint_toString n)"
  by (simp add: bigint_toString_def printable_dec)

lemma printable_commas: "list_all printable ts \<Longrightarrow> printable (commas ts)"
  by (induction ts rule: commas.induct) simp_all

lemma printable_present:
  "list_all (\<lambda>(k, t). \<forall>s. t = Some s \<longrightarrow> printable s) kvs \<Longrightarrow> printable (commas (present kvs))"
  by (rule printable_commas) (auto simp: present_def list_all_iff)

lemma printable_stringify:
  "stringify v = Inr (Some t) \<Longrightarrow> printable t"
  "stringify_items vs = Inr ts \<Longrightarrow> list_all printable ts"
  "stringify_members kvs = Inr ms \<Longrightarrow> list_all (\<lambda>(k, t). \<forall>s. t = Some s \<longrightarrow> printable s) ms"
  by (induction v and vs and kvs arbitrary: t and ts and ms rule: stringify_stringify_items_stringify_members.induct)
    (auto simp: ifNone_def elim!: rbind_InrE intro!: printable_commas printable_present split: option.splits)

lemma stringify_object: "stringify (LObject kvs) = Inr t \<Longrightarrow> t \<noteq> None"
  by (auto elim!: rbind_InrE)

lemma writeLogLine_text: "\<exists>t. writeLogLine time level msg extra = Some t \<and> printable t"
proof (cases "stringify (LObject (logObject time level msg extra))")
  case (Inl e)
  then show ?thesis
    by (simp add: writeLogLine_def safeStringify_def printable_present del: stringify.simps)
next
  case (Inr t)
  with stringify_object obtain s where s: "t = Some s" by blast
  with Inr show ?thesis
    by (simp add: writeLogLine_def safeStringify_def printable_stringify(1) [OF Inr [unfolded s]] del: stringify.simps)
qed

text \<open>Whatever an error message or a field holds, a call of the logger writes nothing (below its level) or exactly one line: no line
  break and no other control character reaches the stream, and a field that cannot be serialised is reported instead of thrown.\<close>

lemma emit_one_line:
  "if ORDER level < ORDER (lgLevel l) then emit l time level msg extra = []
   else \<exists>t. emit l time level msg extra = [t] \<and> printable t"
  using writeLogLine_text [of time level msg "spread (lgBase l) extra"] by (auto simp: emit_def)

text \<open>A tree of child loggers keeps the level; a field given later wins over one given earlier.\<close>

lemma jm_get_spread:
  "jm_ok a \<Longrightarrow> jm_get (spread a b) k = (case map_of (rev b) k of Some v \<Rightarrow> Some v | None \<Rightarrow> jm_get a k)"
  unfolding spread_def by (rule jm.get_puts)

lemma jm_ok_spread: "jm_ok a \<Longrightarrow> jm_ok (spread a b)"
  unfolding spread_def by (rule jm.inv_puts)

lemma children_level: "lgLevel (fold (\<lambda>extra l. childLogger l extra) extras l) = lgLevel l"
  by (induction extras arbitrary: l) (simp_all add: childLogger_def createLogger_def)

lemma children_field:
  "jm_ok (lgBase l) \<Longrightarrow> jm_get (lgBase (fold (\<lambda>extra l. childLogger l extra) extras l)) k =
     (case map_of (rev (concat extras)) k of Some v \<Rightarrow> Some v | None \<Rightarrow> jm_get (lgBase l) k)"
proof (induction extras arbitrary: l)
  case (Cons extra extras)
  have "jm_ok (lgBase (childLogger l extra))"
    using Cons.prems by (simp add: childLogger_def createLogger_def jm_ok_spread)
  from Cons.IH [OF this] show ?case
    using Cons.prems by (simp add: childLogger_def createLogger_def jm_get_spread map_add_def split: option.splits)
qed simp

section \<open>The server\<close>

text \<open>The calls of the owner of the metrics.\<close>

datatype metrics_call =
    CallSetNow int | CallSetAt int | CallPollSuccess int chain | CallStart "nat option" | CallStop "thrown option"

fun metricsCall :: "metrics_call \<Rightarrow> 'w metrics \<Rightarrow> 'w metrics" where
  "metricsCall (CallSetNow now) m = heartbeatSetNow now m"
| "metricsCall (CallSetAt ts) m = heartbeatSetAt ts m"
| "metricsCall (CallPollSuccess now ch) m = recordBalancePollSuccess now ch m"
| "metricsCall (CallStart bound) m = snd (startServer bound m)"
| "metricsCall (CallStop closeErr) m = snd (stopServer closeErr m)"

definition server_ok :: "'w metrics \<Rightarrow> bool" where
  "server_ok m \<longleftrightarrow> mxListening m = [] \<or> (mxServer m \<and> mxListening m = [mxActualPort m])"

lemmas metrics_defs = createMetrics_def heartbeatSetNow_def heartbeatSetAt_def recordBalancePollSuccess_def startServer_def
  stopServer_def setStuckFlowProvider_def

lemma server_ok_call: "server_ok m \<Longrightarrow> server_ok (metricsCall mc m)"
  by (cases mc) (auto simp: server_ok_def metrics_defs split: option.splits)

text \<open>However often it is started and stopped, the process listens on one socket at most, the one whose port it reports.\<close>

lemma one_listener: "server_ok (fold metricsCall calls (createMetrics stale now))"
proof -
  have "server_ok m \<Longrightarrow> server_ok (fold metricsCall calls m)" for m :: "'a metrics"
    by (induction calls arbitrary: m) (simp_all add: server_ok_call)
  then show ?thesis by (simp add: server_ok_def createMetrics_def)
qed

lemma provider_kept: "mxProvider (metricsCall mc m) = mxProvider m"
  by (cases mc) (auto simp: metrics_defs split: option.splits)

text \<open>The gauge of stuck flows is read from the tracker of the moment of the scrape, whatever happened since it was wired.\<close>

lemma stuck_gauge_live:
  "snd (handleRequest now t (fold metricsCall calls (setStuckFlowProvider stuckCounts m)) ''/metrics'') = Scrape age polls stuck \<Longrightarrow>
     stuck = [(''poisoned'', fst (stuckCounts t)), (''cooldown'', snd (stuckCounts t))]"
proof -
  have "mxProvider (fold metricsCall calls (setStuckFlowProvider stuckCounts m)) = Some stuckCounts"
    by (induction calls rule: rev_induct) (simp_all add: provider_kept setStuckFlowProvider_def)
  then show "snd (handleRequest now t (fold metricsCall calls (setStuckFlowProvider stuckCounts m)) ''/metrics'') = Scrape age polls stuck \<Longrightarrow>
     stuck = [(''poisoned'', fst (stuckCounts t)), (''cooldown'', snd (stuckCounts t))]"
    by (auto simp: handleRequest_def collectStuck_def Let_def)
qed

text \<open>A daemon that sets the heartbeat of the metrics is judged by the health endpoint as by its watchdog.\<close>

lemma healthz_request:
  "mxHeartbeat m = dmHeartbeat d \<Longrightarrow> mxHeartbeatStaleMs m = doHeartbeatStaleMs opts \<Longrightarrow>
     fst (handleRequest now w m ''/healthz'') = healthz (doHeartbeatStaleMs opts) d now \<and>
     (fst (handleRequest now w m ''/healthz'') = 503 \<longleftrightarrow> watchdogKills opts d now)"
  by (simp add: handleRequest_def heartbeatAgeMs_def Let_def healthz_def watchdogKills_def)

end
