(* ===== verification/Lifecycle.thy ===== *)
theory Lifecycle
  imports Cranker Telemetry
begin

text \<open>
  The life of a cranker process (\<open>main\<close> of \<open>packages/cranker/src/index.ts\<close> around the loop of \<open>daemon.ts\<close>): configuration, metrics
  server, keypair and start-up, the turns of the daemon with the scan of \<open>Cranker\<close> in them, the periodic checkpoint, the
  ways out (shutdown, watchdog), the final flush, and the restart from the file it leaves.

  A turn carries what the outside contributes to it. A scan that a shutdown or the watchdog cuts off has run some of its legs. The
  periodic flush fires between legs at any time; it is given here the state at the end of the scan of its turn.
\<close>

section \<open>The process\<close>

record process =
  prConfig :: CrankerConfig
  prCranker :: cranker
  prDaemon :: daemon
  prDisk :: checkpoint_state
  prMetrics :: "cranker metrics"

text \<open>What \<open>main\<close> meets before its loop.\<close>

record boot_world =
  bbZod :: "zod_type \<Rightarrow> string \<Rightarrow> zod_value option"
  bbVars :: "string \<rightharpoonup> string"
  bbBound :: "nat option"
  bbReadKey :: "string \<Rightarrow> thrown + pubkey"
  bbRpc :: fogo_rpc
  bbPairConfig :: "thrown + PairConfig"
  bbNow :: int

definition loadKeypair :: "boot_world \<Rightarrow> string \<Rightarrow> thrown + pubkey" where
  "loadKeypair b path =
     (case bbReadKey b path of Inl _ \<Rightarrow> Inl (of_js_error (Error ''failed to load keypair'')) | Inr k \<Rightarrow> Inr k)"

text \<open>The metrics are up before anything that can fail for a reason of the outside; a socket that cannot be bound is an uncaught error.\<close>

definition bootProcess :: "web3_env \<Rightarrow> boot_world \<Rightarrow> checkpoint_state \<Rightarrow> thrown + process" where
  "bootProcess env b disk =
     rbind (lift (loadConfig env (bbZod b) (bbVars b))) (\<lambda>cfg.
       case startServer (bbBound b) (createMetrics (ccHeartbeatStaleMs cfg) (bbNow b)) of
         (False, _) \<Rightarrow> Inl (of_js_error (Error ''listen''))
       | (True, m) \<Rightarrow>
           rbind (loadKeypair b (ccKeypairPath cfg)) (\<lambda>keypair.
           rbind (startCranker env (bbRpc b) keypair (bbPairConfig b) (csDisk disk) cfg) (\<lambda>c.
             Inr \<lparr>prConfig = cfg, prCranker = c, prDaemon = startDaemon (daemonOptions cfg) (bbNow b) (Some newWakeFlag),
                  prDisk = disk, prMetrics = setStuckFlowProvider (\<lambda>c. stuckCounts (crTracker c)) m\<rparr>)))"

section \<open>A turn\<close>

text \<open>
  \<open>pnScanStart\<close>, \<open>pnScanEnds\<close> and \<open>pnAbortAt\<close> are the times at which the scan starts, at which it would settle (if ever) and of the
  shutdown signal; \<open>pnLegsDone\<close> is how many legs have run when the scan is cut off; \<open>pnScanChecks\<close> and \<open>pnNapChecks\<close> are the times at which the
  watchdog looks at the heartbeat, \<open>pnRetries\<close> and \<open>pnRetriesAsleep\<close> the retry signals of the operator.
\<close>

record process_turn =
  pnTurn :: turn
  pnIteration :: iteration
  pnLegsDone :: nat
  pnScanStart :: int
  pnScanEnds :: "int option"
  pnAbortAt :: "int option"
  pnRetries :: nat
  pnRetriesAsleep :: nat
  pnFlushes :: "(io_fault \<times> string) list"
  pnScanChecks :: "int list"
  pnNapChecks :: "int list"

definition cutScan :: "CrankerConfig \<Rightarrow> web3_env \<Rightarrow> nat \<Rightarrow> iteration \<Rightarrow> cranker \<Rightarrow> ((thrown + unit) \<times> cranker) option" where
  "cutScan cfg env n it c =
     (case selectTick (ccBackstopIntervalMs cfg) (ccRefundIntervalMs cfg) (itNow it) (crTicks c) of
        (backstop, sweeping, ticks) \<Rightarrow>
          map_option (\<lambda>(_, c'). (Inr (), c')) (runLegs cfg env backstop sweeping it (take n (itOrder it)) (c\<lparr>crTicks := ticks\<rparr>)))"

definition watchdogFires :: "CrankerConfig \<Rightarrow> int list \<Rightarrow> daemon \<Rightarrow> bool" where
  "watchdogFires cfg checks d = list_ex (watchdogKills (daemonOptions cfg) d) checks"

text \<open>When the deadline of a shutdown resolves: counted from the signal, or from now when the signal came before; never without one.\<close>

definition waitForShutdownDeadline :: "int \<Rightarrow> int option \<Rightarrow> int \<Rightarrow> int option" where
  "waitForShutdownDeadline now abortAt deadlineMs =
     (case abortAt of None \<Rightarrow> None | Some t \<Rightarrow> Some ((if t \<le> now then now else t) + deadlineMs))"

definition deadlineOf :: "CrankerConfig \<Rightarrow> process_turn \<Rightarrow> int option" where
  "deadlineOf cfg pt = waitForShutdownDeadline (pnScanStart pt) (pnAbortAt pt) (ccShutdownDeadlineMs cfg)"

definition scanLate :: "CrankerConfig \<Rightarrow> process_turn \<Rightarrow> bool" where
  "scanLate cfg pt \<longleftrightarrow>
     (case deadlineOf cfg pt of
        None \<Rightarrow> False
      | Some deadline \<Rightarrow> (case pnScanEnds pt of None \<Rightarrow> True | Some t \<Rightarrow> deadline < t))"

text \<open>When the race of the scan against the deadline settles.\<close>

definition raceEnds :: "CrankerConfig \<Rightarrow> process_turn \<Rightarrow> int option" where
  "raceEnds cfg pt = (if scanLate cfg pt then deadlineOf cfg pt else pnScanEnds pt)"

text \<open>The race of the scan against the deadline that a shutdown sets: the deadline resolves, so a scan it abandons counts as good.\<close>

definition raceScan :: "web3_env \<Rightarrow> process_turn \<Rightarrow> process \<Rightarrow> ((thrown + unit) \<times> cranker) option" where
  "raceScan env pt p =
     (if watchdogFires (prConfig p) (pnScanChecks pt) (prDaemon p) \<or> scanLate (prConfig p) pt
      then cutScan (prConfig p) env (pnLegsDone pt) (pnIteration pt) (prCranker p)
      else scanTick (prConfig p) env (pnIteration pt) (prCranker p))"

text \<open>A shutdown never waits for a scan that hangs.\<close>

lemma shutdown_bounded:
  assumes "pnAbortAt pt = Some t"
  shows "\<exists>r. raceEnds cfg pt = Some r \<and> r \<le> max t (pnScanStart pt) + ccShutdownDeadlineMs cfg"
  using assms by (auto simp: raceEnds_def scanLate_def deadlineOf_def waitForShutdownDeadline_def split: option.splits)

section \<open>Signals and crashes\<close>

text \<open>The handlers of \<open>SIGTERM\<close> and \<open>SIGINT\<close> are installed with \<open>once\<close>: a signal that comes a second time has its default effect and
  ends the process (\<open>None\<close>).\<close>

datatype ShutdownSignal = SIGTERM | SIGINT

record shutdown_handlers =
  shListening :: "ShutdownSignal set"
  shAborted :: bool

definition installShutdownHandlers :: shutdown_handlers where
  "installShutdownHandlers = \<lparr>shListening = {SIGTERM, SIGINT}, shAborted = False\<rparr>"

definition onShutdownSignal :: "ShutdownSignal \<Rightarrow> shutdown_handlers \<Rightarrow> shutdown_handlers option" where
  "onShutdownSignal sig h =
     (if sig \<in> shListening h then Some (h\<lparr>shListening := shListening h - {sig}, shAborted := True\<rparr>) else None)"

fun onShutdownSignals :: "ShutdownSignal list \<Rightarrow> shutdown_handlers \<Rightarrow> shutdown_handlers option" where
  "onShutdownSignals [] h = Some h"
| "onShutdownSignals (sig # sigs) h = Option.bind (onShutdownSignal sig h) (onShutdownSignals sigs)"

lemma signals_survived:
  "onShutdownSignals sigs installShutdownHandlers \<noteq> None \<longleftrightarrow> distinct sigs"
proof -
  have "onShutdownSignals sigs h \<noteq> None \<longleftrightarrow> distinct sigs \<and> set sigs \<subseteq> shListening h" for h
  proof (induction sigs arbitrary: h)
    case (Cons sig sigs)
    show ?case using Cons.IH [of "h\<lparr>shListening := shListening h - {sig}, shAborted := True\<rparr>"]
      by (auto simp: onShutdownSignal_def)
  qed simp
  then show ?thesis by (auto simp: installShutdownHandlers_def intro: ShutdownSignal.exhaust)
qed

text \<open>\<open>bootstrap\<close>: what ends the process with code 1, and the line written before. \<open>errName\<close> is the \<open>name\<close> of the error.\<close>

datatype crash = UnhandledRejection thrown | UncaughtException thrown | MainFailed thrown

fun bootstrapCrash :: "string \<Rightarrow> string \<Rightarrow> crash \<Rightarrow> nat \<times> string option" where
  "bootstrapCrash time errName (UnhandledRejection e) = (1, writeLogLine time Fatal ''unhandledRejection'' (errorFields errName e))"
| "bootstrapCrash time errName (UncaughtException e) = (1, writeLogLine time Fatal ''uncaughtException'' (errorFields errName e))"
| "bootstrapCrash time errName (MainFailed e) = (1, writeLogLine time Fatal ''unhandled error in main'' (errorFields errName e))"

lemma crash_reported: "\<exists>line. bootstrapCrash time errName e = (1, Some line) \<and> printable line"
  by (cases e) (use writeLogLine_text in auto)

section \<open>The turns\<close>

datatype process_end = Going | Returned | Killed

definition processTurn :: "(bytes \<Rightarrow> string) \<Rightarrow> web3_env \<Rightarrow> process_turn \<Rightarrow> process \<Rightarrow> (process_end \<times> process) option" where
  "processTurn sha env pt p =
     (let cfg = prConfig p; t = pnTurn pt; d = prDaemon p
      in if tnAborted t \<or> tnAbortedBeforeScan t then Some (Returned, p)
         else case raceScan env pt p of
           None \<Rightarrow> None
         | Some (r, c1) \<Rightarrow>
             let c2 = (retryNow ^^ pnRetries pt) c1;
                 disk = fold (\<lambda>(fault, nowIso). flushCheckpoint sha fault nowIso cfg c2) (pnFlushes pt) (prDisk p);
                 turnEnd = daemonTurn (daemonOptions cfg)
                   (t\<lparr>tnPreScan := Inr (), tnScan := r, tnSignals := crSignals c2 - crSignals (prCranker p),
                      tnSignalsAsleep := pnRetriesAsleep pt,
                      tnAbortedAfter := (tnAbortedAfter t \<or> scanLate cfg pt)\<rparr>) d
             in Some (if watchdogFires cfg (pnScanChecks pt) d then (Killed, p\<lparr>prCranker := c2, prDisk := disk\<rparr>)
                      else case turnEnd of
                        turn_end.Stop d' \<Rightarrow>
                          (Returned, p\<lparr>prCranker := c2, prDaemon := d', prDisk := disk, prMetrics := heartbeatSetAt (dmHeartbeat d') (prMetrics p)\<rparr>)
                      | ExitProcess \<Rightarrow> (Killed, p\<lparr>prCranker := c2, prDisk := disk\<rparr>)
                      | Nap _ d' \<Rightarrow>
                          (if watchdogFires cfg (pnNapChecks pt) d' then Killed else Going,
                           p\<lparr>prCranker := (retryNow ^^ pnRetriesAsleep pt) c2, prDaemon := d', prDisk := disk,
                             prMetrics := heartbeatSetAt (dmHeartbeat d') (prMetrics p)\<rparr>)))"

fun processLoop :: "(bytes \<Rightarrow> string) \<Rightarrow> web3_env \<Rightarrow> process_turn list \<Rightarrow> process \<Rightarrow> (process_end \<times> process) option" where
  "processLoop sha env [] p = Some (Going, p)"
| "processLoop sha env (pt # pts) p =
     (case processTurn sha env pt p of
        Some (Going, p') \<Rightarrow> processLoop sha env pts p'
      | r \<Rightarrow> r)"

text \<open>The \<open>finally\<close> of \<open>main\<close>; a process that is killed does not come to it.\<close>

definition mainFinally :: "(bytes \<Rightarrow> string) \<Rightarrow> io_fault \<Rightarrow> string \<Rightarrow> thrown option \<Rightarrow> process \<Rightarrow> process" where
  "mainFinally sha fault nowIso closeErr p =
     p\<lparr>prDisk := flushCheckpoint sha fault nowIso (prConfig p) (prCranker p) (prDisk p),
       prMetrics := snd (stopServer closeErr (prMetrics p))\<rparr>"

definition runMain ::
  "(bytes \<Rightarrow> string) \<Rightarrow> web3_env \<Rightarrow> process_turn list \<Rightarrow> io_fault \<Rightarrow> string \<Rightarrow> thrown option \<Rightarrow> process \<Rightarrow> (process_end \<times> process) option" where
  "runMain sha env turns fault nowIso closeErr p =
     map_option (\<lambda>(e, p'). (e, if e = Returned then mainFinally sha fault nowIso closeErr p' else p')) (processLoop sha env turns p)"

section \<open>Sightings\<close>

text \<open>A store that sightings at the sources lead to.\<close>

inductive sighted :: "(nat \<times> string) set \<Rightarrow> WatermarkStore \<Rightarrow> WatermarkStore \<Rightarrow> bool" for srcs wm where
  sighted_none: "sighted srcs wm wm"
| sighted_one: "sighted srcs wm wm' \<Longrightarrow> (c, e) \<in> srcs \<Longrightarrow> sighted srcs wm (recordSeen wm' c e q)"

lemma sighted_trans: "sighted srcs b c \<Longrightarrow> sighted srcs a b \<Longrightarrow> sighted srcs a c"
  by (induction rule: sighted.induct) (auto intro: sighted.intros)

lemma nul_free_key: "nul_free e \<Longrightarrow> nul_free (watermarkKey c e)"
  using nul_free_toString [of "int c"] by (auto simp: nul_free_def watermarkKey_def bigint_toString_def)

lemma store_ok_recordSeen:
  assumes "store_ok s" "nul_free e"
  shows "store_ok (recordSeen s c e q)"
proof -
  have "nul_free (fst x)" if "x \<in> set (jm_set (watermarkKey c e) q s)" for x
  proof -
    from that have "fst x \<in> insert (watermarkKey c e) (fst ` set s)"
      using dom_update [of "watermarkKey c e" q s] by (auto simp: jm_set_def)
    with assms nul_free_key show ?thesis by (auto simp: store_ok_def list_all_iff)
  qed
  then have "list_all (\<lambda>(k, _). nul_free k) (recordSeen s c e q)"
    using assms by (auto simp: store_ok_def recordSeen_def Let_def list_all_iff)
  with assms show ?thesis by (simp add: store_ok_def jm_ok_recordSeen composite_recordSeen)
qed

lemma watermark_le_recordSeen: "store_ok s \<Longrightarrow> watermark s c' e' \<le> watermark (recordSeen s c e q) c' e'"
  by (simp add: store_ok_def watermark_recordSeen)

lemma sighted_store:
  "sighted srcs a b \<Longrightarrow> store_ok a \<Longrightarrow> (\<And>c e. (c, e) \<in> srcs \<Longrightarrow> nul_free e) \<Longrightarrow>
     store_ok b \<and> (\<forall>c e. watermark a c e \<le> watermark b c e)"
proof (induction rule: sighted.induct)
  case (sighted_one wm' c e q)
  then have "store_ok wm'" "nul_free e" "watermark a c' e' \<le> watermark wm' c' e'" for c' e' by auto
  with store_ok_recordSeen watermark_le_recordSeen show ?case by (metis order_trans)
qed simp

lemma sighted_apply:
  assumes "esWatermarks es = Some s" "sighted srcs wm s" "(enFogoWormholeChainId opts, e) \<in> srcs"
  shows "\<exists>s'. esWatermarks (fold (\<lambda>(r, _, _). applyResolution opts e r) xs es) = Some s' \<and> sighted srcs wm s'"
  using assms(1,2)
proof (induction xs arbitrary: es s)
  case (Cons x xs)
  obtain r key ms where x: "x = (r, key, ms)" by (cases x)
  let ?es = "applyResolution opts e r es"
  have "\<exists>s'. esWatermarks ?es = Some s' \<and> sighted srcs wm s'"
    using Cons.prems assms(3) by (auto simp: applyResolution_def intro: sighted_one)
  with Cons.IH x show ?case by auto
qed simp

lemma sighted_pages:
  assumes "(enFogoWormholeChainId opts, enFogoUsdcEmitterHex opts) \<in> srcs" "(enFogoWormholeChainId opts, enFogoOnycEmitterHex opts) \<in> srcs"
  shows "esWatermarks es = Some s \<Longrightarrow> sighted srcs wm s \<Longrightarrow> runPages ctx opts pc ab n pgs es = (u, es') \<Longrightarrow>
    \<exists>s'. esWatermarks es' = Some s' \<and> sighted srcs wm s'"
proof (induction pgs arbitrary: n es s)
  case (Cons pg pgs)
  obtain leg items where pg: "pg = (leg, items)" by (cases pg)
  obtain r es1 where h: "harvestPage ctx opts pc (ab n) leg items es = (r, es1)" by fastforce
  have memo: "esWatermarks (fold memoize rs es) = Some s" for rs using Cons.prems(1) by (simp add: out_memoize_all)
  have "(enFogoWormholeChainId opts, if leg = Deposit then enFogoUsdcEmitterHex opts else enFogoOnycEmitterHex opts) \<in> srcs"
    using assms by simp
  from sighted_apply [OF memo Cons.prems(2) this] memo Cons.prems(2) h
  have "\<exists>s'. esWatermarks es1 = Some s' \<and> sighted srcs wm s'"
    by (auto simp: harvestPage_def Let_def split: sum.splits if_splits)
  with Cons pg h show ?case by (auto split: sum.splits if_splits)
qed auto

lemma runEnumerator_sighted:
  assumes "runEnumerator sw (enumeratorOptions cfg bypass) memo wm = (r, memo', wm', ms)"
  shows "sighted (sourcesOf cfg ts) wm wm'"
proof -
  let ?o = "enumeratorOptions cfg bypass" and ?c = "swCtx sw"
  obtain res es where e: "enumerateFlows ?c ?o (swPages sw) (swAbortedAt sw) (swSchedule sw) (swAborted sw) memo (Some wm) = (res, es)"
    by fastforce
  then have out: "wm' = ifNone (esWatermarks es) wm" using assms by (auto simp: runEnumerator_def)
  show ?thesis
  proof (cases "acFetchConfig ?c")
    case (Inl err)
    with e out show ?thesis by (auto simp: enumerateFlows_def Let_def intro: sighted_none)
  next
    case (Inr pc)
    from enumerateFlows_run [OF e Inr] obtain pgs u where
      run: "runPages ?c ?o pc (swAborted sw) 0 pgs \<lparr>esOut = [], esCache = memo, esWatermarks = Some wm, esMetrics = []\<rparr> = (u, es)" by metis
    from sighted_pages [OF _ _ _ sighted_none run, of "sourcesOf cfg ts"] out show ?thesis
      by (auto simp: sourcesOf_def enumeratorOptions_def)
  qed
qed

lemma bridge_scan_sighted:
  assumes "scanAndRedeemBridge w target maxPages seen (Some wm) s = (r, st)" "target \<in> set ts"
  shows "sighted (sourcesOf cfg ts) wm (ifNone (bxWatermarks st) wm)"
proof -
  have src: "(btSourceChainId target, btSourceEmitterHex target) \<in> sourcesOf cfg ts" using assms(2) by (auto simp: sourcesOf_def)
  have "\<exists>m'. bxWatermarks (fold (\<lambda>i. redeemItem (vw i) target (work ! i)) is st0) = Some m' \<and> sighted (sourcesOf cfg ts) wm m'"
    if "bxWatermarks st0 = Some m" "sighted (sourcesOf cfg ts) wm m" for vw work "is" st0 m
    using that
  proof (induction "is" arbitrary: st0 m)
    case (Cons i "is")
    have "\<exists>m'. bxWatermarks (redeemItem (vw i) target (work ! i) st0) = Some m' \<and> sighted (sourcesOf cfg ts) wm m'"
      using Cons.prems sighted_one [OF Cons.prems(2) src] by (auto simp: redeemItem_def Let_def split: prod.split)
    with Cons.IH show ?case by auto
  qed simp
  note loop = this [OF _ sighted_none]
  show ?thesis
  proof (cases rule: scan_cases [OF assms(1)])
    case 1
    then show ?thesis by (simp add: bridgeStart_def sighted_none)
  next
    case (2 work)
    have "bxWatermarks (bridgeStart s (Some wm) seen) = Some wm" by (simp add: bridgeStart_def)
    from loop [OF this] 2(2) show ?thesis by (metis ifNone_simps(2))
  qed
qed

section \<open>What every scan keeps\<close>

text \<open>Unlike \<open>cranker_ok\<close> this holds of a process that is shutting down as well: the tracker may still hold a flow in flight.\<close>

definition alive :: "CrankerConfig \<Rightarrow> cranker \<Rightarrow> cranker \<Rightarrow> bool" where
  "alive cfg c0 c \<longleftrightarrow> crTargets c = crTargets c0 \<and> tracker_ok (crTracker c) \<and>
     sighted (sourcesOf cfg (crTargets c0)) (crWatermarks c0) (crWatermarks c)"

lemma scan_settles:
  assumes "tracker_ok t"
  shows "\<exists>r st t'. scanAndAdvance env aborted clock planClock default_fns enumerated p w seen (Some t) = Some (r, st, Some t') \<and> tracker_ok t'"
proof (cases "aborted w \<or> isl enumerated")
  case True
  then show ?thesis using assms by (cases enumerated) (auto simp: scanAndAdvance_def Let_def)
next
  case False
  then obtain flows where f: "enumerated = Inr flows" by (cases enumerated) auto
  obtain tasks skips tr where p: "planTasks env default_fns planClock 0 flows (Some t) = (tasks, skips, tr)" by (metis prod_cases3)
  have any: "busy_within t' UNIV" for t' by (simp add: busy_within_def)
  from planTasks_busy [OF assms any p] obtain t1 where t1: "tr = Some t1" "tracker_ok t1" by blast
  obtain st t2 where "runTasks env aborted clock default_fns (map (\<lambda>i. tasks ! i) (invoked p))
      \<lparr>scWorld = w, scMemo = \<lparr>cmSeen = seen, cmIter = []\<rparr>, scProgress = False, scDispatched = []\<rparr> (Some t1) = Some (st, Some t2)" "tracker_ok t2"
    using runTasks_busy [OF t1(2) any] by blast
  with False f p t1(1) show ?thesis by (simp add: scanAndAdvance_def Let_def)
qed

lemma flowLeg_alive:
  assumes "alive cfg c0 c"
  shows "\<exists>r c'. flowLeg cfg env backstop it c = Some (r, c') \<and> alive cfg c0 c'"
proof -
  let ?memo = "if backstop then crBackstopMemo c else crIncrementalMemo c"
  obtain enumerated memo' wm ms where
    e: "(if itAborted it 0 then (Inr [], ?memo, crWatermarks c, [])
         else runEnumerator (itFlowSweep it) (enumeratorOptions cfg backstop) ?memo (crWatermarks c)) = (enumerated, memo', wm, ms)"
    by (metis prod_cases4)
  have "sighted (sourcesOf cfg (crTargets c0)) (crWatermarks c) wm"
    using e runEnumerator_sighted by (auto intro: sighted_none split: if_splits)
  with assms have wm: "sighted (sourcesOf cfg (crTargets c0)) (crWatermarks c0) wm" by (auto simp: alive_def intro: sighted_trans)
  let ?p = "itFlowPool it (length (plannedTasks env it enumerated (crTracker c)))"
  obtain r st t' where "scanAndAdvance env (\<lambda>w. itAborted it (wTick w)) (\<lambda>w. itClock it (wTick w)) (itPlanClock it) default_fns
      enumerated ?p (iterationWorld it c) (Some (crSeenAdvanceErrors c)) (Some (crTracker c)) = Some (r, st, Some t')" "tracker_ok t'"
    using scan_settles assms unfolding alive_def by blast
  with assms wm show ?thesis by (simp add: flowLeg_def Let_def e alive_def)
qed

lemma refundLeg_alive:
  assumes "alive cfg c0 c"
  shows "alive cfg c0 (snd (refundLeg cfg env it c))"
proof -
  obtain enumerated memo' wm ms where
    e: "(if itAborted it 0 then (Inr [], crRefundMemo c, crWatermarks c, [])
         else runEnumerator (itRefundSweep it) (enumeratorOptions cfg True) (crRefundMemo c) (crWatermarks c)) = (enumerated, memo', wm, ms)"
    by (metis prod_cases4)
  have "sighted (sourcesOf cfg (crTargets c0)) (crWatermarks c) wm"
    using e runEnumerator_sighted by (auto intro: sighted_none split: if_splits)
  with assms show ?thesis by (auto simp: refundLeg_def Let_def e alive_def intro: sighted_trans split: prod.split)
qed

lemma bridgeLeg_alive:
  assumes "alive cfg c0 c" "i < length (crTargets c0)"
  shows "alive cfg c0 (snd (bridgeLeg cfg it i c))"
proof -
  obtain r st where b: "scanAndRedeemBridge (itBridge it i) (crTargets c ! i) (nat (ccWormholescanMaxPages cfg)) (Some (crSeenBridgeErrors c))
             (Some (crWatermarks c)) (crBridge c) = (r, st)" by fastforce
  have "crTargets c ! i \<in> set (crTargets c0)" using assms by (simp add: alive_def)
  from bridge_scan_sighted [OF b this, of cfg] have
    "sighted (sourcesOf cfg (crTargets c0)) (crWatermarks c) (ifNone (bxWatermarks st) (crWatermarks c))" .
  moreover have "snd (bridgeLeg cfg it i c) = c\<lparr>crWatermarks := ifNone (bxWatermarks st) (crWatermarks c),
      crSeenBridgeErrors := ifNone (cmSeen (bxMemo st)) [], crBridge := bxState st,
      crSignals := crSignals c + (case r of Inr rep \<Rightarrow> if brWoke rep then 1 else 0 | Inl _ \<Rightarrow> 0)\<rparr>"
    by (simp add: bridgeLeg_def b)
  ultimately show ?thesis using assms(1) by (auto simp: alive_def intro: sighted_trans)
qed

lemma runLegs_alive:
  "alive cfg c0 c \<Longrightarrow> set legs \<subseteq> set (legsOf c0) \<Longrightarrow>
     \<exists>rs c'. runLegs cfg env backstop sweeping it legs c = Some (rs, c') \<and> alive cfg c0 c'"
proof (induction legs arbitrary: c)
  case (Cons leg legs)
  have "\<exists>r c'. runLeg cfg env backstop sweeping it leg c = Some (r, c') \<and> alive cfg c0 c'"
  proof (cases leg)
    case FlowLeg
    then show ?thesis using flowLeg_alive [OF Cons.prems(1)] by (simp add: runLeg_def)
  next
    case RefundLeg
    then show ?thesis using refundLeg_alive [OF Cons.prems(1), of env it] Cons.prems(1) by (cases "refundLeg cfg env it c") (auto simp: runLeg_def)
  next
    case (BridgeLeg i)
    with Cons.prems(2) have "i < length (crTargets c0)" by (auto simp: legsOf_def)
    from bridgeLeg_alive [OF Cons.prems(1) this, of it] BridgeLeg show ?thesis by (cases "bridgeLeg cfg it i c") (auto simp: runLeg_def)
  qed
  then obtain r c1 where "runLeg cfg env backstop sweeping it leg c = Some (r, c1)" "alive cfg c0 c1" by blast
  with Cons.IH [of c1] Cons.prems(2) show ?case by fastforce
qed simp

lemma raceScan_alive:
  assumes "alive (prConfig p) c0 (prCranker p)" "set (itOrder (pnIteration pt)) \<subseteq> set (legsOf c0)"
  shows "\<exists>r c. raceScan env pt p = Some (r, c) \<and> alive (prConfig p) c0 c"
proof -
  let ?cfg = "prConfig p" and ?it = "pnIteration pt"
  obtain b s ticks where t: "selectTick (ccBackstopIntervalMs ?cfg) (ccRefundIntervalMs ?cfg) (itNow ?it) (crTicks (prCranker p)) = (b, s, ticks)"
    by (metis prod_cases3)
  have a: "alive ?cfg c0 (prCranker p\<lparr>crTicks := ticks\<rparr>)" using assms(1) by (simp add: alive_def)
  have "set (take (pnLegsDone pt) (itOrder ?it)) \<subseteq> set (legsOf c0)" using assms(2) set_take_subset by fastforce
  from runLegs_alive [OF a this, of env b s ?it] runLegs_alive [OF a assms(2), of env b s ?it] show ?thesis
    by (auto simp: raceScan_def cutScan_def scanTick_def runScanIteration_def t alive_def split: prod.split)
qed

lemma retryNow_alive: "alive cfg c0 c \<Longrightarrow> alive cfg c0 ((retryNow ^^ n) c)"
proof (induction n)
  case (Suc n)
  have "alive cfg c0 (retryNow c')" if "alive cfg c0 c'" for c'
    using that tracker_ok_op [of "crTracker c'" Clear] by (simp add: alive_def retryNow_def)
  with Suc show ?case by simp
qed simp

section \<open>Durable storage\<close>

text \<open>What the process relies on of its checkpoint: a save that succeeds can be loaded, one that fails leaves what was there, and both
  keep the storage coherent. \<open>same\<close> is equality of stores as far as a reader can tell.\<close>

locale durable_store =
  fixes coherent :: "'d \<Rightarrow> bool" and valid :: "'s \<Rightarrow> bool"
    and save :: "'f \<Rightarrow> 's \<Rightarrow> 'd \<Rightarrow> bool \<times> 'd" and loaded :: "'d \<Rightarrow> 's option" and same :: "'s \<Rightarrow> 's \<Rightarrow> bool"
  assumes coherent_save: "coherent d \<Longrightarrow> valid s \<Longrightarrow> coherent (snd (save f s d))"
    and loaded_saved: "coherent d \<Longrightarrow> valid s \<Longrightarrow> fst (save f s d) \<Longrightarrow> \<exists>s'. loaded (snd (save f s d)) = Some s' \<and> same s' s"
    and loaded_failed: "coherent d \<Longrightarrow> valid s \<Longrightarrow> \<not> fst (save f s d) \<Longrightarrow> loaded (snd (save f s d)) = loaded d"
begin

text \<open>After any number of attempts to save \<open>s\<close>, what is loaded is \<open>s\<close> or what was there before.\<close>

lemma loaded_saves:
  assumes "coherent d" "valid s"
  shows "coherent (fold (\<lambda>f d. snd (save f s d)) fs d) \<and>
    (loaded (fold (\<lambda>f d. snd (save f s d)) fs d) = loaded d \<or>
     (\<exists>s'. loaded (fold (\<lambda>f d. snd (save f s d)) fs d) = Some s' \<and> same s' s))"
  using assms(1)
proof (induction fs arbitrary: d)
  case (Cons f fs)
  let ?d = "snd (save f s d)"
  have "loaded ?d = loaded d \<or> (\<exists>s'. loaded ?d = Some s' \<and> same s' s)"
    using loaded_saved [OF Cons.prems assms(2)] loaded_failed [OF Cons.prems assms(2)] by blast
  with Cons.IH [OF coherent_save [OF Cons.prems assms(2), of f]] show ?case by auto
qed simp

end

definition loadedMarks :: "string \<Rightarrow> checkpoint_state \<Rightarrow> WatermarkStore option" where
  "loadedMarks path d = (case watermarksFromCheckpoint (loadCheckpoint (csDisk d) path) of Inl _ \<Rightarrow> None | Inr s \<Rightarrow> Some s)"

definition saveMarks ::
  "(bytes \<Rightarrow> string) \<Rightarrow> string \<Rightarrow> io_fault \<times> string \<Rightarrow> WatermarkStore \<Rightarrow> checkpoint_state \<Rightarrow> bool \<times> checkpoint_state" where
  "saveMarks sha path = (\<lambda>(fault, nowIso) store d.
     case saveCheckpoint sha fault nowIso path store d of (r, d') \<Rightarrow> (\<not> isl r, d'))"

definition same_marks :: "WatermarkStore \<Rightarrow> WatermarkStore \<Rightarrow> bool" where
  "same_marks s s' \<longleftrightarrow> jm_get s = jm_get s'"

lemma coherent_loads:
  assumes "checkpoint_coherent sha path d" "jm_get (csLastWrittenHash d) path \<noteq> None"
  shows "loadedMarks path d \<noteq> None"
  using assms by (auto simp: checkpoint_coherent_def loadedMarks_def loadCheckpoint_def watermarksFromCheckpoint_def)

lemma saved_hash:
  assumes "saveCheckpoint sha fault nowIso path store d = (Inr b, d')" "jm_ok (csLastWrittenHash d)"
  shows "jm_get (csLastWrittenHash d') path \<noteq> None"
  using assms by (auto simp: saveCheckpoint_def Let_def jm.get_put split: if_splits io_fault.splits)

lemma reloaded_loadedMarks: "reloaded d path k = Option.bind (loadedMarks path d) (\<lambda>s. jm_get s k)"
  by (simp add: reloaded_def loadedMarks_def split: sum.split)

interpretation cp: durable_store "\<lambda>d. inj sha \<and> checkpoint_coherent sha path d" store_ok "saveMarks sha path" "loadedMarks path" same_marks
  for sha :: "bytes \<Rightarrow> string" and path :: string
proof
  fix d :: checkpoint_state and s :: WatermarkStore and f :: "io_fault \<times> string"
  assume d: "inj sha \<and> checkpoint_coherent sha path d" and s: "store_ok s"
  obtain fault nowIso where f: "f = (fault, nowIso)" by (cases f)
  obtain r d' where sv: "saveCheckpoint sha fault nowIso path s d = (r, d')" by fastforce
  note law = checkpoint_save_load [OF _ _ s sv]
  have out: "saveMarks sha path f s d = (\<not> isl r, d')" by (simp add: saveMarks_def f sv)
  show "inj sha \<and> checkpoint_coherent sha path (snd (saveMarks sha path f s d))" using law d out by simp
  show "\<exists>s'. loadedMarks path (snd (saveMarks sha path f s d)) = Some s' \<and> same_marks s' s" if "fst (saveMarks sha path f s d)"
  proof -
    from that out obtain b where r: "r = Inr b" by (cases r) auto
    have c: "checkpoint_coherent sha path d'" "\<And>k. reloaded d' path k = jm_get s k" using law d r by auto
    have "jm_get (csLastWrittenHash d') path \<noteq> None"
      using saved_hash [OF sv [unfolded r]] d by (simp add: checkpoint_coherent_def)
    from coherent_loads [OF c(1) this] obtain s' where s': "loadedMarks path d' = Some s'" by blast
    with c(2) have "same_marks s' s" by (auto simp: same_marks_def reloaded_loadedMarks)
    with s' out show ?thesis by simp
  qed
  show "loadedMarks path (snd (saveMarks sha path f s d)) = loadedMarks path d" if "\<not> fst (saveMarks sha path f s d)"
  proof -
    from that out obtain e where "r = Inl e" by (cases r) auto
    with law [of "[]"] d out show ?thesis by (simp add: loadedMarks_def loadCheckpoint_def)
  qed
qed

section \<open>The invariant of the process\<close>

text \<open>What the file holds lies between what the process was started with and what it has now.\<close>

definition persisted :: "(bytes \<Rightarrow> string) \<Rightarrow> process \<Rightarrow> process \<Rightarrow> bool" where
  "persisted sha p0 p \<longleftrightarrow> prConfig p = prConfig p0 \<and> alive (prConfig p0) (prCranker p0) (prCranker p) \<and>
     checkpoint_coherent sha (ccCheckpointPath (prConfig p0)) (prDisk p) \<and>
     (\<exists>s. loadedMarks (ccCheckpointPath (prConfig p0)) (prDisk p) = Some s \<and> store_ok s \<and>
        (\<forall>c e. watermark (crWatermarks (prCranker p0)) c e \<le> watermark s c e \<and>
               watermark s c e \<le> watermark (crWatermarks (prCranker p)) c e))"

text \<open>The emitters and the keys of the file are free of NUL characters, which the hash of the file uses as separators.\<close>

definition plain_marks :: "process \<Rightarrow> bool" where
  "plain_marks p \<longleftrightarrow> store_ok (crWatermarks (prCranker p)) \<and>
     (\<forall>c e. (c, e) \<in> sourcesOf (prConfig p) (crTargets (prCranker p)) \<longrightarrow> nul_free e)"

lemma flush_saves:
  "ccCheckpointPath cfg \<noteq> [] \<Longrightarrow>
     flushCheckpoint sha fault nowIso cfg c d = snd (saveMarks sha (ccCheckpointPath cfg) (fault, nowIso) (crWatermarks c) d)"
  by (simp add: flushCheckpoint_def saveMarks_def split: prod.split)

lemma flushes_save:
  "ccCheckpointPath cfg \<noteq> [] \<Longrightarrow> fold (\<lambda>(fault, nowIso). flushCheckpoint sha fault nowIso cfg c) fs d =
     fold (\<lambda>f d. snd (saveMarks sha (ccCheckpointPath cfg) f (crWatermarks c) d)) fs d"
  by (induction fs arbitrary: d) (auto simp: flush_saves)

lemma same_watermark: "same_marks s s' \<Longrightarrow> watermark s c e = watermark s' c e"
  by (simp add: same_marks_def watermark_def)

lemma loadedMarks_ok: "loadedMarks path d = Some s \<Longrightarrow> jm_ok s"
  by (auto simp: loadedMarks_def watermarksFromCheckpoint_def restore_ok split: sum.splits option.splits watermarks_field.splits)

lemma same_store_ok:
  assumes "same_marks s s'" "jm_ok s" "store_ok s'"
  shows "store_ok s"
proof -
  have "k \<in> fst ` set s \<longleftrightarrow> k \<in> fst ` set s'" for k
    using assms(1) by (metis jm_has_def jm_has_iff same_marks_def)
  then have "fst ` set s = fst ` set s'" by blast
  moreover have "store_ok t \<longleftrightarrow> jm_ok t \<and> (\<forall>k \<in> fst ` set t. CHR '':'' \<in> set k \<and> nul_free k)" for t
    by (auto simp: store_ok_def composite_keys_def list_all_iff)
  ultimately show ?thesis using assms(2,3) by metis
qed

lemma alive_store:
  assumes "plain_marks p0" "alive (prConfig p0) (prCranker p0) c"
  shows "store_ok (crWatermarks c) \<and> (\<forall>ch e. watermark (crWatermarks (prCranker p0)) ch e \<le> watermark (crWatermarks c) ch e)"
  using assms sighted_store unfolding plain_marks_def alive_def by blast

text \<open>The state after a scan and its flushes: the new marks are at least the old ones, so what was in the file still lies below them.\<close>

lemma alive_trans: "alive cfg c0 c \<Longrightarrow> alive cfg c c' \<Longrightarrow> alive cfg c0 c'"
  by (auto simp: alive_def intro: sighted_trans)

lemma alive_refl: "alive cfg c0 c \<Longrightarrow> alive cfg c c"
  by (simp add: alive_def sighted_none)

lemma persisted_flushes:
  assumes "inj sha" "plain_marks p0" "ccCheckpointPath (prConfig p0) \<noteq> []" "persisted sha p0 p"
    and "alive (prConfig p0) (prCranker p) c"
  shows "persisted sha p0 (p\<lparr>prCranker := c, prDisk := fold (\<lambda>(fault, nowIso). flushCheckpoint sha fault nowIso (prConfig p0) c) fs (prDisk p)\<rparr>)"
proof -
  let ?path = "ccCheckpointPath (prConfig p0)" and ?start = "crWatermarks (prCranker p0)" and ?now = "crWatermarks (prCranker p)"
  let ?d = "fold (\<lambda>f d. snd (saveMarks sha ?path f (crWatermarks c) d)) fs (prDisk p)"
  from assms(4) obtain s where old: "prConfig p = prConfig p0" "checkpoint_coherent sha ?path (prDisk p)" "loadedMarks ?path (prDisk p) = Some s" "store_ok s"
    "\<And>ch e. watermark ?start ch e \<le> watermark s ch e \<and> watermark s ch e \<le> watermark ?now ch e"
    and a: "alive (prConfig p0) (prCranker p0) (prCranker p)" unfolding persisted_def by blast
  have c: "alive (prConfig p0) (prCranker p0) c" by (rule alive_trans [OF a assms(5)])
  note ok = alive_store [OF assms(2) c]
  have up: "watermark ?now ch e \<le> watermark (crWatermarks c) ch e" for ch e
    using sighted_store [of _ ?now] alive_store [OF assms(2) a] assms(2,5) a unfolding plain_marks_def alive_def by metis
  from cp.loaded_saves [of sha ?path "prDisk p" "crWatermarks c" fs] assms(1) old(2) ok have
    new: "checkpoint_coherent sha ?path ?d" "loadedMarks ?path ?d = loadedMarks ?path (prDisk p) \<or>
      (\<exists>s'. loadedMarks ?path ?d = Some s' \<and> same_marks s' (crWatermarks c))" by auto
  have "\<exists>s'. loadedMarks ?path ?d = Some s' \<and> store_ok s' \<and> (\<forall>ch e. watermark ?start ch e \<le> watermark s' ch e \<and> watermark s' ch e \<le> watermark (crWatermarks c) ch e)"
    using new(2)
  proof
    assume "loadedMarks ?path ?d = loadedMarks ?path (prDisk p)"
    then have "loadedMarks ?path ?d = Some s" using old(3) by simp
    moreover have "watermark s ch e \<le> watermark (crWatermarks c) ch e" for ch e using old(5) up order_trans by blast
    ultimately show ?thesis using old(4,5) by blast
  next
    assume "\<exists>s'. loadedMarks ?path ?d = Some s' \<and> same_marks s' (crWatermarks c)"
    then obtain s' where s': "loadedMarks ?path ?d = Some s'" "same_marks s' (crWatermarks c)" by blast
    then have "store_ok s'" using same_store_ok loadedMarks_ok ok by blast
    with s' ok same_watermark [OF s'(2)] show ?thesis by simp
  qed
  with new(1) old(1) c flushes_save [OF assms(3), of sha c fs "prDisk p"] show ?thesis by (simp add: persisted_def)
qed

lemma persisted_cranker:
  assumes "persisted sha p0 p" "alive (prConfig p0) (prCranker p) c" "crWatermarks c = crWatermarks (prCranker p)"
  shows "persisted sha p0 (p\<lparr>prCranker := c\<rparr>)"
  using assms alive_trans unfolding persisted_def by auto

lemma persisted_at:
  "persisted sha p0 q \<Longrightarrow> prConfig p = prConfig q \<Longrightarrow> prCranker p = prCranker q \<Longrightarrow> prDisk p = prDisk q \<Longrightarrow> persisted sha p0 p"
  by (simp add: persisted_def)

lemma retryNow_marks: "crWatermarks ((retryNow ^^ n) c) = crWatermarks c"
  by (induction n) (simp_all add: retryNow_def)

lemma persisted_turn:
  assumes "inj sha" "plain_marks p0" "ccCheckpointPath (prConfig p0) \<noteq> []" "persisted sha p0 p"
    and "set (itOrder (pnIteration pt)) \<subseteq> set (legsOf (prCranker p0))"
  shows "\<exists>e p'. processTurn sha env pt p = Some (e, p') \<and> persisted sha p0 p'"
proof (cases "tnAborted (pnTurn pt) \<or> tnAbortedBeforeScan (pnTurn pt)")
  case True
  with assms(4) show ?thesis by (simp add: processTurn_def Let_def)
next
  case False
  have cfg: "prConfig p = prConfig p0" and a: "alive (prConfig p0) (prCranker p0) (prCranker p)" using assms(4) by (simp_all add: persisted_def)
  then have "legsOf (prCranker p) = legsOf (prCranker p0)" by (simp add: alive_def legsOf_def)
  with raceScan_alive [of p "prCranker p" pt env] alive_refl [OF a] assms(5) cfg obtain r c1 where
    scan: "raceScan env pt p = Some (r, c1)" "alive (prConfig p0) (prCranker p) c1" by auto
  let ?c = "(retryNow ^^ pnRetries pt) c1"
  let ?p = "p\<lparr>prCranker := ?c, prDisk := fold (\<lambda>(fault, nowIso). flushCheckpoint sha fault nowIso (prConfig p0) ?c) (pnFlushes pt) (prDisk p)\<rparr>"
  let ?c' = "(retryNow ^^ pnRetriesAsleep pt) ?c"
  have c: "alive (prConfig p0) (prCranker p) ?c" by (rule retryNow_alive [OF scan(2)])
  from persisted_flushes [OF assms(1-4) c] have inv: "persisted sha p0 ?p" .
  have "persisted sha p0 (?p\<lparr>prCranker := ?c'\<rparr>)"
    by (rule persisted_cranker [OF inv]) (use retryNow_alive [OF alive_refl [OF c]] in \<open>simp_all add: retryNow_marks\<close>)
  note asleep = this
  show ?thesis using False scan(1) cfg inv
    by (auto simp: processTurn_def Let_def cong: turn_end.case_cong intro: persisted_at [OF inv] persisted_at [OF asleep] split: turn_end.split)
qed

lemma persisted_loop:
  assumes "inj sha" "plain_marks p0" "ccCheckpointPath (prConfig p0) \<noteq> []"
  shows "persisted sha p0 p \<Longrightarrow> \<forall>pt \<in> set pts. set (itOrder (pnIteration pt)) \<subseteq> set (legsOf (prCranker p0)) \<Longrightarrow>
    \<exists>e p'. processLoop sha env pts p = Some (e, p') \<and> persisted sha p0 p'"
proof (induction pts arbitrary: p)
  case (Cons pt pts)
  from persisted_turn [OF assms Cons.prems(1), of pt env] Cons.prems(2) obtain e p1 where
    t: "processTurn sha env pt p = Some (e, p1)" "persisted sha p0 p1" by auto
  with Cons.IH [OF t(2)] Cons.prems(2) show ?case by (cases e) auto
qed simp

text \<open>A fresh process remembers no hash; its file is what it was started with.\<close>

lemma boot_cases:
  assumes "bootProcess env b disk = Inr p"
  obtains keypair where "loadConfig env (bbZod b) (bbVars b) = Inr (prConfig p)" "bbBound b \<noteq> None"
    "loadKeypair b (ccKeypairPath (prConfig p)) = Inr keypair"
    "startCranker env (bbRpc b) keypair (bbPairConfig b) (csDisk disk) (prConfig p) = Inr (prCranker p)" "prDisk p = disk"
  using assms unfolding bootProcess_def lift_def
  by (auto simp: startServer_def createMetrics_def elim!: rbind_InrE split: sum.splits option.splits prod.splits bool.splits)

lemma start_marks:
  assumes "startCranker env rpc keypair pairConfig readFile cfg = Inr c" "ccCheckpointPath cfg \<noteq> []"
  shows "watermarksFromCheckpoint (loadCheckpoint readFile (ccCheckpointPath cfg)) = Inr (crWatermarks c)"
  using assms unfolding startCranker_def lift_def by (auto elim!: rbind_InrE split: sum.splits)

text \<open>A start that succeeded does so again when only the file has changed, as long as it can be read.\<close>

lemma start_again:
  assumes "startCranker env rpc keypair pairConfig readFile cfg = Inr c" "ccCheckpointPath cfg \<noteq> []"
    and "watermarksFromCheckpoint (loadCheckpoint readFile' (ccCheckpointPath cfg)) = Inr s"
  shows "\<exists>c'. startCranker env rpc keypair pairConfig readFile' cfg = Inr c' \<and> crWatermarks c' = s"
  using assms unfolding startCranker_def lift_def by (auto elim!: rbind_InrE split: sum.splits)

lemma persisted_boot:
  assumes "bootProcess env b disk = Inr p" "csLastWrittenHash disk = []" "ccCheckpointPath (prConfig p) \<noteq> []"
    and "store_ok (crWatermarks (prCranker p))"
  shows "persisted sha p p"
proof -
  from boot_cases [OF assms(1)] obtain keypair where
    s: "startCranker env (bbRpc b) keypair (bbPairConfig b) (csDisk disk) (prConfig p) = Inr (prCranker p)" "prDisk p = disk" .
  from startCranker_ok [OF s(1)] have "alive (prConfig p) (prCranker p) (prCranker p)" by (simp add: cranker_ok_def alive_def sighted_none)
  then show ?thesis using start_marks [OF s(1) assms(3)] s(2) assms(2,4)
    by (simp add: persisted_def loadedMarks_def checkpoint_coherent_def)
qed

text \<open>The configuration admits emitters in hexadecimal only, so the keys under which the process records are plain.\<close>

lemma probeTarget_emitter: "probeTarget env rpc name signer prog wh mint hex mode = Inr t \<Longrightarrow> btSourceEmitterHex t = hex"
  by (auto simp: probeTarget_def Let_def elim!: rbind_InrE)

lemma target_emitters:
  assumes "t \<in> set (buildTargets env rpc keypair cfg)"
  shows "btSourceEmitterHex t \<in> {ccSolanaOnycEmitterHex cfg, ccSolanaUsdcEmitterHex cfg}"
  using assms
  by (auto simp: buildTargets_def targetOptions_def buildSolanaOnycToFogoTarget_def buildSolanaUsdcToFogoTarget_def sourceEmitter_def
      dest: probeTarget_emitter [OF sym] probeTarget_emitter split: if_splits sum.splits)

lemma start_targets:
  "startCranker env rpc keypair pairConfig readFile cfg = Inr c \<Longrightarrow> crTargets c = buildTargets env rpc keypair cfg"
  unfolding startCranker_def by (auto elim!: rbind_InrE)

lemma nul_free_hex: "list_all hex_char h \<Longrightarrow> nul_free h"
  by (auto simp: nul_free_def list_all_iff hex_char_def)

lemma boot_plain:
  assumes "bootProcess env b disk = Inr p" "zod_sound (bbZod b)" "pda_keys env" "store_ok (crWatermarks (prCranker p))"
  shows "plain_marks p"
proof -
  from boot_cases [OF assms(1)] obtain keypair where
    b: "loadConfig env (bbZod b) (bbVars b) = Inr (prConfig p)"
    "startCranker env (bbRpc b) keypair (bbPairConfig b) (csDisk disk) (prConfig p) = Inr (prCranker p)" .
  from loadConfig_ok [OF b(1) assms(2,3)] have
    hex: "nul_free h" if "h \<in> {ccFogoUsdcEmitterHex (prConfig p), ccFogoOnycEmitterHex (prConfig p), ccSolanaOnycEmitterHex (prConfig p),
      ccSolanaUsdcEmitterHex (prConfig p)}" for h
    using that nul_free_hex unfolding config_ok_def by blast
  have "nul_free e" if "(c, e) \<in> sourcesOf (prConfig p) (crTargets (prCranker p))" for c e
  proof -
    from that consider "e \<in> {ccFogoUsdcEmitterHex (prConfig p), ccFogoOnycEmitterHex (prConfig p)}"
      | t where "t \<in> set (crTargets (prCranker p))" "e = btSourceEmitterHex t" unfolding sourcesOf_def by blast
    then show ?thesis
    proof cases
      case (2 t)
      from target_emitters [of t] 2 start_targets [OF b(2)] have "e \<in> {ccSolanaOnycEmitterHex (prConfig p), ccSolanaUsdcEmitterHex (prConfig p)}" by simp
      then show ?thesis by (intro hex) blast
    qed (intro hex, blast)
  qed
  with assms(4) show ?thesis unfolding plain_marks_def by blast
qed

section \<open>Claims\<close>

text \<open>C8. A process resumes where the one before it was. Run \<open>main\<close> from a checkpoint file for any number of turns, with any scans,
  retry signals and flushes, each of which may fail, until it goes on, returns after a shutdown signal or is killed by its
  watchdog. The next start from the file it leaves succeeds; no watermark it starts with is below the one of
  the start before, and none is above what the first process had recorded, so no VAA that was not recorded is passed
  over. After a shutdown whose final flush does not fail the watermarks are the very ones the first process had. SHA-256 is taken
  as injective.\<close>

theorem restart_resumes:
  assumes "inj sha" "bootProcess env b disk = Inr p0" "csLastWrittenHash disk = []" "ccCheckpointPath (prConfig p0) \<noteq> []"
    and "zod_sound (bbZod b)" "pda_keys env" "store_ok (crWatermarks (prCranker p0))"
    and "\<forall>pt \<in> set turns. set (itOrder (pnIteration pt)) \<subseteq> set (legsOf (prCranker p0))"
  shows "\<exists>e p p1. runMain sha env turns fault nowIso closeErr p0 = Some (e, p) \<and>
    bootProcess env (b\<lparr>bbNow := now\<rparr>) \<lparr>csDisk = csDisk (prDisk p), csLastWrittenHash = []\<rparr> = Inr p1 \<and>
    store_ok (crWatermarks (prCranker p1)) \<and>
    (\<forall>ch em. watermark (crWatermarks (prCranker p0)) ch em \<le> watermark (crWatermarks (prCranker p1)) ch em \<and>
       watermark (crWatermarks (prCranker p1)) ch em \<le> watermark (crWatermarks (prCranker p)) ch em) \<and>
    (e = Returned \<and> fault = NoFault \<longrightarrow>
       (\<forall>k. jm_get (crWatermarks (prCranker p1)) k = jm_get (crWatermarks (prCranker p)) k))"
proof -
  let ?cfg = "prConfig p0" and ?path = "ccCheckpointPath (prConfig p0)"
  note plain = boot_plain [OF assms(2,5-7)] and boot = persisted_boot [OF assms(2-4,7)]
  obtain e q where run: "processLoop sha env turns p0 = Some (e, q)" "persisted sha p0 q"
    using persisted_loop [OF assms(1) plain assms(4) boot assms(8)] by blast
  define p where "p = (if e = Returned then mainFinally sha fault nowIso closeErr q else q)"
  have main: "runMain sha env turns fault nowIso closeErr p0 = Some (e, p)" by (simp add: runMain_def run(1) p_def)
  have q: "prConfig q = ?cfg" "alive ?cfg (prCranker p0) (prCranker q)" "checkpoint_coherent sha ?path (prDisk q)"
    using run(2) by (simp_all add: persisted_def)
  have same: "prCranker p = prCranker q" by (simp add: p_def mainFinally_def)
  have "persisted sha p0 (mainFinally sha fault nowIso closeErr q)"
    by (rule persisted_at [OF persisted_flushes [OF assms(1) plain assms(4) run(2) alive_refl [OF q(2)], of "[(fault, nowIso)]"]])
      (simp_all add: mainFinally_def q(1))
  with run(2) have "persisted sha p0 p" by (simp add: p_def)
  then obtain s where s: "loadedMarks ?path (prDisk p) = Some s" "store_ok s"
    "\<And>ch em. watermark (crWatermarks (prCranker p0)) ch em \<le> watermark s ch em \<and> watermark s ch em \<le> watermark (crWatermarks (prCranker p)) ch em"
    unfolding persisted_def by blast
  have final: "same_marks s (crWatermarks (prCranker p))" if "e = Returned" "fault = NoFault"
  proof -
    have "fst (saveMarks sha ?path (NoFault, nowIso) (crWatermarks (prCranker q)) (prDisk q))"
      by (simp add: saveMarks_def saveCheckpoint_def Let_def)
    from cp.loaded_saved [OF conjI [OF assms(1) q(3)] _ this] alive_store [OF plain q(2)] s(1) that same show ?thesis
      by (auto simp: p_def mainFinally_def q(1) flush_saves [OF assms(4)])
  qed
  from boot_cases [OF assms(2)] obtain keypair where
    b: "loadConfig env (bbZod b) (bbVars b) = Inr ?cfg" "bbBound b \<noteq> None" "loadKeypair b (ccKeypairPath ?cfg) = Inr keypair"
    "startCranker env (bbRpc b) keypair (bbPairConfig b) (csDisk disk) ?cfg = Inr (prCranker p0)" .
  have "watermarksFromCheckpoint (loadCheckpoint (csDisk (prDisk p)) ?path) = Inr s" using s(1) by (simp add: loadedMarks_def split: sum.splits)
  from start_again [OF b(4) assms(4) this] obtain c1 where
    c1: "startCranker env (bbRpc b) keypair (bbPairConfig b) (csDisk (prDisk p)) ?cfg = Inr c1" "crWatermarks c1 = s" by blast
  have "loadKeypair (b\<lparr>bbNow := now\<rparr>) (ccKeypairPath ?cfg) = Inr keypair" using b(3) by (simp add: loadKeypair_def)
  then obtain p1 where "bootProcess env (b\<lparr>bbNow := now\<rparr>) \<lparr>csDisk = csDisk (prDisk p), csLastWrittenHash = []\<rparr> = Inr p1" "prCranker p1 = c1"
    using b(1,2) c1(1) by (auto simp: bootProcess_def lift_def startServer_def createMetrics_def)
  with main s c1(2) final show ?thesis by (intro exI [of _ e] exI [of _ p] exI [of _ p1]) (simp add: same_marks_def)
qed

section \<open>A concrete life\<close>

text \<open>A file with one watermark, the world of a start, and a turn whose scan is followed by the shutdown.\<close>

definition model_disk :: checkpoint_state where
  "model_disk = \<lparr>csDisk = (\<lambda>_. Some \<lparr>cpVersion = 1, cpWatermarks = WmObject [(''51:ab'', ''8'')], cpUpdatedAt = []\<rparr>), csLastWrittenHash = []\<rparr>"

definition model_boot_world :: boot_world where
  "model_boot_world = \<lparr>bbZod = model_zod, bbVars = model_vars, bbBound = Some 9090, bbReadKey = (\<lambda>_. Inr []),
     bbRpc = \<lparr>frpAccount = (\<lambda>_. Inr None), frpExpired = (\<lambda>_. False)\<rparr>, bbPairConfig = Inr model_cfg, bbNow = 0\<rparr>"

definition model_process_turn :: "(nat \<Rightarrow> pool) \<Rightarrow> process_turn" where
  "model_process_turn pools = \<lparr>pnTurn = (model_turn (Inr ()) 0)\<lparr>tnAbortedAfter := True\<rparr>, pnIteration = model_iteration pools,
     pnLegsDone = 0, pnScanStart = 0, pnScanEnds = Some 5, pnAbortAt = Some 5, pnRetries = 0, pnRetriesAsleep = 0, pnFlushes = [], pnScanChecks = [], pnNapChecks = []\<rparr>"

lemma model_marks: "watermarksFromCheckpoint (loadCheckpoint (csDisk model_disk) path) = Inr [(''51:ab'', 8)]"
proof -
  have "bigint_toString 8 = ''8''" by code_simp
  then have "BigInt ''8'' = Inr 8" using BigInt_toString [of 8] by simp
  then show ?thesis
    by (simp add: model_disk_def loadCheckpoint_def watermarksFromCheckpoint_def restoreWatermarks_def restoreEntry_def jm_set_def)
qed

lemma model_boots:
  obtains p0 where "bootProcess model_config_env model_boot_world model_disk = Inr p0" "ccCheckpointPath (prConfig p0) \<noteq> []"
    "crWatermarks (prCranker p0) = [(''51:ab'', 8)]"
proof -
  obtain cfg where cfg: "loadConfig model_config_env model_zod model_vars = Inr cfg" using model_loads by blast
  have z: "zod_sound model_zod" "pda_keys model_config_env"
    using zod_documented_sound [OF model_zod_documented] by (simp_all add: pda_keys_def model_config_env_def)
  have lut: "fromBase58 model_config_env x = Inr (utf8 x)" for x by (simp add: model_config_env_def model_env_def)
  obtain usdc onyc parsed where c: "cfg = configOf parsed"
    and f: "list_all (\<lambda>(name, ty, dflt). \<exists>v. parsed name = Some v \<and> value_ok ty v \<and> (model_vars name = None \<longrightarrow> dflt = Some v)) (configSchema usdc onyc)"
    by (rule loadConfig_parsed [OF cfg z])
  have "(''CHECKPOINT_PATH'', ZString 0, Some (VText ''./cranker-checkpoint.json'')) \<in> set (configSchema usdc onyc)"
    by (simp add: configSchema_def)
  moreover have "model_vars ''CHECKPOINT_PATH'' = None" by (simp add: model_vars_def)
  ultimately have "parsed ''CHECKPOINT_PATH'' = Some (VText ''./cranker-checkpoint.json'')" using f by (auto simp: list_all_iff)
  then have path: "ccCheckpointPath cfg \<noteq> []" by (simp add: c configOf_def)
  obtain c0 where "startCranker model_config_env (bbRpc model_boot_world) [] (Inr model_cfg) (csDisk model_disk) cfg = Inr c0"
    "crWatermarks c0 = [(''51:ab'', 8)]"
    using path model_marks by (simp add: startCranker_def lut newBoundedMap_def TERMINAL_CACHE_MAX_def USER_WALLET_CACHE_MAX_def newFlowStateTracker_default)
  then show thesis using cfg path
    by (intro that [of "\<lparr>prConfig = cfg, prCranker = c0, prDaemon = startDaemon (daemonOptions cfg) 0 (Some newWakeFlag), prDisk = model_disk,
          prMetrics = setStuckFlowProvider (\<lambda>c. stuckCounts (crTracker c)) (snd (startServer (Some 9090) (createMetrics (ccHeartbeatStaleMs cfg) 0)))\<rparr>"])
      (simp_all add: bootProcess_def model_boot_world_def loadKeypair_def startServer_def createMetrics_def)
qed

theorem restart_resumes_witness:
  "\<exists>p0 p p1. bootProcess model_config_env model_boot_world model_disk = Inr p0 \<and>
     runMain (map (\<lambda>b. char_of (unat b))) model_config_env [model_process_turn (\<lambda>_. startPool 1 False)] NoFault ''t'' None p0 = Some (Returned, p) \<and>
     bootProcess model_config_env (model_boot_world\<lparr>bbNow := 1\<rparr>) \<lparr>csDisk = csDisk (prDisk p), csLastWrittenHash = []\<rparr> = Inr p1 \<and>
     crWatermarks (prCranker p0) = [(''51:ab'', 8)] \<and>
     (\<forall>k. jm_get (crWatermarks (prCranker p1)) k = jm_get (crWatermarks (prCranker p)) k)"
proof -
  let ?sha = "map (\<lambda>b :: byte. char_of (unat b)) :: bytes \<Rightarrow> string" and ?pt = "model_process_turn (\<lambda>_. startPool 1 False)"
  obtain p0 where p0: "bootProcess model_config_env model_boot_world model_disk = Inr p0" "ccCheckpointPath (prConfig p0) \<noteq> []"
    "crWatermarks (prCranker p0) = [(''51:ab'', 8)]" by (rule model_boots)
  have w: "csLastWrittenHash model_disk = []" "zod_sound (bbZod model_boot_world)" "pda_keys model_config_env" "store_ok (crWatermarks (prCranker p0))"
    using zod_documented_sound [OF model_zod_documented]
    by (simp_all add: model_disk_def model_boot_world_def pda_keys_def model_config_env_def p0(3) store_ok_def
        jm_ok_def composite_keys_def nul_free_def)
  have legs: "\<forall>pt \<in> set [?pt]. set (itOrder (pnIteration pt)) \<subseteq> set (legsOf (prCranker p0))"
    by (simp add: model_process_turn_def model_iteration_def legsOf_def)
  from restart_resumes [OF inj_byte_text p0(1) w(1) p0(2) w(2-4) legs, of NoFault "''t''" None 1] obtain e p p1 where
    r: "runMain ?sha model_config_env [?pt] NoFault ''t'' None p0 = Some (e, p)"
    "bootProcess model_config_env (model_boot_world\<lparr>bbNow := 1\<rparr>) \<lparr>csDisk = csDisk (prDisk p), csLastWrittenHash = []\<rparr> = Inr p1"
    "e = Returned \<Longrightarrow> \<forall>k. jm_get (crWatermarks (prCranker p1)) k = jm_get (crWatermarks (prCranker p)) k" by blast
  from r(1) have "e = Returned"
    by (auto simp: runMain_def processTurn_def Let_def daemonTurn_def watchdogFires_def model_process_turn_def model_turn_def
        split: option.splits prod.splits)
  with r p0 show ?thesis by blast
qed

end
