(* ===== verification/Flow_Lease.thy ===== *)
theory Flow_Lease
  imports Flow_State
begin

text \<open>
  What \<open>state/flow-state.ts\<close> promises its callers, stated without its map and its tagged states: every flow has a
  lease of its own. A lease counts the failures since the last success, is either held by a task or not, and says
  from when on it may be taken. \<open>FlowStateTracker\<close> is a refinement of an unbounded table of such leases, as long as
  the flows of an execution fit the bound of its map.
\<close>

section \<open>Simulation of one deterministic machine by another\<close>

fun replies :: "('i \<Rightarrow> 's \<Rightarrow> 'out \<times> 's) \<Rightarrow> 'i list \<Rightarrow> 's \<Rightarrow> 'out list \<times> 's" where
  "replies f [] s = ([], s)"
| "replies f (x # xs) s = (let (r, s') = f x s; (rs, s'') = replies f xs s' in (r # rs, s''))"

text \<open>\<open>cok s xs\<close> is what has to hold of a concrete state before the inputs \<open>xs\<close>.\<close>

locale functional_refinement =
  fixes cstep :: "'i \<Rightarrow> 'c \<Rightarrow> 'out \<times> 'c" and astep :: "'i \<Rightarrow> 'a \<Rightarrow> 'out \<times> 'a"
    and abs :: "'c \<Rightarrow> 'a" and cok :: "'c \<Rightarrow> 'i list \<Rightarrow> bool"
  assumes cok_step: "cok s (x # xs) \<Longrightarrow> cok (snd (cstep x s)) xs"
    and sim_step: "cok s (x # xs) \<Longrightarrow> astep x (abs s) = map_prod id abs (cstep x s)"
begin

lemma sim_run: "cok s xs \<Longrightarrow> replies astep xs (abs s) = map_prod id abs (replies cstep xs s)"
proof (induction xs arbitrary: s)
  case (Cons x xs)
  note ih = Cons.IH [OF cok_step [OF Cons.prems]]
  with sim_step [OF Cons.prems] show ?case by (simp add: Let_def split_beta)
qed simp

end

section \<open>Leases\<close>

datatype lock = Open | Until int | Barred

record lease =
  leFailures :: nat
  leHeld :: bool
  leLock :: lock

definition free_lease :: lease where
  "free_lease = \<lparr>leFailures = 0, leHeld = False, leLock = Open\<rparr>"

record lease_policy =
  lpBase :: int
  lpMax :: int
  lpThreshold :: int
  lpTimeout :: int

definition policyOf :: "FlowStateTracker \<Rightarrow> lease_policy" where
  "policyOf t = \<lparr>lpBase = optCooldownBaseMs t, lpMax = optCooldownMaxMs t, lpThreshold = optPoisonThreshold t,
     lpTimeout = optInFlightTimeoutMs t\<rparr>"

fun lock_open :: "int \<Rightarrow> lock \<Rightarrow> bool" where
  "lock_open now Open = True"
| "lock_open now (Until due) = (due \<le> now)"
| "lock_open now Barred = False"

definition lease_take :: "lease_policy \<Rightarrow> int \<Rightarrow> lease \<Rightarrow> bool \<times> lease" where
  "lease_take p now l =
     (if lock_open now (leLock l) then (True, l\<lparr>leHeld := True, leLock := Until (now + lpTimeout p)\<rparr>) else (False, l))"

definition lease_fail :: "lease_policy \<Rightarrow> int \<Rightarrow> lease \<Rightarrow> lease" where
  "lease_fail p now l = \<lparr>leFailures = leFailures l + 1, leHeld = False,
     leLock = (if lpThreshold p \<le> int (leFailures l) + 1 then Barred
               else Until (now + min (lpBase p * 2 ^ leFailures l) (lpMax p)))\<rparr>"

definition lease_clear :: "lease \<Rightarrow> lease" where
  "lease_clear l = (if leHeld l then l else free_lease)"

fun table_step :: "lease_policy \<Rightarrow> tracker_op \<Rightarrow> (string \<Rightarrow> lease) \<Rightarrow> bool option \<times> (string \<Rightarrow> lease)" where
  "table_step p (Begin f now) m = (let (r, l) = lease_take p now (m f) in (Some r, m(f := l)))"
| "table_step p (Success f) m = (None, m(f := free_lease))"
| "table_step p (Fail f c now) m = (None, m(f := lease_fail p now (m f)))"
| "table_step p Clear m = (None, \<lambda>f. lease_clear (m f))"

section \<open>The tracker as a table of leases\<close>

definition tracker_step :: "tracker_op \<Rightarrow> FlowStateTracker \<Rightarrow> bool option \<times> FlowStateTracker" where
  "tracker_step x t =
     ((case x of Begin f now \<Rightarrow> Some (fst (beginIfReady t f now) = None) | _ \<Rightarrow> None), apply_op x t)"

fun lease_of :: "lease_policy \<Rightarrow> FlowProcState option \<Rightarrow> lease" where
  "lease_of p None = free_lease"
| "lease_of p (Some (InFlight started n)) = \<lparr>leFailures = n, leHeld = True, leLock = Until (started + lpTimeout p)\<rparr>"
| "lease_of p (Some (Cooldown due n)) = \<lparr>leFailures = n, leHeld = False, leLock = Until due\<rparr>"
| "lease_of p (Some (Poisoned _ n _)) = \<lparr>leFailures = n, leHeld = False, leLock = Barred\<rparr>"

definition table_of :: "lease_policy \<Rightarrow> FlowStateTracker \<Rightarrow> string \<Rightarrow> lease" where
  "table_of p t f = lease_of p (inspect t f)"

definition fits_policy :: "lease_policy \<Rightarrow> FlowStateTracker \<Rightarrow> tracker_op list \<Rightarrow> bool" where
  "fits_policy p t ops \<longleftrightarrow> tracker_ok t \<and> policyOf t = p \<and> trace_fits t ops"

lemma policyOf_op [simp]: "policyOf (apply_op x t) = policyOf t"
  by (cases x; simp add: policyOf_def beginIfReady_def grant_def recordSuccess_def recordError_def clearBackoff_def
      Let_def split: option.split FlowProcState.split)

lemma lease_of_failures [simp]: "leFailures (lease_of p s) = attemptsOf s"
  by (cases "(p, s)" rule: lease_of.cases) (simp_all add: attemptsOf_def free_lease_def)

lemma take_refines:
  "lease_take (policyOf t) now (lease_of (policyOf t) (inspect t f)) =
     (if fst (beginIfReady t f now) = None
      then (True, lease_of (policyOf t) (Some (InFlight now (attemptsOf (inspect t f)))))
      else (False, lease_of (policyOf t) (inspect t f)))"
  by (cases "(policyOf t, inspect t f)" rule: lease_of.cases)
    (auto simp: lease_take_def policyOf_def inspect_begin grant_def attemptsOf_def free_lease_def)

lemma fail_refines:
  "lease_fail (policyOf t) now (lease_of (policyOf t) s) = lease_of (policyOf t) (Some (nextOnError t s c now))"
  by (simp add: lease_fail_def nextOnError_def Let_def policyOf_def)

lemma clear_refines:
  "lease_clear (lease_of p s) = lease_of p (case s of Some (InFlight i n) \<Rightarrow> Some (InFlight i n) | _ \<Rightarrow> None)"
  by (cases "(p, s)" rule: lease_of.cases) (simp_all add: lease_clear_def free_lease_def)

lemma inspect_begin_after:
  assumes "tracker_ok t" "trace_fits t (Begin g now # ops)"
  shows "inspect (snd (beginIfReady t g now)) f =
    (if f = g \<and> fst (beginIfReady t g now) = None then Some (InFlight now (attemptsOf (inspect t g))) else inspect t f)"
  using inspect_set [OF assms] by (cases rule: begin_cases [of t g now]) (simp_all add: grant_def)

lemma table_sim:
  assumes "tracker_ok t" "trace_fits t (x # ops)"
  shows "table_step (policyOf t) x (table_of (policyOf t) t) = map_prod id (table_of (policyOf t)) (tracker_step x t)"
proof (cases x)
  case (Begin g now)
  then show ?thesis using assms
    by (auto simp: tracker_step_def table_of_def take_refines inspect_begin_after fun_eq_iff)
next
  case (Success g)
  then show ?thesis using assms(1)
    by (auto simp: tracker_step_def table_of_def recordSuccess_def inspect_def tracker_ok_def bm.get_drop fun_eq_iff)
next
  case (Fail g c now)
  then show ?thesis using inspect_set [OF assms, of g]
    by (auto simp: tracker_step_def table_of_def recordError_def Let_def fail_refines fun_eq_iff)
next
  case Clear
  then show ?thesis using inspect_clear [OF assms(1)]
    by (auto simp: tracker_step_def table_of_def clear_refines fun_eq_iff split: option.split FlowProcState.split)
qed

interpretation flow_leases: functional_refinement tracker_step "table_step p" "table_of p" "fits_policy p" for p
proof (unfold_locales, goal_cases)
  case (1 t x ops)
  then show ?case by (simp add: fits_policy_def tracker_step_def tracker_ok_op fits_step)
next
  case (2 t x ops)
  then show ?case using table_sim [of t x ops] by (auto simp: fits_policy_def)
qed

section \<open>Claims\<close>

text \<open>C9. The tracker refines a table of leases. In every execution from a fresh tracker over at most \<open>maxEntries\<close>
  flows, the answers of \<open>beginIfReady\<close> are those of the table and the state of every flow afterwards is its lease: the
  fixed-size map, the deletion of idle flows and the tagged states are not observable, and no flow influences another.\<close>

theorem tracker_refines_leases:
  assumes "newFlowStateTracker opts = Inr t" "int (card (\<Union>x \<in> set ops. op_key x)) \<le> orElse (maxEntries opts) 10000"
  shows "replies (table_step (policyOf t)) ops (\<lambda>_. free_lease) =
    map_prod id (table_of (policyOf t)) (replies tracker_step ops t)"
proof -
  from assms(1) have m: "newBoundedMap (orElse (maxEntries opts) 10000) = Inr (states t)"
    by (auto simp: newFlowStateTracker_def)
  note b = newBoundedMap_ok [OF m]
  then have "tracker_ok t" and empty: "inspect t f = None" for f
    by (simp_all add: tracker_ok_def inspect_def bm_get_def)
  moreover have "trace_fits t ops" using b assms(2) by (simp add: trace_fits_def trace_keys_def bm_keys_def)
  ultimately have "fits_policy (policyOf t) t ops" by (simp add: fits_policy_def)
  moreover have "table_of (policyOf t) t = (\<lambda>_. free_lease)" by (simp add: table_of_def empty fun_eq_iff)
  ultimately show ?thesis using flow_leases.sim_run [of "policyOf t" t ops] by simp
qed

theorem tracker_refines_leases_witness:
  "fst (replies tracker_step [Begin ''a'' 0, Begin ''a'' 5, Fail ''a'' ''e'' 10, Begin ''a'' 20, Clear, Begin ''a'' 30]
     freshTracker) = [Some True, Some False, None, Some False, None, Some True]"
proof -
  let ?ops = "[Begin ''a'' 0, Begin ''a'' 5, Fail ''a'' ''e'' 10, Begin ''a'' 20, Clear, Begin ''a'' 30]"
  have "map_prod id (table_of (policyOf freshTracker)) (replies tracker_step ?ops freshTracker) =
    replies (table_step (policyOf freshTracker)) ?ops (\<lambda>_. free_lease)"
    using tracker_refines_leases [OF newFlowStateTracker_default, of ?ops] by (simp add: orElse_def)
  then have "fst (replies tracker_step ?ops freshTracker) =
    fst (replies (table_step (policyOf freshTracker)) ?ops (\<lambda>_. free_lease))"
    by (metis fst_map_prod id_apply)
  also have "\<dots> = [Some True, Some False, None, Some False, None, Some True]"
    by (simp add: policyOf_def freshTracker_def lease_take_def lease_fail_def lease_clear_def free_lease_def)
  finally show ?thesis .
qed

end
