(* ===== verification/Idl.thy ===== *)
theory Idl
  imports Client Relayer_Base
begin

text \<open>
  The interface of the relayer program as \<open>packages/sdk/src/types/fogo_ntt_relayer.ts\<close> states it (the type Anchor derives from
  the program's IDL), and what it means for a call of the client (\<open>client.ts\<close>) to conform to it: the named accounts are
  the declared ones, an account with a fixed address or with declared seeds is passed at that very address, and the
  arguments have the declared types. Documentation strings are left out; the 32 bytes of the associated token program, which
  the interface repeats, are \<open>ATOKEN_BYTES\<close>.
\<close>

section \<open>The vocabulary of an interface\<close>

datatype idl_type = TU8 | TU16 | TU64 | TPubkey | TBytes | TOption idl_type | TArray idl_type nat | TDefined string

datatype idl_typedef = TStruct "(string \<times> idl_type) list" | TEnum "string list"

text \<open>A seed is a constant, the key of another account of the instruction, or a field of the data of one.\<close>

datatype idl_seed = SeedConst bytes | SeedAccount string | SeedField string string

record idl_account =
  iaName :: string
  iaWritable :: bool
  iaSigner :: bool
  iaOptional :: bool
  iaAddress :: "string option"
  iaRelations :: "string list"
  iaPda :: "(idl_seed list \<times> bytes option) option"

definition account :: "string \<Rightarrow> idl_account" where
  "account name = \<lparr>iaName = name, iaWritable = False, iaSigner = False, iaOptional = False, iaAddress = None, iaRelations = [],
     iaPda = None\<rparr>"

record idl_ix =
  ixName :: string
  ixDiscriminator :: bytes
  ixAccounts :: "idl_account list"
  ixArgs :: "(string \<times> idl_type) list"

definition ATOKEN_BYTES :: bytes where
  "ATOKEN_BYTES = [140, 151, 37, 143, 78, 36, 137, 241, 187, 61, 16, 41, 20, 142, 13, 131, 11, 90, 19, 153, 218, 255, 16, 132, 4,
     142, 123, 216, 219, 233, 248, 89]"

section \<open>Instructions\<close>

definition idl_address :: string where
  "idl_address = ''onrenRKgX54qtWeK3cuaTBE71xx7dWMXn82ubH61vAp''"

definition acceptAdmin_accounts :: "idl_account list" where
  "acceptAdmin_accounts =
     [(account ''pendingAdmin'')\<lparr>iaSigner := True\<rparr>,
      (account ''globalConfig'')\<lparr>iaWritable := True, iaPda := Some ([SeedConst (utf8 ''global_config'')], None)\<rparr>]"

definition ix_acceptAdmin :: idl_ix where
  "ix_acceptAdmin =
     \<lparr>ixName = ''acceptAdmin'', ixDiscriminator = [112, 42, 45, 90, 116, 181, 13, 170],
      ixAccounts = acceptAdmin_accounts,
      ixArgs = []\<rparr>"

definition acceptAuthority_accounts :: "idl_account list" where
  "acceptAuthority_accounts =
     [(account ''pendingAuthority'')\<lparr>iaSigner := True\<rparr>,
      (account ''pairConfig'')\<lparr>iaWritable := True, iaPda := Some ([SeedConst (utf8 ''relayer_config''),
         SeedField ''pair_config.base_mint'' ''pairConfig'', SeedField ''pair_config.asset_mint'' ''pairConfig''], None)\<rparr>]"

definition ix_acceptAuthority :: idl_ix where
  "ix_acceptAuthority =
     \<lparr>ixName = ''acceptAuthority'', ixDiscriminator = [107, 86, 198, 91, 33, 12, 107, 160],
      ixAccounts = acceptAuthority_accounts,
      ixArgs = []\<rparr>"

definition bootstrap_accounts :: "idl_account list" where
  "bootstrap_accounts =
     [(account ''admin'')\<lparr>iaWritable := True, iaSigner := True\<rparr>,
      (account ''globalConfig'')\<lparr>iaWritable := True, iaPda := Some ([SeedConst (utf8 ''global_config'')], None)\<rparr>,
      (account ''systemProgram'')\<lparr>iaAddress := Some ''11111111111111111111111111111111''\<rparr>]"

definition ix_bootstrap :: idl_ix where
  "ix_bootstrap =
     \<lparr>ixName = ''bootstrap'', ixDiscriminator = [101, 108, 31, 241, 5, 211, 182, 72],
      ixAccounts = bootstrap_accounts,
      ixArgs = []\<rparr>"

definition configure_accounts :: "idl_account list" where
  "configure_accounts =
     [(account ''authority'')\<lparr>iaSigner := True, iaRelations := [''pairConfig'']\<rparr>,
      (account ''pairConfig'')\<lparr>iaWritable := True, iaPda := Some ([SeedConst (utf8 ''relayer_config''),
         SeedField ''pair_config.base_mint'' ''pairConfig'', SeedAccount ''assetMint''], None)\<rparr>,
      (account ''relayerAuthority'')\<lparr>iaPda := Some ([SeedConst (utf8 ''relayer'')], None)\<rparr>,
      (account ''assetMint'')\<lparr>iaRelations := [''pairConfig'']\<rparr>,
      (account ''assetAta'')\<lparr>
         iaPda := Some ([SeedAccount ''relayerAuthority'', SeedAccount ''tokenProgram'', SeedAccount ''assetMint''], Some ATOKEN_BYTES)\<rparr>,
      (account ''feeVault'')\<lparr>iaOptional := True\<rparr>,
      account ''tokenProgram'']"

definition ix_configure :: idl_ix where
  "ix_configure =
     \<lparr>ixName = ''configure'', ixDiscriminator = [245, 7, 108, 117, 95, 196, 54, 217],
      ixAccounts = configure_accounts,
      ixArgs = [(''depositFeeBps'', (TOption TU16)), (''withdrawFeeBps'', (TOption TU16)), (''newAuthority'', (TOption TPubkey))]\<rparr>"

definition initialize_accounts :: "idl_account list" where
  "initialize_accounts =
     [(account ''authority'')\<lparr>iaWritable := True, iaSigner := True\<rparr>,
      (account ''globalConfig'')\<lparr>iaPda := Some ([SeedConst (utf8 ''global_config'')], None)\<rparr>,
      (account ''pairConfig'')\<lparr>iaWritable := True, iaPda := Some ([SeedConst (utf8 ''relayer_config''),
         SeedAccount ''baseMint'', SeedAccount ''assetMint''], None)\<rparr>,
      (account ''relayerAuthority'')\<lparr>iaPda := Some ([SeedConst (utf8 ''relayer'')], None)\<rparr>,
      account ''baseMint'',
      account ''assetMint'',
      (account ''baseAta'')\<lparr>iaWritable := True, 
         iaPda := Some ([SeedAccount ''relayerAuthority'', SeedAccount ''tokenProgram'', SeedAccount ''baseMint''], Some ATOKEN_BYTES)\<rparr>,
      (account ''assetAta'')\<lparr>iaWritable := True, 
         iaPda := Some ([SeedAccount ''relayerAuthority'', SeedAccount ''tokenProgram'', SeedAccount ''assetMint''], Some ATOKEN_BYTES)\<rparr>,
      account ''feeVault'',
      account ''tokenProgram'',
      (account ''associatedTokenProgram'')\<lparr>iaAddress := Some ''ATokenGPvbdGVxr1b2hvZbsiqW5xWH25efTNsLJA8knL''\<rparr>,
      (account ''systemProgram'')\<lparr>iaAddress := Some ''11111111111111111111111111111111''\<rparr>]"

definition ix_initialize :: idl_ix where
  "ix_initialize =
     \<lparr>ixName = ''initialize'', ixDiscriminator = [175, 175, 109, 31, 13, 152, 155, 237],
      ixAccounts = initialize_accounts,
      ixArgs = [(''depositFeeBps'', TU16), (''withdrawFeeBps'', TU16), (''nttBaseProgram'', TPubkey), (''nttAssetProgram'', TPubkey), (''intentPrograms'', (TArray TPubkey 2))]\<rparr>"

definition receive_accounts :: "idl_account list" where
  "receive_accounts =
     [(account ''payer'')\<lparr>iaWritable := True, iaSigner := True\<rparr>,
      account ''pairConfig'',
      (account ''relayerAuthority'')\<lparr>iaPda := Some ([SeedConst (utf8 ''relayer'')], None)\<rparr>,
      account ''recvMint'',
      (account ''recvAta'')\<lparr>iaWritable := True, 
         iaPda := Some ([SeedAccount ''relayerAuthority'', SeedAccount ''tokenProgram'', SeedAccount ''recvMint''], Some ATOKEN_BYTES)\<rparr>,
      account ''userWallet'',
      account ''userInboxAuthority'',
      (account ''userInboxAta'')\<lparr>iaWritable := True, 
         iaPda := Some ([SeedAccount ''userInboxAuthority'', SeedAccount ''tokenProgram'', SeedAccount ''recvMint''], Some ATOKEN_BYTES)\<rparr>,
      account ''nttInboxItem'',
      account ''nttTransceiverMessage'',
      account ''nttProgram'',
      (account ''flow'')\<lparr>iaWritable := True\<rparr>,
      account ''tokenProgram'',
      (account ''systemProgram'')\<lparr>iaAddress := Some ''11111111111111111111111111111111''\<rparr>]"

definition ix_receive :: idl_ix where
  "ix_receive =
     \<lparr>ixName = ''receive'', ixDiscriminator = [86, 17, 255, 171, 17, 17, 187, 219],
      ixAccounts = receive_accounts,
      ixArgs = [(''direction'', (TDefined ''direction'')), (''redeemAccountsLen'', TU8), (''minSwapOut'', TU64)]\<rparr>"

definition refund_accounts :: "idl_account list" where
  "refund_accounts =
     [(account ''payer'')\<lparr>iaWritable := True, iaSigner := True\<rparr>,
      (account ''pairConfig'')\<lparr>iaPda := Some ([SeedConst (utf8 ''relayer_config''),
         SeedAccount ''baseMint'', SeedAccount ''assetMint''], None)\<rparr>,
      (account ''relayerAuthority'')\<lparr>iaPda := Some ([SeedConst (utf8 ''relayer'')], None)\<rparr>,
      (account ''baseMint'')\<lparr>iaRelations := [''pairConfig'']\<rparr>,
      (account ''assetMint'')\<lparr>iaRelations := [''pairConfig'']\<rparr>,
      (account ''baseAta'')\<lparr>iaWritable := True, 
         iaPda := Some ([SeedAccount ''relayerAuthority'', SeedAccount ''tokenProgram'', SeedAccount ''baseMint''], Some ATOKEN_BYTES)\<rparr>,
      (account ''assetAta'')\<lparr>iaWritable := True, 
         iaPda := Some ([SeedAccount ''relayerAuthority'', SeedAccount ''tokenProgram'', SeedAccount ''assetMint''], Some ATOKEN_BYTES)\<rparr>,
      account ''nttInboxItem'',
      (account ''flow'')\<lparr>iaWritable := True\<rparr>,
      (account ''rentDestination'')\<lparr>iaWritable := True\<rparr>,
      account ''tokenProgram'']"

definition ix_refund :: idl_ix where
  "ix_refund =
     \<lparr>ixName = ''refund'', ixDiscriminator = [2, 96, 183, 251, 63, 208, 46, 46],
      ixAccounts = refund_accounts,
      ixArgs = [(''transferLockAccountCount'', TU8)]\<rparr>"

definition send_accounts :: "idl_account list" where
  "send_accounts =
     [(account ''payer'')\<lparr>iaWritable := True, iaSigner := True\<rparr>,
      (account ''pairConfig'')\<lparr>iaPda := Some ([SeedConst (utf8 ''relayer_config''),
         SeedAccount ''baseMint'', SeedAccount ''assetMint''], None)\<rparr>,
      (account ''relayerAuthority'')\<lparr>iaPda := Some ([SeedConst (utf8 ''relayer'')], None)\<rparr>,
      (account ''baseMint'')\<lparr>iaRelations := [''pairConfig'']\<rparr>,
      (account ''assetMint'')\<lparr>iaRelations := [''pairConfig'']\<rparr>,
      (account ''baseAta'')\<lparr>iaWritable := True, 
         iaPda := Some ([SeedAccount ''relayerAuthority'', SeedAccount ''tokenProgram'', SeedAccount ''baseMint''], Some ATOKEN_BYTES)\<rparr>,
      (account ''assetAta'')\<lparr>iaWritable := True, 
         iaPda := Some ([SeedAccount ''relayerAuthority'', SeedAccount ''tokenProgram'', SeedAccount ''assetMint''], Some ATOKEN_BYTES)\<rparr>,
      account ''nttInboxItem'',
      (account ''flow'')\<lparr>iaWritable := True\<rparr>,
      (account ''rentDestination'')\<lparr>iaWritable := True\<rparr>,
      account ''tokenProgram'']"

definition ix_send :: idl_ix where
  "ix_send =
     \<lparr>ixName = ''send'', ixDiscriminator = [102, 251, 20, 187, 65, 75, 12, 69],
      ixAccounts = send_accounts,
      ixArgs = [(''transferLockAccountCount'', TU8)]\<rparr>"

definition setAdmin_accounts :: "idl_account list" where
  "setAdmin_accounts =
     [(account ''admin'')\<lparr>iaSigner := True, iaRelations := [''globalConfig'']\<rparr>,
      (account ''globalConfig'')\<lparr>iaWritable := True, iaPda := Some ([SeedConst (utf8 ''global_config'')], None)\<rparr>]"

definition ix_setAdmin :: idl_ix where
  "ix_setAdmin =
     \<lparr>ixName = ''setAdmin'', ixDiscriminator = [251, 163, 0, 52, 91, 194, 187, 92],
      ixAccounts = setAdmin_accounts,
      ixArgs = [(''newAdmin'', TPubkey)]\<rparr>"

definition swap_accounts :: "idl_account list" where
  "swap_accounts =
     [(account ''pairConfig'')\<lparr>iaPda := Some ([SeedConst (utf8 ''relayer_config''),
         SeedAccount ''baseMint'', SeedAccount ''assetMint''], None)\<rparr>,
      (account ''relayerAuthority'')\<lparr>iaPda := Some ([SeedConst (utf8 ''relayer'')], None)\<rparr>,
      (account ''baseMint'')\<lparr>iaRelations := [''pairConfig'']\<rparr>,
      (account ''assetMint'')\<lparr>iaRelations := [''pairConfig'']\<rparr>,
      (account ''baseAta'')\<lparr>iaWritable := True, 
         iaPda := Some ([SeedAccount ''relayerAuthority'', SeedAccount ''tokenProgram'', SeedAccount ''baseMint''], Some ATOKEN_BYTES)\<rparr>,
      (account ''assetAta'')\<lparr>iaWritable := True, 
         iaPda := Some ([SeedAccount ''relayerAuthority'', SeedAccount ''tokenProgram'', SeedAccount ''assetMint''], Some ATOKEN_BYTES)\<rparr>,
      (account ''feeVault'')\<lparr>iaWritable := True, iaRelations := [''pairConfig'']\<rparr>,
      account ''nttInboxItem'',
      (account ''flow'')\<lparr>iaWritable := True\<rparr>,
      account ''swapProgram'',
      account ''swapDelegate'',
      account ''tokenProgram'']"

definition ix_swap :: idl_ix where
  "ix_swap =
     \<lparr>ixName = ''swap'', ixDiscriminator = [248, 198, 158, 145, 225, 117, 135, 200],
      ixAccounts = swap_accounts,
      ixArgs = [(''swapIxData'', TBytes)]\<rparr>"

definition idl_instructions :: "idl_ix list" where
  "idl_instructions =
     [ix_acceptAdmin, ix_acceptAuthority, ix_bootstrap, ix_configure, ix_initialize, ix_receive, ix_refund, ix_send, ix_setAdmin, ix_swap]"

section \<open>Accounts, events, errors and types\<close>

definition idl_accounts :: "(string \<times> bytes) list" where
  "idl_accounts =
     [(''flow'', [126, 151, 86, 177, 58, 153, 167, 203]),
      (''globalConfig'', [149, 8, 156, 202, 160, 252, 176, 217]),
      (''pairConfig'', [119, 167, 13, 129, 136, 228, 151, 77])]"

definition idl_events :: "(string \<times> bytes) list" where
  "idl_events =
     [(''received'', [64, 93, 61, 227, 221, 171, 20, 177]),
      (''refunded'', [35, 103, 149, 246, 196, 123, 221, 99]),
      (''sent'', [230, 90, 111, 254, 186, 174, 45, 74]),
      (''swapped'', [217, 52, 52, 83, 147, 135, 96, 109])]"

definition idl_errors :: "(int \<times> string) list" where
  "idl_errors =
     [(6000, ''invalidAccountSplit''),
      (6001, ''authorityNotInAccounts''),
      (6002, ''zeroFogoSender''),
      (6003, ''unauthorizedAuthority''),
      (6004, ''flowStatusMismatch''),
      (6005, ''balanceUnderflow''),
      (6006, ''zeroAmountFlow''),
      (6007, ''feeBpsTooHigh''),
      (6008, ''feeOverflow''),
      (6009, ''missingSessionAuthority''),
      (6010, ''invalidTransceiverMessage''),
      (6011, ''transceiverMessageMismatch''),
      (6012, ''inboxItemMismatch''),
      (6013, ''recipientAtaMismatch''),
      (6014, ''feeVaultAliasesUserAta''),
      (6015, ''noPendingAuthority''),
      (6016, ''pendingAuthorityMismatch''),
      (6017, ''emptyPendingFee''),
      (6018, ''wrongOriginChain''),
      (6019, ''userInboxAuthorityMismatch''),
      (6020, ''unexpectedFogoSender''),
      (6021, ''invalidInboxItem''),
      (6022, ''insufficientInboxBalance''),
      (6023, ''pendingAuthorityIsCurrent''),
      (6024, ''ataAuthorityTampered''),
      (6025, ''inputConsumedMismatch''),
      (6026, ''outputBelowFloor''),
      (6027, ''swapAccountNotAllowed''),
      (6028, ''relayerAuthorityTampered''),
      (6029, ''badNttProgram''),
      (6030, ''badReceiveMint''),
      (6031, ''refundTooEarly''),
      (6032, ''zeroMinSwapOut''),
      (6033, ''badConfig''),
      (6034, ''arithmeticOverflow''),
      (6035, ''unauthorizedAdmin''),
      (6036, ''noPendingAdmin''),
      (6037, ''pendingAdminMismatch''),
      (6038, ''pendingAdminIsCurrent'')]"

definition ty_direction :: idl_typedef where
  "ty_direction = TEnum [''deposit'', ''withdraw'']"

definition ty_flow :: idl_typedef where
  "ty_flow = TStruct
     [(''recipient'', TPubkey),
      (''status'', (TDefined ''flowStatus'')),
      (''amount'', TU64),
      (''payer'', TPubkey),
      (''bump'', TU8),
      (''direction'', (TDefined ''direction'')),
      (''minSwapOut'', TU64),
      (''receivedSlot'', TU64)]"

definition ty_flowStatus :: idl_typedef where
  "ty_flowStatus = TEnum [''received'', ''swapped'']"

definition ty_globalConfig :: idl_typedef where
  "ty_globalConfig = TStruct
     [(''admin'', TPubkey),
      (''bump'', TU8),
      (''reserved'', (TArray TU8 64)),
      (''pendingAdmin'', (TOption TPubkey))]"

definition ty_pairConfig :: idl_typedef where
  "ty_pairConfig = TStruct
     [(''baseMint'', TPubkey),
      (''assetMint'', TPubkey),
      (''authority'', TPubkey),
      (''feeVault'', TPubkey),
      (''nttBaseProgram'', TPubkey),
      (''nttAssetProgram'', TPubkey),
      (''intentPrograms'', (TArray TPubkey 2)),
      (''depositFeeBps'', TU16),
      (''withdrawFeeBps'', TU16),
      (''relayerAuthorityBump'', TU8),
      (''bump'', TU8),
      (''reserved'', (TArray TU8 64)),
      (''pendingAuthority'', (TOption TPubkey)),
      (''pendingFee'', (TOption (TDefined ''pendingFee'')))]"

definition ty_pendingFee :: idl_typedef where
  "ty_pendingFee = TStruct
     [(''depositFeeBps'', (TOption TU16)),
      (''withdrawFeeBps'', (TOption TU16)),
      (''readySlot'', TU64)]"

definition ty_received :: idl_typedef where
  "ty_received = TStruct
     [(''flow'', TPubkey),
      (''nttInboxItem'', TPubkey),
      (''recipient'', TPubkey),
      (''direction'', (TDefined ''direction'')),
      (''amount'', TU64)]"

definition ty_refunded :: idl_typedef where
  "ty_refunded = TStruct
     [(''flow'', TPubkey),
      (''nttInboxItem'', TPubkey),
      (''recipient'', TPubkey),
      (''direction'', (TDefined ''direction'')),
      (''amount'', TU64)]"

definition ty_sent :: idl_typedef where
  "ty_sent = TStruct
     [(''flow'', TPubkey),
      (''nttInboxItem'', TPubkey),
      (''recipient'', TPubkey),
      (''direction'', (TDefined ''direction'')),
      (''amount'', TU64)]"

definition ty_swapped :: idl_typedef where
  "ty_swapped = TStruct
     [(''flow'', TPubkey),
      (''direction'', (TDefined ''direction'')),
      (''grossIn'', TU64),
      (''fee'', TU64),
      (''netOut'', TU64),
      (''floor'', TU64),
      (''swapProgram'', TPubkey)]"

definition idl_types :: "(string \<times> idl_typedef) list" where
  "idl_types =
     [(''direction'', ty_direction),
      (''flow'', ty_flow),
      (''flowStatus'', ty_flowStatus),
      (''globalConfig'', ty_globalConfig),
      (''pairConfig'', ty_pairConfig),
      (''pendingFee'', ty_pendingFee),
      (''received'', ty_received),
      (''refunded'', ty_refunded),
      (''sent'', ty_sent),
      (''swapped'', ty_swapped)]"

section \<open>Conformance\<close>

text \<open>The field a path such as \<open>pair_config.base_mint\<close> names, as the client spells it.\<close>

fun camel :: "string \<Rightarrow> string" where
  "camel [] = []"
| "camel [c] = [c]"
| "camel (c # d # cs) = (if c = CHR ''_'' then char_of (of_char d - (32 :: nat)) # camel cs else c # camel (d # cs))"

definition pathField :: "string \<Rightarrow> string" where
  "pathField p = camel (drop 1 (dropWhile (\<lambda>c. c \<noteq> CHR ''.'') p))"

definition accountKey :: "(string \<times> pubkey option) list \<Rightarrow> string \<Rightarrow> pubkey option" where
  "accountKey accts n = (case map_of accts n of None \<Rightarrow> None | Some k \<Rightarrow> k)"

text \<open>\<open>field a f\<close> is what the data of account \<open>a\<close> holds on the chain.\<close>

fun seedBytes :: "(string \<Rightarrow> string \<Rightarrow> pubkey option) \<Rightarrow> (string \<times> pubkey option) list \<Rightarrow> idl_seed \<Rightarrow> bytes option" where
  "seedBytes field accts (SeedConst b) = Some b"
| "seedBytes field accts (SeedAccount n) = accountKey accts n"
| "seedBytes field accts (SeedField path a) = field a (pathField path)"

definition seedsAddress ::
  "web3_env \<Rightarrow> (string \<Rightarrow> string \<Rightarrow> pubkey option) \<Rightarrow> (string \<times> pubkey option) list \<Rightarrow> idl_seed list \<Rightarrow> bytes option \<Rightarrow> pubkey option" where
  "seedsAddress env field accts seeds program =
     (case those (map (seedBytes field accts) seeds) of
        None \<Rightarrow> None
      | Some bs \<Rightarrow> (case key_of (fpa env bs (ifNone program (pk58 idl_address))) of Inl _ \<Rightarrow> None | Inr k \<Rightarrow> Some k))"

definition accountConforms ::
  "web3_env \<Rightarrow> (string \<Rightarrow> string \<Rightarrow> pubkey option) \<Rightarrow> (string \<times> pubkey option) list \<Rightarrow> idl_account \<Rightarrow> pubkey option \<Rightarrow> bool" where
  "accountConforms env field accts a given \<longleftrightarrow>
     (case given of
        None \<Rightarrow> iaOptional a
      | Some key \<Rightarrow>
          (case iaAddress a of None \<Rightarrow> True | Some s \<Rightarrow> key = pk58 s) \<and>
          (case iaPda a of None \<Rightarrow> True | Some (seeds, program) \<Rightarrow> seedsAddress env field accts seeds program = Some key))"

definition directionName :: "direction \<Rightarrow> string" where
  "directionName d = (if d = Deposit then ''deposit'' else ''withdraw'')"

fun argConforms :: "ix_arg \<Rightarrow> idl_type \<Rightarrow> bool" where
  "argConforms ArgNull (TOption t) \<longleftrightarrow> True"
| "argConforms a (TOption t) \<longleftrightarrow> argConforms a t"
| "argConforms (ArgNum n) TU8 \<longleftrightarrow> 0 \<le> n \<and> n < 2 ^ 8"
| "argConforms (ArgNum n) TU16 \<longleftrightarrow> 0 \<le> n \<and> n < 2 ^ 16"
| "argConforms (ArgNum n) TU64 \<longleftrightarrow> 0 \<le> n \<and> n < 2 ^ 64"
| "argConforms (ArgKey k) TPubkey \<longleftrightarrow> True"
| "argConforms (ArgKeys ks) (TArray TPubkey n) \<longleftrightarrow> length ks = n"
| "argConforms (ArgBytes b) TBytes \<longleftrightarrow> True"
| "argConforms (ArgDirection d) (TDefined t) \<longleftrightarrow>
     (case map_of idl_types t of Some (TEnum vs) \<Rightarrow> directionName d \<in> set vs | _ \<Rightarrow> False)"
| "argConforms _ _ \<longleftrightarrow> False"

text \<open>The same in two parts: the kind of an argument, which the code fixes, and the width of a number, which its caller chooses.\<close>

fun argKind :: "ix_arg \<Rightarrow> idl_type \<Rightarrow> bool" where
  "argKind ArgNull (TOption t) \<longleftrightarrow> True"
| "argKind a (TOption t) \<longleftrightarrow> argKind a t"
| "argKind (ArgNum n) t \<longleftrightarrow> t = TU8 \<or> t = TU16 \<or> t = TU64"
| "argKind (ArgKey k) TPubkey \<longleftrightarrow> True"
| "argKind (ArgKeys ks) (TArray TPubkey n) \<longleftrightarrow> length ks = n"
| "argKind (ArgBytes b) TBytes \<longleftrightarrow> True"
| "argKind (ArgDirection d) (TDefined t) \<longleftrightarrow>
     (case map_of idl_types t of Some (TEnum vs) \<Rightarrow> directionName d \<in> set vs | _ \<Rightarrow> False)"
| "argKind _ _ \<longleftrightarrow> False"

fun argWidth :: "ix_arg \<Rightarrow> idl_type \<Rightarrow> bool" where
  "argWidth a (TOption t) \<longleftrightarrow> argWidth a t"
| "argWidth (ArgNum n) TU8 \<longleftrightarrow> 0 \<le> n \<and> n < 2 ^ 8"
| "argWidth (ArgNum n) TU16 \<longleftrightarrow> 0 \<le> n \<and> n < 2 ^ 16"
| "argWidth (ArgNum n) TU64 \<longleftrightarrow> 0 \<le> n \<and> n < 2 ^ 64"
| "argWidth _ _ \<longleftrightarrow> True"

lemma argWidth_null [simp]: "argWidth ArgNull t"
  by (induction t) simp_all

lemma argKind_array: "argKind a (TArray t n) \<longleftrightarrow> (\<exists>ks. a = ArgKeys ks \<and> t = TPubkey \<and> length ks = n)"
  by (cases a; cases t) simp_all

lemma argConforms_iff: "argConforms a t \<longleftrightarrow> argKind a t \<and> argWidth a t"
  by (induction a t rule: argConforms.induct) (simp_all add: argKind_array)

definition conforms :: "web3_env \<Rightarrow> (string \<Rightarrow> string \<Rightarrow> pubkey option) \<Rightarrow> method_call \<Rightarrow> bool" where
  "conforms env field mc \<longleftrightarrow>
     (case find (\<lambda>ix. ixName ix = mcMethod mc) idl_instructions of
        None \<Rightarrow> False
      | Some ix \<Rightarrow> map fst (mcAccounts mc) = map iaName (ixAccounts ix) \<and>
          list_all2 (accountConforms env field (mcAccounts mc)) (ixAccounts ix) (map snd (mcAccounts mc)) \<and>
          list_all2 argConforms (mcArgs mc) (map snd (ixArgs ix)))"

section \<open>The calls of the client\<close>

text \<open>What \<open>RelayerClient\<close> can be asked to build, for any parameters: it checks none of them.\<close>

inductive client_call :: "web3_env \<Rightarrow> RelayerClient \<Rightarrow> method_call \<Rightarrow> bool" for env c where
  cc_bootstrap: "bootstrap env c admin = Inr mc \<Longrightarrow> client_call env c mc"
| cc_initialize: "initialize env c ips = Inr mc \<Longrightarrow> client_call env c mc"
| cc_configure: "configure env c cps = Inr mc \<Longrightarrow> client_call env c mc"
| cc_acceptAuthority: "acceptAuthority c pending = Inr mc \<Longrightarrow> client_call env c mc"
| cc_setAdmin: "setAdmin c newAdmin admin = Inr mc \<Longrightarrow> client_call env c mc"
| cc_acceptAdmin: "acceptAdmin c pending = Inr mc \<Longrightarrow> client_call env c mc"
| cc_receive: "receive env c rps = Inr mc \<Longrightarrow> client_call env c mc"
| cc_swap: "swap env c sps = Inr mc \<Longrightarrow> client_call env c mc"
| cc_send: "send env c ops = Inr mc \<Longrightarrow> client_call env c mc"
| cc_refund: "refund env c ops = Inr mc \<Longrightarrow> client_call env c mc"

text \<open>The mints that a call names are those of the client's pair. \<open>initialize\<close> creates the configuration of whatever pair it is
  given; the other calls that name both mints pass the configuration of the client's own pair.\<close>

definition names_pair :: "RelayerClient \<Rightarrow> method_call \<Rightarrow> bool" where
  "names_pair c mc \<longleftrightarrow>
     map_of (mcAccounts mc) ''baseMint'' = Some (Some (rcBaseMint c)) \<and>
     map_of (mcAccounts mc) ''assetMint'' = Some (Some (rcAssetMint c))"

definition pair_ok :: "RelayerClient \<Rightarrow> method_call \<Rightarrow> bool" where
  "pair_ok c mc \<longleftrightarrow> (mcMethod mc \<in> {''swap'', ''send'', ''refund''} \<longrightarrow> names_pair c mc)"

text \<open>The programs of the runtime have their known addresses, and an associated token account is the program address of
  owner, token program and mint, as \<open>spl-token\<close> documents it.\<close>

definition spl_standard :: "web3_env \<Rightarrow> bool" where
  "spl_standard env \<longleftrightarrow> SYSTEM_PROGRAM_ID env = pk58 ''11111111111111111111111111111111'' \<and>
     ASSOCIATED_TOKEN_PROGRAM_ID env = pk58 ''ATokenGPvbdGVxr1b2hvZbsiqW5xWH25efTNsLJA8knL'' \<and>
     (\<forall>mint own tp. ata env mint own True tp = key_of (fpa env [own, tp, mint] (ASSOCIATED_TOKEN_PROGRAM_ID env)))"

text \<open>The pair's account on the chain holds the mints the client was built with.\<close>

definition pair_data :: "RelayerClient \<Rightarrow> (string \<Rightarrow> string \<Rightarrow> pubkey option) \<Rightarrow> bool" where
  "pair_data c field \<longleftrightarrow> field ''pairConfig'' ''baseMint'' = Some (rcBaseMint c) \<and> field ''pairConfig'' ''assetMint'' = Some (rcAssetMint c)"

lemma position_step: "position x (y # ys) = (if x = y then 0 else position x ys + 1)"
  by simp

lemma nat_le_step: "nat_le (numeral k) x = of_nat x # nat_le (pred_numeral k) (x div 256)"
  by (simp only: numeral_eq_Suc nat_le.simps)

lemma atoken_literal: "pk58 ''ATokenGPvbdGVxr1b2hvZbsiqW5xWH25efTNsLJA8knL'' = ATOKEN_BYTES"
proof -
  have "foldl (\<lambda>a c. 58 * a + position c base58_alphabet) 0 ''ATokenGPvbdGVxr1b2hvZbsiqW5xWH25efTNsLJA8knL'' =
      63590851936555425018482094543133168213809614203979002813017495418995103889497"
    by (simp add: base58_alphabet_def position_step del: position.simps(2))
  then show ?thesis unfolding pk58_def ATOKEN_BYTES_def by (simp add: nat_be_def nat_le_step)
qed

lemma idl_program: "RELAYER_PROGRAM_ID = pk58 idl_address"
  by (simp add: RELAYER_PROGRAM_ID_def idl_address_def)

lemma newClient_pdas:
  assumes "newRelayerClient env RELAYER_PROGRAM_ID wallet base asset = Inr c"
  shows "key_of (fpa env [utf8 ''relayer_config'', rcBaseMint c, rcAssetMint c] (pk58 idl_address)) = Inr (rcConfigPda c)"
    "key_of (fpa env [utf8 ''global_config''] (pk58 idl_address)) = Inr (rcGlobalConfigPda c)"
    "key_of (fpa env [utf8 ''relayer''] (pk58 idl_address)) = Inr (rcAuthorityPda c)"
    "rcProgramId c = pk58 idl_address"
  using assms
  by (auto simp: newRelayerClient_def findConfigPda_def findGlobalConfigPda_def findAuthorityPda_def idl_program result_simps
      CONFIG_SEED_def GLOBAL_CONFIG_SEED_def RELAYER_SEED_def)

lemma relayerAta_seeds:
  "spl_standard env \<Longrightarrow> relayerAta env c mint = Inr k \<Longrightarrow>
     key_of (fpa env [rcAuthorityPda c, TOKEN_PROGRAM_ID env, mint] ATOKEN_BYTES) = Inr k"
  by (simp add: spl_standard_def relayerAta_def atoken_literal)

lemma ata_seeds:
  "spl_standard env \<Longrightarrow> ata env mint own True tp = Inr k \<Longrightarrow> key_of (fpa env [own, tp, mint] ATOKEN_BYTES) = Inr k"
  by (simp add: spl_standard_def atoken_literal)

lemma pathField_mints: "pathField ''pair_config.base_mint'' = ''baseMint''" "pathField ''pair_config.asset_mint'' = ''assetMint''"
  by code_simp+

lemma ix_names [simp]:
  "ixName ix_acceptAdmin = ''acceptAdmin''"
  "ixName ix_acceptAuthority = ''acceptAuthority''"
  "ixName ix_bootstrap = ''bootstrap''"
  "ixName ix_configure = ''configure''"
  "ixName ix_initialize = ''initialize''"
  "ixName ix_receive = ''receive''"
  "ixName ix_refund = ''refund''"
  "ixName ix_send = ''send''"
  "ixName ix_setAdmin = ''setAdmin''"
  "ixName ix_swap = ''swap''"
  by (simp_all add: ix_acceptAdmin_def ix_acceptAuthority_def ix_bootstrap_def ix_configure_def ix_initialize_def ix_receive_def ix_refund_def ix_send_def ix_setAdmin_def ix_swap_def)

lemma find_ix:
  "find (\<lambda>ix. ixName ix = ''acceptAdmin'') idl_instructions = Some ix_acceptAdmin"
  "find (\<lambda>ix. ixName ix = ''acceptAuthority'') idl_instructions = Some ix_acceptAuthority"
  "find (\<lambda>ix. ixName ix = ''bootstrap'') idl_instructions = Some ix_bootstrap"
  "find (\<lambda>ix. ixName ix = ''configure'') idl_instructions = Some ix_configure"
  "find (\<lambda>ix. ixName ix = ''initialize'') idl_instructions = Some ix_initialize"
  "find (\<lambda>ix. ixName ix = ''receive'') idl_instructions = Some ix_receive"
  "find (\<lambda>ix. ixName ix = ''refund'') idl_instructions = Some ix_refund"
  "find (\<lambda>ix. ixName ix = ''send'') idl_instructions = Some ix_send"
  "find (\<lambda>ix. ixName ix = ''setAdmin'') idl_instructions = Some ix_setAdmin"
  "find (\<lambda>ix. ixName ix = ''swap'') idl_instructions = Some ix_swap"
  by (simp_all add: idl_instructions_def)

text \<open>The accounts and arguments of a call, each against its declaration, up to the widths of the numbers.\<close>

definition declared :: "web3_env \<Rightarrow> (string \<Rightarrow> string \<Rightarrow> pubkey option) \<Rightarrow> RelayerClient \<Rightarrow> method_call \<Rightarrow> idl_ix \<Rightarrow> bool" where
  "declared env field c mc ix \<longleftrightarrow>
     find (\<lambda>ix. ixName ix = mcMethod mc) idl_instructions = Some ix \<and> map fst (mcAccounts mc) = map iaName (ixAccounts ix) \<and>
     list_all2 argKind (mcArgs mc) (map snd (ixArgs ix)) \<and>
     (pair_ok c mc \<longrightarrow> list_all2 (accountConforms env field (mcAccounts mc)) (ixAccounts ix) (map snd (mcAccounts mc)))"

lemma declaredI:
  "find (\<lambda>ix. ixName ix = m) idl_instructions = Some ix \<Longrightarrow> mcMethod mc = m \<Longrightarrow> map fst (mcAccounts mc) = map iaName (ixAccounts ix) \<Longrightarrow>
   (pair_ok c mc \<Longrightarrow> list_all2 (accountConforms env field (mcAccounts mc)) (ixAccounts ix) (map snd (mcAccounts mc))) \<Longrightarrow>
   list_all2 argKind (mcArgs mc) (map snd (ixArgs ix)) \<Longrightarrow> \<exists>ix. declared env field c mc ix"
  by (auto simp: declared_def)

lemma declared_conforms:
  "declared env field c mc ix \<Longrightarrow> pair_ok c mc \<Longrightarrow> list_all2 argWidth (mcArgs mc) (map snd (ixArgs ix)) \<Longrightarrow> conforms env field mc"
  by (auto simp: declared_def conforms_def argConforms_iff list_all2_conv_all_nth)

lemma account_sel [simp]:
  "iaName (account n) = n" "iaOptional (account n) = False" "iaAddress (account n) = None" "iaPda (account n) = None"
  by (simp_all add: account_def)

lemmas conform_simps = accountConforms_def seedsAddress_def accountKey_def pathField_mints result_simps

lemma admin_calls_declared:
  assumes "newRelayerClient env RELAYER_PROGRAM_ID wallet base asset = Inr c" "spl_standard env" "pair_data c field"
  shows "bootstrap env c admin = Inr mc \<Longrightarrow> \<exists>ix. declared env field c mc ix"
    "acceptAuthority c pending = Inr mc \<Longrightarrow> \<exists>ix. declared env field c mc ix"
    "setAdmin c newAdmin admin = Inr mc \<Longrightarrow> \<exists>ix. declared env field c mc ix"
    "acceptAdmin c pending = Inr mc \<Longrightarrow> \<exists>ix. declared env field c mc ix"
proof -
  note pdas = newClient_pdas [OF assms(1)]
  show "bootstrap env c admin = Inr mc \<Longrightarrow> \<exists>ix. declared env field c mc ix"
    by (rule declaredI [OF find_ix(3)])
      (use pdas assms(2) in \<open>auto simp: bootstrap_def ix_bootstrap_def bootstrap_accounts_def spl_standard_def conform_simps\<close>)
  show "acceptAuthority c pending = Inr mc \<Longrightarrow> \<exists>ix. declared env field c mc ix"
    by (rule declaredI [OF find_ix(2)])
      (use pdas assms(3) in \<open>auto simp: acceptAuthority_def ix_acceptAuthority_def acceptAuthority_accounts_def pair_data_def conform_simps\<close>)
  show "setAdmin c newAdmin admin = Inr mc \<Longrightarrow> \<exists>ix. declared env field c mc ix"
    by (rule declaredI [OF find_ix(9)]) (use pdas in \<open>auto simp: setAdmin_def ix_setAdmin_def setAdmin_accounts_def conform_simps\<close>)
  show "acceptAdmin c pending = Inr mc \<Longrightarrow> \<exists>ix. declared env field c mc ix"
    by (rule declaredI [OF find_ix(1)]) (use pdas in \<open>auto simp: acceptAdmin_def ix_acceptAdmin_def acceptAdmin_accounts_def conform_simps\<close>)
qed

lemma initialize_declared:
  assumes "newRelayerClient env RELAYER_PROGRAM_ID wallet base asset = Inr c" "spl_standard env"
    and "initialize env c ps = Inr mc"
  shows "\<exists>ix. declared env field c mc ix"
proof -
  note pdas = newClient_pdas [OF assms(1)]
  let ?b = "ifNone (inBaseMint ps) (rcBaseMint c)" and ?a = "ifNone (inAssetMint ps) (rcAssetMint c)"
  from assms(3) obtain cfg bAta aAta where k: "key_of (findConfigPda env ?b ?a (rcProgramId c)) = Inr cfg"
    "relayerAta env c ?b = Inr bAta" "relayerAta env c ?a = Inr aAta" by (auto simp: initialize_def Let_def elim!: rbind_InrE)
  note seeds = relayerAta_seeds [OF assms(2) k(2)] relayerAta_seeds [OF assms(2) k(3)]
  have cfg: "key_of (fpa env [utf8 ''relayer_config'', ?b, ?a] (pk58 idl_address)) = Inr cfg"
    using k(1) pdas(4) by (simp add: findConfigPda_def CONFIG_SEED_def)
  have mc: "mc = \<lparr>mcMethod = ''initialize'', mcArgs = mcArgs mc, mcAccounts = mcAccounts mc, mcRemaining = []\<rparr>"
    and args: "list_all2 argKind (mcArgs mc) (map snd (ixArgs ix_initialize))"
    and accts: "mcAccounts mc = [(''authority'', Some (inAuthority ps)), (''globalConfig'', Some (rcGlobalConfigPda c)),
      (''pairConfig'', Some cfg), (''relayerAuthority'', Some (rcAuthorityPda c)), (''baseMint'', Some ?b), (''assetMint'', Some ?a),
      (''baseAta'', Some bAta), (''assetAta'', Some aAta), (''feeVault'', Some (inFeeVault ps)),
      (''tokenProgram'', Some (TOKEN_PROGRAM_ID env)), (''associatedTokenProgram'', Some (ASSOCIATED_TOKEN_PROGRAM_ID env)),
      (''systemProgram'', Some (SYSTEM_PROGRAM_ID env))]"
    using assms(3) k by (auto simp: initialize_def Let_def ix_initialize_def)
  show ?thesis
  proof (rule declaredI [OF find_ix(5) _ _ _ args])
    show "mcMethod mc = ''initialize''" using mc by (metis method_call.select_convs(1))
    show "map fst (mcAccounts mc) = map iaName (ixAccounts ix_initialize)" unfolding accts by (simp add: ix_initialize_def initialize_accounts_def)
    show "list_all2 (accountConforms env field (mcAccounts mc)) (ixAccounts ix_initialize) (map snd (mcAccounts mc))"
      using assms(2) pdas cfg seeds unfolding accts
      by (simp add: ix_initialize_def initialize_accounts_def spl_standard_def conform_simps)
  qed
qed

lemma configure_declared:
  assumes "newRelayerClient env RELAYER_PROGRAM_ID wallet base asset = Inr c" "spl_standard env" "pair_data c field"
    and "configure env c ps = Inr mc"
  shows "\<exists>ix. declared env field c mc ix"
proof -
  note pdas = newClient_pdas [OF assms(1)]
  from assms(4) obtain who aAta where k: "relayerAta env c (rcAssetMint c) = Inr aAta"
    and accts: "mcMethod mc = ''configure''" "mcAccounts mc = [(''authority'', Some who), (''pairConfig'', Some (rcConfigPda c)),
      (''relayerAuthority'', Some (rcAuthorityPda c)), (''assetMint'', Some (rcAssetMint c)),
      (''assetAta'', Some aAta), (''feeVault'', cfFeeVault ps), (''tokenProgram'', Some (TOKEN_PROGRAM_ID env))]"
    and args: "mcArgs mc = [optArg ArgNum (cfDepositFeeBps ps), optArg ArgNum (cfWithdrawFeeBps ps), optArg ArgKey (cfNewAuthority ps)]"
    by (auto simp: configure_def elim!: rbind_InrE)
  have opt: "argKind (optArg ArgNum m) (TOption TU16)" for m by (cases m) (auto simp: optArg_def)
  have key: "argKind (optArg ArgKey m) (TOption TPubkey)" for m by (cases m) (auto simp: optArg_def)
  show ?thesis
  proof (rule declaredI [OF find_ix(4)])
    show "list_all2 argKind (mcArgs mc) (map snd (ixArgs ix_configure))"
      unfolding args using opt key by (simp add: ix_configure_def)
    show "list_all2 (accountConforms env field (mcAccounts mc)) (ixAccounts ix_configure) (map snd (mcAccounts mc))"
      using assms(3) pdas relayerAta_seeds [OF assms(2) k] unfolding accts(2)
      by (simp add: ix_configure_def configure_accounts_def pair_data_def conform_simps split: option.split)
  qed (simp_all add: accts ix_configure_def configure_accounts_def)
qed

lemma swap_declared:
  assumes "newRelayerClient env RELAYER_PROGRAM_ID wallet base asset = Inr c" "spl_standard env" "swap env c ps = Inr mc"
  shows "\<exists>ix. declared env field c mc ix"
proof -
  note pdas = newClient_pdas [OF assms(1)]
  from assms(3) obtain bAta aAta where k: "relayerAta env c (swBaseMint ps) = Inr bAta" "relayerAta env c (swAssetMint ps) = Inr aAta"
    and accts: "mcMethod mc = ''swap''" "mcArgs mc = [ArgBytes (swSwapIxData ps)]"
      "mcAccounts mc = [(''pairConfig'', Some (rcConfigPda c)), (''relayerAuthority'', Some (rcAuthorityPda c)),
      (''baseMint'', Some (swBaseMint ps)), (''assetMint'', Some (swAssetMint ps)), (''baseAta'', Some bAta), (''assetAta'', Some aAta),
      (''feeVault'', Some (swFeeVault ps)), (''nttInboxItem'', Some (swNttInboxItem ps)), (''flow'', Some (swFlowPda ps)),
      (''swapProgram'', Some (swSwapProgram ps)), (''swapDelegate'', Some (swSwapDelegate ps)), (''tokenProgram'', Some (TOKEN_PROGRAM_ID env))]"
    by (auto simp: swap_def elim!: rbind_InrE)
  show ?thesis
  proof (rule declaredI [OF find_ix(10)])
    assume "pair_ok c mc"
    then have "swBaseMint ps = rcBaseMint c" "swAssetMint ps = rcAssetMint c" by (simp_all add: pair_ok_def names_pair_def accts)
    then show "list_all2 (accountConforms env field (mcAccounts mc)) (ixAccounts ix_swap) (map snd (mcAccounts mc))"
      using pdas relayerAta_seeds [OF assms(2) k(1)] relayerAta_seeds [OF assms(2) k(2)] unfolding accts(3)
      by (simp add: ix_swap_def swap_accounts_def conform_simps)
  qed (simp_all add: accts ix_swap_def swap_accounts_def)
qed

lemma declared_remaining [simp]: "declared env field c (mc\<lparr>mcRemaining := r\<rparr>) ix \<longleftrightarrow> declared env field c mc ix"
  by (simp add: declared_def pair_ok_def names_pair_def)

lemma outboundBase_declared:
  assumes "newRelayerClient env RELAYER_PROGRAM_ID wallet base asset = Inr c" "spl_standard env"
    and "outboundBase env c m ps = Inr mc" "m = ''send'' \<or> m = ''refund''"
  shows "\<exists>ix. declared env field c mc ix"
proof -
  note pdas = newClient_pdas [OF assms(1)]
  from assms(3) obtain bAta aAta flow where k: "relayerAta env c (obBaseMint ps) = Inr bAta" "relayerAta env c (obAssetMint ps) = Inr aAta"
    and accts: "mcMethod mc = m" "mcArgs mc = [ArgNum (int NTT_TRANSFER_LOCK_ACCOUNT_COUNT)]"
      "mcAccounts mc = [(''payer'', Some (obPayer ps)), (''pairConfig'', Some (rcConfigPda c)),
      (''relayerAuthority'', Some (rcAuthorityPda c)), (''baseMint'', Some (obBaseMint ps)), (''assetMint'', Some (obAssetMint ps)),
      (''baseAta'', Some bAta), (''assetAta'', Some aAta), (''nttInboxItem'', Some (obNttInboxItem ps)), (''flow'', Some flow),
      (''rentDestination'', Some (obRentDestination ps)), (''tokenProgram'', Some (TOKEN_PROGRAM_ID env))]"
    by (auto simp: outboundBase_def split: prod.splits elim!: rbind_InrE)
  have "send_accounts = refund_accounts" "ixAccounts ix_send = send_accounts" "ixAccounts ix_refund = refund_accounts"
    and args: "ixArgs ix_send = [(''transferLockAccountCount'', TU8)]" "ixArgs ix_refund = [(''transferLockAccountCount'', TU8)]"
    by (simp_all add: send_accounts_def refund_accounts_def ix_send_def ix_refund_def)
  then have ixs: "ixAccounts ix_send = refund_accounts" "ixAccounts ix_refund = refund_accounts" by simp_all
  have all: "list_all2 (accountConforms env field (mcAccounts mc)) refund_accounts (map snd (mcAccounts mc))" if "pair_ok c mc"
  proof -
    have "obBaseMint ps = rcBaseMint c" "obAssetMint ps = rcAssetMint c"
      using that assms(4) by (auto simp: pair_ok_def names_pair_def accts)
    then show ?thesis using pdas relayerAta_seeds [OF assms(2) k(1)] relayerAta_seeds [OF assms(2) k(2)] unfolding accts(3)
      by (simp add: refund_accounts_def conform_simps)
  qed
  have names: "map fst (mcAccounts mc) = map iaName refund_accounts" unfolding accts(3) by (simp add: refund_accounts_def)
  from assms(4) show ?thesis
  proof
    assume "m = ''send''"
    then show ?thesis by (intro declaredI [OF find_ix(8)]) (simp_all add: accts(1,2) ixs args all names)
  next
    assume "m = ''refund''"
    then show ?thesis by (intro declaredI [OF find_ix(7)]) (simp_all add: accts(1,2) ixs args all names)
  qed
qed

lemma outbound_declared:
  assumes "newRelayerClient env RELAYER_PROGRAM_ID wallet base asset = Inr c" "spl_standard env"
  shows "send env c ps = Inr mc \<Longrightarrow> \<exists>ix. declared env field c mc ix" "refund env c ps = Inr mc \<Longrightarrow> \<exists>ix. declared env field c mc ix"
  using outboundBase_declared [OF assms]
  by (auto simp: send_def refund_def sendBase_def refundBase_def Let_def elim!: rbind_InrE)

text \<open>The one number of \<open>send\<close> and \<open>refund\<close> is a constant.\<close>

lemma outbound_args:
  "send env c ps = Inr mc \<Longrightarrow> mcArgs mc = [ArgNum 14]" "refund env c ps = Inr mc \<Longrightarrow> mcArgs mc = [ArgNum 14]"
  by (auto simp: send_def refund_def sendBase_def refundBase_def outboundBase_def NTT_TRANSFER_LOCK_ACCOUNT_COUNT_def Let_def elim!: rbind_InrE)

lemma receive_declared:
  assumes "newRelayerClient env RELAYER_PROGRAM_ID wallet base asset = Inr c" "spl_standard env"
    and "receive env c ps = Inr mc"
  shows "\<exists>ix. declared env field c mc ix"
proof -
  note pdas = newClient_pdas [OF assms(1)]
  from assms(3) obtain flow auth uAta rem n rAta prog where u: "ata env (rpRecvMint ps) auth True (TOKEN_PROGRAM_ID env) = Inr uAta"
    and r: "relayerAta env c (rpRecvMint ps) = Inr rAta"
    and accts: "mcMethod mc = ''receive''" "mcArgs mc = [ArgDirection (rpDirection ps), ArgNum (int n), ArgNum (rpMinSwapOut ps)]"
      "mcAccounts mc = [(''payer'', Some (rpPayer ps)), (''pairConfig'', Some (rcConfigPda c)),
        (''relayerAuthority'', Some (rcAuthorityPda c)), (''recvMint'', Some (rpRecvMint ps)),
        (''recvAta'', Some rAta), (''userWallet'', Some (rpUserWallet ps)),
        (''userInboxAuthority'', Some auth), (''userInboxAta'', Some uAta),
        (''nttInboxItem'', Some (rpNttInboxItem ps)), (''nttTransceiverMessage'', Some (rpNttTransceiverMessage ps)),
        (''nttProgram'', Some prog), (''flow'', Some flow),
        (''tokenProgram'', Some (TOKEN_PROGRAM_ID env)), (''systemProgram'', Some (SYSTEM_PROGRAM_ID env))]"
    unfolding receive_def Let_def userInboxBindings_def by (elim rbind_InrE) (auto split: prod.splits elim!: rbind_InrE)
  have "argKind (ArgDirection d) (TDefined ''direction'')" for d
    by (cases d) (simp_all add: idl_types_def ty_direction_def directionName_def)
  then have args: "list_all2 argKind (mcArgs mc) (map snd (ixArgs ix_receive))" unfolding accts(2) by (simp add: ix_receive_def)
  show ?thesis
  proof (rule declaredI [OF find_ix(6) _ _ _ args])
    show "list_all2 (accountConforms env field (mcAccounts mc)) (ixAccounts ix_receive) (map snd (mcAccounts mc))"
      using pdas relayerAta_seeds [OF assms(2) r] ata_seeds [OF assms(2) u] assms(2) unfolding accts(3)
      by (simp add: ix_receive_def receive_accounts_def spl_standard_def conform_simps)
  qed (simp_all add: accts ix_receive_def receive_accounts_def)
qed

section \<open>Claims\<close>

lemma client_methods:
  "bootstrap env c admin = Inr mc \<Longrightarrow> mcMethod mc = ''bootstrap''" "initialize env c ips = Inr mc \<Longrightarrow> mcMethod mc = ''initialize''"
  "configure env c cps = Inr mc \<Longrightarrow> mcMethod mc = ''configure''" "acceptAuthority c pending = Inr mc \<Longrightarrow> mcMethod mc = ''acceptAuthority''"
  "setAdmin c new admin = Inr mc \<Longrightarrow> mcMethod mc = ''setAdmin''" "acceptAdmin c pending = Inr mc \<Longrightarrow> mcMethod mc = ''acceptAdmin''"
  "swap env c sps = Inr mc \<Longrightarrow> mcMethod mc = ''swap''"
  by (auto simp: bootstrap_def initialize_def configure_def acceptAuthority_def setAdmin_def acceptAdmin_def swap_def Let_def elim!: rbind_InrE)

lemma receive_method: "receive env c ps = Inr mc \<Longrightarrow> mcMethod mc = ''receive''"
  unfolding receive_def Let_def userInboxBindings_def by (elim rbind_InrE) (auto split: prod.splits elim!: rbind_InrE)

lemma outbound_number:
  assumes "client_call env c mc" "mcMethod mc \<in> {''send'', ''refund''}"
  shows "mcArgs mc = [ArgNum 14]"
  using assms(1) by cases (use assms(2) in \<open>auto dest: client_methods receive_method outbound_args\<close>)

lemma client_call_declared:
  assumes "newRelayerClient env RELAYER_PROGRAM_ID wallet base asset = Inr c" "spl_standard env" "pair_data c field" "client_call env c mc"
  shows "\<exists>ix. declared env field c mc ix"
  using assms(4)
  by cases (blast intro: admin_calls_declared [OF assms(1-3)] initialize_declared [OF assms(1,2)] configure_declared [OF assms(1-3)]
    receive_declared [OF assms(1,2)] swap_declared [OF assms(1,2)] outbound_declared [OF assms(1,2)])+

text \<open>C16. The client speaks the interface of the program. Every call that a client of the deployed program builds, for any parameters,
  is a declared instruction; it names exactly the accounts that instruction declares, in order, and has as many arguments, each of
  the declared kind. Each account with a declared address or declared seeds is passed at the address that follows from the
  other accounts and the pair's data, and only optional accounts are left out; for \<open>swap\<close>, \<open>send\<close> and \<open>refund\<close>,
  whose mints are parameters beside the configuration of the client's pair, this is when the mints are the pair's. The client does not check
  numbers: the call conforms in full when each number passed in fits its declared width; the one number of \<open>send\<close> and \<open>refund\<close>
  always does.\<close>

theorem client_conforms_to_idl:
  assumes "newRelayerClient env RELAYER_PROGRAM_ID wallet base asset = Inr c" "spl_standard env" "pair_data c field"
    and "client_call env c mc"
  shows "\<exists>ix. find (\<lambda>ix. ixName ix = mcMethod mc) idl_instructions = Some ix \<and>
    map fst (mcAccounts mc) = map iaName (ixAccounts ix) \<and>
    list_all2 argKind (mcArgs mc) (map snd (ixArgs ix)) \<and>
    ((mcMethod mc \<in> {''swap'', ''send'', ''refund''} \<longrightarrow> names_pair c mc) \<longrightarrow>
      list_all2 (accountConforms env field (mcAccounts mc)) (ixAccounts ix) (map snd (mcAccounts mc)) \<and>
      (list_all2 argWidth (mcArgs mc) (map snd (ixArgs ix)) \<longrightarrow> conforms env field mc) \<and>
      (mcMethod mc \<in> {''send'', ''refund''} \<longrightarrow> conforms env field mc))"
proof -
  obtain ix where ix: "declared env field c mc ix" using client_call_declared [OF assms] by blast
  have "list_all2 argWidth (mcArgs mc) (map snd (ixArgs ix))" if m: "mcMethod mc \<in> {''send'', ''refund''}"
  proof -
    note outbound_number [OF assms(4) m]
    moreover have "ixArgs ix = [(''transferLockAccountCount'', TU8)]"
      using m ix find_ix(7,8) by (auto simp: declared_def ix_send_def ix_refund_def)
    ultimately show ?thesis by simp
  qed
  with ix declared_conforms [OF ix] show ?thesis unfolding pair_ok_def declared_def by blast
qed

text \<open>An environment that satisfies the standard: program addresses as in \<open>model_env\<close>, token accounts derived from them.\<close>

definition model_spl :: web3_env where
  "model_spl = model_env\<lparr>SYSTEM_PROGRAM_ID := pk58 ''11111111111111111111111111111111'',
     ASSOCIATED_TOKEN_PROGRAM_ID := pk58 ''ATokenGPvbdGVxr1b2hvZbsiqW5xWH25efTNsLJA8knL'',
     ata := (\<lambda>mint own allow tp. key_of (fpa model_env [own, tp, mint] (pk58 ''ATokenGPvbdGVxr1b2hvZbsiqW5xWH25efTNsLJA8knL'')))\<rparr>"

lemma model_spl_standard: "spl_standard model_spl"
  by (simp add: spl_standard_def model_spl_def)

lemma model_spl_total: "env_total model_spl"
proof -
  have "\<exists>k. key_of (fpa model_env s p) = Inr k" for s p by (simp add: key_of_def model_env_def)
  then show ?thesis using model_env_total by (simp add: env_total_def model_spl_def)
qed

lemma initialize_total: "env_total env \<Longrightarrow> \<exists>mc. initialize env c ps = Inr mc"
  using pda_total [of env] ata_total [of env]
  by (cases "initialize env c ps") (auto simp: initialize_def Let_def relayerAta_def findConfigPda_def key_of_def result_simps)

definition model_initialize :: InitializeParams where
  "model_initialize =
     \<lparr>inAuthority = replicate 32 7, inBaseMint = None, inAssetMint = None, inFeeVault = replicate 32 8, inDepositFeeBps = 50,
      inWithdrawFeeBps = 25, inNttBaseProgram = None, inNttAssetProgram = None, inIntentPrograms = None\<rparr>"

text \<open>A client of the pair, and the calls \<open>initialize\<close>, \<open>receive\<close> and \<open>send\<close> it builds: numbers of all three widths.\<close>

theorem client_conforms_to_idl_witness:
  "\<exists>c field i r s. newRelayerClient model_spl RELAYER_PROGRAM_ID None (replicate 32 2) (replicate 32 3) = Inr c \<and>
     initialize model_spl c model_initialize = Inr i \<and> conforms model_spl field i \<and>
     receive model_spl c model_receive = Inr r \<and> conforms model_spl field r \<and>
     send model_spl c (model_outbound Deposit) = Inr s \<and> conforms model_spl field s"
proof -
  obtain c where c: "newRelayerClient model_spl RELAYER_PROGRAM_ID None (replicate 32 2) (replicate 32 3) = Inr c"
    and mints: "rcBaseMint c = replicate 32 2" "rcAssetMint c = replicate 32 3"
    by (simp add: newRelayerClient_def findConfigPda_def findGlobalConfigPda_def findAuthorityPda_def key_of_def model_spl_def model_env_def)
  define field where "field a f = (if f = ''baseMint'' then Some (rcBaseMint c) else Some (rcAssetMint c))" for a f :: string
  have pd: "pair_data c field" by (simp add: pair_data_def field_def)
  note claim = client_conforms_to_idl [OF c model_spl_standard pd]
  obtain i where i: "initialize model_spl c model_initialize = Inr i" using initialize_total [OF model_spl_total] by blast
  have t: "rpTransceiverAddress model_receive = Some (replicate 32 12)" by (simp add: model_receive_def)
  then obtain r where r: "receive model_spl c model_receive = Inr r" using receive_total [OF model_spl_total] by blast
  have "length (obFlowRecipient (model_outbound Deposit)) = 32" by (simp add: model_outbound_def)
  then obtain s where s: "send model_spl c (model_outbound Deposit) = Inr s" using send_refund_total [OF model_spl_total] by blast
  have "mcArgs i = [ArgNum 50, ArgNum 25, ArgKey NTT_USDC_PROGRAM_ID, ArgKey NTT_ONYC_PROGRAM_ID,
      ArgKeys [INTENT_TRANSFER_PROGRAM_ID, ONRE_INTENT_PROGRAM_ID]]" and im: "mcMethod i = ''initialize''"
    using i by (auto simp: initialize_def model_initialize_def Let_def elim!: rbind_InrE)
  then have iw: "list_all2 argWidth (mcArgs i) (map snd (ixArgs ix_initialize))" by (simp add: ix_initialize_def)
  have "mcArgs r = [ArgDirection Deposit, ArgNum 11, ArgNum 5]" using receive_shape [OF r t] by (auto simp: model_receive_def)
  then have rw: "list_all2 argWidth (mcArgs r) (map snd (ixArgs ix_receive))" by (simp add: ix_receive_def)
  have rm: "mcMethod r = ''receive''" using receive_method [OF r] .
  have sm: "mcMethod s = ''send''" "map_of (mcAccounts s) ''baseMint'' = Some (Some (replicate 32 2))"
    "map_of (mcAccounts s) ''assetMint'' = Some (Some (replicate 32 3))"
    using s by (auto simp: send_def sendBase_def outboundBase_def model_outbound_def Let_def split: prod.splits elim!: rbind_InrE)
  then have np: "names_pair c s" by (simp add: names_pair_def mints)
  have "conforms model_spl field i" using claim [OF cc_initialize [OF i]] iw im find_ix(5) by auto
  moreover have "conforms model_spl field r" using claim [OF cc_receive [OF r]] rw rm find_ix(6) by auto
  moreover have "conforms model_spl field s" using claim [OF cc_send [OF s]] sm(1) np by auto
  ultimately show ?thesis using c i r s by blast
qed

section \<open>What else relies on the interface\<close>

text \<open>The errors that \<open>race-classifier.ts\<close> takes for a lost race have the codes the interface gives to these names.\<close>

lemma race_codes_declared:
  "map (map_of idl_errors \<circ> fst) RACE_TABLE = [Some ''flowStatusMismatch'', Some ''insufficientInboxBalance'']"
  by (simp add: RACE_TABLE_def idl_errors_def)

text \<open>Bytes of a field, for the types of fixed width, and where a field of a struct starts behind the discriminator.\<close>

fun width :: "idl_type \<Rightarrow> nat option" where
  "width TU8 = Some 1"
| "width TU16 = Some 2"
| "width TU64 = Some 8"
| "width TPubkey = Some 32"
| "width (TArray t n) = map_option (\<lambda>w. n * w) (width t)"
| "width _ = None"

fun fieldOffset :: "(string \<times> idl_type) list \<Rightarrow> string \<Rightarrow> nat \<Rightarrow> nat option" where
  "fieldOffset [] name at = None"
| "fieldOffset ((f, t) # fs) name at =
     (if f = name then Some at else Option.bind (width t) (\<lambda>w. fieldOffset fs name (at + w)))"

text \<open>The offsets at which \<open>deploy-relayer-send-lut.mjs\<close> reads the two mints are those of the declared layout.\<close>

lemma pair_mint_offsets:
  "case ty_pairConfig of TEnum _ \<Rightarrow> False
   | TStruct fs \<Rightarrow> fieldOffset fs ''baseMint'' 8 = Some 8 \<and> fieldOffset fs ''assetMint'' 8 = Some 40"
  by (simp add: ty_pairConfig_def)

end
