(* ===== verification/Recovery.thy ===== *)
theory Recovery
  imports Bridge Pyth
begin

text \<open>
  The two recovery scripts of the withdraw return leg: \<open>packages/cranker/scripts/release-stuck-usdc-outbox.mjs\<close> publishes the
  Wormhole message of an outbox item on Solana, \<open>scripts/redeem-stuck-usdc-fogo.mjs\<close> redeems the VAA on FOGO; and
  \<open>isVersionedTransaction\<close> of \<open>packages/cranker/src/utils/priority-fee.ts\<close>, the test the second one does not use.

  A script is a function from what it meets (environment variables, keypair, RPC, Wormholescan, the NTT SDK) to how it ends and the
  transactions it sent.
\<close>

section \<open>Which class a transaction has\<close>

text \<open>A value the SDK yields: whether it is an object, whether it has a \<open>message\<close>, whether its \<open>instructions\<close> are an array,
  whether it was made by the class \<open>VersionedTransaction\<close>, and whether by the copy of \<open>web3.js\<close> the caller imports.\<close>

record js_tx =
  jtIsObject :: bool
  jtHasMessage :: bool
  jtInstructionsArray :: bool
  jtVersionedClass :: bool
  jtOwnRealm :: bool

definition isVersionedTransaction :: "js_tx \<Rightarrow> bool" where
  "isVersionedTransaction tx \<longleftrightarrow> (if \<not> jtIsObject tx then False else jtHasMessage tx \<and> \<not> jtInstructionsArray tx)"

text \<open>\<open>tx instanceof VersionedTransaction\<close>\<close>

definition instanceofVersioned :: "js_tx \<Rightarrow> bool" where
  "instanceofVersioned tx \<longleftrightarrow> jtIsObject tx \<and> jtVersionedClass tx \<and> jtOwnRealm tx"

section \<open>What the scripts meet\<close>

record http_vaa =
  hvOk :: bool
  hvVaa :: "string option"

datatype recovery_tx =
    ReleaseOutbound TransactionInstruction
  | EnsureAta "solana_ix list"
  | SdkStep nat js_tx

record recovery_world =
  ryEnv :: web3_env
  ryVars :: "string \<Rightarrow> string option"
  ryKeypair :: "string \<Rightarrow> thrown + pubkey"
  ryDryRun :: bool
  ryGetAccountInfo :: "pubkey \<Rightarrow> thrown + account_info option"
  ryHttp :: "string \<Rightarrow> thrown + http_vaa"
  ryBase64 :: "string \<Rightarrow> bytes"
  ryTransceiver :: "thrown + bool"
  ryReleaseIx :: "pubkey \<Rightarrow> pubkey \<Rightarrow> thrown + TransactionInstruction"
  ryDeserialize :: "bytes \<Rightarrow> thrown + bytes"
  ryIsExecuted :: "bytes \<Rightarrow> thrown + bool"
  ryRedeem :: "bytes \<Rightarrow> pubkey \<Rightarrow> js_tx list \<times> thrown option"
  rySend :: "nat \<Rightarrow> recovery_tx \<Rightarrow> thrown + string"
  ryBlockhash :: "nat \<Rightarrow> thrown + string"
  ryConfirm :: "nat \<Rightarrow> string \<Rightarrow> thrown + unit"

type_synonym 'a script = "(recovery_tx list, 'a) io"

datatype script_end = Exit1 | Finished "string option"

definition submit_tx :: "recovery_world \<Rightarrow> recovery_tx \<Rightarrow> string script" where
  "submit_tx w tx sent = (rySend w (length sent) tx, sent @ [tx])"

text \<open>\<open>process.env.NAME ?? fallback\<close>\<close>

definition envOr :: "recovery_world \<Rightarrow> string \<Rightarrow> string \<Rightarrow> string" where
  "envOr w name fallback = ifNone (ryVars w name) fallback"

section \<open>Publishing an outbox item\<close>

definition USDC_NTT_MANAGER :: pubkey where
  "USDC_NTT_MANAGER = pk58 ''nttu74CdAmsErx5daJVCQNoDZujswFrskMzonoZSdGk''"

definition checkOutboxItem :: "recovery_world \<Rightarrow> pubkey \<Rightarrow> thrown + unit" where
  "checkOutboxItem w outboxItem =
     rbind (ryGetAccountInfo w outboxItem) (\<lambda>info.
       case info of
         None \<Rightarrow> Inl (of_js_error (Error ''OutboxItem does not exist''))
       | Some i \<Rightarrow> if aiOwner i \<noteq> USDC_NTT_MANAGER
                   then Inl (of_js_error (Error ''OutboxItem is not owned by the USDC NTT manager'')) else Inr ())"

definition releaseStuck :: "recovery_world \<Rightarrow> script_end script" where
  "releaseStuck w =
     (case ryVars w ''SOLANA_KEYPAIR'' of
        None \<Rightarrow> pure (Inr Exit1)
      | Some path \<Rightarrow>
          if path = [] then pure (Inr Exit1)
          else
            pbind (pure (ryKeypair w path)) (\<lambda>payer.
            pbind (pure (lift (fromBase58 (ryEnv w) (envOr w ''OUTBOX_ITEM'' ''BM8Bb4nMdMgWCRMGsX6GNspU2ez8gb8WGjW1tpYjFLN1'')))) (\<lambda>outboxItem.
            pbind (pure (checkOutboxItem w outboxItem)) (\<lambda>_.
            pbind (pure (ryTransceiver w)) (\<lambda>xcvr.
              if \<not> xcvr then pure (Inl (of_js_error (Error ''Wormhole transceiver wiring failed'')))
              else
                pbind (pure (ryReleaseIx w payer outboxItem)) (\<lambda>ix.
                  if ryDryRun w then pure (Inr (Finished None))
                  else pbind (submit_tx w (ReleaseOutbound ix)) (\<lambda>sig. pure (Inr (Finished (Some sig))))))))))"

section \<open>Redeeming the VAA\<close>

definition FOGO_USDC_S_MINT :: pubkey where
  "FOGO_USDC_S_MINT = pk58 ''uSd2czE61Evaf76RNbq4KPpXnkiL3irdzgLFUMe3NoG''"

definition stuckVaaUrl :: "recovery_world \<Rightarrow> string" where
  "stuckVaaUrl w = ''https://api.wormholescan.io/api/v1/vaas/'' @ envOr w ''VAA_EMITTER_CHAIN'' ''1'' @ ''/'' @
     envOr w ''VAA_EMITTER_HEX'' ''0bc1d0653e7fe51c48f66bfe24ca6466ba541770dc89b3ac3050ddd892e3f889'' @ ''/'' @
     envOr w ''VAA_SEQUENCE'' ''40440''"

definition stuckVaaBytes :: "recovery_world \<Rightarrow> thrown + bytes" where
  "stuckVaaBytes w =
     (if truthy (ryVars w ''VAA_HEX'') then Inr (bufferFromHex (strip0x (the (ryVars w ''VAA_HEX''))))
      else
        rbind (ryHttp w (stuckVaaUrl w)) (\<lambda>res.
          if \<not> hvOk res then Inl (of_js_error (Error ''Wormholescan status''))
          else if \<not> truthy (hvVaa res) then Inl (of_js_error (Error ''No data.vaa in response''))
          else Inr (ryBase64 w (the (hvVaa res)))))"

definition ensureUsdcAta :: "recovery_world \<Rightarrow> pubkey \<Rightarrow> pubkey \<Rightarrow> pubkey script" where
  "ensureUsdcAta w payer own =
     pbind (pure (lift (ata (ryEnv w) FOGO_USDC_S_MINT own True (TOKEN_PROGRAM_ID (ryEnv w))))) (\<lambda>account.
     pbind (pure (ryGetAccountInfo w account)) (\<lambda>existing.
       if existing \<noteq> None then pure (Inr account)
       else pbind (submit_tx w (EnsureAta [SetComputeUnitLimit 80000, CreateAtaIdempotent payer account own FOGO_USDC_S_MINT])) (\<lambda>_.
              pure (Inr account))))"

definition sendStep :: "recovery_world \<Rightarrow> nat \<Rightarrow> js_tx \<Rightarrow> string script" where
  "sendStep w i tx =
     (if instanceofVersioned tx then
        pbind (submit_tx w (SdkStep i tx)) (\<lambda>sig.
        pbind (\<lambda>sent. (ryBlockhash w (length sent), sent)) (\<lambda>_.
        pbind (\<lambda>sent. (ryConfirm w (length sent) sig, sent)) (\<lambda>_. pure (Inr sig))))
      else submit_tx w (SdkStep i tx))"

fun sendSteps :: "recovery_world \<Rightarrow> nat \<Rightarrow> js_tx list \<Rightarrow> thrown option \<Rightarrow> string option \<Rightarrow> string option script" where
  "sendSteps w i [] failed lastSig = pure (case failed of None \<Rightarrow> Inr lastSig | Some e \<Rightarrow> Inl e)"
| "sendSteps w i (tx # txs) failed lastSig = pbind (sendStep w i tx) (\<lambda>sig. sendSteps w (Suc i) txs failed (Some sig))"

definition redeemStuck :: "recovery_world \<Rightarrow> script_end script" where
  "redeemStuck w =
     (case ryVars w ''SOLANA_KEYPAIR'' of
        None \<Rightarrow> pure (Inr Exit1)
      | Some path \<Rightarrow>
          if path = [] then pure (Inr Exit1)
          else
            pbind (pure (ryKeypair w path)) (\<lambda>payer.
            pbind (pure (stuckVaaBytes w)) (\<lambda>vaaBytes.
            pbind (pure (ryDeserialize w vaaBytes)) (\<lambda>recipientAddress.
            pbind (pure (lift (newPublicKey (ryEnv w) recipientAddress))) (\<lambda>recipientOwner.
              if ryIsExecuted w vaaBytes = Inr True then pure (Inr (Finished None))
              else if ryDryRun w then
                pbind (pure (lift (ata (ryEnv w) FOGO_USDC_S_MINT recipientOwner True (TOKEN_PROGRAM_ID (ryEnv w))))) (\<lambda>_. pure (Inr (Finished None)))
              else
                pbind (ensureUsdcAta w payer recipientOwner) (\<lambda>_.
                  case ryRedeem w vaaBytes payer of
                    (txs, failed) \<Rightarrow> pbind (sendSteps w 0 txs failed None) (\<lambda>lastSig. pure (Inr (Finished lastSig)))))))))"

section \<open>What the scripts send\<close>

lemma snd_pure [simp]: "pure r s = (r, s)"
  by (simp add: pure_def)

lemma pbind_cases:
  assumes "pbind m f s = (r, s')"
  obtains e where "m s = (Inl e, s')" "r = Inl e" | x s1 where "m s = (Inr x, s1)" "f x s1 = (r, s')"
  using assms by (auto simp: pbind_def split: prod.splits sum.splits)

lemma pbind_pure: "pbind (pure r) f s = (case r of Inl e \<Rightarrow> (Inl e, s) | Inr x \<Rightarrow> f x s)"
  by (simp add: pbind_def split: sum.split)

lemma submit_sent: "submit_tx w tx sent = (r, sent') \<Longrightarrow> sent' = sent @ [tx]"
  by (simp add: submit_tx_def)

lemma sendStep_sent: "sendStep w i tx sent = (r, sent') \<Longrightarrow> sent' = sent @ [SdkStep i tx]"
  by (auto simp: sendStep_def submit_tx_def elim!: pbind_cases split: if_splits)

lemma sendSteps_sent:
  "sendSteps w i txs failed lastSig sent = (r, sent') \<Longrightarrow>
     set sent' \<subseteq> set sent \<union> {SdkStep (i + j) (txs ! j) |j. j < length txs}"
proof (induction txs arbitrary: i lastSig sent)
  case (Cons tx txs)
  have own: "SdkStep i tx \<in> {SdkStep (i + j) ((tx # txs) ! j) |j. j < length (tx # txs)}" by (auto intro: exI [of _ 0])
  have rest: "{SdkStep (Suc i + j) (txs ! j) |j. j < length txs} \<subseteq> {SdkStep (i + j) ((tx # txs) ! j) |j. j < length (tx # txs)}"
    by (force intro: exI [of _ "Suc j" for j])
  from Cons.prems have "pbind (sendStep w i tx) (\<lambda>sig. sendSteps w (Suc i) txs failed (Some sig)) sent = (r, sent')" by simp
  then show ?case
  proof (cases rule: pbind_cases)
    case (1 e)
    then show ?thesis using sendStep_sent [OF 1(1)] own by auto
  next
    case (2 sig s1)
    then show ?thesis using sendStep_sent [OF 2(1)] Cons.IH [OF 2(2)] own rest by auto
  qed
qed simp

lemma ensure_sent:
  assumes "ensureUsdcAta w payer own [] = (r, sent)"
  shows "sent = [] \<or> (\<exists>k. ata (ryEnv w) FOGO_USDC_S_MINT own True (TOKEN_PROGRAM_ID (ryEnv w)) = Inr k \<and>
    ryGetAccountInfo w k = Inr None \<and> sent = [EnsureAta [SetComputeUnitLimit 80000, CreateAtaIdempotent payer k own FOGO_USDC_S_MINT]])"
  using assms
  by (auto simp: ensureUsdcAta_def pbind_pure lift_def submit_tx_def elim!: pbind_cases split: sum.splits if_splits)

text \<open>What the redemption script may send: the account of the VAA's recipient, or a step of the redemption of that VAA.\<close>

definition redeems_for :: "recovery_world \<Rightarrow> recovery_tx \<Rightarrow> bool" where
  "redeems_for w tx \<longleftrightarrow>
     (\<exists>payer vaa recipient own. stuckVaaBytes w = Inr vaa \<and> ryDeserialize w vaa = Inr recipient \<and>
        newPublicKey (ryEnv w) recipient = Inr own \<and> ryIsExecuted w vaa \<noteq> Inr True \<and>
        ((\<exists>k. ata (ryEnv w) FOGO_USDC_S_MINT own True (TOKEN_PROGRAM_ID (ryEnv w)) = Inr k \<and> ryGetAccountInfo w k = Inr None \<and>
            tx = EnsureAta [SetComputeUnitLimit 80000, CreateAtaIdempotent payer k own FOGO_USDC_S_MINT]) \<or>
         (\<exists>i. i < length (fst (ryRedeem w vaa payer)) \<and> tx = SdkStep i (fst (ryRedeem w vaa payer) ! i))))"

definition releases_for :: "recovery_world \<Rightarrow> recovery_tx \<Rightarrow> bool" where
  "releases_for w tx \<longleftrightarrow>
     (\<exists>payer outboxItem info ix. ryGetAccountInfo w outboxItem = Inr (Some info) \<and> aiOwner info = USDC_NTT_MANAGER \<and>
        ryReleaseIx w payer outboxItem = Inr ix \<and> tx = ReleaseOutbound ix)"

lemma checkOutboxItem_ok:
  assumes "checkOutboxItem w k = Inr ()"
  shows "\<exists>info. ryGetAccountInfo w k = Inr (Some info) \<and> aiOwner info = USDC_NTT_MANAGER"
  using assms by (auto simp: checkOutboxItem_def elim!: rbind_InrE split: option.splits if_splits)

lemma release_sent:
  assumes "releaseStuck w [] = (r, sent)" "tx \<in> set sent"
  shows "\<not> ryDryRun w \<and> releases_for w tx"
proof -
  from assms obtain payer outboxItem ix where "checkOutboxItem w outboxItem = Inr ()" "ryReleaseIx w payer outboxItem = Inr ix"
    "\<not> ryDryRun w" "tx = ReleaseOutbound ix"
    by (auto simp: releaseStuck_def pbind_pure lift_def submit_tx_def elim!: pbind_cases split: option.splits sum.splits if_splits)
  then show ?thesis unfolding releases_for_def using checkOutboxItem_ok by blast
qed

lemma redeem_sent:
  assumes "redeemStuck w [] = (r, sent)" "tx \<in> set sent"
  shows "\<not> ryDryRun w \<and> redeems_for w tx"
proof -
  from assms obtain payer vaa recipient own where
    v: "stuckVaaBytes w = Inr vaa" "ryDeserialize w vaa = Inr recipient" "newPublicKey (ryEnv w) recipient = Inr own"
      "ryIsExecuted w vaa \<noteq> Inr True" "\<not> ryDryRun w"
    and run: "pbind (ensureUsdcAta w payer own) (\<lambda>_. case ryRedeem w vaa payer of
        (txs, failed) \<Rightarrow> pbind (sendSteps w 0 txs failed None) (\<lambda>lastSig. pure (Inr (Finished lastSig)))) [] = (r, sent)"
    by (auto simp: redeemStuck_def pbind_pure lift_def split: option.splits sum.splits if_splits)
  from run show ?thesis
  proof (cases rule: pbind_cases)
    case (1 e)
    with ensure_sent [OF 1(1)] assms(2) v show ?thesis unfolding redeems_for_def by auto
  next
    case (2 k s1)
    obtain txs failed where t: "ryRedeem w vaa payer = (txs, failed)" by fastforce
    with 2(2) obtain r' where "sendSteps w 0 txs failed None s1 = (r', sent)"
      by (auto elim!: pbind_cases)
    from sendSteps_sent [OF this] assms(2) consider "tx \<in> set s1" | j where "j < length txs" "tx = SdkStep j (txs ! j)" by auto
    then show ?thesis
    proof cases
      case 1
      with ensure_sent [OF 2(1)] v show ?thesis unfolding redeems_for_def by auto
    next
      case (2 j)
      with v t show ?thesis unfolding redeems_for_def by (metis fst_conv)
    qed
  qed
qed

section \<open>How far the redemption script gets\<close>

text \<open>The transactions of a whole run, in order: the token account when it is missing, then every step of the SDK.\<close>

definition redemptionTxs :: "pubkey \<Rightarrow> pubkey \<Rightarrow> pubkey \<Rightarrow> account_info option \<Rightarrow> js_tx list \<Rightarrow> recovery_tx list" where
  "redemptionTxs payer own account existing txs =
     (if existing = None then [EnsureAta [SetComputeUnitLimit 80000, CreateAtaIdempotent payer account own FOGO_USDC_S_MINT]] else []) @
     map (\<lambda>j. SdkStep j (txs ! j)) [0..<length txs]"

text \<open>All but the last of the transactions were accepted by the node, and the last one too when nothing was thrown.\<close>

definition sent_until :: "recovery_world \<Rightarrow> (thrown + 'a) \<Rightarrow> recovery_tx list \<Rightarrow> bool" where
  "sent_until w r sent \<longleftrightarrow> (\<forall>i. Suc i < length sent \<or> i < length sent \<and> \<not> isl r \<longrightarrow> \<not> isl (rySend w i (sent ! i)))"

lemma sendStep_accepted:
  "sendStep w i tx sent = (Inr sig, sent') \<Longrightarrow> \<not> isl (rySend w (length sent) (SdkStep i tx))"
  by (auto simp: sendStep_def submit_tx_def elim!: pbind_cases split: if_splits)

lemma sent_until_snoc:
  "sent_until w (Inr x) sent \<Longrightarrow> \<not> isl r \<longrightarrow> \<not> isl (rySend w (length sent) tx) \<Longrightarrow> sent_until w r (sent @ [tx])"
  unfolding sent_until_def by (auto simp: nth_append less_Suc_eq)

lemma upt_0_Suc: "[0..<Suc n] = 0 # map Suc [0..<n]"
  by (simp add: upt_conv_Cons map_Suc_upt del: upt_Suc)

lemma sendSteps_exact:
  assumes "sendSteps w i txs failed l sent = (r, sent')" "sent_until w (Inr ()) sent"
  shows "\<exists>n \<le> length txs. sent' = sent @ map (\<lambda>j. SdkStep (i + j) (txs ! j)) [0..<n] \<and> sent_until w r sent' \<and>
    (\<not> isl r \<longrightarrow> n = length txs \<and> failed = None)"
  using assms
proof (induction txs arbitrary: i l sent)
  case Nil
  then show ?case by (auto simp: sent_until_def split: option.splits)
next
  case (Cons tx txs)
  from Cons.prems(1) have "pbind (sendStep w i tx) (\<lambda>sig. sendSteps w (Suc i) txs failed (Some sig)) sent = (r, sent')" by simp
  then show ?case
  proof (cases rule: pbind_cases)
    case (1 e)
    then show ?thesis using sendStep_sent [OF 1(1)] sent_until_snoc [OF Cons.prems(2), of r] by (intro exI [of _ 1]) simp
  next
    case (2 sig s1)
    then have s1: "s1 = sent @ [SdkStep i tx]" and "sent_until w (Inr ()) s1"
      using sendStep_sent [OF 2(1)] sendStep_accepted [OF 2(1)] sent_until_snoc [OF Cons.prems(2), of "Inr ()"] by simp_all
    from Cons.IH [OF 2(2) this(2)] obtain n where n: "n \<le> length txs"
      "sent' = s1 @ map (\<lambda>j. SdkStep (Suc i + j) (txs ! j)) [0..<n]" "sent_until w r sent'" "\<not> isl r \<longrightarrow> n = length txs \<and> failed = None"
      by blast
    have "sent' = sent @ map (\<lambda>j. SdkStep (i + j) ((tx # txs) ! j)) [0..<Suc n]"
      unfolding n(2) s1 upt_0_Suc by simp
    with n show ?thesis by (intro exI [of _ "Suc n"]) (simp del: upt_Suc)
  qed
qed

lemma ensure_exact:
  assumes "ensureUsdcAta w payer own [] = (r, sent)" "sent \<noteq> [] \<or> \<not> isl r"
  shows "\<exists>account existing. ata (ryEnv w) FOGO_USDC_S_MINT own True (TOKEN_PROGRAM_ID (ryEnv w)) = Inr account \<and>
    ryGetAccountInfo w account = Inr existing \<and> sent = redemptionTxs payer own account existing [] \<and> sent_until w r sent"
proof -
  let ?a = "ata (ryEnv w) FOGO_USDC_S_MINT own True (TOKEN_PROGRAM_ID (ryEnv w))"
  let ?tx = "\<lambda>k. EnsureAta [SetComputeUnitLimit 80000, CreateAtaIdempotent payer k own FOGO_USDC_S_MINT]"
  from assms obtain account existing where a: "?a = Inr account" "ryGetAccountInfo w account = Inr existing"
    by (auto simp: ensureUsdcAta_def pbind_pure lift_def split: sum.splits)
  show ?thesis
  proof (cases existing)
    case None
    with assms(1) a have "pbind (submit_tx w (?tx account)) (\<lambda>_. pure (Inr account)) [] = (r, sent)"
      by (simp add: ensureUsdcAta_def pbind_pure lift_def)
    then have "sent = [?tx account]" "\<not> isl r \<longrightarrow> \<not> isl (rySend w 0 (?tx account))"
      by (auto simp: submit_tx_def elim!: pbind_cases)
    with a None show ?thesis by (simp add: redemptionTxs_def sent_until_def)
  next
    case (Some i)
    with assms(1) a have "sent = []" by (simp add: ensureUsdcAta_def pbind_pure lift_def)
    with a Some show ?thesis by (simp add: redemptionTxs_def sent_until_def)
  qed
qed

text \<open>C34. When \<open>redeem-stuck-usdc-fogo\<close> sends anything, it is no dry run, the VAA it read is not known as executed, and what it
  sends is, in order and without a gap, a beginning of: the creation of the USDC.s account of the recipient the VAA names,
  paid by the keypair of \<open>SOLANA_KEYPAIR\<close>, exactly when that account does not exist, then the steps the SDK gives for this VAA.
  It stops at the first transaction the node refuses, and a run that ends without an exception has sent all
  of them, with no failure of the SDK at the end.\<close>

theorem redemption_script_exact:
  assumes "redeemStuck w [] = (r, sent)" "sent \<noteq> []"
  shows "\<exists>path payer vaa recipient own account existing txs failed.
    ryVars w ''SOLANA_KEYPAIR'' = Some path \<and> ryKeypair w path = Inr payer \<and> stuckVaaBytes w = Inr vaa \<and>
    ryDeserialize w vaa = Inr recipient \<and> newPublicKey (ryEnv w) recipient = Inr own \<and>
    ryIsExecuted w vaa \<noteq> Inr True \<and> \<not> ryDryRun w \<and>
    ata (ryEnv w) FOGO_USDC_S_MINT own True (TOKEN_PROGRAM_ID (ryEnv w)) = Inr account \<and>
    ryGetAccountInfo w account = Inr existing \<and> ryRedeem w vaa payer = (txs, failed) \<and>
    sent = take (length sent) (redemptionTxs payer own account existing txs) \<and> sent_until w r sent \<and>
    (\<not> isl r \<longrightarrow> sent = redemptionTxs payer own account existing txs \<and> failed = None)"
proof -
  from assms obtain path payer vaa recipient own where
    v: "ryVars w ''SOLANA_KEYPAIR'' = Some path" "ryKeypair w path = Inr payer" "stuckVaaBytes w = Inr vaa"
      "ryDeserialize w vaa = Inr recipient" "newPublicKey (ryEnv w) recipient = Inr own"
      "ryIsExecuted w vaa \<noteq> Inr True" "\<not> ryDryRun w"
    and run: "pbind (ensureUsdcAta w payer own) (\<lambda>_. case ryRedeem w vaa payer of
        (txs, failed) \<Rightarrow> pbind (sendSteps w 0 txs failed None) (\<lambda>lastSig. pure (Inr (Finished lastSig)))) [] = (r, sent)"
    by (auto simp: redeemStuck_def pbind_pure lift_def split: option.splits sum.splits if_splits)
  obtain txs failed where t: "ryRedeem w vaa payer = (txs, failed)" by fastforce
  have "\<exists>account existing. ata (ryEnv w) FOGO_USDC_S_MINT own True (TOKEN_PROGRAM_ID (ryEnv w)) = Inr account \<and>
    ryGetAccountInfo w account = Inr existing \<and>
    sent = take (length sent) (redemptionTxs payer own account existing txs) \<and> sent_until w r sent \<and>
    (\<not> isl r \<longrightarrow> sent = redemptionTxs payer own account existing txs \<and> failed = None)"
    using run
  proof (cases rule: pbind_cases)
    case (1 e)
    from ensure_exact [OF 1(1)] assms(2) 1(2) show ?thesis by (auto simp: redemptionTxs_def sent_until_def)
  next
    case (2 k s1)
    from ensure_exact [OF 2(1)] obtain account existing where a: "ata (ryEnv w) FOGO_USDC_S_MINT own True (TOKEN_PROGRAM_ID (ryEnv w)) = Inr account"
      "ryGetAccountInfo w account = Inr existing" "s1 = redemptionTxs payer own account existing []" "sent_until w (Inr ()) s1"
      by (auto simp: sent_until_def)
    from 2(2) t obtain r' where "sendSteps w 0 txs failed None s1 = (r', sent)" "isl r' \<longleftrightarrow> isl r"
      by (auto elim!: pbind_cases)
    moreover from sendSteps_exact [OF this(1) a(4)] obtain n where n: "n \<le> length txs"
      "sent = s1 @ map (\<lambda>j. SdkStep j (txs ! j)) [0..<n]" "sent_until w r' sent" "\<not> isl r' \<longrightarrow> n = length txs \<and> failed = None"
      by auto
    moreover have "map (\<lambda>j. SdkStep j (txs ! j)) [0..<n] = take n (map (\<lambda>j. SdkStep j (txs ! j)) [0..<length txs])"
      using n(1) by (simp add: take_map)
    ultimately show ?thesis using a by (auto simp: redemptionTxs_def sent_until_def)
  qed
  with v t show ?thesis by blast
qed

text \<open>A world in which the VAA comes from Wormholescan, the recipient has no account yet and the SDK gives one step.\<close>

definition model_recovery :: recovery_world where
  "model_recovery =
     \<lparr>ryEnv = model_env, ryVars = (\<lambda>name. if name = ''SOLANA_KEYPAIR'' then Some ''key.json'' else None),
      ryKeypair = (\<lambda>_. Inr (replicate 32 1)), ryDryRun = False, ryGetAccountInfo = (\<lambda>_. Inr None),
      ryHttp = (\<lambda>_. Inr \<lparr>hvOk = True, hvVaa = Some ''AQ==''\<rparr>), ryBase64 = (\<lambda>_. [1]), ryTransceiver = Inr True,
      ryReleaseIx = (\<lambda>_ _. Inl (of_js_error (Error ''unused''))), ryDeserialize = (\<lambda>_. Inr (replicate 32 7)),
      ryIsExecuted = (\<lambda>_. Inr False),
      ryRedeem = (\<lambda>_ _. ([\<lparr>jtIsObject = True, jtHasMessage = True, jtInstructionsArray = False, jtVersionedClass = True,
        jtOwnRealm = True\<rparr>], None)),
      rySend = (\<lambda>n _. Inr ''sig''), ryBlockhash = (\<lambda>_. Inr ''hash''), ryConfirm = (\<lambda>_ _. Inr ())\<rparr>"

theorem redemption_script_exact_witness:
  "\<exists>sent. redeemStuck model_recovery [] = (Inr (Finished (Some ''sig'')), sent) \<and> length sent = 2 \<and>
     (\<exists>payer own account txs. sent = redemptionTxs payer own account None txs \<and> length txs = 1)"
proof -
  obtain sent where run: "redeemStuck model_recovery [] = (Inr (Finished (Some ''sig'')), sent)" and len: "length sent = 2"
    by (simp add: redeemStuck_def model_recovery_def pbind_pure lift_def stuckVaaBytes_def truthy_def envOr_def ifNone_def model_env_def
        ensureUsdcAta_def submit_tx_def sendStep_def instanceofVersioned_def pbind_def)
  from len have "sent \<noteq> []" by auto
  from redemption_script_exact [OF run this] obtain payer vaa own account existing txs failed where
    got: "ryGetAccountInfo model_recovery account = Inr existing" "ryRedeem model_recovery vaa payer = (txs, failed)"
      "sent = redemptionTxs payer own account existing txs"
    by auto
  from got(1,2) have "existing = None" "length txs = 1" by (auto simp: model_recovery_def)
  with got(3) run len show ?thesis by blast
qed

section \<open>A divergence from the documentation\<close>

text \<open>\<open>utils/priority-fee.ts\<close> explains why a transaction of the SDK must not be recognised with \<open>instanceof\<close>. The script does so: a
  versioned transaction made by another copy of \<open>web3.js\<close> takes its legacy path.\<close>

lemma foreign_versioned_misrouted:
  assumes "jtIsObject tx" "jtHasMessage tx" "\<not> jtInstructionsArray tx" "\<not> jtOwnRealm tx"
  shows "isVersionedTransaction tx" "sendStep w i tx = submit_tx w (SdkStep i tx)"
  using assms by (simp_all add: isVersionedTransaction_def sendStep_def instanceofVersioned_def)

end
