(* ===== verification/Cli_Context.thy ===== *)
theory Cli_Context
  imports Relayer_Base
begin

text \<open>
  The frame of the command line interface (\<open>packages/cli/src/context.ts\<close>, \<open>cli.ts\<close>): how the RPC endpoint, the signer and
  the client of a command are chosen, how a transaction is sent and its failure reported, and the dry-run gate that
  every changing command has.

  Files, the environment and the key-pair codec of web3.js are fields of \<open>cli_world\<close>; RPC queries, the spl-token decoders and
  the submission of a transaction are fields of \<open>Context\<close>. What a command prints is not modelled.
\<close>

section \<open>Choosing endpoint, signer and pair\<close>

definition USDC_MINT :: pubkey where
  "USDC_MINT = pk58 ''EPjFWdd5AufqSSqeM2qN1xzybapC8G4wEGGkZwyTDt1v''"

definition ONYC_MINT :: pubkey where
  "ONYC_MINT = pk58 ''5Y8NV33Vv7WbnLfq3zBcKSdYPrk7g2KoiQoe7M2tcxp5''"

record cli_world =
  cwEnv :: web3_env
  cwClusterApiUrl :: "string \<Rightarrow> string"
  cwReadFile :: "string \<Rightarrow> thrown + string"
  cwKeypairOfText :: "string \<Rightarrow> thrown + pubkey"
  cwGenerate :: pubkey
  cwSolanaKeypair :: "string option"
  cwHomedir :: string

definition VALID_CLUSTERS :: "string list" where
  "VALID_CLUSTERS = [''mainnet-beta'', ''testnet'', ''devnet'']"

definition resolveRpcUrl :: "cli_world \<Rightarrow> string option \<Rightarrow> string result" where
  "resolveRpcUrl w url =
     (if \<not> truthy url then Inr (cwClusterApiUrl w ''mainnet-beta'')
      else if is_prefix ''http'' (the url) then Inr (the url)
      else if the url \<notin> set VALID_CLUSTERS then Inl (Error ''Unknown cluster. Use: mainnet-beta, testnet, devnet, or an HTTP(S) URL'')
      else Inr (cwClusterApiUrl w (the url)))"

definition keypairFile :: "cli_world \<Rightarrow> string option \<Rightarrow> string" where
  "keypairFile w path = ifNone path (ifNone (cwSolanaKeypair w) (cwHomedir w @ ''/.config/solana/id.json''))"

definition resolveKeypair :: "cli_world \<Rightarrow> string option \<Rightarrow> thrown + pubkey" where
  "resolveKeypair w path = rbind (cwReadFile w (keypairFile w path)) (cwKeypairOfText w)"

record cli_opts =
  coUrl :: "string option"
  coKeypair :: "string option"
  coReadOnly :: bool
  coBaseMint :: "string option"
  coAssetMint :: "string option"

text \<open>\<open>opt ? new PublicKey(opt) : fallback\<close>\<close>

definition keyOr :: "web3_env \<Rightarrow> string option \<Rightarrow> pubkey \<Rightarrow> pubkey result" where
  "keyOr env given fallback = (if truthy given then fromBase58 env (the given) else Inr fallback)"

text \<open>The endpoint, the signer and the client of a command.\<close>

definition initContext :: "cli_world \<Rightarrow> cli_opts \<Rightarrow> thrown + (string \<times> pubkey \<times> RelayerClient)" where
  "initContext w opts =
     rbind (lift (resolveRpcUrl w (coUrl opts))) (\<lambda>url.
     rbind (if coReadOnly opts then Inr (cwGenerate w) else resolveKeypair w (coKeypair opts)) (\<lambda>keypair.
     rbind (lift (keyOr (cwEnv w) (coBaseMint opts) USDC_MINT)) (\<lambda>baseMint.
     rbind (lift (keyOr (cwEnv w) (coAssetMint opts) ONYC_MINT)) (\<lambda>assetMint.
     rbind (lift (newRelayerClient (cwEnv w) RELAYER_PROGRAM_ID (Some keypair) baseMint assetMint)) (\<lambda>client.
       Inr (url, keypair, client))))))"

definition READ_ONLY_COMMANDS :: "string list" where
  "READ_ONLY_COMMANDS = [''show'', ''status'']"

definition preAction :: "cli_world \<Rightarrow> cli_opts \<Rightarrow> string \<Rightarrow> thrown + (string \<times> pubkey \<times> RelayerClient)" where
  "preAction w opts command =
     (let isReadOnly = (command \<in> set READ_ONLY_COMMANDS)
      in initContext w (opts\<lparr>coKeypair := (if isReadOnly then None else coKeypair opts), coReadOnly := isReadOnly\<rparr>))"

text \<open>A read-only command never opens a key file: neither its file system nor its key option nor the key of the environment can
  change what it does.\<close>

lemma read_only_ignores_keys:
  assumes "command \<in> set READ_ONLY_COMMANDS"
  shows "preAction (w\<lparr>cwReadFile := f, cwKeypairOfText := g, cwSolanaKeypair := k\<rparr>) (opts\<lparr>coKeypair := p\<rparr>) command =
    preAction w opts command"
  using assms by (simp add: preAction_def initContext_def resolveRpcUrl_def)

text \<open>A signing command signs with the named key file, else with that of the environment, else with the default one.\<close>

lemma signing_command_key:
  assumes "preAction w opts command = Inr (url, keypair, client)" "command \<notin> set READ_ONLY_COMMANDS"
  shows "rbind (cwReadFile w (keypairFile w (coKeypair opts))) (cwKeypairOfText w) = Inr keypair"
    "rcWallet client = Some keypair"
  using assms by (auto simp: preAction_def initContext_def resolveKeypair_def newRelayerClient_def result_simps)

section \<open>Failures of a transaction\<close>

definition lower :: "char \<Rightarrow> char" where
  "lower c = (let n = of_char c :: nat in if 65 \<le> n \<and> n \<le> 90 then char_of (n + 32) else c)"

text \<open>\<open>/custom program error: 0x([0-9a-f]+)/i\<close>: the digits of the leftmost match.\<close>

definition PROGRAM_ERROR_RE :: string where
  "PROGRAM_ERROR_RE = ''custom program error: 0x''"

fun programErrorDigits :: "string \<Rightarrow> string option" where
  "programErrorDigits [] = None"
| "programErrorDigits (c # s) =
     (let digits = takeWhile hex_char (drop (length PROGRAM_ERROR_RE) (c # s))
      in if is_prefix PROGRAM_ERROR_RE (map lower (c # s)) \<and> digits \<noteq> [] then Some digits
         else programErrorDigits s)"

definition codeLine :: "err_obj \<Rightarrow> string" where
  "codeLine e =
     (case programErrorDigits (eoMessage e) of
        Some m \<Rightarrow> ''Transaction failed: program error 0x'' @ m @ '' ('' @ dec_of_nat (foldl (\<lambda>a c. 16 * a + hex_value c) 0 m) @ '')''
      | None \<Rightarrow> ''Transaction failed: '' @ eoMessage e)"

definition logTail :: "string list \<Rightarrow> string" where
  "logTail logs = concat (map (\<lambda>l. newline # ''  '' @ l) (drop (length logs - 25) logs))"

definition formatTxError :: "thrown \<Rightarrow> thrown" where
  "formatTxError err =
     (case err of
        Primitive _ \<Rightarrow> toError err
      | Object e \<Rightarrow>
          if eoIsError e \<and> eoCtor e = ''SendTransactionError'' then
            Object (plain_error ''Error''
              (if eoLogs e = [] then codeLine e
               else codeLine e @ newline # ''Program logs (last 25):'' @ logTail (eoLogs e)))
          else toError err)"

definition runTx :: "thrown + 'a \<Rightarrow> thrown + 'a" where
  "runTx r = (case r of Inl e \<Rightarrow> Inl (formatTxError e) | Inr x \<Rightarrow> Inr x)"

lemma formatTxError_is_error: "\<exists>e. formatTxError err = Object e \<and> eoIsError e"
  by (cases err) (auto simp: formatTxError_def toError_def plain_error_def)

text \<open>What the program wrote is never lost: the error of a failed transaction ends in the last lines of its log, the
  newest included.\<close>

lemma formatTxError_keeps_log:
  assumes "eoIsError e" "eoCtor e = ''SendTransactionError''" "eoLogs e \<noteq> []"
  shows "\<exists>pre. formatTxError (Object e) = Object (plain_error ''Error'' (pre @ last (eoLogs e)))"
proof -
  let ?t = "drop (length (eoLogs e) - 25) (eoLogs e)"
  have "?t \<noteq> []" "last ?t = last (eoLogs e)" using assms(3) by (cases "eoLogs e"; simp add: last_drop)+
  then obtain ts where "?t = ts @ [last (eoLogs e)]" by (metis append_butlast_last_id)
  then have "logTail (eoLogs e) = (concat (map (\<lambda>l. newline # ''  '' @ l) ts) @ newline # ''  '') @ last (eoLogs e)"
    by (simp add: logTail_def)
  with assms have "formatTxError (Object e) = Object (plain_error ''Error''
      ((codeLine e @ newline # ''Program logs (last 25):'' @ concat (map (\<lambda>l. newline # ''  '' @ l) ts) @ newline # ''  '') @ last (eoLogs e)))"
    by (simp add: formatTxError_def)
  then show ?thesis by (rule exI)
qed

section \<open>The context of a command\<close>

record cli_account = account_info +
  caExecutable :: bool

record GlobalConfig =
  gcAdmin :: pubkey
  gcPendingAdmin :: "pubkey option"

record admin_config = PairConfig +
  adAuthority :: pubkey
  adPendingAuthority :: "pubkey option"
  adIntentPrograms :: "pubkey \<times> pubkey"
  adDepositFeeBps :: int

text \<open>\<open>cxDecodeToken\<close> is the mint and the owner spl-token's \<open>AccountLayout\<close> reads.\<close>

record Context =
  cxEnv :: web3_env
  cxKeypair :: pubkey
  cxClient :: RelayerClient
  cxGetAccountInfo :: "pubkey \<Rightarrow> thrown + cli_account option"
  cxGetMint :: "pubkey \<Rightarrow> thrown + nat"
  cxDecodeToken :: "bytes \<Rightarrow> thrown + bytes \<times> bytes"
  cxFetchGlobalConfig :: "pubkey \<Rightarrow> thrown + GlobalConfig"
  cxFetchConfig :: "thrown + admin_config"

section \<open>The dry-run gate\<close>

text \<open>A command either stops after printing its plan, or builds a transaction and broadcasts it inside \<open>runTx\<close>. The second
  component of a run is what was handed to the network.\<close>

datatype 'tx cli_plan = DryRun | Broadcast "thrown + 'tx"

definition runPlan :: "('tx \<Rightarrow> thrown + string) \<Rightarrow> thrown + 'tx cli_plan \<Rightarrow> (thrown + string option) \<times> 'tx list" where
  "runPlan rpc p =
     (case p of
        Inl e \<Rightarrow> (Inl e, [])
      | Inr DryRun \<Rightarrow> (Inr None, [])
      | Inr (Broadcast b) \<Rightarrow>
          (runTx (rbind b (\<lambda>tx. rbind (rpc tx) (\<lambda>sig. Inr (Some sig)))),
           (case b of Inl _ \<Rightarrow> [] | Inr tx \<Rightarrow> [tx])))"

definition throwIf :: "bool \<Rightarrow> string \<Rightarrow> thrown + unit" where
  "throwIf b m = (if b then Inl (of_js_error (Error m)) else Inr ())"

lemma throwIf_Inr_iff [result_simps]: "throwIf b m = Inr u \<longleftrightarrow> \<not> b"
  by (simp add: throwIf_def)

lemma throwIf_simps [simp]: "throwIf False m = Inr ()" "throwIf True m = Inl (of_js_error (Error m))"
  by (simp_all add: throwIf_def)

definition gate :: "bool \<Rightarrow> thrown + 'tx \<Rightarrow> 'tx cli_plan" where
  "gate confirm b = (if confirm then Broadcast b else DryRun)"

lemma gate_Broadcast_iff [result_simps]: "gate c b = Broadcast b' \<longleftrightarrow> c \<and> b = b'"
  by (simp add: gate_def)

text \<open>The contract of a changing command: it broadcasts only when the operator confirmed, and only what its checks allow.\<close>

locale guarded_command =
  fixes confirmed :: "'o \<Rightarrow> bool"
    and plan :: "Context \<Rightarrow> 'o \<Rightarrow> thrown + 'tx cli_plan"
    and allowed :: "Context \<Rightarrow> 'o \<Rightarrow> bool"
  assumes broadcast_confirmed: "plan ctx opts = Inr (Broadcast b) \<Longrightarrow> confirmed opts"
    and plan_allowed: "plan ctx opts = Inr p \<Longrightarrow> allowed ctx opts"
begin

lemma submitted_planned: "snd (runPlan rpc (plan ctx opts)) = txs \<Longrightarrow> tx \<in> set txs \<Longrightarrow> txs = [tx] \<and> plan ctx opts = Inr (Broadcast (Inr tx))"
  by (auto simp: runPlan_def split: sum.splits cli_plan.splits)

lemma dry_run_sends_nothing: "\<not> confirmed opts \<Longrightarrow> snd (runPlan rpc (plan ctx opts)) = []"
  using broadcast_confirmed [of ctx opts] by (auto simp: runPlan_def split: sum.split cli_plan.split)

lemma refused_sends_nothing:
  assumes "\<not> allowed ctx opts"
  shows "isl (fst (runPlan rpc (plan ctx opts)))" "snd (runPlan rpc (plan ctx opts)) = []"
  using assms plan_allowed [of ctx opts] by (auto simp: runPlan_def split: sum.split cli_plan.split)

lemma succeeded_submitted:
  "fst (runPlan rpc (plan ctx opts)) = Inr (Some sig) \<Longrightarrow>
     \<exists>tx. snd (runPlan rpc (plan ctx opts)) = [tx] \<and> rpc tx = Inr sig \<and> confirmed opts \<and> allowed ctx opts"
  using broadcast_confirmed [of ctx opts] plan_allowed [of ctx opts]
  by (auto simp: runPlan_def runTx_def result_simps split: sum.splits cli_plan.splits)

end

end
