(* ===== verification/Cli_Relayer.thy ===== *)
theory Cli_Relayer
  imports Cli_Context
begin

text \<open>
  The administration commands of the relayer (\<open>packages/cli/src/commands/relayer.ts\<close>). A command is its plan, from the first
  query to the decision to broadcast, run by \<open>runPlan\<close>; the checks stand in the order of the source. One handler of the
  program itself, the pending authority of \<open>configure\<close> (\<open>programs/relayer/src/instructions/configure.rs\<close>), is modelled to
  say what the sent argument does.
\<close>

section \<open>Arguments\<close>

fun splitOn :: "char \<Rightarrow> string \<Rightarrow> string list" where
  "splitOn sep [] = [[]]"
| "splitOn sep (c # s) =
     (if c = sep then [] # splitOn sep s
      else case splitOn sep s of [] \<Rightarrow> [[c]] | p # ps \<Rightarrow> (c # p) # ps)"

definition parseIntentPrograms :: "web3_env \<Rightarrow> string option \<Rightarrow> (pubkey \<times> pubkey) result" where
  "parseIntentPrograms env raw =
     (if \<not> truthy raw then Inr (INTENT_TRANSFER_PROGRAM_ID, ONRE_INTENT_PROGRAM_ID)
      else
        let parts = filter (\<lambda>s. s \<noteq> []) (map trim (splitOn CHR '','' (the raw)))
        in if length parts \<noteq> 2 then Inl (Error ''--intent-programs expects exactly 2 comma-separated pubkeys'')
           else rbind (fromBase58 env (parts ! 0)) (\<lambda>a. rbind (fromBase58 env (parts ! 1)) (\<lambda>b. Inr (a, b))))"

text \<open>A value of \<open>Number\<close> too large to be exact is out of range as well.\<close>

definition parseFeeBps :: "string \<Rightarrow> int result" where
  "parseFeeBps raw =
     (if \<not> (raw \<noteq> [] \<and> list_all is_digit raw) then Inl (Error ''is not a plain non-negative integer'')
      else let bps = int (nat_of_dec raw)
           in if bps < 0 \<or> bps > MAX_FEE_BPS then Inl (Error ''out of range'') else Inr bps)"

definition checkFeeVault :: "Context \<Rightarrow> pubkey \<Rightarrow> pubkey \<Rightarrow> pubkey \<Rightarrow> thrown + pubkey" where
  "checkFeeVault ctx authorityPda assetMint feeVault =
     rbind (cxGetAccountInfo ctx feeVault) (\<lambda>acct.
       case acct of
         None \<Rightarrow> Inl (of_js_error (Error ''feeVault does not exist''))
       | Some a \<Rightarrow>
           rbind (throwIf (aiOwner a \<noteq> TOKEN_PROGRAM_ID (cxEnv ctx)) ''feeVault is not owned by SPL Token program'') (\<lambda>_.
           rbind (cxDecodeToken ctx (aiData a)) (\<lambda>(mint, own).
           rbind (lift (newPublicKey (cxEnv ctx) mint)) (\<lambda>fvMint.
           rbind (lift (newPublicKey (cxEnv ctx) own)) (\<lambda>fvOwner.
           rbind (throwIf (fvMint \<noteq> assetMint) ''feeVault holds another mint'') (\<lambda>_.
           rbind (throwIf (fvOwner = authorityPda) ''feeVault is owned by relayer authority PDA'') (\<lambda>_.
             Inr fvOwner)))))))"

definition fetchGlobalConfig :: "Context \<Rightarrow> thrown + GlobalConfig" where
  "fetchGlobalConfig ctx =
     (let pda = rcGlobalConfigPda (cxClient ctx)
      in rbind (cxGetAccountInfo ctx pda) (\<lambda>acct.
         rbind (throwIf (acct = None) ''GlobalConfig not found - run `relayer bootstrap` first'') (\<lambda>_.
           cxFetchGlobalConfig ctx pda)))"

section \<open>Commands\<close>

text \<open>\<open>show\<close>: the two configurations, each \<open>None\<close> when its account is missing.\<close>

definition show_command :: "Context \<Rightarrow> thrown + (GlobalConfig option \<times> admin_config option)" where
  "show_command ctx =
     rbind (cxGetAccountInfo ctx (rcGlobalConfigPda (cxClient ctx))) (\<lambda>globalAcct.
     rbind (if globalAcct = None then Inr None
            else rbind (cxFetchGlobalConfig ctx (rcGlobalConfigPda (cxClient ctx))) (\<lambda>g. Inr (Some g))) (\<lambda>g.
     rbind (cxGetAccountInfo ctx (rcConfigPda (cxClient ctx))) (\<lambda>pairAcct.
       if pairAcct = None then Inr (g, None)
       else rbind (cxFetchConfig ctx) (\<lambda>c. Inr (g, Some c)))))"

record bootstrap_opts =
  boAdmin :: "string option"
  boConfirm :: bool

definition bootstrap_plan :: "Context \<Rightarrow> bootstrap_opts \<Rightarrow> thrown + method_call cli_plan" where
  "bootstrap_plan ctx opts =
     rbind (lift (keyOr (cxEnv ctx) (boAdmin opts) (cxKeypair ctx))) (\<lambda>admin.
     rbind (cxGetAccountInfo ctx RELAYER_PROGRAM_ID) (\<lambda>programAcct.
     rbind (throwIf (case programAcct of None \<Rightarrow> True | Some a \<Rightarrow> \<not> caExecutable a) ''relayer program not found or not executable'') (\<lambda>_.
     rbind (cxGetAccountInfo ctx (rcGlobalConfigPda (cxClient ctx))) (\<lambda>existing.
     rbind (throwIf (existing \<noteq> None) ''GlobalConfig already exists'') (\<lambda>_.
       Inr (gate (boConfirm opts) (lift (bootstrap (cxEnv ctx) (cxClient ctx) (Some admin)))))))))"

record initialize_opts =
  ioUsdcMint :: "string option"
  ioOnycMint :: "string option"
  ioFeeVault :: "string option"
  ioDepositFeeBps :: string
  ioWithdrawFeeBps :: string
  ioIntentPrograms :: "string option"
  ioConfirm :: bool

definition programPreflight :: "Context \<Rightarrow> pubkey \<Rightarrow> thrown + cli_account" where
  "programPreflight ctx programId =
     rbind (cxGetAccountInfo ctx programId) (\<lambda>programAcct.
       case programAcct of
         None \<Rightarrow> Inl (of_js_error (Error ''program not found''))
       | Some a \<Rightarrow> rbind (throwIf (\<not> caExecutable a) ''account is not executable'') (\<lambda>_. Inr a))"

definition mintDecimalsAre :: "Context \<Rightarrow> pubkey \<Rightarrow> nat \<Rightarrow> thrown + unit" where
  "mintDecimalsAre ctx mint expected =
     (case cxGetMint ctx mint of
        Inl _ \<Rightarrow> Inl (of_js_error (Error ''mint not found''))
      | Inr decimals \<Rightarrow> throwIf (decimals \<noteq> expected) ''mint decimals differ'')"

definition initialize_plan :: "Context \<Rightarrow> initialize_opts \<Rightarrow> thrown + method_call cli_plan" where
  "initialize_plan ctx opts =
     (let env = cxEnv ctx; client = cxClient ctx in
     rbind (lift (keyOr env (ioUsdcMint opts) (rcBaseMint client))) (\<lambda>usdcMint.
     rbind (lift (keyOr env (ioOnycMint opts) (rcAssetMint client))) (\<lambda>onycMint.
     rbind (lift (if truthy (ioFeeVault opts) then fromBase58 env (the (ioFeeVault opts))
                  else ata env onycMint (cxKeypair ctx) False (TOKEN_PROGRAM_ID env))) (\<lambda>feeVault.
     rbind (lift (parseFeeBps (ioDepositFeeBps opts))) (\<lambda>depositFeeBps.
     rbind (lift (parseFeeBps (ioWithdrawFeeBps opts))) (\<lambda>withdrawFeeBps.
     rbind (lift (parseIntentPrograms env (ioIntentPrograms opts))) (\<lambda>intentPrograms.
     rbind (programPreflight ctx RELAYER_PROGRAM_ID) (\<lambda>_.
     rbind (cxGetAccountInfo ctx (rcConfigPda client)) (\<lambda>existing.
     rbind (throwIf (existing \<noteq> None) ''PairConfig already exists'') (\<lambda>_.
     rbind (mintDecimalsAre ctx usdcMint USDC_DECIMALS) (\<lambda>_.
     rbind (mintDecimalsAre ctx onycMint ONYC_DECIMALS) (\<lambda>_.
     rbind (checkFeeVault ctx (rcAuthorityPda client) onycMint feeVault) (\<lambda>_.
       Inr (gate (ioConfirm opts) (lift (initialize env client
         \<lparr>inAuthority = cxKeypair ctx, inBaseMint = Some usdcMint, inAssetMint = Some onycMint, inFeeVault = feeVault,
          inDepositFeeBps = depositFeeBps, inWithdrawFeeBps = withdrawFeeBps, inNttBaseProgram = None,
          inNttAssetProgram = None, inIntentPrograms = Some intentPrograms\<rparr>))))))))))))))))"

record configure_opts =
  cpFeeVault :: "string option"
  cpDepositFeeBps :: "string option"
  cpWithdrawFeeBps :: "string option"
  cpNewAuthority :: "string option"
  cpClearPendingAuthority :: bool
  cpConfirm :: bool

definition optKey :: "web3_env \<Rightarrow> string option \<Rightarrow> pubkey option result" where
  "optKey env given = (if truthy given then rbind (fromBase58 env (the given)) (\<lambda>k. Inr (Some k)) else Inr None)"

definition optBps :: "string option \<Rightarrow> int option result" where
  "optBps given = (case given of None \<Rightarrow> Inr None | Some raw \<Rightarrow> rbind (parseFeeBps raw) (\<lambda>b. Inr (Some b)))"

text \<open>\<open>undefined\<close>, \<open>null\<close> and a key are \<open>None\<close>, \<open>Some None\<close> and \<open>Some (Some k)\<close>.\<close>

definition newAuthorityOf :: "web3_env \<Rightarrow> configure_opts \<Rightarrow> pubkey option option result" where
  "newAuthorityOf env opts =
     (if cpClearPendingAuthority opts then Inr (Some None)
      else rbind (optKey env (cpNewAuthority opts)) (\<lambda>k. Inr (map_option Some k)))"

definition configure_plan :: "Context \<Rightarrow> configure_opts \<Rightarrow> thrown + method_call cli_plan" where
  "configure_plan ctx opts =
     rbind (cxFetchConfig ctx) (\<lambda>config.
     rbind (throwIf (adAuthority config \<noteq> cxKeypair ctx) ''signer is not the current authority'') (\<lambda>_.
     rbind (lift (optKey (cxEnv ctx) (cpFeeVault opts))) (\<lambda>feeVault.
     rbind (lift (optBps (cpDepositFeeBps opts))) (\<lambda>depositFeeBps.
     rbind (lift (optBps (cpWithdrawFeeBps opts))) (\<lambda>withdrawFeeBps.
     rbind (lift (newAuthorityOf (cxEnv ctx) opts)) (\<lambda>newAuthority.
     rbind (case feeVault of None \<Rightarrow> Inr ()
            | Some v \<Rightarrow> rbind (checkFeeVault ctx (rcAuthorityPda (cxClient ctx)) (pcAssetMint config) v) (\<lambda>_. Inr ())) (\<lambda>_.
     rbind (throwIf (feeVault = None \<and> depositFeeBps = None \<and> withdrawFeeBps = None \<and> newAuthority = None) ''no fields to update'') (\<lambda>_.
       Inr (gate (cpConfirm opts) (lift (configure (cxEnv ctx) (cxClient ctx)
         \<lparr>cfAuthority = None, cfFeeVault = feeVault, cfDepositFeeBps = depositFeeBps,
          cfWithdrawFeeBps = withdrawFeeBps, cfNewAuthority = (case newAuthority of None \<Rightarrow> None | Some a \<Rightarrow> a)\<rparr>)))))))))))"

record set_admin_opts =
  saNewAdmin :: string
  saConfirm :: bool

definition set_admin_plan :: "Context \<Rightarrow> set_admin_opts \<Rightarrow> thrown + method_call cli_plan" where
  "set_admin_plan ctx opts =
     rbind (lift (fromBase58 (cxEnv ctx) (saNewAdmin opts))) (\<lambda>newAdmin.
     rbind (fetchGlobalConfig ctx) (\<lambda>config.
     rbind (throwIf (gcAdmin config \<noteq> cxKeypair ctx) ''signer is not the current admin'') (\<lambda>_.
     rbind (throwIf (newAdmin = gcAdmin config) ''--new-admin equals the current admin - self-rotate is rejected'') (\<lambda>_.
       Inr (gate (saConfirm opts) (lift (setAdmin (cxClient ctx) newAdmin None)))))))"

definition accept_admin_plan :: "Context \<Rightarrow> bool \<Rightarrow> thrown + method_call cli_plan" where
  "accept_admin_plan ctx confirm =
     rbind (fetchGlobalConfig ctx) (\<lambda>config.
     rbind (throwIf (gcPendingAdmin config = None) ''no pending admin to accept'') (\<lambda>_.
     rbind (throwIf (gcPendingAdmin config \<noteq> Some (cxKeypair ctx)) ''signer is not the pending admin'') (\<lambda>_.
       Inr (gate confirm (lift (acceptAdmin (cxClient ctx) None))))))"

definition accept_authority_plan :: "Context \<Rightarrow> bool \<Rightarrow> thrown + method_call cli_plan" where
  "accept_authority_plan ctx confirm =
     rbind (cxFetchConfig ctx) (\<lambda>config.
     rbind (throwIf (adPendingAuthority config = None) ''no pending authority to accept'') (\<lambda>_.
     rbind (throwIf (adPendingAuthority config \<noteq> Some (cxKeypair ctx)) ''signer is not the pending authority'') (\<lambda>_.
       Inr (gate confirm (lift (acceptAuthority (cxClient ctx) None))))))"

text \<open>The part of the program's \<open>configure\<close> handler that merges the new authority.\<close>

definition pendingAuthorityAfter :: "pubkey \<Rightarrow> pubkey option \<Rightarrow> pubkey option \<Rightarrow> pubkey option result" where
  "pendingAuthorityAfter authority pending new_authority =
     (case new_authority of
        None \<Rightarrow> Inr pending
      | Some proposed \<Rightarrow>
          if proposed = replicate 32 0 then Inr None
          else if proposed = authority then Inl (Error ''PendingAuthorityIsCurrent'')
          else Inr (Some proposed))"

section \<open>Arguments that pass\<close>

lemma parseFeeBps_iff:
  "parseFeeBps raw = Inr b \<longleftrightarrow> raw \<noteq> [] \<and> list_all is_digit raw \<and> b = int (nat_of_dec raw) \<and> b \<le> MAX_FEE_BPS"
  by (auto simp: parseFeeBps_def Let_def)

lemma parseFeeBps_print: "0 \<le> b \<Longrightarrow> b \<le> MAX_FEE_BPS \<Longrightarrow> parseFeeBps (bigint_toString b) = Inr b"
  by (simp add: parseFeeBps_iff bigint_toString_def dec_of_nat_digits)

lemma optBps_range: "optBps given = Inr (Some b) \<Longrightarrow> 0 \<le> b \<and> b \<le> MAX_FEE_BPS"
  by (auto simp: optBps_def parseFeeBps_iff result_simps split: option.splits)

lemma checkFeeVault_Inr:
  assumes "checkFeeVault ctx authorityPda assetMint feeVault = Inr own"
  shows "\<exists>a mint own0. cxGetAccountInfo ctx feeVault = Inr (Some a) \<and> aiOwner a = TOKEN_PROGRAM_ID (cxEnv ctx) \<and>
    cxDecodeToken ctx (aiData a) = Inr (mint, own0) \<and> newPublicKey (cxEnv ctx) mint = Inr assetMint \<and>
    newPublicKey (cxEnv ctx) own0 = Inr own \<and> own \<noteq> authorityPda"
  using assms by (auto simp: checkFeeVault_def result_simps split: option.splits)

text \<open>An acceptable vault: a token account that exists, holds the mint and does not belong to the relayer's authority.\<close>

definition vault_ok :: "Context \<Rightarrow> pubkey \<Rightarrow> pubkey \<Rightarrow> bool" where
  "vault_ok ctx mint vault \<longleftrightarrow>
     (\<exists>a m w own. cxGetAccountInfo ctx vault = Inr (Some a) \<and> aiOwner a = TOKEN_PROGRAM_ID (cxEnv ctx) \<and>
        cxDecodeToken ctx (aiData a) = Inr (m, w) \<and> newPublicKey (cxEnv ctx) m = Inr mint \<and>
        newPublicKey (cxEnv ctx) w = Inr own \<and> own \<noteq> rcAuthorityPda (cxClient ctx))"

lemma checkFeeVault_ok: "checkFeeVault ctx (rcAuthorityPda (cxClient ctx)) mint vault = Inr own \<Longrightarrow> vault_ok ctx mint vault"
  by (drule checkFeeVault_Inr) (auto simp: vault_ok_def)

definition executable_program :: "Context \<Rightarrow> bool" where
  "executable_program ctx \<longleftrightarrow> (\<exists>a. cxGetAccountInfo ctx RELAYER_PROGRAM_ID = Inr (Some a) \<and> caExecutable a)"

section \<open>Every command is gated\<close>

definition bootstrap_allowed :: "Context \<Rightarrow> bootstrap_opts \<Rightarrow> bool" where
  "bootstrap_allowed ctx opts \<longleftrightarrow>
     (case cxGetAccountInfo ctx RELAYER_PROGRAM_ID of Inr (Some a) \<Rightarrow> caExecutable a | _ \<Rightarrow> False) \<and>
     cxGetAccountInfo ctx (rcGlobalConfigPda (cxClient ctx)) = Inr None"

interpretation bootstrap_c: guarded_command boConfirm bootstrap_plan bootstrap_allowed
  by unfold_locales (auto simp: bootstrap_plan_def bootstrap_allowed_def result_simps split: option.splits)

definition initialize_allowed :: "Context \<Rightarrow> initialize_opts \<Rightarrow> bool" where
  "initialize_allowed ctx opts \<longleftrightarrow>
     (case cxGetAccountInfo ctx RELAYER_PROGRAM_ID of Inr (Some a) \<Rightarrow> caExecutable a | _ \<Rightarrow> False) \<and>
     cxGetAccountInfo ctx (rcConfigPda (cxClient ctx)) = Inr None \<and>
     \<not> isl (parseFeeBps (ioDepositFeeBps opts)) \<and> \<not> isl (parseFeeBps (ioWithdrawFeeBps opts))"

interpretation initialize_c: guarded_command ioConfirm initialize_plan initialize_allowed
  by unfold_locales
     (auto simp: initialize_plan_def initialize_allowed_def programPreflight_def Let_def result_simps split: option.splits)

definition is_authority :: "Context \<Rightarrow> 'o \<Rightarrow> bool" where
  "is_authority ctx opts \<longleftrightarrow> (case cxFetchConfig ctx of Inr c \<Rightarrow> adAuthority c = cxKeypair ctx | Inl _ \<Rightarrow> False)"

interpretation configure_c: guarded_command cpConfirm configure_plan is_authority
  by unfold_locales (auto simp: configure_plan_def is_authority_def result_simps)

definition is_admin :: "Context \<Rightarrow> 'o \<Rightarrow> bool" where
  "is_admin ctx opts \<longleftrightarrow> (case fetchGlobalConfig ctx of Inr g \<Rightarrow> gcAdmin g = cxKeypair ctx | Inl _ \<Rightarrow> False)"

interpretation set_admin_c: guarded_command saConfirm set_admin_plan is_admin
  by unfold_locales (auto simp: set_admin_plan_def is_admin_def result_simps)

definition is_pending_admin :: "Context \<Rightarrow> 'o \<Rightarrow> bool" where
  "is_pending_admin ctx opts \<longleftrightarrow> (case fetchGlobalConfig ctx of Inr g \<Rightarrow> gcPendingAdmin g = Some (cxKeypair ctx) | Inl _ \<Rightarrow> False)"

interpretation accept_admin_c: guarded_command id accept_admin_plan is_pending_admin
  by unfold_locales (auto simp: accept_admin_plan_def is_pending_admin_def result_simps)

definition is_pending_authority :: "Context \<Rightarrow> 'o \<Rightarrow> bool" where
  "is_pending_authority ctx opts \<longleftrightarrow>
     (case cxFetchConfig ctx of Inr c \<Rightarrow> adPendingAuthority c = Some (cxKeypair ctx) | Inl _ \<Rightarrow> False)"

interpretation accept_authority_c: guarded_command id accept_authority_plan is_pending_authority
  by unfold_locales (auto simp: accept_authority_plan_def is_pending_authority_def result_simps)

section \<open>Roles\<close>

lemma sent_broadcast: "tx \<in> set (snd (runPlan rpc p)) \<Longrightarrow> p = Inr (Broadcast (Inr tx))"
  by (auto simp: runPlan_def split: sum.splits cli_plan.splits)

lemma orWallet_None: "rcWallet c = Some k \<Longrightarrow> orWallet c None m = Inr k"
  by (simp add: orWallet_def)

lemma optional_check_Inr_iff:
  "(case v of None \<Rightarrow> Inr () | Some k \<Rightarrow> rbind (f k) (\<lambda>_. Inr ())) = Inr u \<longleftrightarrow> (\<forall>k. v = Some k \<longrightarrow> (\<exists>y. f k = Inr y))"
  by (cases v) (auto simp: result_simps)

lemma configure_plan_Broadcast:
  assumes "configure_plan ctx opts = Inr (Broadcast b)"
  obtains c v d w a where "cpConfirm opts" "cxFetchConfig ctx = Inr c" "adAuthority c = cxKeypair ctx"
    "optKey (cxEnv ctx) (cpFeeVault opts) = Inr v" "optBps (cpDepositFeeBps opts) = Inr d"
    "optBps (cpWithdrawFeeBps opts) = Inr w" "newAuthorityOf (cxEnv ctx) opts = Inr a"
    "b = lift (configure (cxEnv ctx) (cxClient ctx)
       \<lparr>cfAuthority = None, cfFeeVault = v, cfDepositFeeBps = d, cfWithdrawFeeBps = w,
        cfNewAuthority = (case a of None \<Rightarrow> None | Some x \<Rightarrow> x)\<rparr>)"
    "\<And>k. v = Some k \<Longrightarrow> \<exists>own. checkFeeVault ctx (rcAuthorityPda (cxClient ctx)) (pcAssetMint c) k = Inr own"
    "v \<noteq> None \<or> d \<noteq> None \<or> w \<noteq> None \<or> a \<noteq> None"
proof -
  from assms show thesis unfolding configure_plan_def
    by (elim rbind_InrE, simp only: throwIf_Inr_iff gate_Broadcast_iff optional_check_Inr_iff lift_Inr_iff sum.inject de_Morgan_conj not_not)
       (rule that; blast)
qed

lemma configure_Inr:
  assumes "configure env c ps = Inr tx" "cfAuthority ps = None" "rcWallet c = Some k"
  shows "mcMethod tx = ''configure''" "map_of (mcAccounts tx) ''authority'' = Some (Some k)"
    "map_of (mcAccounts tx) ''feeVault'' = Some (cfFeeVault ps)"
    "mcArgs tx = [optArg ArgNum (cfDepositFeeBps ps), optArg ArgNum (cfWithdrawFeeBps ps), optArg ArgKey (cfNewAuthority ps)]"
  using assms by (auto simp: configure_def orWallet_None result_simps)

text \<open>What \<open>configure\<close> sends: the options as given, absent ones as \<open>null\<close>, fees within range, a vault that was checked.\<close>

lemma configure_sent:
  assumes "configure_plan ctx opts = Inr (Broadcast (Inr tx))" "rcWallet (cxClient ctx) = Some k"
  shows "\<exists>c v d w a. cpConfirm opts \<and> cxFetchConfig ctx = Inr c \<and> adAuthority c = cxKeypair ctx \<and>
    mcMethod tx = ''configure'' \<and> map_of (mcAccounts tx) ''authority'' = Some (Some k) \<and>
    optKey (cxEnv ctx) (cpFeeVault opts) = Inr v \<and> map_of (mcAccounts tx) ''feeVault'' = Some v \<and>
    (\<forall>key. v = Some key \<longrightarrow> (\<exists>own. checkFeeVault ctx (rcAuthorityPda (cxClient ctx)) (pcAssetMint c) key = Inr own)) \<and>
    optBps (cpDepositFeeBps opts) = Inr d \<and> optBps (cpWithdrawFeeBps opts) = Inr w \<and> newAuthorityOf (cxEnv ctx) opts = Inr a \<and>
    (v \<noteq> None \<or> d \<noteq> None \<or> w \<noteq> None \<or> a \<noteq> None) \<and>
    mcArgs tx = [optArg ArgNum d, optArg ArgNum w, optArg ArgKey (case a of None \<Rightarrow> None | Some x \<Rightarrow> x)]"
proof -
  obtain c v d w a where c: "cpConfirm opts" "cxFetchConfig ctx = Inr c" "adAuthority c = cxKeypair ctx"
    and o: "optKey (cxEnv ctx) (cpFeeVault opts) = Inr v" "optBps (cpDepositFeeBps opts) = Inr d"
      "optBps (cpWithdrawFeeBps opts) = Inr w" "newAuthorityOf (cxEnv ctx) opts = Inr a"
    and b: "Inr tx = lift (configure (cxEnv ctx) (cxClient ctx) \<lparr>cfAuthority = None, cfFeeVault = v, cfDepositFeeBps = d,
        cfWithdrawFeeBps = w, cfNewAuthority = (case a of None \<Rightarrow> None | Some x \<Rightarrow> x)\<rparr>)"
    and v: "\<And>key. v = Some key \<Longrightarrow> \<exists>own. checkFeeVault ctx (rcAuthorityPda (cxClient ctx)) (pcAssetMint c) key = Inr own"
    and change: "v \<noteq> None \<or> d \<noteq> None \<or> w \<noteq> None \<or> a \<noteq> None"
    using configure_plan_Broadcast [OF assms(1)] by metis
  from configure_Inr [OF b [symmetric, unfolded lift_Inr_iff] _ assms(2)] c o v change show ?thesis by simp
qed

text \<open>What the other commands send, each with the checks that came before.\<close>

lemma bootstrap_sent:
  assumes "bootstrap_plan ctx opts = Inr (Broadcast (Inr tx))"
  shows "boConfirm opts \<and> executable_program ctx \<and> cxGetAccountInfo ctx (rcGlobalConfigPda (cxClient ctx)) = Inr None \<and>
    (\<exists>admin. keyOr (cxEnv ctx) (boAdmin opts) (cxKeypair ctx) = Inr admin \<and> bootstrap (cxEnv ctx) (cxClient ctx) (Some admin) = Inr tx)"
  using assms by (auto simp: bootstrap_plan_def executable_program_def result_simps split: option.splits)

lemma initialize_sent:
  assumes "initialize_plan ctx opts = Inr (Broadcast (Inr tx))"
  shows "ioConfirm opts \<and> executable_program ctx \<and> cxGetAccountInfo ctx (rcConfigPda (cxClient ctx)) = Inr None \<and>
    (\<exists>ps usdc onyc. initialize (cxEnv ctx) (cxClient ctx) ps = Inr tx \<and> inAuthority ps = cxKeypair ctx \<and>
       keyOr (cxEnv ctx) (ioUsdcMint opts) (rcBaseMint (cxClient ctx)) = Inr usdc \<and> inBaseMint ps = Some usdc \<and>
       keyOr (cxEnv ctx) (ioOnycMint opts) (rcAssetMint (cxClient ctx)) = Inr onyc \<and> inAssetMint ps = Some onyc \<and>
       cxGetMint ctx usdc = Inr USDC_DECIMALS \<and> cxGetMint ctx onyc = Inr ONYC_DECIMALS \<and> vault_ok ctx onyc (inFeeVault ps) \<and>
       parseFeeBps (ioDepositFeeBps opts) = Inr (inDepositFeeBps ps) \<and> inDepositFeeBps ps \<in> {0..MAX_FEE_BPS} \<and>
       parseFeeBps (ioWithdrawFeeBps opts) = Inr (inWithdrawFeeBps ps) \<and> inWithdrawFeeBps ps \<in> {0..MAX_FEE_BPS})"
  using assms unfolding initialize_plan_def Let_def programPreflight_def mintDecimalsAre_def executable_program_def
  by (elim rbind_InrE)
     (auto simp: result_simps parseFeeBps_iff dest!: checkFeeVault_ok split: sum.splits option.splits)

lemma set_admin_sent:
  assumes "set_admin_plan ctx so = Inr (Broadcast (Inr tx))" "rcWallet (cxClient ctx) = Some (cxKeypair ctx)"
  shows "saConfirm so \<and> (\<exists>g n. fetchGlobalConfig ctx = Inr g \<and> gcAdmin g = cxKeypair ctx \<and> n \<noteq> gcAdmin g \<and>
    fromBase58 (cxEnv ctx) (saNewAdmin so) = Inr n \<and> setAdmin (cxClient ctx) n (Some (gcAdmin g)) = Inr tx)"
  using assms by (auto simp: set_admin_plan_def setAdmin_def orWallet_def result_simps)

lemma accept_admin_sent:
  assumes "accept_admin_plan ctx confirm = Inr (Broadcast (Inr tx))" "rcWallet (cxClient ctx) = Some (cxKeypair ctx)"
  shows "confirm \<and> (\<exists>g. fetchGlobalConfig ctx = Inr g \<and> gcPendingAdmin g = Some (cxKeypair ctx)) \<and>
    acceptAdmin (cxClient ctx) (Some (cxKeypair ctx)) = Inr tx"
  using assms by (auto simp: accept_admin_plan_def acceptAdmin_def orWallet_def result_simps)

lemma accept_authority_sent:
  assumes "accept_authority_plan ctx confirm = Inr (Broadcast (Inr tx))" "rcWallet (cxClient ctx) = Some (cxKeypair ctx)"
  shows "confirm \<and> (\<exists>c. cxFetchConfig ctx = Inr c \<and> adPendingAuthority c = Some (cxKeypair ctx)) \<and>
    acceptAuthority (cxClient ctx) (Some (cxKeypair ctx)) = Inr tx"
  using assms by (auto simp: accept_authority_plan_def acceptAuthority_def orWallet_def result_simps)

lemma sent_once: "tx \<in> set (snd (runPlan rpc p)) \<Longrightarrow> snd (runPlan rpc p) = [tx]"
  by (auto simp: runPlan_def split: sum.splits cli_plan.splits)

text \<open>C17. Each of the six commands that sign for the relayer hands at most one call to the network, and only when the operator
  confirmed and its checks passed. \<open>bootstrap\<close>: the program is executable and there is no global configuration yet.
  \<open>initialize\<close>: the program is executable, the client's pair has no configuration, both mints have their decimals,
  the fee vault is a token account of the asset mint that the relayer does not own, the fees are within range.
  \<open>configure\<close>: the signer is the authority on chain, a new vault passes the same check, new fees are within range, and at least one
  field changes. \<open>set-admin\<close>: the signer is the admin and the new admin another. The two \<open>accept\<close> commands: the
  signer is the pending admin or authority. The call is the one the options ask for, in the signer's name.\<close>

theorem admin_commands_guarded:
  assumes "rcWallet (cxClient ctx) = Some (cxKeypair ctx)"
  shows "(\<forall>tx \<in> set (snd (runPlan rpc (bootstrap_plan ctx bo))). snd (runPlan rpc (bootstrap_plan ctx bo)) = [tx] \<and>
      boConfirm bo \<and> executable_program ctx \<and> cxGetAccountInfo ctx (rcGlobalConfigPda (cxClient ctx)) = Inr None \<and>
      (\<exists>admin. keyOr (cxEnv ctx) (boAdmin bo) (cxKeypair ctx) = Inr admin \<and> bootstrap (cxEnv ctx) (cxClient ctx) (Some admin) = Inr tx)) \<and>
    (\<forall>tx \<in> set (snd (runPlan rpc (initialize_plan ctx io))). snd (runPlan rpc (initialize_plan ctx io)) = [tx] \<and>
      ioConfirm io \<and> executable_program ctx \<and> cxGetAccountInfo ctx (rcConfigPda (cxClient ctx)) = Inr None \<and>
      (\<exists>ps usdc onyc. initialize (cxEnv ctx) (cxClient ctx) ps = Inr tx \<and> inAuthority ps = cxKeypair ctx \<and>
         keyOr (cxEnv ctx) (ioUsdcMint io) (rcBaseMint (cxClient ctx)) = Inr usdc \<and> inBaseMint ps = Some usdc \<and>
         keyOr (cxEnv ctx) (ioOnycMint io) (rcAssetMint (cxClient ctx)) = Inr onyc \<and> inAssetMint ps = Some onyc \<and>
         cxGetMint ctx usdc = Inr USDC_DECIMALS \<and> cxGetMint ctx onyc = Inr ONYC_DECIMALS \<and> vault_ok ctx onyc (inFeeVault ps) \<and>
         parseFeeBps (ioDepositFeeBps io) = Inr (inDepositFeeBps ps) \<and> inDepositFeeBps ps \<in> {0..MAX_FEE_BPS} \<and>
         parseFeeBps (ioWithdrawFeeBps io) = Inr (inWithdrawFeeBps ps) \<and> inWithdrawFeeBps ps \<in> {0..MAX_FEE_BPS})) \<and>
    (\<forall>tx \<in> set (snd (runPlan rpc (configure_plan ctx co))). snd (runPlan rpc (configure_plan ctx co)) = [tx] \<and>
      cpConfirm co \<and> mcMethod tx = ''configure'' \<and> map_of (mcAccounts tx) ''authority'' = Some (Some (cxKeypair ctx)) \<and>
      (\<exists>c v d w a. cxFetchConfig ctx = Inr c \<and> adAuthority c = cxKeypair ctx \<and>
         optKey (cxEnv ctx) (cpFeeVault co) = Inr v \<and> map_of (mcAccounts tx) ''feeVault'' = Some v \<and>
         (\<forall>key. v = Some key \<longrightarrow> vault_ok ctx (pcAssetMint c) key) \<and>
         optBps (cpDepositFeeBps co) = Inr d \<and> set_option d \<subseteq> {0..MAX_FEE_BPS} \<and>
         optBps (cpWithdrawFeeBps co) = Inr w \<and> set_option w \<subseteq> {0..MAX_FEE_BPS} \<and>
         newAuthorityOf (cxEnv ctx) co = Inr a \<and> (v \<noteq> None \<or> d \<noteq> None \<or> w \<noteq> None \<or> a \<noteq> None) \<and>
         mcArgs tx = [optArg ArgNum d, optArg ArgNum w, optArg ArgKey (case a of None \<Rightarrow> None | Some x \<Rightarrow> x)])) \<and>
    (\<forall>tx \<in> set (snd (runPlan rpc (set_admin_plan ctx so))). snd (runPlan rpc (set_admin_plan ctx so)) = [tx] \<and>
      saConfirm so \<and> (\<exists>g n. fetchGlobalConfig ctx = Inr g \<and> gcAdmin g = cxKeypair ctx \<and> n \<noteq> gcAdmin g \<and>
        fromBase58 (cxEnv ctx) (saNewAdmin so) = Inr n \<and> setAdmin (cxClient ctx) n (Some (gcAdmin g)) = Inr tx)) \<and>
    (\<forall>tx \<in> set (snd (runPlan rpc (accept_admin_plan ctx confirm))). snd (runPlan rpc (accept_admin_plan ctx confirm)) = [tx] \<and>
      confirm \<and> (\<exists>g. fetchGlobalConfig ctx = Inr g \<and> gcPendingAdmin g = Some (cxKeypair ctx)) \<and>
      acceptAdmin (cxClient ctx) (Some (cxKeypair ctx)) = Inr tx) \<and>
    (\<forall>tx \<in> set (snd (runPlan rpc (accept_authority_plan ctx confirm))). snd (runPlan rpc (accept_authority_plan ctx confirm)) = [tx] \<and>
      confirm \<and> (\<exists>c. cxFetchConfig ctx = Inr c \<and> adPendingAuthority c = Some (cxKeypair ctx)) \<and>
      acceptAuthority (cxClient ctx) (Some (cxKeypair ctx)) = Inr tx)"
proof -
  have range: "set_option d \<subseteq> {0..MAX_FEE_BPS}" if "optBps g = Inr d" for g d
    using that optBps_range [of g] by (cases d) auto
  have conf: "cpConfirm co \<and> mcMethod tx = ''configure'' \<and> map_of (mcAccounts tx) ''authority'' = Some (Some (cxKeypair ctx)) \<and>
      (\<exists>c v d w a. cxFetchConfig ctx = Inr c \<and> adAuthority c = cxKeypair ctx \<and>
         optKey (cxEnv ctx) (cpFeeVault co) = Inr v \<and> map_of (mcAccounts tx) ''feeVault'' = Some v \<and>
         (\<forall>key. v = Some key \<longrightarrow> vault_ok ctx (pcAssetMint c) key) \<and>
         optBps (cpDepositFeeBps co) = Inr d \<and> set_option d \<subseteq> {0..MAX_FEE_BPS} \<and>
         optBps (cpWithdrawFeeBps co) = Inr w \<and> set_option w \<subseteq> {0..MAX_FEE_BPS} \<and>
         newAuthorityOf (cxEnv ctx) co = Inr a \<and> (v \<noteq> None \<or> d \<noteq> None \<or> w \<noteq> None \<or> a \<noteq> None) \<and>
         mcArgs tx = [optArg ArgNum d, optArg ArgNum w, optArg ArgKey (case a of None \<Rightarrow> None | Some x \<Rightarrow> x)])"
    if sent: "configure_plan ctx co = Inr (Broadcast (Inr tx))" for tx
  proof -
    from configure_sent [OF sent assms] obtain c v d w a where
      f: "cpConfirm co" "cxFetchConfig ctx = Inr c" "adAuthority c = cxKeypair ctx" "mcMethod tx = ''configure''"
        "map_of (mcAccounts tx) ''authority'' = Some (Some (cxKeypair ctx))"
        "optKey (cxEnv ctx) (cpFeeVault co) = Inr v" "map_of (mcAccounts tx) ''feeVault'' = Some v"
        "optBps (cpDepositFeeBps co) = Inr d" "optBps (cpWithdrawFeeBps co) = Inr w" "newAuthorityOf (cxEnv ctx) co = Inr a"
        "v \<noteq> None \<or> d \<noteq> None \<or> w \<noteq> None \<or> a \<noteq> None"
        "mcArgs tx = [optArg ArgNum d, optArg ArgNum w, optArg ArgKey (case a of None \<Rightarrow> None | Some x \<Rightarrow> x)]"
      and v: "\<forall>key. v = Some key \<longrightarrow> (\<exists>own. checkFeeVault ctx (rcAuthorityPda (cxClient ctx)) (pcAssetMint c) key = Inr own)"
      by (elim exE conjE) (rule that; assumption)
    have "vault_ok ctx (pcAssetMint c) key" if "v = Some key" for key using v that checkFeeVault_ok by blast
    with f range [OF f(8)] range [OF f(9)] show ?thesis by simp
  qed
  show ?thesis
    by (intro conjI; intro ballI conjI [OF sent_once], assumption, drule sent_broadcast)
       (rule bootstrap_sent initialize_sent conf set_admin_sent [OF _ assms] accept_admin_sent [OF _ assms]
          accept_authority_sent [OF _ assms], assumption)+
qed

text \<open>A concrete context: the signer is authority, admin and pending for both roles of a fresh pair.\<close>

definition model_cli :: "pubkey \<Rightarrow> Context" where
  "model_cli me =
     \<lparr>cxEnv = model_env, cxKeypair = me,
      cxClient = \<lparr>rcProgramId = RELAYER_PROGRAM_ID, rcWallet = Some me, rcBaseMint = [1], rcAssetMint = [2],
        rcConfigPda = [3], rcGlobalConfigPda = [4], rcAuthorityPda = [5]\<rparr>,
      cxGetAccountInfo = (\<lambda>_. Inr (Some \<lparr>aiOwner = [6], aiLamports = 0, aiData = [], caExecutable = True\<rparr>)),
      cxGetMint = (\<lambda>_. Inr 6), cxDecodeToken = (\<lambda>_. Inr ([], [])),
      cxFetchGlobalConfig = (\<lambda>_. Inr \<lparr>gcAdmin = me, gcPendingAdmin = Some me\<rparr>),
      cxFetchConfig = Inr \<lparr>pcBaseMint = [1], pcAssetMint = [2], pcFeeVault = [7], pcNttBaseProgram = [8], pcNttAssetProgram = [9],
        pcWithdrawFeeBps = 10, adAuthority = me, adPendingAuthority = Some me, adIntentPrograms = ([], []), adDepositFeeBps = 10\<rparr>\<rparr>"

theorem admin_commands_guarded_witness:
  "\<exists>tx call. snd (runPlan (\<lambda>_. Inr ''sig'') (set_admin_plan (model_cli [42]) \<lparr>saNewAdmin = ''x'', saConfirm = True\<rparr>)) = [tx] \<and>
     (\<exists>n. n \<noteq> [42] \<and> setAdmin (cxClient (model_cli [42])) n (Some [42]) = Inr tx) \<and>
     snd (runPlan (\<lambda>_. Inr ''sig'') (configure_plan (model_cli [42]) \<lparr>cpFeeVault = None, cpDepositFeeBps = Some ''25'',
       cpWithdrawFeeBps = None, cpNewAuthority = None, cpClearPendingAuthority = False, cpConfirm = True\<rparr>)) = [call] \<and>
     mcArgs call = [ArgNum 25, ArgNull, ArgNull]"
proof -
  let ?so = "\<lparr>saNewAdmin = ''x'', saConfirm = True\<rparr>"
  let ?co = "\<lparr>cpFeeVault = None, cpDepositFeeBps = Some ''25'', cpWithdrawFeeBps = None, cpNewAuthority = None,
      cpClearPendingAuthority = False, cpConfirm = True\<rparr>"
  have bps: "parseFeeBps ''25'' = Inr 25"
    by (simp add: parseFeeBps_def is_digit_def nat_of_dec_def digit_val_def MAX_FEE_BPS_def)
  obtain tx where tx: "snd (runPlan (\<lambda>_. Inr ''sig'') (set_admin_plan (model_cli [42]) ?so)) = [tx]"
    by (simp add: set_admin_plan_def model_cli_def model_env_def fetchGlobalConfig_def setAdmin_def orWallet_def gate_def
        runPlan_def runTx_def utf8_def)
  obtain call where call: "snd (runPlan (\<lambda>_. Inr ''sig'') (configure_plan (model_cli [42]) ?co)) = [call]"
    by (simp add: configure_plan_def model_cli_def optKey_def optBps_def newAuthorityOf_def gate_def configure_def orWallet_def
      relayerAta_def model_env_def optArg_def truthy_def bps runPlan_def runTx_def)
  have w: "rcWallet (cxClient (model_cli [42])) = Some (cxKeypair (model_cli [42]))" by (simp add: model_cli_def)
  note claim = admin_commands_guarded [OF w, of "\<lambda>_. Inr ''sig''" undefined undefined ?co ?so False]
  from claim tx have "\<exists>g n. fetchGlobalConfig (model_cli [42]) = Inr g \<and> gcAdmin g = cxKeypair (model_cli [42]) \<and> n \<noteq> gcAdmin g \<and>
      setAdmin (cxClient (model_cli [42])) n (Some (gcAdmin g)) = Inr tx" by auto
  moreover from claim call have "\<exists>d w a. optBps (Some ''25'') = Inr d \<and> optBps None = Inr w \<and> newAuthorityOf (cxEnv (model_cli [42])) ?co = Inr a \<and>
      mcArgs call = [optArg ArgNum d, optArg ArgNum w, optArg ArgKey (case a of None \<Rightarrow> None | Some x \<Rightarrow> x)]" by auto
  then have "mcArgs call = [ArgNum 25, ArgNull, ArgNull]"
    by (auto simp: optBps_def bps newAuthorityOf_def optKey_def truthy_def optArg_def)
  ultimately show ?thesis using tx call by (auto simp: model_cli_def)
qed

section \<open>Two commands that do less than they say\<close>

text \<open>\<open>configure --clear-pending-authority\<close> does not clear anything: the flag travels as \<open>null\<close>, exactly what an absent
  \<open>--new-authority\<close> travels as, and the program reads that as no change. (Clearing would take the zero key.) The plan the
  operator is shown says that the pending authority is cleared.\<close>

lemma clear_pending_authority_keeps_it:
  assumes "configure_plan ctx opts = Inr (Broadcast (Inr tx))" "cpClearPendingAuthority opts" "rcWallet (cxClient ctx) = Some k"
  shows "mcArgs tx ! 2 = optArg ArgKey None \<and> pendingAuthorityAfter authority pending None = Inr pending"
  using configure_sent [OF assms(1,3)] assms(2) by (auto simp: newAuthorityOf_def pendingAuthorityAfter_def optArg_def)

lemma clear_pending_authority_example:
  "\<exists>tx. configure_plan (model_cli [42]) \<lparr>cpFeeVault = None, cpDepositFeeBps = None, cpWithdrawFeeBps = None,
      cpNewAuthority = None, cpClearPendingAuthority = True, cpConfirm = True\<rparr> = Inr (Broadcast (Inr tx)) \<and>
     mcArgs tx = [ArgNull, ArgNull, ArgNull]"
  by (simp add: configure_plan_def model_cli_def optKey_def optBps_def newAuthorityOf_def gate_def configure_def orWallet_def
      relayerAta_def model_env_def optArg_def truthy_def)

text \<open>\<open>initialize\<close> with \<open>--usdc-mint\<close> checks that the pair of \<open>--base-mint\<close> is new, not the pair it creates: the account it
  looks at is another one than the \<open>pairConfig\<close> of the call.\<close>

lemma initialize_checks_other_pair:
  assumes "pda_collision_free (cxEnv ctx)" "initialize_plan ctx opts = Inr (Broadcast (Inr tx))"
    and "newRelayerClient (cxEnv ctx) programId w baseMint assetMint = Inr (cxClient ctx)"
    and "keyOr (cxEnv ctx) (ioUsdcMint opts) baseMint = Inr usdc" "usdc \<noteq> baseMint"
    and "length usdc = 32" "length baseMint = 32"
  shows "\<exists>created. map_of (mcAccounts tx) ''pairConfig'' = Some (Some created) \<and> created \<noteq> rcConfigPda (cxClient ctx)"
proof -
  from assms(3) obtain b where cfg: "findConfigPda (cxEnv ctx) baseMint assetMint programId = Inr (rcConfigPda (cxClient ctx), b)"
    and base: "rcBaseMint (cxClient ctx) = baseMint" and prog: "rcProgramId (cxClient ctx) = programId"
    by (auto simp: newRelayerClient_def key_of_def result_simps dest!: sym [of _ "cxClient ctx"])
  from assms(2,4) base obtain ps where "initialize (cxEnv ctx) (cxClient ctx) ps = Inr tx" "inBaseMint ps = Some usdc"
    unfolding initialize_plan_def Let_def by (elim rbind_InrE) (auto simp: result_simps)
  then obtain created b' asset where new: "findConfigPda (cxEnv ctx) usdc asset programId = Inr (created, b')"
    "map_of (mcAccounts tx) ''pairConfig'' = Some (Some created)"
    using prog by (auto simp: initialize_def Let_def key_of_def result_simps)
  have "created \<noteq> rcConfigPda (cxClient ctx)"
  proof
    assume "created = rcConfigPda (cxClient ctx)"
    with pdaD [OF assms(1)] cfg new(1) have "CONFIG_SEED @ usdc @ asset = CONFIG_SEED @ baseMint @ assetMint"
      by (simp add: findConfigPda_def) fastforce
    with assms(5-7) show False by simp
  qed
  with new(2) show ?thesis by blast
qed

end
