(* ===== verification/Cli_Intent.thy ===== *)
theory Cli_Intent
  imports Cli_Relayer Intent
begin

text \<open>
  The fee commands of the intent program (\<open>packages/cli/src/commands/intent.ts\<close>): the account decoders, token amounts as
  exact decimals, \<open>show\<close> and \<open>update-fee\<close>.
\<close>

definition FOGO_ONYC_MINT :: pubkey where
  "FOGO_ONYC_MINT = pk58 ''oNyCm1QsAatj3ckaEwZjtAPWvstPn3Zm5MAYPtkjEfa''"

section \<open>Accounts\<close>

record FeeConfigState =
  fcIntrachainTransferFee :: int
  fcBridgeTransferFee :: int
  fcFeeRecipient :: pubkey

definition decodeFeeConfig :: "web3_env \<Rightarrow> bytes \<Rightarrow> FeeConfigState result" where
  "decodeFeeConfig env data =
     (if length data < 8 + 8 + 8 + 32 then Inl (Error ''FeeConfig account is too short - un-migrated (old layout)?'')
      else rbind (get_le 8 data 8) (\<lambda>intrachain.
           rbind (get_le 8 data 16) (\<lambda>bridge.
           rbind (newPublicKey env (bslice data 24 56)) (\<lambda>recipient.
             Inr \<lparr>fcIntrachainTransferFee = int intrachain, fcBridgeTransferFee = int bridge, fcFeeRecipient = recipient\<rparr>))))"

definition readUpgradeAuthority :: "web3_env \<Rightarrow> bytes \<Rightarrow> pubkey option result" where
  "readUpgradeAuthority env programData =
     (if length programData < 45 \<or> programData ! 12 \<noteq> 1 then Inr None
      else rbind (newPublicKey env (bslice programData 13 45)) (\<lambda>k. Inr (Some k)))"

section \<open>Amounts\<close>

definition digits :: "string \<Rightarrow> bool" where
  "digits s \<longleftrightarrow> s \<noteq> [] \<and> list_all is_digit s"

text \<open>\<open>/^\\d+(?:\\.\\d+)?$/\<close>\<close>

definition isDecimal :: "string \<Rightarrow> bool" where
  "isDecimal amount = (case splitOn CHR ''.'' amount of [w] \<Rightarrow> digits w | [w, f] \<Rightarrow> digits w \<and> digits f | _ \<Rightarrow> False)"

definition padEnd :: "string \<Rightarrow> nat \<Rightarrow> string" where
  "padEnd s n = s @ replicate (n - length s) CHR ''0''"

definition padStart :: "string \<Rightarrow> nat \<Rightarrow> string" where
  "padStart s n = replicate (n - length s) CHR ''0'' @ s"

definition tokensToBaseUnits :: "string \<Rightarrow> nat \<Rightarrow> int result" where
  "tokensToBaseUnits amount decimals =
     (if \<not> isDecimal amount then Inl (Error ''invalid amount - expected a non-negative decimal'')
      else
        let parts = splitOn CHR ''.'' amount;
            whole = parts ! 0;
            frac = (if 1 < length parts then parts ! 1 else [])
        in if length frac > decimals then Inl (Error ''amount exceeds the fractional digits'')
           else rbind (BigInt whole) (\<lambda>w.
                rbind (BigInt (if padEnd frac decimals = [] then ''0'' else padEnd frac decimals)) (\<lambda>f.
                  Inr (w * 10 ^ decimals + f))))"

text \<open>\<open>s.replace(/0+$/, '')\<close>\<close>

definition stripZeros :: "string \<Rightarrow> string" where
  "stripZeros s = rev (dropWhile (\<lambda>c. c = CHR ''0'') (rev s))"

definition formatBaseUnits :: "int \<Rightarrow> nat \<Rightarrow> string" where
  "formatBaseUnits units decimals =
     (let d = 10 ^ decimals;
          q = sgn units * (\<bar>units\<bar> div d);
          frac = stripZeros (padStart (bigint_toString (units - q * d)) decimals)
      in if frac \<noteq> [] then bigint_toString q @ ''.'' @ frac else bigint_toString q)"

definition mintDecimals :: "Context \<Rightarrow> pubkey \<Rightarrow> thrown + nat" where
  "mintDecimals ctx mint =
     (case cxGetMint ctx mint of Inl _ \<Rightarrow> Inl (of_js_error (Error ''mint not found'')) | Inr decimals \<Rightarrow> Inr decimals)"

section \<open>Commands\<close>

definition show_fee :: "Context \<Rightarrow> string option \<Rightarrow> thrown + (FeeConfigState \<times> string \<times> string) option" where
  "show_fee ctx mint0 =
     rbind (lift (keyOr (cxEnv ctx) mint0 FOGO_ONYC_MINT)) (\<lambda>mint.
     rbind (lift (findFeeConfigPda (cxEnv ctx) ONRE_INTENT_PROGRAM_ID mint)) (\<lambda>pda.
     rbind (cxGetAccountInfo ctx pda) (\<lambda>acct.
       case acct of
         None \<Rightarrow> Inr None
       | Some a \<Rightarrow>
           rbind (lift (decodeFeeConfig (cxEnv ctx) (aiData a))) (\<lambda>fc.
           rbind (mintDecimals ctx mint) (\<lambda>dec.
             Inr (Some (fc, formatBaseUnits (fcIntrachainTransferFee fc) dec, formatBaseUnits (fcBridgeTransferFee fc) dec)))))))"

record update_fee_opts =
  uoMint :: "string option"
  uoBridgeFee :: "string option"
  uoIntrachainFee :: "string option"
  uoFeeRecipient :: "string option"
  uoConfirm :: bool

definition feeOr :: "string option \<Rightarrow> nat \<Rightarrow> int \<Rightarrow> int result" where
  "feeOr given dec current = (case given of None \<Rightarrow> Inr current | Some s \<Rightarrow> tokensToBaseUnits s dec)"

text \<open>The upgrade authority of the program, read through its program data account.\<close>

definition upgradeAuthorityOf :: "Context \<Rightarrow> cli_account \<Rightarrow> thrown + pubkey" where
  "upgradeAuthorityOf ctx programAcct =
     rbind (lift (newPublicKey (cxEnv ctx) (bslice (aiData programAcct) 4 36))) (\<lambda>programDataAddr.
     rbind (cxGetAccountInfo ctx programDataAddr) (\<lambda>programData.
       case programData of
         None \<Rightarrow> Inl (of_js_error (Error ''programData not found''))
       | Some d \<Rightarrow>
           rbind (lift (readUpgradeAuthority (cxEnv ctx) (aiData d))) (\<lambda>upgradeAuthority.
             case upgradeAuthority of
               None \<Rightarrow> Inl (of_js_error (Error ''program is immutable (no upgrade authority)''))
             | Some k \<Rightarrow> Inr k)))"

definition currentFeeConfig :: "Context \<Rightarrow> pubkey \<Rightarrow> thrown + FeeConfigState" where
  "currentFeeConfig ctx pda =
     rbind (cxGetAccountInfo ctx pda) (\<lambda>acct.
       case acct of
         None \<Rightarrow> Inl (of_js_error (Error ''FeeConfig not found for mint - register it first''))
       | Some a \<Rightarrow> lift (decodeFeeConfig (cxEnv ctx) (aiData a)))"

definition requestedFees :: "Context \<Rightarrow> update_fee_opts \<Rightarrow> nat \<Rightarrow> FeeConfigState \<Rightarrow> thrown + FeeConfigState" where
  "requestedFees ctx opts dec current =
     rbind (lift (feeOr (uoBridgeFee opts) dec (fcBridgeTransferFee current))) (\<lambda>bridgeTransferFee.
     rbind (lift (feeOr (uoIntrachainFee opts) dec (fcIntrachainTransferFee current))) (\<lambda>intrachainTransferFee.
     rbind (lift (keyOr (cxEnv ctx) (uoFeeRecipient opts) (fcFeeRecipient current))) (\<lambda>feeRecipient.
       Inr \<lparr>fcIntrachainTransferFee = intrachainTransferFee, fcBridgeTransferFee = bridgeTransferFee, fcFeeRecipient = feeRecipient\<rparr>)))"

definition update_fee_plan :: "Context \<Rightarrow> update_fee_opts \<Rightarrow> thrown + TransactionInstruction cli_plan" where
  "update_fee_plan ctx opts =
     (let env = cxEnv ctx in
     rbind (lift (keyOr env (uoMint opts) FOGO_ONYC_MINT)) (\<lambda>mint.
     rbind (lift (findFeeConfigPda env ONRE_INTENT_PROGRAM_ID mint)) (\<lambda>pda.
     rbind (programPreflight ctx ONRE_INTENT_PROGRAM_ID) (\<lambda>programAcct.
     rbind (currentFeeConfig ctx pda) (\<lambda>current.
     rbind (upgradeAuthorityOf ctx programAcct) (\<lambda>upgradeAuthority.
     rbind (throwIf (upgradeAuthority \<noteq> cxKeypair ctx) ''signer is not the upgrade authority'') (\<lambda>_.
     rbind (mintDecimals ctx mint) (\<lambda>dec.
     rbind (requestedFees ctx opts dec current) (\<lambda>new.
     rbind (throwIf (new = current) ''no fields to change'') (\<lambda>_.
       if \<not> uoConfirm opts then Inr DryRun
       else rbind (lift (buildUpdateFeeConfigIx env
                    \<lparr>ufIntentTransferProgramId = ONRE_INTENT_PROGRAM_ID, ufUpgradeAuthority = cxKeypair ctx, ufMint = mint,
                     ufFeeRecipient = fcFeeRecipient new, ufIntrachainTransferFee = fcIntrachainTransferFee new,
                     ufBridgeTransferFee = fcBridgeTransferFee new\<rparr>)) (\<lambda>ix. Inr (Broadcast (Inr ix)))))))))))))"

section \<open>Amounts are exact\<close>

lemma BigInt_digits: "digits s \<Longrightarrow> BigInt s = Inr (int (nat_of_dec s))"
proof -
  assume s: "digits s"
  then have "trim s = s" by (intro trim_visible) (auto simp: digits_def list_all_iff visible_digit)
  moreover have "\<not> is_prefix w s" if "\<not> list_all is_digit w" for w
    using s that by (intro not_prefix_digits) (auto simp: digits_def)
  moreover have "radix_nat 10 s = Some (nat_of_dec s)"
    using s by (simp add: radix_nat_def digits_def radix_digits_10 nat_of_dec_def)
  ultimately show ?thesis using s by (simp add: BigInt_def BigInt_text_def is_digit_def digits_def)
qed

lemma splitOn_none: "sep \<notin> set s \<Longrightarrow> splitOn sep s = [s]"
  by (induction s) auto

lemma splitOn_once: "sep \<notin> set a \<Longrightarrow> sep \<notin> set b \<Longrightarrow> splitOn sep (a @ sep # b) = [a, b]"
  by (induction a) (auto simp: splitOn_none)

fun joinWith :: "char \<Rightarrow> string list \<Rightarrow> string" where
  "joinWith sep [] = []"
| "joinWith sep [p] = p"
| "joinWith sep (p # q # ps) = p @ sep # joinWith sep (q # ps)"

lemma splitOn_join: "joinWith sep (splitOn sep s) = s"
proof (induction s)
  case (Cons c s)
  then show ?case by (cases "splitOn sep s"; cases "tl (splitOn sep s)") auto
qed simp

lemma digits_no_point: "list_all is_digit s \<Longrightarrow> CHR ''.'' \<notin> set s"
  by (auto simp: list_all_iff is_digit_def)

lemma nat_of_dec_append: "nat_of_dec (s @ t) = nat_of_dec s * 10 ^ length t + nat_of_dec t"
proof (induction t rule: rev_induct)
  case (snoc c t)
  then show ?case by (simp add: append_assoc [symmetric] algebra_simps del: append_assoc)
qed (simp add: nat_of_dec_def)

lemma nat_of_dec_zeros [simp]: "nat_of_dec (replicate n CHR ''0'') = 0"
proof (induction n)
  case (Suc n)
  have "nat_of_dec (replicate n CHR ''0'' @ [CHR ''0'']) = 0" using Suc by (simp add: digit_val_def)
  then show ?case by (simp add: replicate_append_same [symmetric] del: replicate_append_same)
qed (simp add: nat_of_dec_def)

lemma length_dec_of_nat: "0 < k \<Longrightarrow> n < 10 ^ k \<Longrightarrow> length (dec_of_nat n) \<le> k"
proof (induction n arbitrary: k rule: dec_of_nat.induct)
  case (1 n)
  show ?case
  proof (cases "n < 10")
    case True
    then show ?thesis using "1.prems" by (simp add: dec_of_nat.simps [of n])
  next
    case False
    with "1.prems" obtain j where k: "k = Suc j" "0 < j" by (cases k; cases "k - 1") auto
    then have "n div 10 < 10 ^ j" using "1.prems" by (simp add: less_mult_imp_div_less mult.commute)
    with "1.IH" [OF False k(2)] k False show ?thesis by (simp add: dec_of_nat.simps [of n])
  qed
qed

lemma stripZeros_split: "\<exists>n. s = stripZeros s @ replicate n CHR ''0''"
proof -
  have "rev s = takeWhile (\<lambda>c. c = CHR ''0'') (rev s) @ dropWhile (\<lambda>c. c = CHR ''0'') (rev s)" by simp
  moreover have "takeWhile (\<lambda>c. c = CHR ''0'') (rev s) = replicate (length (takeWhile (\<lambda>c. c = CHR ''0'') (rev s))) CHR ''0''"
    by (intro replicate_eqI) (auto dest: set_takeWhileD)
  ultimately have "rev (rev s) = stripZeros s @ replicate (length (takeWhile (\<lambda>c. c = CHR ''0'') (rev s))) CHR ''0''"
    unfolding stripZeros_def by (metis rev_append rev_replicate)
  then show ?thesis by auto
qed

lemma tokensToBaseUnits_whole:
  "digits w \<Longrightarrow> tokensToBaseUnits w n = Inr (int (nat_of_dec w) * 10 ^ n)"
proof -
  assume w: "digits w"
  then have sp: "splitOn CHR ''.'' w = [w]" by (intro splitOn_none) (simp add: digits_def digits_no_point)
  have "BigInt (if padEnd [] n = [] then ''0'' else padEnd [] n) = Inr 0"
    by (subst BigInt_digits) (auto simp: digits_def padEnd_def list_all_iff is_digit_def digit_val_def)
  with w show ?thesis by (simp add: tokensToBaseUnits_def isDecimal_def sp BigInt_digits)
qed

lemma tokensToBaseUnits_frac:
  assumes "digits w" "digits f" "length f \<le> n"
  shows "tokensToBaseUnits (w @ ''.'' @ f) n = Inr (int (nat_of_dec w) * 10 ^ n + int (nat_of_dec f) * 10 ^ (n - length f))"
proof -
  have sp: "splitOn CHR ''.'' (w @ ''.'' @ f) = [w, f]"
    using assms splitOn_once [of "CHR ''.''" w f] by (simp add: digits_def digits_no_point)
  have "digits (padEnd f n)" "padEnd f n \<noteq> []" using assms(2) by (auto simp: digits_def padEnd_def list_all_iff is_digit_def)
  moreover have "nat_of_dec (padEnd f n) = nat_of_dec f * 10 ^ (n - length f)"
    by (simp add: padEnd_def nat_of_dec_append)
  ultimately show ?thesis using assms by (simp add: tokensToBaseUnits_def isDecimal_def sp BigInt_digits del: append_Cons)
qed

lemma digits_dec_of_nat: "digits (dec_of_nat n)"
  by (simp add: digits_def dec_of_nat_digits)

lemma format_then_read:
  assumes nn: "0 \<le> units"
  shows "tokensToBaseUnits (formatBaseUnits units n) n = Inr units"
proof -
  define d :: nat where "d = 10 ^ n"
  define q r where "q = nat units div d" and "r = nat units mod d"
  have "int (nat units) = int (q * d + r)" by (simp add: q_def r_def)
  then have un: "units = int q * int d + int r" "r < d" using nn by (simp_all add: r_def d_def)
  have dd: "(10 :: int) ^ n = int d" by (simp add: d_def)
  have div: "\<bar>units\<bar> div int d = int q" using nn by (simp add: q_def zdiv_int)
  have q': "sgn units * int q = int q" using nn by (cases "units = 0") (simp_all add: q_def)
  define s where "s = padStart (dec_of_nat r) n"
  obtain k where sk: "s = stripZeros s @ replicate k CHR ''0''" using stripZeros_split by blast
  have ds: "list_all is_digit s" using dec_of_nat_digits by (auto simp: s_def padStart_def list_all_iff is_digit_def)
  then have df: "list_all is_digit (stripZeros s)" by (metis list_all_append sk)
  have "nat_of_dec s = r" by (simp add: s_def padStart_def nat_of_dec_append)
  then have val: "r = nat_of_dec (stripZeros s) * 10 ^ k" by (metis add_0_right length_replicate nat_of_dec_append nat_of_dec_zeros sk)
  have fmt: "formatBaseUnits units n = (if stripZeros s \<noteq> [] then dec_of_nat q @ ''.'' @ stripZeros s else dec_of_nat q)"
  proof -
    have "sgn units * (\<bar>units\<bar> div 10 ^ n) = int q" unfolding dd div q' by simp
    moreover have "units - int q * 10 ^ n = int r" using un(1) by (simp add: dd)
    ultimately show ?thesis unfolding formatBaseUnits_def Let_def by (simp add: s_def bigint_toString_def)
  qed
  show ?thesis
  proof (cases "stripZeros s = []")
    case True
    then have "r = 0" using val by (simp add: nat_of_dec_def)
    with True un(1) show ?thesis unfolding fmt by (simp add: tokensToBaseUnits_whole digits_dec_of_nat dd)
  next
    case False
    then have "0 < n"
      by (cases n) (use un(2) in \<open>auto simp: s_def padStart_def d_def dec_of_nat.simps [of 0] digit_def stripZeros_def\<close>)
    then have "length s = n" using un(2) length_dec_of_nat [of n r] by (simp add: s_def padStart_def d_def)
    then have "n - length (stripZeros s) = k" "length (stripZeros s) \<le> n" using arg_cong [OF sk, of length] by simp_all
    moreover have "digits (stripZeros s)" using False df by (simp add: digits_def)
    ultimately have "tokensToBaseUnits (dec_of_nat q @ ''.'' @ stripZeros s) n = Inr (int q * int d + int (nat_of_dec (stripZeros s)) * 10 ^ k)"
      using tokensToBaseUnits_frac [OF digits_dec_of_nat, of "stripZeros s" n q] by (simp only: nat_of_dec_dec_of_nat dd)
    also have "\<dots> = Inr units" using un(1) val by simp
    finally show ?thesis unfolding fmt using False by simp
  qed
qed

lemma read_denotes:
  assumes t: "tokensToBaseUnits amount n = Inr u"
  shows "\<exists>w f. (amount = w \<and> f = [] \<or> amount = w @ ''.'' @ f \<and> digits f) \<and> digits w \<and> length f \<le> n \<and>
    u = int (nat_of_dec w) * 10 ^ n + int (nat_of_dec f) * 10 ^ (n - length f)"
proof -
  from t have "isDecimal amount" by (auto simp: tokensToBaseUnits_def split: if_splits)
  then consider (one) w where "splitOn CHR ''.'' amount = [w]" "digits w"
    | (two) w f where "splitOn CHR ''.'' amount = [w, f]" "digits w" "digits f"
    by (auto simp: isDecimal_def split: list.splits)
  then show ?thesis
  proof cases
    case one
    then have "amount = w" using splitOn_join [of "CHR ''.''" amount] by simp
    with t one tokensToBaseUnits_whole [of w n] show ?thesis by (intro exI [of _ w] exI [of _ "[]"]) (simp add: nat_of_dec_def)
  next
    case two
    then have a: "amount = w @ ''.'' @ f" using splitOn_join [of "CHR ''.''" amount] by simp
    have "length f \<le> n" using t two by (auto simp: tokensToBaseUnits_def split: if_splits)
    with t two a tokensToBaseUnits_frac [of w f n] show ?thesis by (metis sum.inject(2))
  qed
qed

text \<open>C36. Amounts are printed and read without loss: reading back what \<open>formatBaseUnits\<close> prints gives the same number of base
  units, for every number of decimals, and every accepted text denotes exactly the base units it is read as: \<open>w.f\<close> is
  \<open>w\<close> tokens and \<open>f\<close> over a power of ten of one, with nothing rounded away.\<close>

theorem token_amounts_exact:
  "(0 \<le> units \<longrightarrow> tokensToBaseUnits (formatBaseUnits units n) n = Inr units) \<and>
   (tokensToBaseUnits amount n = Inr u \<longrightarrow>
      (\<exists>w f. (amount = w \<and> f = [] \<or> amount = w @ ''.'' @ f \<and> digits f) \<and> digits w \<and> length f \<le> n \<and>
        u = int (nat_of_dec w) * 10 ^ n + int (nat_of_dec f) * 10 ^ (n - length f)))"
  using format_then_read [of units n] read_denotes [of amount n u] by blast

lemma dec_of_nat_small: "n < 10 \<Longrightarrow> dec_of_nat n = [digit n]"
  by (simp add: dec_of_nat.simps [of n])

theorem token_amounts_exact_witness:
  "tokensToBaseUnits (formatBaseUnits 5 1) 1 = Inr 5 \<and> formatBaseUnits 5 1 = ''0.5''"
proof
  show "tokensToBaseUnits (formatBaseUnits 5 1) 1 = Inr 5"
    using conjunct1 [OF token_amounts_exact [of 5 1 "[]" 0]] by simp
  show "formatBaseUnits 5 1 = ''0.5''"
    by (simp add: formatBaseUnits_def bigint_toString_def padStart_def stripZeros_def dec_of_nat_small digit_def char_of_def bit_iff_odd)
qed

section \<open>What \<open>update-fee\<close> changes\<close>

interpretation update_fee_c: guarded_command uoConfirm update_fee_plan
  "\<lambda>ctx opts. \<exists>a. programPreflight ctx ONRE_INTENT_PROGRAM_ID = Inr a \<and> upgradeAuthorityOf ctx a = Inr (cxKeypair ctx)"
  by unfold_locales (auto simp: update_fee_plan_def Let_def result_simps split: if_splits)

text \<open>A key written in base58 has 32 bytes.\<close>

definition base58_keys :: "web3_env \<Rightarrow> bool" where
  "base58_keys env \<longleftrightarrow> (\<forall>s k. fromBase58 env s = Inr k \<longrightarrow> length k = 32)"

lemma update_fee_plan_Broadcast:
  assumes "update_fee_plan ctx opts = Inr (Broadcast b)"
  obtains mint pda programAcct current dec new ix where "uoConfirm opts" "b = Inr ix"
    "keyOr (cxEnv ctx) (uoMint opts) FOGO_ONYC_MINT = Inr mint" "findFeeConfigPda (cxEnv ctx) ONRE_INTENT_PROGRAM_ID mint = Inr pda"
    "programPreflight ctx ONRE_INTENT_PROGRAM_ID = Inr programAcct" "upgradeAuthorityOf ctx programAcct = Inr (cxKeypair ctx)"
    "currentFeeConfig ctx pda = Inr current" "mintDecimals ctx mint = Inr dec" "requestedFees ctx opts dec current = Inr new"
    "new \<noteq> current"
    "buildUpdateFeeConfigIx (cxEnv ctx)
       \<lparr>ufIntentTransferProgramId = ONRE_INTENT_PROGRAM_ID, ufUpgradeAuthority = cxKeypair ctx, ufMint = mint,
        ufFeeRecipient = fcFeeRecipient new, ufIntrachainTransferFee = fcIntrachainTransferFee new,
        ufBridgeTransferFee = fcBridgeTransferFee new\<rparr> = Inr ix"
proof -
  from assms show thesis unfolding update_fee_plan_def Let_def
    by (elim rbind_InrE) (auto simp: result_simps split: if_splits intro: that)
qed

lemma requestedFees_Inr:
  assumes "requestedFees ctx opts dec current = Inr new"
  shows "feeOr (uoBridgeFee opts) dec (fcBridgeTransferFee current) = Inr (fcBridgeTransferFee new)"
    "feeOr (uoIntrachainFee opts) dec (fcIntrachainTransferFee current) = Inr (fcIntrachainTransferFee new)"
    "keyOr (cxEnv ctx) (uoFeeRecipient opts) (fcFeeRecipient current) = Inr (fcFeeRecipient new)"
  using assms by (auto simp: requestedFees_def result_simps)

text \<open>The instruction's data, behind its one-byte discriminator, is the account layout behind its eight-byte one.\<close>

lemma update_ix_decodes:
  assumes "buildUpdateFeeConfigIx env ps = Inr ix" "pubkey_ctor_ok env" "length (ufFeeRecipient ps) = 32" "length disc = 8"
  shows "decodeFeeConfig env (disc @ drop 1 (tiData ix)) =
    Inr \<lparr>fcIntrachainTransferFee = ufIntrachainTransferFee ps, fcBridgeTransferFee = ufBridgeTransferFee ps, fcFeeRecipient = ufFeeRecipient ps\<rparr>"
proof -
  let ?i = "ufIntrachainTransferFee ps" and ?b = "ufBridgeTransferFee ps"
  from assms(1,3) have d: "drop 1 (tiData ix) = u64_le ?i @ u64_le ?b @ ufFeeRecipient ps"
    and r: "0 \<le> ?i" "?i \<le> U64_MAX" "0 \<le> ?b" "?b \<le> U64_MAX"
    by (auto simp: buildUpdateFeeConfigIx_def Let_def writeBigUInt64LE_def put_def result_simps split: if_splits)
  from assms(3,4) have "bslice (disc @ drop 1 (tiData ix)) 8 16 = u64_le ?i" "bslice (disc @ drop 1 (tiData ix)) 16 24 = u64_le ?b"
    "bslice (disc @ drop 1 (tiData ix)) 24 56 = ufFeeRecipient ps" "length (disc @ drop 1 (tiData ix)) = 56"
    unfolding d by (simp_all add: bslice_def)
  then show ?thesis using assms(2,3) r by (simp add: decodeFeeConfig_def pubkey_ctor_ok_def int_le_nat_u64_le)
qed

lemma feeOr_Inr: "feeOr given dec current = Inr v \<longleftrightarrow>
    (given = None \<longrightarrow> v = current) \<and> (\<forall>s. given = Some s \<longrightarrow> tokensToBaseUnits s dec = Inr v)"
  by (cases given) (auto simp: feeOr_def)

lemma current_recipient_length:
  "currentFeeConfig ctx pda = Inr current \<Longrightarrow> pubkey_ctor_ok (cxEnv ctx) \<Longrightarrow> length (fcFeeRecipient current) = 32"
  by (auto simp: currentFeeConfig_def decodeFeeConfig_def pubkey_ctor_ok_def length_bslice result_simps split: option.splits if_splits)

lemma keyOr_length:
  "keyOr env given k = Inr v \<Longrightarrow> base58_keys env \<Longrightarrow> length k = 32 \<Longrightarrow> length v = 32"
  by (auto simp: keyOr_def base58_keys_def split: if_splits)

text \<open>C18. \<open>update-fee\<close> overwrites the whole fee configuration on chain, so what it does not mean to change it has to send
  unchanged. What it hands to the network is one instruction on the fee configuration of the mint, only when the operator
  confirmed and the signer is the program's upgrade authority; read as the account it is about to become, the instruction
  holds the named fees as exact amounts of the mint, the named recipient, and in every other field the value that is on
  chain now; and it differs from what is on chain.\<close>

theorem update_fee_exact:
  assumes "ix \<in> set (snd (runPlan rpc (update_fee_plan ctx opts)))"
    and "pubkey_ctor_ok (cxEnv ctx)" "base58_keys (cxEnv ctx)" "length disc = 8"
  shows "uoConfirm opts \<and>
    (\<exists>a. programPreflight ctx ONRE_INTENT_PROGRAM_ID = Inr a \<and> upgradeAuthorityOf ctx a = Inr (cxKeypair ctx)) \<and>
    (\<exists>mint pda current dec new. keyOr (cxEnv ctx) (uoMint opts) FOGO_ONYC_MINT = Inr mint \<and>
       findFeeConfigPda (cxEnv ctx) ONRE_INTENT_PROGRAM_ID mint = Inr pda \<and> writable pda \<in> set (tiKeys ix) \<and>
       currentFeeConfig ctx pda = Inr current \<and> mintDecimals ctx mint = Inr dec \<and>
       decodeFeeConfig (cxEnv ctx) (disc @ drop 1 (tiData ix)) = Inr new \<and> new \<noteq> current \<and>
       (uoBridgeFee opts = None \<longrightarrow> fcBridgeTransferFee new = fcBridgeTransferFee current) \<and>
       (\<forall>s. uoBridgeFee opts = Some s \<longrightarrow> tokensToBaseUnits s dec = Inr (fcBridgeTransferFee new)) \<and>
       (uoIntrachainFee opts = None \<longrightarrow> fcIntrachainTransferFee new = fcIntrachainTransferFee current) \<and>
       (\<forall>s. uoIntrachainFee opts = Some s \<longrightarrow> tokensToBaseUnits s dec = Inr (fcIntrachainTransferFee new)) \<and>
       keyOr (cxEnv ctx) (uoFeeRecipient opts) (fcFeeRecipient current) = Inr (fcFeeRecipient new))"
proof -
  from update_fee_plan_Broadcast [OF sent_broadcast [OF assms(1)]] obtain mint pda a current dec new where
    *: "uoConfirm opts" "programPreflight ctx ONRE_INTENT_PROGRAM_ID = Inr a" "upgradeAuthorityOf ctx a = Inr (cxKeypair ctx)"
    and m: "keyOr (cxEnv ctx) (uoMint opts) FOGO_ONYC_MINT = Inr mint" "findFeeConfigPda (cxEnv ctx) ONRE_INTENT_PROGRAM_ID mint = Inr pda"
    and c: "currentFeeConfig ctx pda = Inr current" "mintDecimals ctx mint = Inr dec" "requestedFees ctx opts dec current = Inr new" "new \<noteq> current"
    and ix: "buildUpdateFeeConfigIx (cxEnv ctx)
       \<lparr>ufIntentTransferProgramId = ONRE_INTENT_PROGRAM_ID, ufUpgradeAuthority = cxKeypair ctx, ufMint = mint,
        ufFeeRecipient = fcFeeRecipient new, ufIntrachainTransferFee = fcIntrachainTransferFee new,
        ufBridgeTransferFee = fcBridgeTransferFee new\<rparr> = Inr ix"
    by (metis sum.inject(2))
  note new = requestedFees_Inr [OF c(3)]
  have len: "length (fcFeeRecipient new) = 32"
    using new(3) assms(3) current_recipient_length [OF c(1) assms(2)] by (rule keyOr_length)
  have "writable pda \<in> set (tiKeys ix)"
    using ix m(2) by (auto simp: buildUpdateFeeConfigIx_def Let_def result_simps)
  moreover have "decodeFeeConfig (cxEnv ctx) (disc @ drop 1 (tiData ix)) = Inr new"
    using update_ix_decodes [OF ix assms(2) _ assms(4)] len by simp
  ultimately show ?thesis using * m c new by (simp add: feeOr_Inr)
qed

text \<open>Every account holds the byte 1, so that the signer \<open>1 \<dots> 1\<close> is the upgrade authority; the mint has no decimals.\<close>

definition model_fee_cli :: Context where
  "model_fee_cli = (model_cli (replicate 32 1))\<lparr>
     cxEnv := model_env\<lparr>fromBase58 := (\<lambda>_. Inr (replicate 32 5))\<rparr>, cxGetMint := (\<lambda>_. Inr 0),
     cxGetAccountInfo := (\<lambda>_. Inr (Some \<lparr>aiOwner = [6], aiLamports = 0, aiData = replicate 80 1, caExecutable = True\<rparr>))\<rparr>"

definition model_fee_opts :: update_fee_opts where
  "model_fee_opts = \<lparr>uoMint = None, uoBridgeFee = Some ''5'', uoIntrachainFee = None, uoFeeRecipient = None, uoConfirm = True\<rparr>"

lemma model_fee_sent: "\<exists>ix. snd (runPlan (\<lambda>_. Inr ''sig'') (update_fee_plan model_fee_cli model_fee_opts)) = [ix]"
proof -
  let ?ctx = model_fee_cli and ?env = "cxEnv model_fee_cli"
  have env: "?env = model_env\<lparr>fromBase58 := (\<lambda>_. Inr (replicate 32 5))\<rparr>" "cxKeypair ?ctx = replicate 32 1"
    by (simp_all add: model_fee_cli_def model_cli_def)
  have acct: "cxGetAccountInfo ?ctx k = Inr (Some \<lparr>aiOwner = [6], aiLamports = 0, aiData = replicate 80 1, caExecutable = True\<rparr>)" for k
    by (simp add: model_fee_cli_def)
  have bs: "bslice (replicate 80 1) a b = replicate (min (b - a) (80 - a)) 1" for a b by (rule bslice_replicate)
  have pre: "\<exists>a. programPreflight ?ctx ONRE_INTENT_PROGRAM_ID = Inr a \<and> aiData a = replicate 80 1" by (simp add: programPreflight_def acct)
  then obtain a where a: "programPreflight ?ctx ONRE_INTENT_PROGRAM_ID = Inr a" "aiData a = replicate 80 1" by blast
  have up: "upgradeAuthorityOf ?ctx a = Inr (replicate 32 1)"
    by (simp add: upgradeAuthorityOf_def readUpgradeAuthority_def acct a bs env model_env_def)
  obtain pda where pda: "findFeeConfigPda ?env ONRE_INTENT_PROGRAM_ID FOGO_ONYC_MINT = Inr pda"
    by (simp add: findFeeConfigPda_def key_of_def env model_env_def)
  obtain c where c: "currentFeeConfig ?ctx pda = Inr c" "fcBridgeTransferFee c = int (le_nat (replicate 8 1))"
      "fcIntrachainTransferFee c = int (le_nat (replicate 8 1))"
    by (simp add: currentFeeConfig_def decodeFeeConfig_def acct bs env model_env_def)
  have five: "tokensToBaseUnits ''5'' 0 = Inr 5"
    using tokensToBaseUnits_whole [of "''5''" 0] by (simp add: digits_def is_digit_def nat_of_dec_def digit_val_def)
  have req: "requestedFees ?ctx model_fee_opts 0 c = Inr (c\<lparr>fcBridgeTransferFee := 5\<rparr>)"
    by (simp add: requestedFees_def model_fee_opts_def feeOr_def five keyOr_def truthy_def)
  have "replicate 8 (1 :: byte) = [1, 1, 1, 1, 1, 1, 1, 1]" by (simp add: numeral_eq_Suc)
  then have small: "le_nat (replicate 8 1) = 72340172838076673" by simp
  have ne: "c\<lparr>fcBridgeTransferFee := 5\<rparr> \<noteq> c"
  proof
    assume "c\<lparr>fcBridgeTransferFee := 5\<rparr> = c"
    then have "fcBridgeTransferFee c = 5" by (metis FeeConfigState.select_convs(2) FeeConfigState.surjective FeeConfigState.update_convs(2))
    with c(2) small show False by simp
  qed
  have "\<exists>ix. buildUpdateFeeConfigIx ?env ps = Inr ix"
    if "0 \<le> ufIntrachainTransferFee ps" "ufIntrachainTransferFee ps \<le> U64_MAX" "0 \<le> ufBridgeTransferFee ps" "ufBridgeTransferFee ps \<le> U64_MAX" for ps
    using that by (simp add: buildUpdateFeeConfigIx_def findFeeConfigPda_def key_of_def writeBigUInt64LE_def env model_env_def Let_def)
  then have "\<exists>ix. buildUpdateFeeConfigIx ?env
       \<lparr>ufIntentTransferProgramId = ONRE_INTENT_PROGRAM_ID, ufUpgradeAuthority = replicate 32 1, ufMint = FOGO_ONYC_MINT,
        ufFeeRecipient = fcFeeRecipient c, ufIntrachainTransferFee = fcIntrachainTransferFee c, ufBridgeTransferFee = 5\<rparr> = Inr ix"
    using c(3) small by (simp add: U64_MAX_def)
  moreover have "mintDecimals ?ctx FOGO_ONYC_MINT = Inr 0" by (simp add: mintDecimals_def model_fee_cli_def)
  moreover have "keyOr ?env (uoMint model_fee_opts) FOGO_ONYC_MINT = Inr FOGO_ONYC_MINT" "uoConfirm model_fee_opts"
    by (simp_all add: keyOr_def truthy_def model_fee_opts_def)
  ultimately show ?thesis using a(1) up pda c(1) req ne env(2) by (auto simp: update_fee_plan_def runPlan_def)
qed

theorem update_fee_exact_witness:
  "\<exists>ix new. ix \<in> set (snd (runPlan (\<lambda>_. Inr ''sig'') (update_fee_plan model_fee_cli model_fee_opts))) \<and>
     decodeFeeConfig (cxEnv model_fee_cli) (replicate 8 0 @ drop 1 (tiData ix)) = Inr new \<and>
     tokensToBaseUnits ''5'' 0 = Inr (fcBridgeTransferFee new)"
proof -
  from model_fee_sent obtain ix where ix: "ix \<in> set (snd (runPlan (\<lambda>_. Inr ''sig'') (update_fee_plan model_fee_cli model_fee_opts)))"
    by (metis list.set_intros(1))
  have "pubkey_ctor_ok (cxEnv model_fee_cli)" "base58_keys (cxEnv model_fee_cli)"
    using model_env_ctor by (simp_all add: model_fee_cli_def pubkey_ctor_ok_def base58_keys_def)
  from update_fee_exact [OF ix this, of "replicate 8 0"] have "\<exists>dec new. mintDecimals model_fee_cli FOGO_ONYC_MINT = Inr dec \<and>
      decodeFeeConfig (cxEnv model_fee_cli) (replicate 8 0 @ drop 1 (tiData ix)) = Inr new \<and> tokensToBaseUnits ''5'' dec = Inr (fcBridgeTransferFee new)"
    by (auto simp: model_fee_opts_def keyOr_def truthy_def)
  then show ?thesis using ix by (auto simp: mintDecimals_def model_fee_cli_def)
qed

end
