(* ===== verification/Send_Lut.thy ===== *)
theory Send_Lut
  imports Relayer_Base
begin

text \<open>
  The script that deploys the address lookup table of the send leg
  (\<open>packages/cranker/scripts/deploy-relayer-send-lut.mjs\<close>), and that the table holds what the leg needs. The script derives
  its addresses by hand instead of importing the SDK, so the theorem is one of agreement between the two.

  The shell, the key file, RPC and the instruction builder of web3.js are fields of \<open>lut_world\<close>.
\<close>

section \<open>The script\<close>

definition EXPECTED_SIGNER :: string where
  "EXPECTED_SIGNER = ''tiaModT7KBWK1hNLFu94FogDGMs1haBZTupHujGzKLA''"

definition WORMHOLE_CORE :: pubkey where
  "WORMHOLE_CORE = pk58 ''worm2ZoG2kUd4vFXhvjh93UUH596ayRfgQ2MgjNMTth''"

definition EXTEND_CHUNK :: nat where
  "EXTEND_CHUNK = 20"

definition chainIdBe :: "nat \<Rightarrow> bytes" where
  "chainIdBe x = nat_be 2 x"

definition pda :: "web3_env \<Rightarrow> bytes list \<Rightarrow> pubkey \<Rightarrow> pubkey result" where
  "pda env seeds programId = key_of (fpa env seeds programId)"

definition deriveManagerStable :: "web3_env \<Rightarrow> pubkey \<Rightarrow> pubkey \<Rightarrow> pubkey list result" where
  "deriveManagerStable env manager outboundMint =
     rbind (pda env [utf8 ''token_authority''] manager) (\<lambda>tokenAuthority.
     rbind (pda env [utf8 ''emitter''] manager) (\<lambda>emitter.
     rbind (pda env [utf8 ''config''] manager) (\<lambda>config.
     rbind (pda env [utf8 ''outbox_rate_limit''] manager) (\<lambda>outboxRateLimit.
     rbind (pda env [utf8 ''inbox_rate_limit'', chainIdBe 51] manager) (\<lambda>inboxRateLimit.
     rbind (pda env [utf8 ''peer'', chainIdBe 51] manager) (\<lambda>peer.
     rbind (ata env outboundMint tokenAuthority True (TOKEN_PROGRAM_ID env)) (\<lambda>custody.
     rbind (pda env [utf8 ''registered_transceiver'', manager] manager) (\<lambda>transceiver.
     rbind (pda env [utf8 ''Sequence'', emitter] WORMHOLE_CORE) (\<lambda>sequence.
       Inr [manager, config, outboxRateLimit, inboxRateLimit, peer, tokenAuthority, custody, transceiver, emitter, sequence])))))))))"

fun dedupeFrom :: "(pubkey \<Rightarrow> string) \<Rightarrow> string list \<Rightarrow> pubkey list \<Rightarrow> pubkey list" where
  "dedupeFrom b58 seen [] = []"
| "dedupeFrom b58 seen (k # ks) =
     (if b58 k \<in> set seen then dedupeFrom b58 seen ks else k # dedupeFrom b58 (b58 k # seen) ks)"

definition dedupe :: "web3_env \<Rightarrow> pubkey list \<Rightarrow> pubkey list" where
  "dedupe env keys = dedupeFrom (toBase58 env) [] keys"

definition globals :: "web3_env \<Rightarrow> pubkey \<Rightarrow> pubkey \<Rightarrow> pubkey \<Rightarrow> pubkey \<Rightarrow> pubkey list result" where
  "globals env configPda authorityPda baseMint assetMint =
     rbind (ata env baseMint authorityPda True (TOKEN_PROGRAM_ID env)) (\<lambda>baseAta.
     rbind (ata env assetMint authorityPda True (TOKEN_PROGRAM_ID env)) (\<lambda>assetAta.
     rbind (pda env [utf8 ''Bridge''] WORMHOLE_CORE) (\<lambda>bridge.
     rbind (pda env [utf8 ''fee_collector''] WORMHOLE_CORE) (\<lambda>feeCollector.
       Inr [configPda, authorityPda, baseMint, assetMint, baseAta, assetAta, TOKEN_PROGRAM_ID env, SYSTEM_PROGRAM_ID env,
            SYSVAR_CLOCK_PUBKEY env, SYSVAR_RENT_PUBKEY env, WORMHOLE_CORE, bridge, feeCollector]))))"

text \<open>The addresses the table is filled with.\<close>

definition lutAddresses :: "web3_env \<Rightarrow> pubkey \<Rightarrow> pubkey \<Rightarrow> pubkey \<Rightarrow> pubkey \<Rightarrow> pubkey list result" where
  "lutAddresses env configPda authorityPda baseMint assetMint =
     rbind (globals env configPda authorityPda baseMint assetMint) (\<lambda>globs.
     rbind (deriveManagerStable env NTT_ONYC_PROGRAM_ID assetMint) (\<lambda>depositSet.
     rbind (deriveManagerStable env NTT_USDC_PROGRAM_ID baseMint) (\<lambda>withdrawSet.
       Inr (dedupe env (globs @ depositSet @ withdrawSet)))))"

function extendChunks :: "pubkey list \<Rightarrow> pubkey list list" where
  "extendChunks xs = (if xs = [] then [] else take EXTEND_CHUNK xs # extendChunks (drop EXTEND_CHUNK xs))"
  by auto
termination by (relation "measure length") (auto simp: EXTEND_CHUNK_def)

declare extendChunks.simps [simp del]

datatype lut_ix = CreateLut pubkey nat | ExtendLut pubkey "pubkey list"

record lut_world =
  lwEnv :: web3_env
  lwAuthority :: "thrown + pubkey"
  lwGetAccountInfo :: "pubkey \<Rightarrow> thrown + bytes option"
  lwDryRun :: bool
  lwGetSlot :: "thrown + nat"
  lwLookupTable :: "pubkey \<Rightarrow> nat \<Rightarrow> pubkey"
  lwSend :: "lut_ix \<Rightarrow> thrown + string"
  lwOnChain :: "nat \<Rightarrow> thrown + nat option"

text \<open>The instructions are sent one by one; the first failure ends the script.\<close>

fun sendEach :: "lut_world \<Rightarrow> lut_ix list \<Rightarrow> (thrown + unit) \<times> lut_ix list" where
  "sendEach w [] = (Inr (), [])"
| "sendEach w (ix # ixs) =
     (case lwSend w ix of
        Inl e \<Rightarrow> (Inl e, [ix])
      | Inr _ \<Rightarrow> (case sendEach w ixs of (r, sent) \<Rightarrow> (r, ix # sent)))"

text \<open>The loop that reads the table back: up to twelve times, until it has as many entries as were sent.\<close>

fun verifyLoop :: "lut_world \<Rightarrow> nat \<Rightarrow> nat \<Rightarrow> nat \<Rightarrow> thrown + bool" where
  "verifyLoop w n attempt 0 = Inr False"
| "verifyLoop w n attempt (Suc left) =
     rbind (lwOnChain w attempt) (\<lambda>entries. if entries = Some n then Inr True else verifyLoop w n (Suc attempt) left)"

definition lutPlan :: "lut_world \<Rightarrow> thrown + (pubkey \<times> pubkey list)" where
  "lutPlan w =
     (let env = lwEnv w in
     rbind (lwAuthority w) (\<lambda>authority.
     rbind (if toBase58 env authority \<noteq> EXPECTED_SIGNER then Inl (of_js_error (Error ''signer mismatch'')) else Inr ()) (\<lambda>_.
     rbind (lift (pda env [utf8 ''relayer_config''] RELAYER_PROGRAM_ID)) (\<lambda>configPda.
     rbind (lift (pda env [utf8 ''relayer''] RELAYER_PROGRAM_ID)) (\<lambda>authorityPda.
     rbind (lwGetAccountInfo w configPda) (\<lambda>cfgInfo.
       case cfgInfo of
         None \<Rightarrow> Inl (of_js_error (Error ''PairConfig not found''))
       | Some data \<Rightarrow>
           rbind (lift (newPublicKey env (bslice data 8 40))) (\<lambda>baseMint.
           rbind (lift (newPublicKey env (bslice data 40 72))) (\<lambda>assetMint.
           rbind (lift (lutAddresses env configPda authorityPda baseMint assetMint)) (\<lambda>addrs.
             Inr (authority, addrs))))))))))"

text \<open>The table and whether it was seen complete; \<open>None\<close> after a dry run.\<close>

definition deployLut :: "lut_world \<Rightarrow> (thrown + (pubkey \<times> bool) option) \<times> lut_ix list" where
  "deployLut w =
     (case lutPlan w of
        Inl e \<Rightarrow> (Inl e, [])
      | Inr (authority, addrs) \<Rightarrow>
          if lwDryRun w then (Inr None, [])
          else case lwGetSlot w of
            Inl e \<Rightarrow> (Inl e, [])
          | Inr slot \<Rightarrow>
              let lut = lwLookupTable w authority slot
              in case sendEach w (CreateLut authority slot # map (ExtendLut lut) (extendChunks addrs)) of
                   (Inl e, sent) \<Rightarrow> (Inl e, sent)
                 | (Inr _, sent) \<Rightarrow> (rbind (verifyLoop w (length addrs) 0 12) (\<lambda>ok. Inr (Some (lut, ok))), sent))"

section \<open>Filling the table\<close>

lemma extendChunks_Nil [simp]: "extendChunks [] = []"
  by (simp add: extendChunks.simps)

lemma extendChunks_concat: "concat (extendChunks xs) = xs"
proof (induction xs rule: extendChunks.induct)
  case (1 xs)
  then show ?case by (cases "xs = []") (simp_all add: extendChunks.simps [of xs])
qed

lemma extendChunks_small: "c \<in> set (extendChunks xs) \<Longrightarrow> c \<noteq> [] \<and> length c \<le> 20"
proof (induction xs rule: extendChunks.induct)
  case (1 xs)
  then show ?case by (cases "xs = []") (auto simp: extendChunks.simps [of xs] EXTEND_CHUNK_def)
qed

lemma sendEach_ok: "sendEach w ixs = (Inr u, sent) \<Longrightarrow> sent = ixs"
  by (induction ixs arbitrary: sent) (auto split: sum.splits prod.splits)

lemma dedupeFrom_set: "inj_on b58 (set ks \<union> S) \<Longrightarrow> set seen = b58 ` S \<Longrightarrow> set (dedupeFrom b58 seen ks) = set ks - S"
proof (induction ks arbitrary: seen S)
  case (Cons k ks)
  show ?case
  proof (cases "b58 k \<in> set seen")
    case True
    with Cons.prems have "k \<in> S" by (auto simp: inj_on_def)
    with True Cons show ?thesis by (auto simp: insert_absorb)
  next
    case False
    with Cons.prems have "k \<notin> S" by auto
    moreover have "set (dedupeFrom b58 (b58 k # seen) ks) = set ks - insert k S"
      using Cons.prems by (intro Cons.IH) auto
    ultimately show ?thesis using False by auto
  qed
qed simp

lemma dedupe_set: "inj (toBase58 env) \<Longrightarrow> set (dedupe env ks) = set ks"
  using dedupeFrom_set [of "toBase58 env" ks "{}" "[]"] by (simp add: dedupe_def inj_on_subset)

text \<open>When the script ends well the extensions hold every address once, at most twenty at a time.\<close>

lemma deployLut_fills:
  assumes "deployLut w = (Inr (Some (lut, ok)), sent)" "lutPlan w = Inr (authority, addrs)"
  shows "\<exists>slot chunks. sent = CreateLut authority slot # map (ExtendLut lut) chunks \<and> concat chunks = addrs \<and>
    (\<forall>c \<in> set chunks. c \<noteq> [] \<and> length c \<le> 20)"
proof -
  from assms obtain slot where "sent = CreateLut authority slot # map (ExtendLut lut) (extendChunks addrs)"
    by (auto simp: deployLut_def Let_def result_simps split: if_splits sum.splits prod.splits dest!: sendEach_ok)
  then show ?thesis using extendChunks_concat extendChunks_small by blast
qed

section \<open>Agreement with the SDK\<close>

definition callKeys :: "method_call \<Rightarrow> pubkey list" where
  "callKeys mc = List.map_filter snd (mcAccounts mc) @ map amPubkey (mcRemaining mc)"

text \<open>The keys the script leaves inline on purpose: payer, inbox item, flow and rent destination by name; the outbox item, the
  session authority, the Wormhole message and the signer of the outbox item by position.\<close>

definition perFlowKeys :: "method_call \<Rightarrow> pubkey list" where
  "perFlowKeys mc =
     List.map_filter (\<lambda>n. case map_of (mcAccounts mc) n of Some k \<Rightarrow> k | None \<Rightarrow> None)
       [''payer'', ''nttInboxItem'', ''flow'', ''rentDestination''] @
     map (\<lambda>i. amPubkey (mcRemaining mc ! i)) [5, 11, 18, 28]"

lemmas ntt_addresses = findNttConfigPda_def findNttPeerPda_def findOutboxRateLimitPda_def findInboxRateLimitPda_def
  findTokenAuthorityPda_def findNttCustodyAta_def findRegisteredTransceiverPda_def findNttEmitterPda_def
  NTT_CONFIG_SEED_def NTT_MANAGER_PEER_SEED_def REGISTERED_TRANSCEIVER_SEED_def INBOX_RATE_LIMIT_SEED_def
  OUTBOX_RATE_LIMIT_SEED_def TOKEN_AUTHORITY_SEED_def EMITTER_SEED_def chainIdBeBuf_def chainIdBe_def pda_def

lemma deriveManagerStable_InrE:
  assumes "deriveManagerStable env manager mint = Inr st"
  obtains ta em cf ob ib pe cu tr sq where "st = [manager, cf, ob, ib, pe, ta, cu, tr, em, sq]"
    "pda env [utf8 ''token_authority''] manager = Inr ta" "pda env [utf8 ''emitter''] manager = Inr em"
    "pda env [utf8 ''config''] manager = Inr cf" "pda env [utf8 ''outbox_rate_limit''] manager = Inr ob"
    "pda env [utf8 ''inbox_rate_limit'', chainIdBe 51] manager = Inr ib" "pda env [utf8 ''peer'', chainIdBe 51] manager = Inr pe"
    "ata env mint ta True (TOKEN_PROGRAM_ID env) = Inr cu" "pda env [utf8 ''registered_transceiver'', manager] manager = Inr tr"
    "pda env [utf8 ''Sequence'', em] WORMHOLE_CORE = Inr sq"
  using assms unfolding deriveManagerStable_def by (elim rbind_InrE) (auto intro: that)

lemma transfer_lock_keys:
  assumes "buildNttTransferLockAccountList env ps = Inr l" "deriveManagerStable env (tlNttProgramId ps) (tlMint ps) = Inr st"
    and "tlRecipientChain ps = 51"
  shows "\<exists>s. map amPubkey l =
    [tlFromOwner ps, st ! 1, tlMint ps, tlFromTokenAccount ps, TOKEN_PROGRAM_ID env, tlOutboxItem ps, st ! 2, st ! 6,
     SYSTEM_PROGRAM_ID env, st ! 3, st ! 4, s, st ! 5, st ! 0] \<and> length st = 10"
proof -
  from assms(2) obtain ta em cf ob ib pe cu tr sq where
    st: "st = [tlNttProgramId ps, cf, ob, ib, pe, ta, cu, tr, em, sq]"
    and eqs: "pda env [utf8 ''token_authority''] (tlNttProgramId ps) = Inr ta" "pda env [utf8 ''config''] (tlNttProgramId ps) = Inr cf"
      "pda env [utf8 ''outbox_rate_limit''] (tlNttProgramId ps) = Inr ob"
      "pda env [utf8 ''inbox_rate_limit'', chainIdBe 51] (tlNttProgramId ps) = Inr ib"
      "pda env [utf8 ''peer'', chainIdBe 51] (tlNttProgramId ps) = Inr pe"
      "ata env (tlMint ps) ta True (TOKEN_PROGRAM_ID env) = Inr cu"
    by (elim deriveManagerStable_InrE)
  have key: "key_of (findNttConfigPda env (tlNttProgramId ps)) = Inr cf" "key_of (findNttPeerPda env 51 (tlNttProgramId ps)) = Inr pe"
    "key_of (findOutboxRateLimitPda env (tlNttProgramId ps)) = Inr ob" "key_of (findInboxRateLimitPda env 51 (tlNttProgramId ps)) = Inr ib"
    "key_of (findTokenAuthorityPda env (tlNttProgramId ps)) = Inr ta" "findNttCustodyAta env (tlMint ps) (tlNttProgramId ps) = Inr cu"
    using eqs by (simp_all add: ntt_addresses)
  from assms(1,3) show ?thesis unfolding buildNttTransferLockAccountList_def Let_def
    by (auto simp: key st readonly_def writable_def assertAccountCount_def NTT_TRANSFER_LOCK_ACCOUNT_COUNT_def result_simps)
qed

lemma release_keys:
  assumes "buildNttReleaseWormholeOutboundAccountList env ps = Inr l" "deriveManagerStable env (rwNttProgramId ps) mint = Inr st"
    and "rwTransceiverProgramId ps = None" "rwEmitter ps = None \<or> rwEmitter ps = Some (st ! 8)"
  shows "\<exists>m. map amPubkey l =
    [rwPayer ps, st ! 1, rwOutboxItem ps, st ! 7, m, st ! 8, rwWormholeBridge ps, rwWormholeFeeCollector ps, rwWormholeSequence ps,
     rwWormholeProgram ps, SYSTEM_PROGRAM_ID env, SYSVAR_CLOCK_PUBKEY env, SYSVAR_RENT_PUBKEY env, st ! 0, rwOutboxItemSigner ps] \<and> length st = 10"
proof -
  from assms(2) obtain ta em cf ob ib pe cu tr sq where
    st: "st = [rwNttProgramId ps, cf, ob, ib, pe, ta, cu, tr, em, sq]"
    and eqs: "pda env [utf8 ''config''] (rwNttProgramId ps) = Inr cf" "pda env [utf8 ''emitter''] (rwNttProgramId ps) = Inr em"
      "pda env [utf8 ''registered_transceiver'', rwNttProgramId ps] (rwNttProgramId ps) = Inr tr"
    by (elim deriveManagerStable_InrE)
  have key: "key_of (findNttConfigPda env (rwNttProgramId ps)) = Inr cf" "key_of (findNttEmitterPda env (rwNttProgramId ps)) = Inr em"
    "key_of (findRegisteredTransceiverPda env (rwNttProgramId ps) (rwNttProgramId ps)) = Inr tr"
    using eqs by (simp_all add: ntt_addresses)
  from assms(1,3,4) show ?thesis unfolding buildNttReleaseWormholeOutboundAccountList_def Let_def
    by (auto simp: key st readonly_def writable_def signerWritable_def assertAccountCount_def
        NTT_RELEASE_WORMHOLE_OUTBOUND_ACCOUNT_COUNT_def result_simps split: option.splits)
qed

text \<open>The manager and the mint of the outbound transfer, for the managers the script knows.\<close>

definition outboundManager :: "OutboundParams \<Rightarrow> pubkey" where
  "outboundManager ps = (if obDirection ps = Deposit then NTT_ONYC_PROGRAM_ID else NTT_USDC_PROGRAM_ID)"

definition outboundMint :: "OutboundParams \<Rightarrow> pubkey" where
  "outboundMint ps = (if obDirection ps = Deposit then obAssetMint ps else obBaseMint ps)"

lemma send_InrE:
  assumes "send env c ps = Inr mc" "ifNone (obNttBaseProgram ps) NTT_USDC_PROGRAM_ID = NTT_USDC_PROGRAM_ID"
    and "ifNone (obNttAssetProgram ps) NTT_ONYC_PROGRAM_ID = NTT_ONYC_PROGRAM_ID"
  obtains builder lk rl where "sendBase env c ps = Inr builder" "mc = builder\<lparr>mcRemaining := lk @ rl\<rparr>"
    "transferLockAccounts env c (outboundMint ps) (outboundManager ps) (obOutboxItem ps) (obFlowRecipient ps) (obFlowAmount ps) = Inr lk"
    "releaseList env ps (outboundManager ps) = Inr rl"
proof -
  from assms(1) show thesis unfolding send_def Let_def
    by (elim rbind_InrE) (auto simp: assms(2,3) outboundManager_def outboundMint_def split: if_splits intro: that)
qed

text \<open>The Wormhole accounts of a release as the NTT SDK documents them: those of the core bridge, the emitter that of the
  manager.\<close>

definition release_standard :: "web3_env \<Rightarrow> pubkey \<Rightarrow> ReleaseAccounts \<Rightarrow> bool" where
  "release_standard env manager r \<longleftrightarrow>
     raWormholeProgram r = WORMHOLE_CORE \<and> pda env [utf8 ''Bridge''] WORMHOLE_CORE = Inr (raWormholeBridge r) \<and>
     pda env [utf8 ''fee_collector''] WORMHOLE_CORE = Inr (raWormholeFeeCollector r) \<and>
     (\<exists>em. pda env [utf8 ''emitter''] manager = Inr em \<and> pda env [utf8 ''Sequence'', em] WORMHOLE_CORE = Inr (raWormholeSequence r) \<and>
       (raEmitter r = None \<or> raEmitter r = Some em))"

lemma lutAddresses_InrE:
  assumes "lutAddresses env cfg auth base asset = Inr addrs" "inj (toBase58 env)"
  obtains gl st where "globals env cfg auth base asset = Inr gl" "set gl \<subseteq> set addrs"
    "deriveManagerStable env (outboundManager ps) (if obDirection ps = Deposit then asset else base) = Inr st" "set st \<subseteq> set addrs"
proof -
  from assms obtain gl d w where gl: "globals env cfg auth base asset = Inr gl"
    "deriveManagerStable env NTT_ONYC_PROGRAM_ID asset = Inr d" "deriveManagerStable env NTT_USDC_PROGRAM_ID base = Inr w"
    "set addrs = set (gl @ d @ w)"
    by (auto simp: lutAddresses_def result_simps dedupe_set)
  show thesis
    by (rule that [of gl "if obDirection ps = Deposit then d else w"]) (use gl in \<open>auto simp: outboundManager_def\<close>)
qed

lemma release_sequence:
  "release_standard env manager r \<Longrightarrow> deriveManagerStable env manager mint = Inr st \<Longrightarrow>
     raWormholeSequence r = st ! 9 \<and> (raEmitter r = None \<or> raEmitter r = Some (st ! 8)) \<and> length st = 10"
  by (auto simp: release_standard_def elim!: deriveManagerStable_InrE)

lemma send_keys:
  assumes "transferLockAccounts env c mint manager (obOutboxItem ps) (obFlowRecipient ps) (obFlowAmount ps) = Inr lk"
    and "releaseList env ps manager = Inr rl" "deriveManagerStable env manager mint = Inr st"
    and "release_standard env manager (obRelease ps)"
  obtains fromAta s m where "relayerAta env c mint = Inr fromAta" "length st = 10" "raWormholeSequence (obRelease ps) = st ! 9"
    "map amPubkey (lk @ rl) =
     [rcAuthorityPda c, st ! 1, mint, fromAta, TOKEN_PROGRAM_ID env, obOutboxItem ps, st ! 2, st ! 6, SYSTEM_PROGRAM_ID env,
      st ! 3, st ! 4, s, st ! 5, st ! 0, obPayer ps, st ! 1, obOutboxItem ps, st ! 7, m, st ! 8, raWormholeBridge (obRelease ps),
      raWormholeFeeCollector (obRelease ps), st ! 9, WORMHOLE_CORE, SYSTEM_PROGRAM_ID env, SYSVAR_CLOCK_PUBKEY env,
      SYSVAR_RENT_PUBKEY env, st ! 0, raOutboxItemSigner (obRelease ps)]"
proof -
  from assms(1) obtain fromAta where fa: "relayerAta env c mint = Inr fromAta"
    and l: "buildNttTransferLockAccountList env
         \<lparr>tlNttProgramId = manager, tlFromOwner = rcAuthorityPda c, tlFromOwnerIsSigner = False,
          tlFromTokenAccount = fromAta, tlMint = mint, tlOutboxItem = obOutboxItem ps,
          tlRecipientChain = FOGO_WORMHOLE_CHAIN_ID, tlRecipientAddress = obFlowRecipient ps,
          tlAmount = obFlowAmount ps, tlShouldQueue = None\<rparr> = Inr lk"
    by (auto simp: transferLockAccounts_def)
  note seq = release_sequence [OF assms(4,3)]
  have fogo: "FOGO_WORMHOLE_CHAIN_ID = 51" by (simp add: FOGO_WORMHOLE_CHAIN_ID_def)
  from transfer_lock_keys [OF l, of st, simplified] assms(3) fogo have "\<exists>s. map amPubkey lk = [rcAuthorityPda c, st ! 1, mint, fromAta, TOKEN_PROGRAM_ID env, obOutboxItem ps, st ! 2, st ! 6,
      SYSTEM_PROGRAM_ID env, st ! 3, st ! 4, s, st ! 5, st ! 0]" by (simp del: map_eq_Cons_conv)
  then obtain s where s: "map amPubkey lk = [rcAuthorityPda c, st ! 1, mint, fromAta, TOKEN_PROGRAM_ID env, obOutboxItem ps,
      st ! 2, st ! 6, SYSTEM_PROGRAM_ID env, st ! 3, st ! 4, s, st ! 5, st ! 0]" by (rule exE)
  from release_keys [OF assms(2) [unfolded releaseList_def], of mint st, simplified] assms(3,4) seq have "\<exists>m. map amPubkey rl = [obPayer ps, st ! 1, obOutboxItem ps, st ! 7, m, st ! 8, raWormholeBridge (obRelease ps),
      raWormholeFeeCollector (obRelease ps), st ! 9, WORMHOLE_CORE, SYSTEM_PROGRAM_ID env, SYSVAR_CLOCK_PUBKEY env,
      SYSVAR_RENT_PUBKEY env, st ! 0, raOutboxItemSigner (obRelease ps)]"
    by (simp add: release_standard_def del: map_eq_Cons_conv)
  then obtain m where m: "map amPubkey rl = [obPayer ps, st ! 1, obOutboxItem ps, st ! 7, m, st ! 8, raWormholeBridge (obRelease ps),
      raWormholeFeeCollector (obRelease ps), st ! 9, WORMHOLE_CORE, SYSTEM_PROGRAM_ID env, SYSVAR_CLOCK_PUBKEY env,
      SYSVAR_RENT_PUBKEY env, st ! 0, raOutboxItemSigner (obRelease ps)]" by (rule exE)
  show thesis by (rule that [OF fa]) (use seq s m in \<open>simp_all del: map_eq_Cons_conv\<close>)
qed

text \<open>Whatever address the table was given for the configuration, it holds all other accounts of a \<open>send\<close> that do not change
  with the flow.\<close>

lemma lutAddresses_cover:
  assumes "send env c ps = Inr mc" "ifNone (obNttBaseProgram ps) NTT_USDC_PROGRAM_ID = NTT_USDC_PROGRAM_ID"
    and "ifNone (obNttAssetProgram ps) NTT_ONYC_PROGRAM_ID = NTT_ONYC_PROGRAM_ID"
    and "release_standard env (outboundManager ps) (obRelease ps)"
    and "lutAddresses env configPda (rcAuthorityPda c) (obBaseMint ps) (obAssetMint ps) = Inr addrs" "inj (toBase58 env)"
  shows "set (callKeys mc) \<subseteq> set addrs \<union> set (perFlowKeys mc) \<union> ({rcConfigPda c} - {configPda})"
proof -
  obtain builder lk rl where b: "sendBase env c ps = Inr builder" and mc: "mc = builder\<lparr>mcRemaining := lk @ rl\<rparr>"
    and lk: "transferLockAccounts env c (outboundMint ps) (outboundManager ps) (obOutboxItem ps) (obFlowRecipient ps) (obFlowAmount ps) = Inr lk"
    and rl: "releaseList env ps (outboundManager ps) = Inr rl"
    by (rule send_InrE [OF assms(1-3)])
  obtain gl st where gl: "globals env configPda (rcAuthorityPda c) (obBaseMint ps) (obAssetMint ps) = Inr gl" "set gl \<subseteq> set addrs"
    and st: "deriveManagerStable env (outboundManager ps) (outboundMint ps) = Inr st" "set st \<subseteq> set addrs"
    using lutAddresses_InrE [OF assms(5,6), of ps] unfolding outboundMint_def by metis
  obtain fromAta s m where keys: "relayerAta env c (outboundMint ps) = Inr fromAta" "length st = 10"
    and all: "map amPubkey (lk @ rl) =
     [rcAuthorityPda c, st ! 1, outboundMint ps, fromAta, TOKEN_PROGRAM_ID env, obOutboxItem ps, st ! 2, st ! 6, SYSTEM_PROGRAM_ID env,
      st ! 3, st ! 4, s, st ! 5, st ! 0, obPayer ps, st ! 1, obOutboxItem ps, st ! 7, m, st ! 8, raWormholeBridge (obRelease ps),
      raWormholeFeeCollector (obRelease ps), st ! 9, WORMHOLE_CORE, SYSTEM_PROGRAM_ID env, SYSVAR_CLOCK_PUBKEY env,
      SYSVAR_RENT_PUBKEY env, st ! 0, raOutboxItemSigner (obRelease ps)]"
    by (rule send_keys [OF lk rl st(1) assms(4)])
  have sti: "st ! i \<in> set addrs" if "i < 10" for i using that st(2) keys(2) by (auto intro: nth_mem)
  have gls: "{configPda, rcAuthorityPda c, obBaseMint ps, obAssetMint ps, TOKEN_PROGRAM_ID env, SYSTEM_PROGRAM_ID env, SYSVAR_CLOCK_PUBKEY env,
      SYSVAR_RENT_PUBKEY env, WORMHOLE_CORE, raWormholeBridge (obRelease ps), raWormholeFeeCollector (obRelease ps)} \<subseteq> set addrs"
    "\<And>a. relayerAta env c (obBaseMint ps) = Inr a \<Longrightarrow> a \<in> set addrs" "\<And>a. relayerAta env c (obAssetMint ps) = Inr a \<Longrightarrow> a \<in> set addrs"
    using gl assms(4) by (auto simp: globals_def relayerAta_def release_standard_def result_simps)
  have per: "{obOutboxItem ps, s, m, raOutboxItemSigner (obRelease ps)} \<subseteq> set (perFlowKeys mc)"
    using arg_cong [OF all, of "\<lambda>l. l ! 5"] arg_cong [OF all, of "\<lambda>l. l ! 11"] arg_cong [OF all, of "\<lambda>l. l ! 18"]
      arg_cong [OF all, of "\<lambda>l. l ! 28"] arg_cong [OF all, of length] by (simp add: perFlowKeys_def mc nth_map del: map_append)
  have named: "set (List.map_filter snd (mcAccounts mc)) \<subseteq> set addrs \<union> set (perFlowKeys mc) \<union> ({rcConfigPda c} - {configPda})"
    and payer: "obPayer ps \<in> set (perFlowKeys mc)"
    using b gls by (auto simp: mc sendBase_def outboundBase_def perFlowKeys_def map_filter_simps result_simps)
  have "set (map amPubkey (lk @ rl)) \<subseteq> set addrs \<union> set (perFlowKeys mc)"
    unfolding all using sti gls keys(1) per payer by (auto simp: outboundMint_def split: if_splits)
  with named show ?thesis by (auto simp: callKeys_def mc)
qed

text \<open>A deposit in the model environment.\<close>

definition model_pda :: "bytes list \<Rightarrow> pubkey \<Rightarrow> pubkey" where
  "model_pda seeds p = replicate (length (concat seeds)) 0 @ [1] @ concat seeds @ p"

lemma pda_model: "pda model_env seeds p = Inr (model_pda seeds p)" "fpa model_env seeds p = Inr (model_pda seeds p, 255)"
  by (simp_all add: pda_def key_of_def model_env_def model_pda_def)

definition model_lut_send :: OutboundParams where
  "model_lut_send = (model_outbound Deposit)\<lparr>obNttBaseProgram := None, obNttAssetProgram := None,
      obRelease := \<lparr>raWormholeProgram = WORMHOLE_CORE, raWormholeBridge = model_pda [utf8 ''Bridge''] WORMHOLE_CORE,
        raWormholeFeeCollector = model_pda [utf8 ''fee_collector''] WORMHOLE_CORE,
        raWormholeSequence = model_pda [utf8 ''Sequence'', model_pda [utf8 ''emitter''] NTT_ONYC_PROGRAM_ID] WORMHOLE_CORE,
        raOutboxItemSigner = replicate 32 18, raWormholeMessage = None, raEmitter = None\<rparr>\<rparr>"

lemma model_base58_inj: "inj (toBase58 model_env)"
proof (rule injI)
  fix x y assume "toBase58 model_env x = toBase58 model_env y"
  moreover have "inj (\<lambda>b :: byte. (char_of (unat b) :: char))"
    by (rule injI) (metis of_char_of mod_less unat_byte_less word_unat_eq_iff)
  ultimately show "x = y" by (simp add: model_env_def inj_map_eq_map)
qed

text \<open>The address the script takes for the pair configuration is that of no pair: since pairs were added, the address of a
  configuration depends on the two mints, and the script still derives the one without them. It either stops with
  \<open>PairConfig not found\<close> or fills the table with the account of the time before pairs.\<close>

lemma lut_config_of_no_pair:
  assumes "pda_collision_free env" "length base = 32" "length asset = 32"
    and "pda env [utf8 ''relayer_config''] RELAYER_PROGRAM_ID = Inr scriptConfig"
    and "findConfigPda env base asset programId = Inr (pairConfig, b)"
  shows "scriptConfig \<noteq> pairConfig"
proof
  assume "scriptConfig = pairConfig"
  with assms(4,5) obtain b' where "fpa env [utf8 ''relayer_config''] RELAYER_PROGRAM_ID = Inr (pairConfig, b')"
    by (auto simp: pda_def key_of_def result_simps)
  with pdaD [OF assms(1) this assms(5) [unfolded findConfigPda_def]] have "utf8 ''relayer_config'' = CONFIG_SEED @ base @ asset" by simp
  from arg_cong [OF this, of length] assms(2,3) show False by (simp add: CONFIG_SEED_def)
qed

lemma lutPlan_InrE:
  assumes "lutPlan w = Inr (authority, addrs)"
  obtains configPda data baseMint assetMint authorityPda where
    "pda (lwEnv w) [utf8 ''relayer_config''] RELAYER_PROGRAM_ID = Inr configPda"
    "pda (lwEnv w) [utf8 ''relayer''] RELAYER_PROGRAM_ID = Inr authorityPda"
    "lwGetAccountInfo w configPda = Inr (Some data)" "newPublicKey (lwEnv w) (bslice data 8 40) = Inr baseMint"
    "newPublicKey (lwEnv w) (bslice data 40 72) = Inr assetMint"
    "lutAddresses (lwEnv w) configPda authorityPda baseMint assetMint = Inr addrs"
proof -
  from assms show thesis unfolding lutPlan_def Let_def
    by (elim rbind_InrE) (auto simp: result_simps split: if_splits option.splits intro: that)
qed


text \<open>A run in the model environment, where the configuration account names the mints of the client.\<close>

definition model_lut_world :: lut_world where
  "model_lut_world =
     \<lparr>lwEnv = model_env, lwAuthority = Inr (utf8 EXPECTED_SIGNER),
      lwGetAccountInfo = (\<lambda>_. Inr (Some (replicate 8 0 @ replicate 32 2 @ replicate 32 3))), lwDryRun = False, lwGetSlot = Inr 5,
      lwLookupTable = (\<lambda>_ _. replicate 32 30), lwSend = (\<lambda>_. Inr ''sig''), lwOnChain = (\<lambda>_. Inr None)\<rparr>"


end
