(* ===== verification/Pricing.thy ===== *)
theory Pricing
  imports Constants
begin

text \<open>
  Fee and price arithmetic of the SDK (\<open>packages/sdk/src/utils/pricing.ts\<close>): the fee split that
  mirrors the relayer's \<open>apply_fee_bps\<close>, the linear price accrual, and the deposit and withdraw
  quotes. Amounts are BigInts, so every intermediate product is exact and only the final
  division rounds.
\<close>

record FeeBreakdown =
  fbNet :: int
  fbFee :: int

definition applyFeeBps :: "int \<Rightarrow> js_number \<Rightarrow> FeeBreakdown result" where
  "applyFeeBps gross bps =
     (if \<not> isInteger bps \<or> the_int bps < 0 \<or> the_int bps > MAX_FEE_BPS
      then Inl (RangeError ''bps must be an integer in [0, MAX_FEE_BPS]'')
      else if gross \<le> 0 then Inl (RangeError ''gross must be > 0'')
      else rbind (bigdiv (gross * the_int bps) FEE_DENOMINATOR_BPS) (\<lambda>fee.
        let net = gross - fee in
        if net \<le> 0 then Inl (RangeError ''net would be 0 (gross too small for this bps)'')
        else Inr \<lparr>fbNet = net, fbFee = fee\<rparr>))"

record OnycPriceSnapshot =
  basePrice :: int
  priceScale :: int
  aprBps :: int
  startTimestamp :: int

definition humanPriceToBaseRatio :: "int \<Rightarrow> int result" where
  "humanPriceToBaseRatio humanPriceScaled =
     (let usdcUnits = 10 ^ USDC_DECIMALS; onycUnits = 10 ^ ONYC_DECIMALS in
      bigdiv (humanPriceScaled * usdcUnits) onycUnits)"

definition computeOnycPrice :: "OnycPriceSnapshot \<Rightarrow> int \<Rightarrow> int result" where
  "computeOnycPrice snapshot nowSeconds =
     (let elapsed = (if nowSeconds > startTimestamp snapshot
                     then nowSeconds - startTimestamp snapshot else 0) in
      if elapsed = 0 \<or> aprBps snapshot = 0 then Inr (basePrice snapshot)
      else rbind (bigdiv (basePrice snapshot * aprBps snapshot * elapsed)
                         (FEE_DENOMINATOR_BPS * SECONDS_PER_YEAR))
             (\<lambda>accrued. Inr (basePrice snapshot + accrued)))"

record DepositQuote =
  dqInputUsdc :: int
  dqGrossOnyc :: int
  dqFeeOnyc :: int
  dqOutputFogoOnyc :: int

definition quoteDeposit :: "int \<Rightarrow> js_number \<Rightarrow> int \<Rightarrow> int \<Rightarrow> DepositQuote result" where
  "quoteDeposit inputUsdc depositFeeBps onycPrice priceScl =
     (if onycPrice \<le> 0 then Inl (RangeError ''onycPrice must be > 0'')
      else rbind (bigdiv (inputUsdc * priceScl) onycPrice) (\<lambda>grossOnyc.
           rbind (applyFeeBps grossOnyc depositFeeBps) (\<lambda>fb.
             Inr \<lparr>dqInputUsdc = inputUsdc, dqGrossOnyc = grossOnyc,
                  dqFeeOnyc = fbFee fb, dqOutputFogoOnyc = fbNet fb\<rparr>)))"

record WithdrawQuote =
  wqInputFogoOnyc :: int
  wqFeeOnyc :: int
  wqNetOnyc :: int
  wqOutputUsdc :: int

definition quoteWithdraw :: "int \<Rightarrow> js_number \<Rightarrow> int \<Rightarrow> int \<Rightarrow> WithdrawQuote result" where
  "quoteWithdraw inputFogoOnyc withdrawFeeBps onycPrice priceScl =
     (if onycPrice \<le> 0 then Inl (RangeError ''onycPrice must be > 0'')
      else rbind (applyFeeBps inputFogoOnyc withdrawFeeBps) (\<lambda>fb.
           rbind (bigdiv (fbNet fb * onycPrice) priceScl) (\<lambda>outputUsdc.
             Inr \<lparr>wqInputFogoOnyc = inputFogoOnyc, wqFeeOnyc = fbFee fb,
                  wqNetOnyc = fbNet fb, wqOutputUsdc = outputUsdc\<rparr>)))"

lemmas pricing_defs = FEE_DENOMINATOR_BPS_def MAX_FEE_BPS_def SECONDS_PER_YEAR_def

section \<open>The fee split\<close>

lemma fee_le_tenth:
  assumes "0 < gross" "0 \<le> b" "b \<le> MAX_FEE_BPS"
  shows "0 \<le> (gross * b) div FEE_DENOMINATOR_BPS"
    and "10 * ((gross * b) div FEE_DENOMINATOR_BPS) \<le> gross"
proof -
  show "0 \<le> (gross * b) div FEE_DENOMINATOR_BPS"
    using assms by (simp add: pricing_defs pos_imp_zdiv_nonneg_iff)
  have "gross * b \<le> gross * 1000"
    using assms by (simp add: pricing_defs)
  then have "(gross * b) div 10000 \<le> (gross * 1000) div 10000"
    by (rule zdiv_mono1) simp
  then show "10 * ((gross * b) div FEE_DENOMINATOR_BPS) \<le> gross"
    by (simp add: pricing_defs)
qed

text \<open>
  With a fee of at most ten percent the third check is dead: the split succeeds exactly on
  admissible input.
\<close>

lemma applyFeeBps_eq:
  assumes "0 < gross" "0 \<le> b" "b \<le> MAX_FEE_BPS"
  shows "applyFeeBps gross (JInt b) =
           Inr \<lparr>fbNet = gross - (gross * b) div FEE_DENOMINATOR_BPS,
                fbFee = (gross * b) div FEE_DENOMINATOR_BPS\<rparr>"
proof -
  from fee_le_tenth [OF assms] assms(1)
  have net: "\<not> gross - (gross * b) div FEE_DENOMINATOR_BPS \<le> 0" by linarith
  have "bigdiv (gross * b) FEE_DENOMINATOR_BPS = Inr ((gross * b) div FEE_DENOMINATOR_BPS)"
    using assms by (simp add: pricing_defs)
  with assms net show ?thesis by (simp add: applyFeeBps_def Let_def)
qed

lemma applyFeeBps_InrD:
  assumes "applyFeeBps gross bps = Inr fb"
  obtains b where "bps = JInt b" "0 \<le> b" "b \<le> MAX_FEE_BPS" "0 < gross"
    and "fbFee fb = (gross * b) div FEE_DENOMINATOR_BPS"
    and "fbNet fb = gross - fbFee fb"
proof -
  from assms obtain b where b: "bps = JInt b" "0 \<le> b" "b \<le> MAX_FEE_BPS" "0 < gross"
    by (cases bps) (auto simp: applyFeeBps_def split: if_splits)
  with assms applyFeeBps_eq [of gross b] that show thesis by auto
qed

lemma applyFeeBps_net:
  assumes "applyFeeBps gross bps = Inr fb"
  shows "0 < fbNet fb" "fbNet fb \<le> gross"
proof -
  from assms obtain b where b: "0 < gross" "0 \<le> b" "b \<le> MAX_FEE_BPS"
    and fb: "fbFee fb = (gross * b) div FEE_DENOMINATOR_BPS" "fbNet fb = gross - fbFee fb"
    by (rule applyFeeBps_InrD)
  from fee_le_tenth [OF b] b fb show "0 < fbNet fb" "fbNet fb \<le> gross" by linarith+
qed

text \<open>The fee split succeeds exactly when the fee rate is an integer in \<open>[0, MAX_FEE_BPS]\<close> and
  the gross amount is positive. Then the two parts add up to the gross amount, the user keeps at
  least nine tenths of it, and the fee is the exact rate rounded down.\<close>

theorem applyFeeBps_spec:
  "case applyFeeBps gross bps of
     Inl _ \<Rightarrow> \<not> (0 < gross \<and> (\<exists>b. bps = JInt b \<and> 0 \<le> b \<and> b \<le> MAX_FEE_BPS))
   | Inr fb \<Rightarrow> 0 < gross \<and> (\<exists>b. bps = JInt b \<and> 0 \<le> b \<and> b \<le> MAX_FEE_BPS \<and>
       FEE_DENOMINATOR_BPS * fbFee fb \<le> gross * b \<and> gross * b < FEE_DENOMINATOR_BPS * (fbFee fb + 1)) \<and>
       fbNet fb + fbFee fb = gross \<and> 0 \<le> fbFee fb \<and> 0 < fbNet fb \<and> 9 * gross \<le> 10 * fbNet fb"
proof (cases "applyFeeBps gross bps")
  case (Inl e)
  then show ?thesis using applyFeeBps_eq [of gross] by auto
next
  case (Inr fb)
  then obtain b where b: "bps = JInt b" "0 \<le> b" "b \<le> MAX_FEE_BPS" "0 < gross"
    and fee: "fbFee fb = (gross * b) div FEE_DENOMINATOR_BPS" and net: "fbNet fb = gross - fbFee fb"
    by (rule applyFeeBps_InrD)
  have bounds: "0 \<le> fbFee fb" "10 * fbFee fb \<le> gross"
    using fee_le_tenth [OF b(4,2,3)] fee by simp_all
  have "FEE_DENOMINATOR_BPS * fbFee fb \<le> gross * b"
       "gross * b < FEE_DENOMINATOR_BPS * (fbFee fb + 1)"
    unfolding fee pricing_defs using pos_mod_bound [of 10000 "gross * b"] by (linarith, simp)
  with bounds net b Inr show ?thesis by auto
qed

section \<open>Prices\<close>

lemma computeOnycPrice_eq:
  assumes "0 \<le> basePrice s" "0 \<le> aprBps s"
  shows "computeOnycPrice s t =
           Inr (basePrice s + (basePrice s * aprBps s * max 0 (t - startTimestamp s))
                                div (FEE_DENOMINATOR_BPS * SECONDS_PER_YEAR))"
proof -
  have "0 \<le> basePrice s * aprBps s * (t - startTimestamp s)" if "startTimestamp s < t"
    using assms that by simp
  then show ?thesis
    by (auto simp: computeOnycPrice_def Let_def pricing_defs max_def)
qed

text \<open>For a non-negative price and yield the spot price is defined at every time, never falls as
  time passes, and starts at the base price.\<close>

theorem computeOnycPrice_mono:
  assumes "0 \<le> basePrice s" "0 \<le> aprBps s" "t \<le> t'"
  shows "\<exists>p p'. computeOnycPrice s t = Inr p \<and> computeOnycPrice s t' = Inr p' \<and>
           basePrice s \<le> p \<and> p \<le> p' \<and> (t \<le> startTimestamp s \<longrightarrow> p = basePrice s)"
proof -
  let ?D = "FEE_DENOMINATOR_BPS * SECONDS_PER_YEAR"
  let ?n = "\<lambda>t. basePrice s * aprBps s * max 0 (t - startTimestamp s)"
  have D: "0 < ?D" by (simp add: pricing_defs)
  have "?n t \<le> ?n t'" using assms by (intro mult_left_mono) auto
  then have "?n t div ?D \<le> ?n t' div ?D" using D by (rule zdiv_mono1)
  moreover have "0 \<le> ?n t div ?D" using assms D by (simp add: pos_imp_zdiv_nonneg_iff)
  ultimately show ?thesis using assms by (auto simp: computeOnycPrice_eq)
qed

theorem computeOnycPrice_mono_witness:
  "\<exists>p p'. computeOnycPrice \<lparr>basePrice = 1000000, priceScale = 1000000000, aprBps = 1000,
                             startTimestamp = 0\<rparr> 0 = Inr p \<and>
          computeOnycPrice \<lparr>basePrice = 1000000, priceScale = 1000000000, aprBps = 1000,
                             startTimestamp = 0\<rparr> 31536000 = Inr p' \<and> p = 1000000 \<and> p' = 1100000"
  using computeOnycPrice_mono [of "\<lparr>basePrice = 1000000, priceScale = 1000000000, aprBps = 1000,
                             startTimestamp = 0\<rparr>" 0 31536000]
  by (auto simp: computeOnycPrice_def pricing_defs)

section \<open>Quotes\<close>

lemma bigdiv_Inr_nonneg_bound:
  assumes "bigdiv a b = Inr q" "0 \<le> a" "0 < b"
  shows "0 \<le> q" "q * b \<le> a"
proof -
  have q: "q = a div b" using assms by simp
  show "0 \<le> q" using assms q by (simp add: pos_imp_zdiv_nonneg_iff)
  show "q * b \<le> a"
    unfolding q using minus_mod_eq_div_mult [of a b] pos_mod_sign [OF assms(3), of a] by linarith
qed

lemma quoteDeposit_InrD:
  assumes "quoteDeposit u bps p sc = Inr q" "0 \<le> u" "0 \<le> sc"
  shows "0 < p" "0 \<le> dqGrossOnyc q" "dqGrossOnyc q * p \<le> u * sc"
    "applyFeeBps (dqGrossOnyc q) bps = Inr \<lparr>fbNet = dqOutputFogoOnyc q, fbFee = dqFeeOnyc q\<rparr>"
proof -
  from assms(1) obtain g fb where p: "0 < p" and g: "bigdiv (u * sc) p = Inr g"
    and fb: "applyFeeBps g bps = Inr fb"
    and q: "q = \<lparr>dqInputUsdc = u, dqGrossOnyc = g, dqFeeOnyc = fbFee fb, dqOutputFogoOnyc = fbNet fb\<rparr>"
    by (auto simp: quoteDeposit_def result_simps split: if_splits)
  from bigdiv_Inr_nonneg_bound [OF g _ p] assms(2,3) p q fb
  show "0 < p" "0 \<le> dqGrossOnyc q" "dqGrossOnyc q * p \<le> u * sc"
    "applyFeeBps (dqGrossOnyc q) bps = Inr \<lparr>fbNet = dqOutputFogoOnyc q, fbFee = dqFeeOnyc q\<rparr>"
    by simp_all
qed

text \<open>C40. Quoting a deposit and then a withdrawal of everything it yields, at the same price, never
  returns more than was deposited, whatever the two fee rates.\<close>

theorem quote_round_trip_no_gain:
  assumes "quoteDeposit u depositBps p sc = Inr d"
    and "quoteWithdraw (dqOutputFogoOnyc d) withdrawBps p sc = Inr w"
    and "0 \<le> u" "0 < sc"
  shows "wqOutputUsdc w \<le> u"
proof -
  note d = quoteDeposit_InrD [OF assms(1,3) less_imp_le [OF assms(4)]]
  from d(4) have dn: "0 < dqOutputFogoOnyc d" "dqOutputFogoOnyc d \<le> dqGrossOnyc d"
    using applyFeeBps_net by fastforce+
  from assms(2) obtain fb where fb: "applyFeeBps (dqOutputFogoOnyc d) withdrawBps = Inr fb"
    and out: "bigdiv (fbNet fb * p) sc = Inr (wqOutputUsdc w)"
    by (auto simp: quoteWithdraw_def result_simps split: if_splits)
  from fb have wn: "0 < fbNet fb" "fbNet fb \<le> dqOutputFogoOnyc d"
    by (rule applyFeeBps_net)+
  from wn dn have "fbNet fb * p \<le> dqGrossOnyc d * p" using d(1) by simp
  with d(3) have le: "fbNet fb * p \<le> u * sc" by linarith
  from bigdiv_Inr_nonneg_bound(2) [OF out] wn d(1) assms(4)
  have "wqOutputUsdc w * sc \<le> fbNet fb * p" by simp
  with le have "wqOutputUsdc w * sc \<le> u * sc" by linarith
  with assms(4) show ?thesis by simp
qed

theorem quote_round_trip_no_gain_witness:
  "\<exists>d w. quoteDeposit 100000000 (JInt 50) 1100000 1000000000 = Inr d \<and>
         quoteWithdraw (dqOutputFogoOnyc d) (JInt 50) 1100000 1000000000 = Inr w \<and>
         wqOutputUsdc w \<le> 100000000"
proof -
  obtain d where d: "quoteDeposit 100000000 (JInt 50) 1100000 1000000000 = Inr d"
    and o: "dqOutputFogoOnyc d = 90454545455"
    by (simp add: quoteDeposit_def applyFeeBps_def pricing_defs)
  obtain w where w: "quoteWithdraw (dqOutputFogoOnyc d) (JInt 50) 1100000 1000000000 = Inr w"
    by (simp add: o quoteWithdraw_def applyFeeBps_def pricing_defs)
  from quote_round_trip_no_gain [OF d w] d w show ?thesis by auto
qed

end
