(* ===== verification/Spec2Isabelle.thy ===== *)
theory Spec2Isabelle
  imports Lifecycle Flow_Lease Idl Recovery Cli_Intent Send_Lut Pricing
begin

text \<open>
  A verification library of the TypeScript packages of this repository: the SDK (\<open>packages/sdk/src\<close>), the cranker
  (\<open>packages/cranker\<close>) and the command line interface (\<open>packages/cli/src\<close>) of a bridge between FOGO and Solana.

  \<^bold>\<open>The program.\<close> A user of FOGO signs an intent and bridges a token to Solana with Wormhole NTT; the relayer program on
  Solana swaps it (USDC to ONyc for a deposit, back for a withdrawal) and sends the result back. The cranker drives
  every such flow: it lists the VAAs of the FOGO emitters on Wormholescan, finds out what state each flow is
  in, and submits the next of the legs \<open>receive\<close>, \<open>swap\<close>, \<open>send\<close> or \<open>refund\<close>. VAAs that leave Solana are
  redeemed on FOGO by the bridge scans. The cranker holds no authority: what protects a user is that each leg
  acts on the user's own signed floor and recipient, and that no state of the cranker (caches, watermarks,
  back-off) makes it skip or repeat work wrongly.

  \<^bold>\<open>Third-party code\<close> is a parameter. \<open>web3_env\<close> (\<open>Codec\<close>) holds web3.js, spl-token and the hash functions;
  \<open>AdvanceContext\<close> (\<open>Relayer_Base\<close>), \<open>prep_api\<close> (\<open>Prepare\<close>) and \<open>BridgeContext\<close> (\<open>Bridge\<close>) hold RPC, the NTT SDK,
  timers and the submission of transactions; HTTP is a function from URLs to responses. What a theorem relies on of
  them is a named hypothesis: \<open>pubkey_ctor_ok\<close>, \<open>pda_collision_free\<close>, \<open>pda_keys\<close>, \<open>inbox_derives\<close>, \<open>sha_ok\<close>, \<open>sdk_agrees\<close>, \<open>spl_standard\<close>,
  \<open>ed25519_layout\<close>, \<open>zod_sound\<close>.
  \<open>model_env\<close> and the other \<open>model_\<close> definitions show that the hypotheses can hold.

  \<^bold>\<open>The theories, bottom up.\<close>
  \<^item> \<open>Prelude\<close>: the error sum, the result type, bytes and integers at their widths. \<open>Js_Text\<close>, \<open>Js_Map\<close>: the string
    functions, \<open>BigInt\<close> and \<open>Map\<close> of JavaScript, and \<open>BoundedMap\<close> (\<open>utils/bounded-map.ts\<close>); the locales \<open>kv_store\<close> and
    \<open>evicting_store\<close> are the contract of the two maps, interpreted on both.
  \<^item> SDK values: \<open>Constants\<close>, \<open>Pricing\<close> (\<open>utils/pricing.ts\<close>), \<open>Onre_Nav\<close> (\<open>utils/onre-nav.ts\<close>, \<open>utils/min-out.ts\<close>).
  \<^item> SDK bytes and addresses: \<open>Codec\<close> (the locale \<open>codec\<close> of field readers), \<open>Ntt_State\<close>, \<open>Pda\<close>, \<open>Ntt\<close>, \<open>Vaa\<close>,
    \<open>Fogo_Redeem\<close> (\<open>builders/\<close>, \<open>pda.ts\<close>, \<open>bridge/vaa.ts\<close>, \<open>rpc/accounts.ts\<close>).
  \<^item> SDK intents: \<open>Intent\<close> (the signed message and its instructions), \<open>Signed_Intent\<close> and \<open>Wallet_Recovery\<close> (what the
    cranker reads back from a FOGO transaction).
  \<^item> SDK clients: \<open>Client\<close> (\<open>client.ts\<close>), \<open>Jupiter\<close>, \<open>Onre\<close>, \<open>Wormholescan\<close>, \<open>Rate_Limit\<close> (\<open>rpc/connection.ts\<close>);
    \<open>Idl\<close> (\<open>types/fogo_ntt_relayer.ts\<close>: the interface of the program as data, and what it means to conform to it).
  \<^item> Cranker state: \<open>Flow_State\<close> (\<open>state/flow-state.ts\<close>), \<open>Flow_Lease\<close> (its abstract specification), \<open>Watermarks\<close> (\<open>state/watermarks.ts\<close>, \<open>checkpoint.ts\<close>),
    \<open>Concurrency\<close> (the bounded pool as a step relation, the wake flag), \<open>Log\<close> (error classes).
  \<^item> Cranker legs: \<open>Relayer_Base\<close>, \<open>Legs\<close> (the four handlers), \<open>Leg_Safety\<close> and \<open>Leg_Outcome\<close> (their theorems),
    \<open>Prepare\<close> (the transceiver message).
  \<^item> Cranker loops: \<open>Scan\<close> (\<open>relayer/scan.ts\<close>, \<open>refund-scan.ts\<close>), \<open>Enumerate\<close> (\<open>relayer/enumerate.ts\<close>), \<open>Bridge\<close>,
    \<open>Bridge_Safety\<close>, \<open>Bridge_Scan\<close> (\<open>bridge/\<close>), \<open>Daemon\<close> (\<open>daemon.ts\<close>), \<open>Monitoring\<close>, \<open>Pyth\<close>,
    \<open>Telemetry\<close> (the logger of \<open>utils/log.ts\<close>, \<open>metrics.ts\<close>).
  \<^item> The process: \<open>Config\<close> (\<open>config.ts\<close>), \<open>Cranker\<close> (\<open>index.ts\<close>: start-up, the iteration over all legs, the process as a state
    machine of iterations and retry signals), \<open>Lifecycle\<close> (\<open>main\<close> from its start over the turns of the daemon to its \<open>finally\<close>, and the next
    start; the locale \<open>durable_store\<close> is what it relies on of the checkpoint).
  \<^item> Operators' tools: \<open>Cli_Context\<close>, \<open>Cli_Relayer\<close>, \<open>Cli_Intent\<close> (\<open>packages/cli/src\<close>; the locale \<open>guarded_command\<close> is the contract
    of every command that signs, interpreted on each of them), \<open>Send_Lut\<close> (\<open>scripts/deploy-relayer-send-lut.mjs\<close>), \<open>Recovery\<close>
    (the two scripts that finish a stuck withdrawal).

  \<^bold>\<open>How code becomes definitions.\<close> A definition has the name of the function it models. A \<open>throw\<close> is the left side of a sum,
  so every exception is a value; messages are kept as far as they are constant. An object is a record whose fields carry a
  two-letter prefix. A \<open>bigint\<close> is an \<open>int\<close>, cut to 64 bits where the code writes it to a buffer; sizes and offsets are
  \<open>nat\<close>. A leg is the sequence of its awaits in \<open>rbind\<close>, where an early \<open>return\<close> is an \<open>exit\<close>. Asynchronous code runs
  in the order an argument fixes: the view of the chain at each dispatch, the final state of the pool, the schedule in which
  the pages of two emitters are worked off, the turns of the daemon. A theorem holds for all of them.

  \<^bold>\<open>What is proved.\<close>
  \<^item> Funds: a swap, a send, a refund and a receive are submitted only for the flow's own accounts, amounts and floors
    (\<open>Leg_Safety\<close>); the floor a user signed is the floor the receive leg binds, end to end, for
    withdrawals and deposits (this theory); a bridge scan
    submits only what is due and pays only the recipient (\<open>Bridge_Scan\<close>).
  \<^item> Outcomes: what each result of a leg says about its submission, errors included (\<open>Leg_Outcome\<close>, \<open>Prepare\<close>).
  \<^item> State: the invariants of the flow tracker, of the pool, of the watermarks and of the daemon's back-off, as
    invariants of every sequence of operations; the tracker refines a table of leases; an invariant of the whole process
    over any sequence of iterations (\<open>Cranker\<close>); a restart resumes from the checkpoint, after a clean shutdown exactly
    (\<open>Lifecycle\<close>).
  \<^item> Operations: a command signs only after its checks and with \<open>--confirm\<close>; the fee update writes what was asked; the
    lookup table covers a send; an accepted configuration is within its ranges; a recovery script sends only the release of an
    outbox item of the manager, or the redemption of the VAA for its recipient.
  \<^item> Interface: every call of the client conforms to the interface of the program (\<open>Idl\<close>).
  \<^item> Observation: a call of the logger writes one line at most, whatever a message holds; one listener; gauges read at the scrape
    (\<open>Telemetry\<close>).
  \<^item> Completeness: harvests miss no VAA above the floor, a pending flow is dispatched, recovery finds every candidate.
  \<^item> Encodings: round trips and exactness of the VAA, account, intent and checkpoint formats; commitment of the inbox
    address to wallet and floor.
  \<^item> Arithmetic: the fee split, quotes that never gain, the computed floor, the parser of the offer against a reference.

  \<^bold>\<open>Termination.\<close> The chain of legs and the token bucket are \<open>partial_function\<close>s, so that not returning is \<open>None\<close>; that they
  return, and after how many rounds, are theorems. Every other definition is total. No fuel is used.

  \<^bold>\<open>Not modelled.\<close> Which log lines the operations write and what the commands print; the registration and the text format of the
  series of \<open>prom-client\<close>; the opening of connections in \<open>index.ts\<close>; modules that only export others; the rounding of doubles in rates and prices.
\<close>

section \<open>From the signed intent to the receive leg\<close>

text \<open>What both directions share: a transaction of the user that bridges from the user's own token account and holds the floor in some
  instruction lets the receive leg find the user and the floor of the recipient.\<close>

lemma receive_finds:
  assumes "findUserInboxWithMinPda (acEnv ctx) wallet m (rcProgramId (acClient ctx)) = Inr (recipient, bump)"
    and "\<forall>d\<in>set cs \<union> set_option (bm_get cache (liFogoTx input)). inbox_derives ctx d" "pda_collision_free (acEnv ctx)"
    and "riUserWallet input = None" "liFogoTx input \<noteq> []"
    and "fcGetTransaction (acFogoConnection ctx) (liFogoTx input) = Inr (Some tx)"
    and "bridge \<in> set (ptIxs tx)"
    and "bridges_from (acEnv ctx) (acFogoConnection ctx) (ptKeys tx) DEFAULT_INTENT_PROGRAM_IDS wallet bridge"
    and "ix \<in> set (ptIxs tx)" "m \<in> set (floorsOfIx (acEd25519 ctx) (ptKeys tx) ix)"
    and "recoverWalletAndMinOutCandidates (acEnv ctx) (acEd25519 ctx) (acFogoConnection ctx) (liFogoTx input)
           DEFAULT_INTENT_PROGRAM_IDS = Inr cs"
    and "\<not> acExpired ctx ''recoverWalletAndMinOutCandidates''" "0 \<le> m" "m \<le> U64_MAX"
  shows "\<exists>c. receive_match ctx cache input recipient = Inr c \<and> rwUserWallet c = wallet \<and> rwMinSwapOut c mod 2 ^ 64 = m"
proof -
  have mem: "\<lparr>rwUserWallet = wallet, rwMinSwapOut = m\<rparr> \<in> set cs" by (rule recover_mem [OF assms(5,6,11,7-10)])
  have "deriveInboxAuthority ctx wallet m = Inr recipient" using assms(1) by (simp add: deriveInboxAuthority_def key_of_def)
  with receive_match_hit [OF assms(2,4,12,11) mem] obtain c where c: "receive_match ctx cache input recipient = Inr c" by auto
  from receive_match_Inr [OF c assms(4)] obtain b' where
    "findUserInboxWithMinPda (acEnv ctx) (rwUserWallet c) (rwMinSwapOut c) (rcProgramId (acClient ctx)) = Inr (recipient, b')"
    by (auto simp: deriveInboxAuthority_def key_of_def result_simps)
  from inbox_unique [OF assms(3) this assms(1)] assms(13,14) c show ?thesis by (auto simp: U64_MAX_def)
qed

text \<open>A FOGO connection with one transaction, whose token account belongs to the user.\<close>

definition model_conn :: "ParsedTx \<Rightarrow> fogo_connection" where
  "model_conn tx = \<lparr>fcGetTransaction = \<lambda>_. Inr (Some tx), fcGetAccountData = \<lambda>_. Inr (Some (replicate 32 1 @ replicate 32 9))\<rparr>"

definition model_bridge_ix :: CompiledIx where
  "model_bridge_ix = \<lparr>ciProgramIdIndex = 0, ciAccountKeyIndexes = [0, 0, 0, 1], ciData = []\<rparr>"

lemma model_slice: "bslice (replicate 32 1 @ replicate 32 9) 32 64 = replicate 32 9" "newPublicKey model_env (replicate 32 9) = Inr (replicate 32 9)"
  by (simp_all add: bslice_def model_env_def)

lemma INTENT_ids: "INTENT_TRANSFER_PROGRAM_ID \<in> set DEFAULT_INTENT_PROGRAM_IDS"
  by (simp add: DEFAULT_INTENT_PROGRAM_IDS_def)

lemma model_bridges:
  "keys 0 = Some INTENT_TRANSFER_PROGRAM_ID \<Longrightarrow> keys 1 = Some (replicate 32 7) \<Longrightarrow>
     bridges_from model_env (model_conn tx) keys DEFAULT_INTENT_PROGRAM_IDS (replicate 32 9) model_bridge_ix"
  using INTENT_ids by (simp add: bridges_from_def model_conn_def model_bridge_ix_def model_slice)

lemma model_recovers:
  assumes "keys 0 = Some INTENT_TRANSFER_PROGRAM_ID" "keys 1 = Some (replicate 32 7)" "ciAccountKeyIndexes ix = []"
  shows "\<exists>cs. recoverWalletAndMinOutCandidates model_env [] (model_conn \<lparr>ptKeys = keys, ptIxs = [model_bridge_ix, ix]\<rparr>) ''tx''
     DEFAULT_INTENT_PROGRAM_IDS = Inr cs"
proof -
  have "\<exists>ws. allWalletsFromParsedTx model_env (model_conn \<lparr>ptKeys = keys, ptIxs = [model_bridge_ix, ix]\<rparr>) \<lparr>ptKeys = keys, ptIxs = [model_bridge_ix, ix]\<rparr>
      DEFAULT_INTENT_PROGRAM_IDS = Inr ws"
    using assms INTENT_ids by (simp add: allWalletsFromParsedTx_def model_bridge_ix_def model_conn_def model_slice split: option.split)
  then show ?thesis by (auto simp: recoverWalletAndMinOutCandidates_def fetchParsedTx_def Let_def model_conn_def)
qed

text \<open>C3. What the SDK signs is what the cranker recovers. Take a withdrawal built by \<open>buildFogoRedeemIntentIx\<close> and a FOGO
  transaction that carries its memo and a bridge instruction from the user's token account. When the VAA of that
  transaction names the recipient of the intent, \<open>receive\<close> finds a candidate, whatever its cache holds and
  whatever other instructions the transaction has, and that candidate is the user's wallet with the signed floor.
  Recovery itself has to return with a list \<open>cs\<close> of candidates before its time limit, and the inbox address of each candidate tried
  (those of \<open>cs\<close> and the cached one) must be derivable.\<close>

theorem signed_withdrawal_recovered:
  assumes "buildFogoRedeemIntentIx (acEnv ctx) ie ps = Inr r"
    and "frRelayerProgramId ps = Some (rcProgramId (acClient ctx))"
    and "\<forall>d\<in>set cs \<union> set_option (bm_get cache (liFogoTx input)). inbox_derives ctx d" "pda_collision_free (acEnv ctx)" "acEd25519 ctx \<noteq> MEMO_PROGRAM_ID"
    and "riUserWallet input = None" "liFogoTx input \<noteq> []"
    and "fcGetTransaction (acFogoConnection ctx) (liFogoTx input) = Inr (Some tx)"
    and "bridge \<in> set (ptIxs tx)"
    and "bridges_from (acEnv ctx) (acFogoConnection ctx) (ptKeys tx) DEFAULT_INTENT_PROGRAM_IDS (frUserWallet ps) bridge"
    and "memo \<in> set (ptIxs tx)" "ptKeys tx (ciProgramIdIndex memo) = Some (tiProgramId (riMemoIx r))"
    and "ciData memo = tiData (riMemoIx r)"
    and "recoverWalletAndMinOutCandidates (acEnv ctx) (acEd25519 ctx) (acFogoConnection ctx) (liFogoTx input)
           DEFAULT_INTENT_PROGRAM_IDS = Inr cs"
    and "\<not> acExpired ctx ''recoverWalletAndMinOutCandidates''"
  shows "\<exists>c. receive_match ctx cache input (riRecipientAddress r) = Inr c \<and>
    rwUserWallet c = frUserWallet ps \<and> rwMinSwapOut c mod 2 ^ 64 = frMinSwapOut ps"
proof -
  let ?w = "frUserWallet ps" and ?m = "frMinSwapOut ps" and ?k = "riRecipientAddress r"
  from assms(1,2) obtain b where fl: "0 < ?m" "?m \<le> U64_MAX"
    and memo: "tiProgramId (riMemoIx r) = MEMO_PROGRAM_ID" "tiData (riMemoIx r) = utf8 (MIN_SWAP_OUT_MEMO_PREFIX @ bigint_toString ?m)"
    and pda: "findUserInboxWithMinPda (acEnv ctx) ?w ?m (rcProgramId (acClient ctx)) = Inr (?k, b)"
    by (auto simp: buildFogoRedeemIntentIx_def Let_def result_simps buildMinSwapOutMemoIx_def key_of_def split: if_splits)
  have "?m \<in> set (floorsOfIx (acEd25519 ctx) (ptKeys tx) memo)"
    using assms(5,12,13) fl memo by (simp add: floorsOfIx_def memo_text [simplified] parseMinSwapOutMemo_build)
  from receive_finds [OF pda assms(3,4,6-11) this assms(14,15)] fl show ?thesis by simp
qed

theorem signed_withdrawal_recovered_witness:
  "\<exists>ctx r c. buildFogoRedeemIntentIx (acEnv ctx) model_intent_env
       (model_redeem (replicate 32 9) 42 (Some (rcProgramId model_client))) = Inr r \<and>
     receive_match ctx \<lparr>bmMax = 10, bmEntries = []\<rparr> model_receive_input (riRecipientAddress r) = Inr c \<and>
     rwUserWallet c = replicate 32 9 \<and> rwMinSwapOut c mod 2 ^ 64 = 42"
proof -
  let ?ps = "model_redeem (replicate 32 9) 42 (Some (rcProgramId model_client))"
  obtain r where r: "buildFogoRedeemIntentIx model_env model_intent_env ?ps = Inr r"
    using model_redeem_builds [OF model_env_total, of 42] by (auto simp: U64_MAX_def)
  define keys where "keys = (\<lambda>i :: nat. if i = 0 then Some INTENT_TRANSFER_PROGRAM_ID else if i = 1 then Some (replicate 32 7)
      else if i = 2 then Some (tiProgramId (riMemoIx r)) else None)"
  define mm where "mm = \<lparr>ciProgramIdIndex = 2, ciAccountKeyIndexes = [], ciData = tiData (riMemoIx r)\<rparr>"
  define conn where "conn = model_conn \<lparr>ptKeys = keys, ptIxs = [model_bridge_ix, mm]\<rparr>"
  define ctx where "ctx = (model_ctx model_env [] (Inl (Primitive ''no account'')) [])\<lparr>acFogoConnection := conn\<rparr>"
  have sel: "acEnv ctx = model_env" "acClient ctx = model_client" "acEd25519 ctx = []" "acFogoConnection ctx = conn"
    "\<not> acExpired ctx l" for l by (simp_all add: ctx_def model_ctx_def)
  have tot: "inbox_derives ctx d" for d using inbox_derives_total [of ctx] model_env_total by (simp add: sel)
  have b: "bridges_from model_env conn keys DEFAULT_INTENT_PROGRAM_IDS (replicate 32 9) model_bridge_ix"
    unfolding conn_def by (rule model_bridges) (simp_all add: keys_def)
  obtain cs where cs: "recoverWalletAndMinOutCandidates model_env [] conn ''tx'' DEFAULT_INTENT_PROGRAM_IDS = Inr cs"
    unfolding conn_def using model_recovers [of keys mm] by (auto simp: keys_def mm_def)
  have ed: "[] \<noteq> MEMO_PROGRAM_ID" using length_pk58 by (metis MEMO_PROGRAM_ID_def list.size(3) zero_neq_numeral)
  have inp: "riUserWallet model_receive_input = None" "liFogoTx model_receive_input = ''tx''"
    by (simp_all add: model_receive_input_def)
  have "\<exists>c. receive_match ctx \<lparr>bmMax = 10, bmEntries = []\<rparr> model_receive_input (riRecipientAddress r) = Inr c \<and>
    rwUserWallet c = frUserWallet ?ps \<and> rwMinSwapOut c mod 2 ^ 64 = frMinSwapOut ?ps"
    by (rule signed_withdrawal_recovered [where tx = "\<lparr>ptKeys = keys, ptIxs = [model_bridge_ix, mm]\<rparr>"
          and bridge = model_bridge_ix and memo = mm and cs = cs])
       (use r b cs ed tot model_env_pda in \<open>simp_all add: sel inp model_redeem_def conn_def model_conn_def keys_def mm_def\<close>)
  moreover have "frUserWallet ?ps = replicate 32 9" "frMinSwapOut ?ps = 42" by (simp_all add: model_redeem_def)
  ultimately show ?thesis using r unfolding sel(1) [symmetric] by metis
qed

text \<open>A deposit, and an environment with the documented verifier instruction.\<close>

definition model_verifier_env :: intent_env where
  "model_verifier_env = \<lparr>ED25519_PROGRAM_ID = [],
     createInstructionWithPublicKey = (\<lambda>pk sig m. Inr \<lparr>tiProgramId = [], tiKeys = [],
       tiData = [1, 0] @ nat_le 2 48 @ nat_le 2 CURRENT_IX @ nat_le 2 16 @ nat_le 2 CURRENT_IX @ nat_le 2 112 @
          nat_le 2 (length m) @ nat_le 2 CURRENT_IX @ pk @ sig @ m\<rparr>),
     SYSVAR_INSTRUCTIONS_PUBKEY = [], ASSOCIATED_TOKEN_PROGRAM_ID = []\<rparr>"

definition model_deposit :: BuildBridgeOutIntentMessageParams where
  "model_deposit = \<lparr>imFromChainId = ''fogo'', imToChainId = ''solana'', imTokenSymbolOrMint = ''USDC'', imAmount = ''12.5'',
      imFeeTokenSymbolOrMint = ''USDC'', imFeeAmount = ''0.1'', imMinOut = 990000000, imNonce = 7\<rparr>"

text \<open>C4. The same for a deposit, whose floor stands only in the message the user signs. Take an intent message with a positive floor
  whose other fields are plain text, the verifier instruction the SDK builds for it, in either of its two forms, and a
  FOGO transaction that carries this instruction and a bridge instruction from the wallet's token account. When the VAA
  of the transaction names the inbox of the wallet and the floor, \<open>receive\<close> finds the wallet and the floor, whatever its cache holds
  and whatever other instructions the transaction has, under the same conditions on recovery.\<close>

theorem signed_deposit_recovered:
  assumes "intent_clean ps" "0 < imMinOut ps" "imMinOut ps \<le> U64_MAX"
    and "buildIntentVerifierIx ie wallet signature (buildBridgeOutIntentMessage ps) = Inr ix" "ed25519_layout ie"
    and "length wallet = 32" "length signature = 64" "112 + length (buildBridgeOutIntentMessage ps) < 65536"
    and "findUserInboxWithMinPda (acEnv ctx) wallet (imMinOut ps) (rcProgramId (acClient ctx)) = Inr (recipient, bump)"
    and "\<forall>d\<in>set cs \<union> set_option (bm_get cache (liFogoTx input)). inbox_derives ctx d" "pda_collision_free (acEnv ctx)" "acEd25519 ctx = ED25519_PROGRAM_ID ie"
    and "riUserWallet input = None" "liFogoTx input \<noteq> []"
    and "fcGetTransaction (acFogoConnection ctx) (liFogoTx input) = Inr (Some tx)"
    and "bridge \<in> set (ptIxs tx)"
    and "bridges_from (acEnv ctx) (acFogoConnection ctx) (ptKeys tx) DEFAULT_INTENT_PROGRAM_IDS wallet bridge"
    and "verifier \<in> set (ptIxs tx)" "ptKeys tx (ciProgramIdIndex verifier) = Some (tiProgramId ix)" "ciData verifier = tiData ix"
    and "recoverWalletAndMinOutCandidates (acEnv ctx) (acEd25519 ctx) (acFogoConnection ctx) (liFogoTx input)
           DEFAULT_INTENT_PROGRAM_IDS = Inr cs"
    and "\<not> acExpired ctx ''recoverWalletAndMinOutCandidates''"
  shows "\<exists>c. receive_match ctx cache input recipient = Inr c \<and> rwUserWallet c = wallet \<and> rwMinSwapOut c mod 2 ^ 64 = imMinOut ps"
proof -
  note v = verifier_messages [OF assms(4-8)]
  have "imMinOut ps \<in> set (floorsOfIx (acEd25519 ctx) (ptKeys tx) verifier)"
    using v assms(1-3,12,19,20) intent_floors by (simp add: floorsOfIx_def)
  from receive_finds [OF assms(9-11,13-18) this assms(21,22)] assms(2,3) show ?thesis by simp
qed

theorem signed_deposit_recovered_witness:
  "\<exists>ctx recipient c. receive_match ctx \<lparr>bmMax = 10, bmEntries = []\<rparr> model_receive_input recipient = Inr c \<and>
     rwUserWallet c = replicate 32 9 \<and> rwMinSwapOut c mod 2 ^ 64 = 990000000"
proof -
  let ?m = "buildBridgeOutIntentMessage model_deposit" and ?w = "replicate 32 9 :: bytes"
  obtain ix where ix: "buildIntentVerifierIx model_verifier_env ?w (replicate 64 1) ?m = Inr ix"
    by (cases "indexOfBytes ?m ?w") (auto simp: buildIntentVerifierIx_def model_verifier_env_def)
  have layout: "ed25519_layout model_verifier_env" by (simp add: ed25519_layout_def model_verifier_env_def)
  have len: "112 + length ?m < 65536"
    by (simp add: buildBridgeOutIntentMessage_def intent_text model_deposit_def intentHead_def intentTail_def lines_text_def MIN_OUT_KEY_def
        bigint_toString_def dec_of_nat.simps INTENT_VERSION_MAJOR_def INTENT_VERSION_MINOR_def)
  have clean: "intent_clean model_deposit" by (simp add: model_deposit_def intent_clean_def clean_def ascii_def newline_def)
  have prog: "tiProgramId ix = []" using verifier_messages(2) [OF ix layout] len by (simp add: model_verifier_env_def)
  define keys where "keys = (\<lambda>i :: nat. if i = 0 then Some INTENT_TRANSFER_PROGRAM_ID else if i = 1 then Some (replicate 32 7)
      else if i = 2 then Some (tiProgramId ix) else None)"
  define vr where "vr = \<lparr>ciProgramIdIndex = 2, ciAccountKeyIndexes = [], ciData = tiData ix\<rparr>"
  define conn where "conn = model_conn \<lparr>ptKeys = keys, ptIxs = [model_bridge_ix, vr]\<rparr>"
  define ctx where "ctx = (model_ctx model_env [] (Inl (Primitive ''no account'')) [])\<lparr>acFogoConnection := conn\<rparr>"
  have sel: "acEnv ctx = model_env" "acClient ctx = model_client" "acEd25519 ctx = []" "acFogoConnection ctx = conn"
    "\<not> acExpired ctx l" for l by (simp_all add: ctx_def model_ctx_def)
  have tot: "inbox_derives ctx d" for d using inbox_derives_total [of ctx] model_env_total by (simp add: sel)
  have b: "bridges_from model_env conn keys DEFAULT_INTENT_PROGRAM_IDS ?w model_bridge_ix"
    unfolding conn_def by (rule model_bridges) (simp_all add: keys_def)
  obtain cs where cs: "recoverWalletAndMinOutCandidates model_env [] conn ''tx'' DEFAULT_INTENT_PROGRAM_IDS = Inr cs"
    unfolding conn_def using model_recovers [of keys vr] INTENT_ids by (auto simp: keys_def vr_def prog)
  obtain k bump where pda: "findUserInboxWithMinPda model_env ?w 990000000 (rcProgramId model_client) = Inr (k, bump)"
    using model_env_total unfolding findUserInboxWithMinPda_def env_total_def Let_def by blast
  have "\<exists>c. receive_match ctx \<lparr>bmMax = 10, bmEntries = []\<rparr> model_receive_input k = Inr c \<and>
    rwUserWallet c = ?w \<and> rwMinSwapOut c mod 2 ^ 64 = imMinOut model_deposit"
    by (rule signed_deposit_recovered [OF clean _ _ ix layout _ _ len, where tx = "\<lparr>ptKeys = keys, ptIxs = [model_bridge_ix, vr]\<rparr>"
          and bridge = model_bridge_ix and verifier = vr and cs = cs and bump = bump])
       (use b cs pda tot model_env_pda in \<open>simp_all add: sel model_deposit_def model_receive_input_def conn_def model_conn_def keys_def vr_def
          U64_MAX_def model_verifier_env_def\<close>)
  then show ?thesis by (auto simp: model_deposit_def)
qed

end
